(* ===== verification/Prelude.thy ===== *)
theory Prelude
  imports Main "HOL-Library.Word" "HOL-Library.Multiset"
begin

text \<open>
  Shared vocabulary of the development: the machine-integer type of the C++ code, ordered maps
  (\<^verbatim>\<open>std::map\<close>) as association lists with strictly increasing keys, the contract of
  \<^verbatim>\<open>std::sort\<close> as a locale, a stable insertion sort that meets it (the model of
  \<^verbatim>\<open>std::stable_sort\<close>), and list lemmas used by several components.
\<close>

named_theorems omap_simps \<open>lookup and key facts of ordered maps\<close>
named_theorems status_simps \<open>return codes\<close>

type_synonym u64 = "64 word"

lemma u64_bound: "unat (x :: u64) < 2 ^ 64"
  using unsigned_less [of x] by simp

lemma unat_u64_add: "unat (a + b :: u64) = (unat a + unat b) mod 2 ^ 64"
  by (simp add: unat_word_ariths)

lemma unat_u64_max: "unat (- 1 :: u64) = 2 ^ 64 - 1"
  by (simp add: unsigned_minus_1_eq_mask mask_eq_exp_minus_1)

lemma unat_u64_max_sub: "unat (- 1 - b :: u64) = 2 ^ 64 - 1 - unat b"
proof -
  have "b \<le> - 1" by simp
  then have "unat (- 1 - b) = unat (- 1 :: u64) - unat b" by (rule unat_sub)
  then show ?thesis by (simp add: unat_u64_max)
qed

subsection \<open>Ordered maps\<close>

text \<open>
  \<^verbatim>\<open>std::map\<close> iterates in key order, so its model keeps the order: an association list whose
  keys increase strictly. \<^verbatim>\<open>find\<close> is \<^const>\<open>map_of\<close>, \<^verbatim>\<open>m[k] = v\<close> is \<open>omap_put\<close>,
  \<^verbatim>\<open>insert\<close> (which keeps an existing entry) is \<open>omap_insert\<close>, \<^verbatim>\<open>erase\<close> is \<open>omap_erase\<close>.
\<close>

type_synonym ('k, 'v) omap = "('k \<times> 'v) list"

definition omap_keys :: "('k, 'v) omap \<Rightarrow> 'k list" where
  "omap_keys m = map fst m"

definition omap_ok :: "('k::linorder, 'v) omap \<Rightarrow> bool" where
  "omap_ok m \<longleftrightarrow> sorted_wrt (<) (omap_keys m)"

fun omap_put :: "'k::linorder \<Rightarrow> 'v \<Rightarrow> ('k, 'v) omap \<Rightarrow> ('k, 'v) omap" where
  "omap_put k v [] = [(k, v)]"
| "omap_put k v ((a, b) # m) =
     (if k = a then (k, v) # m else if k < a then (k, v) # (a, b) # m else (a, b) # omap_put k v m)"

definition omap_insert :: "'k::linorder \<Rightarrow> 'v \<Rightarrow> ('k, 'v) omap \<Rightarrow> ('k, 'v) omap" where
  "omap_insert k v m = (if map_of m k = None then omap_put k v m else m)"

fun omap_erase :: "'k \<Rightarrow> ('k, 'v) omap \<Rightarrow> ('k, 'v) omap" where
  "omap_erase k [] = []"
| "omap_erase k ((a, b) # m) = (if k = a then m else (a, b) # omap_erase k m)"

text \<open>\<^verbatim>\<open>m[k]\<close> as an rvalue default-constructs a missing entry; \<open>omap_get d m k\<close> reads it.\<close>

definition omap_get :: "'v \<Rightarrow> ('k, 'v) omap \<Rightarrow> 'k \<Rightarrow> 'v" where
  "omap_get d m k = (case map_of m k of None \<Rightarrow> d | Some v \<Rightarrow> v)"

lemma omap_ok_Nil [simp, intro]: "omap_ok []"
  by (simp add: omap_ok_def omap_keys_def)

lemma omap_ok_Cons [omap_simps]:
  "omap_ok ((a, b) # m) \<longleftrightarrow> (\<forall>k \<in> fst ` set m. a < k) \<and> omap_ok m"
  by (simp add: omap_ok_def omap_keys_def)

lemma omap_keys_put: "fst ` set (omap_put k v m) = insert k (fst ` set m)"
  by (induction k v m rule: omap_put.induct) auto

lemma omap_ok_put [intro]: "omap_ok m \<Longrightarrow> omap_ok (omap_put k v m)"
proof (induction k v m rule: omap_put.induct)
  case (1 k v)
  show ?case by (simp add: omap_simps)
next
  case (2 k v a b m)
  then show ?case by (auto simp: omap_simps omap_keys_put)
qed

lemma map_of_omap_put [omap_simps]: "map_of (omap_put k v m) = (map_of m)(k \<mapsto> v)"
  by (induction k v m rule: omap_put.induct) auto

lemma map_of_notin: "k \<notin> fst ` set m \<Longrightarrow> map_of m k = None"
  by (simp add: map_of_eq_None_iff)

lemma map_of_omap_erase [omap_simps]:
  "omap_ok m \<Longrightarrow> map_of (omap_erase k m) = (map_of m)(k := None)"
proof (induction k m rule: omap_erase.induct)
  case (1 k)
  show ?case by simp
next
  case (2 k a b m)
  then show ?case by (auto simp: omap_simps fun_eq_iff intro!: map_of_notin)
qed

lemma set_omap_erase: "set (omap_erase k m) \<subseteq> set m"
  by (induction k m rule: omap_erase.induct) auto

lemma omap_ok_erase [intro]: "omap_ok m \<Longrightarrow> omap_ok (omap_erase k m)"
proof (induction k m rule: omap_erase.induct)
  case (1 k)
  show ?case by simp
next
  case (2 k a b m)
  then show ?case using set_omap_erase [of k m] by (auto simp: omap_simps)
qed

lemma omap_ok_insert [intro]: "omap_ok m \<Longrightarrow> omap_ok (omap_insert k v m)"
  by (auto simp: omap_insert_def)

lemma map_of_omap_insert [omap_simps]:
  "map_of (omap_insert k v m) = (if map_of m k = None then (map_of m)(k \<mapsto> v) else map_of m)"
  by (simp add: omap_insert_def omap_simps)

lemma omap_ok_distinct: "omap_ok m \<Longrightarrow> distinct (map fst m)"
  by (simp add: omap_ok_def omap_keys_def strict_sorted_iff)

lemma omap_in_set: "omap_ok m \<Longrightarrow> (k, v) \<in> set m \<longleftrightarrow> map_of m k = Some v"
  by (simp add: omap_ok_distinct)

subsection \<open>The map interface\<close>

text \<open>
  What the components rely on when they keep their records in a \<^verbatim>\<open>std::map\<close>: an update and
  a deletion change one key only, and the representation invariant is kept.
\<close>

locale keyed_store =
  fixes lookup :: "'m \<Rightarrow> 'k \<Rightarrow> 'v option"
    and put :: "'k \<Rightarrow> 'v \<Rightarrow> 'm \<Rightarrow> 'm"
    and erase :: "'k \<Rightarrow> 'm \<Rightarrow> 'm"
    and ok :: "'m \<Rightarrow> bool"
  assumes lookup_put: "ok m \<Longrightarrow> lookup (put k v m) = (lookup m)(k \<mapsto> v)"
    and lookup_erase: "ok m \<Longrightarrow> lookup (erase k m) = (lookup m)(k := None)"
    and ok_put: "ok m \<Longrightarrow> ok (put k v m)"
    and ok_erase: "ok m \<Longrightarrow> ok (erase k m)"
begin

lemma ok_fold_erase: "ok m \<Longrightarrow> ok (fold erase ks m)"
  by (induction ks arbitrary: m) (auto intro: ok_erase)

lemma lookup_fold_erase:
  "ok m \<Longrightarrow> lookup (fold erase ks m) k = (if k \<in> set ks then None else lookup m k)"
  by (induction ks arbitrary: m) (auto simp: lookup_erase ok_erase)

lemma erase_put_other: "ok m \<Longrightarrow> k \<noteq> k' \<Longrightarrow> lookup (erase k (put k' v m)) k' = Some v"
  by (simp add: lookup_erase lookup_put ok_put)

end

interpretation om: keyed_store map_of omap_put omap_erase omap_ok
  by unfold_locales (auto simp: omap_simps)

subsection \<open>Sorting\<close>

text \<open>
  A comparator given to \<^verbatim>\<open>std::sort\<close> has to be a strict weak ordering on the elements of
  the range. The standard fixes the result only up to the order of equivalent elements, so the
  code that sorts is modelled with the sorting routine as an argument, under this contract.
\<close>

definition strict_weak :: "('a \<Rightarrow> 'a \<Rightarrow> bool) \<Rightarrow> 'a set \<Rightarrow> bool" where
  "strict_weak lt A \<longleftrightarrow>
     (\<forall>x \<in> A. \<not> lt x x) \<and>
     (\<forall>x \<in> A. \<forall>y \<in> A. \<forall>z \<in> A. lt x y \<longrightarrow> lt y z \<longrightarrow> lt x z) \<and>
     (\<forall>x \<in> A. \<forall>y \<in> A. \<forall>z \<in> A. \<not> lt x y \<longrightarrow> \<not> lt y z \<longrightarrow> \<not> lt x z)"

lemma strict_weak_neg:
  "strict_weak lt A \<Longrightarrow> x \<in> A \<Longrightarrow> y \<in> A \<Longrightarrow> z \<in> A \<Longrightarrow> \<not> lt x y \<Longrightarrow> \<not> lt y z \<Longrightarrow> \<not> lt x z"
  unfolding strict_weak_def by blast

lemma strict_weak_subset: "strict_weak lt A \<Longrightarrow> B \<subseteq> A \<Longrightarrow> strict_weak lt B"
  unfolding strict_weak_def by (meson subsetD)

lemma strict_weak_asym: "strict_weak lt A \<Longrightarrow> x \<in> A \<Longrightarrow> y \<in> A \<Longrightarrow> lt x y \<Longrightarrow> \<not> lt y x"
  unfolding strict_weak_def by blast

locale std_sort =
  fixes srt :: "('a \<Rightarrow> 'a \<Rightarrow> bool) \<Rightarrow> 'a list \<Rightarrow> 'a list"
  assumes mset_srt: "strict_weak lt (set xs) \<Longrightarrow> mset (srt lt xs) = mset xs"
    and sorted_srt: "strict_weak lt (set xs) \<Longrightarrow> sorted_wrt (\<lambda>a b. \<not> lt b a) (srt lt xs)"
begin

lemma set_srt: "strict_weak lt (set xs) \<Longrightarrow> set (srt lt xs) = set xs"
  by (metis mset_srt set_mset_mset)

lemma distinct_srt: "strict_weak lt (set xs) \<Longrightarrow> distinct (srt lt xs) = distinct xs"
  by (metis mset_srt mset_eq_imp_distinct_iff)

lemma find_srt_in:
  "strict_weak lt (set xs) \<Longrightarrow> find P (srt lt xs) = Some x \<Longrightarrow> x \<in> set xs \<and> P x"
  by (metis find_Some_iff nth_mem set_srt)

lemma find_srt_None:
  "strict_weak lt (set xs) \<Longrightarrow> find P (srt lt xs) = None \<longleftrightarrow> (\<forall>x \<in> set xs. \<not> P x)"
  by (auto simp: find_None_iff set_srt)

text \<open>The first element of the sorted range that satisfies a test is a least one.\<close>

lemma find_srt_least:
  assumes sw: "strict_weak lt (set xs)" and f: "find P (srt lt xs) = Some x"
    and y: "y \<in> set xs" "P y"
  shows "\<not> lt y x"
proof -
  let ?s = "srt lt xs"
  from f obtain i where i: "i < length ?s" "x = ?s ! i" and before: "\<forall>j<i. \<not> P (?s ! j)"
    by (auto simp: find_Some_iff)
  from y(1) obtain j where j: "j < length ?s" "y = ?s ! j"
    by (metis set_srt [OF sw] in_set_conv_nth)
  from before j(2) y(2) have "i \<le> j" by (meson leI)
  show ?thesis
  proof (cases "i = j")
    case True
    with i j y(1) sw show ?thesis by (simp add: strict_weak_def)
  next
    case False
    with \<open>i \<le> j\<close> i j sorted_srt [OF sw] show ?thesis by (simp add: sorted_wrt_iff_nth_less)
  qed
qed

end

text \<open>Comparing by a key of a linear order is a strict weak ordering.\<close>

lemma strict_weak_key: "strict_weak (\<lambda>a b. (f a :: 'k::linorder) < f b) A"
  by (auto simp: strict_weak_def)

lemma strict_weak_key_rev: "strict_weak (\<lambda>a b. (f a :: 'k::linorder) > f b) A"
  by (auto simp: strict_weak_def)

text \<open>
  \<^verbatim>\<open>std::stable_sort\<close>: insertion from the right, an element goes before the first one it is
  not greater than, so equivalent elements keep their order.
\<close>

fun stable_insert :: "('a \<Rightarrow> 'a \<Rightarrow> bool) \<Rightarrow> 'a \<Rightarrow> 'a list \<Rightarrow> 'a list" where
  "stable_insert lt x [] = [x]"
| "stable_insert lt x (y # ys) = (if lt y x then y # stable_insert lt x ys else x # y # ys)"

fun stable_sort :: "('a \<Rightarrow> 'a \<Rightarrow> bool) \<Rightarrow> 'a list \<Rightarrow> 'a list" where
  "stable_sort lt [] = []"
| "stable_sort lt (x # xs) = stable_insert lt x (stable_sort lt xs)"

lemma mset_stable_insert: "mset (stable_insert lt x xs) = add_mset x (mset xs)"
  by (induction xs) auto

lemma mset_stable_sort: "mset (stable_sort lt xs) = mset xs"
  by (induction xs) (auto simp: mset_stable_insert)

lemma set_stable_insert: "set (stable_insert lt x xs) = insert x (set xs)"
  by (metis mset_stable_insert set_mset_mset set_mset_add_mset_insert)

lemma set_stable_sort [simp]: "set (stable_sort lt xs) = set xs"
  by (metis mset_stable_sort set_mset_mset)

lemma sorted_stable_insert:
  assumes "strict_weak lt (insert x (set xs))" and "sorted_wrt (\<lambda>a b. \<not> lt b a) xs"
  shows "sorted_wrt (\<lambda>a b. \<not> lt b a) (stable_insert lt x xs)"
  using assms
proof (induction xs)
  case Nil
  show ?case by simp
next
  case (Cons y ys)
  have sw: "strict_weak lt (insert x (set ys))"
    by (rule strict_weak_subset [OF Cons.prems(1)]) auto
  show ?case
  proof (cases "lt y x")
    case True
    then have "\<not> lt x y"
      by (rule strict_weak_asym [OF Cons.prems(1), rotated 2]) auto
    with True Cons sw show ?thesis by (auto simp: set_stable_insert)
  next
    case False
    have "\<not> lt z x" if "z \<in> set ys" for z
    proof -
      from that Cons.prems(2) have "\<not> lt z y" by simp
      then show ?thesis
        by (rule strict_weak_neg [OF Cons.prems(1), rotated 3]) (use False that in auto)
    qed
    with False Cons.prems show ?thesis by auto
  qed
qed

lemma sorted_stable_sort:
  "strict_weak lt (set xs) \<Longrightarrow> sorted_wrt (\<lambda>a b. \<not> lt b a) (stable_sort lt xs)"
proof (induction xs)
  case Nil
  show ?case by simp
next
  case (Cons x xs)
  from Cons.prems have "strict_weak lt (set xs)"
    by (rule strict_weak_subset) auto
  with Cons show ?case by (auto intro: sorted_stable_insert)
qed

interpretation stable: std_sort stable_sort
  by unfold_locales (simp_all add: mset_stable_sort sorted_stable_sort)

text \<open>Stability: elements equivalent to a given one come out in their original order.\<close>

lemma stable_insert_filter:
  assumes "\<And>y. y \<in> set xs \<Longrightarrow> P y \<Longrightarrow> P x \<Longrightarrow> \<not> lt y x"
  shows "filter P (stable_insert lt x xs) = filter P (x # xs)"
  using assms by (induction xs) auto

lemma stable_sort_filter:
  assumes "\<And>y z. y \<in> set xs \<Longrightarrow> z \<in> set xs \<Longrightarrow> P y \<Longrightarrow> P z \<Longrightarrow> \<not> lt y z"
  shows "filter P (stable_sort lt xs) = filter P xs"
  using assms
proof (induction xs)
  case Nil
  show ?case by simp
next
  case (Cons x xs)
  have "filter P (stable_sort lt (x # xs)) = filter P (x # stable_sort lt xs)"
    unfolding stable_sort.simps by (rule stable_insert_filter) (use Cons.prems in auto)
  with Cons show ?case by simp
qed

subsection \<open>Fields of a JSON object\<close>

text \<open>
  A field is absent, present with a value that \<^verbatim>\<open>get<T>\<close> refuses, or present with the value \<^verbatim>\<open>get<T>\<close> returns.
\<close>

datatype 'a jfield = Missing | BadType | Val 'a

fun jget :: "'a jfield \<Rightarrow> 'a option" where
  "jget (Val v) = Some v"
| "jget _ = None"

end
