(* ===== verification/Req_Agent.thy ===== *)
theory Req_Agent
  imports Prelude
begin

text \<open>
  \<^verbatim>\<open>coordinator/request_monitor/ReqAgent.{h,cpp}\<close>: the record the coordinator keeps for a request while it
  travels through the cluster, with the queue (\<^verbatim>\<open>common/data_structure/WriteDeque.h\<close>) that holds decode tokens back
  until the first token from the prefill instance was sent. Connections are named by numbers; a response
  handed to the user's connection is an element of the list of sent responses.
\<close>

subsection \<open>Data\<close>

datatype ReqInferType = TGI | VLLM | OPENAI | TRITON | MINDIE | TOKENIZER

datatype ReqState = ARRIVE | SCHEDULED | REPEATED | FIRST_TOKEN_FINISH | FINISH | SEND_TOKENS_TO_USER
  | RECV_TOKENS_FROM_INS | EXCEPTION | RS_TIMEOUT | RETRY

record ServerRes =
  isFinish :: bool
  res_state :: nat
  res_id :: string
  res_body :: string
  contentType :: string

record ReqNodeInfo =
  prefillIP :: string
  prefillPort :: string
  decodeIP :: string
  decodePort :: string

definition UNKNOWN_ID :: u64 where
  "UNKNOWN_ID = - 1"

record ReqAgent =
  isStream :: bool
  inferType :: ReqInferType
  outputNum :: u64
  ra_retry :: u64
  ra_reqId :: string
  reqNodeInfo :: ReqNodeInfo
  ra_modelName :: string
  connection :: "nat option"
  ra_req :: string
  ra_route :: "u64 \<times> u64"
  ra_routeIp :: "string list"
  ra_status :: "ReqState \<Rightarrow> u64 list"
  waitQueue :: "ServerRes list"
  clientConn :: "nat option"

text \<open>The constructor leaves the route uninitialised: it is an argument here. A state never recorded has no entry
  in the status map; entries are never empty and never removed, so the empty list stands for no entry.\<close>

definition new_ReqAgent :: "u64 \<times> u64 \<Rightarrow> string \<Rightarrow> ReqInferType \<Rightarrow> nat option \<Rightarrow> string \<Rightarrow> ReqAgent" where
  "new_ReqAgent route0 rid typ conn req = \<lparr>isStream = True, inferType = typ, outputNum = 0, ra_retry = 0, ra_reqId = rid,
     reqNodeInfo = \<lparr>prefillIP = [], prefillPort = [], decodeIP = [], decodePort = []\<rparr>, ra_modelName = [],
     connection = conn, ra_req = req, ra_route = route0, ra_routeIp = [[], [], [], []], ra_status = (\<lambda>_. []),
     waitQueue = [], clientConn = None\<rparr>"

subsection \<open>Operations\<close>

definition SetIsStream :: "bool \<Rightarrow> ReqAgent \<Rightarrow> ReqAgent" where
  "SetIsStream b a = a\<lparr>isStream := b\<rparr>"

definition ra_AddOutputNum :: "u64 \<Rightarrow> ReqAgent \<Rightarrow> ReqAgent" where
  "ra_AddOutputNum n a = a\<lparr>outputNum := outputNum a + n\<rparr>"

definition ClearOutputNum :: "ReqAgent \<Rightarrow> ReqAgent" where
  "ClearOutputNum a = a\<lparr>outputNum := 0\<rparr>"

definition ra_AddRetry :: "ReqAgent \<Rightarrow> ReqAgent" where
  "ra_AddRetry a = a\<lparr>ra_retry := ra_retry a + 1\<rparr>"

definition ClearRetry :: "ReqAgent \<Rightarrow> ReqAgent" where
  "ClearRetry a = a\<lparr>ra_retry := 0\<rparr>"

definition SetReq :: "string \<Rightarrow> ReqAgent \<Rightarrow> ReqAgent" where
  "SetReq r a = a\<lparr>ra_req := r\<rparr>"

definition ra_SetRoute :: "u64 \<times> u64 \<Rightarrow> ReqAgent \<Rightarrow> ReqAgent" where
  "ra_SetRoute r a = a\<lparr>ra_route := r\<rparr>"

definition ra_SetRouteIp :: "string list \<Rightarrow> ReqAgent \<Rightarrow> ReqAgent" where
  "ra_SetRouteIp r a = a\<lparr>ra_routeIp := r\<rparr>"

definition SetReqNodeInfo :: "string \<Rightarrow> string \<Rightarrow> string \<Rightarrow> string \<Rightarrow> ReqAgent \<Rightarrow> ReqAgent" where
  "SetReqNodeInfo pip pport dip dport a =
     a\<lparr>reqNodeInfo := \<lparr>prefillIP = pip, prefillPort = pport, decodeIP = dip, decodePort = dport\<rparr>\<rparr>"

definition ra_SetModelName :: "string \<Rightarrow> ReqAgent \<Rightarrow> ReqAgent" where
  "ra_SetModelName n a = a\<lparr>ra_modelName := n\<rparr>"

definition ra_UpdateState :: "ReqState \<Rightarrow> u64 \<Rightarrow> ReqAgent \<Rightarrow> ReqAgent" where
  "ra_UpdateState st time a = a\<lparr>ra_status := (ra_status a)(st := ra_status a st @ [time])\<rparr>"

definition ra_HasState :: "ReqState \<Rightarrow> ReqAgent \<Rightarrow> bool" where
  "ra_HasState st a \<longleftrightarrow> ra_status a st \<noteq> []"

definition ra_GetStateTime :: "ReqState \<Rightarrow> ReqAgent \<Rightarrow> u64 list" where
  "ra_GetStateTime st a = (if ra_status a st = [] then [0] else ra_status a st)"

definition SetClientConn :: "nat option \<Rightarrow> ReqAgent \<Rightarrow> ReqAgent" where
  "SetClientConn conn a = a\<lparr>clientConn := conn\<rparr>"

definition ClearLargeMembers :: "ReqAgent \<Rightarrow> ReqAgent" where
  "ClearLargeMembers a = a\<lparr>ra_req := [], waitQueue := []\<rparr>"

subsection \<open>Streaming (RepeatPStreamToken, RepeatDStreamToken)\<close>

text \<open>\<open>drain\<close> is the loop that empties the queue of held-back decode tokens: the responses it sends, and whether it
  met the last one, after which it stops.\<close>

fun drain :: "ServerRes list \<Rightarrow> ServerRes list \<times> ServerRes list \<times> bool" where
  "drain [] = ([], [], False)"
| "drain (d # q) = (if isFinish d then ([d], q, True) else let (sent, q', fin) = drain q in (d # sent, q', fin))"

definition RepeatPStreamToken :: "ServerRes \<Rightarrow> bool \<Rightarrow> ReqAgent \<Rightarrow> ServerRes list \<times> bool \<times> ReqAgent" where
  "RepeatPStreamToken res reqFinish a = (if connection a = None then ([], reqFinish, a)
     else let (sent, q, fin) = drain (waitQueue a)
          in (res # sent, fin, a\<lparr>waitQueue := q, outputNum := outputNum a + 1 + word_of_nat (length sent)\<rparr>))"

text \<open>\<^verbatim>\<open>RepeatDStreamToken\<close> holds \<^verbatim>\<open>pdSyncMtx\<close> only while it decides whether to hold the token back (\<open>d_check\<close>: the flag says that
  the token is to be sent); it sends the token after it has released the lock (\<open>d_send\<close>).\<close>

definition d_check :: "ServerRes \<Rightarrow> ReqAgent \<Rightarrow> bool \<times> ReqAgent" where
  "d_check res a = (if \<not> ra_HasState FIRST_TOKEN_FINISH a then (False, a\<lparr>waitQueue := waitQueue a @ [res]\<rparr>) else (True, a))"

definition d_send :: "ServerRes \<Rightarrow> ReqAgent \<Rightarrow> ServerRes list \<times> bool \<times> ReqAgent" where
  "d_send res a = ([res], isFinish res, ra_AddOutputNum 1 a)"

definition RepeatDStreamToken :: "ServerRes \<Rightarrow> bool \<Rightarrow> ReqAgent \<Rightarrow> ServerRes list \<times> bool \<times> ReqAgent" where
  "RepeatDStreamToken res reqFinish a = (if connection a = None then ([], reqFinish, a)
     else case d_check res a of (False, a') \<Rightarrow> ([], reqFinish, a') | (True, a') \<Rightarrow> d_send res a')"

subsection \<open>The tokens of one stream\<close>

text \<open>
  The handler of the prefill response (\<^verbatim>\<open>SendPResStream\<close>) records \<open>FIRST_TOKEN_FINISH\<close> (\<^verbatim>\<open>PResFinish\<close>), without the lock, and then
  calls \<^verbatim>\<open>RepeatPStreamToken\<close>, which holds the lock while it sends the first token and the tokens held back. The handler
  of the decode connection calls \<^verbatim>\<open>RepeatDStreamToken\<close> for one token after the other. The two run on different threads.
  \<open>stream_step\<close> is one step of either: every send is a step of its own, and a decode token that has passed its check
  (\<open>passing\<close>) can be sent at any time, also while the other handler holds the lock; only the check has to wait for it. Without a
  connection to the user both handlers return at once.
\<close>

datatype p_turn = Before | Marked | Sending | After

record stream =
  agent :: ReqAgent
  received :: "ServerRes list"
  arriving :: "ServerRes list"
  passing :: "ServerRes option"
  turn :: p_turn

definition new_stream :: "ReqAgent \<Rightarrow> ServerRes list \<Rightarrow> stream" where
  "new_stream a ds = \<lparr>agent = a, received = [], arriving = ds, passing = None, turn = Before\<rparr>"

inductive stream_step :: "ServerRes \<Rightarrow> u64 \<Rightarrow> stream \<Rightarrow> stream \<Rightarrow> bool" for p t where
  mark: "turn s = Before \<Longrightarrow> stream_step p t s (s\<lparr>agent := ra_UpdateState FIRST_TOKEN_FINISH t (agent s), turn := Marked\<rparr>)"
| first: "turn s = Marked \<Longrightarrow> connection (agent s) \<noteq> None \<Longrightarrow> stream_step p t s (s\<lparr>agent := ra_AddOutputNum 1 (agent s), received := received s @ [p], turn := Sending\<rparr>)"
| held: "turn s = Sending \<Longrightarrow> waitQueue (agent s) = d # q \<Longrightarrow>
    stream_step p t s (s\<lparr>agent := ra_AddOutputNum 1 ((agent s)\<lparr>waitQueue := q\<rparr>), received := received s @ [d],
      turn := if isFinish d then After else Sending\<rparr>)"
| unlock: "turn s = Sending \<Longrightarrow> waitQueue (agent s) = [] \<Longrightarrow> stream_step p t s (s\<lparr>turn := After\<rparr>)"
| check: "turn s \<noteq> Sending \<Longrightarrow> connection (agent s) \<noteq> None \<Longrightarrow> passing s = None \<Longrightarrow> arriving s = d # ds \<Longrightarrow> d_check d (agent s) = (go, a) \<Longrightarrow>
    stream_step p t s (s\<lparr>agent := a, arriving := ds, passing := if go then Some d else None\<rparr>)"
| send: "passing s = Some d \<Longrightarrow> d_send d (agent s) = (out, fin, a) \<Longrightarrow>
    stream_step p t s (s\<lparr>agent := a, received := received s @ out, passing := None\<rparr>)"

inductive_cases stream_stepE: "stream_step p t s s'"

abbreviation stream_steps :: "ServerRes \<Rightarrow> u64 \<Rightarrow> stream \<Rightarrow> stream \<Rightarrow> bool" where
  "stream_steps p t \<equiv> (stream_step p t)\<^sup>*\<^sup>*"

definition stream_done :: "stream \<Rightarrow> bool" where
  "stream_done s \<longleftrightarrow> turn s = After \<and> arriving s = [] \<and> passing s = None"

text \<open>Run without interruption, the steps of a handler are the call of its operation.\<close>

lemma held_drain:
  assumes "turn s = Sending" "drain (waitQueue (agent s)) = (sent, q, fin)"
  shows "stream_steps p t s (s\<lparr>agent := (agent s)\<lparr>waitQueue := q, outputNum := outputNum (agent s) + word_of_nat (length sent)\<rparr>,
    received := received s @ sent, turn := After\<rparr>)"
  using assms
proof (induction "waitQueue (agent s)" arbitrary: s sent)
  case Nil
  from Nil stream_step.unlock [of s p t] show ?case by (cases s; cases "agent s") auto
next
  case (Cons d w)
  note w = Cons.hyps(2) [symmetric]
  let ?s = "s\<lparr>agent := ra_AddOutputNum 1 ((agent s)\<lparr>waitQueue := w\<rparr>), received := received s @ [d], turn := if isFinish d then After else Sending\<rparr>"
  have step: "stream_step p t s ?s" by (rule stream_step.held [OF Cons.prems(1) w])
  show ?case
  proof (cases "isFinish d")
    case True
    with Cons.prems w step show ?thesis by (cases "agent s") (auto simp: ra_AddOutputNum_def)
  next
    case False
    with Cons.prems w obtain sent' where d: "drain w = (sent', q, fin)" "sent = d # sent'" by (auto split: prod.splits)
    from Cons.hyps(1) [of ?s sent'] d(1) False
    have "stream_steps p t ?s (?s\<lparr>agent := (agent ?s)\<lparr>waitQueue := q, outputNum := outputNum (agent ?s) + word_of_nat (length sent')\<rparr>,
        received := received ?s @ sent', turn := After\<rparr>)" by (simp add: ra_AddOutputNum_def)
    from converse_rtranclp_into_rtranclp [OF step this] d(2) show ?thesis
      by (cases "agent s") (simp add: ra_AddOutputNum_def add.assoc add.commute)
  qed
qed

lemma PStream_uninterrupted:
  assumes "turn s = Marked" "connection (agent s) \<noteq> None" "RepeatPStreamToken p False (agent s) = (sent, fin, a)"
  shows "stream_steps p t s (s\<lparr>agent := a, received := received s @ sent, turn := After\<rparr>)"
proof -
  let ?s = "s\<lparr>agent := ra_AddOutputNum 1 (agent s), received := received s @ [p], turn := Sending\<rparr>"
  obtain out q f where d: "drain (waitQueue (agent s)) = (out, q, f)" by (metis prod.collapse)
  have "stream_step p t s ?s" by (rule stream_step.first [OF assms(1,2)])
  moreover have "stream_steps p t ?s (?s\<lparr>agent := (agent ?s)\<lparr>waitQueue := q, outputNum := outputNum (agent ?s) + word_of_nat (length out)\<rparr>,
      received := received ?s @ out, turn := After\<rparr>)" by (rule held_drain) (simp_all add: d ra_AddOutputNum_def)
  ultimately show ?thesis using assms(2,3) d
    by (cases "agent s") (auto simp: RepeatPStreamToken_def ra_AddOutputNum_def intro: converse_rtranclp_into_rtranclp)
qed

lemma DStream_uninterrupted:
  assumes "turn s \<noteq> Sending" "connection (agent s) \<noteq> None" "passing s = None" "arriving s = d # ds" "RepeatDStreamToken d False (agent s) = (sent, fin, a)"
  shows "stream_steps p t s (s\<lparr>agent := a, received := received s @ sent, arriving := ds\<rparr>)"
proof -
  obtain go b where c: "d_check d (agent s) = (go, b)" by fastforce
  note step = stream_step.check [OF assms(1-4) c, of p t]
  show ?thesis
  proof (cases go)
    case False
    with step assms c show ?thesis by (cases s) (auto simp: RepeatDStreamToken_def)
  next
    case True
    with assms c have s: "d_send d b = (sent, fin, a)" by (auto simp: RepeatDStreamToken_def)
    from step True stream_step.send [of "s\<lparr>agent := b, arriving := ds, passing := Some d\<rparr>" d sent fin a p t] s assms(3) show ?thesis
      by (cases s) (auto intro: converse_rtranclp_into_rtranclp)
  qed
qed

subsection \<open>What a run delivers\<close>

text \<open>The order the user can see: \<open>h\<close> are the decode tokens held back, \<open>x\<close>, \<open>y\<close> and \<open>z\<close> those sent directly; \<open>y\<close>, at most one token,
  lands among the tokens of the other handler.\<close>

definition delivers :: "ServerRes \<Rightarrow> ServerRes list \<Rightarrow> ServerRes list \<Rightarrow> bool" where
  "delivers p ds r \<longleftrightarrow> (\<exists>h x y z u v. ds = h @ x @ y @ z \<and> p # h = u @ v \<and> length y \<le> 1 \<and> r = x @ u @ y @ v @ z)"

fun opt_list :: "'a option \<Rightarrow> 'a list" where
  "opt_list None = []"
| "opt_list (Some x) = [x]"

text \<open>The state of a run: which tokens were held back (\<open>h\<close>), how many of them were sent, and which tokens were sent directly.\<close>

definition stream_inv :: "ServerRes \<Rightarrow> ServerRes list \<Rightarrow> stream \<Rightarrow> bool" where
  "stream_inv p ds s \<longleftrightarrow> outputNum (agent s) = word_of_nat (length (received s))
     \<and> (ra_HasState FIRST_TOKEN_FINISH (agent s) \<longleftrightarrow> turn s \<noteq> Before)
     \<and> (\<exists>h x. ds = h @ x @ opt_list (passing s) @ arriving s \<and> (case turn s of
          Before \<Rightarrow> x = [] \<and> passing s = None \<and> received s = [] \<and> waitQueue (agent s) = h
        | Marked \<Rightarrow> received s = x \<and> waitQueue (agent s) = h
        | Sending \<Rightarrow> (\<exists>b y u v. x = b @ y \<and> length y + length (opt_list (passing s)) \<le> 1 \<and> received s = b @ u @ y @ v
            \<and> p # h = u @ v @ waitQueue (agent s) \<and> u @ v \<noteq> [])
        | After \<Rightarrow> (\<exists>b y c u v. x = b @ y @ c \<and> length y \<le> 1 \<and> received s = b @ u @ y @ v @ c \<and> p # h = u @ v) \<and> waitQueue (agent s) = []))"

lemma ra_status_simps [simp]:
  "ra_status (ra_AddOutputNum n a) = ra_status a" "waitQueue (ra_AddOutputNum n a) = waitQueue a" "outputNum (ra_AddOutputNum n a) = outputNum a + n"
  "waitQueue (ra_UpdateState st t a) = waitQueue a" "outputNum (ra_UpdateState st t a) = outputNum a"
  by (simp_all add: ra_AddOutputNum_def ra_UpdateState_def)

lemma HasState_simps [simp]:
  "ra_HasState st (ra_AddOutputNum n a) = ra_HasState st a" "ra_HasState st (a\<lparr>waitQueue := q\<rparr>) = ra_HasState st a"
  "ra_HasState st (ra_UpdateState st t a)"
  by (simp_all add: ra_HasState_def ra_UpdateState_def)

lemma stream_invI:
  assumes "outputNum (agent s) = word_of_nat (length (received s))" "ra_HasState FIRST_TOKEN_FINISH (agent s) \<longleftrightarrow> turn s \<noteq> Before"
    and "ds = h @ x @ opt_list (passing s) @ arriving s"
  shows "turn s = Before \<Longrightarrow> x = [] \<Longrightarrow> passing s = None \<Longrightarrow> received s = [] \<Longrightarrow> waitQueue (agent s) = h \<Longrightarrow> stream_inv p ds s"
    and "turn s = Marked \<Longrightarrow> received s = x \<Longrightarrow> waitQueue (agent s) = h \<Longrightarrow> stream_inv p ds s"
    and "turn s = Sending \<Longrightarrow> x = b @ y \<Longrightarrow> length y + length (opt_list (passing s)) \<le> 1 \<Longrightarrow> received s = b @ u @ y @ v
      \<Longrightarrow> p # h = u @ v @ waitQueue (agent s) \<Longrightarrow> u @ v \<noteq> [] \<Longrightarrow> stream_inv p ds s"
    and "turn s = After \<Longrightarrow> x = b @ y @ c \<Longrightarrow> length y \<le> 1 \<Longrightarrow> received s = b @ u @ y @ v @ c \<Longrightarrow> p # h = u @ v
      \<Longrightarrow> waitQueue (agent s) = [] \<Longrightarrow> stream_inv p ds s"
  using assms unfolding stream_inv_def by fastforce+

lemma inv_mark: "stream_inv p ds s \<Longrightarrow> turn s = Before \<Longrightarrow>
    stream_inv p ds (s\<lparr>agent := ra_UpdateState FIRST_TOKEN_FINISH t (agent s), turn := Marked\<rparr>)"
  by (auto simp: stream_inv_def)

lemma inv_first: "stream_inv p ds s \<Longrightarrow> turn s = Marked \<Longrightarrow>
    stream_inv p ds (s\<lparr>agent := ra_AddOutputNum 1 (agent s), received := received s @ [p], turn := Sending\<rparr>)"
proof -
  assume "stream_inv p ds s" and t: "turn s = Marked"
  then obtain h x where "ds = h @ x @ opt_list (passing s) @ arriving s" "received s = x" "waitQueue (agent s) = h"
    "outputNum (agent s) = word_of_nat (length (received s))" "ra_HasState FIRST_TOKEN_FINISH (agent s)" by (auto simp: stream_inv_def)
  then show ?thesis by (intro stream_invI(3) [where h = h and x = x and b = x and y = "[]" and u = "[p]" and v = "[]"]) (cases "passing s"; simp)+
qed

lemma finish_is_last:
  assumes "\<forall>d \<in> set (butlast ds). \<not> isFinish d" "ds = xs @ d # ys" "isFinish d" shows "ys = []"
proof (rule ccontr)
  assume "ys \<noteq> []"
  then have "d \<in> set (butlast ds)" by (simp add: assms(2) butlast_append)
  with assms(1,3) show False by blast
qed

lemma inv_held:
  assumes "stream_inv p ds s" "turn s = Sending" "waitQueue (agent s) = d # q" "\<forall>d \<in> set (butlast ds). \<not> isFinish d"
  shows "stream_inv p ds (s\<lparr>agent := ra_AddOutputNum 1 ((agent s)\<lparr>waitQueue := q\<rparr>), received := received s @ [d], turn := if isFinish d then After else Sending\<rparr>)"
    (is "stream_inv p ds ?s")
proof -
  from assms(1-3) obtain h x b y u v where h: "ds = h @ x @ opt_list (passing s) @ arriving s" "x = b @ y" "length y + length (opt_list (passing s)) \<le> 1"
    "received s = b @ u @ y @ v" "p # h = u @ v @ d # q" "u @ v \<noteq> []"
    and o: "outputNum (agent s) = word_of_nat (length (received s))" "ra_HasState FIRST_TOKEN_FINISH (agent s)" by (auto simp: stream_inv_def)
  have out: "outputNum (agent ?s) = word_of_nat (length (received ?s))" using o(1) by (simp add: ra_AddOutputNum_def)
  have st: "ra_HasState FIRST_TOKEN_FINISH (agent ?s) \<longleftrightarrow> turn ?s \<noteq> Before" using o(2) by simp
  show ?thesis
  proof (cases "isFinish d")
    case False
    show ?thesis by (rule stream_invI(3) [OF out st, where h = h and x = x and b = b and y = y and u = u and v = "v @ [d]"]) (use h False in simp_all)
  next
    case True
    from h(6) obtain e w where w: "u @ v = e # w" by (cases "u @ v") auto
    have "p # h = (u @ v) @ d # q" using h(5) by simp
    then have "h = w @ d # q" by (simp only: w append_Cons list.inject)
    then have "ds = w @ d # (q @ x @ opt_list (passing s) @ arriving s)" using h(1) by simp
    from finish_is_last [OF assms(4) this True] have e: "q = []" "x = []" by auto
    show ?thesis by (rule stream_invI(4) [OF out st, where h = h and x = x and b = b and y = y and c = "[]" and u = u and v = "v @ [d]"])
        (use h True e in simp_all)
  qed
qed

lemma inv_unlock:
  assumes "stream_inv p ds s" "turn s = Sending" "waitQueue (agent s) = []" shows "stream_inv p ds (s\<lparr>turn := After\<rparr>)"
proof -
  from assms obtain h x b y u v where "ds = h @ x @ opt_list (passing s) @ arriving s" "x = b @ y" "length y \<le> 1"
    "received s = b @ u @ y @ v" "p # h = u @ v"
    "outputNum (agent s) = word_of_nat (length (received s))" "ra_HasState FIRST_TOKEN_FINISH (agent s)" by (auto simp: stream_inv_def)
  then show ?thesis using assms(3)
    by (intro stream_invI(4) [where h = h and x = x and b = b and y = y and c = "[]" and u = u and v = v]) simp_all
qed

lemma inv_check:
  assumes "stream_inv p ds s" "turn s \<noteq> Sending" "passing s = None" "arriving s = d # r" "d_check d (agent s) = (go, a)"
  shows "stream_inv p ds (s\<lparr>agent := a, arriving := r, passing := if go then Some d else None\<rparr>)"
proof (cases "turn s")
  case Before
  then obtain h where "ds = h @ arriving s" "received s = []" "waitQueue (agent s) = h"
    and o: "outputNum (agent s) = word_of_nat (length (received s))" "\<not> ra_HasState FIRST_TOKEN_FINISH (agent s)"
    using assms(1) by (auto simp: stream_inv_def)
  moreover have "\<not> go" "a = (agent s)\<lparr>waitQueue := waitQueue (agent s) @ [d]\<rparr>" using assms(5) o by (auto simp: d_check_def)
  ultimately show ?thesis using Before assms by (intro stream_invI(1) [where h = "h @ [d]" and x = "[]"]) simp_all
next
  case Marked
  then obtain h x where "ds = h @ x @ arriving s" "received s = x" "waitQueue (agent s) = h"
    and o: "outputNum (agent s) = word_of_nat (length (received s))" "ra_HasState FIRST_TOKEN_FINISH (agent s)"
    using assms(1,3) by (auto simp: stream_inv_def)
  moreover have "go" "a = agent s" using assms(5) o by (auto simp: d_check_def)
  ultimately show ?thesis using Marked assms by (intro stream_invI(2) [where h = h and x = x]) simp_all
next
  case After
  then obtain h x b y c u v where "ds = h @ x @ arriving s" "x = b @ y @ c" "length y \<le> 1" "received s = b @ u @ y @ v @ c" "p # h = u @ v" "waitQueue (agent s) = []"
    and o: "outputNum (agent s) = word_of_nat (length (received s))" "ra_HasState FIRST_TOKEN_FINISH (agent s)"
    using assms(1,3) by (auto simp: stream_inv_def)
  moreover have "go" "a = agent s" using assms(5) o by (auto simp: d_check_def)
  ultimately show ?thesis using After assms
    by (intro stream_invI(4) [where h = h and x = x and b = b and y = y and c = c and u = u and v = v]) simp_all
qed (use assms in simp)

lemma inv_send:
  assumes "stream_inv p ds s" "passing s = Some d"
  shows "stream_inv p ds (s\<lparr>agent := ra_AddOutputNum 1 (agent s), received := received s @ [d], passing := None\<rparr>)"
proof (cases "turn s")
  case Before
  with assms show ?thesis by (auto simp: stream_inv_def)
next
  case Marked
  with assms obtain h x where "ds = h @ x @ d # arriving s" "received s = x" "waitQueue (agent s) = h"
    "outputNum (agent s) = word_of_nat (length (received s))" "ra_HasState FIRST_TOKEN_FINISH (agent s)" by (auto simp: stream_inv_def)
  then show ?thesis using Marked by (intro stream_invI(2) [where h = h and x = "x @ [d]"]) simp_all
next
  case Sending
  with assms obtain h b u v where "ds = h @ b @ d # arriving s" "received s = b @ u @ v" "p # h = u @ v @ waitQueue (agent s)" "u @ v \<noteq> []"
    "outputNum (agent s) = word_of_nat (length (received s))" "ra_HasState FIRST_TOKEN_FINISH (agent s)" by (auto simp: stream_inv_def)
  then show ?thesis using Sending by (intro stream_invI(3) [where h = h and x = "b @ [d]" and b = b and y = "[d]" and u = "u @ v" and v = "[]"]) simp_all
next
  case After
  with assms obtain h x b y c u v where "ds = h @ x @ d # arriving s" "x = b @ y @ c" "length y \<le> 1" "received s = b @ u @ y @ v @ c" "p # h = u @ v" "waitQueue (agent s) = []"
    "outputNum (agent s) = word_of_nat (length (received s))" "ra_HasState FIRST_TOKEN_FINISH (agent s)" by (auto simp: stream_inv_def)
  then show ?thesis using After
    by (intro stream_invI(4) [where h = h and x = "x @ [d]" and b = b and y = y and c = "c @ [d]" and u = u and v = v]) simp_all
qed

lemma stream_inv_step:
  assumes "stream_step p t s s'" "stream_inv p ds s" "\<forall>d \<in> set (butlast ds). \<not> isFinish d"
  shows "stream_inv p ds s'"
  using assms
proof (induction rule: stream_step.induct)
  case (unlock s)
  then show ?case using inv_unlock by blast
next
  case (held s d q)
  then show ?case using inv_held by blast
next
  case (send s d out fin a)
  then show ?case using inv_send [of p ds s d] by (auto simp: d_send_def)
qed (simp_all add: inv_mark inv_first inv_check)

lemma stream_inv_steps:
  assumes "stream_steps p t s s'" "stream_inv p ds s" "\<forall>d \<in> set (butlast ds). \<not> isFinish d"
  shows "stream_inv p ds s'"
  using assms(1,2) by (induction rule: rtranclp_induct) (auto intro: stream_inv_step [OF _ _ assms(3)])

lemma stream_inv_done: "stream_inv p ds s \<Longrightarrow> stream_done s \<Longrightarrow> delivers p ds (received s)"
  by (auto simp: stream_inv_def stream_done_def delivers_def) blast

text \<open>No run gets stuck before everything is delivered.\<close>

lemma stream_progress:
  assumes "\<not> stream_done s" "connection (agent s) \<noteq> None" shows "\<exists>s'. stream_step p t s s'"
proof (cases "turn s")
  case Marked
  then show ?thesis using stream_step.first assms(2) by blast
next
  case Sending
  then show ?thesis by (cases "waitQueue (agent s)") (blast intro: stream_step.intros)+
next
  case After
  show ?thesis
  proof (cases "passing s")
    case None
    with After assms(1) obtain d ds where "arriving s = d # ds" by (cases "arriving s") (auto simp: stream_done_def)
    moreover obtain go a where "d_check d (agent s) = (go, a)" by fastforce
    ultimately show ?thesis using stream_step.check [of s d ds go a p t] None After assms(2) by auto
  next
    case (Some d)
    obtain out fin a where "d_send d (agent s) = (out, fin, a)" by (metis prod.collapse)
    with Some show ?thesis using stream_step.send by blast
  qed
qed (blast intro: stream_step.intros)+

subsection \<open>Every such order occurs\<close>

definition stream_at :: "ReqAgent \<Rightarrow> u64 list \<Rightarrow> ServerRes list \<Rightarrow> ServerRes list \<Rightarrow> ServerRes list \<Rightarrow> ServerRes option \<Rightarrow> p_turn \<Rightarrow> stream" where
  "stream_at a ts q r ds pend tn = \<lparr>agent = a\<lparr>ra_status := (ra_status a)(FIRST_TOKEN_FINISH := ts), waitQueue := q,
     outputNum := word_of_nat (length r)\<rparr>, received = r, arriving = ds, passing = pend, turn = tn\<rparr>"

lemma at_mark: "stream_step p t (stream_at a [] q r ds pend Before) (stream_at a [t] q r ds pend Marked)"
  using stream_step.mark [of "stream_at a [] q r ds pend Before" p t] by (cases a) (simp add: stream_at_def ra_UpdateState_def)

lemma at_first: "connection a \<noteq> None \<Longrightarrow> stream_step p t (stream_at a ts q r ds pend Marked) (stream_at a ts q (r @ [p]) ds pend Sending)"
  using stream_step.first [of "stream_at a ts q r ds pend Marked" p t] by (simp add: stream_at_def ra_AddOutputNum_def add.commute)

lemma at_held: "stream_step p t (stream_at a ts (d # q) r ds pend Sending) (stream_at a ts q (r @ [d]) ds pend (if isFinish d then After else Sending))"
  using stream_step.held [of "stream_at a ts (d # q) r ds pend Sending" d q p t] by (simp add: stream_at_def ra_AddOutputNum_def add.commute)

lemma at_unlock: "stream_step p t (stream_at a ts [] r ds pend Sending) (stream_at a ts [] r ds pend After)"
  using stream_step.unlock [of "stream_at a ts [] r ds pend Sending" p t] by (simp add: stream_at_def)

lemma at_hold: "connection a \<noteq> None \<Longrightarrow> stream_step p t (stream_at a [] q r (d # ds) None Before) (stream_at a [] (q @ [d]) r ds None Before)"
  using stream_step.check [of "stream_at a [] q r (d # ds) None Before" d ds False _ p t]
  by (cases a) (simp add: stream_at_def d_check_def ra_HasState_def)

lemma at_pass: "connection a \<noteq> None \<Longrightarrow> tn = Marked \<or> tn = After \<Longrightarrow> stream_step p t (stream_at a [t'] q r (d # ds) None tn) (stream_at a [t'] q r ds (Some d) tn)"
  using stream_step.check [of "stream_at a [t'] q r (d # ds) None tn" d ds True _ p t]
  by (auto simp: stream_at_def d_check_def ra_HasState_def)

lemma at_send: "stream_step p t (stream_at a ts q r ds (Some d) tn) (stream_at a ts q (r @ [d]) ds None tn)"
  using stream_step.send [of "stream_at a ts q r ds (Some d) tn" d "[d]" "isFinish d" _ p t]
  by (simp add: stream_at_def d_send_def ra_AddOutputNum_def add.commute)

lemma at_hold_all:
  assumes "connection a \<noteq> None"
  shows "stream_steps p t (stream_at a [] q r (h @ ds) None Before) (stream_at a [] (q @ h) r ds None Before)"
proof (induction h arbitrary: q)
  case (Cons d h)
  show ?case using converse_rtranclp_into_rtranclp [OF at_hold [OF assms] Cons.IH] by simp
qed simp

lemma at_direct:
  assumes "connection a \<noteq> None" "tn = Marked \<or> tn = After"
  shows "stream_steps p t (stream_at a [t'] q r (x @ ds) None tn) (stream_at a [t'] q (r @ x) ds None tn)"
proof (induction x arbitrary: r)
  case (Cons d x)
  have "stream_steps p t (stream_at a [t'] q r (d # x @ ds) None tn) (stream_at a [t'] q (r @ [d]) (x @ ds) None tn)"
    by (rule converse_rtranclp_into_rtranclp [OF at_pass [OF assms] r_into_rtranclp [of "stream_step p t", OF at_send]])
  also have "stream_steps p t \<dots> (stream_at a [t'] q (r @ d # x) ds None tn)" using Cons.IH [of "r @ [d]"] by simp
  finally show ?case by simp
qed simp

lemma at_drain: "\<forall>d \<in> set v. \<not> isFinish d \<Longrightarrow>
    stream_steps p t (stream_at a ts (v @ q) r ds pend Sending) (stream_at a ts q (r @ v) ds pend Sending)"
proof (induction v arbitrary: r)
  case (Cons d v)
  have "stream_step p t (stream_at a ts (d # v @ q) r ds pend Sending) (stream_at a ts (v @ q) (r @ [d]) ds pend Sending)"
    using at_held [of p t a ts d "v @ q" r ds pend] Cons.prems by simp
  from converse_rtranclp_into_rtranclp [OF this Cons.IH [of "r @ [d]"]] Cons.prems show ?case by simp
qed simp

lemma at_drain_all:
  assumes "\<forall>d \<in> set (butlast v). \<not> isFinish d"
  shows "stream_steps p t (stream_at a ts v r ds pend Sending) (stream_at a ts [] (r @ v) ds pend After)"
proof (cases v rule: rev_cases)
  case Nil
  then show ?thesis using at_unlock by auto
next
  case (snoc w d)
  with assms have "stream_steps p t (stream_at a ts v r ds pend Sending) (stream_at a ts [d] (r @ w) ds pend Sending)"
    using at_drain [of w p t a ts "[d]" r ds pend] by simp
  also have "stream_steps p t \<dots> (stream_at a ts [] (r @ v) ds pend After)"
    using at_held [of p t a ts d "[]" "r @ w" ds pend] at_unlock [of p t a ts "r @ v" ds pend] snoc
    by (cases "isFinish d") (auto intro: rtranclp.rtrancl_into_rtrancl)
  finally show ?thesis .
qed

lemma stream_realises:
  assumes c: "connection a \<noteq> None" and f: "\<forall>d \<in> set (butlast ds). \<not> isFinish d" and d: "delivers p ds r"
  shows "\<exists>s. stream_steps p t (stream_at a [] [] [] ds None Before) s \<and> stream_done s \<and> received s = r"
proof -
  from d obtain h x y z u v where ds: "ds = h @ x @ y @ z" "p # h = u @ v" "length y \<le> 1" "r = x @ u @ y @ v @ z" by (auto simp: delivers_def)
  have sub: "set (butlast xs) \<subseteq> set (butlast (xs @ ys))" for xs ys :: "ServerRes list"
    by (cases ys) (auto simp: butlast_append dest: in_set_butlastD)
  have hf: "\<forall>d \<in> set (butlast h). \<not> isFinish d" using f sub [of h "x @ y @ z"] ds(1) by blast
  let ?at = "\<lambda>q r ds pend tn. stream_at a [t] q r ds pend tn"
  have "stream_steps p t (stream_at a [] [] [] ds None Before) (stream_at a [] h [] (x @ y @ z) None Before)"
    using at_hold_all [OF c, of p t "[]" "[]" h "x @ y @ z"] ds(1) by simp
  also have "stream_steps p t \<dots> (?at h [] (x @ y @ z) None Marked)" by (rule r_into_rtranclp [of "stream_step p t", OF at_mark])
  also have "stream_steps p t \<dots> (?at h x (y @ z) None Marked)" using at_direct [OF c, of Marked p t t h "[]" x "y @ z"] by simp
  finally have start: "stream_steps p t (stream_at a [] [] [] ds None Before) (?at h x (y @ z) None Marked)" .
  have finish: "stream_steps p t (?at [] r' z None After) (?at [] (r' @ z) [] None After)" for r'
    using at_direct [OF c, of After p t t "[]" r' z "[]"] by simp
  have "stream_steps p t (?at h x (y @ z) None Marked) (?at [] r [] None After)"
  proof (cases "y = [] \<or> u = []")
    case True
    have "stream_steps p t (?at h x (y @ z) None Marked) (?at h (x @ y) z None Marked)"
      using at_direct [OF c, of Marked p t t h x y z] by simp
    also have "stream_steps p t \<dots> (?at h (x @ y @ [p]) z None Sending)" using at_first [OF c, of p t "[t]" h "x @ y" z None] by auto
    also have "stream_steps p t \<dots> (?at [] (x @ y @ p # h) z None After)" using at_drain_all [OF hf, of p t a "[t]" "x @ y @ [p]" z None] by simp
    also have "stream_steps p t \<dots> (?at [] r [] None After)" using finish [of "x @ y @ p # h"] True ds(2,4) by auto
    finally show ?thesis .
  next
    case False
    then obtain e w where y: "y = [e]" and u: "u = p # w" "h = w @ v" using ds(2,3) by (cases y; cases u) auto
    have "set h \<subseteq> set (butlast ds)" unfolding ds(1) y by (auto simp: butlast_append)
    with f have wf: "\<forall>d \<in> set w. \<not> isFinish d" and vf: "\<forall>d \<in> set (butlast v). \<not> isFinish d"
      using u(2) by (auto dest: in_set_butlastD)
    have "stream_steps p t (?at h x (y @ z) None Marked) (?at h x z (Some e) Marked)" using at_pass [OF c, of Marked p t t h x e z] y by auto
    also have "stream_steps p t \<dots> (?at h (x @ [p]) z (Some e) Sending)" using at_first [OF c, of p t "[t]" h x z "Some e"] by auto
    also have "stream_steps p t \<dots> (?at v (x @ u) z (Some e) Sending)" using at_drain [OF wf, of p t a "[t]" v "x @ [p]" z "Some e"] u by simp
    also have "stream_steps p t \<dots> (?at v (x @ u @ y) z None Sending)" using at_send [of p t a "[t]" v "x @ u" z e Sending] y by auto
    also have "stream_steps p t \<dots> (?at [] (x @ u @ y @ v) z None After)" using at_drain_all [OF vf, of p t a "[t]" "x @ u @ y" z None] by simp
    also have "stream_steps p t \<dots> (?at [] r [] None After)" using finish [of "x @ u @ y @ v"] ds(4) by simp
    finally show ?thesis .
  qed
  from rtranclp_trans [OF start this] show ?thesis
    by (intro exI [of _ "?at [] r [] None After"]) (simp add: stream_done_def stream_at_def)
qed

lemma stream_connection: "stream_step p t s s' \<Longrightarrow> connection (agent s') = connection (agent s)"
  by (induction rule: stream_step.induct) (auto simp: ra_UpdateState_def ra_AddOutputNum_def d_check_def d_send_def split: if_splits)

subsection \<open>The claim\<close>

text \<open>C34: what the user receives under the interleavings of the two handlers, with every send a step of its own. For a stream whose only
  finishing token is the last one, the possible answers are exactly these: the decode tokens checked before the first token
  was recorded are held back and follow the first token in order; all other decode tokens are sent directly in order, before
  the first token, behind the tokens held back, or, at most one of them, in between. Every token is sent exactly once and counted,
  nothing stays in the queue, and no run gets stuck.\<close>

theorem stream_interleavings:
  assumes "connection a \<noteq> None" and "\<not> ra_HasState FIRST_TOKEN_FINISH a" and "waitQueue a = []" and "outputNum a = 0"
    and "\<forall>d \<in> set (butlast ds). \<not> isFinish d"
  shows "((\<exists>s. stream_steps p t (new_stream a ds) s \<and> stream_done s \<and> received s = r)
       \<longleftrightarrow> (\<exists>h x y z u v. ds = h @ x @ y @ z \<and> p # h = u @ v \<and> length y \<le> 1 \<and> r = x @ u @ y @ v @ z))
    \<and> (\<forall>s. stream_steps p t (new_stream a ds) s \<longrightarrow>
         (if stream_done s then outputNum (agent s) = word_of_nat (length ds + 1) \<and> waitQueue (agent s) = [] else \<exists>s'. stream_step p t s s'))"
proof -
  have n: "new_stream a ds = stream_at a [] [] [] ds None Before"
    using assms(2-4) by (cases a) (simp add: new_stream_def stream_at_def ra_HasState_def fun_upd_idem)
  have i: "stream_inv p ds (new_stream a ds)"
    using assms(2-4) by (intro stream_invI(1) [where h = "[]" and x = "[]"]) (simp_all add: new_stream_def)
  have c: "connection (agent s) \<noteq> None" if "stream_steps p t (new_stream a ds) s" for s
    using that assms(1) by (induction rule: rtranclp_induct) (auto simp: stream_connection, simp add: new_stream_def)
  have d: "delivers p ds (received s)" if "stream_steps p t (new_stream a ds) s" "stream_done s" for s
    using stream_inv_done [OF stream_inv_steps [OF that(1) i assms(5)] that(2)] .
  have o: "outputNum (agent s) = word_of_nat (length ds + 1) \<and> waitQueue (agent s) = []" if "stream_steps p t (new_stream a ds) s" "stream_done s" for s
  proof -
    have "length (received s) = length ds + 1" using d [OF that] by (auto simp: delivers_def) (metis add.assoc add.commute length_Cons length_append)
    then show ?thesis using stream_inv_steps [OF that(1) i assms(5)] that(2) by (auto simp: stream_inv_def stream_done_def)
  qed
  have "(\<exists>s. stream_steps p t (new_stream a ds) s \<and> stream_done s \<and> received s = r) \<longleftrightarrow> delivers p ds r"
    using d stream_realises [OF assms(1,5), of p r t] by (auto simp: n)
  then show ?thesis using o c stream_progress by (simp add: delivers_def)
qed

definition ex_res :: "bool \<Rightarrow> string \<Rightarrow> ServerRes" where
  "ex_res fin b = \<lparr>isFinish = fin, res_state = 200, res_id = [], res_body = b, contentType = ''text/event-stream''\<rparr>"

text \<open>The witness: one decode token overtakes the first token, and the next one lands between the first token and a token held back.\<close>

theorem stream_interleavings_witness:
  "\<exists>s. stream_steps (ex_res False ''a'') 5 (new_stream (new_ReqAgent (0, 0) ''r'' OPENAI (Some 1) ''q'')
        [ex_res False ''b'', ex_res False ''c'', ex_res True ''d'']) s \<and> stream_done s
     \<and> received s = [ex_res False ''c'', ex_res False ''a'', ex_res True ''d'', ex_res False ''b'']"
proof -
  let ?a = "new_ReqAgent (0, 0) ''r'' OPENAI (Some 1) ''q''" and ?ds = "[ex_res False ''b'', ex_res False ''c'', ex_res True ''d'']"
  have a: "connection ?a \<noteq> None" "\<not> ra_HasState FIRST_TOKEN_FINISH ?a" "waitQueue ?a = []" "outputNum ?a = 0"
    by (simp_all add: new_ReqAgent_def ra_HasState_def)
  have f: "\<forall>d \<in> set (butlast ?ds). \<not> isFinish d" by (simp add: ex_res_def)
  have "\<exists>h x y z u v. ?ds = h @ x @ y @ z \<and> ex_res False ''a'' # h = u @ v \<and> length y \<le> 1
      \<and> [ex_res False ''c'', ex_res False ''a'', ex_res True ''d'', ex_res False ''b''] = x @ u @ y @ v @ z"
    by (rule exI [of _ "[ex_res False ''b'']"], rule exI [of _ "[ex_res False ''c'']"], rule exI [of _ "[ex_res True ''d'']"], rule exI [of _ "[]"],
        rule exI [of _ "[ex_res False ''a'']"], rule exI [of _ "[ex_res False ''b'']"]) simp
  with stream_interleavings [OF a f, of "ex_res False ''a''" 5] show ?thesis by blast
qed

end
