(* ===== verification/Binary64.thy ===== *)
theory Binary64
  imports Prelude Complex_Main "HOL-Library.Log_Nat"
begin

text \<open>
  The C++ type \<^verbatim>\<open>double\<close> as the sources use it: IEEE 754 binary64 values with round to
  nearest, ties to even. A finite value is the rational it denotes, so the two zeros are one
  value (no code modelled here divides by a zero). Every arithmetic operation is the exact
  rational result followed by \<open>rnd64\<close>.
\<close>

datatype f64 = Fin rat | PInf | NInf | NaN

definition ilog2 :: "rat \<Rightarrow> int" where
  "ilog2 x = (let (n, d) = quotient_of x; k = bitlen n - bitlen d
              in if 2 powi k \<le> x then k else k - 1)"

definition round_even :: "rat \<Rightarrow> int" where
  "round_even x = (let f = \<lfloor>x\<rfloor>; r = x - of_int f
     in if r < 1 / 2 then f else if 1 / 2 < r then f + 1 else if even f then f else f + 1)"

definition F64_LIMIT :: rat where
  "F64_LIMIT = 2 ^ 1024"

definition rnd64 :: "rat \<Rightarrow> f64" where
  "rnd64 x = (if x = 0 then Fin 0
     else let e = max (ilog2 \<bar>x\<bar> - 52) (- 1074);
              y = of_int (round_even (x / 2 powi e)) * 2 powi e
          in if F64_LIMIT \<le> y then PInf else if y \<le> - F64_LIMIT then NInf else Fin y)"

fun f64_neg :: "f64 \<Rightarrow> f64" where
  "f64_neg (Fin a) = Fin (- a)"
| "f64_neg PInf = NInf"
| "f64_neg NInf = PInf"
| "f64_neg NaN = NaN"

fun f64_add :: "f64 \<Rightarrow> f64 \<Rightarrow> f64" where
  "f64_add (Fin a) (Fin b) = rnd64 (a + b)"
| "f64_add NaN _ = NaN"
| "f64_add _ NaN = NaN"
| "f64_add PInf NInf = NaN"
| "f64_add NInf PInf = NaN"
| "f64_add PInf _ = PInf"
| "f64_add NInf _ = NInf"
| "f64_add (Fin _) y = y"

definition f64_sub :: "f64 \<Rightarrow> f64 \<Rightarrow> f64" where
  "f64_sub a b = f64_add a (f64_neg b)"

text \<open>The infinity with the sign of a product or quotient of nonzero operands.\<close>

definition f64_inf :: "bool \<Rightarrow> f64" where
  "f64_inf neg = (if neg then NInf else PInf)"

fun f64_sgn :: "f64 \<Rightarrow> int" where
  "f64_sgn (Fin a) = (if a < 0 then - 1 else if a = 0 then 0 else 1)"
| "f64_sgn PInf = 1"
| "f64_sgn NInf = - 1"
| "f64_sgn NaN = 0"

definition f64_mul :: "f64 \<Rightarrow> f64 \<Rightarrow> f64" where
  "f64_mul x y = (case (x, y) of
       (Fin a, Fin b) \<Rightarrow> rnd64 (a * b)
     | (NaN, _) \<Rightarrow> NaN
     | (_, NaN) \<Rightarrow> NaN
     | _ \<Rightarrow> (if f64_sgn x * f64_sgn y = 0 then NaN else f64_inf (f64_sgn x * f64_sgn y < 0)))"

text \<open>Division; a zero divisor is read as positive zero.\<close>

fun f64_div :: "f64 \<Rightarrow> f64 \<Rightarrow> f64" where
  "f64_div (Fin a) (Fin b) =
     (if b = 0 then (if a = 0 then NaN else f64_inf (a < 0)) else rnd64 (a / b))"
| "f64_div NaN _ = NaN"
| "f64_div _ NaN = NaN"
| "f64_div (Fin _) _ = Fin 0"
| "f64_div x (Fin b) = f64_inf ((f64_sgn x < 0) \<noteq> (b < 0))"
| "f64_div _ _ = NaN"

fun f64_lt :: "f64 \<Rightarrow> f64 \<Rightarrow> bool" where
  "f64_lt (Fin a) (Fin b) = (a < b)"
| "f64_lt NaN _ = False"
| "f64_lt _ NaN = False"
| "f64_lt NInf NInf = False"
| "f64_lt NInf _ = True"
| "f64_lt (Fin _) PInf = True"
| "f64_lt _ _ = False"

definition f64_abs :: "f64 \<Rightarrow> f64" where
  "f64_abs x = (if f64_lt x (Fin 0) then f64_neg x else x)"

fun f64_isfinite :: "f64 \<Rightarrow> bool" where
  "f64_isfinite (Fin _) = True"
| "f64_isfinite _ = False"

fun f64_ceil :: "f64 \<Rightarrow> f64" where
  "f64_ceil (Fin a) = Fin (of_int \<lceil>a\<rceil>)"
| "f64_ceil x = x"

text \<open>\<^verbatim>\<open>static_cast<double>\<close> of an unsigned 64-bit integer.\<close>

definition f64_of_u64 :: "u64 \<Rightarrow> f64" where
  "f64_of_u64 w = rnd64 (of_nat (unat w))"

definition rat_trunc :: "rat \<Rightarrow> int" where
  "rat_trunc a = (if a < 0 then \<lceil>a\<rceil> else \<lfloor>a\<rfloor>)"

text \<open>
  \<^verbatim>\<open>static_cast<uint64_t>\<close> of a double truncates; a value whose truncation does not fit is
  undefined behaviour, here \<^const>\<open>None\<close>.
\<close>

fun f64_to_u64 :: "f64 \<Rightarrow> u64 option" where
  "f64_to_u64 (Fin a) =
     (let t = rat_trunc a in if 0 \<le> t \<and> t < 2 ^ 64 then Some (word_of_int t) else None)"
| "f64_to_u64 _ = None"

text \<open>
  \<^verbatim>\<open>static_cast<int64_t>\<close> where the source converts a configured weight: truncation, and for a
  value that does not fit (undefined in C++) the saturating result of the AArch64 conversion.
\<close>

fun f64_to_i64 :: "f64 \<Rightarrow> int" where
  "f64_to_i64 (Fin a) = max (- (2 ^ 63)) (min (2 ^ 63 - 1) (rat_trunc a))"
| "f64_to_i64 PInf = 2 ^ 63 - 1"
| "f64_to_i64 NInf = - (2 ^ 63)"
| "f64_to_i64 NaN = 0"

definition f64_lit :: "rat \<Rightarrow> f64" where
  "f64_lit x = rnd64 x"

subsection \<open>Facts\<close>

lemma F64_LIMIT_big: "2 ^ 53 \<le> F64_LIMIT"
  unfolding F64_LIMIT_def by (rule power_increasing) simp_all

lemma F64_LIMIT_pos: "0 < F64_LIMIT"
  by (simp add: F64_LIMIT_def)

lemma round_even_of_int [simp]: "round_even (of_int n) = n"
  by (simp add: round_even_def)

lemma bitlen_powi:
  assumes "0 < n"
  shows "2 powi (bitlen n - 1) \<le> (of_int n :: rat)" and "(of_int n :: rat) < 2 powi bitlen n"
proof -
  have b: "0 < bitlen n" using assms by (simp add: bitlen_eq_zero_iff bitlen_nonneg less_le)
  have "2 ^ nat (bitlen n - 1) \<le> n" "n < 2 ^ nat (bitlen n)"
    using bitlen_bounds [OF assms] by auto
  then have "of_int (2 ^ nat (bitlen n - 1)) \<le> (of_int n :: rat)"
    and "(of_int n :: rat) < of_int (2 ^ nat (bitlen n))" by linarith+
  with b show "2 powi (bitlen n - 1) \<le> (of_int n :: rat)" and "(of_int n :: rat) < 2 powi bitlen n"
    by (simp_all add: power_int_def)
qed

lemma ilog2_le:
  assumes "0 < n"
  shows "2 powi ilog2 (of_int n) \<le> (of_int n :: rat)"
proof -
  have q: "quotient_of (of_int n) = (n, 1)" by (simp add: quotient_of_int)
  have one: "bitlen 1 = 1" by code_simp
  show ?thesis
    using bitlen_powi(1) [OF assms] by (auto simp: ilog2_def q one diff_diff_eq)
qed

lemma powi_le_imp: "2 powi a < (2 powi b :: rat) \<Longrightarrow> a < b"
  by (metis not_less power_int_increasing one_le_numeral)

text \<open>Integers up to \<open>2 ^ 53\<close> in magnitude are represented exactly.\<close>

lemma rnd64_pos_int:
  assumes "0 < n" "n < 2 ^ 53"
  shows "rnd64 (of_int n) = Fin (of_int n)"
proof -
  let ?e = "max (ilog2 (of_int n) - 52) (- 1074)"
  have "(of_int n :: rat) < of_int (2 ^ 53)" using assms(2) by linarith
  then have "2 powi ilog2 (of_int n) < (2 powi 53 :: rat)"
    using ilog2_le [OF assms(1)] by (simp add: power_int_def)
  then have "ilog2 (of_int n) < 53" by (rule powi_le_imp)
  then have e: "?e \<le> 0" by simp
  define k where "k = nat (- ?e)"
  have k: "2 powi ?e = (1 / 2 ^ k :: rat)" using e
    by (cases "?e = 0") (auto simp: k_def power_int_def field_simps)
  have "of_int n / (1 / 2 ^ k) = (of_int (n * 2 ^ k) :: rat)" by simp
  then have y: "of_int (round_even (of_int n / 2 powi ?e)) * 2 powi ?e = (of_int n :: rat)"
    unfolding k by (metis (no_types, lifting) round_even_of_int nonzero_eq_divide_eq divide_eq_0_iff
        power_not_zero zero_neq_numeral zero_neq_one)
  have "(of_int n :: rat) < of_int (2 ^ 53)" using assms(2) by linarith
  then have "(of_int n :: rat) < F64_LIMIT" using F64_LIMIT_big by simp
  moreover have "\<not> (of_int n :: rat) \<le> - F64_LIMIT"
    using assms(1) F64_LIMIT_pos by (simp add: not_le less_trans [of _ 0])
  ultimately show ?thesis using assms(1) y
    by (simp add: rnd64_def Let_def)
qed

lemma rnd64_nat: "n < 2 ^ 53 \<Longrightarrow> rnd64 (of_nat n) = Fin (of_nat n)"
proof (cases "n = 0")
  case True
  then show ?thesis by (simp add: rnd64_def)
next
  case False
  assume "n < 2 ^ 53"
  with False have "rnd64 (of_int (int n)) = Fin (of_int (int n))"
    by (intro rnd64_pos_int) auto
  then show ?thesis by simp
qed

lemma f64_of_u64_exact: "unat w < 2 ^ 53 \<Longrightarrow> f64_of_u64 w = Fin (of_nat (unat w))"
  unfolding f64_of_u64_def by (rule rnd64_nat)

lemma rnd64_numeral [simp]:
  "rnd64 0 = Fin 0" "rnd64 1 = Fin 1"
  "(numeral n :: nat) < 2 ^ 53 \<Longrightarrow> rnd64 (numeral n) = Fin (numeral n)"
  using rnd64_nat [of 1] rnd64_nat [of "numeral n"] by (simp_all add: rnd64_def [of 0])

text \<open>Sums and products of exactly represented naturals are exact below \<open>2 ^ 53\<close>.\<close>

lemma f64_add_nat: "a + b < 2 ^ 53 \<Longrightarrow> f64_add (Fin (of_nat a)) (Fin (of_nat b)) = Fin (of_nat (a + b))"
  using rnd64_nat [of "a + b"] by simp

lemma f64_mul_nat: "a * b < 2 ^ 53 \<Longrightarrow> f64_mul (Fin (of_nat a)) (Fin (of_nat b)) = Fin (of_nat (a * b))"
  using rnd64_nat [of "a * b"] by (simp add: f64_mul_def)

lemma round_even_nonneg: "0 \<le> x \<Longrightarrow> 0 \<le> round_even x"
  by (simp add: round_even_def Let_def)

lemma rnd64_nonneg: "0 \<le> x \<Longrightarrow> \<not> f64_lt (rnd64 x) (Fin 0)"
proof -
  assume x: "0 \<le> x"
  have nonneg: "0 \<le> of_int (round_even (x / 2 powi e)) * (2 powi e :: rat)" for e
    using x by (intro mult_nonneg_nonneg) (auto intro!: round_even_nonneg)
  then have "\<not> of_int (round_even (x / 2 powi e)) * (2 powi e :: rat) \<le> - F64_LIMIT" for e
    using F64_LIMIT_pos by (meson neg_less_0_iff_less not_le order_less_le_trans)
  with nonneg show ?thesis by (auto simp: rnd64_def Let_def not_less)
qed

lemma f64_lit_nonneg: "0 \<le> x \<Longrightarrow> \<not> f64_lt (f64_lit x) (Fin 0)"
  unfolding f64_lit_def by (rule rnd64_nonneg)

lemma round_even_le: "round_even x \<le> \<lfloor>x\<rfloor> + 1"
  by (simp add: round_even_def Let_def)

lemma ilog2_le_rat:
  assumes "0 < x"
  shows "2 powi ilog2 x \<le> x"
proof -
  obtain n d where q: "quotient_of x = (n, d)" by force
  have d: "0 < d" using quotient_of_denom_pos [OF q] .
  have x: "x = of_int n / of_int d" using quotient_of_div [OF q] .
  have n: "0 < n" using assms d x by (simp add: zero_less_divide_iff)
  let ?k = "bitlen n - bitlen d"
  have "2 powi (?k - 1) \<le> x"
  proof -
    have "2 powi (?k - 1) * of_int d \<le> 2 powi (?k - 1) * (2 powi bitlen d :: rat)"
      using bitlen_powi(2) [OF d] by (intro mult_left_mono) simp_all
    also have "\<dots> = 2 powi (bitlen n - 1)" by (simp flip: power_int_add)
    also have "\<dots> \<le> of_int n" by (rule bitlen_powi(1) [OF n])
    finally show ?thesis using d by (simp add: x pos_le_divide_eq)
  qed
  then show ?thesis by (simp add: ilog2_def q Let_def)
qed

lemma rnd64_finite:
  assumes "0 \<le> x" "x < 2 ^ 64"
  shows "\<exists>r \<ge> 0. rnd64 x = Fin r"
proof (cases "x = 0")
  case True
  then show ?thesis by simp
next
  case False
  let ?e = "max (ilog2 x - 52) (- 1074)"
  let ?y = "of_int (round_even (x / 2 powi ?e)) * 2 powi ?e :: rat"
  have x: "0 < x" using False assms(1) by simp
  have p: "(0::rat) < 2 powi ?e" by simp
  have "2 powi ?e \<le> x + 1"
  proof (cases "ilog2 x - 52 \<le> - 1074")
    case True
    then have "2 powi ?e \<le> (2 powi 0 :: rat)" by (intro power_int_increasing) auto
    with x show ?thesis by (simp add: power_int_def)
  next
    case False
    then have "2 powi ?e \<le> (2 powi ilog2 x :: rat)" by (intro power_int_increasing) auto
    with ilog2_le_rat [OF x] show ?thesis by linarith
  qed
  moreover have "?y \<le> (x / 2 powi ?e + 1) * 2 powi ?e"
  proof (rule mult_right_mono)
    show "of_int (round_even (x / 2 powi ?e)) \<le> (x / 2 powi ?e + 1 :: rat)"
      using round_even_le [of "x / 2 powi ?e"] by linarith
  qed simp
  ultimately have "?y \<le> 2 * x + 1" using p by (simp add: algebra_simps)
  moreover have "2 * x + 1 < F64_LIMIT"
  proof -
    have "2 * x + 1 < (2 ^ 66 :: rat)" using assms(2) by simp
    also have "(2 ^ 66 :: rat) \<le> F64_LIMIT" unfolding F64_LIMIT_def by (rule power_increasing) simp_all
    finally show ?thesis .
  qed
  ultimately have lt: "?y < F64_LIMIT" by linarith
  have ge: "0 \<le> ?y" using x by (intro mult_nonneg_nonneg) (auto intro!: round_even_nonneg)
  then have "\<not> ?y \<le> - F64_LIMIT" using F64_LIMIT_pos by linarith
  with lt x have "rnd64 x = Fin ?y" by (simp add: rnd64_def Let_def)
  with ge show ?thesis by blast
qed

lemma f64_of_u64_finite: "\<exists>r \<ge> 0. f64_of_u64 w = Fin r"
  unfolding f64_of_u64_def
proof (rule rnd64_finite)
  have "rat_of_nat (unat w) < rat_of_nat (2 ^ 64)" using u64_bound [of w] by (simp only: of_nat_less_iff)
  then show "rat_of_nat (unat w) < 2 ^ 64" by simp
  show "0 \<le> rat_of_nat (unat w)" by (rule of_nat_0_le_iff)
qed
text \<open>Rounding errs by at most half a unit in the last place.\<close>

lemma round_even_error: "\<bar>of_int (round_even x) - x\<bar> \<le> 1 / 2"
proof -
  define f where "f = (of_int \<lfloor>x\<rfloor> :: rat)"
  then have f: "f = (of_int \<lfloor>x\<rfloor> :: rat)" "f \<le> x" "x < f + 1" by (simp, simp, linarith)
  have "of_int (round_even x) = f \<or> of_int (round_even x) = f + 1" by (auto simp: round_even_def Let_def f(1))
  moreover have "of_int (round_even x) = f \<Longrightarrow> x - f \<le> 1 / 2" "of_int (round_even x) = f + 1 \<Longrightarrow> 1 / 2 \<le> x - f"
    using f(1) by (auto simp: round_even_def Let_def split: if_splits)
  ultimately show ?thesis using f(2,3) by (auto simp: abs_if)
qed

lemma rnd64_error:
  assumes "0 \<le> x" "x < 2 powi k" "- 1021 \<le> k" "k \<le> 64"
  shows "\<exists>r \<ge> 0. rnd64 x = Fin r \<and> \<bar>r - x\<bar> \<le> 2 powi (k - 54)"
proof (cases "x = 0")
  case True
  then show ?thesis by simp
next
  case False
  let ?e = "max (ilog2 x - 52) (- 1074)"
  have x: "0 < x" using False assms(1) by simp
  have "(2::rat) powi k \<le> 2 powi 64" using assms(4) by (intro power_int_increasing) auto
  then have "x < 2 ^ 64" using assms(2) by (simp add: power_int_def)
  then obtain r where r: "0 \<le> r" "rnd64 x = Fin r" using rnd64_finite [OF assms(1)] by blast
  then have req: "r = of_int (round_even (x / 2 powi ?e)) * 2 powi ?e"
    using x by (auto simp: rnd64_def Let_def split: if_splits)
  have "ilog2 x < k" by (rule powi_le_imp) (use ilog2_le_rat [OF x] assms(2) in linarith)
  then have e: "?e - 1 \<le> k - 54" using assms(3) by simp
  have "r - x = (of_int (round_even (x / 2 powi ?e)) - x / 2 powi ?e) * 2 powi ?e"
    unfolding req by (simp add: left_diff_distrib)
  then have "\<bar>r - x\<bar> = \<bar>of_int (round_even (x / 2 powi ?e)) - x / 2 powi ?e\<bar> * 2 powi ?e" by (simp add: abs_mult)
  also have "\<dots> \<le> 1 / 2 * 2 powi ?e" by (rule mult_right_mono [OF round_even_error]) simp
  also have "\<dots> = 2 powi (?e - 1)" by (simp add: power_int_diff)
  also have "\<dots> \<le> 2 powi (k - 54)" using e by (rule power_int_increasing) simp
  finally show ?thesis using r by blast
qed

text \<open>Neither NaN nor negative: closed under sums and products with a finite weight.\<close>

definition f64_nn :: "f64 \<Rightarrow> bool" where
  "f64_nn x \<longleftrightarrow> x \<noteq> NaN \<and> \<not> f64_lt x (Fin 0)"

lemma rnd64_not_NaN: "rnd64 x \<noteq> NaN"
  by (simp add: rnd64_def Let_def)

lemma f64_nn_rnd64: "0 \<le> x \<Longrightarrow> f64_nn (rnd64 x)"
  by (simp add: f64_nn_def rnd64_nonneg rnd64_not_NaN)

lemma f64_nn_add: "f64_nn x \<Longrightarrow> f64_nn y \<Longrightarrow> f64_nn (f64_add x y)"
  by (cases x; cases y) (auto simp: f64_nn_def rnd64_not_NaN rnd64_nonneg)

lemma f64_nn_mul_u64: "0 \<le> r \<Longrightarrow> f64_nn (f64_mul (f64_of_u64 w) (Fin r))"
  using f64_of_u64_finite [of w] by (auto simp: f64_mul_def f64_nn_def rnd64_not_NaN rnd64_nonneg)

text \<open>Without NaN the comparison is a strict weak ordering.\<close>

lemma f64_lt_trans: "f64_lt x y \<Longrightarrow> f64_lt y z \<Longrightarrow> f64_lt x z"
  by (cases x; cases y; cases z) auto

lemma f64_lt_irrefl [simp]: "\<not> f64_lt x x"
  by (cases x) auto

lemma f64_not_lt_trans: "y \<noteq> NaN \<Longrightarrow> \<not> f64_lt x y \<Longrightarrow> \<not> f64_lt y z \<Longrightarrow> \<not> f64_lt x z"
  by (cases x; cases y; cases z) auto

lemma strict_weak_f64:
  "(\<And>x. x \<in> A \<Longrightarrow> f x \<noteq> NaN) \<Longrightarrow> strict_weak (\<lambda>a b. f64_lt (f a) (f b)) A"
  unfolding strict_weak_def using f64_lt_trans f64_not_lt_trans by (meson f64_lt_irrefl)

end
