(* ===== verification/Digs_Types.thy ===== *)
theory Digs_Types
  imports Binary64
begin

text \<open>
  The data the DIGS scheduler exchanges with the rest of the coordinator
  (\<^verbatim>\<open>common/digs/digs_instance.h\<close>) and the helpers of \<^verbatim>\<open>common/digs/common.h\<close> and
  \<^verbatim>\<open>common/digs/common.cpp\<close>: return codes, block counts and tolerant comparisons of doubles.
\<close>

subsection \<open>Return codes and constants (common.h)\<close>

datatype Status = OK | ILLEGAL_PARAMETER | RESOURCE_NOT_FOUND | STATE_ERROR | TIMEOUT
  | NO_SATISFIED_RESOURCE | STATISTICAL_ERROR

definition ILLEGAL_INSTANCE_ID :: u64 where
  "ILLEGAL_INSTANCE_ID = - 1"

definition INVALID_SCORE :: u64 where
  "INVALID_SCORE = - 1"

definition DOUBLE_EPS :: f64 where
  "DOUBLE_EPS = f64_lit (1 / 1000000)"

definition DEFAULT_MAX_SUMMARY_COUNT :: u64 where
  "DEFAULT_MAX_SUMMARY_COUNT = 1024 * 1024"

subsection \<open>Instances (digs_instance.h)\<close>

definition FLEX_INSTANCE_P_PERCENTAGE_MAX :: u64 where
  "FLEX_INSTANCE_P_PERCENTAGE_MAX = 100"

datatype DIGSInstanceLabel = PREFILL_PREFER | DECODE_PREFER | PREFILL_STATIC | DECODE_STATIC
  | FLEX_STATIC

datatype DIGSReqStage = PREFILL | DECODE

datatype DIGSInstanceRole = UN_DEF_INSTANCE | PREFILL_INSTANCE | DECODE_INSTANCE | FLEX_INSTANCE

record DIGSNodeStaticResource =
  hardwareType :: string
  npuMem :: u64
  npuBW :: u64
  cpuMem :: u64

record DIGSInstanceStaticInfo =
  st_id :: u64
  st_groupId :: u64
  st_flexPRatio :: u64
  st_role :: DIGSInstanceRole
  st_maxSeqLen :: u64
  st_maxOutputLen :: u64
  st_totalSlotsNum :: u64
  st_totalBlockNum :: u64
  st_blockSize :: u64
  st_label :: DIGSInstanceLabel
  st_nodeRes :: DIGSNodeStaticResource
  st_maxConnectionNum :: u64
  st_virtualId :: u64

record DIGSInstanceDynamicInfo =
  dy_id :: u64
  dy_availSlotsNum :: u64
  dy_availBlockNum :: u64
  dy_totalSlotsNum :: u64
  dy_totalBlockNum :: u64
  dy_maxAvailBlockNum :: u64
  dy_prefixHash :: "u64 list"
  dy_peers :: "u64 list"
  dy_waitingRequestNum :: u64
  dy_runningRequestNum :: u64
  dy_swappedRequestNum :: u64
  dy_freeNpuBlockNums :: u64
  dy_freeCpuBlockNums :: u64
  dy_totalNpuBlockNums :: u64
  dy_totalCpuBlockNums :: u64

record DIGSInstanceScheduleInfo =
  sc_id :: u64
  sc_allocatedSlots :: u64
  sc_allocatedBlocks :: u64

record DIGSRequestSummary =
  inputLength :: u64
  outputLength :: u64

text \<open>The member initialisers of the two structs: what a designated initialiser leaves out.\<close>

definition default_node_res :: DIGSNodeStaticResource where
  "default_node_res = \<lparr>hardwareType = [], npuMem = 0, npuBW = 0, cpuMem = 0\<rparr>"

definition default_static :: "u64 \<Rightarrow> u64 \<Rightarrow> DIGSInstanceStaticInfo" where
  "default_static i g = \<lparr>st_id = i, st_groupId = g, st_flexPRatio = 0, st_role = UN_DEF_INSTANCE,
     st_maxSeqLen = 2048, st_maxOutputLen = 512, st_totalSlotsNum = 200, st_totalBlockNum = 1024,
     st_blockSize = 128, st_label = PREFILL_PREFER, st_nodeRes = default_node_res,
     st_maxConnectionNum = 2000, st_virtualId = 1\<rparr>"

definition default_dynamic :: "u64 \<Rightarrow> DIGSInstanceDynamicInfo" where
  "default_dynamic i = \<lparr>dy_id = i, dy_availSlotsNum = 200, dy_availBlockNum = 1024,
     dy_totalSlotsNum = 200, dy_totalBlockNum = 1024, dy_maxAvailBlockNum = 1024,
     dy_prefixHash = [], dy_peers = [], dy_waitingRequestNum = 0, dy_runningRequestNum = 0,
     dy_swappedRequestNum = 0, dy_freeNpuBlockNums = 0, dy_freeCpuBlockNums = 0,
     dy_totalNpuBlockNums = 0, dy_totalCpuBlockNums = 0\<rparr>"

subsection \<open>Helpers (common.cpp)\<close>

definition BlockNum :: "u64 \<Rightarrow> u64 \<Rightarrow> u64" where
  "BlockNum tokens blockSize =
     (if blockSize = 0 then 0 else (tokens + blockSize - 1) div blockSize)"

definition to_lower :: "char \<Rightarrow> char" where
  "to_lower c = (let n = (of_char c :: nat) in if 65 \<le> n \<and> n \<le> 90 then char_of (n + 32) else c)"

definition Str2Bool :: "string \<Rightarrow> bool" where
  "Str2Bool s = (map to_lower s = ''true'')"

definition DoubleIsZero :: "f64 \<Rightarrow> bool" where
  "DoubleIsZero d = f64_lt (f64_abs d) DOUBLE_EPS"

definition MinDouble :: "f64 \<Rightarrow> f64 \<Rightarrow> f64" where
  "MinDouble a b = (if f64_lt a (f64_sub b DOUBLE_EPS) then a else b)"

definition DoubleGreater :: "f64 \<Rightarrow> f64 \<Rightarrow> bool" where
  "DoubleGreater a b = f64_lt (f64_add b DOUBLE_EPS) a"

definition DoubleLess :: "f64 \<Rightarrow> f64 \<Rightarrow> bool" where
  "DoubleLess a b = f64_lt a (f64_sub b DOUBLE_EPS)"

subsection \<open>Block counts\<close>

lemma unat_BlockNum:
  assumes "unat tokens + unat bs \<le> 2 ^ 64" and "bs \<noteq> 0"
  shows "unat (BlockNum tokens bs) = (unat tokens + unat bs - 1) div unat bs"
proof -
  have bs: "0 < unat bs" using assms(2) by (simp add: unat_gt_0)
  have "tokens + bs - 1 = word_of_nat (unat tokens + unat bs - 1)"
    using bs by (simp add: of_nat_diff)
  then have "unat (tokens + bs - 1) = unat tokens + unat bs - 1"
    using assms(1) bs by (simp add: unat_of_nat del: of_nat_diff)
  then show ?thesis using assms(2) by (simp add: BlockNum_def unat_div)
qed

lemma ceil_div_bounds:
  fixes t b :: nat
  assumes "0 < b"
  shows "t \<le> (t + b - 1) div b * b" and "(t + b - 1) div b * b < t + b"
proof -
  have "(t + b - 1) div b * b + (t + b - 1) mod b = t + b - 1" by simp
  moreover have "(t + b - 1) mod b < b" using assms by simp
  ultimately show "t \<le> (t + b - 1) div b * b" "(t + b - 1) div b * b < t + b"
    using assms by linarith+
qed

end
