(* ===== verification/Cluster_Nodes.thy ===== *)
theory Cluster_Nodes
  imports Digs_Types "HOL-Library.FSet"
begin

text \<open>
  \<^verbatim>\<open>coordinator/cluster_monitor/ClusterNodes.{h,cpp}\<close>: the coordinator's table of instances, with the
  tasks each instance works on, the fault lists and the record of the flex instance. Every
  operation locks the table's mutex once and is a function of the table. Three operations that change it
  (\<^verbatim>\<open>AddFaultNode\<close>, \<^verbatim>\<open>RemoveFaultNode\<close>, \<^verbatim>\<open>UpdateExtraInfo\<close>) take the mutex only for reading: the model has them atomic, what
  concurrent readers may see meanwhile is outside of it. The clock readings of
  \<^verbatim>\<open>system_clock::now\<close> and the configured deployment mode are arguments. An unordered set is an \<open>fset\<close>.
  The rewriting of flex instances in a refresh message is in \<open>Flex_Instances\<close>.
\<close>

subsection \<open>State\<close>

record InstanceInfo =
  ii_role :: DIGSInstanceRole
  ii_retry :: u64
  ii_ip :: string
  ii_port :: string
  ii_modelName :: string
  ii_tasks :: "string fset"
  ii_metricPort :: string
  ii_interCommPort :: string
  ii_totalBlockNum :: u64
  ii_totalSlotsNum :: u64
  ii_virtualId :: u64

definition new_InstanceInfo :: "string \<Rightarrow> string \<Rightarrow> DIGSInstanceRole \<Rightarrow> string \<Rightarrow> InstanceInfo" where
  "new_InstanceInfo ip port role modelName = \<lparr>ii_role = role, ii_retry = 0, ii_ip = ip, ii_port = port,
     ii_modelName = modelName, ii_tasks = {||}, ii_metricPort = [], ii_interCommPort = [],
     ii_totalBlockNum = 0, ii_totalSlotsNum = 0, ii_virtualId = 1\<rparr>"

definition DECODE_INS_ID_TRANSFER_BY_FLEX :: u64 where
  "DECODE_INS_ID_TRANSFER_BY_FLEX = - 1 - 1"

definition INS_NUM_MAX :: u64 where
  "INS_NUM_MAX = 4096"

record ClusterFlexInstanceInfo =
  clusterHasFlex :: bool
  originFlexInsId :: u64
  pPercentage :: u64
  splitDInsId :: u64

record ClusterNodes =
  cn_ids :: "u64 list"
  instanceInfos :: "(u64, InstanceInfo) omap"
  virtualToIdsMap :: "(u64, u64 fset) omap"
  clusterFlexInsInfo :: ClusterFlexInstanceInfo
  faultVirtualIds :: "u64 fset"
  faultIds :: "u64 fset"
  virtualIdToDelTimeMap :: "(u64, int) omap"
  idToDelTimeMap :: "(u64, int) omap"

definition new_ClusterNodes :: ClusterNodes where
  "new_ClusterNodes = \<lparr>cn_ids = [], instanceInfos = [], virtualToIdsMap = [],
     clusterFlexInsInfo = \<lparr>clusterHasFlex = False, originFlexInsId = 0, pPercentage = 0,
       splitDInsId = DECODE_INS_ID_TRANSFER_BY_FLEX\<rparr>,
     faultVirtualIds = {||}, faultIds = {||}, virtualIdToDelTimeMap = [], idToDelTimeMap = []\<rparr>"

subsection \<open>Registration and look-up\<close>

definition cn_AddInstance ::
  "u64 \<Rightarrow> string \<Rightarrow> string \<Rightarrow> DIGSInstanceRole \<Rightarrow> string \<Rightarrow> ClusterNodes \<Rightarrow> bool \<times> ClusterNodes" where
  "cn_AddInstance i ip port role modelName c =
     (if map_of (instanceInfos c) i \<noteq> None then (False, c)
      else (True, c\<lparr>instanceInfos := omap_put i (new_InstanceInfo ip port role modelName) (instanceInfos c),
                    cn_ids := cn_ids c @ [i]\<rparr>))"

definition cn_RemoveInstance :: "u64 \<Rightarrow> ClusterNodes \<Rightarrow> ClusterNodes" where
  "cn_RemoveInstance i c =
     (if i \<notin> set (cn_ids c) then c
      else c\<lparr>cn_ids := remove1 i (cn_ids c), instanceInfos := omap_erase i (instanceInfos c)\<rparr>)"

definition GetTask :: "u64 \<Rightarrow> ClusterNodes \<Rightarrow> int" where
  "GetTask i c = (case map_of (instanceInfos c) i of None \<Rightarrow> - 1 | Some v \<Rightarrow> int (fcard (ii_tasks v)))"

definition HasInstance :: "u64 \<Rightarrow> ClusterNodes \<Rightarrow> bool" where
  "HasInstance i c \<longleftrightarrow> map_of (instanceInfos c) i \<noteq> None"

definition cn_get :: "(InstanceInfo \<Rightarrow> 'a) \<Rightarrow> 'a \<Rightarrow> u64 \<Rightarrow> ClusterNodes \<Rightarrow> 'a" where
  "cn_get f d i c = (case map_of (instanceInfos c) i of None \<Rightarrow> d | Some v \<Rightarrow> f v)"

definition cn_GetIp :: "u64 \<Rightarrow> ClusterNodes \<Rightarrow> string" where
  "cn_GetIp = cn_get ii_ip []"

definition cn_GetPort :: "u64 \<Rightarrow> ClusterNodes \<Rightarrow> string" where
  "cn_GetPort = cn_get ii_port []"

definition cn_GetInterCommPort :: "u64 \<Rightarrow> ClusterNodes \<Rightarrow> string" where
  "cn_GetInterCommPort = cn_get ii_interCommPort []"

definition cn_GetRole :: "u64 \<Rightarrow> ClusterNodes \<Rightarrow> DIGSInstanceRole" where
  "cn_GetRole = cn_get ii_role UN_DEF_INSTANCE"

definition cn_GetRetry :: "u64 \<Rightarrow> ClusterNodes \<Rightarrow> u64" where
  "cn_GetRetry = cn_get ii_retry 0"

definition cn_GetModelName :: "u64 \<Rightarrow> ClusterNodes \<Rightarrow> string" where
  "cn_GetModelName = cn_get ii_modelName []"

definition GetTasksById :: "u64 \<Rightarrow> ClusterNodes \<Rightarrow> string fset" where
  "GetTasksById = cn_get ii_tasks {||}"

definition GetTotalBlockNum :: "u64 \<Rightarrow> ClusterNodes \<Rightarrow> u64" where
  "GetTotalBlockNum = cn_get ii_totalBlockNum 0"

definition GetTotalSlotsNum :: "u64 \<Rightarrow> ClusterNodes \<Rightarrow> u64" where
  "GetTotalSlotsNum = cn_get ii_totalSlotsNum 0"

text \<open>\<^verbatim>\<open>GetInstanceInfos\<close> copies the table; no entry of it is a null pointer.\<close>

definition GetInstanceInfos :: "ClusterNodes \<Rightarrow> (u64, InstanceInfo) omap" where
  "GetInstanceInfos c = instanceInfos c"

definition Roll :: "u64 list \<Rightarrow> ClusterNodes \<Rightarrow> u64 list \<times> u64 list \<times> u64 list" where
  "Roll newIds c = (filter (\<lambda>i. i \<notin> set (cn_ids c)) newIds, filter (\<lambda>i. i \<in> set (cn_ids c)) newIds,
     filter (\<lambda>i. i \<notin> set newIds) (cn_ids c))"

definition IsPDSeparateMode :: "string \<Rightarrow> bool" where
  "IsPDSeparateMode deployMode \<longleftrightarrow> deployMode = ''pd_separate'' \<or> deployMode = ''pd_disaggregation''
     \<or> deployMode = ''pd_disaggregation_single_container''"

definition IsAvailable :: "string \<Rightarrow> ClusterNodes \<Rightarrow> bool" where
  "IsAvailable deployMode c =
     (if IsPDSeparateMode deployMode
      then list_ex (\<lambda>(_, v). ii_role v = PREFILL_INSTANCE) (instanceInfos c)
         \<and> list_ex (\<lambda>(_, v). ii_role v = DECODE_INSTANCE) (instanceInfos c)
      else instanceInfos c \<noteq> [])"

definition cn_GetId :: "string \<Rightarrow> string \<Rightarrow> ClusterNodes \<Rightarrow> u64" where
  "cn_GetId ip port c = (case List.find (\<lambda>(_, v). ii_ip v = ip \<and> ii_port v = port) (instanceInfos c) of
       None \<Rightarrow> - 1 | Some (i, _) \<Rightarrow> i)"

subsection \<open>Tasks and retries\<close>

definition upd_instance :: "u64 \<Rightarrow> (InstanceInfo \<Rightarrow> InstanceInfo) \<Rightarrow> ClusterNodes \<Rightarrow> ClusterNodes" where
  "upd_instance i f c = (case map_of (instanceInfos c) i of None \<Rightarrow> c
     | Some v \<Rightarrow> c\<lparr>instanceInfos := omap_put i (f v) (instanceInfos c)\<rparr>)"

definition AddTask :: "u64 \<Rightarrow> string \<Rightarrow> ClusterNodes \<Rightarrow> ClusterNodes" where
  "AddTask i reqId = upd_instance i (\<lambda>v. v\<lparr>ii_tasks := finsert reqId (ii_tasks v)\<rparr>)"

definition DecreaseTask :: "u64 \<Rightarrow> string \<Rightarrow> ClusterNodes \<Rightarrow> ClusterNodes" where
  "DecreaseTask i reqId = upd_instance i (\<lambda>v. v\<lparr>ii_tasks := ii_tasks v |-| {|reqId|}\<rparr>)"

definition cn_AddRetry :: "u64 \<Rightarrow> ClusterNodes \<Rightarrow> ClusterNodes" where
  "cn_AddRetry i = upd_instance i (\<lambda>v. v\<lparr>ii_retry := ii_retry v + 1\<rparr>)"

definition tasks_size :: "InstanceInfo \<Rightarrow> u64" where
  "tasks_size v = word_of_nat (fcard (ii_tasks v))"

definition GetTokenizerIns :: "ClusterNodes \<Rightarrow> u64" where
  "GetTokenizerIns c =
     (let taskMin = fold (\<lambda>(_, v) m. if tasks_size v < m then tasks_size v else m) (instanceInfos c) (- 1)
      in case List.find (\<lambda>(_, v). tasks_size v = taskMin) (instanceInfos c) of
           None \<Rightarrow> - 1 | Some (i, _) \<Rightarrow> i)"

text \<open>The loop returns in its first iteration, whether or not the name matches.\<close>

definition HasModelName :: "string \<Rightarrow> ClusterNodes \<Rightarrow> bool" where
  "HasModelName modelName c = (case instanceInfos c of [] \<Rightarrow> False
     | (i, _) # _ \<Rightarrow> if cn_GetModelName i c = modelName then True else False)"

subsection \<open>Faults\<close>

definition IsFaultyNode :: "u64 \<Rightarrow> ClusterNodes \<Rightarrow> bool" where
  "IsFaultyNode i c = (case map_of (instanceInfos c) i of
       None \<Rightarrow> i |\<in>| faultIds c
     | Some v \<Rightarrow> ii_virtualId v |\<in>| faultVirtualIds c)"

definition AddFaultNode :: "int \<Rightarrow> int \<Rightarrow> u64 \<Rightarrow> ClusterNodes \<Rightarrow> ClusterNodes" where
  "AddFaultNode now1 now2 i c = (case map_of (instanceInfos c) i of None \<Rightarrow> c
     | Some v \<Rightarrow> c\<lparr>faultVirtualIds := finsert (ii_virtualId v) (faultVirtualIds c), faultIds := finsert i (faultIds c),
         virtualIdToDelTimeMap := omap_put (ii_virtualId v) now1 (virtualIdToDelTimeMap c),
         idToDelTimeMap := omap_put i now2 (idToDelTimeMap c)\<rparr>)"

definition RemoveFaultNode :: "u64 \<Rightarrow> ClusterNodes \<Rightarrow> ClusterNodes" where
  "RemoveFaultNode i c = (case map_of (instanceInfos c) i of None \<Rightarrow> c
     | Some v \<Rightarrow>
         let virtualId = ii_virtualId v; allIds = omap_get {||} (virtualToIdsMap c) virtualId
         in c\<lparr>virtualIdToDelTimeMap := omap_erase virtualId (virtualIdToDelTimeMap c),
              faultVirtualIds := faultVirtualIds c |-| {|virtualId|},
              idToDelTimeMap := filter (\<lambda>(k, _). k |\<notin>| allIds) (idToDelTimeMap c),
              faultIds := faultIds c |-| allIds,
              virtualToIdsMap := omap_erase virtualId (virtualToIdsMap c)\<rparr>)"

definition GetVirtualIdToIds :: "u64 \<Rightarrow> ClusterNodes \<Rightarrow> u64 fset" where
  "GetVirtualIdToIds i c = (case map_of (instanceInfos c) i of None \<Rightarrow> {||}
     | Some v \<Rightarrow> (case map_of (virtualToIdsMap c) (ii_virtualId v) of None \<Rightarrow> {||} | Some ids \<Rightarrow> ids))"

definition GetDeleteTime :: "int \<Rightarrow> u64 \<Rightarrow> ClusterNodes \<Rightarrow> int" where
  "GetDeleteTime now i c = (case map_of (instanceInfos c) i of
       None \<Rightarrow> (case map_of (idToDelTimeMap c) i of None \<Rightarrow> now | Some t \<Rightarrow> t)
     | Some v \<Rightarrow> (case map_of (virtualIdToDelTimeMap c) (ii_virtualId v) of None \<Rightarrow> now | Some t \<Rightarrow> t))"

definition UpdateExtraInfo ::
  "u64 \<Rightarrow> string \<Rightarrow> string \<Rightarrow> u64 \<Rightarrow> u64 \<Rightarrow> u64 \<Rightarrow> ClusterNodes \<Rightarrow> ClusterNodes" where
  "UpdateExtraInfo i metricPort interCommPort totalBlockNum totalSlotsNum virtualId c =
     (case map_of (instanceInfos c) i of None \<Rightarrow> c
      | Some v \<Rightarrow> c\<lparr>instanceInfos := omap_put i (v\<lparr>ii_metricPort := metricPort, ii_interCommPort := interCommPort,
             ii_totalBlockNum := totalBlockNum, ii_totalSlotsNum := totalSlotsNum, ii_virtualId := virtualId\<rparr>)
             (instanceInfos c),
           virtualToIdsMap := (case map_of (virtualToIdsMap c) virtualId of
               None \<Rightarrow> omap_put virtualId {|i|} (virtualToIdsMap c)
             | Some ids \<Rightarrow> omap_put virtualId (finsert i ids) (virtualToIdsMap c))\<rparr>)"

subsection \<open>The record of the flex instance\<close>

definition UpdateClusterFlexInstanceInfo :: "u64 \<Rightarrow> u64 \<Rightarrow> ClusterNodes \<Rightarrow> ClusterNodes" where
  "UpdateClusterFlexInstanceInfo oriFlexId pPer c = c\<lparr>clusterFlexInsInfo := \<lparr>clusterHasFlex = True,
     originFlexInsId = oriFlexId, pPercentage = pPer, splitDInsId = DECODE_INS_ID_TRANSFER_BY_FLEX\<rparr>\<rparr>"

definition ClearClusterFlexInstanceInfo :: "ClusterNodes \<Rightarrow> ClusterNodes" where
  "ClearClusterFlexInstanceInfo c = c\<lparr>clusterFlexInsInfo := (clusterFlexInsInfo c)\<lparr>clusterHasFlex := False,
     pPercentage := 0, originFlexInsId := 0\<rparr>\<rparr>"

definition IsClusterHasFlex :: "ClusterNodes \<Rightarrow> bool" where
  "IsClusterHasFlex c = clusterHasFlex (clusterFlexInsInfo c)"

definition GetOriFlexInsId :: "ClusterNodes \<Rightarrow> u64" where
  "GetOriFlexInsId c = originFlexInsId (clusterFlexInsInfo c)"

definition GetSplitedDInsId :: "ClusterNodes \<Rightarrow> u64" where
  "GetSplitedDInsId c = splitDInsId (clusterFlexInsInfo c)"

definition IsFlexSplitedIntoTwoInstance :: "ClusterNodes \<Rightarrow> bool" where
  "IsFlexSplitedIntoTwoInstance c \<longleftrightarrow> clusterHasFlex (clusterFlexInsInfo c)
     \<and> pPercentage (clusterFlexInsInfo c) \<noteq> 0 \<and> pPercentage (clusterFlexInsInfo c) \<noteq> FLEX_INSTANCE_P_PERCENTAGE_MAX"

definition IsVecContainsFlex :: "u64 list \<Rightarrow> ClusterNodes \<Rightarrow> bool" where
  "IsVecContainsFlex vec c =
     (let info = clusterFlexInsInfo c;
          isPFound = (pPercentage info = 0);
          isDFound = (pPercentage info = FLEX_INSTANCE_P_PERCENTAGE_MAX);
          (isPFound, isDFound) = fold (\<lambda>i (p, d). (p \<or> i = originFlexInsId info, d \<or> i = splitDInsId info))
             vec (isPFound, isDFound)
      in isPFound \<and> isDFound)"

definition IsBothPAndDFromFlex :: "u64 \<Rightarrow> u64 \<Rightarrow> ClusterNodes \<Rightarrow> bool" where
  "IsBothPAndDFromFlex pId dId c \<longleftrightarrow> pId = originFlexInsId (clusterFlexInsInfo c) \<and> dId = splitDInsId (clusterFlexInsInfo c)"

definition IsInstanceFromFlex :: "u64 \<Rightarrow> ClusterNodes \<Rightarrow> bool" where
  "IsInstanceFromFlex i c \<longleftrightarrow> clusterHasFlex (clusterFlexInsInfo c)
     \<and> (i = splitDInsId (clusterFlexInsInfo c) \<or> i = originFlexInsId (clusterFlexInsInfo c))"

definition GetInsNumMax :: "ClusterNodes \<Rightarrow> u64" where
  "GetInsNumMax c = (if IsFlexSplitedIntoTwoInstance c then INS_NUM_MAX + 1 else INS_NUM_MAX)"

text \<open>The first element that satisfies a predicate is changed in place.\<close>

fun upd_first :: "('a \<Rightarrow> bool) \<Rightarrow> ('a \<Rightarrow> 'a) \<Rightarrow> 'a list \<Rightarrow> 'a list" where
  "upd_first P f [] = []"
| "upd_first P f (x # xs) = (if P x then f x # xs else x # upd_first P f xs)"

fun del_first :: "('a \<Rightarrow> bool) \<Rightarrow> 'a list \<Rightarrow> 'a list" where
  "del_first P [] = []"
| "del_first P (x # xs) = (if P x then xs else x # del_first P xs)"

definition ProcSchedulerInfoUnderFlexSituation ::
  "DIGSInstanceScheduleInfo list \<Rightarrow> ClusterNodes \<Rightarrow> DIGSInstanceScheduleInfo list" where
  "ProcSchedulerInfoUnderFlexSituation schedulerInfo c =
     (if \<not> IsClusterHasFlex c then schedulerInfo
      else let oriFlexId = GetOriFlexInsId c; splitedDInsId = GetSplitedDInsId c
           in if IsFlexSplitedIntoTwoInstance c
              then (case List.find (\<lambda>e. sc_id e = oriFlexId) schedulerInfo of None \<Rightarrow> schedulerInfo
                    | Some _ \<Rightarrow> (case List.find (\<lambda>e. sc_id e = splitedDInsId) schedulerInfo of None \<Rightarrow> schedulerInfo
                        | Some d \<Rightarrow> del_first (\<lambda>e. sc_id e = splitedDInsId)
                            (upd_first (\<lambda>e. sc_id e = oriFlexId)
                               (\<lambda>e. e\<lparr>sc_allocatedSlots := sc_allocatedSlots e + sc_allocatedSlots d,
                                      sc_allocatedBlocks := sc_allocatedBlocks e + sc_allocatedBlocks d\<rparr>)
                               schedulerInfo)))
              else upd_first (\<lambda>e. sc_id e = splitedDInsId) (\<lambda>e. e\<lparr>sc_id := oriFlexId\<rparr>) schedulerInfo)"

definition ProcInstanceIdsUnderFlexSituation :: "u64 list \<Rightarrow> ClusterNodes \<Rightarrow> u64 list" where
  "ProcInstanceIdsUnderFlexSituation nodeIds c =
     (if \<not> IsClusterHasFlex c then nodeIds
      else let flexId = GetOriFlexInsId c
           in if IsFlexSplitedIntoTwoInstance c \<and> flexId \<in> set nodeIds then nodeIds @ [GetSplitedDInsId c]
              else if pPercentage (clusterFlexInsInfo c) = 0 \<and> flexId \<in> set nodeIds
              then upd_first (\<lambda>i. i = flexId) (\<lambda>_. GetSplitedDInsId c) nodeIds
              else nodeIds)"

text \<open>The sum is one of 64-bit signed integers; task counts are far below the bound.\<close>

definition GetInstanceTaskNumUnderFlexSituation :: "u64 \<Rightarrow> ClusterNodes \<Rightarrow> int" where
  "GetInstanceTaskNumUnderFlexSituation i c =
     (if \<not> IsClusterHasFlex c \<or> i \<noteq> GetOriFlexInsId c then GetTask i c
      else if IsFlexSplitedIntoTwoInstance c then GetTask (GetOriFlexInsId c) c + GetTask (GetSplitedDInsId c) c
      else if pPercentage (clusterFlexInsInfo c) = 0 then GetTask (GetSplitedDInsId c) c
      else GetTask (GetOriFlexInsId c) c)"

definition ProcTaskQuaryDInstanceIdUnderFlexSituation :: "u64 \<Rightarrow> ClusterNodes \<Rightarrow> u64" where
  "ProcTaskQuaryDInstanceIdUnderFlexSituation dId c =
     (if IsClusterHasFlex c \<and> dId = originFlexInsId (clusterFlexInsInfo c) then DECODE_INS_ID_TRANSFER_BY_FLEX else dId)"

subsection \<open>What the operations do to the table\<close>

named_theorems cn_simps \<open>effect of the table operations on one instance\<close>

lemma map_of_upd_instance [cn_simps]:
  "map_of (instanceInfos (upd_instance i f c)) = (\<lambda>j. if j = i then map_option f (map_of (instanceInfos c) i)
     else map_of (instanceInfos c) j)"
  by (auto simp: upd_instance_def omap_simps fun_eq_iff split: option.splits)

lemma upd_instance_frame [cn_simps]:
  "cn_ids (upd_instance i f c) = cn_ids c" "virtualToIdsMap (upd_instance i f c) = virtualToIdsMap c"
  "clusterFlexInsInfo (upd_instance i f c) = clusterFlexInsInfo c"
  "faultVirtualIds (upd_instance i f c) = faultVirtualIds c" "faultIds (upd_instance i f c) = faultIds c"
  "virtualIdToDelTimeMap (upd_instance i f c) = virtualIdToDelTimeMap c"
  "idToDelTimeMap (upd_instance i f c) = idToDelTimeMap c"
  by (simp_all add: upd_instance_def split: option.splits)

lemma omap_ok_upd_instance [intro]: "omap_ok (instanceInfos c) \<Longrightarrow> omap_ok (instanceInfos (upd_instance i f c))"
  by (auto simp: upd_instance_def split: option.splits)

lemma GetTasksById_AddTask [cn_simps]:
  "GetTasksById j (AddTask i r c) = (if j = i \<and> HasInstance i c then finsert r (GetTasksById i c) else GetTasksById j c)"
  by (auto simp: GetTasksById_def cn_get_def AddTask_def HasInstance_def cn_simps split: option.splits)

lemma GetTasksById_DecreaseTask [cn_simps]:
  "GetTasksById j (DecreaseTask i r c) = (if j = i then GetTasksById i c |-| {|r|} else GetTasksById j c)"
  by (auto simp: GetTasksById_def cn_get_def DecreaseTask_def cn_simps split: option.splits)

lemma GetTasksById_AddRetry [cn_simps]: "GetTasksById j (cn_AddRetry i c) = GetTasksById j c"
  by (auto simp: GetTasksById_def cn_get_def cn_AddRetry_def cn_simps split: option.splits)

lemma GetTasksById_AddInstance [cn_simps]: "GetTasksById j (snd (cn_AddInstance i ip port role m c)) = GetTasksById j c"
  by (auto simp: GetTasksById_def cn_get_def cn_AddInstance_def new_InstanceInfo_def omap_simps split: option.splits)

lemma GetTasksById_RemoveInstance [cn_simps]:
  "omap_ok (instanceInfos c) \<Longrightarrow>
    GetTasksById j (cn_RemoveInstance i c) = (if j = i \<and> i \<in> set (cn_ids c) then {||} else GetTasksById j c)"
  by (auto simp: GetTasksById_def cn_get_def cn_RemoveInstance_def omap_simps split: option.splits)

lemma GetTasksById_UpdateExtraInfo [cn_simps]: "GetTasksById j (UpdateExtraInfo i a b x y z c) = GetTasksById j c"
  by (auto simp: GetTasksById_def cn_get_def UpdateExtraInfo_def omap_simps split: option.splits)

lemma GetTasksById_AddFaultNode [cn_simps]: "GetTasksById j (AddFaultNode t t' i c) = GetTasksById j c"
  by (auto simp: GetTasksById_def cn_get_def AddFaultNode_def split: option.splits)

lemma GetTasksById_RemoveFaultNode [cn_simps]: "GetTasksById j (RemoveFaultNode i c) = GetTasksById j c"
  by (auto simp: GetTasksById_def cn_get_def RemoveFaultNode_def Let_def split: option.splits)

lemma GetTasksById_flex [cn_simps]:
  "GetTasksById j (UpdateClusterFlexInstanceInfo a p c) = GetTasksById j c"
  "GetTasksById j (ClearClusterFlexInstanceInfo c) = GetTasksById j c"
  by (simp_all add: GetTasksById_def cn_get_def UpdateClusterFlexInstanceInfo_def ClearClusterFlexInstanceInfo_def)

lemma HasInstance_tasks [cn_simps]:
  "HasInstance j (AddTask i r c) = HasInstance j c" "HasInstance j (DecreaseTask i r c) = HasInstance j c"
  by (auto simp: HasInstance_def AddTask_def DecreaseTask_def cn_simps)

lemma GetTask_card: "HasInstance i c \<Longrightarrow> GetTask i c = int (fcard (GetTasksById i c))"
  by (auto simp: GetTask_def HasInstance_def GetTasksById_def cn_get_def)

lemma GetTask_absent: "GetTask i c = - 1 \<longleftrightarrow> \<not> HasInstance i c"
  by (auto simp: GetTask_def HasInstance_def split: option.splits)

text \<open>The address of an instance is fixed when it is added.\<close>

lemma address_tasks [cn_simps]:
  "cn_GetIp j (AddTask i r c) = cn_GetIp j c" "cn_GetPort j (AddTask i r c) = cn_GetPort j c"
  "cn_GetIp j (DecreaseTask i r c) = cn_GetIp j c" "cn_GetPort j (DecreaseTask i r c) = cn_GetPort j c"
  by (auto simp: cn_GetIp_def cn_GetPort_def cn_get_def AddTask_def DecreaseTask_def cn_simps split: option.splits)

subsection \<open>Invariant\<close>

definition cn_ok :: "ClusterNodes \<Rightarrow> bool" where
  "cn_ok c \<longleftrightarrow> omap_ok (instanceInfos c) \<and> distinct (cn_ids c) \<and> set (cn_ids c) = dom (map_of (instanceInfos c))
     \<and> omap_ok (virtualToIdsMap c) \<and> omap_ok (virtualIdToDelTimeMap c) \<and> omap_ok (idToDelTimeMap c)
     \<and> dom (map_of (virtualIdToDelTimeMap c)) = fset (faultVirtualIds c)
     \<and> dom (map_of (idToDelTimeMap c)) = fset (faultIds c)"

lemma cn_okD:
  assumes "cn_ok c"
  shows "omap_ok (instanceInfos c)" "distinct (cn_ids c)" "set (cn_ids c) = dom (map_of (instanceInfos c))"
    "omap_ok (virtualToIdsMap c)" "omap_ok (virtualIdToDelTimeMap c)" "omap_ok (idToDelTimeMap c)"
    "dom (map_of (virtualIdToDelTimeMap c)) = fset (faultVirtualIds c)"
    "dom (map_of (idToDelTimeMap c)) = fset (faultIds c)"
  using assms by (simp_all add: cn_ok_def)

lemma in_cn_ids: "cn_ok c \<Longrightarrow> i \<in> set (cn_ids c) \<longleftrightarrow> HasInstance i c"
  by (auto simp: cn_ok_def HasInstance_def)

lemma cn_ok_new: "cn_ok new_ClusterNodes"
  by (simp add: cn_ok_def new_ClusterNodes_def)

lemma cn_ok_upd_instance: "cn_ok c \<Longrightarrow> cn_ok (upd_instance i f c)"
  by (auto simp: cn_ok_def cn_simps dom_def split: if_splits)

lemma cn_ok_AddInstance: "cn_ok c \<Longrightarrow> cn_ok (snd (cn_AddInstance i ip port role m c))"
  by (auto simp: cn_ok_def cn_AddInstance_def omap_simps dom_def)

lemma cn_ok_RemoveInstance: "cn_ok c \<Longrightarrow> cn_ok (cn_RemoveInstance i c)"
  by (auto simp: cn_ok_def cn_RemoveInstance_def omap_simps dom_def split: if_splits)

lemma cn_ok_UpdateExtraInfo: "cn_ok c \<Longrightarrow> cn_ok (UpdateExtraInfo i a b x y z c)"
  by (auto simp: cn_ok_def UpdateExtraInfo_def omap_simps dom_def split: option.splits)

lemma cn_ok_AddFaultNode: "cn_ok c \<Longrightarrow> cn_ok (AddFaultNode t t' i c)"
  by (auto simp: cn_ok_def AddFaultNode_def omap_simps dom_def split: option.splits)

lemma omap_ok_filter: "omap_ok m \<Longrightarrow> omap_ok (filter P m)"
  unfolding omap_ok_def omap_keys_def by (rule sorted_wrt_map_mono) (auto simp: sorted_wrt_map intro: sorted_wrt_filter)

lemma map_of_filter_keys: "map_of (filter (\<lambda>(k, _). P k) m) k = (if P k then map_of m k else None)"
  by (induction m) auto

lemma cn_ok_RemoveFaultNode:
  assumes "cn_ok c"
  shows "cn_ok (RemoveFaultNode i c)"
proof (cases "map_of (instanceInfos c) i")
  case (Some v)
  have "dom (map_of (idToDelTimeMap (RemoveFaultNode i c))) = fset (faultIds (RemoveFaultNode i c))"
    using cn_okD(8) [OF assms] by (auto simp: RemoveFaultNode_def Some Let_def map_of_filter_keys dom_def split: if_splits)
  moreover have "dom (map_of (virtualIdToDelTimeMap (RemoveFaultNode i c))) = fset (faultVirtualIds (RemoveFaultNode i c))"
    using cn_okD(5,7) [OF assms] by (auto simp: RemoveFaultNode_def Some Let_def omap_simps dom_def split: if_splits)
  ultimately show ?thesis
    using cn_okD [OF assms] by (auto simp: cn_ok_def RemoveFaultNode_def Some Let_def intro: omap_ok_filter)
qed (use assms in \<open>simp add: RemoveFaultNode_def\<close>)

subsection \<open>Sequences of calls\<close>

datatype cn_op = CnAdd u64 string string DIGSInstanceRole string | CnExtra u64 string string u64 u64 u64
  | CnRemove u64 | CnAddTask u64 string | CnDecreaseTask u64 string | CnAddRetry u64
  | CnAddFault int int u64 | CnRemoveFault u64 | CnFlex u64 u64 | CnClearFlex

fun cn_step :: "cn_op \<Rightarrow> ClusterNodes \<Rightarrow> ClusterNodes" where
  "cn_step (CnAdd i ip port role m) c = snd (cn_AddInstance i ip port role m c)"
| "cn_step (CnExtra i a b x y z) c = UpdateExtraInfo i a b x y z c"
| "cn_step (CnRemove i) c = cn_RemoveInstance i c"
| "cn_step (CnAddTask i r) c = AddTask i r c"
| "cn_step (CnDecreaseTask i r) c = DecreaseTask i r c"
| "cn_step (CnAddRetry i) c = cn_AddRetry i c"
| "cn_step (CnAddFault t t' i) c = AddFaultNode t t' i c"
| "cn_step (CnRemoveFault i) c = RemoveFaultNode i c"
| "cn_step (CnFlex i p) c = UpdateClusterFlexInstanceInfo i p c"
| "cn_step CnClearFlex c = ClearClusterFlexInstanceInfo c"

lemma cn_ok_flex:
  "cn_ok c \<Longrightarrow> cn_ok (UpdateClusterFlexInstanceInfo i p c)" "cn_ok c \<Longrightarrow> cn_ok (ClearClusterFlexInstanceInfo c)"
  by (simp_all add: cn_ok_def UpdateClusterFlexInstanceInfo_def ClearClusterFlexInstanceInfo_def)

lemmas cn_ok_intros = cn_ok_new cn_ok_upd_instance cn_ok_AddInstance cn_ok_RemoveInstance cn_ok_UpdateExtraInfo
  cn_ok_AddFaultNode cn_ok_RemoveFaultNode cn_ok_flex

lemma cn_ok_step: "cn_ok c \<Longrightarrow> cn_ok (cn_step s c)"
  by (cases s) (auto simp: AddTask_def DecreaseTask_def cn_AddRetry_def intro: cn_ok_intros)

lemma cn_ok_steps: "cn_ok c \<Longrightarrow> cn_ok (fold cn_step ss c)"
  by (induction ss arbitrary: c) (auto intro: cn_ok_step)

text \<open>C33: after any sequence of calls the list of instance ids is free of duplicates and lists exactly the keys of
  the instance table, and a time of failure is recorded for exactly the failed ids and failed virtual ids.\<close>

theorem cluster_tables_consistent:
  fixes ss defines "c \<equiv> fold cn_step ss new_ClusterNodes"
  shows "distinct (cn_ids c) \<and> set (cn_ids c) = dom (map_of (instanceInfos c)) \<and> distinct (map fst (instanceInfos c))
    \<and> dom (map_of (virtualIdToDelTimeMap c)) = fset (faultVirtualIds c)
    \<and> dom (map_of (idToDelTimeMap c)) = fset (faultIds c)"
  using cn_okD [OF cn_ok_steps [OF cn_ok_new, of ss]] by (simp add: c_def omap_ok_distinct)

subsection \<open>Synchronising with a new list of ids\<close>

lemma set_AddInstance:
  "set (cn_ids (snd (cn_AddInstance i ip port role m c))) = (if HasInstance i c then set (cn_ids c) else insert i (set (cn_ids c)))"
  by (auto simp: cn_AddInstance_def HasInstance_def)

lemma set_RemoveInstance: "cn_ok c \<Longrightarrow> set (cn_ids (cn_RemoveInstance i c)) = set (cn_ids c) - {i}"
  by (auto simp: cn_RemoveInstance_def cn_ok_def)

lemma set_remove_all: "cn_ok c \<Longrightarrow> set (cn_ids (fold cn_RemoveInstance is c)) = set (cn_ids c) - set is"
  by (induction "is" arbitrary: c) (auto simp: set_RemoveInstance cn_ok_RemoveInstance)

lemma Roll_partition:
  assumes "Roll newIds c = (a, u, r)"
  shows "set a = set newIds - set (cn_ids c)" "set u = set newIds \<inter> set (cn_ids c)" "set r = set (cn_ids c) - set newIds"
    "length a + length u = length newIds"
  using assms sum_length_filter_compl [of "\<lambda>i. i \<in> set (cn_ids c)" newIds] by (auto simp: Roll_def)

subsection \<open>The tokenizer instance\<close>

lemma fold_min: "fold (\<lambda>x m. if f x < m then f x else m) xs (z :: u64) = Min (insert z (f ` set xs))"
proof (induction xs arbitrary: z)
  case (Cons x xs)
  have "Min (insert (if f x < z then f x else z) (f ` set xs)) = min (min (f x) z) (if xs = [] then min (f x) z else Min (f ` set xs))"
    by (auto simp: min_def)
  moreover have "Min (insert z (f ` set (x # xs))) = min z (if xs = [] then f x else min (f x) (Min (f ` set xs)))" by auto
  ultimately show ?case using Cons [of "if f x < z then f x else z"] by (auto simp: min.assoc min.left_commute min.commute)
qed simp

lemma GetTokenizerIns_least:
  assumes "cn_ok c" and "cn_ids c \<noteq> []"
  shows "\<exists>v. map_of (instanceInfos c) (GetTokenizerIns c) = Some v
    \<and> (\<forall>j w. map_of (instanceInfos c) j = Some w \<longrightarrow> tasks_size v \<le> tasks_size w)"
proof -
  note ok = cn_okD(1) [OF assms(1)]
  define m where "m = fold (\<lambda>(_, v) m. if tasks_size v < m then tasks_size v else m) (instanceInfos c) (- 1)"
  have m: "m = Min (insert (- 1) ((\<lambda>(_, v). tasks_size v) ` set (instanceInfos c)))"
    unfolding m_def case_prod_unfold by (rule fold_min)
  have ne: "instanceInfos c \<noteq> []" using cn_okD(3) [OF assms(1)] assms(2) by auto
  then obtain e where "e \<in> set (instanceInfos c)" by (cases "instanceInfos c") auto
  then have "m \<le> (\<lambda>(_, v). tasks_size v) e" unfolding m by (intro Min_le) auto
  have "m \<in> insert (- 1) ((\<lambda>(_, v). tasks_size v) ` set (instanceInfos c))" unfolding m by (intro Min_in) auto
  moreover have "tasks_size w = - 1" if "m = - 1" "(j, w) \<in> set (instanceInfos c)" for j w
  proof -
    have "m \<le> tasks_size w" unfolding m by (intro Min_le) (use that(2) in \<open>auto intro: rev_image_eqI\<close>)
    then show ?thesis using that(1) by (simp add: order_antisym)
  qed
  ultimately have "\<exists>e \<in> set (instanceInfos c). (\<lambda>(_, v). tasks_size v = m) e"
    using \<open>e \<in> set (instanceInfos c)\<close> by (cases e) auto
  then obtain k v where f: "List.find (\<lambda>(_, v). tasks_size v = m) (instanceInfos c) = Some (k, v)"
    by (cases "List.find (\<lambda>(_, v). tasks_size v = m) (instanceInfos c)") (auto simp: find_None_iff)
  then have kv: "(k, v) \<in> set (instanceInfos c)" "tasks_size v = m" by (auto simp: find_Some_iff) (metis nth_mem)
  have "GetTokenizerIns c = k" using f by (simp add: GetTokenizerIns_def m_def Let_def)
  moreover have "map_of (instanceInfos c) k = Some v" using kv ok by (simp add: omap_in_set)
  moreover have "tasks_size v \<le> tasks_size w" if "map_of (instanceInfos c) j = Some w" for j w
    unfolding kv(2) m by (intro Min_le) (use map_of_SomeD [OF that] in \<open>auto intro: rev_image_eqI\<close>)
  ultimately show ?thesis by blast
qed

subsection \<open>Fault tracking\<close>

text \<open>C35: when an instance is reported faulty, every registered instance with the same virtual id counts as faulty
  since that moment; the instance itself stays faulty after it is removed from the table; and when it is taken off
  the fault list no registered instance with its virtual id is faulty any more.\<close>

theorem fault_covers_virtual_group:
  assumes "cn_ok c" and "map_of (instanceInfos c) i = Some v" and "map_of (instanceInfos c) j = Some w"
    and "ii_virtualId w = ii_virtualId v"
  shows "IsFaultyNode j (AddFaultNode t t' i c) \<and> GetDeleteTime now j (AddFaultNode t t' i c) = t
    \<and> IsFaultyNode i (cn_RemoveInstance i (AddFaultNode t t' i c))
    \<and> GetDeleteTime now i (cn_RemoveInstance i (AddFaultNode t t' i c)) = t'
    \<and> \<not> IsFaultyNode j (RemoveFaultNode i c)"
proof -
  have "i \<in> set (cn_ids c)" using cn_okD(3) [OF assms(1)] assms(2) by auto
  then have r: "map_of (instanceInfos (cn_RemoveInstance i (AddFaultNode t t' i c))) i = None"
    using cn_okD(1) [OF assms(1)] assms(2) by (simp add: cn_RemoveInstance_def AddFaultNode_def omap_simps)
  have "faultIds (cn_RemoveInstance i (AddFaultNode t t' i c)) = finsert i (faultIds c)"
    "map_of (idToDelTimeMap (cn_RemoveInstance i (AddFaultNode t t' i c))) i = Some t'"
    using assms(2) by (auto simp: cn_RemoveInstance_def AddFaultNode_def omap_simps)
  with r have "IsFaultyNode i (cn_RemoveInstance i (AddFaultNode t t' i c))"
    "GetDeleteTime now i (cn_RemoveInstance i (AddFaultNode t t' i c)) = t'"
    by (simp_all add: IsFaultyNode_def GetDeleteTime_def)
  moreover have "IsFaultyNode j (AddFaultNode t t' i c)" "GetDeleteTime now j (AddFaultNode t t' i c) = t"
    using assms by (simp_all add: IsFaultyNode_def GetDeleteTime_def AddFaultNode_def omap_simps)
  moreover have "\<not> IsFaultyNode j (RemoveFaultNode i c)"
    using assms by (simp add: IsFaultyNode_def RemoveFaultNode_def Let_def)
  ultimately show ?thesis by blast
qed

definition ex_cn :: ClusterNodes where
  "ex_cn = fold cn_step [CnAdd 1 ''10.0.0.1'' ''80'' PREFILL_INSTANCE ''m'', CnExtra 1 [] [] 1024 200 7,
     CnAdd 2 ''10.0.0.2'' ''80'' DECODE_INSTANCE ''m'', CnExtra 2 [] [] 1024 200 7] new_ClusterNodes"

lemma ex_cn_ok: "cn_ok ex_cn"
  unfolding ex_cn_def by (rule cn_ok_steps [OF cn_ok_new])

theorem fault_covers_virtual_group_witness:
  "IsFaultyNode 2 (AddFaultNode 5 6 1 ex_cn) \<and> GetDeleteTime 9 2 (AddFaultNode 5 6 1 ex_cn) = 5"
proof -
  obtain v where v: "map_of (instanceInfos ex_cn) 1 = Some v" "ii_virtualId v = 7"
    by (simp add: ex_cn_def cn_AddInstance_def UpdateExtraInfo_def new_ClusterNodes_def new_InstanceInfo_def)
  obtain w where w: "map_of (instanceInfos ex_cn) 2 = Some w" "ii_virtualId w = 7"
    by (simp add: ex_cn_def cn_AddInstance_def UpdateExtraInfo_def new_ClusterNodes_def new_InstanceInfo_def)
  show ?thesis using fault_covers_virtual_group [OF ex_cn_ok v(1) w(1), of 5 6 9] v(2) w(2) by simp
qed

end
