(* ===== verification/Flex_Instances.thy ===== *)
theory Flex_Instances
  imports Cluster_Nodes
begin

text \<open>
  The rewriting of a refresh message that contains a flex instance
  (\<^verbatim>\<open>ClusterNodes::ProcessFlexInstance\<close> and its helpers): the flex instance becomes a prefill instance, a decode
  instance, or one of each with its capacity split by a percentage, and the peer lists of the instances in
  its group follow.

  A message is what the JSON library hands to the code. A field is absent, present with a value that
  \<^verbatim>\<open>get<T>\<close> refuses, or present with the value \<^verbatim>\<open>get<T>\<close> returns; \<^verbatim>\<open>at\<close> throws on an absent field, \<^verbatim>\<open>get\<close> on a
  refused one, and assigning through \<^verbatim>\<open>at\<close> needs the field to be present only. Lists of peers and of
  hashes are arrays of unsigned integers when they are present. An operation that catches an exception and
  returns -1 has the value \<^const>\<open>None\<close>: its caller drops the half-edited message.
\<close>

subsection \<open>Messages\<close>

fun jset :: "'a \<Rightarrow> 'a jfield \<Rightarrow> 'a jfield option" where
  "jset v Missing = None"
| "jset v _ = Some (Val v)"

record StaticJson =
  js_group_id :: "u64 jfield"
  js_role :: "DIGSInstanceRole jfield"
  js_p_percentage :: "u64 jfield"
  js_max_seq_len :: "u64 jfield"
  js_max_output_len :: "u64 jfield"
  js_total_slots_num :: "u64 jfield"
  js_total_block_num :: "u64 jfield"
  js_block_size :: "u64 jfield"
  js_label :: "DIGSInstanceLabel jfield"
  js_virtual_id :: "u64 jfield"

record DynamicJson =
  jd_avail_slots_num :: "u64 jfield"
  jd_avail_block_num :: "u64 jfield"
  jd_peers :: "u64 list option"
  jd_prefix_hash :: "u64 list option"

record InsJson =
  ji_id :: "u64 jfield"
  ji_ip :: "string jfield"
  ji_port :: "string jfield"
  ji_metric_port :: "string jfield"
  ji_inter_comm_port :: "string jfield"
  ji_model_name :: "string jfield"
  ji_static :: "StaticJson option"
  ji_dynamic :: "DynamicJson option"

definition static_at :: "(StaticJson \<Rightarrow> 'a jfield) \<Rightarrow> InsJson \<Rightarrow> 'a option" where
  "static_at f j = Option.bind (ji_static j) (\<lambda>s. jget (f s))"

definition dynamic_at :: "(DynamicJson \<Rightarrow> 'a jfield) \<Rightarrow> InsJson \<Rightarrow> 'a option" where
  "dynamic_at f j = Option.bind (ji_dynamic j) (\<lambda>d. jget (f d))"

definition peers_at :: "InsJson \<Rightarrow> u64 list option" where
  "peers_at j = Option.bind (ji_dynamic j) jd_peers"

definition set_peers :: "u64 list \<Rightarrow> InsJson \<Rightarrow> InsJson" where
  "set_peers ps j = j\<lparr>ji_dynamic := map_option (\<lambda>d. d\<lparr>jd_peers := Some ps\<rparr>) (ji_dynamic j)\<rparr>"

text \<open>The assignments of role and label, and of the four capacities.\<close>

definition set_role_label :: "DIGSInstanceRole \<Rightarrow> DIGSInstanceLabel \<Rightarrow> InsJson \<Rightarrow> InsJson option" where
  "set_role_label r l j = Option.bind (ji_static j) (\<lambda>s. Option.bind (jset r (js_role s)) (\<lambda>r'.
     Option.bind (jset l (js_label s)) (\<lambda>l'. Some (j\<lparr>ji_static := Some (s\<lparr>js_role := r', js_label := l'\<rparr>)\<rparr>))))"

definition set_capacity :: "u64 \<Rightarrow> u64 \<Rightarrow> u64 \<Rightarrow> u64 \<Rightarrow> InsJson \<Rightarrow> InsJson" where
  "set_capacity slots blocks aslots ablocks j =
     j\<lparr>ji_static := map_option (\<lambda>s. s\<lparr>js_total_slots_num := Val slots, js_total_block_num := Val blocks\<rparr>) (ji_static j),
       ji_dynamic := map_option (\<lambda>d. d\<lparr>jd_avail_slots_num := Val aslots, jd_avail_block_num := Val ablocks\<rparr>) (ji_dynamic j)\<rparr>"

subsection \<open>Peers\<close>

definition RemoveRedundantInsInFlexPeers :: "InsJson \<Rightarrow> u64 list \<Rightarrow> InsJson option" where
  "RemoveRedundantInsInFlexPeers flexInstance dumpInfo =
     map_option (\<lambda>ps. set_peers (fold remove1 dumpInfo ps) flexInstance) (peers_at flexInstance)"

text \<open>\<^verbatim>\<open>*find = DECODE_INS_ID_TRANSFER_BY_FLEX\<close>.\<close>

definition rename_peer :: "u64 \<Rightarrow> u64 list \<Rightarrow> u64 list" where
  "rename_peer flexId = upd_first (\<lambda>i. i = flexId) (\<lambda>_. DECODE_INS_ID_TRANSFER_BY_FLEX)"

text \<open>The loops over the instances of the message: each iteration may edit its instance and extends
  the lists of collected ids.\<close>

fun ins_loop :: "(InsJson \<Rightarrow> 'a \<Rightarrow> (InsJson \<times> 'a) option) \<Rightarrow> InsJson list \<Rightarrow> 'a \<Rightarrow> (InsJson list \<times> 'a) option" where
  "ins_loop f [] a = Some ([], a)"
| "ins_loop f (j # js) a = Option.bind (f j a) (\<lambda>(j', a'). map_option (\<lambda>(js', b). (j' # js', b)) (ins_loop f js a'))"

definition InstancePreProcInConvertMToD ::
  "u64 \<Rightarrow> u64 \<Rightarrow> InsJson \<Rightarrow> u64 list \<Rightarrow> (InsJson \<times> u64 list) option" where
  "InstancePreProcInConvertMToD flexId flexGroupId j dInsIdVec =
     Option.bind (static_at js_group_id j) (\<lambda>g. if g \<noteq> flexGroupId then Some (j, dInsIdVec)
       else Option.bind (static_at js_role j) (\<lambda>role.
         if role = PREFILL_INSTANCE
         then map_option (\<lambda>ps. (set_peers (rename_peer flexId ps) j, dInsIdVec)) (peers_at j)
         else if role = DECODE_INSTANCE
         then Option.bind (jget (ji_id j)) (\<lambda>i. map_option (\<lambda>ps. (set_peers (remove1 flexId ps) j, dInsIdVec @ [i])) (peers_at j))
         else Some (j, dInsIdVec)))"

subsection \<open>The three conversions\<close>

text \<open>The flex instance is the element at index \<open>k\<close> of the message; the code holds a reference to it.\<close>

definition ConvertMInstanceToD ::
  "u64 list \<Rightarrow> nat \<Rightarrow> InsJson list \<Rightarrow> (u64 list \<times> InsJson list) option" where
  "ConvertMInstanceToD mNodeIds k instances =
     Option.bind (jget (ji_id (instances ! k))) (\<lambda>flexId.
     Option.bind (static_at js_group_id (instances ! k)) (\<lambda>flexGroupId.
     Option.bind (ins_loop (InstancePreProcInConvertMToD flexId flexGroupId) instances []) (\<lambda>(js, dInsIdVec).
     Option.bind (set_role_label DECODE_INSTANCE DECODE_STATIC (js ! k)) (\<lambda>f.
       let f = f\<lparr>ji_id := Val DECODE_INS_ID_TRANSFER_BY_FLEX\<rparr>
       in if flexId \<notin> set mNodeIds then None
          else map_option (\<lambda>f'. (rename_peer flexId mNodeIds, js[k := f'])) (RemoveRedundantInsInFlexPeers f dInsIdVec)))))"

definition p_conv_step :: "u64 \<Rightarrow> u64 \<Rightarrow> InsJson \<Rightarrow> u64 list \<Rightarrow> (InsJson \<times> u64 list) option" where
  "p_conv_step flexId flexGroupId j pInsIdVec =
     Option.bind (static_at js_group_id j) (\<lambda>g. if g \<noteq> flexGroupId then Some (j, pInsIdVec)
       else Option.bind (static_at js_role j) (\<lambda>role. if role \<noteq> PREFILL_INSTANCE then Some (j, pInsIdVec)
         else Option.bind (jget (ji_id j)) (\<lambda>i. map_option (\<lambda>ps. (set_peers (remove1 flexId ps) j, pInsIdVec @ [i])) (peers_at j))))"

definition ConvertMInstanceToP :: "nat \<Rightarrow> InsJson list \<Rightarrow> InsJson list option" where
  "ConvertMInstanceToP k instances =
     Option.bind (jget (ji_id (instances ! k))) (\<lambda>flexId.
     Option.bind (static_at js_group_id (instances ! k)) (\<lambda>flexGroupId.
     Option.bind (ins_loop (p_conv_step flexId flexGroupId) instances []) (\<lambda>(js, pInsIdVec).
     Option.bind (set_role_label PREFILL_INSTANCE PREFILL_STATIC (js ! k)) (\<lambda>f.
       map_option (\<lambda>f'. js[k := f']) (RemoveRedundantInsInFlexPeers f pInsIdVec)))))"

text \<open>\<^verbatim>\<open>static_cast<uint64_t>(n * ratio)\<close>; \<^const>\<open>None\<close> is the undefined conversion of a value out of range.\<close>

definition scaled :: "f64 \<Rightarrow> u64 \<Rightarrow> u64 option" where
  "scaled ratio n = f64_to_u64 (f64_mul (f64_of_u64 n) ratio)"

definition p_ratio :: "u64 \<Rightarrow> f64" where
  "p_ratio p = f64_div (f64_of_u64 p) (f64_of_u64 FLEX_INSTANCE_P_PERCENTAGE_MAX)"

definition d_ratio :: "u64 \<Rightarrow> f64" where
  "d_ratio p = f64_sub (Fin 1) (p_ratio p)"

text \<open>One of the two halves: its share of the four capacities, its role and label, and its peers without
  the instances of its own kind, with the other half as a new peer.\<close>

definition fill_half ::
  "f64 \<Rightarrow> DIGSInstanceRole \<Rightarrow> DIGSInstanceLabel \<Rightarrow> u64 list \<Rightarrow> u64 \<Rightarrow> InsJson \<Rightarrow> InsJson option" where
  "fill_half ratio role label sameKind other j =
     Option.bind (static_at js_total_slots_num j) (\<lambda>slots. Option.bind (static_at js_total_block_num j) (\<lambda>blocks.
     Option.bind (dynamic_at jd_avail_slots_num j) (\<lambda>aslots. Option.bind (dynamic_at jd_avail_block_num j) (\<lambda>ablocks.
     Option.bind (scaled ratio slots) (\<lambda>slots'. Option.bind (scaled ratio blocks) (\<lambda>blocks'.
     Option.bind (scaled ratio aslots) (\<lambda>aslots'. Option.bind (scaled ratio ablocks) (\<lambda>ablocks'.
     Option.bind (set_role_label role label (set_capacity slots' blocks' aslots' ablocks' j)) (\<lambda>j1.
     Option.bind (RemoveRedundantInsInFlexPeers j1 sameKind) (\<lambda>j2.
     map_option (\<lambda>ps. set_peers (ps @ [other]) j2) (peers_at j2)))))))))))"

definition FillInstancesInfoSplitedByFlex ::
  "InsJson \<Rightarrow> InsJson \<Rightarrow> u64 \<Rightarrow> u64 list \<Rightarrow> u64 list \<Rightarrow> (InsJson \<times> InsJson) option" where
  "FillInstancesInfoSplitedByFlex instance splitDIns flexId pInsIdVec dInsIdVec =
     Option.bind (static_at js_p_percentage instance) (\<lambda>p.
     Option.bind (fill_half (p_ratio p) PREFILL_INSTANCE PREFILL_STATIC pInsIdVec DECODE_INS_ID_TRANSFER_BY_FLEX instance) (\<lambda>pj.
     map_option (\<lambda>dj. (pj, dj\<lparr>ji_id := Val DECODE_INS_ID_TRANSFER_BY_FLEX\<rparr>))
       (fill_half (d_ratio p) DECODE_INSTANCE DECODE_STATIC dInsIdVec flexId splitDIns)))"

text \<open>This helper swallows its exceptions: the id is collected as soon as it was read.\<close>

definition HandlePInsPeersInSameGroupWithFlex :: "u64 \<Rightarrow> InsJson \<Rightarrow> u64 list \<Rightarrow> InsJson \<times> u64 list" where
  "HandlePInsPeersInSameGroupWithFlex flexId j pInsIdVec =
     (case jget (ji_id j) of None \<Rightarrow> (j, pInsIdVec)
      | Some i \<Rightarrow> (case peers_at j of None \<Rightarrow> (j, pInsIdVec @ [i])
          | Some ps \<Rightarrow> (set_peers (rename_peer flexId ps) j, pInsIdVec @ [i])))"

definition split_step :: "u64 \<Rightarrow> u64 \<Rightarrow> InsJson \<Rightarrow> u64 list \<times> u64 list \<Rightarrow> (InsJson \<times> u64 list \<times> u64 list) option" where
  "split_step flexId flexGroupId j = (\<lambda>(pInsIdVec, dInsIdVec).
     Option.bind (static_at js_group_id j) (\<lambda>g. if g \<noteq> flexGroupId then Some (j, pInsIdVec, dInsIdVec)
       else Option.bind (static_at js_role j) (\<lambda>role.
         if role = PREFILL_INSTANCE
         then let (j', pv) = HandlePInsPeersInSameGroupWithFlex flexId j pInsIdVec in Some (j', pv, dInsIdVec)
         else if role = DECODE_INSTANCE
         then map_option (\<lambda>i. (j, pInsIdVec, dInsIdVec @ [i])) (jget (ji_id j))
         else Some (j, pInsIdVec, dInsIdVec))))"

definition SplitMInstanceToPAndD ::
  "u64 list \<Rightarrow> nat \<Rightarrow> InsJson list \<Rightarrow> (u64 list \<times> InsJson list) option" where
  "SplitMInstanceToPAndD mNodeIds k instances =
     Option.bind (jget (ji_id (instances ! k))) (\<lambda>flexId.
     Option.bind (static_at js_group_id (instances ! k)) (\<lambda>flexGroupId.
     Option.bind (ins_loop (split_step flexId flexGroupId) instances ([], [])) (\<lambda>(js, pInsIdVec, dInsIdVec).
     map_option (\<lambda>(pj, dj). (mNodeIds @ [DECODE_INS_ID_TRANSFER_BY_FLEX], js[k := pj] @ [dj]))
       (FillInstancesInfoSplitedByFlex (js ! k) (js ! k) flexId pInsIdVec dInsIdVec))))"

text \<open>\<^verbatim>\<open>find_if\<close> with a predicate that throws on an instance without a readable role.\<close>

fun find_flex :: "InsJson list \<Rightarrow> nat option option" where
  "find_flex [] = Some None"
| "find_flex (j # js) = Option.bind (static_at js_role j) (\<lambda>role.
     if role = FLEX_INSTANCE then Some (Some 0) else map_option (map_option Suc) (find_flex js))"

definition ProcessFlexInstance ::
  "u64 list \<Rightarrow> InsJson list \<Rightarrow> ClusterNodes \<Rightarrow> (u64 list \<times> InsJson list) option \<times> ClusterNodes" where
  "ProcessFlexInstance nodeIds instances c = (case find_flex instances of
       None \<Rightarrow> (None, c)
     | Some None \<Rightarrow> (Some (nodeIds, instances), c)
     | Some (Some k) \<Rightarrow> (case (jget (ji_id (instances ! k)), static_at js_p_percentage (instances ! k)) of
           (Some i, Some p) \<Rightarrow>
             (let c' = UpdateClusterFlexInstanceInfo i p c
              in if FLEX_INSTANCE_P_PERCENTAGE_MAX < p then (None, c')
                 else if p = FLEX_INSTANCE_P_PERCENTAGE_MAX
                 then (map_option (\<lambda>js. (nodeIds, js)) (ConvertMInstanceToP k instances), c')
                 else if p = 0 then (ConvertMInstanceToD nodeIds k instances, c')
                 else (SplitMInstanceToPAndD nodeIds k instances, c'))
         | _ \<Rightarrow> (None, c)))"

subsection \<open>Splitting a capacity\<close>

lemma p_ratio_bounds:
  assumes "0 < p" and "p < FLEX_INSTANCE_P_PERCENTAGE_MAX"
  shows "\<exists>q. p_ratio p = Fin q \<and> 1 / 200 < q \<and> q < 1"
proof -
  have p: "0 < unat p" "unat p < 100"
    using assms by (simp_all add: FLEX_INSTANCE_P_PERCENTAGE_MAX_def unat_gt_0 word_less_nat_alt)
  let ?x = "rat_of_nat (unat p) / 100"
  have "p_ratio p = rnd64 ?x"
    using p f64_of_u64_exact [of p] by (simp add: p_ratio_def FLEX_INSTANCE_P_PERCENTAGE_MAX_def f64_of_u64_exact)
  moreover have x: "1 / 100 \<le> ?x" "?x \<le> 99 / 100"
  proof -
    have "rat_of_nat 1 \<le> rat_of_nat (unat p)" "rat_of_nat (unat p) \<le> rat_of_nat 99" using p by (simp_all only: of_nat_le_iff)
    then show "1 / 100 \<le> ?x" "?x \<le> 99 / 100" by simp_all
  qed
  moreover obtain r where "rnd64 ?x = Fin r" "\<bar>r - ?x\<bar> \<le> 2 powi (0 - 54)"
    using rnd64_error [of ?x 0] x by auto
  moreover have "(2::rat) powi (0 - 54) < 1 / 200" by (simp add: power_int_def power_divide)
  ultimately have "p_ratio p = Fin r" "1 / 200 < r" "r < 1" by (simp, linarith+)
  then show ?thesis by blast
qed

lemma scaled_nat:
  assumes "unat n < 2 ^ 50" and "0 \<le> q" "q \<le> 1"
  shows "\<exists>a. scaled (Fin q) n = Some a \<and> rat_of_nat (unat a) \<le> rat_of_nat (unat n) * q + 1 / 8
    \<and> rat_of_nat (unat n) * q - 9 / 8 < rat_of_nat (unat a)"
proof -
  let ?y = "rat_of_nat (unat n) * q"
  have n: "rat_of_nat (unat n) < 2 ^ 50" using assms(1) by (metis of_nat_less_iff of_nat_numeral of_nat_power)
  have "0 \<le> rat_of_nat (unat n)" by (rule of_nat_0_le_iff)
  then have y: "0 \<le> ?y" "?y \<le> rat_of_nat (unat n)" using assms(2,3) by (auto intro: mult_left_le mult_nonneg_nonneg)
  have "?y < 2 powi 50" using y n by (simp add: power_int_def)
  then obtain r where r: "0 \<le> r" "rnd64 ?y = Fin r" "\<bar>r - ?y\<bar> \<le> 2 powi (50 - 54)"
    using rnd64_error [of ?y 50] y(1) by auto
  have e: "\<bar>r - ?y\<bar> \<le> 1 / 16" using r(3) by (simp add: power_int_def power_divide)
  have "f64_mul (f64_of_u64 n) (Fin q) = Fin r"
    using assms(1) r(2) by (simp add: f64_of_u64_exact f64_mul_def)
  moreover have "rat_trunc r = \<lfloor>r\<rfloor>" using r(1) by (simp add: rat_trunc_def)
  ultimately have sc: "scaled (Fin q) n = (if 0 \<le> \<lfloor>r\<rfloor> \<and> \<lfloor>r\<rfloor> < 2 ^ 64 then Some (word_of_int \<lfloor>r\<rfloor>) else None)"
    by (simp add: scaled_def)
  have fl: "0 \<le> \<lfloor>r\<rfloor>" "of_int \<lfloor>r\<rfloor> \<le> r" "r < of_int \<lfloor>r\<rfloor> + 1" using r(1) by (simp, simp, linarith)
  have "(2::rat) ^ 50 + 1 \<le> 2 ^ 51" by simp
  then have "rat_of_int \<lfloor>r\<rfloor> < 2 ^ 51" using fl(2) e y n by linarith
  then have lt: "\<lfloor>r\<rfloor> < 2 ^ 51" by (metis of_int_less_iff of_int_numeral of_int_power)
  have "scaled (Fin q) n = Some (word_of_int \<lfloor>r\<rfloor>)" using fl(1) lt by (simp add: sc)
  moreover have "unat (word_of_int \<lfloor>r\<rfloor> :: u64) = nat \<lfloor>r\<rfloor>"
  proof -
    have "\<lfloor>r\<rfloor> < 2 ^ 64" using lt by (rule less_le_trans) simp
    then have "nat \<lfloor>r\<rfloor> < 2 ^ 64" using fl(1) by (simp add: nat_less_iff del: floor_less_numeral)
    then show ?thesis using fl(1) by (simp add: unsigned_of_int nat_take_bit_eq take_bit_nat_eq_self)
  qed
  moreover have "rat_of_nat (nat \<lfloor>r\<rfloor>) = of_int \<lfloor>r\<rfloor>" using fl(1) by simp
  ultimately have "rat_of_nat (unat (word_of_int \<lfloor>r\<rfloor> :: u64)) \<le> ?y + 1 / 8"
    "?y - 9 / 8 < rat_of_nat (unat (word_of_int \<lfloor>r\<rfloor> :: u64))" using fl(2,3) e by linarith+
  then show ?thesis using \<open>scaled (Fin q) n = Some _\<close> by blast
qed

lemma d_ratio_bounds:
  assumes "p_ratio p = Fin q" "1 / 200 < q" "q < 1"
  shows "\<exists>q'. d_ratio p = Fin q' \<and> 0 \<le> q' \<and> q' \<le> 1 \<and> \<bar>q + q' - 1\<bar> \<le> 1 / 2 ^ 54"
proof -
  obtain q' where q': "0 \<le> q'" "rnd64 (1 - q) = Fin q'" "\<bar>q' - (1 - q)\<bar> \<le> 2 powi (0 - 54)"
    using rnd64_error [of "1 - q" 0] assms by auto
  have "(2::rat) powi (0 - 54) < 1 / 200" by (simp add: power_int_def power_divide)
  then have "q' \<le> 1" using q'(3) assms(2) by linarith
  moreover have "d_ratio p = Fin q'" using q'(2) assms(1) by (simp add: d_ratio_def f64_sub_def)
  moreover have "(2::rat) powi (0 - 54) = 1 / 2 ^ 54" by (simp add: power_int_def power_divide)
  moreover have "q + q' - 1 = q' - (1 - q)" by simp
  ultimately show ?thesis using q' by metis
qed

lemma split_conserves:
  assumes "unat n < 2 ^ 50" and "0 < p" and "p < FLEX_INSTANCE_P_PERCENTAGE_MAX"
  shows "\<exists>a b. scaled (p_ratio p) n = Some a \<and> scaled (d_ratio p) n = Some b
    \<and> unat a + unat b \<le> unat n \<and> unat n \<le> unat a + unat b + 2"
proof -
  obtain q where q: "p_ratio p = Fin q" "1 / 200 < q" "q < 1" using p_ratio_bounds [OF assms(2,3)] by blast
  obtain q' where q': "d_ratio p = Fin q'" "0 \<le> q'" "q' \<le> 1" "\<bar>q + q' - 1\<bar> \<le> 1 / 2 ^ 54"
    using d_ratio_bounds [OF q] by blast
  obtain a where a: "scaled (p_ratio p) n = Some a" "rat_of_nat (unat a) \<le> rat_of_nat (unat n) * q + 1 / 8"
    "rat_of_nat (unat n) * q - 9 / 8 < rat_of_nat (unat a)" using scaled_nat [OF assms(1), of q] q by auto
  obtain b where b: "scaled (d_ratio p) n = Some b" "rat_of_nat (unat b) \<le> rat_of_nat (unat n) * q' + 1 / 8"
    "rat_of_nat (unat n) * q' - 9 / 8 < rat_of_nat (unat b)" using scaled_nat [OF assms(1), of q'] q' by auto
  let ?n = "rat_of_nat (unat n)"
  have "?n < 2 ^ 50" using assms(1) by (metis of_nat_less_iff of_nat_numeral of_nat_power)
  then have "?n * \<bar>q + q' - 1\<bar> \<le> 2 ^ 50 * (1 / 2 ^ 54)" using q'(4) by (intro mult_mono) auto
  moreover have "\<bar>?n\<bar> = ?n" by (rule abs_of_nat)
  ultimately have "\<bar>?n * (q + q' - 1)\<bar> \<le> 1 / 16" unfolding abs_mult by simp
  then have "\<bar>?n * q + ?n * q' - ?n\<bar> \<le> 1 / 16" by (simp add: algebra_simps)
  then have "rat_of_nat (unat a + unat b) < rat_of_nat (unat n + 1)" "rat_of_nat (unat n) < rat_of_nat (unat a + unat b + 3)"
    unfolding of_nat_add of_nat_1 of_nat_numeral using a(2,3) b(2,3) by linarith+
  then show ?thesis using a(1) b(1) by (simp only: of_nat_less_iff) simp
qed

subsection \<open>What the loops keep\<close>

named_theorems flex_simps \<open>fields after an edit of a message\<close>

lemma set_peers_frame [flex_simps]:
  "ji_id (set_peers ps j) = ji_id j" "ji_static (set_peers ps j) = ji_static j"
  "static_at f (set_peers ps j) = static_at f j" "static_at f (j\<lparr>ji_id := i\<rparr>) = static_at f j"
  by (simp_all add: set_peers_def static_at_def)

definition keeps :: "(InsJson \<Rightarrow> 'a \<Rightarrow> (InsJson \<times> 'a) option) \<Rightarrow> bool" where
  "keeps f \<longleftrightarrow> (\<forall>j a j' a'. f j a = Some (j', a') \<longrightarrow> ji_id j' = ji_id j \<and> ji_static j' = ji_static j)"

lemma keeps_steps: "keeps (InstancePreProcInConvertMToD i g)" "keeps (p_conv_step i g)" "keeps (split_step i g)"
proof -
  show "keeps (InstancePreProcInConvertMToD i g)"
    by (auto simp: keeps_def InstancePreProcInConvertMToD_def bind_eq_Some_conv flex_simps split: if_splits)
  show "keeps (p_conv_step i g)"
    by (auto simp: keeps_def p_conv_step_def bind_eq_Some_conv flex_simps split: if_splits)
  show "keeps (split_step i g)"
    by (auto simp: keeps_def split_step_def HandlePInsPeersInSameGroupWithFlex_def bind_eq_Some_conv flex_simps
        split: if_splits prod.splits option.splits)
qed

lemma ins_loop_keeps:
  assumes "keeps f" and "ins_loop f js a = Some (js', b)"
  shows "map ji_id js' = map ji_id js \<and> map ji_static js' = map ji_static js"
  using assms(2)
proof (induction js arbitrary: a js')
  case (Cons j js)
  from Cons.prems obtain j' a' js'' where s: "f j a = Some (j', a')" "ins_loop f js a' = Some (js'', b)" "js' = j' # js''"
    by (auto simp: bind_eq_Some_conv)
  with Cons.IH [OF s(2)] assms(1) show ?case by (auto simp: keeps_def)
qed simp

lemma ins_loop_length: "ins_loop f js a = Some (js', b) \<Longrightarrow> length js' = length js"
  by (induction js arbitrary: a js') (auto simp: bind_eq_Some_conv)

lemma static_at_cong: "ji_static j = ji_static j' \<Longrightarrow> static_at f j = static_at f j'"
  by (simp add: static_at_def)

lemma map_static_at: "map ji_static js' = map ji_static js \<Longrightarrow> map (static_at f) js' = map (static_at f) js"
proof -
  assume "map ji_static js' = map ji_static js"
  then have "map (\<lambda>s. Option.bind s (\<lambda>s. jget (f s))) (map ji_static js') = map (\<lambda>s. Option.bind s (\<lambda>s. jget (f s))) (map ji_static js)"
    by (rule arg_cong)
  then show ?thesis by (simp add: static_at_def [abs_def] comp_def)
qed

lemma find_flex_SomeD:
  assumes "find_flex js = Some (Some k)"
  shows "k < length js" and "static_at js_role (js ! k) = Some FLEX_INSTANCE"
proof -
  have "k < length js \<and> static_at js_role (js ! k) = Some FLEX_INSTANCE"
    using assms by (induction js arbitrary: k) (auto simp: bind_eq_Some_conv split: if_splits)
  then show "k < length js" "static_at js_role (js ! k) = Some FLEX_INSTANCE" by auto
qed

lemma find_flex_NoneD: "find_flex js = Some None \<Longrightarrow> j \<in> set js \<Longrightarrow> static_at js_role j \<noteq> Some FLEX_INSTANCE"
  by (induction js) (auto simp: bind_eq_Some_conv split: if_splits)

lemma set_role_label_role:
  "set_role_label r l j = Some j' \<Longrightarrow> static_at js_role j' = Some r \<and> ji_id j' = ji_id j \<and> ji_dynamic j' = ji_dynamic j
    \<and> static_at js_total_slots_num j' = static_at js_total_slots_num j
    \<and> static_at js_total_block_num j' = static_at js_total_block_num j"
  by (auto simp: set_role_label_def static_at_def bind_eq_Some_conv elim!: jset.elims)

lemma RemoveRedundant_frame:
  assumes "RemoveRedundantInsInFlexPeers j v = Some j'"
  shows "ji_id j' = ji_id j" "static_at f j' = static_at f j"
    "\<exists>ps. peers_at j = Some ps \<and> peers_at j' = Some (fold remove1 v ps)"
  using assms by (auto simp: RemoveRedundantInsInFlexPeers_def flex_simps peers_at_def set_peers_def static_at_def bind_eq_Some_conv)

lemma set_fold_remove1: "distinct xs \<Longrightarrow> set (fold remove1 ys xs) = set xs - set ys"
  by (induction ys arbitrary: xs) auto

lemma fill_half_SomeD:
  assumes "fill_half ratio role label same other j = Some j'"
  shows "ji_id j' = ji_id j" "static_at js_role j' = Some role"
    "\<exists>n m. static_at js_total_slots_num j = Some n \<and> scaled ratio n = Some m \<and> static_at js_total_slots_num j' = Some m"
    "\<exists>n m. static_at js_total_block_num j = Some n \<and> scaled ratio n = Some m \<and> static_at js_total_block_num j' = Some m"
    "\<exists>ps. peers_at j = Some ps \<and> peers_at j' = Some (fold remove1 same ps @ [other])"
proof -
  from assms obtain slots blocks aslots ablocks s' b' as' ab' j1 j2 ps where h:
    "static_at js_total_slots_num j = Some slots" "static_at js_total_block_num j = Some blocks"
    "dynamic_at jd_avail_slots_num j = Some aslots" "dynamic_at jd_avail_block_num j = Some ablocks"
    "scaled ratio slots = Some s'" "scaled ratio blocks = Some b'"
    "set_role_label role label (set_capacity s' b' as' ab' j) = Some j1"
    "RemoveRedundantInsInFlexPeers j1 same = Some j2" "peers_at j2 = Some ps" "j' = set_peers (ps @ [other]) j2"
    by (auto simp: fill_half_def bind_eq_Some_conv)
  have c: "ji_id (set_capacity s' b' as' ab' j) = ji_id j"
    "static_at js_total_slots_num (set_capacity s' b' as' ab' j) = Some s'"
    "static_at js_total_block_num (set_capacity s' b' as' ab' j) = Some b'"
    "peers_at (set_capacity s' b' as' ab' j) = peers_at j"
    using h(1,2) by (auto simp: set_capacity_def static_at_def peers_at_def bind_eq_Some_conv)
      (cases "ji_dynamic j"; simp)
  note r = set_role_label_role [OF h(7)]
  have p1: "peers_at j1 = peers_at j" using r c(4) by (simp add: peers_at_def)
  note rr = RemoveRedundant_frame [OF h(8)]
  show "ji_id j' = ji_id j" using r rr(1) c(1) h(10) by (simp add: flex_simps)
  show "static_at js_role j' = Some role" using r h(10) by (simp add: flex_simps rr(2))
  show "\<exists>n m. static_at js_total_slots_num j = Some n \<and> scaled ratio n = Some m \<and> static_at js_total_slots_num j' = Some m"
    using h(1,5,10) r c(2) by (simp add: flex_simps rr(2))
  show "\<exists>n m. static_at js_total_block_num j = Some n \<and> scaled ratio n = Some m \<and> static_at js_total_block_num j' = Some m"
    using h(2,6,10) r c(3) by (simp add: flex_simps rr(2))
  have "peers_at j' = Some (ps @ [other])" using h(9,10) by (auto simp: peers_at_def set_peers_def bind_eq_Some_conv)
  then show "\<exists>ps. peers_at j = Some ps \<and> peers_at j' = Some (fold remove1 same ps @ [other])"
    using rr(3) h(9) p1 by auto
qed

subsection \<open>The outcome of a conversion\<close>

lemma ConvertMInstanceToP_SomeD:
  assumes "ConvertMInstanceToP k js = Some js'" and "k < length js"
  shows "\<exists>js1 f. js' = js1[k := f] \<and> map ji_id js1 = map ji_id js \<and> map ji_static js1 = map ji_static js
    \<and> ji_id f = ji_id (js ! k) \<and> static_at js_role f = Some PREFILL_INSTANCE"
proof -
  from assms(1) obtain i g js1 v f f' where s: "ins_loop (p_conv_step i g) js [] = Some (js1, v)"
    "set_role_label PREFILL_INSTANCE PREFILL_STATIC (js1 ! k) = Some f" "RemoveRedundantInsInFlexPeers f v = Some f'"
    "js' = js1[k := f']"
    by (auto simp: ConvertMInstanceToP_def bind_eq_Some_conv)
  note keep = ins_loop_keeps [OF keeps_steps(2) s(1)]
  have "ji_id (js1 ! k) = ji_id (js ! k)"
    using keep assms(2) ins_loop_length [OF s(1)] by (metis nth_map)
  then have "ji_id f' = ji_id (js ! k)" "static_at js_role f' = Some PREFILL_INSTANCE"
    using set_role_label_role [OF s(2)] RemoveRedundant_frame(1) [OF s(3)] by (simp_all add: RemoveRedundant_frame(2) [OF s(3)])
  then show ?thesis using s(4) keep by blast
qed

lemma ConvertMInstanceToD_SomeD:
  assumes "ConvertMInstanceToD ids k js = Some (ids', js')"
  shows "\<exists>js1 f i. js' = js1[k := f] \<and> map ji_id js1 = map ji_id js \<and> map ji_static js1 = map ji_static js
    \<and> ji_id (js ! k) = Val i \<and> i \<in> set ids \<and> ids' = rename_peer i ids
    \<and> ji_id f = Val DECODE_INS_ID_TRANSFER_BY_FLEX \<and> static_at js_role f = Some DECODE_INSTANCE"
proof -
  from assms obtain i g js1 v f f' where s: "ji_id (js ! k) = Val i"
    "ins_loop (InstancePreProcInConvertMToD i g) js [] = Some (js1, v)"
    "set_role_label DECODE_INSTANCE DECODE_STATIC (js1 ! k) = Some f" "i \<in> set ids" "ids' = rename_peer i ids"
    "RemoveRedundantInsInFlexPeers (f\<lparr>ji_id := Val DECODE_INS_ID_TRANSFER_BY_FLEX\<rparr>) v = Some f'" "js' = js1[k := f']"
    by (auto simp: ConvertMInstanceToD_def bind_eq_Some_conv Let_def elim!: jget.elims split: if_splits)
  note keep = ins_loop_keeps [OF keeps_steps(1) s(2)]
  have "ji_id f' = Val DECODE_INS_ID_TRANSFER_BY_FLEX" using RemoveRedundant_frame(1) [OF s(6)] by simp
  moreover have "static_at js_role f' = Some DECODE_INSTANCE"
    using set_role_label_role [OF s(3)] by (simp add: RemoveRedundant_frame(2) [OF s(6)] flex_simps)
  ultimately show ?thesis using s(1,4,5,7) keep by blast
qed

lemma SplitMInstanceToPAndD_SomeD:
  assumes "SplitMInstanceToPAndD ids k js = Some (ids', js')" and "k < length js"
  shows "\<exists>js1 f g i p ps ds. js' = js1[k := f] @ [g\<lparr>ji_id := Val DECODE_INS_ID_TRANSFER_BY_FLEX\<rparr>] \<and> length js1 = length js
    \<and> map ji_id js1 = map ji_id js \<and> map ji_static js1 = map ji_static js \<and> ji_id (js ! k) = Val i
    \<and> ids' = ids @ [DECODE_INS_ID_TRANSFER_BY_FLEX] \<and> static_at js_p_percentage (js ! k) = Some p
    \<and> fill_half (p_ratio p) PREFILL_INSTANCE PREFILL_STATIC ps DECODE_INS_ID_TRANSFER_BY_FLEX (js1 ! k) = Some f
    \<and> fill_half (d_ratio p) DECODE_INSTANCE DECODE_STATIC ds i (js1 ! k) = Some g"
proof -
  from assms(1) obtain i gr js1 ps ds p f g where s: "ji_id (js ! k) = Val i"
    "ins_loop (split_step i gr) js ([], []) = Some (js1, ps, ds)" "ids' = ids @ [DECODE_INS_ID_TRANSFER_BY_FLEX]"
    "static_at js_p_percentage (js1 ! k) = Some p" "js' = js1[k := f] @ [g\<lparr>ji_id := Val DECODE_INS_ID_TRANSFER_BY_FLEX\<rparr>]"
    "fill_half (p_ratio p) PREFILL_INSTANCE PREFILL_STATIC ps DECODE_INS_ID_TRANSFER_BY_FLEX (js1 ! k) = Some f"
    "fill_half (d_ratio p) DECODE_INSTANCE DECODE_STATIC ds i (js1 ! k) = Some g"
    by (auto simp: SplitMInstanceToPAndD_def FillInstancesInfoSplitedByFlex_def bind_eq_Some_conv elim!: jget.elims)
  note keep = ins_loop_keeps [OF keeps_steps(3) s(2)] and len = ins_loop_length [OF s(2)]
  have "ji_static (js1 ! k) = ji_static (js ! k)" using keep assms(2) len by (metis nth_map)
  then have "static_at js_p_percentage (js ! k) = Some p" using s(4) by (simp add: static_at_def)
  then show ?thesis using s keep len by blast
qed

subsection \<open>No flex instance is left\<close>

definition flex_count :: "InsJson list \<Rightarrow> nat" where
  "flex_count js = length (filter (\<lambda>j. static_at js_role j = Some FLEX_INSTANCE) js)"

lemma filter_update_count:
  "k < length xs \<Longrightarrow> P (xs ! k) \<Longrightarrow> \<not> P y \<Longrightarrow> Suc (length (filter P (xs[k := y]))) = length (filter P xs)"
proof (induction xs arbitrary: k)
  case (Cons x xs)
  then show ?case by (cases k) auto
qed simp

lemma flex_count_static: "map ji_static js1 = map ji_static js \<Longrightarrow> flex_count js1 = flex_count js"
proof (induction js1 arbitrary: js)
  case (Cons j js1)
  then obtain x xs where "js = x # xs" "ji_static j = ji_static x" "map ji_static js1 = map ji_static xs" by (cases js) auto
  with Cons.IH [of xs] show ?case by (simp add: flex_count_def static_at_def)
qed (simp add: flex_count_def)

lemma flex_count_update:
  assumes "static_at js_role (js ! k) = Some FLEX_INSTANCE" "k < length js" "map ji_static js1 = map ji_static js"
    and "static_at js_role f \<noteq> Some FLEX_INSTANCE"
  shows "flex_count (js1[k := f]) = flex_count js - 1"
proof -
  have len: "length js1 = length js" using assms(3) by (rule map_eq_imp_length_eq)
  have "ji_static (js1 ! k) = ji_static (js ! k)" using assms(2,3) len by (metis nth_map)
  then have "static_at js_role (js1 ! k) = Some FLEX_INSTANCE" using assms(1) by (simp add: static_at_def)
  from filter_update_count [of k js1 "\<lambda>j. static_at js_role j = Some FLEX_INSTANCE", OF _ this assms(4)] flex_count_static [OF assms(3)] len assms(2)
  show ?thesis by (simp add: flex_count_def)
qed

lemma ids_update:
  assumes "map ji_id js1 = map ji_id js" and "k < length js"
  shows "map ji_id (js1[k := f]) = (map ji_id js)[k := ji_id f]"
  using assms by (simp add: map_update)

lemma set_rename_peer:
  "distinct xs \<Longrightarrow> i \<in> set xs \<Longrightarrow> set (rename_peer i xs) = insert DECODE_INS_ID_TRANSFER_BY_FLEX (set xs - {i})"
  by (induction xs) (auto simp: rename_peer_def)

lemma set_update_distinct_eq: "distinct xs \<Longrightarrow> k < length xs \<Longrightarrow> set (xs[k := x]) = insert x (set xs - {xs ! k})"
  by (rule set_update_distinct)

lemma map_ids_update: "map ji_id js1 = map ji_id js \<Longrightarrow> k < length js \<Longrightarrow> ji_id f = ji_id (js ! k) \<Longrightarrow> map ji_id (js1[k := f]) = map ji_id js"
  by (simp add: ids_update list_update_same_conv)

text \<open>The three outcomes for the ids of the message.\<close>

lemma flex_outcome:
  assumes "ProcessFlexInstance ids js c = (Some (ids', js'), c')" and "find_flex js = Some (Some k)"
  shows "flex_count js' = flex_count js - 1
    \<and> (ids' = ids \<and> map ji_id js' = map ji_id js
       \<or> (\<exists>i. ji_id (js ! k) = Val i \<and> i \<in> set ids \<and> ids' = rename_peer i ids \<and> map ji_id js' = (map ji_id js)[k := Val DECODE_INS_ID_TRANSFER_BY_FLEX])
       \<or> ids' = ids @ [DECODE_INS_ID_TRANSFER_BY_FLEX] \<and> map ji_id js' = map ji_id js @ [Val DECODE_INS_ID_TRANSFER_BY_FLEX])"
proof -
  note k = find_flex_SomeD [OF assms(2)]
  obtain i p where ip: "ji_id (js ! k) = Val i" "static_at js_p_percentage (js ! k) = Some p" "p \<le> FLEX_INSTANCE_P_PERCENTAGE_MAX"
    using assms by (auto simp: ProcessFlexInstance_def Let_def split: option.splits if_splits elim!: jget.elims)
  consider "ConvertMInstanceToP k js = Some js'" "ids' = ids" | "ConvertMInstanceToD ids k js = Some (ids', js')"
    | "SplitMInstanceToPAndD ids k js = Some (ids', js')"
    using assms ip by (auto simp: ProcessFlexInstance_def Let_def split: if_splits)
  then show ?thesis
  proof cases
    case 1
    then obtain js1 f where f: "js' = js1[k := f]" "map ji_id js1 = map ji_id js" "map ji_static js1 = map ji_static js"
      "ji_id f = ji_id (js ! k)" "static_at js_role f = Some PREFILL_INSTANCE"
      using ConvertMInstanceToP_SomeD k(1) by blast
    show ?thesis using flex_count_update [OF k(2,1) f(3), of f] map_ids_update [OF f(2) k(1) f(4)] f(1,5) 1(2) by simp
  next
    case 2
    then obtain js1 f i' where f: "js' = js1[k := f]" "map ji_id js1 = map ji_id js" "map ji_static js1 = map ji_static js"
      "ji_id (js ! k) = Val i'" "i' \<in> set ids" "ids' = rename_peer i' ids"
      "ji_id f = Val DECODE_INS_ID_TRANSFER_BY_FLEX" "static_at js_role f = Some DECODE_INSTANCE"
      using ConvertMInstanceToD_SomeD by blast
    show ?thesis using flex_count_update [OF k(2,1) f(3), of f] ids_update [OF f(2) k(1), of f] f by simp
  next
    case 3
    then obtain js1 f g i' p' ps ds where f: "js' = js1[k := f] @ [g\<lparr>ji_id := Val DECODE_INS_ID_TRANSFER_BY_FLEX\<rparr>]"
      "length js1 = length js" "map ji_id js1 = map ji_id js" "map ji_static js1 = map ji_static js"
      "ids' = ids @ [DECODE_INS_ID_TRANSFER_BY_FLEX]"
      "fill_half (p_ratio p') PREFILL_INSTANCE PREFILL_STATIC ps DECODE_INS_ID_TRANSFER_BY_FLEX (js1 ! k) = Some f"
      "fill_half (d_ratio p') DECODE_INSTANCE DECODE_STATIC ds i' (js1 ! k) = Some g"
      using SplitMInstanceToPAndD_SomeD k(1) by blast
    note F = fill_half_SomeD [OF f(6)] and G = fill_half_SomeD [OF f(7)]
    have "ji_id f = ji_id (js ! k)" using F(1) f(2,3) k(1) by (metis nth_map)
    from map_ids_update [OF f(3) k(1) this] flex_count_update [OF k(2,1) f(4), of f] F(2) G(2) f(1,5)
    show ?thesis by (simp add: flex_count_def static_at_def)
  qed
qed

lemma flex_ids_agree:
  assumes "ProcessFlexInstance ids js c = (Some (ids', js'), c')" and "distinct ids" and "distinct (map ji_id js)" and "Val ` set ids = ji_id ` set js"
  shows "Val ` set ids' = ji_id ` set js'"
proof (cases "find_flex js")
  case None
  with assms(1) show ?thesis by (simp add: ProcessFlexInstance_def)
next
  case (Some r)
  show ?thesis
  proof (cases r)
    case None
    with Some assms(1,4) show ?thesis by (simp add: ProcessFlexInstance_def)
  next
    case r: (Some k)
    note k = find_flex_SomeD [OF Some [unfolded r]] and o = flex_outcome [OF assms(1) Some [unfolded r]]
    have ids: "set (map ji_id js) = Val ` set ids" using assms(4) by simp
    from o consider "ids' = ids" "map ji_id js' = map ji_id js"
      | i where "ji_id (js ! k) = Val i" "i \<in> set ids" "ids' = rename_peer i ids" "map ji_id js' = (map ji_id js)[k := Val DECODE_INS_ID_TRANSFER_BY_FLEX]"
      | "ids' = ids @ [DECODE_INS_ID_TRANSFER_BY_FLEX]" "map ji_id js' = map ji_id js @ [Val DECODE_INS_ID_TRANSFER_BY_FLEX]" by blast
    then have "Val ` set ids' = set (map ji_id js')"
    proof cases
      case (2 i)
      have "set (map ji_id js') = insert (Val DECODE_INS_ID_TRANSFER_BY_FLEX) (Val ` set ids - {Val i})"
        using set_update_distinct [OF assms(3), of k] k(1) 2(1,4) ids by simp
      then show ?thesis using set_rename_peer [OF assms(2) 2(2)] 2(3) by auto
    qed (use ids in auto)
    then show ?thesis by simp
  qed
qed

text \<open>A message that describes every instance once and does not use the reserved id describes every instance once also afterwards.\<close>

lemma flex_ids_distinct:
  assumes "ProcessFlexInstance ids js c = (Some (ids', js'), c')" and "distinct (map ji_id js)" and "Val DECODE_INS_ID_TRANSFER_BY_FLEX \<notin> ji_id ` set js"
  shows "distinct (map ji_id js')"
proof (cases "find_flex js")
  case None
  with assms(1) show ?thesis by (simp add: ProcessFlexInstance_def)
next
  case (Some r)
  show ?thesis
  proof (cases r)
    case None
    with Some assms(1,2) show ?thesis by (simp add: ProcessFlexInstance_def)
  next
    case r: (Some k)
    from flex_outcome [OF assms(1) Some [unfolded r]] show ?thesis using assms(2,3) by (auto simp: distinct_list_update)
  qed
qed

text \<open>C36: a refresh message that is processed successfully has lost one flex instance, if it had any: the first one has become a prefill
  instance, a decode instance or one of each, and further flex instances stay. If the message describes every instance once, and the
  listed ids are distinct and exactly the ids of the described instances, then after the processing they still are exactly those: the
  decode instance made from the flex instance is listed under its reserved id, and the id of a flex instance that became a decode
  instance is gone.\<close>

theorem flex_instance_resolved:
  assumes "ProcessFlexInstance ids js c = (Some (ids', js'), c')"
  shows "flex_count js' = flex_count js - 1
    \<and> (distinct ids \<longrightarrow> distinct (map ji_id js) \<longrightarrow> Val ` set ids = ji_id ` set js \<longrightarrow> Val ` set ids' = ji_id ` set js')"
proof -
  have "flex_count js' = flex_count js - 1"
  proof (cases "find_flex js")
    case None
    with assms show ?thesis by (simp add: ProcessFlexInstance_def)
  next
    case (Some r)
    show ?thesis
    proof (cases r)
      case None
      with Some assms find_flex_NoneD [of js] show ?thesis by (auto simp: ProcessFlexInstance_def flex_count_def filter_empty_conv)
    next
      case (Some k)
      with \<open>find_flex js = Some r\<close> flex_outcome [OF assms, of k] show ?thesis by simp
    qed
  qed
  then show ?thesis using flex_ids_agree [OF assms] by blast
qed

subsection \<open>The capacity of the two halves\<close>

text \<open>C37: when a flex instance is split, the slots and the blocks of its two halves never exceed those of the
  instance, at most two of each are lost to rounding, the halves have the roles prefill and decode, and each
  lists the other as its peer.\<close>

theorem flex_split_conserves_capacity:
  assumes "SplitMInstanceToPAndD ids k js = Some (ids', js')" and "k < length js"
    and "static_at js_p_percentage (js ! k) = Some p" and "0 < p" and "p < FLEX_INSTANCE_P_PERCENTAGE_MAX"
    and "static_at js_total_slots_num (js ! k) = Some n" and "unat n < 2 ^ 50"
    and "static_at js_total_block_num (js ! k) = Some m" and "unat m < 2 ^ 50" and "ji_id (js ! k) = Val i"
  shows "\<exists>a b x y ps ds. static_at js_total_slots_num (js' ! k) = Some a \<and> static_at js_total_slots_num (last js') = Some b
    \<and> unat a + unat b \<le> unat n \<and> unat n \<le> unat a + unat b + 2
    \<and> static_at js_total_block_num (js' ! k) = Some x \<and> static_at js_total_block_num (last js') = Some y
    \<and> unat x + unat y \<le> unat m \<and> unat m \<le> unat x + unat y + 2
    \<and> static_at js_role (js' ! k) = Some PREFILL_INSTANCE \<and> static_at js_role (last js') = Some DECODE_INSTANCE
    \<and> ji_id (js' ! k) = Val i \<and> ji_id (last js') = Val DECODE_INS_ID_TRANSFER_BY_FLEX
    \<and> peers_at (js' ! k) = Some ps \<and> DECODE_INS_ID_TRANSFER_BY_FLEX \<in> set ps
    \<and> peers_at (last js') = Some ds \<and> i \<in> set ds"
proof -
  from SplitMInstanceToPAndD_SomeD [OF assms(1,2)] assms(3,10) obtain js1 f g pv dv where f:
    "js' = js1[k := f] @ [g\<lparr>ji_id := Val DECODE_INS_ID_TRANSFER_BY_FLEX\<rparr>]" "length js1 = length js"
    "map ji_id js1 = map ji_id js" "map ji_static js1 = map ji_static js"
    "fill_half (p_ratio p) PREFILL_INSTANCE PREFILL_STATIC pv DECODE_INS_ID_TRANSFER_BY_FLEX (js1 ! k) = Some f"
    "fill_half (d_ratio p) DECODE_INSTANCE DECODE_STATIC dv i (js1 ! k) = Some g" by auto
  have keep: "ji_static (js1 ! k) = ji_static (js ! k)" "ji_id (js1 ! k) = ji_id (js ! k)"
    using f(2-4) assms(2) by (metis nth_map)+
  note F = fill_half_SomeD [OF f(5)] and G = fill_half_SomeD [OF f(6)]
  have nth: "js' ! k = f" "last js' = g\<lparr>ji_id := Val DECODE_INS_ID_TRANSFER_BY_FLEX\<rparr>"
    using f(1,2) assms(2) by (simp_all add: nth_append)
  have in1: "static_at js_total_slots_num (js1 ! k) = Some n" "static_at js_total_block_num (js1 ! k) = Some m"
    using assms(6,8) keep(1) by (simp_all add: static_at_def)
  obtain a b where ab: "scaled (p_ratio p) n = Some a" "scaled (d_ratio p) n = Some b"
    "unat a + unat b \<le> unat n" "unat n \<le> unat a + unat b + 2" using split_conserves [OF assms(7,4,5)] by blast
  obtain x y where xy: "scaled (p_ratio p) m = Some x" "scaled (d_ratio p) m = Some y"
    "unat x + unat y \<le> unat m" "unat m \<le> unat x + unat y + 2" using split_conserves [OF assms(9,4,5)] by blast
  have "static_at js_total_slots_num f = Some a" "static_at js_total_block_num f = Some x"
    "static_at js_total_slots_num g = Some b" "static_at js_total_block_num g = Some y"
    using F(3,4) G(3,4) in1 ab(1,2) xy(1,2) by auto
  moreover have "static_at js_role f = Some PREFILL_INSTANCE" "static_at js_role g = Some DECODE_INSTANCE" "ji_id f = Val i"
    using F(1,2) G(2) keep(2) assms(10) by simp_all
  moreover obtain ps where "peers_at f = Some ps" "DECODE_INS_ID_TRANSFER_BY_FLEX \<in> set ps" using F(5) by auto
  moreover obtain ds where "peers_at g = Some ds" "i \<in> set ds" using G(5) by auto
  ultimately show ?thesis using ab(3,4) xy(3,4) unfolding nth by (simp add: flex_simps peers_at_def)
qed

subsection \<open>An example\<close>

definition ex_ins :: "u64 \<Rightarrow> DIGSInstanceRole \<Rightarrow> DIGSInstanceLabel \<Rightarrow> u64 \<Rightarrow> u64 \<Rightarrow> u64 list \<Rightarrow> InsJson" where
  "ex_ins i role label p slots peers = \<lparr>ji_id = Val i, ji_ip = Val ''10.0.0.1'', ji_port = Val ''1025'', ji_metric_port = Val ''1026'',
     ji_inter_comm_port = Val ''1027'', ji_model_name = Val ''m'',
     ji_static = Some \<lparr>js_group_id = Val 0, js_role = Val role, js_p_percentage = Val p, js_max_seq_len = Val 2048,
       js_max_output_len = Val 512, js_total_slots_num = Val slots, js_total_block_num = Val 1024, js_block_size = Val 128,
       js_label = Val label, js_virtual_id = Val i\<rparr>,
     ji_dynamic = Some \<lparr>jd_avail_slots_num = Val slots, jd_avail_block_num = Val 1024, jd_peers = Some peers, jd_prefix_hash = None\<rparr>\<rparr>"

definition ex_msg :: "InsJson list" where
  "ex_msg = [ex_ins 1 PREFILL_INSTANCE PREFILL_STATIC 0 200 [3], ex_ins 3 FLEX_INSTANCE FLEX_STATIC 6 2150 [1]]"

lemma ex_split:
  obtains ids' js' where "SplitMInstanceToPAndD [1, 3] 1 ex_msg = Some (ids', js')"
proof -
  have p: "(0::u64) < 6" "(6::u64) < FLEX_INSTANCE_P_PERCENTAGE_MAX" by (simp_all add: FLEX_INSTANCE_P_PERCENTAGE_MAX_def)
  obtain a b where s: "scaled (p_ratio 6) 2150 = Some a" "scaled (d_ratio 6) 2150 = Some b"
    using split_conserves [OF _ p, of 2150] by auto
  obtain c d where t: "scaled (p_ratio 6) 1024 = Some c" "scaled (d_ratio 6) 1024 = Some d"
    using split_conserves [OF _ p, of 1024] by auto
  show ?thesis
    by (rule that, simp add: SplitMInstanceToPAndD_def ex_msg_def ex_ins_def split_step_def static_at_def dynamic_at_def
        peers_at_def set_peers_def set_capacity_def HandlePInsPeersInSameGroupWithFlex_def FillInstancesInfoSplitedByFlex_def fill_half_def
        set_role_label_def RemoveRedundantInsInFlexPeers_def s t)
qed

theorem flex_split_conserves_capacity_witness:
  "\<exists>ids' js' a b. SplitMInstanceToPAndD [1, 3] 1 ex_msg = Some (ids', js') \<and> static_at js_total_slots_num (js' ! 1) = Some a
    \<and> static_at js_total_slots_num (last js') = Some b \<and> unat a + unat b \<le> 2150"
proof -
  obtain ids' js' where s: "SplitMInstanceToPAndD [1, 3] 1 ex_msg = Some (ids', js')" by (rule ex_split)
  have "static_at js_p_percentage (ex_msg ! 1) = Some 6" "static_at js_total_slots_num (ex_msg ! 1) = Some 2150"
    "static_at js_total_block_num (ex_msg ! 1) = Some 1024" "ji_id (ex_msg ! 1) = Val 3"
    by (simp_all add: ex_msg_def ex_ins_def static_at_def)
  from flex_split_conserves_capacity [OF s _ this(1) _ _ this(2) _ this(3) _ this(4)]
  show ?thesis using s by (auto simp: FLEX_INSTANCE_P_PERCENTAGE_MAX_def ex_msg_def)
qed

lemma ex_find: "find_flex ex_msg = Some (Some 1)"
  by (simp add: ex_msg_def ex_ins_def static_at_def)

theorem flex_instance_resolved_witness:
  "\<exists>ids' js' c'. ProcessFlexInstance [1, 3] ex_msg new_ClusterNodes = (Some (ids', js'), c')
    \<and> Val ` set ids' = ji_id ` set js' \<and> flex_count ex_msg = 1 \<and> flex_count js' = 0"
proof -
  obtain ids' js' where s: "SplitMInstanceToPAndD [1, 3] 1 ex_msg = Some (ids', js')" by (rule ex_split)
  have "ji_id (ex_msg ! 1) = Val 3" "static_at js_p_percentage (ex_msg ! 1) = Some 6"
    by (simp_all add: ex_msg_def ex_ins_def static_at_def)
  then have r: "ProcessFlexInstance [1, 3] ex_msg new_ClusterNodes
      = (Some (ids', js'), UpdateClusterFlexInstanceInfo 3 6 new_ClusterNodes)"
    using s by (simp add: ProcessFlexInstance_def ex_find FLEX_INSTANCE_P_PERCENTAGE_MAX_def)
  have "distinct [1, 3 :: u64]" "distinct (map ji_id ex_msg)" "Val ` set [1, 3] = ji_id ` set ex_msg" "flex_count ex_msg = 1"
    by (simp_all add: ex_msg_def ex_ins_def flex_count_def static_at_def)
  with flex_instance_resolved [OF r] show ?thesis using r by auto
qed

subsection \<open>A percentage out of range\<close>

text \<open>A percentage above 100 makes the message fail, but it has already been recorded: the cluster counts as
  having a flex instance that is split in two.\<close>

lemma invalid_percentage_recorded:
  assumes "find_flex js = Some (Some k)" and "ji_id (js ! k) = Val i" and "static_at js_p_percentage (js ! k) = Some p"
    and "FLEX_INSTANCE_P_PERCENTAGE_MAX < p"
  shows "fst (ProcessFlexInstance ids js c) = None \<and> IsFlexSplitedIntoTwoInstance (snd (ProcessFlexInstance ids js c))
    \<and> GetInsNumMax (snd (ProcessFlexInstance ids js c)) = INS_NUM_MAX + 1"
  using assms by (auto simp: ProcessFlexInstance_def Let_def UpdateClusterFlexInstanceInfo_def IsFlexSplitedIntoTwoInstance_def
      GetInsNumMax_def)

end
