(* ===== verification/Request_Registry.thy ===== *)
theory Request_Registry
  imports Req_Agent Flex_Instances "HOL-Library.Char_ord" "HOL-Library.List_Lexorder"
begin

text \<open>
  \<^verbatim>\<open>coordinator/request_monitor/RequestMgr.{h,cpp}\<close>: the table of requests in flight (\<^verbatim>\<open>ReqManage\<close>), which drives the
  task sets of the cluster table and the notifications to the scheduler as a request changes its state. The
  calls that leave this component (scheduler, performance monitor, connections, alarms) are recorded in order as
  effects. The clock reading, the deployment mode and the configured limits are arguments. A request id is the
  key of its own record, so that the record's id and the key agree.
\<close>

subsection \<open>State\<close>

datatype effect =
    SchedUpdateReq string DIGSReqStage u64 u64 u64
  | SchedRegister DIGSInstanceStaticInfo
  | SchedUpdateInstance DIGSInstanceDynamicInfo
  | SchedRemoveInstance "u64 list"
  | SchedCloseInstance "u64 list"
  | SchedActivateInstance u64
  | SchedSetBlockSize u64
  | PerfPushReq string
  | ConnSetReqId "nat option" string
  | ConnSetAvailable nat
  | ConnGraceClose nat
  | CongestionAlarm bool
  | InstanceMissingAlarm bool
  | CoordExceptionAlarm bool

record ReqManage =
  reqIdMap :: "(string, ReqAgent) omap"
  insIdToReqMap :: "(u64, string fset) omap"
  reqCount :: u64
  dRelease :: u64
  recvs :: int
  preRecvs :: int
  pRecvs :: u64
  pSends :: u64
  pRelease :: u64
  dRecvs :: u64
  inReqCongestionAlarmState :: bool
  numAllRequests :: u64
  numFailRequests :: u64
  numSuccessRequests :: u64

text \<open>The constructor does not initialise \<^verbatim>\<open>preRecvs\<close>.\<close>

definition new_ReqManage :: "int \<Rightarrow> ReqManage" where
  "new_ReqManage pre = \<lparr>reqIdMap = [], insIdToReqMap = [], reqCount = 0, dRelease = 0, recvs = 0, preRecvs = pre,
     pRecvs = 0, pSends = 0, pRelease = 0, dRecvs = 0, inReqCongestionAlarmState = False,
     numAllRequests = 0, numFailRequests = 0, numSuccessRequests = 0\<rparr>"

record coord =
  cluster :: ClusterNodes
  reqs :: ReqManage
  effects :: "effect list"

definition emit :: "effect \<Rightarrow> coord \<Rightarrow> coord" where
  "emit e w = w\<lparr>effects := effects w @ [e]\<rparr>"

definition on_cluster :: "(ClusterNodes \<Rightarrow> ClusterNodes) \<Rightarrow> coord \<Rightarrow> coord" where
  "on_cluster f w = w\<lparr>cluster := f (cluster w)\<rparr>"

definition on_reqs :: "(ReqManage \<Rightarrow> ReqManage) \<Rightarrow> coord \<Rightarrow> coord" where
  "on_reqs f w = w\<lparr>reqs := f (reqs w)\<rparr>"

subsection \<open>Look-up and registration\<close>

definition GetReqInfo :: "string \<Rightarrow> coord \<Rightarrow> ReqAgent option" where
  "GetReqInfo rid w = map_of (reqIdMap (reqs w)) rid"

text \<open>A call on the object behind the shared pointer.\<close>

definition on_req :: "string \<Rightarrow> (ReqAgent \<Rightarrow> ReqAgent) \<Rightarrow> coord \<Rightarrow> coord" where
  "on_req rid f w = (case GetReqInfo rid w of None \<Rightarrow> w
     | Some a \<Rightarrow> on_reqs (\<lambda>m. m\<lparr>reqIdMap := omap_put rid (f a) (reqIdMap m)\<rparr>) w)"

text \<open>The size of a container is below \<open>2 ^ 64\<close>, so it is kept as a natural number.\<close>

definition GetReqNum :: "coord \<Rightarrow> nat" where
  "GetReqNum w = length (reqIdMap (reqs w))"

definition GetReqArriveNum :: "coord \<Rightarrow> int \<times> coord" where
  "GetReqArriveNum w = (recvs (reqs w) - preRecvs (reqs w), on_reqs (\<lambda>m. m\<lparr>preRecvs := recvs m\<rparr>) w)"

definition SetReqArriveNum :: "coord \<Rightarrow> coord" where
  "SetReqArriveNum = on_reqs (\<lambda>m. m\<lparr>recvs := recvs m + 1\<rparr>)"

definition rm_AddReq :: "u64 \<times> u64 \<Rightarrow> string \<Rightarrow> ReqInferType \<Rightarrow> nat option \<Rightarrow> string \<Rightarrow> coord \<Rightarrow> bool \<times> coord" where
  "rm_AddReq route0 rid typ conn req w = (if GetReqInfo rid w \<noteq> None then (False, w)
     else (True, emit (ConnSetReqId conn rid)
       (on_reqs (\<lambda>m. m\<lparr>reqIdMap := omap_put rid (new_ReqAgent route0 rid typ conn req) (reqIdMap m),
                       numAllRequests := numAllRequests m + 1\<rparr>) w)))"

definition GetReqId :: "nat option \<Rightarrow> coord \<Rightarrow> string list" where
  "GetReqId conn w = map fst (filter (\<lambda>(_, a). connection a = conn) (reqIdMap (reqs w)))"

definition rm_SetRoute :: "string \<Rightarrow> u64 \<times> u64 \<Rightarrow> coord \<Rightarrow> coord" where
  "rm_SetRoute rid route w = (case GetReqInfo rid w of None \<Rightarrow> w
     | Some a \<Rightarrow>
         let ins = (\<lambda>i m. omap_put i (finsert (ra_reqId a) (omap_get {||} m i)) m)
         in on_req rid (ra_SetRoute route)
              (on_reqs (\<lambda>m. m\<lparr>insIdToReqMap := ins (snd route) (ins (fst route) (insIdToReqMap m))\<rparr>) w))"

definition rm_SetRouteIp :: "string \<Rightarrow> string list \<Rightarrow> coord \<Rightarrow> coord" where
  "rm_SetRouteIp rid ips = on_req rid (ra_SetRouteIp ips)"

definition rm_SetModelName :: "string \<Rightarrow> string \<Rightarrow> coord \<Rightarrow> coord" where
  "rm_SetModelName rid n = on_req rid (ra_SetModelName n)"

definition rm_GetModelName :: "string \<Rightarrow> coord \<Rightarrow> string" where
  "rm_GetModelName rid w = (case GetReqInfo rid w of None \<Rightarrow> [] | Some a \<Rightarrow> ra_modelName a)"

definition GetInsRequests :: "u64 \<Rightarrow> coord \<Rightarrow> string fset" where
  "GetInsRequests i w = (case map_of (insIdToReqMap (reqs w)) i of Some s \<Rightarrow> s | None \<Rightarrow> {||})"

definition rm_GetRoute :: "string \<Rightarrow> coord \<Rightarrow> u64 \<times> u64" where
  "rm_GetRoute rid w = (case GetReqInfo rid w of None \<Rightarrow> (UNKNOWN_ID, UNKNOWN_ID) | Some a \<Rightarrow> ra_route a)"

definition rm_GetRouteIp :: "string \<Rightarrow> coord \<Rightarrow> string list" where
  "rm_GetRouteIp rid w = (case GetReqInfo rid w of None \<Rightarrow> [[], [], [], []] | Some a \<Rightarrow> ra_routeIp a)"

definition ArePDInstancesValid :: "string \<Rightarrow> bool \<Rightarrow> coord \<Rightarrow> bool" where
  "ArePDInstancesValid rid skipDecode w =
     (let (p, d) = rm_GetRoute rid w
      in if p = UNKNOWN_ID \<or> \<not> HasInstance p (cluster w) then False
         else if \<not> skipDecode \<and> (d = UNKNOWN_ID \<or> \<not> HasInstance d (cluster w)) then False
         else True)"

definition rm_AddOutputNum :: "string \<Rightarrow> u64 \<Rightarrow> coord \<Rightarrow> coord" where
  "rm_AddOutputNum rid n = on_req rid (ra_AddOutputNum n)"

definition rm_GetOutputNum :: "string \<Rightarrow> coord \<Rightarrow> u64" where
  "rm_GetOutputNum rid w = (case GetReqInfo rid w of None \<Rightarrow> 0 | Some a \<Rightarrow> outputNum a)"

definition rm_GetStateTime :: "string \<Rightarrow> ReqState \<Rightarrow> coord \<Rightarrow> u64 list" where
  "rm_GetStateTime rid st w = (case GetReqInfo rid w of None \<Rightarrow> [0] | Some a \<Rightarrow> ra_GetStateTime st a)"

definition rm_HasState :: "string \<Rightarrow> ReqState \<Rightarrow> coord \<Rightarrow> bool" where
  "rm_HasState rid st w = (case GetReqInfo rid w of None \<Rightarrow> False | Some a \<Rightarrow> ra_HasState st a)"

definition StatRequest :: "coord \<Rightarrow> u64 \<times> u64 \<times> u64" where
  "StatRequest w = (numAllRequests (reqs w), numFailRequests (reqs w), numSuccessRequests (reqs w))"

subsection \<open>State changes\<close>

text \<open>\<^verbatim>\<open>prefillIp == decodeIp && prefillPort == decodePort\<close>: both look-ups give the empty string for an instance that is
  not registered.\<close>

definition same_address :: "u64 \<times> u64 \<Rightarrow> coord \<Rightarrow> bool" where
  "same_address route w \<longleftrightarrow> cn_GetIp (fst route) (cluster w) = cn_GetIp (snd route) (cluster w)
     \<and> cn_GetPort (fst route) (cluster w) = cn_GetPort (snd route) (cluster w)"

definition unlink :: "u64 \<Rightarrow> string \<Rightarrow> coord \<Rightarrow> coord" where
  "unlink i rid = on_reqs (\<lambda>m. m\<lparr>insIdToReqMap := omap_put i (omap_get {||} (insIdToReqMap m) i |-| {|rid|}) (insIdToReqMap m)\<rparr>)"

text \<open>\<^verbatim>\<open>clientConn->SetAvailable(true); reqInfo->SetClientConn(nullptr)\<close>.\<close>

definition free_conn :: "string \<Rightarrow> coord \<Rightarrow> coord" where
  "free_conn rid w = (case GetReqInfo rid w of None \<Rightarrow> w
     | Some a \<Rightarrow> (case clientConn a of None \<Rightarrow> w | Some k \<Rightarrow> on_req rid (SetClientConn None) (emit (ConnSetAvailable k) w)))"

definition ReqArrive :: "coord \<Rightarrow> coord" where
  "ReqArrive = on_reqs (\<lambda>m. m\<lparr>reqCount := reqCount m + 1\<rparr>)"

definition ReqRepeated :: "string \<Rightarrow> coord \<Rightarrow> coord" where
  "ReqRepeated rid w =
     (let w = on_reqs (\<lambda>m. m\<lparr>pSends := pSends m + 1\<rparr>) w
      in case GetReqInfo rid w of None \<Rightarrow> w | Some a \<Rightarrow> on_cluster (AddTask (fst (ra_route a)) rid) w)"

definition ReqFinishFirstToken :: "string \<Rightarrow> string \<Rightarrow> u64 \<Rightarrow> coord \<Rightarrow> coord" where
  "ReqFinishFirstToken deployMode rid time w = (if \<not> IsPDSeparateMode deployMode then w
     else let w = emit (SchedUpdateReq rid PREFILL time 0 0) (on_reqs (\<lambda>m. m\<lparr>pRecvs := pRecvs m + 1, pRelease := pRelease m + 1\<rparr>) w)
          in case GetReqInfo rid w of None \<Rightarrow> w
             | Some a \<Rightarrow>
                 let same = same_address (ra_route a) w;
                     w = on_cluster (\<lambda>c. AddTask (snd (ra_route a)) rid (DecreaseTask (fst (ra_route a)) rid c)) w;
                     w = unlink (fst (ra_route a)) (ra_reqId a) w
                 in if same then w else free_conn rid w)"

definition ReqFinish :: "string \<Rightarrow> string \<Rightarrow> ReqAgent \<Rightarrow> coord \<Rightarrow> coord" where
  "ReqFinish deployMode rid a w =
     (let w = on_reqs (\<lambda>m. m\<lparr>dRecvs := dRecvs m + 1\<rparr>) w
      in if inferType a = TOKENIZER then w
         else let w = emit (PerfPushReq rid) w
              in if deployMode = ''single_node'' \<or> (deployMode = ''pd_separate'' \<and> same_address (ra_route a) w)
                 then free_conn rid w else w)"

definition req_ended :: "ReqAgent \<Rightarrow> bool" where
  "req_ended a \<longleftrightarrow> ra_HasState FINISH a \<or> ra_HasState EXCEPTION a"

definition clear_tasks :: "string \<Rightarrow> string \<Rightarrow> ReqAgent \<Rightarrow> coord \<Rightarrow> coord" where
  "clear_tasks deployMode rid a w =
     (let (p, d) = ra_route a;
          w = (if IsPDSeparateMode deployMode \<and> \<not> same_address (p, d) w
               then if ra_HasState FIRST_TOKEN_FINISH a then on_cluster (DecreaseTask d rid) w
                    else on_cluster (\<lambda>c. DecreaseTask d rid (DecreaseTask p rid c)) w
               else on_cluster (DecreaseTask p rid) w)
      in unlink d (ra_reqId a) w)"

definition ClearReq :: "string \<Rightarrow> string \<Rightarrow> ReqState \<Rightarrow> u64 \<Rightarrow> coord \<Rightarrow> coord" where
  "ClearReq deployMode rid st time w = (case GetReqInfo rid w of
       None \<Rightarrow> emit (SchedUpdateReq rid DECODE 0 0 0) w
     | Some a \<Rightarrow>
         if req_ended a then w
         else let w = emit (SchedUpdateReq rid DECODE 0 time (outputNum a)) (on_reqs (\<lambda>m. m\<lparr>dRelease := dRelease m + 1\<rparr>) w);
                  w = (if st = FINISH then on_reqs (\<lambda>m. m\<lparr>numSuccessRequests := numSuccessRequests m + 1\<rparr>) (ReqFinish deployMode rid a w)
                       else on_reqs (\<lambda>m. m\<lparr>numFailRequests := numFailRequests m + 1\<rparr>) w)
              in if ra_HasState REPEATED a then clear_tasks deployMode rid a w else w)"

definition ReqRetry :: "string \<Rightarrow> string \<Rightarrow> u64 \<Rightarrow> coord \<Rightarrow> coord" where
  "ReqRetry deployMode rid time w = (case GetReqInfo rid w of None \<Rightarrow> w
     | Some _ \<Rightarrow> on_req rid ClearOutputNum (ClearReq deployMode rid RETRY time w))"

definition state_action :: "string \<Rightarrow> u64 \<Rightarrow> string \<Rightarrow> ReqState \<Rightarrow> coord \<Rightarrow> coord" where
  "state_action deployMode time rid st w = (case st of
       ARRIVE \<Rightarrow> ReqArrive w
     | REPEATED \<Rightarrow> ReqRepeated rid w
     | FIRST_TOKEN_FINISH \<Rightarrow> ReqFinishFirstToken deployMode rid time w
     | FINISH \<Rightarrow> ClearReq deployMode rid st time w
     | EXCEPTION \<Rightarrow> ClearReq deployMode rid st time w
     | RETRY \<Rightarrow> ReqRetry deployMode rid time w
     | _ \<Rightarrow> w)"

definition rm_UpdateState :: "string \<Rightarrow> u64 \<Rightarrow> string \<Rightarrow> ReqState \<Rightarrow> coord \<Rightarrow> coord" where
  "rm_UpdateState deployMode time rid st w = (case GetReqInfo rid w of None \<Rightarrow> w
     | Some _ \<Rightarrow> on_req rid (ra_UpdateState st time) (state_action deployMode time rid st w))"

subsection \<open>Congestion alarm and release of finished requests\<close>

text \<open>\<^verbatim>\<open>size_t threshold = maxReqs * ratio\<close>; the conversion is defined for every limit below \<open>2 ^ 50\<close> (\<open>threshold_defined\<close>).\<close>

definition congestion_threshold :: "rat \<Rightarrow> u64 \<Rightarrow> u64" where
  "congestion_threshold ratio maxReqs = (case scaled (f64_lit ratio) maxReqs of Some n \<Rightarrow> n | None \<Rightarrow> 0)"

definition CheckAndHandleReqCongestionAlarm :: "u64 \<Rightarrow> coord \<Rightarrow> coord" where
  "CheckAndHandleReqCongestionAlarm maxReqs w =
     (let trigger = unat (congestion_threshold (85 / 100) maxReqs); clear = unat (congestion_threshold (75 / 100) maxReqs);
          cur = GetReqNum w; alarmed = inReqCongestionAlarmState (reqs w)
      in if trigger \<le> cur \<and> \<not> alarmed
         then emit (CongestionAlarm True) (on_reqs (\<lambda>m. m\<lparr>inReqCongestionAlarmState := True\<rparr>) w)
         else if cur < clear \<and> alarmed
         then emit (CongestionAlarm False) (on_reqs (\<lambda>m. m\<lparr>inReqCongestionAlarmState := False\<rparr>) w)
         else w)"

definition close_finished :: "string \<times> ReqAgent \<Rightarrow> coord \<Rightarrow> coord" where
  "close_finished e w = (if req_ended (snd e)
     then case clientConn (snd e) of None \<Rightarrow> w | Some k \<Rightarrow> emit (ConnGraceClose k) w
     else w)"

definition ReleaseFinishedRequest :: "u64 \<Rightarrow> coord \<Rightarrow> coord" where
  "ReleaseFinishedRequest maxReqs w = (if GetReqNum w = 0 then w
     else CheckAndHandleReqCongestionAlarm maxReqs
       (on_reqs (\<lambda>m. m\<lparr>reqIdMap := filter (\<lambda>(_, a). \<not> req_ended a) (reqIdMap m)\<rparr>)
          (fold close_finished (reqIdMap (reqs w)) w)))"

subsection \<open>What each action touches\<close>

named_theorems coord_simps \<open>frame facts of the coordinator state\<close>

lemma coord_frame [coord_simps]:
  "cluster (emit e w) = cluster w" "reqs (emit e w) = reqs w" "GetReqInfo r (emit e w) = GetReqInfo r w"
  "cluster (on_cluster f w) = f (cluster w)" "reqs (on_cluster f w) = reqs w" "GetReqInfo r (on_cluster f w) = GetReqInfo r w"
  "cluster (on_reqs g w) = cluster w" "reqs (on_reqs g w) = g (reqs w)"
  by (simp_all add: emit_def on_cluster_def on_reqs_def GetReqInfo_def)

lemma GetReqInfo_on_reqs [coord_simps]:
  "reqIdMap (g (reqs w)) = reqIdMap (reqs w) \<Longrightarrow> GetReqInfo r (on_reqs g w) = GetReqInfo r w"
  by (simp add: GetReqInfo_def on_reqs_def)

lemma GetReqInfo_on_req [coord_simps]:
  "GetReqInfo r (on_req rid f w) = (if r = rid then map_option f (GetReqInfo rid w) else GetReqInfo r w)"
  by (auto simp: on_req_def GetReqInfo_def on_reqs_def omap_simps split: option.splits)

lemma on_req_frame [coord_simps]:
  "cluster (on_req rid f w) = cluster w" "insIdToReqMap (reqs (on_req rid f w)) = insIdToReqMap (reqs w)"
  "numAllRequests (reqs (on_req rid f w)) = numAllRequests (reqs w)"
  "numFailRequests (reqs (on_req rid f w)) = numFailRequests (reqs w)"
  "numSuccessRequests (reqs (on_req rid f w)) = numSuccessRequests (reqs w)"
  by (auto simp: on_req_def coord_simps split: option.splits)

lemma omap_ok_on_req [intro]: "omap_ok (reqIdMap (reqs w)) \<Longrightarrow> omap_ok (reqIdMap (reqs (on_req rid f w)))"
  by (auto simp: on_req_def coord_simps split: option.splits)

text \<open>The part of a request that decides about its tasks: its route and the states it went through.\<close>

definition core :: "string \<Rightarrow> coord \<Rightarrow> ((u64 \<times> u64) \<times> (ReqState \<Rightarrow> u64 list)) option" where
  "core r w = map_option (\<lambda>a. (ra_route a, ra_status a)) (GetReqInfo r w)"

lemma core_simps [coord_simps]:
  "core r (emit e w) = core r w" "core r (on_cluster f w) = core r w"
  "reqIdMap (g (reqs w)) = reqIdMap (reqs w) \<Longrightarrow> core r (on_reqs g w) = core r w"
  by (simp_all add: core_def coord_simps)

lemma core_on_req:
  assumes "\<And>a. ra_route (f a) = ra_route a" and "\<And>a. ra_status (f a) = ra_status a"
  shows "core r (on_req rid f w) = core r w"
  using assms by (auto simp: core_def coord_simps option.map_comp comp_def)

lemma free_conn_frame [coord_simps]:
  "core r (free_conn rid w) = core r w" "cluster (free_conn rid w) = cluster w"
  "insIdToReqMap (reqs (free_conn rid w)) = insIdToReqMap (reqs w)"
  "numAllRequests (reqs (free_conn rid w)) = numAllRequests (reqs w)"
  "numFailRequests (reqs (free_conn rid w)) = numFailRequests (reqs w)"
  "numSuccessRequests (reqs (free_conn rid w)) = numSuccessRequests (reqs w)"
  by (auto simp: free_conn_def coord_simps SetClientConn_def core_on_req split: option.splits)

lemma unlink_frame [coord_simps]:
  "core r (unlink i rid w) = core r w" "cluster (unlink i rid w) = cluster w" "GetReqInfo r (unlink i rid w) = GetReqInfo r w"
  "reqIdMap (reqs (unlink i rid w)) = reqIdMap (reqs w)"
  "numAllRequests (reqs (unlink i rid w)) = numAllRequests (reqs w)"
  "numFailRequests (reqs (unlink i rid w)) = numFailRequests (reqs w)"
  "numSuccessRequests (reqs (unlink i rid w)) = numSuccessRequests (reqs w)"
  by (simp_all add: unlink_def coord_simps)

lemma ReqFinish_frame [coord_simps]:
  "core r (ReqFinish m rid a w) = core r w" "cluster (ReqFinish m rid a w) = cluster w"
  "numAllRequests (reqs (ReqFinish m rid a w)) = numAllRequests (reqs w)"
  "numFailRequests (reqs (ReqFinish m rid a w)) = numFailRequests (reqs w)"
  "numSuccessRequests (reqs (ReqFinish m rid a w)) = numSuccessRequests (reqs w)"
  by (simp_all add: ReqFinish_def Let_def coord_simps)

lemma clear_tasks_frame [coord_simps]:
  "core r (clear_tasks m rid a w) = core r w" "GetReqInfo r (clear_tasks m rid a w) = GetReqInfo r w"
  "numAllRequests (reqs (clear_tasks m rid a w)) = numAllRequests (reqs w)"
  "numFailRequests (reqs (clear_tasks m rid a w)) = numFailRequests (reqs w)"
  "numSuccessRequests (reqs (clear_tasks m rid a w)) = numSuccessRequests (reqs w)"
  by (simp_all add: clear_tasks_def Let_def coord_simps split: prod.splits)

lemma ReqFinishFirstToken_core [coord_simps]: "core r (ReqFinishFirstToken m rid t w) = core r w"
  by (auto simp: ReqFinishFirstToken_def Let_def coord_simps split: option.splits)

lemma ReqRepeated_core [coord_simps]: "core r (ReqRepeated rid w) = core r w"
  by (auto simp: ReqRepeated_def Let_def coord_simps split: option.splits)

lemma ClearReq_core [coord_simps]: "core r (ClearReq m rid st t w) = core r w"
  by (auto simp: ClearReq_def Let_def coord_simps split: option.splits)

lemma ReqRetry_core [coord_simps]: "core r (ReqRetry m rid t w) = core r w"
  by (auto simp: ReqRetry_def coord_simps ClearOutputNum_def core_on_req split: option.splits)

lemma state_action_core [coord_simps]: "core r (state_action m t rid st w) = core r w"
  by (cases st) (simp_all add: state_action_def ReqArrive_def coord_simps)

lemma core_None: "core r w = None \<longleftrightarrow> GetReqInfo r w = None"
  by (simp add: core_def)

lemma core_Some: "core r w = Some (x, s) \<longleftrightarrow> (\<exists>a. GetReqInfo r w = Some a \<and> ra_route a = x \<and> ra_status a = s)"
  by (auto simp: core_def)

text \<open>A state change appends to the history of its own request and leaves all routes and histories otherwise.\<close>

lemma core_UpdateState:
  "core r (rm_UpdateState m t rid st w) = (if r = rid then map_option (\<lambda>(x, s). (x, s(st := s st @ [t]))) (core rid w) else core r w)"
proof (cases "GetReqInfo rid w")
  case None
  then show ?thesis by (simp add: rm_UpdateState_def core_def)
next
  case (Some a)
  let ?w = "state_action m t rid st w"
  have c: "core x ?w = core x w" for x by (simp add: coord_simps)
  have "core r (on_req rid (ra_UpdateState st t) ?w)
      = (if r = rid then map_option (\<lambda>(x, s). (x, s(st := s st @ [t]))) (core rid ?w) else core r ?w)"
    by (auto simp: core_def coord_simps option.map_comp comp_def ra_UpdateState_def)
  then show ?thesis using Some by (simp add: rm_UpdateState_def c)
qed

end
