(* ===== verification/Request_Accounting.thy ===== *)
theory Request_Accounting
  imports Request_Registry
begin

text \<open>
  What the registry of requests guarantees: the task sets of the instances only contain live requests at the
  instance that works on them, and the statistics add up. A run is any sequence of operations and records what was reported;
  the invariants hold for runs in which the handlers report the states of a request in order (\<open>in_order\<close>), and the
  lemmas at the end show what happens in other runs.
\<close>

subsection \<open>Where the task of a request is\<close>

definition live_status :: "(ReqState \<Rightarrow> u64 list) \<Rightarrow> bool" where
  "live_status s \<longleftrightarrow> s REPEATED \<noteq> [] \<and> s FINISH = [] \<and> s EXCEPTION = []"

text \<open>A forwarded request occupies its prefill instance, and from its first token on its decode instance when the two
  are separate.\<close>

definition task_place :: "string \<Rightarrow> u64 \<times> u64 \<Rightarrow> (ReqState \<Rightarrow> u64 list) \<Rightarrow> u64" where
  "task_place m route s = (if IsPDSeparateMode m \<and> s FIRST_TOKEN_FINISH \<noteq> [] then snd route else fst route)"

definition tasks_sound :: "string \<Rightarrow> coord \<Rightarrow> bool" where
  "tasks_sound m w \<longleftrightarrow> (\<forall>i r. r |\<in>| GetTasksById i (cluster w) \<longrightarrow>
     (\<exists>x s. core r w = Some (x, s) \<and> live_status s \<and> i = task_place m x s))"

text \<open>Instances have different addresses, and a request forwarded in a separated deployment has two instances.\<close>

definition addr_ok :: "ClusterNodes \<Rightarrow> bool" where
  "addr_ok c \<longleftrightarrow> (\<forall>i v. map_of (instanceInfos c) i = Some v \<longrightarrow> ii_ip v \<noteq> [] \<and>
     (\<forall>j u. map_of (instanceInfos c) j = Some u \<longrightarrow> ii_ip u = ii_ip v \<longrightarrow> ii_port u = ii_port v \<longrightarrow> i = j))"

definition routes_ok :: "string \<Rightarrow> coord \<Rightarrow> bool" where
  "routes_ok m w \<longleftrightarrow> (\<forall>r x s. core r w = Some (x, s) \<longrightarrow> s REPEATED \<noteq> [] \<longrightarrow> IsPDSeparateMode m \<longrightarrow> fst x \<noteq> snd x)"

definition reg_inv :: "string \<Rightarrow> coord \<Rightarrow> bool" where
  "reg_inv m w \<longleftrightarrow> cn_ok (cluster w) \<and> addr_ok (cluster w) \<and> omap_ok (reqIdMap (reqs w)) \<and> routes_ok m w \<and> tasks_sound m w"

lemma tasks_soundD:
  assumes "tasks_sound m w" and "r |\<in>| GetTasksById i (cluster w)"
  shows "\<exists>x s. core r w = Some (x, s) \<and> live_status s \<and> i = task_place m x s"
  using assms by (simp only: tasks_sound_def)

lemma addr_okD:
  assumes "addr_ok c" and "map_of (instanceInfos c) i = Some v"
  shows "ii_ip v \<noteq> []" and "map_of (instanceInfos c) j = Some u \<Longrightarrow> ii_ip u = ii_ip v \<Longrightarrow> ii_port u = ii_port v \<Longrightarrow> i = j"
  using assms unfolding addr_ok_def by metis+

lemma same_address_absent:
  assumes "addr_ok (cluster w)" and "fst x \<noteq> snd x" and "same_address x w"
  shows "\<not> HasInstance (fst x) (cluster w) \<and> \<not> HasInstance (snd x) (cluster w)"
proof -
  let ?m = "map_of (instanceInfos (cluster w))"
  have eq: "cn_get ii_ip [] (fst x) (cluster w) = cn_get ii_ip [] (snd x) (cluster w)"
    "cn_get ii_port [] (fst x) (cluster w) = cn_get ii_port [] (snd x) (cluster w)"
    using assms(3) by (simp_all add: same_address_def cn_GetIp_def cn_GetPort_def)
  show ?thesis
  proof (cases "?m (fst x)")
    case None
    with eq(1) show ?thesis using addr_okD(1) [OF assms(1), of "snd x"] by (cases "?m (snd x)") (auto simp: cn_get_def HasInstance_def)
  next
    case (Some v)
    note D = addr_okD [OF assms(1) Some]
    from eq D(1) show ?thesis using D(2) [of "snd x"] assms(2) Some by (cases "?m (snd x)") (auto simp: cn_get_def)
  qed
qed

lemma absent_no_tasks: "\<not> HasInstance i c \<Longrightarrow> GetTasksById i c = {||}"
  by (simp add: HasInstance_def GetTasksById_def cn_get_def)

lemma tasks_after_clear:
  assumes "GetReqInfo rid w = Some a" and "\<not> req_ended a" and "ra_HasState REPEATED a"
  shows "GetTasksById i (cluster (ClearReq m rid st t w))
    = GetTasksById i (cluster (clear_tasks m rid a w))"
  using assms by (auto simp: ClearReq_def Let_def clear_tasks_def same_address_def coord_simps split: prod.splits)

lemma clear_removes:
  assumes "reg_inv m w" and "GetReqInfo rid w = Some a" and "\<not> req_ended a" and "ra_HasState REPEATED a"
  shows "GetTasksById i (cluster (ClearReq m rid st t w)) = GetTasksById i (cluster w) |-| {|rid|}"
proof -
  obtain p d where r: "ra_route a = (p, d)" by (cases "ra_route a") auto
  have c: "core rid w = Some ((p, d), ra_status a)" using assms(2) r by (simp add: core_def)
  have place: "rid |\<notin>| GetTasksById i (cluster w)" if "i \<noteq> task_place m (p, d) (ra_status a)" for i
    using assms(1) c that tasks_soundD [of m w rid i] by (auto simp: reg_inv_def)
  show ?thesis
  proof (cases "IsPDSeparateMode m \<and> \<not> same_address (p, d) w")
    case True
    then show ?thesis
      unfolding tasks_after_clear [OF assms(2-4)] using r place [of i]
      by (auto simp: clear_tasks_def coord_simps cn_simps task_place_def ra_HasState_def)
  next
    case False
    have "rid |\<notin>| GetTasksById i (cluster w)" if "i \<noteq> p"
    proof (cases "IsPDSeparateMode m")
      case True
      then have "p \<noteq> d" using assms(1,4) c by (fastforce simp: reg_inv_def routes_ok_def ra_HasState_def)
      then have "GetTasksById d (cluster w) = {||}"
        using same_address_absent [of w "(p, d)"] False True assms(1) absent_no_tasks by (auto simp: reg_inv_def)
      with place [of i] that show ?thesis by (cases "i = d") (auto simp: task_place_def)
    qed (use place [of i] that in \<open>auto simp: task_place_def\<close>)
    then show ?thesis
      unfolding tasks_after_clear [OF assms(2-4)] using r False
      by (auto simp: clear_tasks_def coord_simps cn_simps)
  qed
qed

subsection \<open>Runs\<close>

text \<open>The order in which the coordinator's handlers are meant to report the states of a request: it is forwarded while it is neither
  ended nor past its first token, to a pair of different instances; its first token arrives once after that.\<close>

definition legal :: "string \<Rightarrow> ReqState \<Rightarrow> ReqAgent \<Rightarrow> bool" where
  "legal m st a \<longleftrightarrow> (st = REPEATED \<longrightarrow> \<not> req_ended a \<and> \<not> ra_HasState FIRST_TOKEN_FINISH a
          \<and> (IsPDSeparateMode m \<longrightarrow> fst (ra_route a) \<noteq> snd (ra_route a)))
     \<and> (st = FIRST_TOKEN_FINISH \<longrightarrow> ra_HasState REPEATED a \<and> \<not> ra_HasState FIRST_TOKEN_FINISH a \<and> \<not> req_ended a)"

definition address_free :: "string \<Rightarrow> string \<Rightarrow> ClusterNodes \<Rightarrow> bool" where
  "address_free ip port c \<longleftrightarrow> ip \<noteq> [] \<and> (\<forall>(_, v) \<in> set (instanceInfos c). ii_ip v \<noteq> ip \<or> ii_port v \<noteq> port)"

fun keeps_tasks :: "cn_op \<Rightarrow> bool" where
  "keeps_tasks (CnAdd _ _ _ _ _) = False"
| "keeps_tasks (CnAddTask _ _) = False"
| "keeps_tasks (CnDecreaseTask _ _) = False"
| "keeps_tasks _ = True"

definition keeps_core :: "(ReqAgent \<Rightarrow> ReqAgent) \<Rightarrow> bool" where
  "keeps_core f \<longleftrightarrow> (\<forall>a. ra_route (f a) = ra_route a \<and> ra_status (f a) = ra_status a)"

text \<open>What a run records: an instance that is registered, with the table before; the route given to a request, with the request and
  the table before; and a state reported for a request, with the request before.\<close>

datatype reg_event = AddedInstance string string ClusterNodes | RoutedRequest string "u64 \<times> u64" ReqAgent ClusterNodes
  | ReportedState ReqState ReqAgent

inductive reg_run :: "string \<Rightarrow> reg_event list \<Rightarrow> coord \<Rightarrow> bool" for m where
  start: "reg_run m [] \<lparr>cluster = new_ClusterNodes, reqs = new_ReqManage pre, effects = []\<rparr>"
| add_instance: "reg_run m es w \<Longrightarrow>
    reg_run m (AddedInstance ip port (cluster w) # es) (on_cluster (\<lambda>c. snd (cn_AddInstance i ip port role model c)) w)"
| cluster_op: "reg_run m es w \<Longrightarrow> keeps_tasks op \<Longrightarrow> reg_run m es (on_cluster (cn_step op) w)"
| add_req: "reg_run m es w \<Longrightarrow> reg_run m es (snd (rm_AddReq route0 rid typ conn req w))"
| set_route: "reg_run m es w \<Longrightarrow> GetReqInfo rid w = Some a \<Longrightarrow> reg_run m (RoutedRequest rid route a (cluster w) # es) (rm_SetRoute rid route w)"
| edit: "reg_run m es w \<Longrightarrow> keeps_core f \<Longrightarrow> reg_run m es (on_req rid f w)"
| update: "reg_run m es w \<Longrightarrow> GetReqInfo rid w = Some a \<Longrightarrow> reg_run m (ReportedState st a # es) (rm_UpdateState m t rid st w)"
| arrive: "reg_run m es w \<Longrightarrow> reg_run m es (SetReqArriveNum w)"
| release: "reg_run m es w \<Longrightarrow> reg_run m es (ReleaseFinishedRequest maxReqs w)"

text \<open>An event is in order when instances have addresses of their own, a request is routed while it occupies no instance, and its states
  are reported in order.\<close>

fun in_order :: "string \<Rightarrow> reg_event \<Rightarrow> bool" where
  "in_order m (AddedInstance ip port c) = address_free ip port c"
| "in_order m (RoutedRequest rid route a c) = ((\<forall>i. rid |\<notin>| GetTasksById i c)
     \<and> (ra_HasState REPEATED a \<longrightarrow> IsPDSeparateMode m \<longrightarrow> fst route \<noteq> snd route))"
| "in_order m (ReportedState st a) = legal m st a"

subsection \<open>Every step keeps the invariant\<close>

lemma addr_ok_map:
  assumes "addr_ok c" and "\<And>i v. map_of (instanceInfos c') i = Some v \<Longrightarrow>
      \<exists>u. map_of (instanceInfos c) i = Some u \<and> ii_ip u = ii_ip v \<and> ii_port u = ii_port v"
  shows "addr_ok c'"
  unfolding addr_ok_def
proof (intro allI impI conjI)
  fix i v assume v: "map_of (instanceInfos c') i = Some v"
  from assms(2) [OF this] obtain v' where v': "map_of (instanceInfos c) i = Some v'" "ii_ip v' = ii_ip v" "ii_port v' = ii_port v" by blast
  then show "ii_ip v \<noteq> []" using addr_okD(1) [OF assms(1) v'(1)] by simp
  fix j u assume u: "map_of (instanceInfos c') j = Some u" "ii_ip u = ii_ip v" "ii_port u = ii_port v"
  from assms(2) [OF u(1)] obtain u' where "map_of (instanceInfos c) j = Some u'" "ii_ip u' = ii_ip u" "ii_port u' = ii_port u" by blast
  then show "i = j" using addr_okD(2) [OF assms(1) v'(1)] v'(2,3) u(2,3) by simp
qed

lemma addr_ok_upd:
  assumes "addr_ok c" and "\<And>v. ii_ip (f v) = ii_ip v \<and> ii_port (f v) = ii_port v"
  shows "addr_ok (upd_instance i f c)"
  by (rule addr_ok_map [OF assms(1)]) (use assms(2) in \<open>auto simp: cn_simps split: if_splits\<close>)

lemma addr_ok_tasks: "addr_ok c \<Longrightarrow> addr_ok (AddTask i r c)" "addr_ok c \<Longrightarrow> addr_ok (DecreaseTask i r c)"
  unfolding AddTask_def DecreaseTask_def by (rule addr_ok_upd; simp)+

lemma addr_ok_op:
  assumes "keeps_tasks op" and "addr_ok c" and "cn_ok c"
  shows "addr_ok (cn_step op c)"
proof (rule addr_ok_map [OF assms(2)])
  fix i v assume "map_of (instanceInfos (cn_step op c)) i = Some v"
  with assms(1) cn_okD(1) [OF assms(3)]
  show "\<exists>u. map_of (instanceInfos c) i = Some u \<and> ii_ip u = ii_ip v \<and> ii_port u = ii_port v"
    by (cases op) (auto simp: UpdateExtraInfo_def cn_RemoveInstance_def cn_AddRetry_def AddFaultNode_def RemoveFaultNode_def
        UpdateClusterFlexInstanceInfo_def ClearClusterFlexInstanceInfo_def Let_def cn_simps omap_simps split: option.splits if_splits)
qed

lemma tasks_op:
  assumes "keeps_tasks op" and "cn_ok c" and "r |\<in>| GetTasksById i (cn_step op c)"
  shows "r |\<in>| GetTasksById i c"
  using assms cn_okD(1) [OF assms(2)]
  by (cases op) (auto simp: cn_simps split: if_splits)

lemma addr_ok_AddInstance:
  assumes "addr_ok c" and "address_free ip port c"
  shows "addr_ok (snd (cn_AddInstance i ip port role model c))"
proof (cases "map_of (instanceInfos c) i")
  case None
  have m: "map_of (instanceInfos (snd (cn_AddInstance i ip port role model c)))
      = (map_of (instanceInfos c))(i \<mapsto> new_InstanceInfo ip port role model)" using None by (simp add: cn_AddInstance_def omap_simps)
  have n: "ii_ip (new_InstanceInfo ip port role model) = ip" "ii_port (new_InstanceInfo ip port role model) = port"
    by (simp_all add: new_InstanceInfo_def)
  have f: "ii_ip v \<noteq> ip \<or> ii_port v \<noteq> port" if "map_of (instanceInfos c) j = Some v" for j v
    using assms(2) map_of_SomeD [OF that] by (auto simp: address_free_def)
  have ip: "ip \<noteq> []" using assms(2) by (simp add: address_free_def)
  show ?thesis unfolding addr_ok_def m
  proof (intro allI impI conjI)
    fix k v assume v: "((map_of (instanceInfos c))(i \<mapsto> new_InstanceInfo ip port role model)) k = Some v"
    then show "ii_ip v \<noteq> []" using addr_okD(1) [OF assms(1)] ip n by (auto split: if_splits)
    fix j u assume u: "((map_of (instanceInfos c))(i \<mapsto> new_InstanceInfo ip port role model)) j = Some u"
      "ii_ip u = ii_ip v" "ii_port u = ii_port v"
    show "k = j"
    proof (cases "k = i")
      case True
      then have "v = new_InstanceInfo ip port role model" using v by simp
      then show ?thesis using u f [of j u] n True by (cases "j = i") auto
    next
      case False
      then have v': "map_of (instanceInfos c) k = Some v" using v by simp
      show ?thesis
      proof (cases "j = i")
        case True
        then have "u = new_InstanceInfo ip port role model" using u(1) by simp
        then show ?thesis using u(2,3) f [OF v'] n by simp
      next
        case j: False
        then have "map_of (instanceInfos c) j = Some u" using u(1) by simp
        then show ?thesis by (rule addr_okD(2) [OF assms(1) v' _ u(2,3)])
      qed
    qed
  qed
qed (use assms(1) in \<open>simp add: cn_AddInstance_def\<close>)

lemma reg_invD:
  assumes "reg_inv m w"
  shows "cn_ok (cluster w)" "addr_ok (cluster w)" "omap_ok (reqIdMap (reqs w))" "routes_ok m w" "tasks_sound m w"
  using assms by (simp_all add: reg_inv_def)

lemma reg_inv_frame:
  assumes "reg_inv m w" and "cluster w' = cluster w" and "omap_ok (reqIdMap (reqs w'))" and "\<And>r. core r w' = core r w"
  shows "reg_inv m w'"
  using assms by (simp add: reg_inv_def routes_ok_def tasks_sound_def)

lemma reg_inv_cluster:
  assumes "reg_inv m w" and "cn_ok (f (cluster w))" and "addr_ok (f (cluster w))"
    and "\<And>i r. r |\<in>| GetTasksById i (f (cluster w)) \<Longrightarrow> r |\<in>| GetTasksById i (cluster w)"
  shows "reg_inv m (on_cluster f w)"
proof -
  have "routes_ok m (on_cluster f w)" using reg_invD(4) [OF assms(1)] by (simp add: routes_ok_def coord_simps)
  moreover have "tasks_sound m (on_cluster f w)"
    unfolding tasks_sound_def coord_simps using tasks_soundD [OF reg_invD(5) [OF assms(1)]] assms(4) by blast
  ultimately show ?thesis using assms(2,3) reg_invD(3) [OF assms(1)] by (simp add: reg_inv_def coord_simps)
qed

text \<open>One request gets a new record: nothing is known of the others' tasks but what was known before.\<close>

lemma reg_inv_one:
  assumes "reg_inv m w" and "cn_ok (cluster w')" and "addr_ok (cluster w')" and "omap_ok (reqIdMap (reqs w'))"
    and "\<And>r. r \<noteq> rid \<Longrightarrow> core r w' = core r w"
    and "\<And>i r. r \<noteq> rid \<Longrightarrow> r |\<in>| GetTasksById i (cluster w') \<Longrightarrow> r |\<in>| GetTasksById i (cluster w)"
    and "\<And>x s. core rid w' = Some (x, s) \<Longrightarrow> s REPEATED \<noteq> [] \<Longrightarrow> IsPDSeparateMode m \<Longrightarrow> fst x \<noteq> snd x"
    and "\<And>i. rid |\<in>| GetTasksById i (cluster w') \<Longrightarrow> \<exists>x s. core rid w' = Some (x, s) \<and> live_status s \<and> i = task_place m x s"
  shows "reg_inv m w'"
proof -
  have "routes_ok m w'" unfolding routes_ok_def
  proof (intro allI impI)
    fix r x s assume h: "core r w' = Some (x, s)" "s REPEATED \<noteq> []" "IsPDSeparateMode m"
    show "fst x \<noteq> snd x"
    proof (cases "r = rid")
      case False
      then have "core r w = Some (x, s)" using h(1) assms(5) by simp
      then show ?thesis using reg_invD(4) [OF assms(1)] h(2,3) unfolding routes_ok_def by blast
    qed (use assms(7) h in blast)
  qed
  moreover have "tasks_sound m w'" unfolding tasks_sound_def
  proof (intro allI impI)
    fix i r assume h: "r |\<in>| GetTasksById i (cluster w')"
    show "\<exists>x s. core r w' = Some (x, s) \<and> live_status s \<and> i = task_place m x s"
    proof (cases "r = rid")
      case False
      then show ?thesis using tasks_soundD [OF reg_invD(5) [OF assms(1)] assms(6) [OF False h]] assms(5) by simp
    qed (use assms(8) h in blast)
  qed
  ultimately show ?thesis using assms(2-4) by (simp add: reg_inv_def)
qed

lemma omap_ok_free_conn: "omap_ok (reqIdMap (reqs w)) \<Longrightarrow> omap_ok (reqIdMap (reqs (free_conn rid w)))"
  by (auto simp: free_conn_def coord_simps split: option.splits)

lemma omap_ok_ReqFinish: "omap_ok (reqIdMap (reqs w)) \<Longrightarrow> omap_ok (reqIdMap (reqs (ReqFinish m rid a w)))"
  by (simp add: ReqFinish_def Let_def coord_simps omap_ok_free_conn)

lemma reqIdMap_clear_tasks [coord_simps]: "reqIdMap (reqs (clear_tasks m rid a w)) = reqIdMap (reqs w)"
  by (simp add: clear_tasks_def Let_def coord_simps split: prod.splits)

lemma omap_ok_ClearReq: "omap_ok (reqIdMap (reqs w)) \<Longrightarrow> omap_ok (reqIdMap (reqs (ClearReq m rid st t w)))"
  by (simp add: ClearReq_def Let_def coord_simps omap_ok_ReqFinish split: option.splits)

lemma omap_ok_action: "omap_ok (reqIdMap (reqs w)) \<Longrightarrow> omap_ok (reqIdMap (reqs (state_action m t rid st w)))"
  by (cases st) (simp_all add: state_action_def ReqArrive_def ReqRepeated_def ReqFinishFirstToken_def ReqRetry_def Let_def coord_simps
      omap_ok_free_conn omap_ok_ClearReq omap_ok_on_req split: option.splits)

lemma cn_ok_tasks: "cn_ok c \<Longrightarrow> cn_ok (AddTask i r c)" "cn_ok c \<Longrightarrow> cn_ok (DecreaseTask i r c)"
  by (simp_all add: AddTask_def DecreaseTask_def cn_ok_upd_instance)

definition only_tasks :: "ClusterNodes \<Rightarrow> ClusterNodes \<Rightarrow> bool" where
  "only_tasks c c' \<longleftrightarrow> (cn_ok c \<longrightarrow> cn_ok c') \<and> (addr_ok c \<longrightarrow> addr_ok c') \<and> cn_ids c' = cn_ids c"

lemma only_tasks_intros [intro]:
  "only_tasks c c" "only_tasks c c' \<Longrightarrow> only_tasks c (AddTask i r c')" "only_tasks c c' \<Longrightarrow> only_tasks c (DecreaseTask i r c')"
  by (auto simp: only_tasks_def AddTask_def DecreaseTask_def cn_simps intro: cn_ok_tasks [unfolded AddTask_def DecreaseTask_def]
      addr_ok_tasks [unfolded AddTask_def DecreaseTask_def])

lemma only_tasks_ClearReq: "only_tasks (cluster w) (cluster (ClearReq m rid st t w))"
proof (cases "GetReqInfo rid w")
  case (Some a)
  have "only_tasks (cluster u) (cluster (clear_tasks m rid a u))" for u
    by (cases "ra_route a") (auto simp: clear_tasks_def Let_def coord_simps)
  from this [of w] show ?thesis using Some
    by (auto simp: ClearReq_def clear_tasks_def same_address_def Let_def coord_simps split: prod.splits)
qed (auto simp: ClearReq_def coord_simps)

lemma only_tasks_action: "only_tasks (cluster w) (cluster (state_action m t rid st w))"
  by (cases st) (auto simp: state_action_def ReqArrive_def ReqRepeated_def ReqFinishFirstToken_def ReqRetry_def Let_def
      coord_simps only_tasks_ClearReq split: option.splits)

lemma cluster_UpdateState:
  "GetReqInfo rid w = Some a \<Longrightarrow> cluster (rm_UpdateState m t rid st w) = cluster (state_action m t rid st w)"
  by (simp add: rm_UpdateState_def coord_simps)

lemma tasks_repeated:
  "GetReqInfo rid w = Some a \<Longrightarrow> r |\<in>| GetTasksById i (cluster (state_action m t rid REPEATED w))
    \<longleftrightarrow> r |\<in>| GetTasksById i (cluster w) \<or> (r = rid \<and> i = fst (ra_route a) \<and> HasInstance i (cluster w))"
  by (auto simp: state_action_def ReqRepeated_def Let_def coord_simps cn_simps)

lemma tasks_first_token:
  "GetReqInfo rid w = Some a \<Longrightarrow> IsPDSeparateMode m \<Longrightarrow> r |\<in>| GetTasksById i (cluster (state_action m t rid FIRST_TOKEN_FINISH w))
    \<longleftrightarrow> (r |\<in>| GetTasksById i (cluster w) \<and> \<not> (r = rid \<and> i = fst (ra_route a))) \<or> (r = rid \<and> i = snd (ra_route a) \<and> HasInstance i (cluster w))"
  by (auto simp: state_action_def ReqFinishFirstToken_def Let_def coord_simps cn_simps)

lemma tasks_ended:
  assumes "reg_inv m w" and "GetReqInfo rid w = Some a" and "st = FINISH \<or> st = EXCEPTION \<or> st = RETRY"
  shows "GetTasksById i (cluster (state_action m t rid st w)) = GetTasksById i (cluster w) |-| {|rid|}"
proof -
  have s: "cluster (state_action m t rid st w) = cluster (ClearReq m rid st t w)"
    using assms(2,3) by (auto simp: state_action_def ReqRetry_def coord_simps)
  show ?thesis
  proof (cases "\<not> req_ended a \<and> ra_HasState REPEATED a")
    case True
    then show ?thesis unfolding s using clear_removes [OF assms(1,2)] by blast
  next
    case False
    have "rid |\<notin>| GetTasksById i (cluster w)"
    proof
      assume "rid |\<in>| GetTasksById i (cluster w)"
      from tasks_soundD [OF reg_invD(5) [OF assms(1)] this] assms(2) False show False
        by (auto simp: core_def live_status_def req_ended_def ra_HasState_def)
    qed
    moreover have "cluster (ClearReq m rid st t w) = cluster w"
      using False assms(2) by (auto simp: ClearReq_def Let_def coord_simps)
    ultimately show ?thesis unfolding s by simp
  qed
qed

lemma tasks_other:
  "st \<noteq> REPEATED \<Longrightarrow> st \<noteq> FIRST_TOKEN_FINISH \<Longrightarrow> st \<noteq> FINISH \<Longrightarrow> st \<noteq> EXCEPTION \<Longrightarrow> st \<noteq> RETRY \<Longrightarrow>
    cluster (state_action m t rid st w) = cluster w"
  by (cases st) (simp_all add: state_action_def ReqArrive_def coord_simps)

lemma tasks_others_kept:
  assumes "reg_inv m w" and "GetReqInfo rid w = Some a" and "r \<noteq> rid"
    and "r |\<in>| GetTasksById i (cluster (state_action m t rid st w))"
  shows "r |\<in>| GetTasksById i (cluster w)"
proof -
  consider "st = REPEATED" | "st = FIRST_TOKEN_FINISH" "IsPDSeparateMode m" | "st = FIRST_TOKEN_FINISH" "\<not> IsPDSeparateMode m"
    | "st = FINISH \<or> st = EXCEPTION \<or> st = RETRY" | "st \<notin> {REPEATED, FIRST_TOKEN_FINISH, FINISH, EXCEPTION, RETRY}"
    by blast
  then show ?thesis
  proof cases
    case 1 then show ?thesis using assms(3,4) tasks_repeated [OF assms(2)] by simp
  next
    case 2 then show ?thesis using assms(3,4) tasks_first_token [OF assms(2)] by simp
  next
    case 3 then show ?thesis using assms(4) by (simp add: state_action_def ReqFinishFirstToken_def)
  next
    case 4 then show ?thesis using assms(4) tasks_ended [OF assms(1,2)] by simp
  next
    case 5 then show ?thesis using assms(4) tasks_other [of st] by simp
  qed
qed

lemma task_placed:
  assumes "reg_inv m w" and "GetReqInfo rid w = Some a" and "legal m st a"
    and "rid |\<in>| GetTasksById i (cluster (state_action m t rid st w))"
  shows "live_status ((ra_status a)(st := ra_status a st @ [t]))
    \<and> i = task_place m (ra_route a) ((ra_status a)(st := ra_status a st @ [t]))"
proof -
  have old: "live_status (ra_status a) \<and> j = task_place m (ra_route a) (ra_status a)" if "rid |\<in>| GetTasksById j (cluster w)" for j
    using tasks_soundD [OF reg_invD(5) [OF assms(1)] that] assms(2) by (auto simp: core_def)
  consider "st = REPEATED" | "st = FIRST_TOKEN_FINISH" "IsPDSeparateMode m" | "st = FIRST_TOKEN_FINISH" "\<not> IsPDSeparateMode m"
    | "st = FINISH \<or> st = EXCEPTION \<or> st = RETRY" | "st \<notin> {REPEATED, FIRST_TOKEN_FINISH, FINISH, EXCEPTION, RETRY}"
    by blast
  then show ?thesis
  proof cases
    case 1
    then have h: "\<not> req_ended a" "\<not> ra_HasState FIRST_TOKEN_FINISH a" using assms(3) by (auto simp: legal_def)
    then have "i = fst (ra_route a)" using assms(4) 1 tasks_repeated [OF assms(2)] old [of i] by (auto simp: task_place_def ra_HasState_def)
    then show ?thesis using h 1 by (auto simp: live_status_def task_place_def req_ended_def ra_HasState_def)
  next
    case 2
    then have h: "\<not> req_ended a" "ra_HasState REPEATED a" "\<not> ra_HasState FIRST_TOKEN_FINISH a" using assms(3) by (auto simp: legal_def)
    then have "i = snd (ra_route a)" using assms(4) 2 tasks_first_token [OF assms(2) 2(2)] old [of i]
      by (auto simp: task_place_def ra_HasState_def)
    then show ?thesis using h 2 by (auto simp: live_status_def task_place_def req_ended_def ra_HasState_def)
  next
    case 3
    then have "rid |\<in>| GetTasksById i (cluster w)" using assms(4) by (simp add: state_action_def ReqFinishFirstToken_def)
    from old [OF this] show ?thesis using 3 by (auto simp: live_status_def task_place_def)
  next
    case 4
    then show ?thesis using assms(4) tasks_ended [OF assms(1,2)] by simp
  next
    case 5
    then have "rid |\<in>| GetTasksById i (cluster w)" using assms(4) tasks_other [of st] by simp
    from old [OF this] show ?thesis using 5 by (auto simp: live_status_def task_place_def)
  qed
qed

lemma reg_inv_update:
  assumes "reg_inv m w" and "GetReqInfo rid w = Some a" and "legal m st a"
  shows "reg_inv m (rm_UpdateState m t rid st w)"
proof (rule reg_inv_one [OF assms(1), where rid = rid])
  note ot = only_tasks_action [of w m t rid st] and cl = cluster_UpdateState [OF assms(2), of m t st]
  have c: "core rid (rm_UpdateState m t rid st w) = Some (ra_route a, (ra_status a)(st := ra_status a st @ [t]))"
    using core_UpdateState [of rid m t rid st w] assms(2) by (simp add: core_def [of rid w])
  show "cn_ok (cluster (rm_UpdateState m t rid st w))" "addr_ok (cluster (rm_UpdateState m t rid st w))"
    using ot reg_invD(1,2) [OF assms(1)] cl by (simp_all add: only_tasks_def)
  show "omap_ok (reqIdMap (reqs (rm_UpdateState m t rid st w)))"
    using assms(2) omap_ok_action [OF reg_invD(3) [OF assms(1)]] by (simp add: rm_UpdateState_def omap_ok_on_req)
  show "core r (rm_UpdateState m t rid st w) = core r w" if "r \<noteq> rid" for r using that by (simp add: core_UpdateState)
  show "r |\<in>| GetTasksById i (cluster w)" if "r \<noteq> rid" "r |\<in>| GetTasksById i (cluster (rm_UpdateState m t rid st w))" for i r
    using tasks_others_kept [OF assms(1,2) that(1)] that(2) cl by simp
  show "fst x \<noteq> snd x" if h: "core rid (rm_UpdateState m t rid st w) = Some (x, s)" "s REPEATED \<noteq> []" "IsPDSeparateMode m" for x s
  proof (cases "ra_HasState REPEATED a")
    case True
    then have "core rid w = Some (ra_route a, ra_status a)" "ra_status a REPEATED \<noteq> []"
      using assms(2) by (simp_all add: core_def ra_HasState_def)
    then have "fst (ra_route a) \<noteq> snd (ra_route a)"
      using reg_invD(4) [OF assms(1)] h(3) unfolding routes_ok_def by blast
    then show ?thesis using h(1) c by simp
  next
    case False
    then have "st = REPEATED" using h c by (auto simp: ra_HasState_def split: if_splits)
    then show ?thesis using assms(3) h c by (auto simp: legal_def)
  qed
  show "\<exists>x s. core rid (rm_UpdateState m t rid st w) = Some (x, s) \<and> live_status s \<and> i = task_place m x s"
    if "rid |\<in>| GetTasksById i (cluster (rm_UpdateState m t rid st w))" for i
    using task_placed [OF assms] that c cl by simp
qed

lemma core_AddReq:
  "core r (snd (rm_AddReq route0 rid typ conn req w)) = (if r = rid \<and> GetReqInfo rid w = None then Some (route0, \<lambda>_. []) else core r w)"
  by (auto simp: rm_AddReq_def core_def GetReqInfo_def emit_def on_reqs_def new_ReqAgent_def omap_simps)

lemma core_SetRoute:
  "core r (rm_SetRoute rid route w) = (if r = rid then map_option (\<lambda>(_, s). (route, s)) (core rid w) else core r w)"
  by (auto simp: rm_SetRoute_def core_def coord_simps ra_SetRoute_def Let_def option.map_comp comp_def split: option.splits)

lemma core_release:
  assumes "omap_ok (reqIdMap (reqs w))"
  shows "core r (ReleaseFinishedRequest maxReqs w)
    = (case core r w of Some (x, s) \<Rightarrow> if s FINISH = [] \<and> s EXCEPTION = [] then Some (x, s) else None | None \<Rightarrow> None)"
    and "cluster (ReleaseFinishedRequest maxReqs w) = cluster w"
    and "omap_ok (reqIdMap (reqs (ReleaseFinishedRequest maxReqs w)))"
proof -
  let ?c = "fold close_finished (reqIdMap (reqs w)) w"
  have cf: "reqs (fold close_finished es u) = reqs u \<and> cluster (fold close_finished es u) = cluster u" for es u
    by (induction es arbitrary: u) (auto simp: close_finished_def coord_simps split: option.splits)
  have al: "core r (CheckAndHandleReqCongestionAlarm x u) = core r u" "cluster (CheckAndHandleReqCongestionAlarm x u) = cluster u"
    "reqIdMap (reqs (CheckAndHandleReqCongestionAlarm x u)) = reqIdMap (reqs u)" for x u r
    by (simp_all add: CheckAndHandleReqCongestionAlarm_def Let_def coord_simps)
  have f: "map_of (filter (\<lambda>(_, a). \<not> req_ended a) l) r = (case map_of l r of Some a \<Rightarrow> if req_ended a then None else Some a | None \<Rightarrow> None)"
    if "omap_ok l" for l r
    using omap_ok_distinct [OF that] by (induction l) (auto simp: map_of_eq_None_iff split: option.splits)
  have z: "reqIdMap (reqs w) = []" if "GetReqNum w = 0" using that by (simp add: GetReqNum_def)
  show "cluster (ReleaseFinishedRequest maxReqs w) = cluster w"
    by (simp add: ReleaseFinishedRequest_def al coord_simps cf)
  show "omap_ok (reqIdMap (reqs (ReleaseFinishedRequest maxReqs w)))"
    using assms by (simp add: ReleaseFinishedRequest_def al coord_simps cf omap_ok_filter)
  show "core r (ReleaseFinishedRequest maxReqs w)
    = (case core r w of Some (x, s) \<Rightarrow> if s FINISH = [] \<and> s EXCEPTION = [] then Some (x, s) else None | None \<Rightarrow> None)"
  proof (cases "GetReqNum w = 0")
    case True
    then show ?thesis by (simp add: ReleaseFinishedRequest_def core_def GetReqInfo_def z)
  next
    case False
    then have "core r (ReleaseFinishedRequest maxReqs w) = map_option (\<lambda>a. (ra_route a, ra_status a))
        (map_of (filter (\<lambda>(_, a). \<not> req_ended a) (reqIdMap (reqs w))) r)"
      by (simp add: ReleaseFinishedRequest_def al) (simp add: core_def GetReqInfo_def coord_simps cf)
    moreover have "core r w = map_option (\<lambda>a. (ra_route a, ra_status a)) (map_of (reqIdMap (reqs w)) r)"
      by (simp add: core_def GetReqInfo_def)
    ultimately show ?thesis unfolding f [OF assms]
      by (cases "map_of (reqIdMap (reqs w)) r") (auto simp: req_ended_def ra_HasState_def)
  qed
qed

lemma reg_inv_run: "reg_run m es w \<Longrightarrow> \<forall>e \<in> set es. in_order m e \<Longrightarrow> reg_inv m w"
proof (induction rule: reg_run.induct)
  case (start pre)
  have "core r \<lparr>cluster = new_ClusterNodes, reqs = new_ReqManage pre, effects = []\<rparr> = None" for r
    by (simp add: core_def GetReqInfo_def new_ReqManage_def)
  then show ?case
    by (simp add: reg_inv_def cn_ok_new routes_ok_def tasks_sound_def addr_ok_def)
      (simp add: new_ClusterNodes_def new_ReqManage_def GetTasksById_def cn_get_def)
next
  case (add_instance es w ip port i role model)
  then have I: "reg_inv m w" by simp
  show ?case
    by (rule reg_inv_cluster [OF I])
      (use reg_invD [OF I] add_instance.prems in \<open>simp_all add: cn_ok_AddInstance addr_ok_AddInstance cn_simps\<close>)
next
  case (cluster_op es w op)
  then have I: "reg_inv m w" by simp
  note D = reg_invD [OF I]
  show ?case
    by (rule reg_inv_cluster [OF I])
      (use cn_ok_step [OF D(1)] addr_ok_op [OF cluster_op.hyps(2) D(2,1)] tasks_op [OF cluster_op.hyps(2) D(1)] in \<open>simp_all\<close>)
next
  case (add_req es w route0 rid ty conn req)
  then have I: "reg_inv m w" by simp
  let ?w = "snd (rm_AddReq route0 rid ty conn req w)"
  note D = reg_invD [OF I]
  have cl: "cluster ?w = cluster w" by (simp add: rm_AddReq_def coord_simps)
  show ?case
  proof (rule reg_inv_one [OF I, where rid = rid])
    show "omap_ok (reqIdMap (reqs ?w))" using D(3) by (auto simp: rm_AddReq_def coord_simps)
    show "core r ?w = core r w" if "r \<noteq> rid" for r using that by (simp add: core_AddReq)
    show "fst x \<noteq> snd x" if h: "core rid ?w = Some (x, s)" "s REPEATED \<noteq> []" "IsPDSeparateMode m" for x s
      using that D(4) by (auto simp: core_AddReq routes_ok_def split: if_splits)
    show "\<exists>x s. core rid ?w = Some (x, s) \<and> live_status s \<and> i = task_place m x s" if h: "rid |\<in>| GetTasksById i (cluster ?w)" for i
    proof -
      obtain x s where c: "core rid w = Some (x, s)" "live_status s" "i = task_place m x s"
        using tasks_soundD [OF D(5), of rid i] h cl by auto
      then have "core rid ?w = core rid w" by (auto simp: core_AddReq core_def [of rid w])
      then show ?thesis using c by auto
    qed
  qed (use D cl in simp_all)
next
  case (set_route es w rid a route)
  then have I: "reg_inv m w" by simp
  let ?w = "rm_SetRoute rid route w"
  note D = reg_invD [OF I]
  have cl: "cluster ?w = cluster w" by (simp add: rm_SetRoute_def coord_simps Let_def split: option.splits)
  have na: "rid |\<notin>| GetTasksById i (cluster w)" for i
    using set_route.prems by simp
  show ?case
  proof (rule reg_inv_one [OF I, where rid = rid])
    show "omap_ok (reqIdMap (reqs ?w))" using D(3) set_route.hyps(2) by (auto simp: rm_SetRoute_def coord_simps Let_def)
    show "core r ?w = core r w" if "r \<noteq> rid" for r using that by (simp add: core_SetRoute)
    show "fst x \<noteq> snd x" if h: "core rid ?w = Some (x, s)" "s REPEATED \<noteq> []" "IsPDSeparateMode m" for x s
      using that set_route.prems set_route.hyps(2) by (auto simp: core_SetRoute core_def [of rid w] ra_HasState_def)
    show "\<exists>x s. core rid ?w = Some (x, s) \<and> live_status s \<and> i = task_place m x s" if "rid |\<in>| GetTasksById i (cluster ?w)" for i
      using na that cl by simp
  qed (use D cl in simp_all)
next
  case (edit es w f rid)
  then have I: "reg_inv m w" by simp
  show ?case
    by (rule reg_inv_frame [OF I])
      (use edit.hyps(2) reg_invD(3) [OF I] in \<open>auto simp: coord_simps keeps_core_def core_on_req\<close>)
next
  case (update es w rid a st t)
  then have I: "reg_inv m w" by simp
  show ?case by (rule reg_inv_update [OF I update.hyps(2)]) (use update.prems in simp)
next
  case (arrive es w)
  then have I: "reg_inv m w" by simp
  show ?case
    by (rule reg_inv_frame [OF I]) (use reg_invD(3) [OF I] in \<open>simp_all add: SetReqArriveNum_def coord_simps\<close>)
next
  case (release es w maxReqs)
  then have I: "reg_inv m w" by simp
  note D = reg_invD [OF I] and R = core_release [OF reg_invD(3) [OF I], where maxReqs = maxReqs]
  have "routes_ok m (ReleaseFinishedRequest maxReqs w)"
    using D(4) by (auto simp: routes_ok_def R(1) split: option.splits if_splits)
  moreover have "tasks_sound m (ReleaseFinishedRequest maxReqs w)"
    unfolding tasks_sound_def R(2)
  proof (intro allI impI)
    fix i r assume "r |\<in>| GetTasksById i (cluster w)"
    from tasks_soundD [OF D(5) this] show "\<exists>x s. core r (ReleaseFinishedRequest maxReqs w) = Some (x, s) \<and> live_status s \<and> i = task_place m x s"
      by (auto simp: R(1) live_status_def)
  qed
  ultimately show ?case using D(1,2) R(2,3) by (simp add: reg_inv_def)
qed

subsection \<open>Statistics\<close>

definition live_reqs :: "coord \<Rightarrow> string set" where
  "live_reqs w = {r. \<exists>x s. core r w = Some (x, s) \<and> s FINISH = [] \<and> s EXCEPTION = []}"

lemma finite_live_reqs: "finite (live_reqs w)"
proof (rule finite_subset)
  show "live_reqs w \<subseteq> dom (map_of (reqIdMap (reqs w)))" by (auto simp: live_reqs_def core_def GetReqInfo_def)
qed (rule finite_dom_map_of)

lemma live_reqs_cong: "(\<And>r. core r w' = core r w) \<Longrightarrow> live_reqs w' = live_reqs w"
  by (simp add: live_reqs_def)

definition stat_ok :: "coord \<Rightarrow> bool" where
  "stat_ok w \<longleftrightarrow> numSuccessRequests (reqs w) + numFailRequests (reqs w) + word_of_nat (card (live_reqs w)) = numAllRequests (reqs w)"

definition same_counts :: "coord \<Rightarrow> coord \<Rightarrow> bool" where
  "same_counts w w' \<longleftrightarrow> numSuccessRequests (reqs w') = numSuccessRequests (reqs w) \<and> numFailRequests (reqs w') = numFailRequests (reqs w)
     \<and> numAllRequests (reqs w') = numAllRequests (reqs w)"

lemma stat_ok_frame: "stat_ok w \<Longrightarrow> same_counts w w' \<Longrightarrow> live_reqs w' = live_reqs w \<Longrightarrow> stat_ok w'"
  by (simp add: stat_ok_def same_counts_def)

lemma counts_action:
  "st \<noteq> FINISH \<Longrightarrow> st \<noteq> EXCEPTION \<Longrightarrow> st \<noteq> RETRY \<Longrightarrow> same_counts w (state_action m t rid st w)"
  by (cases st) (simp_all add: same_counts_def state_action_def ReqArrive_def ReqRepeated_def ReqFinishFirstToken_def Let_def coord_simps
      split: option.splits)

lemma counts_clear:
  assumes "GetReqInfo rid w = Some a"
  shows "numAllRequests (reqs (ClearReq m rid st t w)) = numAllRequests (reqs w)"
    "numSuccessRequests (reqs (ClearReq m rid st t w)) = numSuccessRequests (reqs w) + (if \<not> req_ended a \<and> st = FINISH then 1 else 0)"
    "numFailRequests (reqs (ClearReq m rid st t w)) = numFailRequests (reqs w) + (if \<not> req_ended a \<and> st \<noteq> FINISH then 1 else 0)"
  using assms by (simp_all add: ClearReq_def Let_def coord_simps)

lemma counts_UpdateState:
  "GetReqInfo rid w = Some a \<Longrightarrow> same_counts (state_action m t rid st w) (rm_UpdateState m t rid st w)"
  by (simp add: same_counts_def rm_UpdateState_def coord_simps)

lemma live_UpdateState:
  assumes "GetReqInfo rid w = Some a"
  shows "live_reqs (rm_UpdateState m t rid st w) = (if st = FINISH \<or> st = EXCEPTION then live_reqs w - {rid} else live_reqs w)"
  using assms by (auto simp: live_reqs_def core_UpdateState core_def [of rid w])

lemma in_live: "GetReqInfo rid w = Some a \<Longrightarrow> rid \<in> live_reqs w \<longleftrightarrow> \<not> req_ended a"
  by (auto simp: live_reqs_def core_def req_ended_def ra_HasState_def)

lemma stat_ok_update:
  assumes "stat_ok w" and "GetReqInfo rid w = Some a" and "st \<noteq> RETRY"
  shows "stat_ok (rm_UpdateState m t rid st w)"
proof (cases "st = FINISH \<or> st = EXCEPTION")
  case True
  then have s: "state_action m t rid st w = ClearReq m rid st t w" by (auto simp: state_action_def)
  note C = counts_clear [OF assms(2), of m st t, folded s] and U = counts_UpdateState [OF assms(2), of m t st, unfolded same_counts_def]
  have L: "live_reqs (rm_UpdateState m t rid st w) = live_reqs w - {rid}" using True live_UpdateState [OF assms(2)] by simp
  show ?thesis
  proof (cases "req_ended a")
    case e: True
    then have "live_reqs (rm_UpdateState m t rid st w) = live_reqs w" using L in_live [OF assms(2)] by auto
    then show ?thesis using assms(1) U C e by (simp add: stat_ok_def)
  next
    case False
    then have r: "rid \<in> live_reqs w" using in_live [OF assms(2)] by simp
    then have "card (live_reqs w) = Suc (card (live_reqs (rm_UpdateState m t rid st w)))"
      using L finite_live_reqs [of w] by (metis card.remove)
    then show ?thesis using assms(1) U C False True by (auto simp: stat_ok_def algebra_simps)
  qed
next
  case False
  then have "same_counts w (state_action m t rid st w)" using counts_action assms(3) by blast
  then have "same_counts w (rm_UpdateState m t rid st w)" using counts_UpdateState [OF assms(2), of m t st] by (simp add: same_counts_def)
  then show ?thesis using False live_UpdateState [OF assms(2)] by (intro stat_ok_frame [OF assms(1)]) simp_all
qed

lemma stat_ok_run: "reg_run m es w \<Longrightarrow> \<forall>e \<in> set es. in_order m e \<and> (\<forall>a. e \<noteq> ReportedState RETRY a) \<Longrightarrow> stat_ok w"
proof (induction rule: reg_run.induct)
  case (start pre)
  show ?case by (simp add: stat_ok_def live_reqs_def core_def GetReqInfo_def new_ReqManage_def)
next
  case (add_instance es w ip port i role model)
  then have I: "stat_ok w" by simp
  show ?case by (rule stat_ok_frame [OF I]) (simp_all add: same_counts_def live_reqs_def coord_simps)
next
  case (cluster_op es w op)
  then have I: "stat_ok w" by simp
  show ?case by (rule stat_ok_frame [OF I]) (simp_all add: same_counts_def live_reqs_def coord_simps)
next
  case (add_req es w route0 rid ty conn req)
  then have I: "stat_ok w" by simp
  let ?w = "snd (rm_AddReq route0 rid ty conn req w)"
  show ?case
  proof (cases "GetReqInfo rid w")
    case None
    then have "live_reqs ?w = insert rid (live_reqs w)" "rid \<notin> live_reqs w"
      by (auto simp: live_reqs_def core_AddReq core_def [of rid w] split: if_splits)
    then have "card (live_reqs ?w) = Suc (card (live_reqs w))" using finite_live_reqs [of w] by simp
    moreover have "numAllRequests (reqs ?w) = numAllRequests (reqs w) + 1" "numSuccessRequests (reqs ?w) = numSuccessRequests (reqs w)"
      "numFailRequests (reqs ?w) = numFailRequests (reqs w)" using None by (simp_all add: rm_AddReq_def coord_simps)
    ultimately show ?thesis using I by (simp add: stat_ok_def algebra_simps)
  qed (use I in \<open>simp add: rm_AddReq_def\<close>)
next
  case (set_route es w rid a route)
  then have I: "stat_ok w" by simp
  have "live_reqs (rm_SetRoute rid route w) = live_reqs w" by (auto simp: live_reqs_def core_SetRoute)
  then show ?case
    by (intro stat_ok_frame [OF I]) (simp_all add: same_counts_def rm_SetRoute_def Let_def coord_simps split: option.splits)
next
  case (edit es w f rid)
  then have I: "stat_ok w" by simp
  have "live_reqs (on_req rid f w) = live_reqs w"
    by (rule live_reqs_cong) (use edit.hyps(2) in \<open>simp add: keeps_core_def core_on_req\<close>)
  then show ?case by (intro stat_ok_frame [OF I]) (simp_all add: same_counts_def coord_simps)
next
  case (update es w rid a st t)
  then have I: "stat_ok w" by simp
  show ?case by (rule stat_ok_update [OF I update.hyps(2)]) (use update.prems in auto)
next
  case (arrive es w)
  then have I: "stat_ok w" by simp
  show ?case by (rule stat_ok_frame [OF I]) (simp_all add: same_counts_def live_reqs_def SetReqArriveNum_def coord_simps)
next
  case (release es w maxReqs)
  then have I: "stat_ok w" by simp
  have c: "reqs (fold close_finished es u) = reqs u" for es u
    by (induction es arbitrary: u) (auto simp: close_finished_def coord_simps split: option.splits)
  have "omap_ok (reqIdMap (reqs w))" using reg_invD(3) [OF reg_inv_run [OF release.hyps]] release.prems by simp
  then have "live_reqs (ReleaseFinishedRequest maxReqs w) = live_reqs w"
    by (auto simp: live_reqs_def core_release(1) split: option.splits)
  then show ?case
    by (intro stat_ok_frame [OF I])
      (simp_all add: same_counts_def ReleaseFinishedRequest_def CheckAndHandleReqCongestionAlarm_def Let_def coord_simps c)
qed

subsection \<open>Properties\<close>

text \<open>C7: the task set of an instance contains only requests that were forwarded and have not ended, each at exactly one instance: its prefill
  instance, or, in a separated deployment from the first token on, its decode instance. This holds in every run of the registry
  whose events are in order: instances are registered under addresses that are not in use, a request gets its route while it
  occupies no instance, it is forwarded (again, after a retry) only before its end and before its first token and to two different
  instances, and its first token is reported once, after it was forwarded. The code does not enforce this order; the lemmas on other
  runs below show how tasks are left behind when a flex instance serves both halves of a request or a request is forwarded after its
  end or, on a retry, after its first token.\<close>

theorem tasks_belong_to_live_requests:
  assumes "reg_run m es w" and "\<forall>e \<in> set es. in_order m e" and "r |\<in>| GetTasksById i (cluster w)"
  shows "\<exists>a. GetReqInfo r w = Some a \<and> ra_HasState REPEATED a \<and> \<not> req_ended a
    \<and> i = (if IsPDSeparateMode m \<and> ra_HasState FIRST_TOKEN_FINISH a then snd (ra_route a) else fst (ra_route a))"
proof -
  obtain x s where c: "core r w = Some (x, s)" "live_status s" "i = task_place m x s"
    using tasks_soundD [OF reg_invD(5) [OF reg_inv_run [OF assms(1,2)]] assms(3)] by blast
  then obtain a where "GetReqInfo r w = Some a" "ra_route a = x" "ra_status a = s" by (auto simp: core_Some)
  with c(2,3) show ?thesis by (auto simp: live_status_def task_place_def req_ended_def ra_HasState_def)
qed

text \<open>The requests counted as successful, the requests counted as failed and the requests still running add up to
  the requests accepted, as long as no request is retried.\<close>

lemma request_statistics_add_up:
  assumes "reg_run m es w" and "\<forall>e \<in> set es. in_order m e \<and> (\<forall>a. e \<noteq> ReportedState RETRY a)"
  shows "numSuccessRequests (reqs w) + numFailRequests (reqs w) + word_of_nat (card {r. \<exists>a. GetReqInfo r w = Some a \<and> \<not> req_ended a})
    = numAllRequests (reqs w)"
proof -
  have "live_reqs w = {r. \<exists>a. GetReqInfo r w = Some a \<and> \<not> req_ended a}"
    by (auto simp: live_reqs_def core_def req_ended_def ra_HasState_def)
  then show ?thesis using stat_ok_run [OF assms] by (simp add: stat_ok_def)
qed

text \<open>An example run: two instances, one request forwarded to the first.\<close>

definition ex_w :: coord where
  "ex_w = rm_UpdateState ''pd_separate'' 7 ''r'' REPEATED (rm_SetRoute ''r'' (1, 2) (snd (rm_AddReq (0, 0) ''r'' OPENAI (Some 5) ''q''
     (on_cluster (\<lambda>c. snd (cn_AddInstance 2 ''10.0.0.2'' ''80'' DECODE_INSTANCE ''m'' c))
       (on_cluster (\<lambda>c. snd (cn_AddInstance 1 ''10.0.0.1'' ''80'' PREFILL_INSTANCE ''m'' c))
         \<lparr>cluster = new_ClusterNodes, reqs = new_ReqManage 0, effects = []\<rparr>)))))"

lemmas ex_w_simps = on_cluster_def on_reqs_def emit_def cn_AddInstance_def new_ClusterNodes_def new_InstanceInfo_def
  rm_AddReq_def rm_SetRoute_def GetReqInfo_def new_ReqAgent_def new_ReqManage_def on_req_def ra_SetRoute_def

lemma ex_w_run: "\<exists>es. reg_run ''pd_separate'' es ex_w \<and> (\<forall>e \<in> set es. in_order ''pd_separate'' e)"
proof -
  let ?w0 = "\<lparr>cluster = new_ClusterNodes, reqs = new_ReqManage 0, effects = []\<rparr>"
  let ?w1 = "on_cluster (\<lambda>c. snd (cn_AddInstance 1 ''10.0.0.1'' ''80'' PREFILL_INSTANCE ''m'' c)) ?w0"
  let ?w2 = "on_cluster (\<lambda>c. snd (cn_AddInstance 2 ''10.0.0.2'' ''80'' DECODE_INSTANCE ''m'' c)) ?w1"
  let ?w3 = "snd (rm_AddReq (0, 0) ''r'' OPENAI (Some 5) ''q'' ?w2)" and ?w4 = "rm_SetRoute ''r'' (1, 2) (snd (rm_AddReq (0, 0) ''r'' OPENAI (Some 5) ''q'' ?w2))"
  obtain a where a: "GetReqInfo ''r'' ?w3 = Some a" "\<not> ra_HasState REPEATED a" by (simp add: ex_w_simps ra_HasState_def)
  obtain b where b: "GetReqInfo ''r'' ?w4 = Some b" "\<not> ra_HasState FIRST_TOKEN_FINISH b" "\<not> req_ended b" "ra_route b = (1, 2)"
    by (simp add: ex_w_simps ra_HasState_def req_ended_def)
  have run: "reg_run ''pd_separate'' [ReportedState REPEATED b, RoutedRequest ''r'' (1, 2) a (cluster ?w3),
      AddedInstance ''10.0.0.2'' ''80'' (cluster ?w1), AddedInstance ''10.0.0.1'' ''80'' (cluster ?w0)] ex_w"
    unfolding ex_w_def
    by (rule reg_run.update [OF _ b(1)], rule reg_run.set_route [OF _ a(1)], rule reg_run.add_req, rule reg_run.add_instance,
        rule reg_run.add_instance, rule reg_run.start)
  have "address_free ''10.0.0.1'' ''80'' (cluster ?w0)" "address_free ''10.0.0.2'' ''80'' (cluster ?w1)"
    by (simp_all add: address_free_def ex_w_simps)
  moreover have "''r'' |\<notin>| GetTasksById i (cluster ?w3)" for i by (simp add: ex_w_simps GetTasksById_def cn_get_def)
  ultimately have "\<forall>e \<in> set [ReportedState REPEATED b, RoutedRequest ''r'' (1, 2) a (cluster ?w3),
      AddedInstance ''10.0.0.2'' ''80'' (cluster ?w1), AddedInstance ''10.0.0.1'' ''80'' (cluster ?w0)]. in_order ''pd_separate'' e"
    using a(2) b(2-4) by (simp add: legal_def)
  with run show ?thesis by blast
qed

lemma ex_w_task: "''r'' |\<in>| GetTasksById 1 (cluster ex_w)"
  by (simp add: ex_w_def rm_UpdateState_def state_action_def ReqRepeated_def ra_UpdateState_def ex_w_simps AddTask_def upd_instance_def
      GetTasksById_def cn_get_def)

theorem tasks_belong_to_live_requests_witness:
  "\<exists>a. GetReqInfo ''r'' ex_w = Some a \<and> ra_HasState REPEATED a \<and> \<not> req_ended a"
proof -
  obtain es where "reg_run ''pd_separate'' es ex_w" "\<forall>e \<in> set es. in_order ''pd_separate'' e" using ex_w_run by blast
  from tasks_belong_to_live_requests [OF this ex_w_task] show ?thesis by blast
qed

subsection \<open>Outside of such runs\<close>

text \<open>When the two halves of a flex instance serve the same request, their addresses are equal, and the end of the
  request only takes it off the prefill half: the decode half keeps the task for good, even after the request has
  been released.\<close>

lemma flex_task_never_released:
  fixes w m rid t t' mx
  assumes "omap_ok (reqIdMap (reqs w))" and "IsPDSeparateMode m" and "GetReqInfo rid w = Some a" and "ra_route a = (p, d)" and "p \<noteq> d"
    and "same_address (p, d) w" and "HasInstance d (cluster w)" and "\<not> req_ended a" and "ra_HasState REPEATED a"
  defines "w' \<equiv> ReleaseFinishedRequest mx (rm_UpdateState m t' rid FINISH (rm_UpdateState m t rid FIRST_TOKEN_FINISH w))"
  shows "rid |\<in>| GetTasksById d (cluster w') \<and> GetReqInfo rid w' = None"
proof -
  let ?w1 = "rm_UpdateState m t rid FIRST_TOKEN_FINISH w" let ?w2 = "rm_UpdateState m t' rid FINISH ?w1"
  have c1: "core rid ?w1 = Some ((p, d), (ra_status a)(FIRST_TOKEN_FINISH := ra_status a FIRST_TOKEN_FINISH @ [t]))"
    using core_UpdateState [of rid m t rid FIRST_TOKEN_FINISH w] assms(3,4) by (simp add: core_def [of rid w])
  then obtain a1 where a1: "GetReqInfo rid ?w1 = Some a1" "ra_route a1 = (p, d)"
      "ra_status a1 = (ra_status a)(FIRST_TOKEN_FINISH := ra_status a FIRST_TOKEN_FINISH @ [t])" by (auto simp: core_Some)
  have e1: "\<not> req_ended a1" "ra_HasState REPEATED a1" using a1(3) assms(8,9) by (auto simp: req_ended_def ra_HasState_def)
  have t1: "rid |\<in>| GetTasksById d (cluster ?w1)"
    using cluster_UpdateState [OF assms(3), of m t FIRST_TOKEN_FINISH] tasks_first_token [OF assms(3,2)] assms(4,7) by simp
  have same: "same_address (p, d) ?w1"
    using assms(3,4,6) by (simp add: cluster_UpdateState same_address_def state_action_def ReqFinishFirstToken_def Let_def coord_simps cn_simps)
  have "GetTasksById d (cluster ?w2) = GetTasksById d (cluster (clear_tasks m rid a1 ?w1))"
    using cluster_UpdateState [OF a1(1), of m t' FINISH] tasks_after_clear [OF a1(1) e1] by (simp add: state_action_def)
  also have "\<dots> = GetTasksById d (cluster ?w1)" using a1(2) same assms(5) by (simp add: clear_tasks_def coord_simps cn_simps)
  finally have t2: "rid |\<in>| GetTasksById d (cluster ?w2)" using t1 by simp
  have ok: "omap_ok (reqIdMap (reqs ?w2))"
    using assms(1,3) a1(1) by (simp add: rm_UpdateState_def omap_ok_on_req omap_ok_action)
  have "core rid ?w2 = Some ((p, d), (ra_status a1)(FINISH := ra_status a1 FINISH @ [t']))"
    using core_UpdateState [of rid m t' rid FINISH ?w1] a1 by (simp add: core_def [of rid ?w1])
  then have "core rid w' = None" unfolding w'_def core_release(1) [OF ok] by simp
  then show ?thesis using t2 core_release(2) [OF ok] by (simp add: w'_def core_None)
qed

definition ex_flex_w :: coord where
  "ex_flex_w = rm_UpdateState ''pd_separate'' 7 ''r'' REPEATED (rm_SetRoute ''r'' (1, 2) (snd (rm_AddReq (0, 0) ''r'' OPENAI (Some 5) ''q''
     (on_cluster (\<lambda>c. snd (cn_AddInstance 2 ''10.0.0.1'' ''80'' DECODE_INSTANCE ''m'' c))
       (on_cluster (\<lambda>c. snd (cn_AddInstance 1 ''10.0.0.1'' ''80'' PREFILL_INSTANCE ''m'' c))
         \<lparr>cluster = new_ClusterNodes, reqs = new_ReqManage 0, effects = []\<rparr>)))))"

text \<open>A request that was ended while it was being sent is still entered in the task set of its prefill instance when
  the sending completes, and stays there after it has been released.\<close>

lemma late_forward_leaks_task:
  fixes w rid m t mx
  assumes "omap_ok (reqIdMap (reqs w))" and "GetReqInfo rid w = Some a" and "req_ended a" and "HasInstance (fst (ra_route a)) (cluster w)"
  defines "w' \<equiv> ReleaseFinishedRequest mx (rm_UpdateState m t rid REPEATED w)"
  shows "rid |\<in>| GetTasksById (fst (ra_route a)) (cluster w') \<and> GetReqInfo rid w' = None"
proof -
  let ?w = "rm_UpdateState m t rid REPEATED w"
  have ok: "omap_ok (reqIdMap (reqs ?w))" using assms(1,2) by (simp add: rm_UpdateState_def omap_ok_on_req omap_ok_action)
  have "core rid ?w = Some (ra_route a, (ra_status a)(REPEATED := ra_status a REPEATED @ [t]))"
    using core_UpdateState [of rid m t rid REPEATED w] assms(2) by (simp add: core_def [of rid w])
  then have "core rid w' = None" using assms(3) unfolding w'_def core_release(1) [OF ok] by (auto simp: req_ended_def ra_HasState_def)
  moreover have "rid |\<in>| GetTasksById (fst (ra_route a)) (cluster ?w)"
    using cluster_UpdateState [OF assms(2), of m t REPEATED] tasks_repeated [OF assms(2)] assms(4) by simp
  ultimately show ?thesis using core_release(2) [OF ok] by (simp add: w'_def core_None)
qed

text \<open>A request that is forwarded again after its first token, as a retry does, and ends before the next first token leaves its task at the prefill
  instance: the state of the first attempt makes \<^verbatim>\<open>ClearReq\<close> take it off the decode instance only.\<close>

lemma retry_after_first_token_leaks_task:
  fixes w rid m t t' mx
  assumes "omap_ok (reqIdMap (reqs w))" and "IsPDSeparateMode m" and "GetReqInfo rid w = Some a" and "ra_route a = (p, d)" and "p \<noteq> d"
    and "\<not> same_address (p, d) w" and "HasInstance p (cluster w)" and "\<not> req_ended a" and "ra_HasState FIRST_TOKEN_FINISH a"
  defines "w' \<equiv> ReleaseFinishedRequest mx (rm_UpdateState m t' rid EXCEPTION (rm_UpdateState m t rid REPEATED w))"
  shows "rid |\<in>| GetTasksById p (cluster w') \<and> GetReqInfo rid w' = None"
proof -
  let ?w1 = "rm_UpdateState m t rid REPEATED w" let ?w2 = "rm_UpdateState m t' rid EXCEPTION ?w1"
  have c1: "core rid ?w1 = Some ((p, d), (ra_status a)(REPEATED := ra_status a REPEATED @ [t]))"
    using core_UpdateState [of rid m t rid REPEATED w] assms(3,4) by (simp add: core_def [of rid w])
  then obtain a1 where a1: "GetReqInfo rid ?w1 = Some a1" "ra_route a1 = (p, d)"
      "ra_status a1 = (ra_status a)(REPEATED := ra_status a REPEATED @ [t])" by (auto simp: core_Some)
  have e1: "\<not> req_ended a1" "ra_HasState REPEATED a1" "ra_HasState FIRST_TOKEN_FINISH a1" using a1(3) assms(8,9) by (auto simp: req_ended_def ra_HasState_def)
  have t1: "rid |\<in>| GetTasksById p (cluster ?w1)"
    using cluster_UpdateState [OF assms(3), of m t REPEATED] tasks_repeated [OF assms(3)] assms(4,7) by simp
  have same: "\<not> same_address (p, d) ?w1"
    using assms(3,4,6) by (simp add: cluster_UpdateState same_address_def state_action_def ReqRepeated_def Let_def coord_simps cn_simps)
  have "GetTasksById p (cluster ?w2) = GetTasksById p (cluster (clear_tasks m rid a1 ?w1))"
    using cluster_UpdateState [OF a1(1), of m t' EXCEPTION] tasks_after_clear [OF a1(1) e1(1,2)] by (simp add: state_action_def)
  also have "\<dots> = GetTasksById p (cluster ?w1)" using a1(2) same assms(2,5) e1(3) by (simp add: clear_tasks_def coord_simps cn_simps)
  finally have t2: "rid |\<in>| GetTasksById p (cluster ?w2)" using t1 by simp
  have ok: "omap_ok (reqIdMap (reqs ?w2))"
    using assms(1,3) a1(1) by (simp add: rm_UpdateState_def omap_ok_on_req omap_ok_action)
  have "core rid ?w2 = Some ((p, d), (ra_status a1)(EXCEPTION := ra_status a1 EXCEPTION @ [t']))"
    using core_UpdateState [of rid m t' rid EXCEPTION ?w1] a1 by (simp add: core_def [of rid ?w1])
  then have "core rid w' = None" unfolding w'_def core_release(1) [OF ok] by simp
  then show ?thesis using t2 core_release(2) [OF ok] by (simp add: w'_def core_None)
qed

subsection \<open>The congestion alarm\<close>

lemma lit_ratio: "0 \<le> x \<Longrightarrow> x < 1 \<Longrightarrow> \<exists>q. f64_lit x = Fin q \<and> 0 \<le> q \<and> \<bar>q - x\<bar> \<le> 1 / 2 ^ 54"
  using rnd64_error [of x 0] by (auto simp: f64_lit_def power_int_def power_divide)

lemma threshold_defined:
  assumes "unat maxReqs < 2 ^ 50" and "0 \<le> x" and "x < 99 / 100"
  shows "\<exists>n. scaled (f64_lit x) maxReqs = Some n \<and> congestion_threshold x maxReqs = n
    \<and> rat_of_nat (unat n) \<le> rat_of_nat (unat maxReqs) * x + 1 / 4 \<and> rat_of_nat (unat maxReqs) * x - 5 / 4 < rat_of_nat (unat n)"
proof -
  obtain q where q: "f64_lit x = Fin q" "0 \<le> q" "\<bar>q - x\<bar> \<le> 1 / 2 ^ 54" using lit_ratio [OF assms(2)] assms(3) by auto
  have "(1::rat) / 2 ^ 54 < 1 / 100" by (simp add: power_divide)
  then have "q \<le> 1" using q(3) assms(3) by linarith
  then obtain n where n: "scaled (Fin q) maxReqs = Some n" "rat_of_nat (unat n) \<le> rat_of_nat (unat maxReqs) * q + 1 / 8"
    "rat_of_nat (unat maxReqs) * q - 9 / 8 < rat_of_nat (unat n)" using scaled_nat [OF assms(1) q(2)] by blast
  let ?m = "rat_of_nat (unat maxReqs)"
  have "?m < 2 ^ 50" using assms(1) by (metis of_nat_less_iff of_nat_numeral of_nat_power)
  then have "?m * \<bar>q - x\<bar> \<le> 2 ^ 50 * (1 / 2 ^ 54)" using q(3) by (intro mult_mono) auto
  moreover have "\<bar>?m\<bar> = ?m" by (rule abs_of_nat)
  ultimately have "\<bar>?m * (q - x)\<bar> \<le> 1 / 16" unfolding abs_mult by simp
  then have "\<bar>?m * q - ?m * x\<bar> \<le> 1 / 16" by (simp add: algebra_simps)
  then have "rat_of_nat (unat n) \<le> ?m * x + 1 / 4" "?m * x - 5 / 4 < rat_of_nat (unat n)" using n(2,3) by linarith+
  then show ?thesis using n(1) q(1) by (simp add: congestion_threshold_def)
qed

lemma thresholds_ordered:
  assumes "unat maxReqs < 2 ^ 50" and "20 \<le> unat maxReqs"
  shows "unat (congestion_threshold (75 / 100) maxReqs) \<le> unat (congestion_threshold (85 / 100) maxReqs)"
proof -
  obtain a b where ab: "congestion_threshold (75 / 100) maxReqs = a" "rat_of_nat (unat a) \<le> rat_of_nat (unat maxReqs) * (75 / 100) + 1 / 4"
    "congestion_threshold (85 / 100) maxReqs = b" "rat_of_nat (unat maxReqs) * (85 / 100) - 5 / 4 < rat_of_nat (unat b)"
    using threshold_defined [OF assms(1), of "75 / 100"] threshold_defined [OF assms(1), of "85 / 100"] by auto
  have "rat_of_nat 20 \<le> rat_of_nat (unat maxReqs)" using assms(2) by (simp only: of_nat_le_iff)
  then have "rat_of_nat (unat a) < rat_of_nat (unat b + 1)" using ab(2,4) unfolding of_nat_add of_nat_1 of_nat_numeral by linarith
  then show ?thesis using ab(1,3) by (simp only: of_nat_less_iff)
qed

text \<open>The congestion alarm is on after a check when the number of requests has reached 85 percent of the limit, off
  when it is below 75 percent, and unchanged in between; a message is sent exactly when it changes.\<close>

lemma congestion_alarm_hysteresis:
  fixes maxReqs w
  assumes "20 \<le> unat maxReqs" and "unat maxReqs < 2 ^ 50"
  defines "w' \<equiv> CheckAndHandleReqCongestionAlarm maxReqs w"
  shows "inReqCongestionAlarmState (reqs w') = (if unat (congestion_threshold (85 / 100) maxReqs) \<le> GetReqNum w then True
      else if GetReqNum w < unat (congestion_threshold (75 / 100) maxReqs) then False else inReqCongestionAlarmState (reqs w))
    \<and> effects w' = effects w @ (if inReqCongestionAlarmState (reqs w') = inReqCongestionAlarmState (reqs w) then []
        else [CongestionAlarm (inReqCongestionAlarmState (reqs w'))])"
  using thresholds_ordered [OF assms(2,1)]
  by (auto simp: w'_def CheckAndHandleReqCongestionAlarm_def Let_def emit_def on_reqs_def)

end
