(* ===== verification/Node_Store.thy ===== *)
theory Node_Store
  imports Digs_Types
begin

text \<open>
  \<^verbatim>\<open>coordinator/scheduler/default_scheduler/node_store/NodeStore.{h,cpp}\<close>: the instances the default
  scheduler knows. Every operation runs under the store's mutex and is a function of the store.
  Reading a \<^verbatim>\<open>std::map\<close> with \<^verbatim>\<open>[]\<close> creates a missing entry, so two of the queries change the store.
\<close>

record NodeStore =
  nodeIndexList :: "u64 list"
  pNodeList :: "u64 list"
  clusterStaticNodeMap :: "(u64, DIGSInstanceStaticInfo) omap"
  clusterDynamicMap :: "(u64, DIGSInstanceDynamicInfo) omap"
  d2PminiGroupNodes :: "(u64, u64 list) omap"
  p2DminiGroupNodes :: "(u64, u64 list) omap"

definition new_NodeStore :: NodeStore where
  "new_NodeStore = \<lparr>nodeIndexList = [], pNodeList = [], clusterStaticNodeMap = [], clusterDynamicMap = [],
     d2PminiGroupNodes = [], p2DminiGroupNodes = []\<rparr>"

subsection \<open>Operations\<close>

definition add_node :: "DIGSInstanceStaticInfo \<Rightarrow> NodeStore \<Rightarrow> NodeStore" where
  "add_node ins s =
     (if map_of (clusterStaticNodeMap s) (st_id ins) \<noteq> None then s
      else let s1 = s\<lparr>clusterStaticNodeMap := omap_put (st_id ins) ins (clusterStaticNodeMap s),
                      nodeIndexList := nodeIndexList s @ [st_id ins]\<rparr>
           in if st_role ins = PREFILL_INSTANCE then s1\<lparr>pNodeList := pNodeList s1 @ [st_id ins]\<rparr> else s1)"

definition AddNodes :: "DIGSInstanceStaticInfo list \<Rightarrow> NodeStore \<Rightarrow> NodeStore" where
  "AddNodes instances = fold add_node instances"

definition remove_node :: "u64 \<Rightarrow> NodeStore \<Rightarrow> NodeStore" where
  "remove_node i s = s\<lparr>clusterStaticNodeMap := omap_erase i (clusterStaticNodeMap s),
     nodeIndexList := removeAll i (nodeIndexList s), pNodeList := removeAll i (pNodeList s)\<rparr>"

definition RemoveNodes :: "u64 list \<Rightarrow> NodeStore \<Rightarrow> NodeStore" where
  "RemoveNodes instances = fold remove_node instances"

text \<open>\<open>m[k].push_back(v)\<close>.\<close>

definition push_at :: "u64 \<Rightarrow> u64 \<Rightarrow> (u64, u64 list) omap \<Rightarrow> (u64, u64 list) omap" where
  "push_at k v m = omap_put k (omap_get [] m k @ [v]) m"

text \<open>The role is read through \<^verbatim>\<open>clusterStaticNodeMap[ins.id]\<close>, which creates a default entry for an
  instance that is not registered.\<close>

definition UpdateD2PRelations :: "DIGSInstanceDynamicInfo \<Rightarrow> NodeStore \<Rightarrow> NodeStore" where
  "UpdateD2PRelations ins s =
     (let i = dy_id ins;
          s1 = s\<lparr>clusterStaticNodeMap := omap_insert i (default_static 0 0) (clusterStaticNodeMap s)\<rparr>
      in if st_role (omap_get (default_static 0 0) (clusterStaticNodeMap s1) i) = DECODE_INSTANCE
         then let m = (if map_of (d2PminiGroupNodes s1) i \<noteq> None
                       then omap_put i [] (d2PminiGroupNodes s1) else d2PminiGroupNodes s1)
              in s1\<lparr>d2PminiGroupNodes := fold (push_at i) (dy_peers ins) m\<rparr>
         else s1)"

definition invert_peers :: "(u64, u64 list) omap \<Rightarrow> (u64, u64 list) omap" where
  "invert_peers d2p = fold (\<lambda>(d, peers). fold (\<lambda>p. push_at p d) peers) d2p []"

definition UpdateP2DRelations :: "NodeStore \<Rightarrow> NodeStore" where
  "UpdateP2DRelations s = s\<lparr>p2DminiGroupNodes := invert_peers (d2PminiGroupNodes s)\<rparr>"

definition update_node :: "DIGSInstanceDynamicInfo \<Rightarrow> NodeStore \<Rightarrow> NodeStore" where
  "update_node ins s =
     UpdateD2PRelations ins (s\<lparr>clusterDynamicMap := omap_put (dy_id ins) ins (clusterDynamicMap s)\<rparr>)"

definition DynamicUpdate :: "DIGSInstanceDynamicInfo list \<Rightarrow> NodeStore \<Rightarrow> NodeStore" where
  "DynamicUpdate instances s = UpdateP2DRelations (fold update_node instances s)"

definition GetNodeById ::
  "u64 \<Rightarrow> NodeStore \<Rightarrow> (DIGSInstanceStaticInfo \<times> DIGSInstanceDynamicInfo) option \<times> NodeStore" where
  "GetNodeById i s = (case map_of (clusterStaticNodeMap s) i of
       None \<Rightarrow> (None, s)
     | Some st \<Rightarrow>
         let s1 = s\<lparr>clusterDynamicMap := omap_insert i (default_dynamic 0) (clusterDynamicMap s)\<rparr>
         in (Some (st, omap_get (default_dynamic 0) (clusterDynamicMap s1) i), s1))"

definition GetNodeByIndex :: "u64 \<Rightarrow> NodeStore \<Rightarrow> u64 option" where
  "GetNodeByIndex nodeIndex s =
     (if length (nodeIndexList s) \<le> unat nodeIndex then None else Some (nodeIndexList s ! unat nodeIndex))"

definition IsNodeAvailable :: "u64 \<Rightarrow> NodeStore \<Rightarrow> bool" where
  "IsNodeAvailable i s \<longleftrightarrow> map_of (clusterStaticNodeMap s) i \<noteq> None"

subsection \<open>What a query sees\<close>

text \<open>The answer of \<open>GetNodeById\<close> as a function of the store, and the stores it does not distinguish.\<close>

definition node_view :: "NodeStore \<Rightarrow> u64 \<Rightarrow> (DIGSInstanceStaticInfo \<times> DIGSInstanceDynamicInfo) option" where
  "node_view s i = map_option (\<lambda>st. (st, omap_get (default_dynamic 0) (clusterDynamicMap s) i))
     (map_of (clusterStaticNodeMap s) i)"

definition same_nodes :: "NodeStore \<Rightarrow> NodeStore \<Rightarrow> bool" where
  "same_nodes s t \<longleftrightarrow> node_view t = node_view s \<and> nodeIndexList t = nodeIndexList s \<and> pNodeList t = pNodeList s
     \<and> clusterStaticNodeMap t = clusterStaticNodeMap s \<and> d2PminiGroupNodes t = d2PminiGroupNodes s
     \<and> p2DminiGroupNodes t = p2DminiGroupNodes s"

lemma same_nodes_refl [simp, intro]: "same_nodes s s"
  by (simp add: same_nodes_def)

lemma same_nodes_trans [trans]: "same_nodes s t \<Longrightarrow> same_nodes t u \<Longrightarrow> same_nodes s u"
  by (simp add: same_nodes_def)

lemma GetNodeById_view: "fst (GetNodeById i s) = node_view s i" and GetNodeById_same: "same_nodes s (snd (GetNodeById i s))"
proof -
  show "fst (GetNodeById i s) = node_view s i"
    by (auto simp: GetNodeById_def node_view_def omap_get_def omap_simps Let_def split: option.splits)
  show "same_nodes s (snd (GetNodeById i s))"
    by (auto simp: GetNodeById_def same_nodes_def node_view_def omap_get_def omap_simps Let_def fun_eq_iff
        split: option.splits)
qed

subsection \<open>Peer relations\<close>

lemma map_of_push_at [omap_simps]: "map_of (push_at k v m) = (map_of m)(k \<mapsto> omap_get [] m k @ [v])"
  by (simp add: push_at_def omap_simps)

lemma omap_ok_push_at [intro]: "omap_ok m \<Longrightarrow> omap_ok (push_at k v m)"
  by (auto simp: push_at_def)

lemma omap_ok_fold_push: "omap_ok m \<Longrightarrow> omap_ok (fold (push_at k) vs m)"
  by (induction vs arbitrary: m) auto

lemma omap_get_push_at: "omap_get [] (push_at k v m) k' = (if k' = k then omap_get [] m k @ [v] else omap_get [] m k')"
  by (simp add: omap_get_def push_at_def omap_simps)

lemma omap_get_fold_push: "omap_get [] (fold (push_at k) vs m) k' = (if k' = k then omap_get [] m k @ vs else omap_get [] m k')"
  by (induction vs arbitrary: m) (auto simp: omap_get_push_at)

lemma omap_get_fold_invert: "omap_get [] (fold (\<lambda>p. push_at p d) ps m) p = omap_get [] m p @ replicate (count_list ps p) d"
  by (induction ps arbitrary: m) (auto simp: omap_get_push_at replicate_append_same)

lemma omap_get_invert:
  "omap_get [] (fold (\<lambda>(d, peers). fold (\<lambda>p. push_at p d) peers) d2p m) p
    = omap_get [] m p @ concat (map (\<lambda>(d, ps). replicate (count_list ps p) d) d2p)"
  by (induction d2p arbitrary: m) (auto simp: omap_get_fold_invert)

lemma omap_ok_fold_invert: "omap_ok m \<Longrightarrow> omap_ok (fold (\<lambda>p. push_at p d) ps m)"
  by (induction ps arbitrary: m) auto

lemma omap_ok_invert: "omap_ok (invert_peers d2p)"
proof -
  have "omap_ok m \<Longrightarrow> omap_ok (fold (\<lambda>(d, peers). fold (\<lambda>p. push_at p d) peers) d2p m)" for m
    by (induction d2p arbitrary: m) (auto intro: omap_ok_fold_invert)
  then show ?thesis by (simp add: invert_peers_def)
qed

lemma in_invert_peers:
  assumes "omap_ok d2p"
  shows "d \<in> set (omap_get [] (invert_peers d2p) p) \<longleftrightarrow> p \<in> set (omap_get [] d2p d)"
proof -
  have e: "omap_get [] [] p = []" by (simp add: omap_get_def)
  have r: "set (replicate (count_list ps p) x) = (if p \<in> set ps then {x} else {})" for ps and x :: u64
    by (simp add: set_replicate_conv_if count_list_0_iff)
  have "set (omap_get [] (invert_peers d2p) p) = (\<Union>(x, ps) \<in> set d2p. if p \<in> set ps then {x} else {})"
    unfolding invert_peers_def omap_get_invert e by (simp add: r case_prod_unfold)
  then have "d \<in> set (omap_get [] (invert_peers d2p) p) \<longleftrightarrow> (\<exists>ps. (d, ps) \<in> set d2p \<and> p \<in> set ps)"
    by (force split: if_splits)
  also have "\<dots> \<longleftrightarrow> (\<exists>ps. map_of d2p d = Some ps \<and> p \<in> set ps)"
    using assms by (simp add: omap_in_set)
  finally show ?thesis by (auto simp: omap_get_def split: option.splits)
qed

subsection \<open>Invariant\<close>

definition is_prefill :: "NodeStore \<Rightarrow> u64 \<Rightarrow> bool" where
  "is_prefill s i \<longleftrightarrow> map_option st_role (map_of (clusterStaticNodeMap s) i) = Some PREFILL_INSTANCE"

definition ns_ok :: "NodeStore \<Rightarrow> bool" where
  "ns_ok s \<longleftrightarrow> omap_ok (clusterStaticNodeMap s) \<and> omap_ok (d2PminiGroupNodes s)
     \<and> distinct (nodeIndexList s) \<and> (\<forall>i \<in> set (nodeIndexList s). IsNodeAvailable i s)
     \<and> pNodeList s = filter (is_prefill s) (nodeIndexList s)
     \<and> p2DminiGroupNodes s = invert_peers (d2PminiGroupNodes s)"

lemma ns_ok_new [intro]: "ns_ok new_NodeStore"
  by (simp add: ns_ok_def new_NodeStore_def invert_peers_def)

lemma is_prefill_cong: "map_of (clusterStaticNodeMap t) i = map_of (clusterStaticNodeMap s) i \<Longrightarrow> is_prefill t i = is_prefill s i"
  by (simp add: is_prefill_def)

lemma ns_ok_add_node:
  assumes "ns_ok s"
  shows "ns_ok (add_node ins s)"
proof (cases "map_of (clusterStaticNodeMap s) (st_id ins)")
  case None
  let ?t = "add_node ins s"
  have m: "map_of (clusterStaticNodeMap ?t) = (map_of (clusterStaticNodeMap s))(st_id ins \<mapsto> ins)"
    and l: "nodeIndexList ?t = nodeIndexList s @ [st_id ins]"
    and p: "pNodeList ?t = pNodeList s @ (if st_role ins = PREFILL_INSTANCE then [st_id ins] else [])"
    using None by (auto simp: add_node_def omap_simps Let_def)
  have new: "st_id ins \<notin> set (nodeIndexList s)" using assms None by (auto simp: ns_ok_def IsNodeAvailable_def)
  have "filter (is_prefill ?t) (nodeIndexList s) = filter (is_prefill s) (nodeIndexList s)"
    using new by (intro filter_cong refl is_prefill_cong) (auto simp: m)
  moreover have "is_prefill ?t (st_id ins) \<longleftrightarrow> st_role ins = PREFILL_INSTANCE" by (simp add: is_prefill_def m)
  moreover have "omap_ok (clusterStaticNodeMap ?t)" "omap_ok (d2PminiGroupNodes ?t)"
    "p2DminiGroupNodes ?t = invert_peers (d2PminiGroupNodes ?t)"
    using assms None by (auto simp: ns_ok_def add_node_def Let_def)
  moreover have "\<forall>i \<in> set (nodeIndexList ?t). IsNodeAvailable i ?t"
    using assms by (auto simp: ns_ok_def IsNodeAvailable_def m l)
  ultimately show ?thesis using assms new by (simp add: ns_ok_def l p)
qed (use assms in \<open>simp add: add_node_def\<close>)

lemma ns_ok_remove_node:
  assumes "ns_ok s"
  shows "ns_ok (remove_node i s)"
proof -
  let ?t = "remove_node i s"
  have ok: "omap_ok (clusterStaticNodeMap s)" using assms by (simp add: ns_ok_def)
  have m: "map_of (clusterStaticNodeMap ?t) = (map_of (clusterStaticNodeMap s))(i := None)"
    and l: "nodeIndexList ?t = removeAll i (nodeIndexList s)" and p: "pNodeList ?t = removeAll i (pNodeList s)"
    using ok by (simp_all add: remove_node_def omap_simps)
  have "filter (is_prefill ?t) (removeAll i (nodeIndexList s)) = filter (is_prefill s) (removeAll i (nodeIndexList s))"
    by (intro filter_cong refl is_prefill_cong) (auto simp: m)
  moreover have "removeAll i (filter (is_prefill s) (nodeIndexList s)) = filter (is_prefill s) (removeAll i (nodeIndexList s))"
    by (simp add: removeAll_filter_not_eq conj_commute)
  moreover have "omap_ok (clusterStaticNodeMap ?t)" "omap_ok (d2PminiGroupNodes ?t)"
    "p2DminiGroupNodes ?t = invert_peers (d2PminiGroupNodes ?t)"
    using assms by (auto simp: ns_ok_def remove_node_def)
  moreover have "\<forall>j \<in> set (nodeIndexList ?t). IsNodeAvailable j ?t"
    using assms by (auto simp: ns_ok_def IsNodeAvailable_def m l)
  ultimately show ?thesis using assms by (simp add: ns_ok_def l p distinct_removeAll)
qed

text \<open>A report keeps the lists; the derived relation is rebuilt after the last one.\<close>

lemma update_node_lists: "nodeIndexList (update_node r s) = nodeIndexList s" "pNodeList (update_node r s) = pNodeList s"
  by (simp_all add: update_node_def UpdateD2PRelations_def Let_def)

lemma update_node_static:
  "clusterStaticNodeMap (update_node r s) = omap_insert (dy_id r) (default_static 0 0) (clusterStaticNodeMap s)"
  by (simp add: update_node_def UpdateD2PRelations_def Let_def)

lemma update_node_maps: "omap_ok (d2PminiGroupNodes s) \<Longrightarrow> omap_ok (d2PminiGroupNodes (update_node r s))"
  by (auto simp: update_node_def UpdateD2PRelations_def Let_def intro: omap_ok_fold_push)

lemma ns_ok_update_node:
  assumes "ns_ok s"
  shows "ns_ok (UpdateP2DRelations (update_node r s))"
proof -
  let ?t = "update_node r s"
  have m: "map_of (clusterStaticNodeMap ?t) i = map_of (clusterStaticNodeMap s) i" if "i \<in> set (nodeIndexList s)" for i
    using that assms by (auto simp: update_node_static omap_simps ns_ok_def IsNodeAvailable_def)
  have "filter (is_prefill ?t) (nodeIndexList s) = filter (is_prefill s) (nodeIndexList s)"
    by (intro filter_cong refl is_prefill_cong m)
  moreover have "is_prefill (UpdateP2DRelations ?t) = is_prefill ?t"
    by (simp add: fun_eq_iff is_prefill_def UpdateP2DRelations_def)
  ultimately show ?thesis
    using assms m by (auto simp: ns_ok_def update_node_lists update_node_static update_node_maps UpdateP2DRelations_def
        IsNodeAvailable_def)
qed

lemma UpdateP2DRelations_twice: "UpdateP2DRelations (update_node r (UpdateP2DRelations s)) = UpdateP2DRelations (update_node r s)"
  by (simp add: UpdateP2DRelations_def update_node_def UpdateD2PRelations_def Let_def)

lemma ns_ok_P2D: "ns_ok s \<Longrightarrow> ns_ok (UpdateP2DRelations s)"
  by (simp add: ns_ok_def UpdateP2DRelations_def IsNodeAvailable_def is_prefill_def cong: filter_cong)

lemma DynamicUpdate_fold: "DynamicUpdate rs s = fold (\<lambda>r. UpdateP2DRelations \<circ> update_node r) rs (UpdateP2DRelations s)"
  unfolding DynamicUpdate_def
  by (induction rs arbitrary: s) (simp_all add: UpdateP2DRelations_twice)

lemma fold_ns_ok: "(\<And>x s. ns_ok s \<Longrightarrow> ns_ok (f x s)) \<Longrightarrow> ns_ok s \<Longrightarrow> ns_ok (fold f xs s)"
  by (induction xs arbitrary: s) auto

lemma ns_ok_AddNodes: "ns_ok s \<Longrightarrow> ns_ok (AddNodes ins s)"
  by (simp add: AddNodes_def fold_ns_ok ns_ok_add_node)

lemma ns_ok_RemoveNodes: "ns_ok s \<Longrightarrow> ns_ok (RemoveNodes ids s)"
  by (simp add: RemoveNodes_def fold_ns_ok ns_ok_remove_node)

lemma ns_ok_DynamicUpdate: "ns_ok s \<Longrightarrow> ns_ok (DynamicUpdate rs s)"
  unfolding DynamicUpdate_fold by (intro fold_ns_ok ns_ok_P2D) (simp_all add: ns_ok_update_node)

lemma ns_ok_same: "same_nodes s t \<Longrightarrow> ns_ok s \<Longrightarrow> ns_ok t"
proof -
  assume same: "same_nodes s t"
  then have "is_prefill t = is_prefill s" "IsNodeAvailable i t = IsNodeAvailable i s" for i
    by (simp_all add: fun_eq_iff is_prefill_def IsNodeAvailable_def same_nodes_def)
  then show "ns_ok s \<Longrightarrow> ns_ok t" using same by (simp add: ns_ok_def same_nodes_def)
qed

lemma ns_ok_GetNodeById: "ns_ok s \<Longrightarrow> ns_ok (snd (GetNodeById i s))"
  by (rule ns_ok_same [OF GetNodeById_same])

subsection \<open>Properties\<close>

text \<open>The calls on the store.\<close>

datatype ns_op = OpAdd "DIGSInstanceStaticInfo list" | OpRemove "u64 list" | OpReport "DIGSInstanceDynamicInfo list" | OpGet u64

fun ns_step :: "ns_op \<Rightarrow> NodeStore \<Rightarrow> NodeStore" where
  "ns_step (OpAdd ins) s = AddNodes ins s"
| "ns_step (OpRemove ids) s = RemoveNodes ids s"
| "ns_step (OpReport rs) s = DynamicUpdate rs s"
| "ns_step (OpGet i) s = snd (GetNodeById i s)"

lemma ns_ok_step: "ns_ok s \<Longrightarrow> ns_ok (ns_step op s)"
  by (cases op) (simp_all add: ns_ok_AddNodes ns_ok_RemoveNodes ns_ok_DynamicUpdate ns_ok_GetNodeById)

lemma ns_ok_run: "ns_ok (fold ns_step ops new_NodeStore)"
  by (intro fold_ns_ok ns_ok_step ns_ok_new)

text \<open>C32: after any sequence of calls the node list holds no node twice and only registered nodes, the
  prefill list is exactly the prefill nodes of it in the same order, and a decode node is listed
  as a peer of a prefill node exactly when its recorded peers name that prefill node.\<close>

theorem node_store_consistent:
  "let s = fold ns_step ops new_NodeStore in
     distinct (nodeIndexList s) \<and> list_all (\<lambda>i. IsNodeAvailable i s) (nodeIndexList s)
     \<and> pNodeList s = filter (is_prefill s) (nodeIndexList s)
     \<and> (\<forall>d p. d \<in> set (omap_get [] (p2DminiGroupNodes s) p) \<longleftrightarrow> p \<in> set (omap_get [] (d2PminiGroupNodes s) d))"
proof -
  let ?s = "fold ns_step ops new_NodeStore"
  have ok: "ns_ok ?s" by (rule ns_ok_run)
  then have "d \<in> set (omap_get [] (p2DminiGroupNodes ?s) p) \<longleftrightarrow> p \<in> set (omap_get [] (d2PminiGroupNodes ?s) d)" for d p
    by (simp add: ns_ok_def in_invert_peers)
  with ok show ?thesis by (simp add: ns_ok_def Let_def list_all_iff)
qed

lemma omap_erase_put: "omap_ok m \<Longrightarrow> map_of m k = None \<Longrightarrow> omap_erase k (omap_put k v m) = m"
  by (induction k v m rule: omap_put.induct) (auto simp: omap_simps map_of_eq_None_iff)

lemma omap_get_d2P_report:
  "st_role (omap_get (default_static 0 0) (clusterStaticNodeMap s) (dy_id r)) = DECODE_INSTANCE \<Longrightarrow>
   omap_get [] (d2PminiGroupNodes (update_node r s)) d = (if d = dy_id r then dy_peers r else omap_get [] (d2PminiGroupNodes s) d)"
  by (auto simp: update_node_def UpdateD2PRelations_def Let_def omap_get_fold_push)
     (auto simp: omap_get_def omap_simps split: option.splits)

text \<open>A report of a registered decode node replaces its peers: afterwards it is offered as the decode
  partner of exactly the prefill nodes the report names.\<close>

lemma decode_report_sets_peers:
  assumes "ns_ok s" and "map_of (clusterStaticNodeMap s) (dy_id r) = Some st" and "st_role st = DECODE_INSTANCE"
  shows "dy_id r \<in> set (omap_get [] (p2DminiGroupNodes (DynamicUpdate [r] s)) p) \<longleftrightarrow> p \<in> set (dy_peers r)"
proof -
  have "omap_ok (d2PminiGroupNodes (update_node r s))" using assms(1) by (simp add: ns_ok_def update_node_maps)
  moreover have "omap_get [] (d2PminiGroupNodes (update_node r s)) (dy_id r) = dy_peers r"
    using assms(2,3) by (subst omap_get_d2P_report) (simp_all add: omap_get_def)
  ultimately show ?thesis by (simp add: DynamicUpdate_def UpdateP2DRelations_def in_invert_peers)
qed

text \<open>Registering an unknown node makes it visible with its static data and its last report, at the
  end of the node list; removing it again restores the lists and the table.\<close>

lemma register_remove_roundtrip:
  assumes "ns_ok s" and "\<not> IsNodeAvailable (st_id ins) s"
  shows "fst (GetNodeById (st_id ins) (AddNodes [ins] s))
      = Some (ins, omap_get (default_dynamic 0) (clusterDynamicMap s) (st_id ins))
    \<and> nodeIndexList (AddNodes [ins] s) = nodeIndexList s @ [st_id ins]
    \<and> RemoveNodes [st_id ins] (AddNodes [ins] s) = s"
proof -
  have none: "map_of (clusterStaticNodeMap s) (st_id ins) = None" using assms(2) by (simp add: IsNodeAvailable_def)
  have new: "st_id ins \<notin> set (nodeIndexList s)" "st_id ins \<notin> set (pNodeList s)"
    using assms by (auto simp: ns_ok_def)
  have "omap_erase (st_id ins) (omap_put (st_id ins) ins (clusterStaticNodeMap s)) = clusterStaticNodeMap s"
    using assms(1) none by (simp add: omap_erase_put ns_ok_def)
  then have "RemoveNodes [st_id ins] (AddNodes [ins] s) = s"
    using none new by (cases s) (simp add: RemoveNodes_def AddNodes_def remove_node_def add_node_def Let_def)
  then show ?thesis using none
    by (simp add: GetNodeById_view) (simp add: node_view_def AddNodes_def add_node_def Let_def omap_simps)
qed

text \<open>A report for an instance that is not registered yet creates a default entry for it, so that
  registering the instance afterwards is taken for a duplicate: it never enters the node lists and
  is never scheduled.\<close>

lemma early_report_blocks_registration:
  "nodeIndexList (AddNodes [ins\<lparr>st_id := dy_id r\<rparr>] (DynamicUpdate [r] s)) = nodeIndexList s
   \<and> pNodeList (AddNodes [ins\<lparr>st_id := dy_id r\<rparr>] (DynamicUpdate [r] s)) = pNodeList s"
proof -
  have "map_of (clusterStaticNodeMap (DynamicUpdate [r] s)) (dy_id r) \<noteq> None"
    by (simp add: DynamicUpdate_def UpdateP2DRelations_def update_node_static omap_simps)
  then show ?thesis
    by (simp add: AddNodes_def add_node_def DynamicUpdate_def UpdateP2DRelations_def update_node_lists)
qed

end
