(* ===== verification/Controller_Listener.thy ===== *)
theory Controller_Listener
  imports Request_Accounting Node_Store
begin

text \<open>
  \<^verbatim>\<open>coordinator/controller_listener/ControllerListener.{h,cpp}\<close>: the management port of the coordinator, through which the
  controller keeps the coordinator's picture of the cluster up to date. A handler works on the cluster table, the
  registry of requests and the scheduler; the calls to the scheduler are effects. A request body is what the JSON
  parser returns for it. The configuration, the address parser \<^verbatim>\<open>inet_pton\<close> and the outcome of connection attempts are
  arguments. The counters that only decide how often a log line is written are left out.
\<close>

subsection \<open>Configuration and validation\<close>

record lcfg =
  deployMode :: string
  backupEnable :: bool
  maxRetry :: nat
  singleNodeMaxReqs :: u64
  inet4 :: "string \<Rightarrow> bool"
  inet6 :: "string \<Rightarrow> bool"
  linkUp :: "string \<Rightarrow> string \<Rightarrow> nat \<Rightarrow> bool"

definition IsValidIpv4 :: "lcfg \<Rightarrow> string \<Rightarrow> bool \<Rightarrow> bool" where
  "IsValidIpv4 cfg ip allowAllZeroIp = (if \<not> allowAllZeroIp \<and> ip = ''0.0.0.0'' then False else inet4 cfg ip)"

definition IsValidIpv6 :: "lcfg \<Rightarrow> string \<Rightarrow> bool \<Rightarrow> bool" where
  "IsValidIpv6 cfg ip allowAllZeroIp = (if \<not> allowAllZeroIp \<and> ip = ''::'' then False else inet6 cfg ip)"

definition IsValidIp :: "lcfg \<Rightarrow> string \<Rightarrow> bool \<Rightarrow> bool" where
  "IsValidIp cfg ip allowAllZeroIp = (if ip = [] then False
     else if CHR '':'' \<in> set ip then IsValidIpv6 cfg ip allowAllZeroIp else IsValidIpv4 cfg ip allowAllZeroIp)"

text \<open>\<^verbatim>\<open>std::stoi\<close> of a string of digits: it throws on the empty string and beyond the range of \<^verbatim>\<open>int\<close>.\<close>

definition is_digit :: "char \<Rightarrow> bool" where
  "is_digit c \<longleftrightarrow> 48 \<le> (of_char c :: nat) \<and> (of_char c :: nat) \<le> 57"

definition digits_value :: "string \<Rightarrow> nat" where
  "digits_value s = foldl (\<lambda>n c. 10 * n + ((of_char c :: nat) - 48)) 0 s"

definition IsValidPortString :: "string \<Rightarrow> bool" where
  "IsValidPortString s = (if \<not> list_all is_digit s then False
     else if s = [] \<or> 2 ^ 31 \<le> digits_value s then False
     else 1024 \<le> digits_value s \<and> digits_value s \<le> 65535)"

definition u32 :: "u64 \<Rightarrow> u64" where
  "u32 x = ucast (ucast x :: 32 word)"

text \<open>The return code 0 is \<^const>\<open>True\<close>, -1 is \<^const>\<open>False\<close>.\<close>

definition CheckInstanceReturn :: "string \<Rightarrow> DIGSInstanceStaticInfo \<Rightarrow> bool" where
  "CheckInstanceReturn mode ins = (if st_totalBlockNum ins = 0 then False
     else if st_blockSize ins < 1 \<or> 128 < st_blockSize ins then False
     else if IsPDSeparateMode mode \<and> st_label ins \<noteq> PREFILL_STATIC \<and> st_label ins \<noteq> DECODE_STATIC \<and> st_label ins \<noteq> FLEX_STATIC then False
     else True)"

definition CheckInstance :: "lcfg \<Rightarrow> DIGSInstanceStaticInfo \<Rightarrow> bool" where
  "CheckInstance cfg ins =
     (if IsPDSeparateMode (deployMode cfg) \<and> st_role ins \<noteq> PREFILL_INSTANCE \<and> st_role ins \<noteq> DECODE_INSTANCE then False
      else if deployMode cfg = ''single_node'' \<and> st_role ins \<noteq> UN_DEF_INSTANCE then False
      else if st_maxSeqLen ins = 0 then False
      else if st_maxOutputLen ins < 1 \<or> st_maxSeqLen ins < st_maxOutputLen ins then False
      else if st_totalSlotsNum ins < 1 \<or> 5000 < st_totalSlotsNum ins then False
      else CheckInstanceReturn (deployMode cfg) ins)"

text \<open>The static part of an instance: every field is read with \<^verbatim>\<open>at\<close> and \<^verbatim>\<open>get\<close>.\<close>

definition read_static :: "u64 \<Rightarrow> InsJson \<Rightarrow> DIGSInstanceStaticInfo option" where
  "read_static i j =
     Option.bind (static_at js_group_id j) (\<lambda>g. Option.bind (static_at js_role j) (\<lambda>role.
     Option.bind (static_at js_p_percentage j) (\<lambda>p. Option.bind (static_at js_max_seq_len j) (\<lambda>seqLen.
     Option.bind (static_at js_max_output_len j) (\<lambda>outLen. Option.bind (static_at js_total_slots_num j) (\<lambda>slots.
     Option.bind (static_at js_total_block_num j) (\<lambda>blocks. Option.bind (static_at js_block_size j) (\<lambda>bs.
     Option.bind (static_at js_label j) (\<lambda>label. Option.bind (static_at js_virtual_id j) (\<lambda>v.
       Some ((default_static i g)\<lparr>st_role := role, st_flexPRatio := p, st_maxSeqLen := u32 seqLen, st_maxOutputLen := u32 outLen,
         st_totalSlotsNum := u32 slots, st_totalBlockNum := u32 blocks, st_blockSize := u32 bs, st_label := label,
         st_virtualId := v\<rparr>)))))))))))"

definition ParseInstance :: "lcfg \<Rightarrow> u64 \<Rightarrow> InsJson \<Rightarrow> (DIGSInstanceStaticInfo \<times> string \<times> string \<times> string) option" where
  "ParseInstance cfg i j = Option.bind (read_static i j) (\<lambda>ins. if \<not> CheckInstance cfg ins then None
     else Option.bind (jget (ji_ip j)) (\<lambda>ip. if \<not> IsValidIp cfg ip False then None
     else Option.bind (jget (ji_port j)) (\<lambda>port. if \<not> IsValidPortString port then None
     else map_option (\<lambda>name. (ins\<lparr>st_maxConnectionNum := singleNodeMaxReqs cfg\<rparr>, ip, port, name)) (jget (ji_model_name j)))))"

subsection \<open>Adding, updating and removing instances\<close>

text \<open>\<^verbatim>\<open>for (std::string reqId : requests)\<close> runs over an unordered set: the model takes the order of the ids.\<close>

definition remove_instance :: "lcfg \<Rightarrow> u64 \<Rightarrow> u64 \<Rightarrow> coord \<Rightarrow> coord" where
  "remove_instance cfg now i w = on_cluster (cn_RemoveInstance i)
     (fold (\<lambda>rid. rm_UpdateState (deployMode cfg) now rid EXCEPTION) (sorted_list_of_fset (GetInsRequests i w)) w)"

definition lc_Remove :: "lcfg \<Rightarrow> u64 \<Rightarrow> u64 list \<Rightarrow> coord \<Rightarrow> coord" where
  "lc_Remove cfg now removeVec w = (if removeVec = [] then w
     else fold (remove_instance cfg now) removeVec (emit (SchedRemoveInstance removeVec) w))"

text \<open>The call \<^verbatim>\<open>Update(it)\<close> inside is the argument \<open>upd\<close>: the two functions call each other.\<close>

definition AddIns ::
  "(InsJson \<Rightarrow> coord \<Rightarrow> (bool \<times> coord) option) \<Rightarrow> u64 \<Rightarrow> string \<Rightarrow> string \<Rightarrow> string \<Rightarrow> string \<Rightarrow> DIGSInstanceStaticInfo \<Rightarrow> string
     \<Rightarrow> InsJson \<Rightarrow> coord \<Rightarrow> (bool \<times> coord) option" where
  "AddIns upd i ip port metricPort interCommPort ins name j w =
     (let (ok, c) = cn_AddInstance i ip port (st_role ins) name (cluster w)
      in if \<not> ok then Some (False, w)
         else upd j (emit (SchedRegister ins)
           (w\<lparr>cluster := UpdateExtraInfo i metricPort interCommPort (st_totalBlockNum ins) (st_totalSlotsNum ins) (st_virtualId ins) c\<rparr>)))"

definition AddInsWithoutBackup ::
  "lcfg \<Rightarrow> (InsJson \<Rightarrow> coord \<Rightarrow> (bool \<times> coord) option) \<Rightarrow> u64 \<Rightarrow> string \<Rightarrow> string \<Rightarrow> InsJson \<Rightarrow> coord \<Rightarrow> (bool \<times> coord) option" where
  "AddInsWithoutBackup cfg upd i metricPort interCommPort j w =
     (case ParseInstance cfg i j of None \<Rightarrow> Some (False, w)
      | Some (ins, ip, port, name) \<Rightarrow>
          if st_role ins = DECODE_INSTANCE \<and> \<not> list_ex (linkUp cfg ip port) [0..<maxRetry cfg + 1] then Some (False, w)
          else AddIns upd i ip port metricPort interCommPort ins name j w)"

definition lc_Add :: "lcfg \<Rightarrow> (InsJson \<Rightarrow> coord \<Rightarrow> (bool \<times> coord) option) \<Rightarrow> InsJson \<Rightarrow> coord \<Rightarrow> (bool \<times> coord) option" where
  "lc_Add cfg upd j w = (case (jget (ji_id j), jget (ji_metric_port j), jget (ji_inter_comm_port j)) of
       (Some i, Some metricPort, Some interCommPort) \<Rightarrow>
         if \<not> IsValidPortString metricPort then Some (False, w)
         else if deployMode cfg = ''pd_disaggregation_single_container'' \<and> \<not> IsValidPortString interCommPort then Some (False, w)
         else (case ParseInstance cfg i j of None \<Rightarrow> Some (False, w)
             | Some (ins, ip, port, name) \<Rightarrow>
                 if backupEnable cfg then AddIns upd i ip port metricPort interCommPort ins name j w
                 else AddInsWithoutBackup cfg upd i metricPort interCommPort j w)
     | _ \<Rightarrow> Some (False, w))"

definition read_dynamic :: "u64 \<Rightarrow> InsJson \<Rightarrow> DIGSInstanceDynamicInfo option" where
  "read_dynamic i j = Option.bind (ji_dynamic j) (\<lambda>d.
     Option.bind (static_at js_total_slots_num j) (\<lambda>slots. Option.bind (static_at js_total_block_num j) (\<lambda>blocks.
     Option.bind (jget (jd_avail_slots_num d)) (\<lambda>aslots. Option.bind (jget (jd_avail_block_num d)) (\<lambda>ablocks.
       Some ((default_dynamic i)\<lparr>dy_totalSlotsNum := u32 slots, dy_totalBlockNum := u32 blocks, dy_availSlotsNum := u32 aslots,
         dy_availBlockNum := u32 ablocks, dy_peers := (case jd_peers d of None \<Rightarrow> [] | Some ps \<Rightarrow> ps),
         dy_prefixHash := (case jd_prefix_hash d of None \<Rightarrow> [] | Some h \<Rightarrow> h)\<rparr>))))))"

text \<open>\<^verbatim>\<open>Update\<close> with its depth of recursion bounded: a change of role removes the instance and adds it again, which ends
  in another \<^verbatim>\<open>Update\<close>. The bound is never reached from two on (\<open>lc_Update_total\<close>).\<close>

fun lc_Update :: "lcfg \<Rightarrow> u64 \<Rightarrow> nat \<Rightarrow> InsJson \<Rightarrow> coord \<Rightarrow> (bool \<times> coord) option" where
  "lc_Update cfg now 0 j w = None"
| "lc_Update cfg now (Suc n) j w = (case (jget (ji_id j), static_at js_role j) of
       (Some i, Some newRole) \<Rightarrow>
         if newRole \<noteq> cn_GetRole i (cluster w) then lc_Add cfg (lc_Update cfg now n) j (lc_Remove cfg now [i] w)
         else (case read_dynamic i j of None \<Rightarrow> Some (False, w)
             | Some d \<Rightarrow> Some (True, emit (SchedUpdateInstance d) w))
     | _ \<Rightarrow> Some (False, w))"

definition update_depth :: nat where
  "update_depth = 2"

subsection \<open>Refreshing the cluster\<close>

definition fault_expiry :: int where
  "fault_expiry = 2 * 60 * 1000000000"

text \<open>\<open>clk\<close> is the wall clock in nanoseconds, used for the quarantine of faulty instances, \<open>now\<close> the steady clock.\<close>

definition IdsAddOrUpdate ::
  "lcfg \<Rightarrow> int \<Rightarrow> u64 \<Rightarrow> u64 list \<Rightarrow> u64 list \<Rightarrow> InsJson \<Rightarrow> u64 \<Rightarrow> coord \<Rightarrow> coord option" where
  "IdsAddOrUpdate cfg clk now addVec updateVec j i w =
     (if IsFaultyNode i (cluster w) \<and> \<not> fault_expiry < clk - GetDeleteTime clk i (cluster w) then Some w
      else let w = (if IsFaultyNode i (cluster w) then on_cluster (RemoveFaultNode i) w else w)
           in if i \<in> set addVec then map_option snd (lc_Add cfg (lc_Update cfg now update_depth) j w)
              else if i \<in> set updateVec then map_option snd (lc_Update cfg now update_depth j w)
              else Some w)"

fun traverse_loop :: "lcfg \<Rightarrow> int \<Rightarrow> u64 \<Rightarrow> u64 list \<Rightarrow> u64 list \<Rightarrow> InsJson list \<Rightarrow> coord \<Rightarrow> (bool \<times> coord) option" where
  "traverse_loop cfg clk now addVec updateVec [] w = Some (True, w)"
| "traverse_loop cfg clk now addVec updateVec (j # js) w = (case jget (ji_id j) of
       None \<Rightarrow> Some (False, w)
     | Some i \<Rightarrow> Option.bind (IdsAddOrUpdate cfg clk now addVec updateVec j i w) (traverse_loop cfg clk now addVec updateVec js))"

definition IdsTraverse :: "lcfg \<Rightarrow> int \<Rightarrow> u64 \<Rightarrow> u64 list \<Rightarrow> InsJson list \<Rightarrow> coord \<Rightarrow> (bool \<times> coord) option" where
  "IdsTraverse cfg clk now ids instances w =
     (let insNumMax = unat (GetInsNumMax (cluster w))
      in if insNumMax < length ids then Some (False, w)
         else let (addVec, updateVec, removeVec) = Roll ids (cluster w)
              in if insNumMax < length instances then Some (False, w)
                 else Option.bind (traverse_loop cfg clk now addVec updateVec instances w) (\<lambda>(ok, w').
                   Some (if ok then (True, lc_Remove cfg now removeVec w') else (False, w'))))"

record listener =
  world :: coord
  lc_init :: bool
  dataReady :: bool
  inAlarmInstanceMiss :: bool
  inAlarmCoordException :: bool

definition SchedulerSetBlockSize :: "u64 \<Rightarrow> coord \<Rightarrow> coord" where
  "SchedulerSetBlockSize blockSize w = (if blockSize < 1 \<or> 128 < blockSize then w else emit (SchedSetBlockSize blockSize) w)"

definition CheckAndHandleCoordinatorStateAlarm :: "lcfg \<Rightarrow> listener \<Rightarrow> listener" where
  "CheckAndHandleCoordinatorStateAlarm cfg l =
     (let isInstanceAvailable = IsAvailable (deployMode cfg) (cluster (world l));
          l1 = (if \<not> isInstanceAvailable \<and> \<not> inAlarmInstanceMiss l
                then l\<lparr>inAlarmInstanceMiss := True, world := emit (InstanceMissingAlarm True) (world l)\<rparr>
                else if isInstanceAvailable \<and> inAlarmInstanceMiss l
                then l\<lparr>inAlarmInstanceMiss := False, world := emit (InstanceMissingAlarm False) (world l)\<rparr>
                else l)
      in if \<not> dataReady l \<and> \<not> inAlarmCoordException l
         then l1\<lparr>inAlarmCoordException := True, world := emit (CoordExceptionAlarm True) (world l1)\<rparr>
         else if dataReady l \<and> inAlarmCoordException l
         then l1\<lparr>inAlarmCoordException := False, world := emit (CoordExceptionAlarm False) (world l1)\<rparr>
         else l1)"

datatype http_status = HTTP_OK | BAD_REQUEST | SERVICE_UNAVAILABLE

text \<open>\<^verbatim>\<open>POST /v1/instances/refresh\<close>. The body holds the ids of the cluster's instances, \<^const>\<open>None\<close> when they cannot be read,
  and a description of each instance. The first message that describes an instance sets the scheduler's block size.\<close>

definition init_block_size :: "InsJson list \<Rightarrow> listener \<Rightarrow> listener option" where
  "init_block_size instances l = (if lc_init l \<or> instances = [] then Some l
     else map_option (\<lambda>bs. l\<lparr>lc_init := True, world := SchedulerSetBlockSize (u32 bs) (world l)\<rparr>) (static_at js_block_size (hd instances)))"

definition refresh_instances :: "lcfg \<Rightarrow> int \<Rightarrow> u64 \<Rightarrow> u64 list \<Rightarrow> InsJson list \<Rightarrow> coord \<Rightarrow> (bool \<times> coord) option" where
  "refresh_instances cfg clk now ids instances w = (case ProcessFlexInstance ids instances (cluster w) of
       (None, c) \<Rightarrow> Some (False, w\<lparr>cluster := c\<rparr>)
     | (Some (ids', instances'), c) \<Rightarrow> IdsTraverse cfg clk now ids' instances' (w\<lparr>cluster := c\<rparr>))"

definition InstancesRefreshHandler ::
  "lcfg \<Rightarrow> int \<Rightarrow> u64 \<Rightarrow> u64 list option \<Rightarrow> InsJson list \<Rightarrow> listener \<Rightarrow> (http_status \<times> listener) option" where
  "InstancesRefreshHandler cfg clk now idsVec instances l = (case init_block_size instances l of
       None \<Rightarrow> Some (BAD_REQUEST, l)
     | Some l1 \<Rightarrow> (case idsVec of None \<Rightarrow> Some (BAD_REQUEST, l1)
         | Some ids \<Rightarrow> map_option (\<lambda>(ok, w). (if ok then HTTP_OK else BAD_REQUEST, CheckAndHandleCoordinatorStateAlarm cfg (l1\<lparr>world := w\<rparr>)))
             (refresh_instances cfg clk now ids instances (world l1))))"

text \<open>\<^verbatim>\<open>RequestRepeater::AddToFaulty\<close>: a decode instance whose connection is lost takes its whole virtual group out of
  service. \<open>clk\<close> gives the successive readings of the wall clock.\<close>

definition AddToFaulty :: "(nat \<Rightarrow> int) \<Rightarrow> u64 \<Rightarrow> coord \<Rightarrow> coord" where
  "AddToFaulty clk i w =
     (let w1 = on_cluster (AddFaultNode (clk 0) (clk 1) i) w
      in fold (\<lambda>(n, k) w. on_cluster (cn_RemoveInstance k) (emit (SchedRemoveInstance [k])
                (on_cluster (AddFaultNode (clk (2 * n)) (clk (2 * n + 1)) k) w)))
           (List.enumerate 1 (sorted_list_of_fset (GetVirtualIdToIds i (cluster w1)))) w1)"

subsection \<open>Every handler returns\<close>

lemma cn_GetRole_added:
  assumes "cn_AddInstance i ip port role name c = (True, c')"
  shows "cn_GetRole i (UpdateExtraInfo i a b x y z c') = role"
  using assms by (auto simp: cn_AddInstance_def UpdateExtraInfo_def cn_GetRole_def cn_get_def omap_simps new_InstanceInfo_def split: if_splits)

lemma read_static_SomeD: "read_static i j = Some ins \<Longrightarrow> static_at js_role j = Some (st_role ins) \<and> st_id ins = i"
  by (auto simp: read_static_def bind_eq_Some_conv default_static_def)

lemma ParseInstance_SomeD: "ParseInstance cfg i j = Some (ins, ip, port, name) \<Longrightarrow> static_at js_role j = Some (st_role ins) \<and> st_id ins = i"
  by (auto simp: ParseInstance_def bind_eq_Some_conv dest: read_static_SomeD split: if_splits)

lemma lc_Update_same_role:
  assumes "jget (ji_id j) = Some i" and "static_at js_role j = Some (cn_GetRole i (cluster w))"
  shows "lc_Update cfg now (Suc n) j w = (case read_dynamic i j of None \<Rightarrow> Some (False, w) | Some d \<Rightarrow> Some (True, emit (SchedUpdateInstance d) w))"
  using assms by simp

text \<open>The \<^verbatim>\<open>Update\<close> at the end of \<^verbatim>\<open>AddIns\<close> finds the role it was just given.\<close>

lemma AddIns_unfold:
  assumes "jget (ji_id j) = Some i" and "ParseInstance cfg i j = Some (ins, ip, port, name)"
  shows "AddIns (lc_Update cfg now (Suc n)) i ip port mp ic ins name j w =
    (if HasInstance i (cluster w) then Some (False, w)
     else let w1 = emit (SchedRegister ins) (w\<lparr>cluster := UpdateExtraInfo i mp ic (st_totalBlockNum ins) (st_totalSlotsNum ins)
                (st_virtualId ins) (snd (cn_AddInstance i ip port (st_role ins) name (cluster w)))\<rparr>)
          in case read_dynamic i j of None \<Rightarrow> Some (False, w1) | Some d \<Rightarrow> Some (True, emit (SchedUpdateInstance d) w1))"
proof (cases "HasInstance i (cluster w)")
  case False
  then obtain c' where c: "cn_AddInstance i ip port (st_role ins) name (cluster w) = (True, c')"
    by (auto simp: cn_AddInstance_def HasInstance_def)
  show ?thesis
    unfolding AddIns_def c using False cn_GetRole_added [OF c] ParseInstance_SomeD [OF assms(2)] assms(1)
    by (simp add: lc_Update_same_role coord_simps Let_def)
qed (auto simp: AddIns_def cn_AddInstance_def HasInstance_def)

lemma lc_Add_total: "lc_Add cfg (lc_Update cfg now (Suc n)) j w \<noteq> None"
proof (cases "jget (ji_id j)")
  case (Some i)
  then show ?thesis
    by (auto simp: lc_Add_def AddInsWithoutBackup_def AddIns_unfold Let_def split: option.splits prod.splits if_splits)
qed (simp add: lc_Add_def)

lemma lc_Update_total: "lc_Update cfg now (Suc (Suc n)) j w \<noteq> None"
  using lc_Add_total [of cfg now n j] by (auto split: option.splits)

lemma IdsAddOrUpdate_total: "IdsAddOrUpdate cfg clk now av uv j i w \<noteq> None"
proof -
  have A: "lc_Add cfg (lc_Update cfg now update_depth) j w \<noteq> None" and B: "lc_Update cfg now update_depth j w \<noteq> None" for w
    using lc_Add_total [of cfg now 1 j w] lc_Update_total [of cfg now 0 j w] by (simp_all add: update_depth_def numeral_2_eq_2 del: lc_Update.simps)
  show ?thesis by (simp add: IdsAddOrUpdate_def Let_def A B del: not_None_eq)
qed

lemma traverse_loop_total: "traverse_loop cfg clk now av uv js w \<noteq> None"
proof (induction js arbitrary: w)
  case (Cons j js)
  show ?case
  proof (cases "jget (ji_id j)")
    case (Some i)
    obtain w' where "IdsAddOrUpdate cfg clk now av uv j i w = Some w'" using IdsAddOrUpdate_total [of cfg clk now av uv j i w] by blast
    then show ?thesis using Some Cons.IH by simp
  qed simp
qed simp

lemma IdsTraverse_total: "IdsTraverse cfg clk now ids js w \<noteq> None"
  using traverse_loop_total [of cfg clk now _ _ js w]
  by (simp add: IdsTraverse_def Let_def case_prod_beta bind_eq_None_conv del: not_None_eq)

lemma refresh_instances_total: "refresh_instances cfg clk now ids js w \<noteq> None"
  by (simp add: refresh_instances_def IdsTraverse_total del: not_None_eq split: option.split prod.split)

lemma InstancesRefreshHandler_total: "InstancesRefreshHandler cfg clk now idsVec js l \<noteq> None"
  by (simp add: InstancesRefreshHandler_def refresh_instances_total del: not_None_eq split: option.split)

end
