(* ===== verification/Listener_Queries.thy ===== *)
theory Listener_Queries
  imports Controller_Listener
begin

text \<open>
  The other requests of the management port in \<^verbatim>\<open>coordinator/controller_listener/ControllerListener.cpp\<close>: taking instances
  offline and online, task counts with the query string of their URL, the question whether two instances still share
  requests, and the probes. The handlers that query do not change the state and are functions of it.
\<close>

subsection \<open>Offline and online\<close>

definition InstancesOfflineHandler :: "u64 list option \<Rightarrow> listener \<Rightarrow> http_status \<times> listener" where
  "InstancesOfflineHandler idsVec l = (if \<not> lc_init l then (SERVICE_UNAVAILABLE, l)
     else case idsVec of None \<Rightarrow> (BAD_REQUEST, l)
     | Some ids0 \<Rightarrow>
         let ids = ProcInstanceIdsUnderFlexSituation ids0 (cluster (world l))
         in if unat (GetInsNumMax (cluster (world l))) < length ids then (BAD_REQUEST, l)
            else (HTTP_OK, l\<lparr>world := emit (SchedCloseInstance ids) (world l)\<rparr>))"

definition InstancesOnlineHandler :: "u64 list option \<Rightarrow> listener \<Rightarrow> http_status \<times> listener" where
  "InstancesOnlineHandler idsVec l = (if \<not> lc_init l then (SERVICE_UNAVAILABLE, l)
     else case idsVec of None \<Rightarrow> (BAD_REQUEST, l)
     | Some ids \<Rightarrow>
         if unat (GetInsNumMax (cluster (world l))) < length ids then (BAD_REQUEST, l)
         else (HTTP_OK, l\<lparr>world := fold (\<lambda>i. emit (SchedActivateInstance i)) ids (world l)\<rparr>))"

subsection \<open>The query string\<close>

text \<open>\<^verbatim>\<open>s.find(c, pos)\<close> and \<^verbatim>\<open>s.substr(pos, n)\<close> of \<^verbatim>\<open>std::string\<close>; \<^const>\<open>None\<close> is \<^verbatim>\<open>npos\<close>.\<close>

definition find_char :: "char \<Rightarrow> nat \<Rightarrow> string \<Rightarrow> nat option" where
  "find_char c pos s = (let k = pos + length (takeWhile (\<lambda>x. x \<noteq> c) (drop pos s)) in if k < length s then Some k else None)"

definition substr :: "string \<Rightarrow> nat \<Rightarrow> nat \<Rightarrow> string" where
  "substr s pos n = take n (drop pos s)"

definition MAX_ALLOWED_PARAM_NUM_IN_SINGLE_URL :: nat where
  "MAX_ALLOWED_PARAM_NUM_IN_SINGLE_URL = 100"

definition key_value :: "string \<Rightarrow> (string \<times> string) option" where
  "key_value keyValue = (case find_char (CHR ''='') 0 keyValue of None \<Rightarrow> None
     | Some equals \<Rightarrow> Some (substr keyValue 0 equals, drop (equals + 1) keyValue))"

definition separator_at :: "string \<Rightarrow> nat \<Rightarrow> nat" where
  "separator_at s pos = (case find_char (CHR ''&'') pos s of None \<Rightarrow> length s | Some k \<Rightarrow> k)"

lemma find_char_le: "find_char c pos s = Some k \<Longrightarrow> pos \<le> k \<and> k < length s"
  by (auto simp: find_char_def Let_def split: if_splits)

function query_loop :: "string \<Rightarrow> nat \<Rightarrow> (string \<times> string) list \<Rightarrow> (string \<times> string) list" where
  "query_loop s pos queryParams = (if length s \<le> pos then queryParams
     else if MAX_ALLOWED_PARAM_NUM_IN_SINGLE_URL \<le> length queryParams then queryParams
     else let separator = separator_at s pos
          in query_loop s (separator + 1) (queryParams @ (case key_value (substr s pos (separator - pos)) of None \<Rightarrow> [] | Some kv \<Rightarrow> [kv])))"
  by pat_completeness auto

termination
  by (relation "measure (\<lambda>(s, pos, _). length s - pos)")
    (auto simp: separator_at_def dest: find_char_le split: option.splits)

declare query_loop.simps [simp del]

definition ParseQuery :: "string \<Rightarrow> (string \<times> string) list" where
  "ParseQuery url = (case find_char (CHR ''?'') 0 url of None \<Rightarrow> []
     | Some k \<Rightarrow>
         let start = k + 1; finish = (case find_char (CHR ''#'') start url of None \<Rightarrow> length url | Some e \<Rightarrow> e)
         in query_loop (substr url start (finish - start)) 0 [])"

text \<open>\<^verbatim>\<open>std::stoul\<close>: leading white space, an optional sign and the longest run of digits; it throws when there is no digit or
  the number does not fit, and a minus sign negates modulo \<open>2 ^ 64\<close>.\<close>

definition is_space :: "char \<Rightarrow> bool" where
  "is_space c \<longleftrightarrow> (of_char c :: nat) \<in> {9, 10, 11, 12, 13, 32}"

definition stoul :: "string \<Rightarrow> u64 option" where
  "stoul s = (let t = dropWhile is_space s;
                  neg = (t \<noteq> [] \<and> hd t = CHR ''-'');
                  t = (if t \<noteq> [] \<and> (hd t = CHR ''-'' \<or> hd t = CHR ''+'') then tl t else t);
                  ds = takeWhile is_digit t
              in if ds = [] \<or> 2 ^ 64 \<le> digits_value ds then None
                 else Some (if neg then - word_of_nat (digits_value ds) else word_of_nat (digits_value ds)))"

definition InstancesTasksHandler :: "string \<Rightarrow> coord \<Rightarrow> int list" where
  "InstancesTasksHandler url w = map (\<lambda>(_, v). case stoul v of None \<Rightarrow> - 1 | Some i \<Rightarrow> GetInstanceTaskNumUnderFlexSituation i (cluster w))
     (filter (\<lambda>(k, _). k = ''id'') (ParseQuery url))"

subsection \<open>Do two instances still share requests?\<close>

datatype DIGSRoleChangeType = DIGS_ROLE_CHANGE_P2D | DIGS_ROLE_CHANGE_D2P | DIGS_ROLE_CHANGE_UNKNOWN

definition InstancesQueryTasksCheck :: "string fset \<Rightarrow> u64 \<Rightarrow> (u64 \<times> u64 \<Rightarrow> u64) \<Rightarrow> coord \<Rightarrow> bool" where
  "InstancesQueryTasksCheck tasksOfPeerIns idOfInsToChangRole routeIndex w =
     list_all (\<lambda>rid. case GetReqInfo rid w of None \<Rightarrow> True
       | Some a \<Rightarrow> routeIndex (ra_route a) \<noteq> idOfInsToChangRole
           \<or> ra_HasState FINISH a \<or> ra_HasState EXCEPTION a \<or> ra_HasState RS_TIMEOUT a) (sorted_list_of_fset tasksOfPeerIns)"

definition InstancesQueryTasksProc :: "u64 \<Rightarrow> u64 \<Rightarrow> DIGSRoleChangeType \<Rightarrow> coord \<Rightarrow> http_status \<times> bool" where
  "InstancesQueryTasksProc pId dId roleChangeType w =
     (let c = cluster w; pTasksSize = GetTask pId c; dTasksSize = GetTask dId c
      in if pTasksSize = - 1 \<or> dTasksSize = - 1 then (HTTP_OK, True)
         else case roleChangeType of
           DIGS_ROLE_CHANGE_P2D \<Rightarrow> (HTTP_OK, if 0 < pTasksSize then False else InstancesQueryTasksCheck (GetTasksById dId c) pId fst w)
         | DIGS_ROLE_CHANGE_D2P \<Rightarrow> (HTTP_OK, if 0 < dTasksSize then False else InstancesQueryTasksCheck (GetTasksById pId c) dId snd w)
         | DIGS_ROLE_CHANGE_UNKNOWN \<Rightarrow> (BAD_REQUEST, True))"

definition InstancesQueryTasksHandler ::
  "lcfg \<Rightarrow> u64 jfield \<Rightarrow> u64 jfield \<Rightarrow> DIGSRoleChangeType jfield \<Rightarrow> coord \<Rightarrow> http_status \<times> bool" where
  "InstancesQueryTasksHandler cfg p d ty w = (if \<not> IsAvailable (deployMode cfg) (cluster w) then (HTTP_OK, True)
     else case (jget p, jget d, jget ty) of
       (Some pId, Some dId, Some roleChangeType) \<Rightarrow>
         InstancesQueryTasksProc pId (ProcTaskQuaryDInstanceIdUnderFlexSituation dId (cluster w)) roleChangeType w
     | _ \<Rightarrow> (BAD_REQUEST, True))"

subsection \<open>Probes\<close>

definition ReadinessProbeHandler :: "lcfg \<Rightarrow> listener \<Rightarrow> http_status" where
  "ReadinessProbeHandler cfg l =
     (if \<not> IsAvailable (deployMode cfg) (cluster (world l)) \<or> \<not> dataReady l then SERVICE_UNAVAILABLE else HTTP_OK)"

definition CoordinatorReadinessProbeHandler :: "lcfg \<Rightarrow> bool \<Rightarrow> listener \<Rightarrow> http_status" where
  "CoordinatorReadinessProbeHandler cfg isMaster l =
     (let isUnavailable = (\<not> IsAvailable (deployMode cfg) (cluster (world l)) \<or> \<not> dataReady l);
          isUnavailable = (if backupEnable cfg then isUnavailable \<or> \<not> isMaster else isUnavailable)
      in if isUnavailable then SERVICE_UNAVAILABLE else HTTP_OK)"

text \<open>\<^verbatim>\<open>url.find("models/")\<close>: the position of the first occurrence of a string.\<close>

fun find_str :: "string \<Rightarrow> string \<Rightarrow> nat option" where
  "find_str p [] = (if p = [] then Some 0 else None)"
| "find_str p (c # s) = (if take (length p) (c # s) = p then Some 0 else map_option Suc (find_str p s))"

definition TritonModelsReadyHandler :: "lcfg \<Rightarrow> string \<Rightarrow> listener \<Rightarrow> http_status" where
  "TritonModelsReadyHandler cfg url l =
     (let state = ReadinessProbeHandler cfg l
      in case find_str ''models/'' url of None \<Rightarrow> SERVICE_UNAVAILABLE
         | Some pos1 \<Rightarrow>
             (let subUrl = drop (pos1 + 7) url
              in case find_char (CHR ''/'') 0 subUrl of None \<Rightarrow> SERVICE_UNAVAILABLE
                 | Some pos2 \<Rightarrow> if HasModelName (substr subUrl 0 pos2) (cluster (world l)) then state else SERVICE_UNAVAILABLE))"

subsection \<open>Reading back a query string\<close>

definition enc_param :: "string \<times> string \<Rightarrow> string" where
  "enc_param kv = fst kv @ ''='' @ snd kv"

fun enc_query :: "(string \<times> string) list \<Rightarrow> string" where
  "enc_query [] = []"
| "enc_query [kv] = enc_param kv"
| "enc_query (kv # kvs) = enc_param kv @ ''&'' @ enc_query kvs"

definition param_ok :: "string \<times> string \<Rightarrow> bool" where
  "param_ok kv \<longleftrightarrow> set (fst kv) \<inter> {CHR ''='', CHR ''&'', CHR ''#''} = {} \<and> set (snd kv) \<inter> {CHR ''&'', CHR ''#''} = {}"

lemma enc_query_Cons: "enc_query (kv # kvs) = enc_param kv @ (if kvs = [] then [] else ''&'' @ enc_query kvs)"
  by (cases kvs) simp_all

lemma takeWhile_stop: "c \<notin> set xs \<Longrightarrow> ys = [] \<or> hd ys = c \<Longrightarrow> takeWhile (\<lambda>x. x \<noteq> c) (xs @ ys) = xs"
  by (cases ys) (auto simp: takeWhile_append)

lemma find_char_stop: "c \<notin> set xs \<Longrightarrow> ys = [] \<or> hd ys = c \<Longrightarrow>
    find_char c (length pre) (pre @ xs @ ys) = (if ys = [] then None else Some (length pre + length xs))"
  by (simp add: find_char_def takeWhile_stop)

lemma key_value_enc: "param_ok kv \<Longrightarrow> key_value (enc_param kv) = Some kv"
  using find_char_stop [of "CHR ''=''" "fst kv" "''='' @ snd kv" "[]"]
  by (simp add: key_value_def enc_param_def param_ok_def substr_def)

lemma separator_enc:
  assumes "param_ok kv" and "rest = [] \<or> hd rest = CHR ''&''"
  shows "separator_at (pre @ enc_param kv @ rest) (length pre) = length pre + length (enc_param kv)"
proof -
  have "CHR ''&'' \<notin> set (enc_param kv)" using assms(1) by (auto simp: param_ok_def enc_param_def)
  from find_char_stop [OF this assms(2), of pre] show ?thesis by (simp add: separator_at_def)
qed

lemma query_loop_enc:
  assumes "list_all param_ok kvs" and "length acc \<le> MAX_ALLOWED_PARAM_NUM_IN_SINGLE_URL"
  shows "query_loop (pre @ enc_query kvs) (length pre) acc = take MAX_ALLOWED_PARAM_NUM_IN_SINGLE_URL (acc @ kvs)"
  using assms
proof (induction kvs arbitrary: pre acc)
  case Nil
  then show ?case by (simp add: query_loop.simps)
next
  case (Cons kv kvs)
  define rest where "rest = (if kvs = [] then [] else ''&'' @ enc_query kvs)"
  have s: "pre @ enc_query (kv # kvs) = pre @ enc_param kv @ rest" by (simp add: enc_query_Cons rest_def)
  have sep: "separator_at (pre @ enc_param kv @ rest) (length pre) = length pre + length (enc_param kv)"
    by (rule separator_enc) (use Cons.prems(1) in \<open>auto simp: rest_def\<close>)
  have kv: "key_value (substr (pre @ enc_param kv @ rest) (length pre) (length (enc_param kv))) = Some kv"
    using Cons.prems(1) by (simp add: substr_def key_value_enc)
  have ne: "enc_param kv \<noteq> []" by (simp add: enc_param_def)
  show ?case
  proof (cases "length acc = MAX_ALLOWED_PARAM_NUM_IN_SINGLE_URL")
    case True
    then show ?thesis unfolding s by (subst query_loop.simps) simp
  next
    case False
    then have step: "query_loop (pre @ enc_param kv @ rest) (length pre) acc
        = query_loop (pre @ enc_param kv @ rest) (length pre + length (enc_param kv) + 1) (acc @ [kv])"
      using Cons.prems(2) ne by (subst query_loop.simps) (simp add: sep kv Let_def)
    show ?thesis
    proof (cases "kvs = []")
      case True
      then have "rest = []" by (simp add: rest_def)
      then show ?thesis unfolding s step using Cons.prems(2) False True by (subst query_loop.simps) simp
    next
      case F: False
      have "pre @ enc_param kv @ rest = (pre @ enc_param kv @ ''&'') @ enc_query kvs" using F by (simp add: rest_def)
      then show ?thesis unfolding s step
        using Cons.IH [of "acc @ [kv]" "pre @ enc_param kv @ ''&''"] Cons.prems False by simp
    qed
  qed
qed

text \<open>C38: the parameters of a URL are read back as they were written, with or without a fragment, up to the limit of 100
  parameters, beyond which they are dropped.\<close>

theorem query_roundtrip:
  assumes "CHR ''?'' \<notin> set path" and "list_all param_ok kvs"
  shows "ParseQuery (path @ ''?'' @ enc_query kvs) = take 100 kvs
    \<and> ParseQuery (path @ ''?'' @ enc_query kvs @ ''#'' @ fragment) = take 100 kvs
    \<and> ParseQuery path = []"
proof -
  have h: "CHR ''#'' \<notin> set (enc_query kvs)" using assms(2)
    by (induction kvs) (auto simp: enc_query_Cons enc_param_def param_ok_def)
  have q: "find_char (CHR ''?'') 0 (path @ CHR ''?'' # t) = Some (length path)" for t
    using find_char_stop [of "CHR ''?''" path "CHR ''?'' # t" "[]"] assms(1) by simp
  have f: "find_char (CHR ''#'') (Suc (length path)) (path @ CHR ''?'' # enc_query kvs @ t)
      = (if t = [] then None else Some (Suc (length path + length (enc_query kvs))))" if "t = [] \<or> hd t = CHR ''#''" for t
    using find_char_stop [of "CHR ''#''" "enc_query kvs" t "path @ ''?''"] h that by auto
  have l: "query_loop (enc_query kvs) 0 [] = take 100 kvs"
    using query_loop_enc [OF assms(2), of "[]" "[]"] by (simp add: MAX_ALLOWED_PARAM_NUM_IN_SINGLE_URL_def)
  have n: "find_char (CHR ''?'') 0 path = None"
    using find_char_stop [of "CHR ''?''" path "[]" "[]"] assms(1) by simp
  show ?thesis
    using q f [of "[]"] f [of "''#'' @ fragment"] l n by (simp add: ParseQuery_def substr_def Let_def)
qed

theorem query_roundtrip_witness:
  "ParseQuery (''/v1/instances/tasks'' @ ''?'' @ enc_query [(''id'', ''12''), (''id'', ''7'')]) = [(''id'', ''12''), (''id'', ''7'')]"
  using query_roundtrip [of "''/v1/instances/tasks''" "[(''id'', ''12''), (''id'', ''7'')]"] by (simp add: param_ok_def)

subsection \<open>Changing a role is safe\<close>

lemma GetTask_zero: "HasInstance i c \<Longrightarrow> \<not> 0 < GetTask i c \<longleftrightarrow> GetTasksById i c = {||}" and GetTask_known: "HasInstance i c \<Longrightarrow> GetTask i c \<noteq> - 1"
  by (auto simp: HasInstance_def GetTask_def GetTasksById_def cn_get_def neq0_conv [symmetric] simp del: neq0_conv)

lemma QueryTasksCheck_iff:
  "InstancesQueryTasksCheck ts i ix w \<longleftrightarrow> (\<forall>r a. r |\<in>| ts \<longrightarrow> GetReqInfo r w = Some a \<longrightarrow> ix (ra_route a) = i
     \<longrightarrow> ra_HasState FINISH a \<or> ra_HasState EXCEPTION a \<or> ra_HasState RS_TIMEOUT a)"
  by (fastforce simp: InstancesQueryTasksCheck_def list_all_iff split: option.splits)



end
