(* ===== verification/Cluster_Sync.thy ===== *)
theory Cluster_Sync
  imports Listener_Queries
begin

text \<open>
  The scheduler's picture of the cluster against the coordinator's. The listener and the repeaters tell the scheduler
  about instances with calls that the model records as effects. Replaying these calls on any scheduler that keeps a set of
  instances (the locale \<open>node_registry\<close>) gives exactly the instances of the cluster table, after every refresh message,
  accepted or not, and every lost connection. The node store of the default scheduler is such a registry.
\<close>

subsection \<open>The calls a scheduler receives\<close>

fun known :: "effect \<Rightarrow> u64 set \<Rightarrow> u64 set" where
  "known (SchedRegister ins) A = insert (st_id ins) A"
| "known (SchedRemoveInstance is) A = A - set is"
| "known _ A = A"

fun fed :: "effect list \<Rightarrow> u64 set \<Rightarrow> bool" where
  "fed [] A = True"
| "fed (e # es) A = ((case e of SchedUpdateInstance d \<Rightarrow> dy_id d \<in> A | _ \<Rightarrow> True) \<and> fed es (known e A))"

lemma fed_append: "fed (es @ fs) A \<longleftrightarrow> fed es A \<and> fed fs (fold known es A)"
  by (induction es arbitrary: A) auto

definition replay ::
  "(DIGSInstanceStaticInfo \<Rightarrow> 's \<Rightarrow> 's) \<Rightarrow> (DIGSInstanceDynamicInfo \<Rightarrow> 's \<Rightarrow> 's) \<Rightarrow> (u64 list \<Rightarrow> 's \<Rightarrow> 's) \<Rightarrow> effect \<Rightarrow> 's \<Rightarrow> 's" where
  "replay reg upd rem e = (case e of SchedRegister ins \<Rightarrow> reg ins | SchedUpdateInstance d \<Rightarrow> upd d
     | SchedRemoveInstance is \<Rightarrow> rem is | _ \<Rightarrow> id)"

locale node_registry =
  fixes reg :: "DIGSInstanceStaticInfo \<Rightarrow> 's \<Rightarrow> 's" and upd :: "DIGSInstanceDynamicInfo \<Rightarrow> 's \<Rightarrow> 's"
    and rem :: "u64 list \<Rightarrow> 's \<Rightarrow> 's" and nodes :: "'s \<Rightarrow> u64 set" and ok :: "'s \<Rightarrow> bool"
  assumes reg_ok: "ok s \<Longrightarrow> ok (reg ins s)" and reg_nodes: "ok s \<Longrightarrow> nodes (reg ins s) = insert (st_id ins) (nodes s)"
    and upd_ok: "ok s \<Longrightarrow> dy_id d \<in> nodes s \<Longrightarrow> ok (upd d s)" and upd_nodes: "ok s \<Longrightarrow> dy_id d \<in> nodes s \<Longrightarrow> nodes (upd d s) = nodes s"
    and rem_ok: "ok s \<Longrightarrow> ok (rem is s)" and rem_nodes: "ok s \<Longrightarrow> nodes (rem is s) = nodes s - set is"
begin

lemma replay_step:
  assumes "ok s" and "case e of SchedUpdateInstance d \<Rightarrow> dy_id d \<in> nodes s | _ \<Rightarrow> True"
  shows "ok (replay reg upd rem e s)" and "nodes (replay reg upd rem e s) = known e (nodes s)"
  using assms by (cases e; simp add: replay_def reg_ok reg_nodes upd_ok upd_nodes rem_ok rem_nodes)+

lemma replay_nodes:
  assumes "ok s" and "fed es (nodes s)"
  shows "ok (fold (replay reg upd rem) es s) \<and> nodes (fold (replay reg upd rem) es s) = fold known es (nodes s)"
  using assms
proof (induction es arbitrary: s)
  case (Cons e es)
  note S = replay_step [OF Cons.prems(1), of e]
  from Cons.prems(2) have "fed es (nodes (replay reg upd rem e s))" using S(2) by simp
  from Cons.IH [OF S(1) this] show ?case using Cons.prems(2) S(2) by simp
qed simp

end

definition listed :: "NodeStore \<Rightarrow> bool" where
  "listed s \<longleftrightarrow> ns_ok s \<and> set (nodeIndexList s) = dom (map_of (clusterStaticNodeMap s))"

lemma listed_add: "listed s \<Longrightarrow> listed (add_node ins s)"
  by (auto simp: listed_def ns_ok_add_node) (auto simp: add_node_def Let_def omap_simps split: if_splits)

lemma listed_remove: "listed s \<Longrightarrow> listed (remove_node i s)"
  using omap_ok_distinct [of "clusterStaticNodeMap s"]
  by (auto simp: listed_def ns_ok_remove_node) (auto simp: remove_node_def omap_simps ns_ok_def split: if_splits)

interpretation store: node_registry "\<lambda>ins. AddNodes [ins]" "\<lambda>d. DynamicUpdate [d]" RemoveNodes "\<lambda>s. set (nodeIndexList s)" listed
proof unfold_locales
  fix s :: NodeStore assume s: "listed s"
  show "listed (AddNodes [ins] s)" for ins by (simp add: AddNodes_def listed_add s)
  show "set (nodeIndexList (AddNodes [ins] s)) = insert (st_id ins) (set (nodeIndexList s))" for ins
    using s by (auto simp: AddNodes_def add_node_def Let_def listed_def)
  show "set (nodeIndexList (DynamicUpdate [d] s)) = set (nodeIndexList s)" for d
    by (simp add: DynamicUpdate_def UpdateP2DRelations_def update_node_lists)
  show "listed (DynamicUpdate [d] s)" if "dy_id d \<in> set (nodeIndexList s)" for d
    using s that ns_ok_DynamicUpdate [of s "[d]"]
    by (auto simp: listed_def DynamicUpdate_def UpdateP2DRelations_def update_node_lists)
      (auto simp: update_node_def UpdateD2PRelations_def Let_def omap_simps split: if_splits)
  show "listed (RemoveNodes is s)" for "is"
    unfolding RemoveNodes_def by (rule fold_invariant [where P = listed and Q = "\<lambda>_. True"]) (simp_all add: s listed_remove)
  show "set (nodeIndexList (RemoveNodes is s)) = set (nodeIndexList s) - set is" for "is"
    unfolding RemoveNodes_def by (induction "is" arbitrary: s) (auto simp: remove_node_def)
qed

subsection \<open>The coordinator's side\<close>

text \<open>Everything that changes requests only: the scheduler hears nothing about instances and the table keeps its ids.\<close>

definition quiet :: "effect \<Rightarrow> bool" where
  "quiet e \<longleftrightarrow> (case e of SchedRegister _ \<Rightarrow> False | SchedUpdateInstance _ \<Rightarrow> False | SchedRemoveInstance _ \<Rightarrow> False | _ \<Rightarrow> True)"

definition quiet_to :: "coord \<Rightarrow> coord \<Rightarrow> bool" where
  "quiet_to w w' \<longleftrightarrow> (\<exists>es. effects w' = effects w @ es \<and> list_all quiet es)"

lemma quiet_known: "list_all quiet es \<Longrightarrow> fold known es A = A \<and> fed es A"
  by (induction es) (auto simp: quiet_def split: effect.splits)

lemma quiet_to_refl [intro]: "effects w' = effects w \<Longrightarrow> quiet_to w w'"
  by (simp add: quiet_to_def)

lemma quiet_to_trans [trans]: "quiet_to u v \<Longrightarrow> quiet_to v w \<Longrightarrow> quiet_to u w"
  unfolding quiet_to_def by (metis append.assoc list_all_append)

lemma quiet_to_emit: "quiet_to w v \<Longrightarrow> quiet e \<Longrightarrow> quiet_to w (emit e v)"
  by (force simp: quiet_to_def emit_def)

lemma quiet_to_frame: "quiet_to w v \<Longrightarrow> quiet_to w (on_cluster f v)" "quiet_to w v \<Longrightarrow> quiet_to w (on_reqs g v)" "quiet_to w v \<Longrightarrow> quiet_to w (on_req r h v)"
  by (auto simp: quiet_to_def on_cluster_def on_reqs_def on_req_def split: option.splits)

lemma quiet_fold: "(\<And>x u. quiet_to w u \<Longrightarrow> quiet_to w (f x u)) \<Longrightarrow> quiet_to w v \<Longrightarrow> quiet_to w (fold f xs v)"
  by (rule fold_invariant [where P = "quiet_to w" and Q = "\<lambda>_. True"]) auto

lemma quiet_free_conn: "quiet_to w v \<Longrightarrow> quiet_to w (free_conn rid v)"
  by (auto simp: free_conn_def quiet_def intro!: quiet_to_emit quiet_to_frame split: option.splits)

lemma quiet_unlink: "quiet_to w v \<Longrightarrow> quiet_to w (unlink i rid v)"
  by (simp add: unlink_def quiet_to_frame)

lemmas quiet_intros = quiet_to_emit quiet_to_frame quiet_free_conn quiet_unlink

lemma quiet_ReqFinish: "quiet_to w v \<Longrightarrow> quiet_to w (ReqFinish m rid a v)"
  by (auto simp: ReqFinish_def Let_def quiet_def intro!: quiet_intros)

lemma quiet_clear_tasks: "quiet_to w v \<Longrightarrow> quiet_to w (clear_tasks m rid a v)"
  by (auto simp: clear_tasks_def Let_def intro!: quiet_intros split: prod.splits)

lemma quiet_ClearReq: "quiet_to w v \<Longrightarrow> quiet_to w (ClearReq m rid st t v)"
  by (auto simp: ClearReq_def Let_def quiet_def intro!: quiet_intros quiet_ReqFinish quiet_clear_tasks split: option.splits)

lemma quiet_action: "quiet_to w (state_action m t rid st w)"
  by (cases st) (auto simp: state_action_def ReqArrive_def ReqRepeated_def ReqFinishFirstToken_def ReqRetry_def Let_def quiet_def
      intro!: quiet_intros quiet_ClearReq split: option.splits)

lemma quiet_UpdateState: "quiet_to w (rm_UpdateState m t rid st w)"
  by (auto simp: rm_UpdateState_def intro!: quiet_intros quiet_action split: option.splits)

subsection \<open>Every handler keeps the two pictures equal\<close>

abbreviation ids_of :: "coord \<Rightarrow> u64 set" where
  "ids_of w \<equiv> set (cn_ids (cluster w))"

definition in_sync :: "coord \<Rightarrow> bool" where
  "in_sync w \<longleftrightarrow> cn_ok (cluster w) \<and> fed (effects w) {} \<and> fold known (effects w) {} = ids_of w"

lemma in_sync_ok: "in_sync w \<Longrightarrow> cn_ok (cluster w)"
  by (simp add: in_sync_def)

lemma in_sync_quiet: "in_sync w \<Longrightarrow> quiet_to w w' \<Longrightarrow> cn_ok (cluster w') \<Longrightarrow> ids_of w' = ids_of w \<Longrightarrow> in_sync w'"
  using quiet_known by (auto simp: in_sync_def quiet_to_def fed_append)

lemma in_sync_emit:
  assumes "in_sync w" and "cn_ok c" and "set (cn_ids c) = known e (ids_of w)" and "case e of SchedUpdateInstance d \<Rightarrow> dy_id d \<in> ids_of w | _ \<Rightarrow> True"
  shows "in_sync (emit e (w\<lparr>cluster := c\<rparr>))"
  using assms by (auto simp: in_sync_def fed_append emit_def split: effect.splits)

lemma only_tasks_trans: "only_tasks a b \<Longrightarrow> only_tasks b c \<Longrightarrow> only_tasks a c"
  by (simp add: only_tasks_def)

lemma only_tasks_UpdateState: "only_tasks (cluster w) (cluster (rm_UpdateState m t rid st w))"
  using only_tasks_action [of w m t rid st] cluster_UpdateState [of rid w _ m t st]
  by (cases "GetReqInfo rid w") (auto simp: rm_UpdateState_def)

lemma in_sync_UpdateState: "in_sync w \<Longrightarrow> in_sync (rm_UpdateState m t rid st w)"
  using only_tasks_UpdateState [of w m t rid st] by (intro in_sync_quiet [OF _ quiet_UpdateState]) (auto simp: only_tasks_def in_sync_def)

lemma fold_UpdateState:
  "quiet_to w (fold (\<lambda>rid. rm_UpdateState m t rid st) rs w) \<and> only_tasks (cluster w) (cluster (fold (\<lambda>rid. rm_UpdateState m t rid st) rs w))"
proof (induction rs arbitrary: w)
  case (Cons r rs)
  show ?case using Cons [of "rm_UpdateState m t r st w"] quiet_UpdateState [of w m t r st] only_tasks_UpdateState [of w m t r st]
    by (auto intro: quiet_to_trans only_tasks_trans)
qed (auto intro: quiet_to_refl)

lemma remove_instance_effect:
  assumes "cn_ok (cluster w)"
  shows "quiet_to w (remove_instance cfg now i w)" "cn_ok (cluster (remove_instance cfg now i w))" "ids_of (remove_instance cfg now i w) = ids_of w - {i}"
  using assms fold_UpdateState [where w = w and m = "deployMode cfg" and t = now and st = EXCEPTION and rs = "sorted_list_of_fset (GetInsRequests i w)"]
  by (auto simp: remove_instance_def on_cluster_def only_tasks_def set_RemoveInstance cn_ok_RemoveInstance quiet_to_def)

lemma fold_remove_instance:
  assumes "cn_ok (cluster w)"
  shows "quiet_to w (fold (remove_instance cfg now) is w) \<and> cn_ok (cluster (fold (remove_instance cfg now) is w))
    \<and> ids_of (fold (remove_instance cfg now) is w) = ids_of w - set is"
  using assms
proof (induction "is" arbitrary: w)
  case (Cons i "is")
  note R = remove_instance_effect [OF Cons.prems, of cfg now i]
  from Cons.IH [OF R(2)] show ?case using R(1,3) by (auto intro: quiet_to_trans)
qed (auto intro: quiet_to_refl)

lemma in_sync_Remove:
  assumes "in_sync w"
  shows "in_sync (lc_Remove cfg now is w)" and "ids_of (lc_Remove cfg now is w) = ids_of w - set is"
proof -
  let ?e = "emit (SchedRemoveInstance is) w"
  have c: "cluster ?e = cluster w" by (simp add: emit_def)
  note F = fold_remove_instance [of ?e cfg now "is", unfolded c, OF in_sync_ok [OF assms]]
  then obtain es where "effects (fold (remove_instance cfg now) is ?e) = effects w @ [SchedRemoveInstance is] @ es" "list_all quiet es"
    by (auto simp: quiet_to_def emit_def)
  with F assms show "in_sync (lc_Remove cfg now is w)" "ids_of (lc_Remove cfg now is w) = ids_of w - set is"
    using quiet_known [of es] by (auto simp: lc_Remove_def in_sync_def fed_append)
qed

lemma read_dynamic_id: "read_dynamic i j = Some d \<Longrightarrow> dy_id d = i"
  by (auto simp: read_dynamic_def bind_eq_Some_conv default_dynamic_def)

lemma in_sync_report:
  assumes "in_sync w" and "i \<in> ids_of w" and "read_dynamic i j = Some d"
  shows "in_sync (emit (SchedUpdateInstance d) w)"
  using in_sync_emit [of w "cluster w" "SchedUpdateInstance d"] assms read_dynamic_id [OF assms(3)] by (simp add: in_sync_ok)

lemma in_sync_AddIns:
  assumes "in_sync w" and "jget (ji_id j) = Some i" and "ParseInstance cfg i j = Some (ins, ip, port, name)"
    and "AddIns (lc_Update cfg now (Suc n)) i ip port mp ic ins name j w = Some (b, w')"
  shows "in_sync w' \<and> ids_of w' = insert i (ids_of w)"
proof (cases "HasInstance i (cluster w)")
  case True
  with assms show ?thesis using in_cn_ids [OF in_sync_ok [OF assms(1)]] by (auto simp: AddIns_unfold [OF assms(2,3)])
next
  case False
  let ?c = "UpdateExtraInfo i mp ic (st_totalBlockNum ins) (st_totalSlotsNum ins) (st_virtualId ins) (snd (cn_AddInstance i ip port (st_role ins) name (cluster w)))"
  let ?w = "emit (SchedRegister ins) (w\<lparr>cluster := ?c\<rparr>)"
  have i: "st_id ins = i" using ParseInstance_SomeD [OF assms(3)] by simp
  have ids: "set (cn_ids ?c) = insert i (ids_of w)"
    using False set_AddInstance [of i ip port "st_role ins" name "cluster w"] by (simp add: UpdateExtraInfo_def split: option.splits)
  have s: "in_sync ?w"
    by (rule in_sync_emit [OF assms(1)]) (use ids i in_sync_ok [OF assms(1)] in \<open>simp_all add: cn_ok_UpdateExtraInfo cn_ok_AddInstance\<close>)
  have "ids_of ?w = insert i (ids_of w)" using ids by (simp add: emit_def)
  moreover have "w' = ?w \<or> (\<exists>d. read_dynamic i j = Some d \<and> w' = emit (SchedUpdateInstance d) ?w)"
    using assms(4) False by (auto simp: AddIns_unfold [OF assms(2,3)] Let_def split: option.splits)
  ultimately show ?thesis using s in_sync_report [OF s, of i j] by (auto simp: emit_def)
qed

lemma in_sync_Add:
  assumes "in_sync w" and "lc_Add cfg (lc_Update cfg now (Suc n)) j w = Some (b, w')" and "jget (ji_id j) = Some i"
  shows "in_sync w' \<and> (ids_of w' = ids_of w \<or> ids_of w' = insert i (ids_of w))"
  using assms in_sync_AddIns [OF assms(1,3)]
  by (fastforce simp: lc_Add_def AddInsWithoutBackup_def split: option.splits if_splits)

lemma in_sync_Update:
  assumes "in_sync w" and "i \<in> ids_of w" and "jget (ji_id j) = Some i" and "lc_Update cfg now (Suc (Suc n)) j w = Some (b, w')"
  shows "in_sync w' \<and> ids_of w - {i} \<subseteq> ids_of w' \<and> ids_of w' \<subseteq> ids_of w"
proof (cases "static_at js_role j")
  case None
  with assms show ?thesis by auto
next
  case (Some role)
  show ?thesis
  proof (cases "role = cn_GetRole i (cluster w)")
    case True
    with assms Some show ?thesis
      by (auto simp: lc_Update_same_role emit_def intro: in_sync_report [OF assms(1,2), unfolded emit_def] split: option.splits)
  next
    case False
    with assms(3,4) Some have "lc_Add cfg (lc_Update cfg now (Suc n)) j (lc_Remove cfg now [i] w) = Some (b, w')" by simp
    from in_sync_Add [OF in_sync_Remove(1) [OF assms(1)] this assms(3)] in_sync_Remove(2) [OF assms(1), of cfg now "[i]"] assms(2)
    show ?thesis by auto
  qed
qed

lemma in_sync_RemoveFault: "in_sync w \<Longrightarrow> in_sync (on_cluster (RemoveFaultNode i) w)" "ids_of (on_cluster (RemoveFaultNode i) w) = ids_of w"
proof -
  have ids: "cn_ids (RemoveFaultNode i c) = cn_ids c" for c by (simp add: RemoveFaultNode_def Let_def split: option.splits)
  then show "ids_of (on_cluster (RemoveFaultNode i) w) = ids_of w" by (simp add: on_cluster_def)
  show "in_sync (on_cluster (RemoveFaultNode i) w)" if "in_sync w"
    by (rule in_sync_quiet [OF that]) (use ids in_sync_ok [OF that] in \<open>auto simp: on_cluster_def cn_ok_RemoveFaultNode\<close>)
qed

lemma in_sync_IdsAddOrUpdate:
  assumes "in_sync w" and "i \<in> set uv \<longrightarrow> i \<in> ids_of w" and "jget (ji_id j) = Some i" and "IdsAddOrUpdate cfg clk now av uv j i w = Some w'"
  shows "in_sync w' \<and> ids_of w - {i} \<subseteq> ids_of w' \<and> ids_of w' \<subseteq> ids_of w \<union> ({i} \<inter> set av)"
proof -
  define u where "u = (if IsFaultyNode i (cluster w) then on_cluster (RemoveFaultNode i) w else w)"
  have u: "in_sync u" "ids_of u = ids_of w" using in_sync_RemoveFault(1) [OF assms(1), of i] in_sync_RemoveFault(2) [of i w] assms(1) by (simp_all add: u_def)
  have d: "update_depth = Suc (Suc 0)" by (simp add: update_depth_def)
  consider "w' = w" | "w' = u" | b where "i \<in> set av" "lc_Add cfg (lc_Update cfg now update_depth) j u = Some (b, w')"
    | b where "i \<in> set uv" "lc_Update cfg now update_depth j u = Some (b, w')"
    using assms(4) by (auto simp: IdsAddOrUpdate_def u_def [symmetric] Let_def simp del: lc_Update.simps split: if_splits)
  then show ?thesis
  proof cases
    case (3 b)
    from in_sync_Add [OF u(1) 3(2) [unfolded d] assms(3)] u(2) 3(1) show ?thesis by auto
  next
    case (4 b)
    then have "i \<in> ids_of u" using assms(2) u(2) by simp
    from in_sync_Update [OF u(1) this assms(3) 4(2) [unfolded d]] u(2) show ?thesis by auto
  qed (use assms(1) u in auto)
qed

lemma jget_Some: "jget x = Some v \<longleftrightarrow> x = Val v"
  by (cases x) auto

lemma in_sync_traverse:
  assumes "in_sync w" and "distinct (map ji_id js)" and "\<And>i. i \<in> set uv \<Longrightarrow> Val i \<in> ji_id ` set js \<Longrightarrow> i \<in> ids_of w"
    and "traverse_loop cfg clk now av uv js w = Some (b, w')"
  shows "in_sync w' \<and> ids_of w' \<subseteq> ids_of w \<union> set av"
  using assms
proof (induction js arbitrary: w)
  case (Cons j js)
  show ?case
  proof (cases "jget (ji_id j)")
    case (Some i)
    then obtain u where u: "IdsAddOrUpdate cfg clk now av uv j i w = Some u" "traverse_loop cfg clk now av uv js u = Some (b, w')"
      using Cons.prems(4) by (auto simp: bind_eq_Some_conv)
    have "i \<in> set uv \<longrightarrow> i \<in> ids_of w" using Cons.prems(3) [of i] Some by (auto simp: jget_Some)
    note S = in_sync_IdsAddOrUpdate [OF Cons.prems(1) this Some u(1)]
    have ids: "k \<in> ids_of u" if "k \<in> set uv" "Val k \<in> ji_id ` set js" for k
      using Cons.prems(2) Cons.prems(3) [of k] that S Some by (auto simp: jget_Some)
    have "in_sync w' \<and> ids_of w' \<subseteq> ids_of u \<union> set av"
      by (rule Cons.IH [OF _ _ ids u(2)]) (use S Cons.prems(2) in simp_all)
    with S show ?thesis by blast
  qed (use Cons.prems in auto)
qed simp

lemma in_sync_IdsTraverse:
  assumes "in_sync w" and "distinct (map ji_id js)" and "IdsTraverse cfg clk now ids js w = Some (b, w')"
  shows "in_sync w' \<and> (b \<longrightarrow> ids_of w' \<subseteq> set ids)"
proof -
  obtain av uv rv where R: "Roll ids (cluster w) = (av, uv, rv)" by (cases "Roll ids (cluster w)") auto
  note P = Roll_partition [OF R]
  consider "\<not> b" "w' = w"
    | b1 u where "traverse_loop cfg clk now av uv js w = Some (b1, u)" "(b, w') = (if b1 then (True, lc_Remove cfg now rv u) else (False, u))"
    using assms(3) R by (auto simp: IdsTraverse_def Let_def bind_eq_Some_conv split: if_splits)
  then show ?thesis
  proof cases
    case (2 b1 u)
    have "i \<in> ids_of w" if "i \<in> set uv" for i using P(2) that by auto
    from in_sync_traverse [OF assms(1,2) this 2(1)] 2(2) in_sync_Remove [of u] P
    show ?thesis by (auto split: if_splits)
  qed (use assms(1) in auto)
qed

lemma in_sync_AddToFaulty: "in_sync w \<Longrightarrow> in_sync (AddToFaulty clk i w)"
proof -
  have af: "in_sync (on_cluster (AddFaultNode t t' k) w)" if "in_sync w" for t t' k w
  proof (rule in_sync_quiet [OF that])
    show "cn_ok (cluster (on_cluster (AddFaultNode t t' k) w))" using in_sync_ok [OF that] by (simp add: on_cluster_def cn_ok_AddFaultNode)
  qed (auto simp: on_cluster_def AddFaultNode_def split: option.splits)
  have rm: "in_sync (on_cluster (cn_RemoveInstance k) (emit (SchedRemoveInstance [k]) w))" if "in_sync w" for k w
    using that by (auto simp: in_sync_def on_cluster_def emit_def fed_append set_RemoveInstance cn_ok_RemoveInstance)
  assume "in_sync w"
  from af [OF this] show ?thesis unfolding AddToFaulty_def Let_def
    by (rule fold_invariant [where P = in_sync and Q = "\<lambda>_. True", rotated]) (auto intro: rm af)
qed

subsection \<open>Runs of the management port\<close>

lemma flex_only:
  "cn_ok c \<Longrightarrow> cn_ok (snd (ProcessFlexInstance ids js c))" "cn_ids (snd (ProcessFlexInstance ids js c)) = cn_ids c"
  by (auto simp: ProcessFlexInstance_def UpdateClusterFlexInstanceInfo_def cn_ok_flex(1) [unfolded UpdateClusterFlexInstanceInfo_def] Let_def split: option.splits)

lemma alarm_world:
  "quiet_to (world l) (world (CheckAndHandleCoordinatorStateAlarm cfg l))" "cluster (world (CheckAndHandleCoordinatorStateAlarm cfg l)) = cluster (world l)"
  by (auto simp: CheckAndHandleCoordinatorStateAlarm_def Let_def emit_def quiet_to_def quiet_def)

lemma in_sync_alarm: "in_sync (world l) \<Longrightarrow> in_sync (world (CheckAndHandleCoordinatorStateAlarm cfg l))"
  by (rule in_sync_quiet [OF _ alarm_world(1)]) (simp_all add: alarm_world(2) in_sync_ok)

text \<open>A refresh message describes every instance once: the ids differ, and the id reserved for the decode half of a flex instance is not used
  next to a flex instance. Then this is so also after the flex instance has been resolved.\<close>

definition once_each :: "InsJson list \<Rightarrow> bool" where
  "once_each js \<longleftrightarrow> distinct (map ji_id js) \<and> (flex_count js = 0 \<or> Val DECODE_INS_ID_TRANSFER_BY_FLEX \<notin> ji_id ` set js)"

lemma once_each_resolved:
  assumes "once_each js" "ProcessFlexInstance ids js c = (Some (ids', js'), c')" shows "distinct (map ji_id js')"
proof (cases "flex_count js = 0")
  case True
  have "r = None" if "find_flex js = Some r" for r
    using find_flex_SomeD [of js] that True by (cases r) (auto simp: flex_count_def filter_empty_conv)
  with assms have "js' = js" by (auto simp: ProcessFlexInstance_def split: option.splits)
  with assms(1) show ?thesis by (simp add: once_each_def)
next
  case False
  with assms flex_ids_distinct [OF assms(2)] show ?thesis by (simp add: once_each_def)
qed

lemma in_sync_refresh:
  assumes "in_sync w" and "once_each js" and "refresh_instances cfg clk now ids js w = Some (b, w')"
  shows "in_sync w' \<and> (b \<longrightarrow> (\<exists>ids' js'. fst (ProcessFlexInstance ids js (cluster w)) = Some (ids', js') \<and> ids_of w' \<subseteq> set ids'))"
proof -
  obtain r c where r: "ProcessFlexInstance ids js (cluster w) = (r, c)" by fastforce
  have s: "in_sync (w\<lparr>cluster := c\<rparr>)"
    by (rule in_sync_quiet [OF assms(1)]) (use flex_only(1) [of "cluster w" ids js] flex_only(2) [of ids js "cluster w"] r in_sync_ok [OF assms(1)] in \<open>auto intro: quiet_to_refl\<close>)
  show ?thesis
  proof (cases r)
    case None
    with assms(3) r s show ?thesis by (auto simp: refresh_instances_def)
  next
    case (Some x)
    obtain ids' js' where x: "x = (ids', js')" by fastforce
    have "distinct (map ji_id js')" using once_each_resolved [OF assms(2)] r Some x by blast
    from in_sync_IdsTraverse [OF s this] show ?thesis using assms(3) r Some x by (auto simp: refresh_instances_def)
  qed
qed

lemma init_world:
  "init_block_size js l = Some l1 \<Longrightarrow> quiet_to (world l) (world l1) \<and> cluster (world l1) = cluster (world l)"
  by (auto simp: init_block_size_def SchedulerSetBlockSize_def emit_def quiet_def quiet_to_def split: if_splits)

lemma in_sync_handler:
  assumes "in_sync (world l)" and "InstancesRefreshHandler cfg clk now idsVec js l = Some (st, l')"
    and "once_each js"
  shows "in_sync (world l') \<and> (st = HTTP_OK \<longrightarrow> (\<exists>ids ids' js'. idsVec = Some ids
    \<and> fst (ProcessFlexInstance ids js (cluster (world l))) = Some (ids', js') \<and> ids_of (world l') \<subseteq> set ids'))"
proof (cases "init_block_size js l")
  case None
  with assms show ?thesis by (auto simp: InstancesRefreshHandler_def)
next
  case (Some l1)
  note q = init_world [OF Some]
  have s: "in_sync (world l1)" by (rule in_sync_quiet [OF assms(1)]) (use q in_sync_ok [OF assms(1)] in simp_all)
  show ?thesis
  proof (cases idsVec)
    case None
    with assms(2) Some s show ?thesis by (auto simp: InstancesRefreshHandler_def)
  next
    case ids: (Some ids)
    then obtain b w where r: "refresh_instances cfg clk now ids js (world l1) = Some (b, w)"
      and l': "st = (if b then HTTP_OK else BAD_REQUEST)" "l' = CheckAndHandleCoordinatorStateAlarm cfg (l1\<lparr>world := w\<rparr>)"
      using assms(2) Some by (auto simp: InstancesRefreshHandler_def)
    from in_sync_refresh [OF s assms(3) r] show ?thesis using l' ids q by (auto simp: in_sync_alarm alarm_world(2) split: if_splits)
  qed
qed

definition new_listener :: "int \<Rightarrow> listener" where
  "new_listener pre = \<lparr>world = \<lparr>cluster = new_ClusterNodes, reqs = new_ReqManage pre, effects = []\<rparr>, lc_init = False, dataReady = False,
     inAlarmInstanceMiss = False, inAlarmCoordException = False\<rparr>"

abbreviation on_world :: "(coord \<Rightarrow> coord) \<Rightarrow> listener \<Rightarrow> listener" where
  "on_world f l \<equiv> l\<lparr>world := f (world l)\<rparr>"

text \<open>\<open>mgmt_run cfg ms l\<close>: \<open>l\<close> is reached by any sequence of operations; \<open>ms\<close> are the descriptions of instances in the refresh messages
  received on the way.\<close>

inductive mgmt_run :: "lcfg \<Rightarrow> InsJson list list \<Rightarrow> listener \<Rightarrow> bool" for cfg where
  start: "mgmt_run cfg [] (new_listener pre)"
| refresh: "mgmt_run cfg ms l \<Longrightarrow> InstancesRefreshHandler cfg clk now idsVec js l = Some (st, l') \<Longrightarrow> mgmt_run cfg (js # ms) l'"
| offline: "mgmt_run cfg ms l \<Longrightarrow> mgmt_run cfg ms (snd (InstancesOfflineHandler idsVec l))"
| online: "mgmt_run cfg ms l \<Longrightarrow> mgmt_run cfg ms (snd (InstancesOnlineHandler idsVec l))"
| ready: "mgmt_run cfg ms l \<Longrightarrow> mgmt_run cfg ms (l\<lparr>dataReady := b\<rparr>)"
| lost: "mgmt_run cfg ms l \<Longrightarrow> mgmt_run cfg ms (on_world (AddToFaulty clock i) l)"
| request: "mgmt_run cfg ms l \<Longrightarrow> mgmt_run cfg ms (on_world (\<lambda>w. snd (rm_AddReq route rid ty conn req w)) l)"
| route: "mgmt_run cfg ms l \<Longrightarrow> mgmt_run cfg ms (on_world (rm_SetRoute rid route) l)"
| update: "mgmt_run cfg ms l \<Longrightarrow> mgmt_run cfg ms (on_world (rm_UpdateState (deployMode cfg) now rid rst) l)"
| release: "mgmt_run cfg ms l \<Longrightarrow> mgmt_run cfg ms (on_world (ReleaseFinishedRequest maxReqs) l)"

lemma in_sync_plain:
  assumes "in_sync w" and "quiet_to w w'" and "cluster w' = cluster w"
  shows "in_sync w'"
  using in_sync_quiet [OF assms(1,2)] assms(3) in_sync_ok [OF assms(1)] by simp

lemma quiet_requests:
  "quiet_to w (snd (rm_AddReq route rid ty conn req w))" "quiet_to w (rm_SetRoute rid route w)" "quiet_to w (ReleaseFinishedRequest maxReqs w)"
proof -
  have "quiet_to w (fold close_finished es v)" if "quiet_to w v" for es v
    by (rule quiet_fold [OF _ that]) (auto simp: close_finished_def quiet_def intro!: quiet_intros split: option.splits prod.splits)
  from this [of w] show "quiet_to w (ReleaseFinishedRequest maxReqs w)"
    by (auto simp: ReleaseFinishedRequest_def CheckAndHandleReqCongestionAlarm_def Let_def quiet_def intro!: quiet_intros)
qed (auto simp: rm_AddReq_def rm_SetRoute_def quiet_def Let_def intro!: quiet_intros split: option.splits)

lemma cluster_requests:
  "cluster (snd (rm_AddReq route rid ty conn req w)) = cluster w" "cluster (rm_SetRoute rid route w) = cluster w"
  "cluster (ReleaseFinishedRequest maxReqs w) = cluster w"
proof -
  have "cluster (fold close_finished es v) = cluster v" for es v
    by (induction es arbitrary: v) (auto simp: close_finished_def coord_simps split: option.splits)
  then show "cluster (ReleaseFinishedRequest maxReqs w) = cluster w"
    by (simp add: ReleaseFinishedRequest_def CheckAndHandleReqCongestionAlarm_def Let_def coord_simps)
qed (simp_all add: rm_AddReq_def rm_SetRoute_def Let_def coord_simps split: option.splits)

lemma online_world: "quiet_to w (fold (\<lambda>i. emit (SchedActivateInstance i)) ids w)" "cluster (fold (\<lambda>i. emit (SchedActivateInstance i)) ids w) = cluster w"
proof -
  show "cluster (fold (\<lambda>i. emit (SchedActivateInstance i)) ids w) = cluster w"
    by (induction ids arbitrary: w) (auto simp: emit_def)
  show "quiet_to w (fold (\<lambda>i. emit (SchedActivateInstance i)) ids w)"
    by (rule quiet_fold) (auto simp: quiet_def intro: quiet_to_emit)
qed

lemma in_sync_run: "mgmt_run cfg ms l \<Longrightarrow> \<forall>js \<in> set ms. once_each js \<Longrightarrow> in_sync (world l)"
proof (induction rule: mgmt_run.induct)
  case (start pre)
  show ?case by (simp add: in_sync_def new_listener_def cn_ok_new) (simp add: new_ClusterNodes_def)
next
  case (refresh ms l clk now idsVec js st l')
  then have "in_sync (world l)" "once_each js" by simp_all
  from in_sync_handler [OF this(1) refresh.hyps(2) this(2)] show ?case by blast
next
  case (offline ms l idsVec)
  then show ?case
    by (intro in_sync_plain [OF offline.IH [OF offline.prems]]) (auto simp: InstancesOfflineHandler_def Let_def quiet_def coord_simps intro!: quiet_intros split: option.splits)
next
  case (online ms l idsVec)
  then show ?case using online_world
    by (intro in_sync_plain [OF online.IH [OF online.prems]]) (auto simp: InstancesOnlineHandler_def split: option.splits)
qed (simp_all add: in_sync_AddToFaulty in_sync_UpdateState in_sync_plain quiet_requests cluster_requests)


end
