(* ===== verification/Refresh_Effect.thy ===== *)
theory Refresh_Effect
  imports Cluster_Sync
begin

text \<open>
  What a refresh message achieves: after it the table holds no instance that the message does not list, and every listed
  instance whose description is valid and that is not in quarantine.
\<close>

subsection \<open>Other instances are left alone\<close>

definition calm :: "u64 \<Rightarrow> ClusterNodes \<Rightarrow> ClusterNodes \<Rightarrow> bool" where
  "calm i c c' \<longleftrightarrow> map_option ii_virtualId (map_of (instanceInfos c') i) = map_option ii_virtualId (map_of (instanceInfos c) i)
     \<and> faultIds c' |\<subseteq>| faultIds c \<and> faultVirtualIds c' |\<subseteq>| faultVirtualIds c"

lemma calm_refl [simp, intro]: "calm i c c"
  by (simp add: calm_def)

lemma calm_trans [trans]: "calm i a b \<Longrightarrow> calm i b c \<Longrightarrow> calm i a c"
  by (auto simp: calm_def)

lemma calm_healthy: "calm i c c' \<Longrightarrow> \<not> IsFaultyNode i c \<Longrightarrow> \<not> IsFaultyNode i c'"
  by (cases "map_of (instanceInfos c) i"; cases "map_of (instanceInfos c') i") (auto simp: calm_def IsFaultyNode_def)

lemma calm_upd: "(\<And>v. ii_virtualId (f v) = ii_virtualId v) \<Longrightarrow> calm i a c \<Longrightarrow> calm i a (upd_instance k f c)"
  by (auto simp: calm_def cn_simps) (auto simp: upd_instance_def option.map_comp comp_def split: option.splits)

lemma calm_tasks: "calm i a c \<Longrightarrow> calm i a (AddTask k r c)" "calm i a c \<Longrightarrow> calm i a (DecreaseTask k r c)"
  by (simp_all add: AddTask_def DecreaseTask_def calm_upd)

lemma calm_fault: "calm i c (RemoveFaultNode k c)"
  by (auto simp: calm_def RemoveFaultNode_def Let_def split: option.splits)

lemma calm_remove: "cn_ok c \<Longrightarrow> k \<noteq> i \<Longrightarrow> calm i c (cn_RemoveInstance k c)"
  by (auto simp: calm_def cn_RemoveInstance_def omap_simps cn_okD(1))

lemma calm_add: "k \<noteq> i \<Longrightarrow> calm i c (UpdateExtraInfo k a b x y z (snd (cn_AddInstance k ip port role m c)))"
  by (auto simp: calm_def UpdateExtraInfo_def cn_AddInstance_def omap_simps split: option.splits)

lemma calm_ClearReq: "calm i (cluster w) (cluster (ClearReq m rid st t w))"
proof (cases "GetReqInfo rid w")
  case (Some a)
  have "calm i (cluster u) (cluster (clear_tasks m rid a u))" for u
    by (cases "ra_route a") (auto simp: clear_tasks_def Let_def coord_simps intro: calm_tasks)
  from this [of w] show ?thesis using Some
    by (auto simp: ClearReq_def clear_tasks_def same_address_def Let_def coord_simps split: prod.splits)
qed (auto simp: ClearReq_def coord_simps)

lemma calm_action: "calm i (cluster w) (cluster (state_action m t rid st w))"
  by (cases st) (auto simp: state_action_def ReqArrive_def ReqRepeated_def ReqFinishFirstToken_def ReqRetry_def Let_def
      coord_simps calm_ClearReq intro: calm_tasks split: option.splits)

lemma calm_UpdateState: "calm i (cluster w) (cluster (rm_UpdateState m t rid st w))"
  using calm_action [of i w m t rid st] cluster_UpdateState [of rid w _ m t st]
  by (cases "GetReqInfo rid w") (auto simp: rm_UpdateState_def)

lemma calm_Remove:
  assumes "in_sync w" and "k \<noteq> i"
  shows "calm i (cluster w) (cluster (lc_Remove cfg now [k] w))"
proof -
  let ?e = "emit (SchedRemoveInstance [k]) w"
  let ?u = "fold (\<lambda>rid. rm_UpdateState (deployMode cfg) now rid EXCEPTION) (sorted_list_of_fset (GetInsRequests k ?e)) ?e"
  have "calm i (cluster u) (cluster (fold (\<lambda>rid. rm_UpdateState m t rid st) rs u))" for u m t st rs
    by (induction rs arbitrary: u) (auto intro: calm_trans calm_UpdateState)
  from this [of ?e] have "calm i (cluster w) (cluster ?u)" by (simp add: coord_simps)
  moreover have "cn_ok (cluster ?u)"
    using fold_UpdateState [of ?e "deployMode cfg" now EXCEPTION] in_sync_ok [OF assms(1)] by (simp add: only_tasks_def coord_simps)
  ultimately show ?thesis
    using calm_trans [OF _ calm_remove [OF _ assms(2)]] by (simp add: lc_Remove_def remove_instance_def coord_simps)
qed

lemma calm_AddIns:
  assumes "jget (ji_id j) = Some k" and "ParseInstance cfg k j = Some (ins, ip, port, name)" and "k \<noteq> i"
    and "AddIns (lc_Update cfg now (Suc n)) k ip port mp ic ins name j w = Some (b, w')"
  shows "calm i (cluster w) (cluster w')"
  using assms(3,4) by (auto simp: AddIns_unfold [OF assms(1,2)] Let_def coord_simps intro: calm_add split: if_splits option.splits)

lemma calm_Add:
  assumes "lc_Add cfg (lc_Update cfg now (Suc n)) j w = Some (b, w')" and "jget (ji_id j) = Some k" and "k \<noteq> i"
  shows "calm i (cluster w) (cluster w')"
  using assms calm_AddIns [OF assms(2) _ assms(3)] by (fastforce simp: lc_Add_def AddInsWithoutBackup_def split: option.splits if_splits)

lemma calm_Update:
  assumes "in_sync w" and "jget (ji_id j) = Some k" and "k \<noteq> i" and "lc_Update cfg now (Suc (Suc n)) j w = Some (b, w')"
  shows "calm i (cluster w) (cluster w')"
proof (cases "static_at js_role j = Some (cn_GetRole k (cluster w)) \<or> static_at js_role j = None")
  case True
  with assms show ?thesis by (auto simp: lc_Update_same_role emit_def split: option.splits)
next
  case False
  with assms(2,4) have "lc_Add cfg (lc_Update cfg now (Suc n)) j (lc_Remove cfg now [k] w) = Some (b, w')"
    by (auto split: option.splits if_splits)
  from calm_trans [OF calm_Remove [OF assms(1,3)] calm_Add [OF this assms(2,3)]] show ?thesis .
qed

lemma calm_IdsAddOrUpdate:
  assumes "in_sync w" and "jget (ji_id j) = Some k" and "k \<noteq> i" and "IdsAddOrUpdate cfg clk now av uv j k w = Some w'"
  shows "calm i (cluster w) (cluster w')"
proof -
  define u where "u = (if IsFaultyNode k (cluster w) then on_cluster (RemoveFaultNode k) w else w)"
  have u: "in_sync u" "calm i (cluster w) (cluster u)"
    using in_sync_RemoveFault(1) [OF assms(1), of k] assms(1) by (simp_all add: u_def coord_simps calm_fault)
  have d: "update_depth = Suc (Suc 0)" by (simp add: update_depth_def)
  consider "w' = w" | "w' = u" | b where "lc_Add cfg (lc_Update cfg now update_depth) j u = Some (b, w')"
    | b where "lc_Update cfg now update_depth j u = Some (b, w')"
    using assms(4) by (auto simp: IdsAddOrUpdate_def u_def [symmetric] Let_def simp del: lc_Update.simps split: if_splits)
  then show ?thesis
  proof cases
    case 3 with calm_Add [OF _ assms(2,3)] u(2) show ?thesis unfolding d by (blast intro: calm_trans)
  next
    case 4 with calm_Update [OF u(1) assms(2,3)] u(2) show ?thesis unfolding d by (blast intro: calm_trans)
  qed (use u in auto)
qed

subsection \<open>Valid instances get in\<close>

definition admissible :: "lcfg \<Rightarrow> u64 \<Rightarrow> InsJson \<Rightarrow> bool" where
  "admissible cfg i j = (case (jget (ji_metric_port j), jget (ji_inter_comm_port j), ParseInstance cfg i j) of
       (Some mp, Some ic, Some (ins, ip, port, _)) \<Rightarrow> IsValidPortString mp
         \<and> (deployMode cfg = ''pd_disaggregation_single_container'' \<longrightarrow> IsValidPortString ic)
         \<and> (backupEnable cfg \<or> st_role ins \<noteq> DECODE_INSTANCE \<or> list_ex (linkUp cfg ip port) [0..<maxRetry cfg + 1])
     | _ \<Rightarrow> False)"

lemma Add_registers:
  assumes "in_sync w" and "jget (ji_id j) = Some i" and "admissible cfg i j" and "lc_Add cfg (lc_Update cfg now (Suc n)) j w = Some (b, w')"
  shows "i \<in> ids_of w'"
proof -
  obtain mp ic ins ip port name where P: "ParseInstance cfg i j = Some (ins, ip, port, name)" "jget (ji_metric_port j) = Some mp"
    "jget (ji_inter_comm_port j) = Some ic" "IsValidPortString mp" "deployMode cfg = ''pd_disaggregation_single_container'' \<longrightarrow> IsValidPortString ic"
    "backupEnable cfg \<or> st_role ins \<noteq> DECODE_INSTANCE \<or> list_ex (linkUp cfg ip port) [0..<maxRetry cfg + 1]"
    using assms(3) by (auto simp: admissible_def split: option.splits)
  then have "AddIns (lc_Update cfg now (Suc n)) i ip port mp ic ins name j w = Some (b, w')"
    using assms(2,4) by (auto simp: lc_Add_def AddInsWithoutBackup_def split: if_splits)
  from in_sync_AddIns [OF assms(1,2) P(1) this] show ?thesis by simp
qed

lemma Update_keeps:
  assumes "in_sync w" and "i \<in> ids_of w" and "jget (ji_id j) = Some i" and "admissible cfg i j"
    and "lc_Update cfg now (Suc (Suc n)) j w = Some (b, w')"
  shows "i \<in> ids_of w'"
proof (cases "static_at js_role j = Some (cn_GetRole i (cluster w)) \<or> static_at js_role j = None")
  case True
  with assms show ?thesis by (auto simp: lc_Update_same_role emit_def split: option.splits)
next
  case False
  with assms(3,5) have "lc_Add cfg (lc_Update cfg now (Suc n)) j (lc_Remove cfg now [i] w) = Some (b, w')"
    by (auto split: option.splits if_splits)
  from Add_registers [OF in_sync_Remove(1) [OF assms(1)] assms(3,4) this] show ?thesis .
qed

lemma IdsAddOrUpdate_registers:
  assumes "in_sync w" and "jget (ji_id j) = Some i" and "admissible cfg i j" and "\<not> IsFaultyNode i (cluster w)"
    and "i \<in> set av \<or> i \<in> set uv \<and> i \<in> ids_of w" and "IdsAddOrUpdate cfg clk now av uv j i w = Some w'"
  shows "i \<in> ids_of w'"
proof -
  have d: "update_depth = Suc (Suc 0)" by (simp add: update_depth_def)
  consider b where "lc_Add cfg (lc_Update cfg now update_depth) j w = Some (b, w')"
    | b where "i \<in> ids_of w" "lc_Update cfg now update_depth j w = Some (b, w')"
    using assms(4-6) by (auto simp: IdsAddOrUpdate_def Let_def simp del: lc_Update.simps split: if_splits)
  then show ?thesis
    by cases (use Add_registers [OF assms(1-3)] Update_keeps [OF assms(1) _ assms(2,3)] in \<open>auto simp: d simp del: lc_Update.simps\<close>)
qed

lemma traverse_others:
  assumes "in_sync w" and "distinct (map ji_id js)" and "\<And>k. k \<in> set uv \<Longrightarrow> Val k \<in> ji_id ` set js \<Longrightarrow> k \<in> ids_of w"
    and "traverse_loop cfg clk now av uv js w = Some (b, w')" and "i \<in> ids_of w" and "Val i \<notin> ji_id ` set js"
  shows "i \<in> ids_of w'"
  using assms
proof (induction js arbitrary: w)
  case (Cons x xs)
  show ?case
  proof (cases "jget (ji_id x)")
    case (Some k)
    then obtain u where u: "IdsAddOrUpdate cfg clk now av uv x k w = Some u" "traverse_loop cfg clk now av uv xs u = Some (b, w')"
      using Cons.prems(4) by (auto simp: bind_eq_Some_conv)
    have ku: "k \<in> set uv \<longrightarrow> k \<in> ids_of w" using Cons.prems(3) [of k] Some by (auto simp: jget_Some)
    note S = in_sync_IdsAddOrUpdate [OF Cons.prems(1) ku Some u(1)]
    have ids: "l \<in> ids_of u" if "l \<in> set uv" "Val l \<in> ji_id ` set xs" for l
      using Cons.prems(2) Cons.prems(3) [of l] that S Some by (auto simp: jget_Some)
    have "i \<in> ids_of u" using S Cons.prems(5,6) Some by (auto simp: jget_Some)
    then show ?thesis by (intro Cons.IH [OF _ _ ids u(2)]) (use S Cons.prems(2,6) in auto)
  qed (use Cons.prems in auto)
qed simp

lemma traverse_registers:
  assumes "in_sync w" and "distinct (map ji_id js)" and "\<And>k. k \<in> set uv \<Longrightarrow> Val k \<in> ji_id ` set js \<Longrightarrow> k \<in> ids_of w"
    and "traverse_loop cfg clk now av uv js w = Some (True, w')"
    and "j \<in> set js" and "ji_id j = Val i" and "admissible cfg i j" and "\<not> IsFaultyNode i (cluster w)" and "i \<in> set av \<or> i \<in> set uv"
  shows "i \<in> ids_of w'"
  using assms
proof (induction js arbitrary: w)
  case (Cons x xs)
  obtain k u where k: "ji_id x = Val k" and u: "IdsAddOrUpdate cfg clk now av uv x k w = Some u" "traverse_loop cfg clk now av uv xs u = Some (True, w')"
    using Cons.prems(4) by (auto simp: bind_eq_Some_conv jget_Some split: option.splits)
  have ku: "k \<in> set uv \<longrightarrow> k \<in> ids_of w" using Cons.prems(3) [of k] k by auto
  note S = in_sync_IdsAddOrUpdate [OF Cons.prems(1) ku _ u(1)]
  have ids: "l \<in> ids_of u" if "l \<in> set uv" "Val l \<in> ji_id ` set xs" for l
    using Cons.prems(2) Cons.prems(3) [of l] that S k by (auto simp: jget_Some)
  show ?case
  proof (cases "x = j")
    case True
    then have "k = i" using k Cons.prems(6) by simp
    have in_u: "i \<in> ids_of u"
      by (rule IdsAddOrUpdate_registers [OF Cons.prems(1) _ Cons.prems(7) Cons.prems(8)]) (use u(1) True k \<open>k = i\<close> ku Cons.prems(9) in \<open>auto simp: jget_Some\<close>)
    show ?thesis
      by (rule traverse_others [OF _ _ ids u(2) in_u]) (use S k Cons.prems(2) \<open>k = i\<close> in \<open>auto simp: jget_Some\<close>)
  next
    case False
    then have ne: "k \<noteq> i" using Cons.prems(2,5,6) k by (auto simp: image_iff)
    have h: "\<not> IsFaultyNode i (cluster u)"
      by (rule calm_healthy [OF calm_IdsAddOrUpdate [OF Cons.prems(1) _ ne u(1)] Cons.prems(8)]) (simp add: k)
    show ?thesis
      by (rule Cons.IH [OF _ _ ids u(2) _ Cons.prems(6,7) h Cons.prems(9)]) (use S k Cons.prems(2,5) False in \<open>auto simp: jget_Some\<close>)
  qed
qed simp

lemma traverse_completes:
  assumes "\<And>j. j \<in> set js \<Longrightarrow> jget (ji_id j) \<noteq> None"
  shows "\<exists>w'. traverse_loop cfg clk now av uv js w = Some (True, w')"
  using assms
proof (induction js arbitrary: w)
  case (Cons j js)
  obtain i where i: "jget (ji_id j) = Some i" using Cons.prems by fastforce
  obtain u where "IdsAddOrUpdate cfg clk now av uv j i w = Some u" using IdsAddOrUpdate_total [of cfg clk now av uv j i w] by blast
  then show ?case using i Cons.IH [of u] Cons.prems by simp
qed simp

lemma IdsTraverse_converges:
  assumes "in_sync w" and "distinct (map ji_id js)" and "\<And>j. j \<in> set js \<Longrightarrow> jget (ji_id j) \<noteq> None"
    and "length ids \<le> unat (GetInsNumMax (cluster w))" and "length js \<le> unat (GetInsNumMax (cluster w))"
  shows "\<exists>w'. IdsTraverse cfg clk now ids js w = Some (True, w') \<and> ids_of w' \<subseteq> set ids
    \<and> (\<forall>j i. j \<in> set js \<longrightarrow> ji_id j = Val i \<longrightarrow> i \<in> set ids \<longrightarrow> admissible cfg i j \<longrightarrow> \<not> IsFaultyNode i (cluster w) \<longrightarrow> i \<in> ids_of w')"
proof -
  obtain av uv rv where R: "Roll ids (cluster w) = (av, uv, rv)" by (cases "Roll ids (cluster w)") auto
  note P = Roll_partition [OF R]
  obtain u where u: "traverse_loop cfg clk now av uv js w = Some (True, u)" using traverse_completes [OF assms(3)] by blast
  have uv: "k \<in> ids_of w" if "k \<in> set uv" for k using P(2) that by auto
  have T: "IdsTraverse cfg clk now ids js w = Some (True, lc_Remove cfg now rv u)"
    using assms(4,5) by (simp add: IdsTraverse_def Let_def R u)
  have su: "in_sync u" using in_sync_traverse [OF assms(1,2) uv u] by simp
  have "i \<in> ids_of (lc_Remove cfg now rv u)" if "j \<in> set js" "ji_id j = Val i" "i \<in> set ids" "admissible cfg i j" "\<not> IsFaultyNode i (cluster w)" for i j
    using traverse_registers [OF assms(1,2) uv u that(1,2,4,5)] that(3) P in_sync_Remove(2) [OF su, of cfg now rv] by auto
  then show ?thesis using T in_sync_IdsTraverse [OF assms(1,2) T] by blast
qed

lemma refresh_reaches:
  assumes "mgmt_run cfg ms l" and "\<forall>m \<in> set ms. once_each m" and "ProcessFlexInstance ids js (cluster (world l)) = (Some (ids', js'), c)"
    and "distinct (map ji_id js')" and "\<And>j. j \<in> set js' \<Longrightarrow> jget (ji_id j) \<noteq> None"
    and "length ids' \<le> unat (GetInsNumMax c)" and "length js' \<le> unat (GetInsNumMax c)" and "init_block_size js l \<noteq> None"
  shows "\<exists>l'. InstancesRefreshHandler cfg clk now (Some ids) js l = Some (HTTP_OK, l') \<and> set (cn_ids (cluster (world l'))) \<subseteq> set ids'
    \<and> (\<forall>j i. j \<in> set js' \<longrightarrow> ji_id j = Val i \<longrightarrow> i \<in> set ids' \<longrightarrow> admissible cfg i j
         \<longrightarrow> \<not> IsFaultyNode i (cluster (world l)) \<longrightarrow> i \<in> set (cn_ids (cluster (world l'))))"
proof -
  obtain l1 where l1: "init_block_size js l = Some l1" using assms(8) by blast
  note q = init_world [OF l1] and S = in_sync_run [OF assms(1,2)]
  let ?w = "(world l1)\<lparr>cluster := c\<rparr>"
  have c: "cn_ok c" "cn_ids c = cn_ids (cluster (world l))"
    using flex_only(1) [of "cluster (world l)" ids js] flex_only(2) [of ids js "cluster (world l)"] assms(3) in_sync_ok [OF S] by auto
  have s: "in_sync ?w" by (rule in_sync_quiet [OF S]) (use q c in \<open>auto simp: quiet_to_def\<close>)
  have fl: "IsFaultyNode i c = IsFaultyNode i (cluster (world l))" for i
    using assms(3) by (auto simp: ProcessFlexInstance_def UpdateClusterFlexInstanceInfo_def IsFaultyNode_def Let_def split: option.splits if_splits)
  obtain w where w: "IdsTraverse cfg clk now ids' js' ?w = Some (True, w)" "ids_of w \<subseteq> set ids'"
    "\<forall>j i. j \<in> set js' \<longrightarrow> ji_id j = Val i \<longrightarrow> i \<in> set ids' \<longrightarrow> admissible cfg i j \<longrightarrow> \<not> IsFaultyNode i c \<longrightarrow> i \<in> ids_of w"
    using IdsTraverse_converges [OF s assms(4,5), of ids' cfg clk now] assms(6,7) by auto
  have "InstancesRefreshHandler cfg clk now (Some ids) js l = Some (HTTP_OK, CheckAndHandleCoordinatorStateAlarm cfg (l1\<lparr>world := w\<rparr>))"
    using l1 q assms(3) w(1) by (simp add: InstancesRefreshHandler_def refresh_instances_def)
  then show ?thesis using w(2,3) fl by (simp add: alarm_world(2))
qed


definition ex_cfg :: lcfg where
  "ex_cfg = \<lparr>deployMode = ''pd_separate'', backupEnable = True, maxRetry = 1, singleNodeMaxReqs = 100, inet4 = \<lambda>_. True, inet6 = \<lambda>_. False,
     linkUp = \<lambda>_ _ _. True\<rparr>"

definition ex_refresh :: "InsJson list" where
  "ex_refresh = [ex_ins 1 PREFILL_INSTANCE PREFILL_STATIC 0 200 [2], ex_ins 2 DECODE_INSTANCE DECODE_STATIC 0 200 [1]]"

lemma ex_refresh_flex: "ProcessFlexInstance [1, 2] ex_refresh c = (Some ([1, 2], ex_refresh), c)"
  by (simp add: ProcessFlexInstance_def ex_refresh_def ex_ins_def static_at_def)

lemma ex_admissible: "admissible ex_cfg 1 (ex_refresh ! 0)"
  by (simp add: admissible_def ParseInstance_def read_static_def CheckInstance_def CheckInstanceReturn_def IsValidIp_def IsValidIpv4_def
      IsValidPortString_def is_digit_def digits_value_def IsPDSeparateMode_def u32_def default_static_def static_at_def
      ex_cfg_def ex_refresh_def ex_ins_def)

lemma ex_refresh_facts:
  "distinct (map ji_id ex_refresh)" "j \<in> set ex_refresh \<Longrightarrow> jget (ji_id j) \<noteq> None" "init_block_size ex_refresh (new_listener 0) \<noteq> None"
  "length [1, 2 :: u64] \<le> unat (GetInsNumMax (cluster (world (new_listener 0))))" "length ex_refresh \<le> unat (GetInsNumMax (cluster (world (new_listener 0))))"
  "ex_refresh ! 0 \<in> set ex_refresh" "ji_id (ex_refresh ! 0) = Val 1" "\<not> IsFaultyNode 1 (cluster (world (new_listener 0)))"
  by (auto simp: ex_refresh_def ex_ins_def init_block_size_def static_at_def new_listener_def new_ClusterNodes_def GetInsNumMax_def
      IsFlexSplitedIntoTwoInstance_def INS_NUM_MAX_def IsFaultyNode_def)



subsection \<open>Messages that describe an instance twice\<close>

text \<open>A message that describes a registered instance twice can separate the table and the scheduler. The first description has another role but
  does not parse (a port out of range, say): the instance is taken out and not put back. The second one has no role, which counts as no
  change for an instance the table does not have, so its load is reported to the scheduler, whose store makes a node of it.\<close>

lemma DynamicUpdate_creates: "IsNodeAvailable (dy_id d) (DynamicUpdate [d] s)"
  by (simp add: IsNodeAvailable_def DynamicUpdate_def UpdateP2DRelations_def update_node_def UpdateD2PRelations_def Let_def omap_simps)

lemma duplicate_ids_desynchronise:
  assumes "in_sync w" "ji_id j1 = Val i" "ji_id j2 = Val i" "i \<notin> set av" "i \<in> set uv"
    and "\<not> IsFaultyNode i (cluster w)" "\<not> IsFaultyNode i (cluster (lc_Remove cfg now [i] w))"
    and "static_at js_role j1 = Some r" "r \<noteq> cn_GetRole i (cluster w)" "ParseInstance cfg i j1 = None"
    and "static_at js_role j2 = Some UN_DEF_INSTANCE" "read_dynamic i j2 = Some d"
  shows "\<exists>w'. traverse_loop cfg clk now av uv [j1, j2] w = Some (True, w') \<and> \<not> HasInstance i (cluster w')
    \<and> IsNodeAvailable i (fold (replay (\<lambda>ins. AddNodes [ins]) (\<lambda>d. DynamicUpdate [d]) RemoveNodes) (effects w') new_NodeStore)"
proof -
  let ?u = "lc_Remove cfg now [i] w"
  have S: "in_sync ?u" "i \<notin> ids_of ?u" using in_sync_Remove [OF assms(1), of cfg now "[i]"] by simp_all
  have none: "\<not> HasInstance i (cluster ?u)" using S(2) in_cn_ids [OF in_sync_ok [OF S(1)], of i] by simp
  then have role: "cn_GetRole i (cluster ?u) = UN_DEF_INSTANCE" by (simp add: HasInstance_def cn_GetRole_def cn_get_def)
  have 1: "map_option snd (lc_Update cfg now update_depth j1 w) = Some ?u"
    using assms(2,8-10) by (simp add: update_depth_def numeral_2_eq_2 lc_Add_def ex_bool_eq split: option.split)
  have 2: "lc_Update cfg now update_depth j2 ?u = Some (True, emit (SchedUpdateInstance d) ?u)"
    using assms(3,11,12) role by (simp add: update_depth_def numeral_2_eq_2)
  have "traverse_loop cfg clk now av uv [j1, j2] w = Some (True, emit (SchedUpdateInstance d) ?u)"
    using assms(2-7) 1 2 by (auto simp: IdsAddOrUpdate_def)
  moreover have "dy_id d = i" using read_dynamic_id [OF assms(12)] .
  ultimately show ?thesis using none DynamicUpdate_creates [of d] by (auto simp: emit_def replay_def)
qed

end
