(* ===== verification/Meta_Resource.thy ===== *)
theory Meta_Resource
  imports Digs_Types
begin

text \<open>
  \<^verbatim>\<open>coordinator/digs_scheduler/meta_resource.{h,cpp}\<close>: a resource amount is a vector of 64-bit
  attributes (slots, blocks, ...) together with the multiset of the prompt lengths behind it.
  The class's static members are the record \<open>meta_cfg\<close>; \<^verbatim>\<open>std::multiset\<close> iterates in
  ascending order and is modelled by the ascending list of its elements.
\<close>

record MetaResource =
  attributes :: "u64 list"
  computeAttributes :: "u64 list"

record meta_cfg =
  defaultAttr :: "u64 list"
  attrName :: "string list"
  resWeight :: "f64 list"

definition init_meta_cfg :: meta_cfg where
  "init_meta_cfg = \<lparr>defaultAttr = [1, 0], attrName = [''slots'', ''blocks''],
     resWeight = map f64_lit [0, 22 / 100, 1024, 24, 6, 0, 1, 0, 1]\<rparr>"

definition ATTR_SLOTS :: nat where [simp]: "ATTR_SLOTS = 0"
definition ATTR_BLOCKS :: nat where [simp]: "ATTR_BLOCKS = 1"
definition SPEC_WEIGHTS :: nat where [simp]: "SPEC_WEIGHTS = 7"
definition ATTR_A :: nat where [simp]: "ATTR_A = 0"
definition ATTR_O :: nat where [simp]: "ATTR_O = 2"
definition ATTR_N :: nat where [simp]: "ATTR_N = 3"
definition ATTR_K :: nat where [simp]: "ATTR_K = 4"
definition ATTR_M :: nat where [simp]: "ATTR_M = 5"
definition ATTR_R :: nat where [simp]: "ATTR_R = 6"

subsection \<open>Constructors and accessors\<close>

definition MetaResource_of :: "u64 list \<Rightarrow> MetaResource" where
  "MetaResource_of as = \<lparr>attributes = as, computeAttributes = []\<rparr>"

definition MetaResource_default :: "meta_cfg \<Rightarrow> MetaResource" where
  "MetaResource_default cfg = MetaResource_of (defaultAttr cfg)"

definition MetaResource_fill :: "meta_cfg \<Rightarrow> u64 \<Rightarrow> MetaResource" where
  "MetaResource_fill cfg v = MetaResource_of (replicate (length (defaultAttr cfg)) v)"

text \<open>The copying constructor copies the attributes only.\<close>

definition MetaResource_copy :: "MetaResource \<Rightarrow> MetaResource" where
  "MetaResource_copy r = MetaResource_of (attributes r)"

definition At :: "MetaResource \<Rightarrow> nat \<Rightarrow> u64" where
  "At r i = attributes r ! i"

definition Slots :: "MetaResource \<Rightarrow> u64" where
  "Slots r = attributes r ! ATTR_SLOTS"

definition Blocks :: "MetaResource \<Rightarrow> u64" where
  "Blocks r = attributes r ! ATTR_BLOCKS"

definition UpdateBlocks :: "u64 \<Rightarrow> MetaResource \<Rightarrow> MetaResource" where
  "UpdateBlocks v r = r\<lparr>attributes := (attributes r)[ATTR_BLOCKS := v]\<rparr>"

definition UpdateTokens :: "u64 \<Rightarrow> MetaResource \<Rightarrow> MetaResource" where
  "UpdateTokens v r = r\<lparr>computeAttributes := insort v (computeAttributes r)\<rparr>"

subsection \<open>Comparison and accounting\<close>

text \<open>The loops over the attributes, on the two attribute vectors.\<close>

fun attrs_ge :: "u64 list \<Rightarrow> u64 list \<Rightarrow> bool" where
  "attrs_ge (x # xs) (y # ys) = (if x < y then False else attrs_ge xs ys)"
| "attrs_ge _ _ = True"

definition CompareTo :: "MetaResource \<Rightarrow> MetaResource \<Rightarrow> bool" where
  "CompareTo r other =
     (if length (attributes r) \<noteq> length (attributes other) then False
      else attrs_ge (attributes r) (attributes other))"

definition IncResource :: "MetaResource \<Rightarrow> MetaResource \<Rightarrow> bool \<times> MetaResource" where
  "IncResource r other =
     (if length (attributes r) \<noteq> length (attributes other) then (False, r)
      else (True, r\<lparr>attributes := map2 (+) (attributes r) (attributes other),
                    computeAttributes := fold insort (computeAttributes other) (computeAttributes r)\<rparr>))"

definition DecResource :: "MetaResource \<Rightarrow> MetaResource \<Rightarrow> bool \<times> MetaResource" where
  "DecResource r other =
     (if CompareTo r other
      then (True, r\<lparr>attributes := map2 (-) (attributes r) (attributes other),
                    computeAttributes := fold remove1 (computeAttributes other) (computeAttributes r)\<rparr>)
      else (False, r))"

text \<open>
  \<^verbatim>\<open>operator<\<close>: false as soon as an attribute of the left operand exceeds the right one's, so it
  is \<open>\<le>\<close> in every component. The right operand has at least as many attributes wherever the
  code compares.
\<close>

fun attrs_lt :: "u64 list \<Rightarrow> u64 list \<Rightarrow> bool" where
  "attrs_lt (x # xs) (y # ys) = (if x > y then False else attrs_lt xs ys)"
| "attrs_lt _ _ = True"

definition meta_less :: "MetaResource \<Rightarrow> MetaResource \<Rightarrow> bool" where
  "meta_less r1 r2 = attrs_lt (attributes r1) (attributes r2)"

fun mul_attrs :: "u64 list \<Rightarrow> f64 \<Rightarrow> u64 list option" where
  "mul_attrs [] mul = Some []"
| "mul_attrs (a # as) mul =
     (let product = f64_mul (f64_of_u64 a) mul in
      if f64_isfinite product \<and> \<not> f64_lt product (Fin 0) \<and> f64_lt product (f64_of_u64 (- 1))
      then (case f64_to_u64 product of
              None \<Rightarrow> None
            | Some v \<Rightarrow> map_option (Cons v) (mul_attrs as mul))
      else None)"

text \<open>
  \<open>ResMul\<close> returns \<^const>\<open>None\<close> for \<^verbatim>\<open>ILLEGAL_PARAMETER\<close>, in which case the source leaves
  the result pointer null.
\<close>

definition ResMul :: "MetaResource \<Rightarrow> f64 \<Rightarrow> MetaResource option" where
  "ResMul src mul =
     (let copy = MetaResource_copy src in
      if f64_lt DOUBLE_EPS (f64_abs (f64_sub mul (Fin 1)))
      then map_option (\<lambda>as. copy\<lparr>attributes := as\<rparr>) (mul_attrs (attributes copy) mul)
      else Some copy)"

definition TotalLoad :: "MetaResource \<Rightarrow> u64" where
  "TotalLoad r = fold (\<lambda>a s. s + a) (attributes r) 0"

subsection \<open>Compute-aware load\<close>

text \<open>The loop over the sorted sequence lengths; arguments \<^verbatim>\<open>groupNum\<close>, \<^verbatim>\<open>tailSeqNum\<close>, \<^verbatim>\<open>n\<close>,
  \<^verbatim>\<open>k\<close>, then \<^verbatim>\<open>groupIdx\<close>, \<^verbatim>\<open>innerCount\<close> and the sum so far.\<close>

fun token_loop :: "nat \<Rightarrow> nat \<Rightarrow> nat \<Rightarrow> nat \<Rightarrow> u64 list \<Rightarrow> nat \<Rightarrow> nat \<Rightarrow> u64 \<Rightarrow> u64" where
  "token_loop groupNum tailSeqNum n k [] groupIdx innerCount tokenSum = tokenSum"
| "token_loop groupNum tailSeqNum n k (seqTokens # rest) groupIdx innerCount tokenSum =
     (if 0 < groupNum \<and> groupIdx < groupNum
      then (if Suc innerCount mod n = 0
            then token_loop groupNum tailSeqNum n k rest (Suc groupIdx) (Suc innerCount)
                   (tokenSum + seqTokens * of_nat n)
            else token_loop groupNum tailSeqNum n k rest groupIdx (Suc innerCount) tokenSum)
      else (if Suc innerCount = tailSeqNum
            then token_loop groupNum tailSeqNum n k rest groupIdx (Suc innerCount)
                   (tokenSum + (if tailSeqNum \<le> k then seqTokens div 2 * of_nat tailSeqNum
                                else seqTokens * of_nat tailSeqNum))
            else token_loop groupNum tailSeqNum n k rest groupIdx (Suc innerCount) tokenSum))"

definition f64_to_size :: "f64 \<Rightarrow> nat" where
  "f64_to_size x = nat (min (2 ^ 64 - 1) (max 0 (case x of
     Fin a \<Rightarrow> rat_trunc a | PInf \<Rightarrow> 2 ^ 64 - 1 | NInf \<Rightarrow> 0 | NaN \<Rightarrow> 0)))"

definition GetTokenSum :: "meta_cfg \<Rightarrow> MetaResource \<Rightarrow> u64 \<Rightarrow> MetaResource \<Rightarrow> u64" where
  "GetTokenSum cfg res maxSlots demand =
     (let w = resWeight cfg;
          o0 = f64_to_i64 (w ! ATTR_O); off = (if o0 < 0 then 0 else o0);
          n0 = f64_to_i64 (w ! ATTR_N); n = nat (if n0 \<le> 0 then 1 else n0);
          k = f64_to_size (w ! ATTR_K);
          demandSeqInput = (if length (computeAttributes demand) = 1
                            then computeAttributes demand ! 0 else 0)
      in if DoubleIsZero (w ! ATTR_A) then 1
         else if unat maxSlots < n div 2
         then fold (\<lambda>t s. s + (t + of_int off)) (computeAttributes res) 0 + demandSeqInput
         else let tmpComAttr = insort demandSeqInput (sort (map (\<lambda>v. v + of_int off) (computeAttributes res)));
                  seqNum = length tmpComAttr
              in token_loop (seqNum div n) (seqNum mod n) n k tmpComAttr 0 0 0)"

fun attr_load :: "f64 list \<Rightarrow> MetaResource \<Rightarrow> MetaResource \<Rightarrow> nat list \<Rightarrow> f64 \<Rightarrow> f64" where
  "attr_load w res demand [] load = load"
| "attr_load w res demand (i # is) load =
     attr_load w res demand is
       (f64_add (f64_add load (f64_mul (f64_of_u64 (At res i)) (w ! (i + SPEC_WEIGHTS))))
          (f64_mul (f64_of_u64 (At demand i)) (w ! (i + SPEC_WEIGHTS))))"

definition ComputeAwareLoad :: "meta_cfg \<Rightarrow> MetaResource \<Rightarrow> u64 \<Rightarrow> u64 \<Rightarrow> MetaResource \<Rightarrow> f64" where
  "ComputeAwareLoad cfg res maxSlots reportedBlocks demand =
     (let w = resWeight cfg;
          tokensScore = f64_mul (f64_of_u64 (GetTokenSum cfg res maxSlots demand)) (w ! ATTR_A);
          maxSlots' = (if Slots res = maxSlots then maxSlots + 1 else maxSlots);
          maxSlotsScore = f64_mul (f64_of_u64 maxSlots') (w ! ATTR_M);
          blocksScore = f64_mul (f64_of_u64 reportedBlocks) (w ! ATTR_R);
          load = attr_load w res demand [0..<length (attrName cfg)] (Fin 0)
      in f64_add (f64_add (f64_add tokensScore maxSlotsScore) blocksScore) load)"

subsection \<open>Adding and removing a demand\<close>

definition meta_ok :: "MetaResource \<Rightarrow> bool" where
  "meta_ok r \<longleftrightarrow> sorted (computeAttributes r)"

definition no_overflow :: "MetaResource \<Rightarrow> MetaResource \<Rightarrow> bool" where
  "no_overflow r d \<longleftrightarrow> list_all2 (\<lambda>x y. unat x + unat y < 2 ^ 64) (attributes r) (attributes d)"

lemma attrs_ge_iff:
  "length xs = length ys \<Longrightarrow> attrs_ge xs ys \<longleftrightarrow> (\<forall>i<length xs. ys ! i \<le> xs ! i)"
proof (induction xs ys rule: list_induct2)
  case Nil
  show ?case by simp
next
  case (Cons x xs y ys)
  then show ?case by (auto simp: All_less_Suc2)
qed

lemma attrs_lt_iff:
  "length xs \<le> length ys \<Longrightarrow> attrs_lt xs ys \<longleftrightarrow> (\<forall>i<length xs. xs ! i \<le> ys ! i)"
proof (induction xs ys rule: attrs_lt.induct)
  case (1 x xs y ys)
  then show ?case by (auto simp: All_less_Suc2)
qed simp_all

lemma CompareTo_list_all2:
  "CompareTo r d \<longleftrightarrow> list_all2 (\<lambda>x y. y \<le> x) (attributes r) (attributes d)"
  by (auto simp: CompareTo_def attrs_ge_iff list_all2_conv_all_nth)

lemma mset_fold_insort: "mset (fold insort xs ys) = mset xs + mset ys"
  by (induction xs arbitrary: ys) auto

lemma sorted_fold_insort: "sorted ys \<Longrightarrow> sorted (fold insort xs ys)"
  by (induction xs arbitrary: ys) (auto simp: sorted_insort)

lemma mset_fold_remove1: "mset (fold remove1 xs ys) = mset ys - mset xs"
  by (induction xs arbitrary: ys) auto

lemma sorted_fold_remove1: "sorted ys \<Longrightarrow> sorted (fold remove1 xs ys)"
  by (induction xs arbitrary: ys) (auto simp: sorted_remove1)

lemma fold_remove1_insort:
  "sorted (ys :: 'a::linorder list) \<Longrightarrow> fold remove1 xs (fold insort xs ys) = ys"
proof -
  assume ys: "sorted ys"
  have "sort ys = fold remove1 xs (fold insort xs ys)"
    by (rule properties_for_sort)
       (simp_all add: ys mset_fold_remove1 mset_fold_insort sorted_fold_remove1 sorted_fold_insort)
  with ys show ?thesis by (simp add: sorted_sort_id)
qed

lemma attrs_ge_add:
  "list_all2 (\<lambda>x y. unat x + unat y < 2 ^ 64) xs ys \<Longrightarrow> attrs_ge (map2 (+) xs ys) ys"
proof (induction xs ys rule: list_all2_induct)
  case Nil
  show ?case by simp
next
  case (Cons x xs y ys)
  then have "y \<le> x + y" by (simp add: word_le_nat_alt unat_word_ariths)
  with Cons show ?case by (simp add: not_less)
qed

lemma map2_add_sub: "length xs = length ys \<Longrightarrow> map2 (-) (map2 (+) xs ys) ys = (xs :: u64 list)"
  by (induction xs ys rule: list_induct2) auto

lemma TotalLoad_fill: "TotalLoad (MetaResource_fill mc 0) = 0"
proof -
  have "fold (\<lambda>a s. s + a) (replicate n (0 :: u64)) 0 = 0" for n
    by (induction n) auto
  then show ?thesis by (simp add: TotalLoad_def MetaResource_fill_def MetaResource_of_def)
qed

text \<open>With finite weights that are not negative the load is never NaN, so loads are comparable.\<close>

definition weight_ok :: "f64 \<Rightarrow> bool" where
  "weight_ok w = (case w of Fin r \<Rightarrow> 0 \<le> r | _ \<Rightarrow> False)"

definition weights_ok :: "meta_cfg \<Rightarrow> bool" where
  "weights_ok cfg \<longleftrightarrow> SPEC_WEIGHTS + length (attrName cfg) \<le> length (resWeight cfg)
     \<and> list_all weight_ok (resWeight cfg)"

lemma weight_ok_mul: "weight_ok w \<Longrightarrow> f64_nn (f64_mul (f64_of_u64 x) w)"
  by (auto simp: weight_ok_def f64_nn_mul_u64 split: f64.splits)

lemma weights_ok_nth: "weights_ok cfg \<Longrightarrow> i < SPEC_WEIGHTS + length (attrName cfg) \<Longrightarrow>
    weight_ok (resWeight cfg ! i)"
  by (simp add: weights_ok_def list_all_length)

text \<open>The built-in weights qualify.\<close>

lemma weight_ok_lit: "0 \<le> x \<Longrightarrow> x < 2 ^ 64 \<Longrightarrow> weight_ok (f64_lit x)"
  using rnd64_finite [of x] by (auto simp: weight_ok_def f64_lit_def)

lemma weights_ok_init: "weights_ok init_meta_cfg"
  by (simp add: weights_ok_def init_meta_cfg_def weight_ok_lit)

lemma f64_nn_attr_load:
  "(\<And>i. i \<in> set is \<Longrightarrow> weight_ok (w ! (i + SPEC_WEIGHTS))) \<Longrightarrow> f64_nn load \<Longrightarrow>
     f64_nn (attr_load w res dem is load)"
  by (induction "is" arbitrary: load) (simp_all add: f64_nn_add weight_ok_mul)

lemma f64_nn_ComputeAwareLoad:
  assumes "weights_ok cfg"
  shows "f64_nn (ComputeAwareLoad cfg res m b dem)"
proof -
  have "f64_nn (Fin 0)" by (simp add: f64_nn_def)
  with assms show ?thesis unfolding ComputeAwareLoad_def Let_def
    by (intro f64_nn_add weight_ok_mul f64_nn_attr_load weights_ok_nth) auto
qed

text \<open>A rate of one takes the totals as they are.\<close>

lemma DOUBLE_EPS_nonneg: "\<not> f64_lt DOUBLE_EPS (Fin 0)"
  by (rule f64_lit_nonneg [of "1 / 1000000", folded DOUBLE_EPS_def]) simp

lemma ResMul_one: "ResMul r (Fin 1) = Some (MetaResource_copy r)"
  using DOUBLE_EPS_nonneg by (simp add: ResMul_def f64_sub_def f64_abs_def)

subsection \<open>The token sum\<close>

text \<open>What the loop adds once there is a full group: the longest sequence of every full group,
  \<open>n\<close> times, and nothing for the tail.\<close>

definition group_sum :: "nat \<Rightarrow> nat \<Rightarrow> u64 list \<Rightarrow> u64" where
  "group_sum n c xs = (\<Sum>i<length xs. if Suc (c + i) mod n = 0 then xs ! i * of_nat n else 0)"

lemma group_sum_Nil [simp]: "group_sum n c [] = 0"
  by (simp add: group_sum_def)

lemma group_sum_Cons [simp]:
  "group_sum n c (x # xs) = (if Suc c mod n = 0 then x * of_nat n else 0) + group_sum n (Suc c) xs"
  by (simp add: group_sum_def sum.lessThan_Suc_shift del: sum.lessThan_Suc cong: if_cong)

lemma token_loop_groups:
  assumes "0 < n" "0 < G" "K < n" "c + length xs = G * n + K"
  shows "token_loop G K n k xs (c div n) c s = s + group_sum n c xs"
  using assms(4)
proof (induction xs arbitrary: c s)
  case Nil
  show ?case by simp
next
  case (Cons x xs)
  show ?case
  proof (cases "c < G * n")
    case True
    then have "c div n < G" using assms(1) by (simp add: div_less_iff_less_mult)
    moreover have "Suc c + length xs = G * n + K" using Cons.prems by simp
    ultimately show ?thesis
      using Cons.IH [of "Suc c"] assms(1-3)
      by (cases "Suc c mod n = 0") (simp_all add: div_Suc add.assoc)
  next
    case False
    have "c < G * n + n" using Cons.prems assms(3) by simp
    with False have g: "c div n = G" "Suc c div n = G"
      using Cons.prems assms(1,3) by (auto intro!: div_nat_eqI simp: algebra_simps)
    then have m: "Suc c mod n \<noteq> 0" by (simp add: div_Suc split: if_splits)
    have "n \<le> G * n" using assms(2) by simp
    with False assms(3) have "Suc c \<noteq> K" by linarith
    with g m Cons.prems Cons.IH [of "Suc c" s] show ?thesis by simp
  qed
qed

lemma token_loop_no_group:
  assumes "c + length xs = K"
  shows "token_loop 0 K n k xs g c s =
    s + (if xs = [] then 0 else if K \<le> k then last xs div 2 * of_nat K else last xs * of_nat K)"
  using assms by (induction xs arbitrary: c s) auto

subsection \<open>Properties\<close>

text \<open>Adding a demand to a resource amount and removing it again restores the amount, attributes
  and sequence lengths both, when no attribute overflows 64 bits.\<close>

lemma inc_dec_roundtrip:
  assumes "no_overflow r d" and "meta_ok r"
  shows "fst (IncResource r d) \<and> DecResource (snd (IncResource r d)) d = (True, r)"
proof
  have len: "length (attributes r) = length (attributes d)"
    using assms(1) by (auto simp: no_overflow_def dest: list_all2_lengthD)
  then show "fst (IncResource r d)" by (simp add: IncResource_def)
  have "CompareTo (snd (IncResource r d)) d"
    using assms(1) len by (simp add: CompareTo_def IncResource_def no_overflow_def attrs_ge_add)
  then show "DecResource (snd (IncResource r d)) d = (True, r)"
    using assms(2) len
    by (simp add: DecResource_def IncResource_def map2_add_sub fold_remove1_insort meta_ok_def)
qed

text \<open>A demand is removed exactly when the sizes agree and no attribute would become negative;
  otherwise the amount is left as it was.\<close>

lemma dec_resource_guard:
  "DecResource r d =
    (if list_all2 (\<lambda>x y. y \<le> x) (attributes r) (attributes d)
     then (True, \<lparr>attributes = map2 (-) (attributes r) (attributes d),
                  computeAttributes = fold remove1 (computeAttributes d) (computeAttributes r)\<rparr>)
     else (False, r))"
  by (cases r) (auto simp: DecResource_def CompareTo_list_all2)

text \<open>The token score of an instance. With a nonzero first weight and enough slots, the sequence
  lengths are cut into groups of \<open>n\<close> in ascending order. If there is a full group, only the longest
  sequence of each full group counts, \<open>n\<close> times, and the tail is ignored; the tail is
  counted only when there is no full group.\<close>

lemma token_sum_closed_form:
  assumes "0 < n"
  shows "token_loop (length xs div n) (length xs mod n) n k xs 0 0 0 =
    (if n \<le> length xs then (\<Sum>i<length xs. if Suc i mod n = 0 then xs ! i * of_nat n else 0)
     else if xs = [] then 0
     else if length xs \<le> k then last xs div 2 * of_nat (length xs)
     else last xs * of_nat (length xs))"
proof (cases "n \<le> length xs")
  case True
  then have "0 < length xs div n" using assms by (simp add: div_greater_zero_iff)
  then have "token_loop (length xs div n) (length xs mod n) n k xs (0 div n) 0 0 = 0 + group_sum n 0 xs"
    using assms by (intro token_loop_groups) auto
  with True show ?thesis by (simp add: group_sum_def)
next
  case False
  then have "length xs div n = 0" "length xs mod n = length xs" by simp_all
  with False token_loop_no_group [of 0 xs "length xs" n k 0 0] show ?thesis by simp
qed

text \<open>The number of cache blocks of a prompt is the number of tokens divided by the block size,
  rounded up: the blocks hold every token and one block less would not. A zero block size gives 0.\<close>

lemma BlockNum_is_ceiling:
  assumes "unat tokens + unat bs \<le> 2 ^ 64" and "bs \<noteq> 0"
  shows "unat tokens \<le> unat (BlockNum tokens bs) * unat bs
    \<and> unat (BlockNum tokens bs) * unat bs < unat tokens + unat bs
    \<and> BlockNum tokens 0 = 0"
proof -
  have bs: "0 < unat bs" using assms(2) by (simp add: unat_gt_0)
  show ?thesis
    using ceil_div_bounds [OF bs, of "unat tokens"]
    by (simp add: unat_BlockNum [OF assms]) (simp add: BlockNum_def)
qed

end
