(* ===== verification/Digs_Request.thy ===== *)
theory Digs_Request
  imports Meta_Resource
begin

text \<open>
  \<^verbatim>\<open>coordinator/request/req_schedule_info.h\<close> and \<^verbatim>\<open>coordinator/request/digs_request.{h,cpp}\<close>:
  one inference request, its allocation record and its state machine
  WAITING, SCHEDULING, ALLOCATED, PREFILL_END, DECODE_END (and INVALID).
  A \<^verbatim>\<open>std::once_flag\<close> is the boolean \<open>released\<close>; the clock is an argument. The two
  callbacks a request carries are its address in the request heap (control callback, see
  \<open>Request_Manager\<close>) and the scheduler's wake-up, which \<open>notified\<close> results report.
\<close>

subsection \<open>Allocation record (req_schedule_info.h)\<close>

record ReqScheduleInfo =
  rs_groupId :: u64
  prefillInst :: u64
  decodeInst :: u64
  demand :: MetaResource
  prefillReleased :: bool
  decodeReleased :: bool

definition new_ReqScheduleInfo :: "MetaResource \<Rightarrow> ReqScheduleInfo" where
  "new_ReqScheduleInfo d = \<lparr>rs_groupId = ILLEGAL_INSTANCE_ID, prefillInst = ILLEGAL_INSTANCE_ID,
     decodeInst = ILLEGAL_INSTANCE_ID, demand = d, prefillReleased = False, decodeReleased = False\<rparr>"

text \<open>\<^verbatim>\<open>std::call_once\<close>: the first call returns true, every later one false.\<close>

definition PrefillRelease :: "ReqScheduleInfo \<Rightarrow> bool \<times> ReqScheduleInfo" where
  "PrefillRelease si = (\<not> prefillReleased si, si\<lparr>prefillReleased := True\<rparr>)"

definition DecodeRelease :: "ReqScheduleInfo \<Rightarrow> bool \<times> ReqScheduleInfo" where
  "DecodeRelease si = (\<not> decodeReleased si, si\<lparr>decodeReleased := True\<rparr>)"

subsection \<open>The request (digs_request.h, digs_request.cpp)\<close>

datatype DIGSReqState = INVALID | WAITING | SCHEDULING | ALLOCATED | PREFILL_END | DECODE_END

datatype DIGSReqOperation = REQUEST_UPDATE | REQUEST_REMOVE

record DIGSRequest =
  reqId :: string
  inputLen :: u64
  outputLen :: u64
  scheduleInfo :: "ReqScheduleInfo option"
  state :: DIGSReqState
  createTime :: u64
  scheduleTime :: u64
  startTime :: u64
  prefillEndTime :: u64
  decodeEndTime :: u64
  prefillCostTime :: u64
  maxPrefix :: u64

definition new_DIGSRequest :: "u64 \<Rightarrow> string \<Rightarrow> u64 \<Rightarrow> DIGSRequest" where
  "new_DIGSRequest now rid len = \<lparr>reqId = rid, inputLen = len, outputLen = 0, scheduleInfo = None,
     state = WAITING, createTime = now, scheduleTime = 0, startTime = 0, prefillEndTime = 0,
     decodeEndTime = 0, prefillCostTime = 0, maxPrefix = 0\<rparr>"

definition empty_DIGSRequest :: "u64 \<Rightarrow> DIGSRequest" where
  "empty_DIGSRequest now = \<lparr>reqId = ''invalid_ID'', inputLen = 0, outputLen = 0, scheduleInfo = None,
     state = INVALID, createTime = now, scheduleTime = 0, startTime = 0, prefillEndTime = 0,
     decodeEndTime = 0, prefillCostTime = 0, maxPrefix = 0\<rparr>"

definition InitScheduleInfo :: "u64 \<Rightarrow> MetaResource \<Rightarrow> DIGSRequest \<Rightarrow> DIGSRequest" where
  "InitScheduleInfo now d r =
     r\<lparr>scheduleInfo := Some (new_ReqScheduleInfo d), scheduleTime := now\<rparr>"

text \<open>The updates return the code, whether the release callback runs, and the request.\<close>

definition UpdateState2PrefillEnd :: "u64 \<Rightarrow> DIGSRequest \<Rightarrow> Status \<times> bool \<times> DIGSRequest" where
  "UpdateState2PrefillEnd t r =
     (if state r = ALLOCATED
      then (OK, True, r\<lparr>prefillEndTime := t, state := PREFILL_END\<rparr>)
      else (STATE_ERROR, False, r))"

definition UpdateState2DecodeEnd ::
  "u64 \<Rightarrow> u64 \<Rightarrow> u64 \<Rightarrow> DIGSRequest \<Rightarrow> Status \<times> bool \<times> DIGSRequest" where
  "UpdateState2DecodeEnd pt dt outLen r =
     (if state r = PREFILL_END \<or> state r = ALLOCATED
      then (OK, True,
            (if pt \<noteq> 0 then r\<lparr>prefillEndTime := pt\<rparr> else r)
              \<lparr>outputLen := outLen, decodeEndTime := dt, state := DECODE_END\<rparr>)
      else if state r = SCHEDULING
      then (OK, False, r\<lparr>state := DECODE_END\<rparr>)
      else (STATE_ERROR, False, r))"

definition UpdateState2Invalid :: "DIGSRequest \<Rightarrow> Status \<times> DIGSRequest" where
  "UpdateState2Invalid r =
     (if state r = WAITING then (OK, r\<lparr>state := INVALID\<rparr>) else (STATE_ERROR, r))"

definition UpdateState2Scheduling :: "DIGSRequest \<Rightarrow> Status \<times> DIGSRequest" where
  "UpdateState2Scheduling r =
     (if state r = WAITING then (OK, r\<lparr>state := SCHEDULING\<rparr>)
      else if state r = ALLOCATED then (OK, r\<lparr>state := SCHEDULING\<rparr>)
      else (STATE_ERROR, r))"

definition UpdateState2Allocated :: "u64 \<Rightarrow> DIGSRequest \<Rightarrow> Status \<times> DIGSRequest" where
  "UpdateState2Allocated now r =
     (if state r = SCHEDULING then (OK, r\<lparr>state := ALLOCATED, startTime := now\<rparr>)
      else (STATE_ERROR, r))"

definition ControlCallback ::
  "DIGSReqOperation \<Rightarrow> u64 \<Rightarrow> u64 \<Rightarrow> u64 \<Rightarrow> DIGSRequest \<Rightarrow> Status \<times> bool \<times> DIGSRequest" where
  "ControlCallback opn pt dt outLen r = (case opn of
       REQUEST_UPDATE \<Rightarrow> UpdateState2PrefillEnd pt r
     | REQUEST_REMOVE \<Rightarrow> UpdateState2DecodeEnd pt dt outLen r)"

subsection \<open>The state machine\<close>

text \<open>One event of a request's life, with the code's transition for it.\<close>

datatype req_event = EvInvalid | EvScheduling | EvAllocated u64 | EvPrefillEnd u64
  | EvDecodeEnd u64 u64 u64

fun req_step :: "req_event \<Rightarrow> DIGSRequest \<Rightarrow> DIGSRequest" where
  "req_step EvInvalid r = snd (UpdateState2Invalid r)"
| "req_step EvScheduling r = snd (UpdateState2Scheduling r)"
| "req_step (EvAllocated now) r = snd (UpdateState2Allocated now r)"
| "req_step (EvPrefillEnd t) r = snd (snd (UpdateState2PrefillEnd t r))"
| "req_step (EvDecodeEnd pt dt n) r = snd (snd (UpdateState2DecodeEnd pt dt n r))"

text \<open>The transitions of a request: under which event a state is left for which other one, and whether the release callback of the
  request runs then. Every combination that is not listed is refused with \<^const>\<open>STATE_ERROR\<close>. The table is a specification; the
  comments of \<^verbatim>\<open>DIGSReqState\<close> only name the states.\<close>

datatype req_kind = KInvalid | KScheduling | KAllocated | KPrefillEnd | KDecodeEnd

fun kind_of :: "req_event \<Rightarrow> req_kind" where
  "kind_of EvInvalid = KInvalid"
| "kind_of EvScheduling = KScheduling"
| "kind_of (EvAllocated _) = KAllocated"
| "kind_of (EvPrefillEnd _) = KPrefillEnd"
| "kind_of (EvDecodeEnd _ _ _) = KDecodeEnd"

inductive req_trans :: "req_kind \<Rightarrow> DIGSReqState \<Rightarrow> bool \<Rightarrow> DIGSReqState \<Rightarrow> bool" where
  drop: "req_trans KInvalid WAITING False INVALID"
| pull: "req_trans KScheduling WAITING False SCHEDULING"
| resched: "req_trans KScheduling ALLOCATED False SCHEDULING"
| alloc: "req_trans KAllocated SCHEDULING False ALLOCATED"
| prefill: "req_trans KPrefillEnd ALLOCATED True PREFILL_END"
| finish: "req_trans KDecodeEnd PREFILL_END True DECODE_END"
| skip: "req_trans KDecodeEnd ALLOCATED True DECODE_END"
| timeout: "req_trans KDecodeEnd SCHEDULING False DECODE_END"

inductive_simps req_trans_simps: "req_trans k s b t"

definition state_step :: "DIGSReqState \<Rightarrow> DIGSReqState \<Rightarrow> bool" where
  "state_step s t \<longleftrightarrow> (\<exists>k b. req_trans k s b t)"

text \<open>What the code answers to an event: the status, whether the callback runs, and the request.\<close>

fun req_answer :: "req_event \<Rightarrow> DIGSRequest \<Rightarrow> Status \<times> bool \<times> DIGSRequest" where
  "req_answer EvInvalid r = (let (st, r') = UpdateState2Invalid r in (st, False, r'))"
| "req_answer EvScheduling r = (let (st, r') = UpdateState2Scheduling r in (st, False, r'))"
| "req_answer (EvAllocated now) r = (let (st, r') = UpdateState2Allocated now r in (st, False, r'))"
| "req_answer (EvPrefillEnd t) r = UpdateState2PrefillEnd t r"
| "req_answer (EvDecodeEnd pt dt n) r = UpdateState2DecodeEnd pt dt n r"

text \<open>The stages whose release callback runs during a sequence of events.\<close>

fun releases :: "req_event list \<Rightarrow> DIGSRequest \<Rightarrow> DIGSReqStage list" where
  "releases [] r = []"
| "releases (e # es) r = (let (st, b, r') = req_answer e r
     in (if b then [if kind_of e = KPrefillEnd then PREFILL else DECODE] else []) @ releases es r')"

lemmas req_update_defs = UpdateState2Invalid_def UpdateState2Scheduling_def
  UpdateState2Allocated_def UpdateState2PrefillEnd_def UpdateState2DecodeEnd_def

lemma req_answer_step: "snd (snd (req_answer e r)) = req_step e r"
  by (cases e) (simp_all split: prod.splits)

lemma state_step_intros:
  "state_step WAITING INVALID" "state_step WAITING SCHEDULING" "state_step SCHEDULING ALLOCATED"
  by (auto simp: state_step_def req_trans_simps)

lemma req_step_cases:
  "state (req_step e r) = state r \<or> state_step (state r) (state (req_step e r))"
  by (cases e; cases "state r") (auto simp: req_update_defs state_step_def req_trans_simps)

lemma req_step_frame:
  "reqId (req_step e r) = reqId r" "inputLen (req_step e r) = inputLen r"
  "scheduleInfo (req_step e r) = scheduleInfo r"
  by (cases e; simp add: req_update_defs)+

definition final_state :: "DIGSReqState \<Rightarrow> bool" where
  "final_state s \<longleftrightarrow> s = DECODE_END \<or> s = INVALID"

lemma state_step_not_final: "state_step s t \<Longrightarrow> \<not> final_state s"
  by (auto simp: final_state_def state_step_def req_trans_simps)

subsection \<open>Properties\<close>

lemma releases_from:
  "releases es r \<in> (case state r of PREFILL_END \<Rightarrow> {[], [DECODE]} | DECODE_END \<Rightarrow> {[]} | INVALID \<Rightarrow> {[]}
     | _ \<Rightarrow> {[], [PREFILL], [DECODE], [PREFILL, DECODE]})"
proof (induction es arbitrary: r)
  case (Cons e es)
  from Cons [of "req_step e r"] show ?case
    by (cases e; cases "state r") (auto simp: req_update_defs)
qed (simp split: DIGSReqState.split)

text \<open>C39: the life cycle of a request is exactly the table of transitions: an update is answered with success if and only if the table has a
  transition for it in the current state, then the state becomes the one the table names and the release callback runs exactly when the
  table says so; every other update is refused and changes nothing. Over any sequence of updates of a fresh request the callbacks
  that run are none, the one of the prefill stage, the one of the decode stage, or both in this order, never one of them twice;
  and DECODE_END and INVALID are final.\<close>

theorem request_life_cycle:
  "(fst (req_answer e r) = OK \<longleftrightarrow> (\<exists>b t. req_trans (kind_of e) (state r) b t))
   \<and> (\<forall>b t. req_trans (kind_of e) (state r) b t \<longrightarrow> fst (snd (req_answer e r)) = b \<and> state (req_step e r) = t)
   \<and> (fst (req_answer e r) \<noteq> OK \<longrightarrow> req_answer e r = (STATE_ERROR, False, r))
   \<and> releases es (new_DIGSRequest now rid len) \<in> {[], [PREFILL], [DECODE], [PREFILL, DECODE]}
   \<and> (final_state (state r) \<longrightarrow> fold req_step es r = r \<and> releases es r = [])"
proof -
  have fin: "fold req_step es r = r" if "final_state (state r)"
    using that
  proof (induction es)
    case (Cons e es)
    have "req_step e r = r" using Cons.prems by (cases e) (auto simp: req_update_defs final_state_def)
    with Cons show ?case by simp
  qed simp
  have "releases es r = []" if "final_state (state r)" using releases_from [of es r] that by (auto simp: final_state_def)
  moreover have "releases es (new_DIGSRequest now rid len) \<in> {[], [PREFILL], [DECODE], [PREFILL, DECODE]}"
    using releases_from [of es "new_DIGSRequest now rid len"] by (simp add: new_DIGSRequest_def)
  moreover have "(fst (req_answer e r) = OK \<longleftrightarrow> (\<exists>b t. req_trans (kind_of e) (state r) b t))
      \<and> (\<forall>b t. req_trans (kind_of e) (state r) b t \<longrightarrow> fst (snd (req_answer e r)) = b \<and> state (req_step e r) = t)
      \<and> (fst (req_answer e r) \<noteq> OK \<longrightarrow> req_answer e r = (STATE_ERROR, False, r))"
    by (cases e; cases "state r") (simp_all add: req_update_defs req_trans_simps ex_bool_eq)
  ultimately show ?thesis using fin by blast
qed

definition ex_events :: "req_event list" where
  "ex_events = [EvScheduling, EvAllocated 4, EvPrefillEnd 5, EvPrefillEnd 6, EvDecodeEnd 0 9 3, EvDecodeEnd 0 10 3]"

text \<open>The witness: a request in prefill accepts the end of prefill and moves on, and one that was dropped stays dropped.\<close>

theorem request_life_cycle_witness:
  "(let r = (new_DIGSRequest 0 ''r'' 7)\<lparr>state := ALLOCATED\<rparr> in fst (req_answer (EvPrefillEnd 5) r) = OK \<and> state (req_step (EvPrefillEnd 5) r) = PREFILL_END)
   \<and> releases ex_events (new_DIGSRequest 0 ''r'' 7) = [PREFILL, DECODE]
   \<and> fold req_step ex_events (empty_DIGSRequest 0) = empty_DIGSRequest 0"
proof -
  let ?r = "(new_DIGSRequest 0 ''r'' 7)\<lparr>state := ALLOCATED\<rparr>"
  have "req_trans (kind_of (EvPrefillEnd 5)) (state ?r) True PREFILL_END" by (simp add: req_trans_simps)
  then have "fst (req_answer (EvPrefillEnd 5) ?r) = OK \<and> state (req_step (EvPrefillEnd 5) ?r) = PREFILL_END"
    using request_life_cycle [of "EvPrefillEnd 5" ?r] by blast
  moreover have "releases ex_events (new_DIGSRequest 0 ''r'' 7) = [PREFILL, DECODE]" by code_simp
  moreover have "fold req_step ex_events (empty_DIGSRequest 0) = empty_DIGSRequest 0"
    using request_life_cycle [of EvInvalid "empty_DIGSRequest 0" ex_events] by (simp add: final_state_def empty_DIGSRequest_def)
  ultimately show ?thesis by simp
qed

text \<open>The release flags hand out the right to release an allocation at most once: over any number of
  calls exactly the first one returns true, and only if nobody called before.\<close>

fun prefill_releases :: "nat \<Rightarrow> ReqScheduleInfo \<Rightarrow> bool list" where
  "prefill_releases 0 si = []"
| "prefill_releases (Suc n) si =
     (let (b, si') = PrefillRelease si in b # prefill_releases n si')"

lemma prefill_releases_after: "prefill_releases n (si\<lparr>prefillReleased := True\<rparr>) = replicate n False"
  by (induction n arbitrary: si) (auto simp: PrefillRelease_def)

theorem prefill_release_once:
  "prefill_releases (Suc n) si = (\<not> prefillReleased si) # replicate n False"
  by (simp add: PrefillRelease_def prefill_releases_after)

end
