(* ===== verification/Resource_Info.thy ===== *)
theory Resource_Info
  imports Digs_Request
begin

text \<open>
  \<^verbatim>\<open>coordinator/resource/res_schedule_info.{h,cpp}\<close>, \<^verbatim>\<open>resource_info.{h,cpp}\<close> and
  \<^verbatim>\<open>resource_load.{h,cpp}\<close>: what the scheduler keeps for one instance. \<^verbatim>\<open>ResourceInfo\<close> owns
  its \<^verbatim>\<open>ResScheduleInfo\<close> through a shared pointer that nothing re-seats, so the record holds it
  by value and other holders are modelled by the address of the \<open>ResourceInfo\<close>.
  The atomics are plain fields; the static members are in \<open>digs_cfg\<close>. The counter \<open>dynamicResRateCount\<close>, a 64-bit
  integer moved by one at a time, is an integer here: no run gets near its bounds.
\<close>

record digs_cfg =
  metaCfg :: meta_cfg
  isDynamicMaxResEnabled :: bool
  maxDynamicResRateCount :: u64
  dynamicResRateUnit :: f64
  resLimitRate :: f64
  blockSizeCfg :: u64

subsection \<open>Schedule information (res_schedule_info.cpp)\<close>

datatype InstanceDuty = UNKNOWN | MIXING | PREFILLING | DECODING

record ResScheduleInfo =
  resId :: u64
  label :: DIGSInstanceLabel
  prefillDemands :: MetaResource
  decodeDemands :: MetaResource
  maxPrefillRes :: MetaResource
  maxDecodeRes :: MetaResource
  role :: DIGSInstanceRole
  duty :: InstanceDuty
  isInstanceClosed :: bool
  isOverload :: bool
  dynamicResRateCount :: int
  reqQueueTime :: u64

text \<open>The two maxima are null until \<open>SetMaxRes\<close>, which the only creator calls at once; the model
  starts them empty.\<close>

definition new_ResScheduleInfo :: "meta_cfg \<Rightarrow> u64 \<Rightarrow> DIGSInstanceLabel \<Rightarrow> ResScheduleInfo" where
  "new_ResScheduleInfo mc i l = \<lparr>resId = i, label = l, prefillDemands = MetaResource_fill mc 0,
     decodeDemands = MetaResource_fill mc 0, maxPrefillRes = MetaResource_of [],
     maxDecodeRes = MetaResource_of [], role = UN_DEF_INSTANCE, duty = UNKNOWN,
     isInstanceClosed = False, isOverload = False, dynamicResRateCount = 0, reqQueueTime = 0\<rparr>"

definition SetMaxRes :: "MetaResource \<Rightarrow> MetaResource \<Rightarrow> ResScheduleInfo \<Rightarrow> ResScheduleInfo" where
  "SetMaxRes p d s = s\<lparr>maxPrefillRes := p, maxDecodeRes := d\<rparr>"

fun AddDemand :: "MetaResource \<Rightarrow> DIGSReqStage \<Rightarrow> ResScheduleInfo \<Rightarrow> ResScheduleInfo" where
  "AddDemand d PREFILL s = s\<lparr>prefillDemands := snd (IncResource (prefillDemands s) d)\<rparr>"
| "AddDemand d DECODE s = s\<lparr>decodeDemands := snd (IncResource (decodeDemands s) d)\<rparr>"

fun RemoveDemand :: "MetaResource \<Rightarrow> DIGSReqStage \<Rightarrow> ResScheduleInfo \<Rightarrow> ResScheduleInfo" where
  "RemoveDemand d PREFILL s = s\<lparr>prefillDemands := snd (DecResource (prefillDemands s) d)\<rparr>"
| "RemoveDemand d DECODE s = s\<lparr>decodeDemands := snd (DecResource (decodeDemands s) d)\<rparr>"

definition UpdateRole :: "DIGSInstanceRole \<Rightarrow> ResScheduleInfo \<Rightarrow> bool \<times> ResScheduleInfo" where
  "UpdateRole newRole s =
     (if role s = newRole then (False, s)
      else case newRole of
          PREFILL_INSTANCE \<Rightarrow>
            (if label s \<noteq> PREFILL_STATIC \<and> label s \<noteq> PREFILL_PREFER then (False, s)
             else (True, s\<lparr>role := newRole\<rparr>))
        | DECODE_INSTANCE \<Rightarrow>
            (if label s \<noteq> DECODE_STATIC \<and> label s \<noteq> DECODE_PREFER then (False, s)
             else (True, s\<lparr>role := newRole\<rparr>))
        | _ \<Rightarrow> (False, s))"

definition UpdateDuty :: "InstanceDuty \<Rightarrow> ResScheduleInfo \<Rightarrow> bool \<times> ResScheduleInfo" where
  "UpdateDuty newDuty s =
     (if duty s = newDuty then (False, s)
      else case newDuty of
          PREFILLING \<Rightarrow> (if role s \<noteq> PREFILL_INSTANCE then (False, s) else (True, s\<lparr>duty := newDuty\<rparr>))
        | DECODING \<Rightarrow> (if role s \<noteq> DECODE_INSTANCE then (False, s) else (True, s\<lparr>duty := newDuty\<rparr>))
        | MIXING \<Rightarrow> (if label s \<noteq> PREFILL_PREFER \<and> label s \<noteq> DECODE_PREFER then (False, s)
                     else (True, s\<lparr>duty := newDuty\<rparr>))
        | UNKNOWN \<Rightarrow> (False, s))"

definition SI_CloseInstance :: "ResScheduleInfo \<Rightarrow> ResScheduleInfo" where
  "SI_CloseInstance s = s\<lparr>isInstanceClosed := True\<rparr>"

definition SI_ActivateInstance :: "ResScheduleInfo \<Rightarrow> ResScheduleInfo" where
  "SI_ActivateInstance s = s\<lparr>isInstanceClosed := False\<rparr>"

definition CheckOverload :: "ResScheduleInfo \<Rightarrow> ResScheduleInfo" where
  "CheckOverload s = (case duty s of
       PREFILLING \<Rightarrow> s\<lparr>isOverload := \<not> meta_less (prefillDemands s) (maxPrefillRes s)\<rparr>
     | DECODING \<Rightarrow> s\<lparr>isOverload := \<not> meta_less (decodeDemands s) (maxDecodeRes s)\<rparr>
     | MIXING \<Rightarrow> s\<lparr>isOverload := \<not> meta_less (prefillDemands s) (maxPrefillRes s)
                                 \<and> \<not> meta_less (decodeDemands s) (maxDecodeRes s)\<rparr>
     | UNKNOWN \<Rightarrow> s)"

definition CountAllocateUnmatch :: "bool \<Rightarrow> ResScheduleInfo \<Rightarrow> ResScheduleInfo" where
  "CountAllocateUnmatch isResAvailable s =
     (if isResAvailable \<and> isOverload s then s\<lparr>dynamicResRateCount := dynamicResRateCount s + 1\<rparr>
      else if \<not> isResAvailable \<and> \<not> isOverload s
      then s\<lparr>dynamicResRateCount := dynamicResRateCount s - 1\<rparr>
      else s)"

definition GenerateDynamicResRate ::
  "digs_cfg \<Rightarrow> f64 \<Rightarrow> ResScheduleInfo \<Rightarrow> bool \<times> f64 \<times> ResScheduleInfo" where
  "GenerateDynamicResRate cfg rate s =
     (let count = dynamicResRateCount s in
      if nat \<bar>count\<bar> < unat (maxDynamicResRateCount cfg) then (False, rate, s)
      else let r1 = (if count > 0 then f64_add rate (dynamicResRateUnit cfg)
                     else if count < 0 then f64_sub rate (dynamicResRateUnit cfg) else rate);
               r2 = (if f64_lt r1 (Fin 0) then Fin 0 else r1)
           in (True, r2, s\<lparr>dynamicResRateCount := 0\<rparr>))"

text \<open>Saturating sum, as \<open>TotalConnection\<close> and \<open>QueryInstanceScheduleInfo\<close> compute it.\<close>

definition sat_add :: "u64 \<Rightarrow> u64 \<Rightarrow> u64" where
  "sat_add a b = (if a > - 1 - b then - 1 else a + b)"

definition TotalConnection :: "ResScheduleInfo \<Rightarrow> u64" where
  "TotalConnection s = sat_add (Slots (prefillDemands s)) (Slots (decodeDemands s))"

subsection \<open>Load report (resource_load.cpp)\<close>

type_synonym ResourceLoad = DIGSInstanceDynamicInfo

definition new_ResourceLoad :: ResourceLoad where
  "new_ResourceLoad = default_dynamic ILLEGAL_INSTANCE_ID"

definition IsResAvailable :: "ResourceLoad \<Rightarrow> bool" where
  "IsResAvailable l \<longleftrightarrow> dy_availSlotsNum l > 0 \<and> dy_availBlockNum l > 0 \<and> dy_maxAvailBlockNum l > 0"

subsection \<open>The instance record (resource_info.cpp)\<close>

record ResourceInfo =
  ri_sched :: ResScheduleInfo
  ri_static :: DIGSInstanceStaticInfo
  ri_total :: MetaResource
  ri_maxResRate :: f64
  ri_dynamicResRate :: f64

definition total_attr :: "DIGSInstanceStaticInfo \<Rightarrow> string \<Rightarrow> u64" where
  "total_attr i name =
     (if name = ''slots'' then st_totalSlotsNum i
      else if name = ''blocks'' then st_totalBlockNum i
      else if name = ''cpuMem'' then cpuMem (st_nodeRes i)
      else if name = ''npuMem'' then npuMem (st_nodeRes i)
      else if name = ''npuBW'' then npuBW (st_nodeRes i)
      else 0)"

text \<open>The constructor dereferences the two products to log them: a failed \<^const>\<open>ResMul\<close> is a null
  dereference, \<^const>\<open>None\<close> here.\<close>

definition new_ResourceInfo :: "digs_cfg \<Rightarrow> DIGSInstanceStaticInfo \<Rightarrow> f64 \<Rightarrow> ResourceInfo option" where
  "new_ResourceInfo cfg ins rate =
     (let total = MetaResource_of (map (total_attr ins) (attrName (metaCfg cfg))) in
      case (ResMul total rate, ResMul total rate) of
        (Some p, Some d) \<Rightarrow>
          Some \<lparr>ri_sched = snd (UpdateRole (st_role ins)
                  (SetMaxRes p d (new_ResScheduleInfo (metaCfg cfg) (st_id ins) (st_label ins)))),
               ri_static = ins, ri_total = total, ri_maxResRate = rate, ri_dynamicResRate = rate\<rparr>
      | _ \<Rightarrow> None)"

definition RI_AddDemand :: "MetaResource \<Rightarrow> DIGSReqStage \<Rightarrow> ResourceInfo \<Rightarrow> ResourceInfo" where
  "RI_AddDemand d stage i = i\<lparr>ri_sched := AddDemand d stage (ri_sched i)\<rparr>"

definition UpdateScheduleLoad :: "digs_cfg \<Rightarrow> bool \<Rightarrow> ResourceInfo \<Rightarrow> bool \<times> ResourceInfo" where
  "UpdateScheduleLoad cfg avail i =
     (if \<not> isDynamicMaxResEnabled cfg then (False, i)
      else (True, i\<lparr>ri_sched := CountAllocateUnmatch avail (ri_sched i)\<rparr>))"

text \<open>As in the constructor, a failed product is dereferenced by the log line.\<close>

definition ReviseMaxResource :: "digs_cfg \<Rightarrow> ResourceInfo \<Rightarrow> (bool \<times> ResourceInfo) option" where
  "ReviseMaxResource cfg i =
     (if \<not> isDynamicMaxResEnabled cfg then Some (False, i)
      else case GenerateDynamicResRate cfg (ri_dynamicResRate i) (ri_sched i) of
          (False, _, _) \<Rightarrow> Some (False, i)
        | (True, rate, s) \<Rightarrow>
            (case (ResMul (ri_total i) rate, ResMul (ri_total i) rate) of
               (Some p, Some d) \<Rightarrow>
                 Some (True, i\<lparr>ri_sched := SetMaxRes p d s, ri_dynamicResRate := rate\<rparr>)
             | _ \<Rightarrow> None))"

definition UpdateStaticInfo :: "DIGSInstanceDynamicInfo \<Rightarrow> ResourceInfo \<Rightarrow> ResourceInfo" where
  "UpdateStaticInfo dyn i =
     i\<lparr>ri_static := (ri_static i)\<lparr>st_totalSlotsNum := dy_totalSlotsNum dyn,
                                  st_totalBlockNum := dy_totalBlockNum dyn\<rparr>\<rparr>"

subsection \<open>Roles and duties\<close>

text \<open>An instance plays a role its label allows and has a duty its role or label allows.\<close>

definition role_ok :: "ResScheduleInfo \<Rightarrow> bool" where
  "role_ok s \<longleftrightarrow>
     (role s = PREFILL_INSTANCE \<longrightarrow> label s \<in> {PREFILL_STATIC, PREFILL_PREFER}) \<and>
     (role s = DECODE_INSTANCE \<longrightarrow> label s \<in> {DECODE_STATIC, DECODE_PREFER}) \<and>
     role s \<noteq> FLEX_INSTANCE \<and>
     (duty s = PREFILLING \<longrightarrow> role s = PREFILL_INSTANCE) \<and>
     (duty s = DECODING \<longrightarrow> role s = DECODE_INSTANCE) \<and>
     (duty s = MIXING \<longrightarrow> label s \<in> {PREFILL_PREFER, DECODE_PREFER})"

lemma role_ok_new: "role_ok (new_ResScheduleInfo mc i l)"
  by (simp add: role_ok_def new_ResScheduleInfo_def)

lemma role_ok_SetMaxRes: "role_ok s \<Longrightarrow> role_ok (SetMaxRes p d s)"
  by (simp add: role_ok_def SetMaxRes_def)

lemma role_ok_UpdateRole: "role_ok s \<Longrightarrow> role_ok (snd (UpdateRole r s))"
  by (cases r) (auto simp: role_ok_def UpdateRole_def)

lemma role_ok_UpdateDuty: "role_ok s \<Longrightarrow> role_ok (snd (UpdateDuty d s))"
  by (cases d) (auto simp: role_ok_def UpdateDuty_def)

lemma role_ok_demand: "role_ok s \<Longrightarrow> role_ok (AddDemand d st s)" "role_ok s \<Longrightarrow> role_ok (RemoveDemand d st s)"
  by (cases st; simp add: role_ok_def)+

lemma UpdateDuty_frame [simp]:
  "prefillDemands (snd (UpdateDuty d s)) = prefillDemands s"
  "decodeDemands (snd (UpdateDuty d s)) = decodeDemands s"
  "resId (snd (UpdateDuty d s)) = resId s"
  "isInstanceClosed (snd (UpdateDuty d s)) = isInstanceClosed s"
  "maxPrefillRes (snd (UpdateDuty d s)) = maxPrefillRes s"
  "maxDecodeRes (snd (UpdateDuty d s)) = maxDecodeRes s"
  by (cases d; auto simp: UpdateDuty_def)+

lemma UpdateRole_frame [simp]:
  "prefillDemands (snd (UpdateRole d s)) = prefillDemands s"
  "decodeDemands (snd (UpdateRole d s)) = decodeDemands s"
  "resId (snd (UpdateRole d s)) = resId s"
  "isInstanceClosed (snd (UpdateRole d s)) = isInstanceClosed s"
  by (cases d; auto simp: UpdateRole_def)+

lemma CheckOverload_frame [simp]:
  "prefillDemands (CheckOverload s) = prefillDemands s"
  "decodeDemands (CheckOverload s) = decodeDemands s"
  "resId (CheckOverload s) = resId s"
  "isInstanceClosed (CheckOverload s) = isInstanceClosed s"
  by (auto simp: CheckOverload_def split: InstanceDuty.split)

lemma GenerateDynamicResRate_frame:
  "GenerateDynamicResRate cfg rate s = (b, rate', s') \<Longrightarrow>
     prefillDemands s' = prefillDemands s \<and> decodeDemands s' = decodeDemands s \<and> resId s' = resId s
     \<and> isInstanceClosed s' = isInstanceClosed s"
  by (auto simp: GenerateDynamicResRate_def Let_def split: if_splits)

lemma ReviseMaxResource_frame:
  assumes "ReviseMaxResource cfg i = Some (b, i')"
  shows "prefillDemands (ri_sched i') = prefillDemands (ri_sched i)
    \<and> decodeDemands (ri_sched i') = decodeDemands (ri_sched i)
    \<and> resId (ri_sched i') = resId (ri_sched i) \<and> ri_static i' = ri_static i
    \<and> isInstanceClosed (ri_sched i') = isInstanceClosed (ri_sched i)"
  using assms
  by (auto simp: ReviseMaxResource_def SetMaxRes_def dest!: GenerateDynamicResRate_frame
      split: if_splits prod.splits bool.splits option.splits)

lemma unat_sat_add: "unat (sat_add a b) = min (2 ^ 64 - 1) (unat a + unat b)"
  unfolding sat_add_def word_less_nat_alt unat_u64_max_sub
  using u64_bound [of a] u64_bound [of b]
  by (auto simp: unat_u64_max unat_u64_add)

subsection \<open>Properties\<close>

text \<open>The operations that reach the schedule information of a registered instance.\<close>

datatype sched_op = OpRole DIGSInstanceRole | OpDuty InstanceDuty | OpAdd MetaResource DIGSReqStage | OpRemove MetaResource DIGSReqStage
  | OpLimits MetaResource MetaResource | OpOverload | OpClose | OpActivate | OpUnmatch bool

fun sched_do :: "sched_op \<Rightarrow> ResScheduleInfo \<Rightarrow> ResScheduleInfo" where
  "sched_do (OpRole r) s = snd (UpdateRole r s)"
| "sched_do (OpDuty d) s = snd (UpdateDuty d s)"
| "sched_do (OpAdd m st) s = AddDemand m st s"
| "sched_do (OpRemove m st) s = RemoveDemand m st s"
| "sched_do (OpLimits p d) s = SetMaxRes p d s"
| "sched_do OpOverload s = CheckOverload s"
| "sched_do OpClose s = SI_CloseInstance s"
| "sched_do OpActivate s = SI_ActivateInstance s"
| "sched_do (OpUnmatch b) s = CountAllocateUnmatch b s"

text \<open>The one role a label allows.\<close>

fun label_role :: "DIGSInstanceLabel \<Rightarrow> DIGSInstanceRole" where
  "label_role PREFILL_STATIC = PREFILL_INSTANCE"
| "label_role PREFILL_PREFER = PREFILL_INSTANCE"
| "label_role DECODE_STATIC = DECODE_INSTANCE"
| "label_role DECODE_PREFER = DECODE_INSTANCE"
| "label_role FLEX_STATIC = UN_DEF_INSTANCE"

lemma UpdateRole_role: "role s \<in> {UN_DEF_INSTANCE, label_role (label s)} \<Longrightarrow>
    role (snd (UpdateRole r s)) = (if r = label_role (label s) then r else role s)"
  by (cases r; cases "label s") (auto simp: UpdateRole_def)

lemma UpdateRole_label [simp]: "label (snd (UpdateRole r s)) = label s" "duty (snd (UpdateRole r s)) = duty s"
  by (cases r; auto simp: UpdateRole_def)+

lemma UpdateDuty_label: "label (snd (UpdateDuty d s)) = label s" "role (snd (UpdateDuty d s)) = role s"
  by (cases d; auto simp: UpdateDuty_def)+

lemma sched_do_frame:
  assumes "\<forall>r. p \<noteq> OpRole r" "\<forall>d. p \<noteq> OpDuty d"
  shows "role (sched_do p s) = role s \<and> label (sched_do p s) = label s \<and> duty (sched_do p s) = duty s"
proof (cases p)
  case (OpAdd m st)
  then show ?thesis by (cases st) simp_all
next
  case (OpRemove m st)
  then show ?thesis by (cases st) simp_all
next
  case OpOverload
  then show ?thesis by (cases "duty s") (simp_all add: CheckOverload_def)
qed (use assms in \<open>auto simp: SetMaxRes_def SI_CloseInstance_def SI_ActivateInstance_def CountAllocateUnmatch_def\<close>)

lemma sched_do_facts:
  assumes "role s \<in> {UN_DEF_INSTANCE, label_role (label s)}" "role_ok s"
  shows "label (sched_do p s) = label s" "role_ok (sched_do p s)"
    "role (sched_do p s) = (if p = OpRole (label_role (label s)) then label_role (label s) else role s)"
proof -
  have "label (sched_do p s) = label s \<and> role_ok (sched_do p s)
    \<and> role (sched_do p s) = (if p = OpRole (label_role (label s)) then label_role (label s) else role s)"
  proof (cases "(\<exists>r. p = OpRole r) \<or> (\<exists>d. p = OpDuty d)")
    case True
    then show ?thesis
    proof (elim disjE exE)
      fix r assume "p = OpRole r"
      then show ?thesis using UpdateRole_role [OF assms(1), of r] role_ok_UpdateRole [OF assms(2), of r]
        by (cases "r = label_role (label s)") simp_all
    next
      fix d assume "p = OpDuty d"
      then show ?thesis using role_ok_UpdateDuty [OF assms(2)] by (simp add: UpdateDuty_label)
    qed
  next
    case False
    with sched_do_frame [of p s] assms(2) show ?thesis by (auto simp: role_ok_def)
  qed
  then show "label (sched_do p s) = label s" "role_ok (sched_do p s)"
    "role (sched_do p s) = (if p = OpRole (label_role (label s)) then label_role (label s) else role s)" by blast+
qed

lemma role_after:
  "role s \<in> {UN_DEF_INSTANCE, label_role (label s)} \<Longrightarrow> role_ok s \<Longrightarrow>
     label (fold sched_do ops s) = label s \<and> role_ok (fold sched_do ops s)
     \<and> role (fold sched_do ops s) = (if OpRole (label_role (label s)) \<in> set ops then label_role (label s) else role s)"
proof (induction ops arbitrary: s)
  case (Cons p ops)
  note F = sched_do_facts [OF Cons.prems, of p]
  have "role (sched_do p s) \<in> {UN_DEF_INSTANCE, label_role (label (sched_do p s))}" unfolding F(1,3) using Cons.prems(1) by simp
  from Cons.IH [OF this F(2), unfolded F(1,3)] show ?case by auto
qed simp

text \<open>C40: the label of a registered instance decides its role for good. After the registration and any operations on the instance its role
  is the one its label allows, if it was registered with that role or asked to take it since, and no role otherwise: no request for
  another role is granted. A duty is taken up exactly when the role, or for mixed duty the label, allows it, and then it is in force. A
  new instance starts open, without duty and without demands, under its own id, and with the limits computed from its capacity.\<close>

theorem registered_role_follows_label:
  fixes ops d
  assumes "new_ResourceInfo cfg ins rate = Some i"
  defines "s \<equiv> fold sched_do ops (ri_sched i)"
  shows "role s = (if st_role ins = label_role (st_label ins) \<or> OpRole (label_role (st_label ins)) \<in> set ops
      then label_role (st_label ins) else UN_DEF_INSTANCE)
    \<and> role_ok s
    \<and> duty (snd (UpdateDuty d s)) = (if d = PREFILLING \<and> role s = PREFILL_INSTANCE \<or> d = DECODING \<and> role s = DECODE_INSTANCE
         \<or> d = MIXING \<and> st_label ins \<in> {PREFILL_PREFER, DECODE_PREFER} then d else duty s)
    \<and> duty (ri_sched i) = UNKNOWN \<and> \<not> isInstanceClosed (ri_sched i) \<and> resId (ri_sched i) = st_id ins
    \<and> TotalLoad (prefillDemands (ri_sched i)) = 0 \<and> TotalLoad (decodeDemands (ri_sched i)) = 0
    \<and> ResMul (ri_total i) rate = Some (maxPrefillRes (ri_sched i)) \<and> ResMul (ri_total i) rate = Some (maxDecodeRes (ri_sched i))"
proof -
  let ?s0 = "new_ResScheduleInfo (metaCfg cfg) (st_id ins) (st_label ins)"
  from assms obtain p q where i: "ri_sched i = snd (UpdateRole (st_role ins) (SetMaxRes p q ?s0))"
    and m: "ResMul (ri_total i) rate = Some p" "ResMul (ri_total i) rate = Some q"
    by (auto simp: new_ResourceInfo_def Let_def split: option.splits)
  have f: "role (SetMaxRes p q ?s0) = UN_DEF_INSTANCE" "label (SetMaxRes p q ?s0) = st_label ins" "duty (SetMaxRes p q ?s0) = UNKNOWN"
    by (simp_all add: SetMaxRes_def new_ResScheduleInfo_def)
  have r0: "role (ri_sched i) = (if st_role ins = label_role (st_label ins) then st_role ins else UN_DEF_INSTANCE)"
    and l0: "label (ri_sched i) = st_label ins" and d0: "duty (ri_sched i) = UNKNOWN"
    using UpdateRole_role [of "SetMaxRes p q ?s0" "st_role ins"] by (simp_all add: i f)
  have ok0: "role_ok (ri_sched i)" unfolding i by (intro role_ok_UpdateRole role_ok_SetMaxRes role_ok_new)
  have "role (ri_sched i) \<in> {UN_DEF_INSTANCE, label_role (label (ri_sched i))}" by (auto simp: r0 l0)
  note R = role_after [OF this ok0, of ops]
  have "role s = (if st_role ins = label_role (st_label ins) \<or> OpRole (label_role (st_label ins)) \<in> set ops
      then label_role (st_label ins) else UN_DEF_INSTANCE)" "role_ok s" "label s = st_label ins"
    using R by (auto simp: s_def r0 l0)
  moreover have "duty (snd (UpdateDuty d s)) = (if d = PREFILLING \<and> role s = PREFILL_INSTANCE \<or> d = DECODING \<and> role s = DECODE_INSTANCE
         \<or> d = MIXING \<and> label s \<in> {PREFILL_PREFER, DECODE_PREFER} then d else duty s)"
    by (cases d) (auto simp: UpdateDuty_def)
  moreover have "prefillDemands (ri_sched i) = MetaResource_fill (metaCfg cfg) 0" "decodeDemands (ri_sched i) = MetaResource_fill (metaCfg cfg) 0"
    "resId (ri_sched i) = st_id ins" "\<not> isInstanceClosed (ri_sched i)" "maxPrefillRes (ri_sched i) = p" "maxDecodeRes (ri_sched i) = q"
    by (simp_all add: i SetMaxRes_def new_ResScheduleInfo_def) (cases "st_role ins"; simp add: UpdateRole_def)+
  ultimately show ?thesis using m d0 by (simp add: TotalLoad_fill)
qed

text \<open>The witness: a prefill instance that is asked to become a decode instance stays a prefill instance and takes up its duty.\<close>

theorem registered_role_follows_label_witness:
  "\<exists>i. new_ResourceInfo \<lparr>metaCfg = init_meta_cfg, isDynamicMaxResEnabled = False, maxDynamicResRateCount = 3,
       dynamicResRateUnit = Fin 0, resLimitRate = Fin 1, blockSizeCfg = 128\<rparr>
      ((default_static 7 0)\<lparr>st_role := PREFILL_INSTANCE, st_label := PREFILL_STATIC\<rparr>) (Fin 1) = Some i
    \<and> role (fold sched_do [OpRole DECODE_INSTANCE, OpOverload] (ri_sched i)) = PREFILL_INSTANCE
    \<and> duty (snd (UpdateDuty PREFILLING (fold sched_do [OpRole DECODE_INSTANCE, OpOverload] (ri_sched i)))) = PREFILLING"
proof -
  let ?cfg = "\<lparr>metaCfg = init_meta_cfg, isDynamicMaxResEnabled = False, maxDynamicResRateCount = 3,
       dynamicResRateUnit = Fin 0, resLimitRate = Fin 1, blockSizeCfg = 128\<rparr>"
  let ?ins = "(default_static 7 0)\<lparr>st_role := PREFILL_INSTANCE, st_label := PREFILL_STATIC\<rparr>"
  obtain i where i: "new_ResourceInfo ?cfg ?ins (Fin 1) = Some i"
    by (simp add: new_ResourceInfo_def ResMul_one Let_def)
  show ?thesis using registered_role_follows_label [OF i, of "[OpRole DECODE_INSTANCE, OpOverload]" PREFILLING] i by simp
qed

text \<open>The number of connections of an instance is the sum of its prefill and decode slots,
  saturated at the largest 64-bit value instead of wrapping around.\<close>

lemma total_connection_saturates:
  "unat (TotalConnection s) =
     min (2 ^ 64 - 1) (unat (Slots (prefillDemands s)) + unat (Slots (decodeDemands s)))"
  by (simp add: TotalConnection_def unat_sat_add)

end
