(* ===== verification/Resource_Manager.thy ===== *)
theory Resource_Manager
  imports Resource_Info
begin

text \<open>
  \<^verbatim>\<open>coordinator/resource/resource_manager.{h,cpp}\<close> and \<^verbatim>\<open>resource_view_manager.{h,cpp}\<close>.
  \<^verbatim>\<open>ResourceInfo\<close> objects are shared between the instance map, the view, the pools and
  \<^verbatim>\<open>scheduleInfos_\<close>, so they live in a heap \<open>resHeap\<close> and every holder keeps the address.
  A \<^verbatim>\<open>ResourceLoad\<close> is never modified after its construction (a new report replaces the
  pointer in the map), so holders keep its value.
\<close>

type_synonym addr = nat
type_synonym ResInfo = "addr \<times> ResourceLoad"
type_synonym ResView = "ResInfo list"

record ResourceViewManager =
  rv_view :: ResView
  prefillPool :: ResView
  decodePool :: "(u64, ResView) omap"
  globalPool :: ResView
  scheduleInfos :: "(u64, addr) omap"

definition new_ResourceViewManager :: ResourceViewManager where
  "new_ResourceViewManager = \<lparr>rv_view = [], prefillPool = [], decodePool = [], globalPool = [],
     scheduleInfos = []\<rparr>"

record ResourceManager =
  resHeap :: "addr \<Rightarrow> ResourceInfo"
  nextRes :: addr
  resourceMap :: "(u64, ResInfo) omap"
  resView :: ResourceViewManager

abbreviation sched_of :: "ResourceManager \<Rightarrow> addr \<Rightarrow> ResScheduleInfo" where
  "sched_of rm a \<equiv> ri_sched (resHeap rm a)"

abbreviation static_of :: "ResourceManager \<Rightarrow> addr \<Rightarrow> DIGSInstanceStaticInfo" where
  "static_of rm a \<equiv> ri_static (resHeap rm a)"

definition upd_res :: "addr \<Rightarrow> (ResourceInfo \<Rightarrow> ResourceInfo) \<Rightarrow> ResourceManager \<Rightarrow> ResourceManager" where
  "upd_res a f rm = rm\<lparr>resHeap := (resHeap rm)(a := f (resHeap rm a))\<rparr>"

definition upd_sched :: "addr \<Rightarrow> (ResScheduleInfo \<Rightarrow> ResScheduleInfo) \<Rightarrow> ResourceManager \<Rightarrow> ResourceManager" where
  "upd_sched a f = upd_res a (\<lambda>i. i\<lparr>ri_sched := f (ri_sched i)\<rparr>)"

subsection \<open>The view of the open instances (resource_view_manager.cpp)\<close>

definition ClearView :: "ResourceManager \<Rightarrow> ResourceManager" where
  "ClearView rm =
     (fold (\<lambda>ri. upd_sched (fst ri) CheckOverload) (rv_view (resView rm)) rm)
       \<lparr>resView := new_ResourceViewManager\<rparr>"

definition view_Empty :: "ResourceManager \<Rightarrow> bool" where
  "view_Empty rm \<longleftrightarrow> rv_view (resView rm) = []"

definition Add2GroupedPool :: "(u64, ResView) omap \<Rightarrow> u64 \<Rightarrow> ResInfo \<Rightarrow> (u64, ResView) omap" where
  "Add2GroupedPool pool groupId ri = omap_put groupId (omap_get [] pool groupId @ [ri]) pool"

definition Add2PrefillPool :: "ResInfo \<Rightarrow> ResourceManager \<Rightarrow> ResourceManager" where
  "Add2PrefillPool ri rm =
     rm\<lparr>resView := (resView rm)\<lparr>prefillPool := prefillPool (resView rm) @ [ri]\<rparr>\<rparr>"

definition Add2DecodePool :: "ResInfo \<Rightarrow> u64 \<Rightarrow> ResourceManager \<Rightarrow> ResourceManager" where
  "Add2DecodePool ri groupId rm =
     rm\<lparr>resView := (resView rm)\<lparr>decodePool := Add2GroupedPool (decodePool (resView rm)) groupId ri\<rparr>\<rparr>"

definition Add2GlobalPool :: "ResInfo \<Rightarrow> ResourceManager \<Rightarrow> ResourceManager" where
  "Add2GlobalPool ri rm =
     rm\<lparr>resView := (resView rm)\<lparr>globalPool := globalPool (resView rm) @ [ri]\<rparr>\<rparr>"

text \<open>\<^const>\<open>None\<close>: the null dereference inside \<^const>\<open>ReviseMaxResource\<close>.\<close>

definition AddResInfo :: "digs_cfg \<Rightarrow> ResInfo \<Rightarrow> ResourceManager \<Rightarrow> ResourceManager option" where
  "AddResInfo cfg ri rm =
     (let a = fst ri in
      case ReviseMaxResource cfg (resHeap rm a) of
        None \<Rightarrow> None
      | Some (_, i) \<Rightarrow>
          let rm1 = rm\<lparr>resView := (resView rm)\<lparr>rv_view := rv_view (resView rm) @ [ri]\<rparr>,
                       resHeap := (resHeap rm)(a := i)\<rparr>;
              rm2 = (case st_label (ri_static i) of
                  PREFILL_STATIC \<Rightarrow> Add2PrefillPool ri (upd_sched a (snd \<circ> UpdateDuty PREFILLING) rm1)
                | DECODE_STATIC \<Rightarrow>
                    Add2DecodePool ri (st_groupId (ri_static i))
                      (upd_sched a (snd \<circ> UpdateDuty DECODING) rm1)
                | PREFILL_PREFER \<Rightarrow> Add2GlobalPool ri rm1
                | DECODE_PREFER \<Rightarrow> Add2GlobalPool ri rm1
                | FLEX_STATIC \<Rightarrow> rm1)
          in Some (rm2\<lparr>resView := (resView rm2)\<lparr>scheduleInfos :=
                     omap_insert (resId (ri_sched i)) a (scheduleInfos (resView rm2))\<rparr>\<rparr>))"

text \<open>Giving a request's share of an instance back; \<open>si\<close> is the request's allocation record and
  \<open>cost\<close> its \<^verbatim>\<open>PrefillCostTime()\<close>.\<close>

definition stage_inst :: "DIGSReqStage \<Rightarrow> ReqScheduleInfo \<Rightarrow> u64" where
  "stage_inst stage si = (case stage of PREFILL \<Rightarrow> prefillInst si | DECODE \<Rightarrow> decodeInst si)"

definition UpdateScheduleInfo ::
  "ReqScheduleInfo \<Rightarrow> u64 \<Rightarrow> DIGSReqStage \<Rightarrow> ResourceManager \<Rightarrow> Status \<times> ResourceManager" where
  "UpdateScheduleInfo si cost stage rm =
     (let instId = stage_inst stage si in
      if instId = ILLEGAL_INSTANCE_ID then (OK, rm)
      else case map_of (scheduleInfos (resView rm)) instId of
          Some a \<Rightarrow>
            (let rm1 = upd_sched a (RemoveDemand (demand si) stage) rm in
             (OK, if stage = PREFILL
                  then upd_sched a (\<lambda>s. s\<lparr>reqQueueTime := reqQueueTime s - cost\<rparr>) rm1 else rm1))
        | None \<Rightarrow> (RESOURCE_NOT_FOUND, rm))"

definition CheckConnection :: "ResourceManager \<Rightarrow> ResInfo \<Rightarrow> bool" where
  "CheckConnection rm ri \<longleftrightarrow>
     st_maxConnectionNum (static_of rm (fst ri)) > TotalConnection (sched_of rm (fst ri))"

definition CheckConnectionTo :: "ResourceManager \<Rightarrow> ResInfo \<Rightarrow> u64 \<Rightarrow> bool" where
  "CheckConnectionTo rm ri other =
     (if \<not> CheckConnection rm ri then False
      else if st_id (static_of rm (fst ri)) = other then True
      else list_ex (\<lambda>peer. peer = other) (dy_peers (snd ri)))"

text \<open>Removes the entry at an offset; returns the offset of the next entry and the removed entry.\<close>

definition GlobalPoolRemoveAndNext :: "int \<Rightarrow> ResourceManager \<Rightarrow> int \<times> ResInfo option \<times> ResourceManager" where
  "GlobalPoolRemoveAndNext off rm =
     (let gp = globalPool (resView rm) in
      if off < 0 \<or> off \<ge> int (length gp) then (int (length gp), None, rm)
      else (off, Some (gp ! nat off),
            rm\<lparr>resView := (resView rm)\<lparr>globalPool := take (nat off) gp @ drop (Suc (nat off)) gp\<rparr>\<rparr>))"

subsection \<open>The instance map (resource_manager.cpp)\<close>

text \<open>Each loop body is one function; the loop counts its failures.\<close>

definition register_one :: "digs_cfg \<Rightarrow> DIGSInstanceStaticInfo \<Rightarrow> ResourceManager \<Rightarrow>
    (bool \<times> ResourceManager) option" where
  "register_one cfg ins rm =
     (case new_ResourceInfo cfg ins (resLimitRate cfg) of
        None \<Rightarrow> None
      | Some i \<Rightarrow>
          let a = nextRes rm;
              rm1 = rm\<lparr>resHeap := (resHeap rm)(a := i), nextRes := Suc a\<rparr>;
              success = (map_of (resourceMap rm) (st_id ins) = None)
          in Some (success, rm1\<lparr>resourceMap :=
                 omap_insert (st_id ins) (a, new_ResourceLoad) (resourceMap rm)\<rparr>))"

fun RegisterInstance :: "digs_cfg \<Rightarrow> DIGSInstanceStaticInfo list \<Rightarrow> ResourceManager \<Rightarrow>
    (nat \<times> ResourceManager) option" where
  "RegisterInstance cfg [] rm = Some (0, rm)"
| "RegisterInstance cfg (ins # rest) rm =
     (case register_one cfg ins rm of
        None \<Rightarrow> None
      | Some (success, rm1) \<Rightarrow>
          map_option (\<lambda>(n, rm2). (if success then n else Suc n, rm2)) (RegisterInstance cfg rest rm1))"

definition update_one :: "digs_cfg \<Rightarrow> DIGSInstanceDynamicInfo \<Rightarrow> ResourceManager \<Rightarrow> bool \<times> ResourceManager" where
  "update_one cfg ins rm =
     (case map_of (resourceMap rm) (dy_id ins) of
        None \<Rightarrow> (False, rm)
      | Some (a, _) \<Rightarrow>
          (True, upd_res a (\<lambda>i. snd (UpdateScheduleLoad cfg (IsResAvailable ins) (UpdateStaticInfo ins i)))
                   (rm\<lparr>resourceMap := omap_put (dy_id ins) (a, ins) (resourceMap rm)\<rparr>)))"

definition remove_one :: "u64 \<Rightarrow> ResourceManager \<Rightarrow> bool \<times> ResourceManager" where
  "remove_one i rm =
     (case map_of (resourceMap rm) i of
        None \<Rightarrow> (False, rm)
      | Some _ \<Rightarrow> (True, rm\<lparr>resourceMap := omap_erase i (resourceMap rm)\<rparr>))"

definition set_closed_one :: "bool \<Rightarrow> u64 \<Rightarrow> ResourceManager \<Rightarrow> bool \<times> ResourceManager" where
  "set_closed_one c i rm =
     (case map_of (resourceMap rm) i of
        None \<Rightarrow> (False, rm)
      | Some (a, _) \<Rightarrow> (True, upd_sched a (if c then SI_CloseInstance else SI_ActivateInstance) rm))"

fun count_loop :: "('x \<Rightarrow> ResourceManager \<Rightarrow> bool \<times> ResourceManager) \<Rightarrow> 'x list \<Rightarrow> ResourceManager \<Rightarrow>
    nat \<times> ResourceManager" where
  "count_loop f [] rm = (0, rm)"
| "count_loop f (x # xs) rm =
     (let (success, rm1) = f x rm; (n, rm2) = count_loop f xs rm1
      in (if success then n else Suc n, rm2))"

definition UpdateInstance :: "digs_cfg \<Rightarrow> DIGSInstanceDynamicInfo list \<Rightarrow> ResourceManager \<Rightarrow> nat \<times> ResourceManager" where
  "UpdateInstance cfg = count_loop (update_one cfg)"

definition RemoveInstance :: "u64 list \<Rightarrow> ResourceManager \<Rightarrow> nat \<times> ResourceManager" where
  "RemoveInstance = count_loop remove_one"

definition CloseInstance :: "u64 list \<Rightarrow> ResourceManager \<Rightarrow> nat \<times> ResourceManager" where
  "CloseInstance = count_loop (set_closed_one True)"

definition ActivateInstance :: "u64 list \<Rightarrow> ResourceManager \<Rightarrow> nat \<times> ResourceManager" where
  "ActivateInstance = count_loop (set_closed_one False)"

definition QueryInstanceScheduleInfo :: "ResourceManager \<Rightarrow> DIGSInstanceScheduleInfo list" where
  "QueryInstanceScheduleInfo rm =
     map (\<lambda>(i, (a, _)).
        let p = prefillDemands (sched_of rm a); d = decodeDemands (sched_of rm a)
        in \<lparr>sc_id = i, sc_allocatedSlots = sat_add (Slots p) (Slots d),
            sc_allocatedBlocks = sat_add (Blocks p) (Blocks d)\<rparr>) (resourceMap rm)"

text \<open>\<open>owns_lock\<close>: whether the timed shared lock was obtained.\<close>

fun add_open :: "digs_cfg \<Rightarrow> (u64 \<times> ResInfo) list \<Rightarrow> ResourceManager \<Rightarrow> ResourceManager option" where
  "add_open cfg [] rm = Some rm"
| "add_open cfg ((i, ri) # rest) rm =
     (if isInstanceClosed (sched_of rm (fst ri)) then add_open cfg rest rm
      else case AddResInfo cfg ri rm of None \<Rightarrow> None | Some rm1 \<Rightarrow> add_open cfg rest rm1)"

definition UpdateResourceView :: "digs_cfg \<Rightarrow> bool \<Rightarrow> ResourceManager \<Rightarrow> (Status \<times> ResourceManager) option" where
  "UpdateResourceView cfg owns_lock rm =
     (if owns_lock then map_option (\<lambda>rm1. (OK, rm1)) (add_open cfg (resourceMap rm) rm)
      else Some (TIMEOUT, rm))"

definition new_ResourceManager :: "(addr \<Rightarrow> ResourceInfo) \<Rightarrow> ResourceManager" where
  "new_ResourceManager h = \<lparr>resHeap = h, nextRes = 0, resourceMap = [], resView = new_ResourceViewManager\<rparr>"

subsection \<open>Frames\<close>

lemma upd_sched_static [simp]: "static_of (upd_sched a f rm) b = static_of rm b"
  by (simp add: upd_sched_def upd_res_def)

lemma upd_sched_frame [simp]:
  "resView (upd_sched a f rm) = resView rm" "resourceMap (upd_sched a f rm) = resourceMap rm"
  "nextRes (upd_sched a f rm) = nextRes rm"
  by (simp_all add: upd_sched_def upd_res_def)

lemma Add2_frame [simp]:
  "resHeap (Add2PrefillPool ri rm) = resHeap rm" "resHeap (Add2DecodePool ri g rm) = resHeap rm"
  "resHeap (Add2GlobalPool ri rm) = resHeap rm"
  "resourceMap (Add2PrefillPool ri rm) = resourceMap rm" "resourceMap (Add2DecodePool ri g rm) = resourceMap rm"
  "resourceMap (Add2GlobalPool ri rm) = resourceMap rm"
  "nextRes (Add2PrefillPool ri rm) = nextRes rm" "nextRes (Add2DecodePool ri g rm) = nextRes rm"
  "nextRes (Add2GlobalPool ri rm) = nextRes rm"
  by (simp_all add: Add2PrefillPool_def Add2DecodePool_def Add2GlobalPool_def)

end
