(* ===== verification/Request_Manager.thy ===== *)
theory Request_Manager
  imports Resource_Manager
begin

text \<open>
  \<^verbatim>\<open>coordinator/request/request_manager.{h,cpp}\<close> and \<^verbatim>\<open>request_profiler.{h,cpp}\<close>.
  Requests are shared between the waiting, scheduling, processing and notification queues and the
  control callbacks, so they live in a heap and the queues hold addresses. The control callback
  of a request is its address (it captures the object); \<^verbatim>\<open>reqId2Callback_\<close> maps request ids to
  it. The release processor that \<^verbatim>\<open>GlobalScheduler\<close> installs is \<^const>\<open>UpdateScheduleInfo\<close>;
  the notification it installs sets \<^verbatim>\<open>requestUpdated_\<close> when its argument is true, which the
  operations below report in their boolean result.
\<close>

record RequestManager =
  reqHeap :: "addr \<Rightarrow> DIGSRequest"
  nextReq :: addr
  waitingQueue :: "addr list"
  processingQueue :: "addr list"
  reqId2Callback :: "string \<rightharpoonup> addr"
  inputLengths :: "u64 list"
  outputLengths :: "u64 list"
  maxSummaryCount :: u64
  avgInputLength :: u64
  avgOutputLength :: u64

definition new_RequestManager :: "u64 \<Rightarrow> RequestManager" where
  "new_RequestManager n = \<lparr>reqHeap = (\<lambda>_. empty_DIGSRequest 0), nextReq = 0, waitingQueue = [],
     processingQueue = [], reqId2Callback = Map.empty, inputLengths = [], outputLengths = [],
     maxSummaryCount = n, avgInputLength = 0, avgOutputLength = 0\<rparr>"

definition upd_req :: "addr \<Rightarrow> (DIGSRequest \<Rightarrow> DIGSRequest) \<Rightarrow> RequestManager \<Rightarrow> RequestManager" where
  "upd_req a f q = q\<lparr>reqHeap := (reqHeap q)(a := f (reqHeap q a))\<rparr>"

subsection \<open>Profiler (request_profiler.cpp)\<close>

definition ExportEndedReq :: "addr \<Rightarrow> RequestManager \<Rightarrow> RequestManager" where
  "ExportEndedReq a q =
     (let ins = inputLengths q @ [inputLen (reqHeap q a)];
          outs = outputLengths q @ [outputLen (reqHeap q a)]
      in if length ins > unat (maxSummaryCount q)
         then q\<lparr>inputLengths := tl ins, outputLengths := tl outs\<rparr>
         else q\<lparr>inputLengths := ins, outputLengths := outs\<rparr>)"

definition CalculateSummary :: "RequestManager \<Rightarrow> RequestManager" where
  "CalculateSummary q =
     (if inputLengths q = [] \<or> outputLengths q = []
      then q\<lparr>avgInputLength := 0, avgOutputLength := 0\<rparr>
      else q\<lparr>avgInputLength := fold (\<lambda>x s. s + x) (inputLengths q) 0 div of_nat (length (inputLengths q)),
             avgOutputLength := fold (\<lambda>x s. s + x) (outputLengths q) 0 div of_nat (length (outputLengths q)),
             inputLengths := [], outputLengths := []\<rparr>)"

subsection \<open>Client operations\<close>

text \<open>A null pointer is \<^const>\<open>None\<close>. A request with a known id becomes INVALID and is dropped.\<close>

definition AddReq :: "DIGSRequest option \<Rightarrow> RequestManager \<Rightarrow> Status \<times> RequestManager" where
  "AddReq req q = (case req of
       None \<Rightarrow> (ILLEGAL_PARAMETER, q)
     | Some r \<Rightarrow>
         (let a = nextReq q; q1 = q\<lparr>reqHeap := (reqHeap q)(a := r), nextReq := Suc a\<rparr> in
          if reqId2Callback q (reqId r) \<noteq> None
          then (ILLEGAL_PARAMETER, upd_req a (snd \<circ> UpdateState2Invalid) q1)
          else (OK, q1\<lparr>reqId2Callback := (reqId2Callback q)(reqId r \<mapsto> a),
                       waitingQueue := waitingQueue q @ [a]\<rparr>)))"

definition UpdateReq :: "string \<Rightarrow> u64 \<Rightarrow> RequestManager \<Rightarrow> Status \<times> bool \<times> RequestManager" where
  "UpdateReq rid t q = (case reqId2Callback q rid of
       Some a \<Rightarrow>
         (let (st, notify, r) = ControlCallback REQUEST_UPDATE t 0 0 (reqHeap q a)
          in (st, notify, q\<lparr>reqHeap := (reqHeap q)(a := r)\<rparr>))
     | None \<Rightarrow> (RESOURCE_NOT_FOUND, False, q))"

definition RemoveReq ::
  "string \<Rightarrow> u64 \<Rightarrow> u64 \<Rightarrow> u64 \<Rightarrow> RequestManager \<Rightarrow> Status \<times> bool \<times> RequestManager" where
  "RemoveReq rid pt dt outLen q = (case reqId2Callback q rid of
       Some a \<Rightarrow>
         (let (st, notify, r) = ControlCallback REQUEST_REMOVE pt dt outLen (reqHeap q a)
          in (st, notify, q\<lparr>reqId2Callback := (reqId2Callback q)(rid := None),
                            reqHeap := (reqHeap q)(a := r)\<rparr>))
     | None \<Rightarrow> (RESOURCE_NOT_FOUND, False, q))"

subsection \<open>Scheduler operations\<close>

text \<open>
  The loop of \<^verbatim>\<open>PullRequest\<close> over the waiting queue: \<open>locks\<close> is the number of times the timed
  lock is obtained before it fails, \<open>pulled\<close> the requests pulled so far, \<open>maxReqNum\<close> the limit.
  The result also carries the scheduler's deque with the pulled requests at its end.
\<close>

fun pull_loop :: "nat \<Rightarrow> nat \<Rightarrow> nat \<Rightarrow> addr list \<Rightarrow> addr list \<Rightarrow> RequestManager \<Rightarrow> addr list \<times> RequestManager" where
  "pull_loop locks pulled maxReqNum [] sched q = (sched, q\<lparr>waitingQueue := []\<rparr>)"
| "pull_loop locks pulled maxReqNum (a # w) sched q =
     (if locks = 0 \<or> pulled \<ge> maxReqNum then (sched, q\<lparr>waitingQueue := a # w\<rparr>)
      else pull_loop (locks - 1) (Suc pulled) maxReqNum w (sched @ [a])
             ((upd_req a (snd \<circ> UpdateState2Scheduling) q)
                \<lparr>processingQueue := processingQueue q @ [a]\<rparr>))"

definition PullRequest :: "nat \<Rightarrow> nat \<Rightarrow> addr list \<Rightarrow> RequestManager \<Rightarrow> addr list \<times> RequestManager" where
  "PullRequest locks maxReqNum sched q = pull_loop locks 0 maxReqNum (waitingQueue q) sched q"

definition ended :: "RequestManager \<Rightarrow> addr \<Rightarrow> bool" where
  "ended q a \<longleftrightarrow> state (reqHeap q a) = DECODE_END"

fun ended_loop :: "addr list \<Rightarrow> RequestManager \<Rightarrow> addr list \<times> addr list \<times> RequestManager" where
  "ended_loop [] q = ([], [], q)"
| "ended_loop (a # as) q =
     (if ended q a
      then let (es, ks, q1) = ended_loop as (ExportEndedReq a q) in (a # es, ks, q1)
      else let (es, ks, q1) = ended_loop as q in (es, a # ks, q1))"

definition ProcessEndedReq :: "RequestManager \<Rightarrow> addr list \<times> RequestManager" where
  "ProcessEndedReq q =
     (let (es, ks, q1) = ended_loop (processingQueue q) q in (es, q1\<lparr>processingQueue := ks\<rparr>))"

text \<open>
  The guarded release that the sources repeat,
  \<^verbatim>\<open>if (req->ScheduleInfo()->XRelease()) UpdateScheduleInfo(req, X)\<close>, for a request whose
  allocation record is not null.
\<close>

definition stage_release :: "DIGSReqStage \<Rightarrow> ReqScheduleInfo \<Rightarrow> bool \<times> ReqScheduleInfo" where
  "stage_release stage si = (case stage of PREFILL \<Rightarrow> PrefillRelease si | DECODE \<Rightarrow> DecodeRelease si)"

definition try_release ::
  "DIGSReqStage \<Rightarrow> addr \<Rightarrow> RequestManager \<times> ResourceManager \<Rightarrow> RequestManager \<times> ResourceManager" where
  "try_release stage a s = (case s of (q, rm) \<Rightarrow>
     (case scheduleInfo (reqHeap q a) of
        None \<Rightarrow> (q, rm)
      | Some si \<Rightarrow>
          (let (first, si1) = stage_release stage si;
               q1 = upd_req a (\<lambda>r. r\<lparr>scheduleInfo := Some si1\<rparr>) q
           in (q1, if first
                   then snd (UpdateScheduleInfo si1 (prefillCostTime (reqHeap q a)) stage rm)
                   else rm))))"

text \<open>\<open>has_processor\<close>: whether the release processor has been installed.\<close>

definition release_one :: "addr \<Rightarrow> RequestManager \<times> ResourceManager \<Rightarrow> RequestManager \<times> ResourceManager" where
  "release_one a s =
     (if scheduleInfo (reqHeap (fst s) a) = None then s
      else case state (reqHeap (fst s) a) of
          DECODE_END \<Rightarrow> try_release PREFILL a (try_release DECODE a s)
        | PREFILL_END \<Rightarrow> try_release PREFILL a s
        | _ \<Rightarrow> s)"

definition ProcessRelease ::
  "bool \<Rightarrow> RequestManager \<times> ResourceManager \<Rightarrow> Status \<times> RequestManager \<times> ResourceManager" where
  "ProcessRelease has_processor s =
     (if \<not> has_processor then (ILLEGAL_PARAMETER, s)
      else (OK, fold release_one (processingQueue (fst s)) s))"

end
