(* ===== verification/Scheduler_Policies.thy ===== *)
theory Scheduler_Policies
  imports Request_Manager
begin

text \<open>
  The pluggable policies of the DIGS scheduler under \<^verbatim>\<open>coordinator/digs_scheduler\<close>: request
  reordering (\<^verbatim>\<open>reorderingpolicy\<close>), assignment of flexible instances to the prefill and decode
  pools (\<^verbatim>\<open>poolpolicy\<close>) and instance selection (\<^verbatim>\<open>selectpolicy\<close>). The selection
  policies sort with \<^verbatim>\<open>std::sort\<close>, which is the argument \<open>srt\<close> (see \<open>std_sort\<close>).
\<close>

subsection \<open>Reordering requests\<close>

datatype ReorderingPolicyType = FCFS | SJF | LJF | MPRF

definition sljf_less :: "bool \<Rightarrow> RequestManager \<Rightarrow> addr \<Rightarrow> addr \<Rightarrow> bool" where
  "sljf_less reverse q a b =
     (if reverse then inputLen (reqHeap q a) > inputLen (reqHeap q b)
      else inputLen (reqHeap q a) < inputLen (reqHeap q b))"

definition mprf_less :: "RequestManager \<Rightarrow> addr \<Rightarrow> addr \<Rightarrow> bool" where
  "mprf_less q a b \<longleftrightarrow> maxPrefix (reqHeap q a) > maxPrefix (reqHeap q b)"

fun Reordering :: "ReorderingPolicyType \<Rightarrow> RequestManager \<Rightarrow> addr list \<Rightarrow> addr list" where
  "Reordering FCFS q reqs = reqs"
| "Reordering SJF q reqs = stable_sort (sljf_less False q) reqs"
| "Reordering LJF q reqs = stable_sort (sljf_less True q) reqs"
| "Reordering MPRF q reqs = stable_sort (mprf_less q) reqs"

text \<open>\<^verbatim>\<open>InitReorderingPolicy\<close>: the configured number, with first-come first-served as the default.\<close>

definition InitReorderingPolicy :: "int \<Rightarrow> ReorderingPolicyType" where
  "InitReorderingPolicy t =
     (if t = 1 then FCFS else if t = 2 then SJF else if t = 3 then LJF else if t = 4 then MPRF else FCFS)"

subsection \<open>Assigning flexible instances to pools\<close>

definition pool_move :: "ResourceManager \<Rightarrow> ResInfo \<Rightarrow> ResourceManager \<Rightarrow> ResourceManager" where
  "pool_move rm ri rm1 =
     (case st_label (static_of rm (fst ri)) of
        PREFILL_STATIC \<Rightarrow> Add2PrefillPool ri (upd_sched (fst ri) (snd \<circ> UpdateDuty PREFILLING) rm1)
      | PREFILL_PREFER \<Rightarrow> Add2PrefillPool ri (upd_sched (fst ri) (snd \<circ> UpdateDuty PREFILLING) rm1)
      | DECODE_STATIC \<Rightarrow> Add2DecodePool ri (st_groupId (static_of rm (fst ri)))
                            (upd_sched (fst ri) (snd \<circ> UpdateDuty DECODING) rm1)
      | DECODE_PREFER \<Rightarrow> Add2DecodePool ri (st_groupId (static_of rm (fst ri)))
                            (upd_sched (fst ri) (snd \<circ> UpdateDuty DECODING) rm1)
      | FLEX_STATIC \<Rightarrow> rm1)"

lemma globalPool_pool_move [simp]:
  "globalPool (resView (pool_move rm ri rm1)) = globalPool (resView rm1)"
  by (simp add: pool_move_def Add2PrefillPool_def Add2DecodePool_def upd_sched_def upd_res_def
      split: DIGSInstanceLabel.split)

text \<open>The iterator loop of \<^verbatim>\<open>StaticPoolPolicy::ScheduleInst\<close>; the iterator is its offset.\<close>

function schedule_inst_loop :: "nat \<Rightarrow> ResourceManager \<Rightarrow> ResourceManager" where
  "schedule_inst_loop off rm =
     (let gp = globalPool (resView rm) in
      if off < length gp
      then (if st_label (static_of rm (fst (gp ! off))) = FLEX_STATIC
            then schedule_inst_loop (Suc off) rm
            else (case GlobalPoolRemoveAndNext (int off) rm of
                    (next, Some ri, rm1) \<Rightarrow> schedule_inst_loop (nat next) (pool_move rm ri rm1)
                  | (next, None, rm1) \<Rightarrow> rm1))
      else rm)"
  by pat_completeness auto
termination
  by (relation "measure (\<lambda>(off, rm). length (globalPool (resView rm)) - off)")
     (auto simp: GlobalPoolRemoveAndNext_def Let_def split: if_splits)

declare schedule_inst_loop.simps [simp del]

definition ScheduleInst :: "ResourceManager \<Rightarrow> ResourceManager" where
  "ScheduleInst rm =
     (if globalPool (resView rm) = [] then rm else schedule_inst_loop 0 rm)"

subsection \<open>Selecting instances\<close>

datatype InstSelectPolicyType = STATIC_ALLOC | LOAD_BALANCE

definition InitSelectPolicy :: "int \<Rightarrow> InstSelectPolicyType" where
  "InitSelectPolicy t = (if t = 1 then STATIC_ALLOC else if t = 2 then LOAD_BALANCE else STATIC_ALLOC)"

type_synonym sort_fn = "(ResInfo \<Rightarrow> ResInfo \<Rightarrow> bool) \<Rightarrow> ResInfo list \<Rightarrow> ResInfo list"

record SelectPool =
  sp_prefill :: ResView
  sp_decode :: "(u64, ResView) omap"

text \<open>Both policies load the view in the same way.\<close>

fun LoadResourceView :: "ResourceManager \<Rightarrow> DIGSReqStage \<Rightarrow> SelectPool \<Rightarrow> SelectPool" where
  "LoadResourceView rm PREFILL sp =
     sp\<lparr>sp_prefill := sp_prefill sp @ prefillPool (resView rm) @ globalPool (resView rm)\<rparr>"
| "LoadResourceView rm DECODE sp =
     sp\<lparr>sp_decode := fold (\<lambda>ri pool. Add2GroupedPool pool (st_groupId (static_of rm (fst ri))) ri)
          (globalPool (resView rm))
          (fold (\<lambda>(g, v). omap_insert g v) (decodePool (resView rm)) (sp_decode sp))\<rparr>"

definition OffloadResourceView :: "SelectPool \<Rightarrow> SelectPool" where
  "OffloadResourceView sp = \<lparr>sp_prefill = [], sp_decode = []\<rparr>"

definition prefill_load :: "ResourceManager \<Rightarrow> ResInfo \<Rightarrow> u64" where
  "prefill_load rm ri = TotalLoad (prefillDemands (sched_of rm (fst ri)))"

definition SortPrefill :: "sort_fn \<Rightarrow> ResourceManager \<Rightarrow> ResView \<Rightarrow> ResView" where
  "SortPrefill srt rm pool = srt (\<lambda>a b. prefill_load rm a < prefill_load rm b) pool"

definition decode_slots :: "ResourceManager \<Rightarrow> ResInfo \<Rightarrow> u64" where
  "decode_slots rm ri = Slots (decodeDemands (sched_of rm (fst ri)))"

text \<open>\<^verbatim>\<open>std::max_element\<close> keeps the first of the greatest elements; only its slots are used.\<close>

definition max_slots :: "ResourceManager \<Rightarrow> ResView \<Rightarrow> u64" where
  "max_slots rm grp = foldl (\<lambda>m ri. if m < decode_slots rm ri then decode_slots rm ri else m)
     (decode_slots rm (hd grp)) (tl grp)"

definition decode_load :: "digs_cfg \<Rightarrow> ResourceManager \<Rightarrow> u64 \<Rightarrow> MetaResource \<Rightarrow> ResInfo \<Rightarrow> f64" where
  "decode_load cfg rm maxSlots dem ri =
     ComputeAwareLoad (metaCfg cfg) (decodeDemands (sched_of rm (fst ri))) maxSlots
       (st_totalBlockNum (static_of rm (fst ri)) - dy_availBlockNum (snd ri)) dem"

definition SortDecode :: "sort_fn \<Rightarrow> digs_cfg \<Rightarrow> ResourceManager \<Rightarrow> MetaResource \<Rightarrow> ResView \<Rightarrow> ResView" where
  "SortDecode srt cfg rm dem grp =
     (let m = max_slots rm grp
      in srt (\<lambda>a b. f64_lt (decode_load cfg rm m dem a) (decode_load cfg rm m dem b)) grp)"

fun limit_loop :: "u64 list \<Rightarrow> u64 list \<Rightarrow> bool" where
  "limit_loop (d # ds) (m # ms) = (if d > m then False else limit_loop ds ms)"
| "limit_loop _ _ = True"

definition CheckDemandLimit :: "ResourceManager \<Rightarrow> ResInfo \<Rightarrow> DIGSReqStage \<Rightarrow> bool" where
  "CheckDemandLimit rm ri stage = (let s = sched_of rm (fst ri) in case stage of
       PREFILL \<Rightarrow> limit_loop (attributes (prefillDemands s)) (attributes (maxPrefillRes s))
     | DECODE \<Rightarrow> limit_loop (attributes (decodeDemands s)) (attributes (maxDecodeRes s)))"

text \<open>The condition under which the selection loops stop at an instance.\<close>

definition prefill_eligible :: "InstSelectPolicyType \<Rightarrow> ResourceManager \<Rightarrow> ResInfo \<Rightarrow> bool" where
  "prefill_eligible pol rm ri \<longleftrightarrow>
     \<not> isInstanceClosed (sched_of rm (fst ri)) \<and> CheckConnection rm ri
     \<and> (pol = LOAD_BALANCE \<longrightarrow> CheckDemandLimit rm ri PREFILL)"

definition decode_eligible :: "InstSelectPolicyType \<Rightarrow> ResourceManager \<Rightarrow> u64 \<Rightarrow> ResInfo \<Rightarrow> bool" where
  "decode_eligible pol rm prefill ri \<longleftrightarrow>
     \<not> isInstanceClosed (sched_of rm (fst ri)) \<and> CheckConnectionTo rm ri prefill
     \<and> (pol = LOAD_BALANCE \<longrightarrow> CheckDemandLimit rm ri DECODE)"

text \<open>\<^const>\<open>None\<close> in the first component is \<^verbatim>\<open>NO_SATISFIED_RESOURCE\<close>; otherwise the chosen prefill
  instance and its group. The pool stays sorted in the policy object.\<close>

definition SelectPrefillInst ::
  "sort_fn \<Rightarrow> InstSelectPolicyType \<Rightarrow> MetaResource \<Rightarrow> SelectPool \<Rightarrow> ResourceManager \<Rightarrow>
     (u64 \<times> u64) option \<times> SelectPool \<times> ResourceManager" where
  "SelectPrefillInst srt pol dem sp rm =
     (if sp_prefill sp = [] then (None, sp, rm)
      else let sorted = SortPrefill srt rm (sp_prefill sp); sp1 = sp\<lparr>sp_prefill := sorted\<rparr> in
           case find (prefill_eligible pol rm) sorted of
             None \<Rightarrow> (None, sp1, rm)
           | Some ri \<Rightarrow>
               (Some (st_id (static_of rm (fst ri)), st_groupId (static_of rm (fst ri))), sp1,
                upd_res (fst ri) (RI_AddDemand dem PREFILL) rm))"

definition SelectDecodeInst ::
  "sort_fn \<Rightarrow> InstSelectPolicyType \<Rightarrow> digs_cfg \<Rightarrow> MetaResource \<Rightarrow> u64 \<Rightarrow> u64 \<Rightarrow> SelectPool \<Rightarrow>
     ResourceManager \<Rightarrow> u64 option \<times> SelectPool \<times> ResourceManager" where
  "SelectDecodeInst srt pol cfg dem prefill groupId sp rm =
     (case map_of (sp_decode sp) groupId of
        None \<Rightarrow> (None, sp, rm)
      | Some grp \<Rightarrow>
          (if grp = [] then (None, sp, rm)
           else let sorted = SortDecode srt cfg rm dem grp;
                    sp1 = sp\<lparr>sp_decode := omap_put groupId sorted (sp_decode sp)\<rparr> in
                case find (decode_eligible pol rm prefill) sorted of
                  None \<Rightarrow> (None, sp1, rm)
                | Some ri \<Rightarrow>
                    (Some (st_id (static_of rm (fst ri))), sp1,
                     upd_res (fst ri) (RI_AddDemand dem DECODE) rm)))"

subsection \<open>Reordering\<close>

definition reorder_less :: "ReorderingPolicyType \<Rightarrow> RequestManager \<Rightarrow> addr \<Rightarrow> addr \<Rightarrow> bool" where
  "reorder_less p q = (case p of FCFS \<Rightarrow> (\<lambda>_ _. False) | SJF \<Rightarrow> sljf_less False q
     | LJF \<Rightarrow> sljf_less True q | MPRF \<Rightarrow> mprf_less q)"

lemma strict_weak_reorder: "strict_weak (reorder_less p q) A"
  by (cases p) (auto simp: reorder_less_def sljf_less_def mprf_less_def strict_weak_def)

lemma stable_sort_never: "stable_sort (\<lambda>_ _. False) xs = xs"
proof (induction xs)
  case Nil
  show ?case by simp
next
  case (Cons x xs)
  then show ?case by (cases xs) auto
qed

lemma Reordering_alt: "Reordering p q reqs = stable_sort (reorder_less p q) reqs"
  by (cases p) (simp_all add: reorder_less_def stable_sort_never)

text \<open>Reordering permutes the waiting requests, puts them in the order of the policy (arrival,
  shortest prompt, longest prompt or longest cached prefix first), and keeps the arrival order
  among requests the policy does not distinguish.\<close>

lemma reordering_sorted_stable:
  "mset (Reordering p q reqs) = mset reqs
   \<and> sorted_wrt (\<lambda>a b. \<not> reorder_less p q b a) (Reordering p q reqs)
   \<and> filter (\<lambda>b. \<not> reorder_less p q a b \<and> \<not> reorder_less p q b a) (Reordering p q reqs)
     = filter (\<lambda>b. \<not> reorder_less p q a b \<and> \<not> reorder_less p q b a) reqs"
proof (intro conjI)
  let ?lt = "reorder_less p q"
  show "mset (Reordering p q reqs) = mset reqs"
    by (simp add: Reordering_alt mset_stable_sort)
  show "sorted_wrt (\<lambda>a b. \<not> ?lt b a) (Reordering p q reqs)"
    unfolding Reordering_alt by (rule sorted_stable_sort) (rule strict_weak_reorder)
  show "filter (\<lambda>b. \<not> ?lt a b \<and> \<not> ?lt b a) (Reordering p q reqs) = filter (\<lambda>b. \<not> ?lt a b \<and> \<not> ?lt b a) reqs"
    unfolding Reordering_alt
  proof (rule stable_sort_filter)
    fix y z assume "\<not> ?lt a y \<and> \<not> ?lt y a" "\<not> ?lt a z \<and> \<not> ?lt z a"
    then show "\<not> ?lt y z"
      using strict_weak_neg [OF strict_weak_reorder, of y UNIV a z p q] by simp
  qed
qed

subsection \<open>Pools\<close>

definition prefill_label :: "ResourceManager \<Rightarrow> ResInfo \<Rightarrow> bool" where
  "prefill_label rm ri \<longleftrightarrow> st_label (static_of rm (fst ri)) \<in> {PREFILL_STATIC, PREFILL_PREFER}"

definition decode_label :: "ResourceManager \<Rightarrow> ResInfo \<Rightarrow> bool" where
  "decode_label rm ri \<longleftrightarrow> st_label (static_of rm (fst ri)) \<in> {DECODE_STATIC, DECODE_PREFER}"

definition flex_label :: "ResourceManager \<Rightarrow> ResInfo \<Rightarrow> bool" where
  "flex_label rm ri \<longleftrightarrow> st_label (static_of rm (fst ri)) = FLEX_STATIC"

definition add_grouped :: "ResourceManager \<Rightarrow> ResView \<Rightarrow> (u64, ResView) omap \<Rightarrow> (u64, ResView) omap" where
  "add_grouped rm = fold (\<lambda>ri pool. Add2GroupedPool pool (st_groupId (static_of rm (fst ri))) ri)"

lemma pool_move_static [simp]: "static_of (pool_move rm ri rm1) b = static_of rm1 b"
  by (simp add: pool_move_def split: DIGSInstanceLabel.split)

definition remove_at :: "nat \<Rightarrow> ResourceManager \<Rightarrow> ResourceManager" where
  "remove_at off rm = rm\<lparr>resView := (resView rm)\<lparr>globalPool :=
     take off (globalPool (resView rm)) @ drop (Suc off) (globalPool (resView rm))\<rparr>\<rparr>"

lemma GlobalPoolRemoveAndNext_in:
  "off < length (globalPool (resView rm)) \<Longrightarrow>
     GlobalPoolRemoveAndNext (int off) rm = (int off, Some (globalPool (resView rm) ! off), remove_at off rm)"
  by (simp add: GlobalPoolRemoveAndNext_def remove_at_def Let_def)

lemma schedule_inst_loop_step:
  "schedule_inst_loop off rm =
     (if off < length (globalPool (resView rm))
      then if flex_label rm (globalPool (resView rm) ! off) then schedule_inst_loop (Suc off) rm
           else schedule_inst_loop off (pool_move rm (globalPool (resView rm) ! off) (remove_at off rm))
      else rm)"
  by (subst schedule_inst_loop.simps) (simp add: Let_def GlobalPoolRemoveAndNext_in flex_label_def)

text \<open>The loop in closed form, on the part of the global pool it has not seen.\<close>

definition split_view :: "ResourceManager \<Rightarrow> ResView \<Rightarrow> ResourceViewManager \<Rightarrow> ResourceViewManager" where
  "split_view rm rest v = v\<lparr>prefillPool := prefillPool v @ filter (prefill_label rm) rest,
     decodePool := add_grouped rm (filter (decode_label rm) rest) (decodePool v)\<rparr>"

lemma label_cases:
  "st_label (static_of rm (fst ri)) = l \<Longrightarrow>
     prefill_label rm ri = (l \<in> {PREFILL_STATIC, PREFILL_PREFER}) \<and>
     decode_label rm ri = (l \<in> {DECODE_STATIC, DECODE_PREFER}) \<and> flex_label rm ri = (l = FLEX_STATIC)"
  by (auto simp: prefill_label_def decode_label_def flex_label_def)

lemma schedule_inst_loop_view:
  assumes "globalPool (resView rm) = keep @ rest"
  shows "resView (schedule_inst_loop (length keep) rm)
    = split_view rm rest (resView rm)\<lparr>globalPool := keep @ filter (flex_label rm) rest\<rparr>"
  using assms
proof (induction rest arbitrary: keep rm)
  case Nil
  then show ?case by (subst schedule_inst_loop_step) (simp add: split_view_def add_grouped_def)
next
  case (Cons ri rest)
  show ?case
  proof (cases "flex_label rm ri")
    case True
    have "resView (schedule_inst_loop (length (keep @ [ri])) rm)
      = split_view rm rest (resView rm)\<lparr>globalPool := (keep @ [ri]) @ filter (flex_label rm) rest\<rparr>"
      by (rule Cons.IH) (simp add: Cons.prems)
    with True Cons.prems show ?thesis
      by (subst schedule_inst_loop_step)
         (auto simp: split_view_def prefill_label_def decode_label_def flex_label_def)
  next
    case False
    let ?rm = "pool_move rm ri (remove_at (length keep) rm)"
    have g: "globalPool (resView ?rm) = keep @ rest"
      by (simp add: remove_at_def Cons.prems)
    have lab: "prefill_label ?rm = prefill_label rm" "decode_label ?rm = decode_label rm"
      "flex_label ?rm = flex_label rm" "add_grouped ?rm = add_grouped rm"
      by (simp_all add: fun_eq_iff prefill_label_def decode_label_def flex_label_def add_grouped_def
          remove_at_def)
    have "split_view rm rest (resView ?rm)\<lparr>globalPool := G\<rparr> =
        split_view rm (ri # rest) (resView rm)\<lparr>globalPool := G\<rparr>" for G
      using False
      by (cases "st_label (static_of rm (fst ri))")
         (auto simp: split_view_def pool_move_def Add2PrefillPool_def Add2DecodePool_def remove_at_def
           add_grouped_def dest!: label_cases)
    with Cons.IH [OF g] False Cons.prems show ?thesis
      by (subst schedule_inst_loop_step) (simp add: lab split_view_def)
  qed
qed

lemma ScheduleInst_view:
  "resView (ScheduleInst rm) = split_view rm (globalPool (resView rm)) (resView rm)
     \<lparr>globalPool := filter (flex_label rm) (globalPool (resView rm))\<rparr>"
  using schedule_inst_loop_view [of rm "[]"]
  by (auto simp: ScheduleInst_def split_view_def add_grouped_def)

subsection \<open>Selection\<close>

lemma strict_weak_prefill: "strict_weak (\<lambda>a b. prefill_load rm a < prefill_load rm b) A"
  by (rule strict_weak_key)

lemma strict_weak_decode:
  assumes "weights_ok (metaCfg cfg)"
  shows "strict_weak (\<lambda>a b. f64_lt (decode_load cfg rm m dem a) (decode_load cfg rm m dem b)) A"
proof (rule strict_weak_f64)
  fix x show "decode_load cfg rm m dem x \<noteq> NaN"
    using f64_nn_ComputeAwareLoad [OF assms] by (simp add: decode_load_def f64_nn_def)
qed

text \<open>What the callers rely on: an instance that is chosen comes from the pool, may serve the
  request and is charged with the demand; otherwise nothing changes and none could serve it.\<close>

lemma SelectPrefillInst_Some:
  assumes "std_sort srt" and "SelectPrefillInst srt pol dem sp rm = (Some (p, g), sp', rm')"
  obtains ri where "ri \<in> set (sp_prefill sp)" "prefill_eligible pol rm ri"
    "p = st_id (static_of rm (fst ri))" "g = st_groupId (static_of rm (fst ri))"
    "rm' = upd_res (fst ri) (RI_AddDemand dem PREFILL) rm"
    "\<forall>rj \<in> set (sp_prefill sp). prefill_eligible pol rm rj \<longrightarrow> prefill_load rm ri \<le> prefill_load rm rj"
    "sp' = sp\<lparr>sp_prefill := SortPrefill srt rm (sp_prefill sp)\<rparr>"
proof -
  from assms(2) obtain ri where ri: "find (prefill_eligible pol rm) (SortPrefill srt rm (sp_prefill sp)) = Some ri"
    and eq: "p = st_id (static_of rm (fst ri))" "g = st_groupId (static_of rm (fst ri))"
    "rm' = upd_res (fst ri) (RI_AddDemand dem PREFILL) rm"
    "sp' = sp\<lparr>sp_prefill := SortPrefill srt rm (sp_prefill sp)\<rparr>"
    by (auto simp: SelectPrefillInst_def Let_def split: if_splits option.splits)
  note f = ri [unfolded SortPrefill_def]
  from std_sort.find_srt_in [OF assms(1) strict_weak_prefill f]
    std_sort.find_srt_least [OF assms(1) strict_weak_prefill f] eq
  show ?thesis by (intro that [of ri]) (auto simp: not_less)
qed

lemma SelectPrefillInst_None:
  assumes "std_sort srt" and "SelectPrefillInst srt pol dem sp rm = (None, sp', rm')"
  shows "rm' = rm" and "\<And>ri. ri \<in> set (sp_prefill sp) \<Longrightarrow> \<not> prefill_eligible pol rm ri"
    and "set (sp_prefill sp') = set (sp_prefill sp)" and "sp_decode sp' = sp_decode sp"
  using assms(2) std_sort.find_srt_None [OF assms(1) strict_weak_prefill]
    std_sort.set_srt [OF assms(1) strict_weak_prefill]
  by (auto simp: SelectPrefillInst_def SortPrefill_def Let_def split: if_splits option.splits)

lemma set_SortPrefill: "std_sort srt \<Longrightarrow> set (SortPrefill srt rm pool) = set pool"
  unfolding SortPrefill_def by (rule std_sort.set_srt [OF _ strict_weak_prefill])

lemma set_SortDecode: "std_sort srt \<Longrightarrow> weights_ok (metaCfg cfg) \<Longrightarrow>
    set (SortDecode srt cfg rm dem pool) = set pool"
  unfolding SortDecode_def Let_def by (rule std_sort.set_srt [OF _ strict_weak_decode])

lemma SelectDecodeInst_Some:
  assumes "std_sort srt" and w: "weights_ok (metaCfg cfg)"
    and "SelectDecodeInst srt pol cfg dem p g sp rm = (Some d, sp', rm')"
  obtains grp ri where "map_of (sp_decode sp) g = Some grp" "ri \<in> set grp" "decode_eligible pol rm p ri"
    "d = st_id (static_of rm (fst ri))" "rm' = upd_res (fst ri) (RI_AddDemand dem DECODE) rm"
    "\<forall>rj \<in> set grp. decode_eligible pol rm p rj \<longrightarrow>
       \<not> f64_lt (decode_load cfg rm (max_slots rm grp) dem rj) (decode_load cfg rm (max_slots rm grp) dem ri)"
    "sp' = sp\<lparr>sp_decode := omap_put g (SortDecode srt cfg rm dem grp) (sp_decode sp)\<rparr>"
proof -
  from assms(3) obtain grp ri where ri: "find (decode_eligible pol rm p) (SortDecode srt cfg rm dem grp) = Some ri"
    and eq: "map_of (sp_decode sp) g = Some grp" "d = st_id (static_of rm (fst ri))"
    "rm' = upd_res (fst ri) (RI_AddDemand dem DECODE) rm"
    "sp' = sp\<lparr>sp_decode := omap_put g (SortDecode srt cfg rm dem grp) (sp_decode sp)\<rparr>"
    by (auto simp: SelectDecodeInst_def Let_def split: if_splits option.splits)
  note f = ri [unfolded SortDecode_def Let_def]
  from std_sort.find_srt_in [OF assms(1) strict_weak_decode [OF w] f]
    std_sort.find_srt_least [OF assms(1) strict_weak_decode [OF w] f] eq
  show ?thesis by (intro that [of grp ri]) auto
qed

lemma SelectDecodeInst_None:
  assumes "std_sort srt" and w: "weights_ok (metaCfg cfg)"
    and "SelectDecodeInst srt pol cfg dem p g sp rm = (None, sp', rm')"
  shows "rm' = rm"
    and "\<And>grp ri. map_of (sp_decode sp) g = Some grp \<Longrightarrow> ri \<in> set grp \<Longrightarrow> \<not> decode_eligible pol rm p ri"
    and "sp' = sp \<or> (\<exists>grp. map_of (sp_decode sp) g = Some grp \<and>
           sp' = sp\<lparr>sp_decode := omap_put g (SortDecode srt cfg rm dem grp) (sp_decode sp)\<rparr>)"
  using assms(3) std_sort.find_srt_None [OF assms(1) strict_weak_decode [OF w]]
  by (auto simp: SelectDecodeInst_def SortDecode_def Let_def split: if_splits option.splits)

text \<open>C10: prefill selection returns an instance of the pool that is open, has a free connection (and
  is within its limit under load balancing), carries the least prefill load among all such
  instances and is charged with the demand; it fails, and changes no instance, only when no
  instance of the pool qualifies.\<close>

theorem select_prefill_correct:
  assumes "std_sort srt"
  shows "case SelectPrefillInst srt pol dem sp rm of
      (None, sp', rm') \<Rightarrow> rm' = rm \<and> (\<forall>ri. ri \<in> set (sp_prefill sp) \<longrightarrow> \<not> prefill_eligible pol rm ri)
    | (Some (p, g), sp', rm') \<Rightarrow>
        (\<exists>ri. ri \<in> set (sp_prefill sp) \<and> prefill_eligible pol rm ri
          \<and> p = st_id (static_of rm (fst ri)) \<and> g = st_groupId (static_of rm (fst ri))
          \<and> rm' = upd_res (fst ri) (RI_AddDemand dem PREFILL) rm
          \<and> (\<forall>rj. rj \<in> set (sp_prefill sp) \<longrightarrow> prefill_eligible pol rm rj \<longrightarrow>
                prefill_load rm ri \<le> prefill_load rm rj))"
proof (cases "SelectPrefillInst srt pol dem sp rm")
  case (fields res sp' rm')
  show ?thesis
  proof (cases res)
    case None
    with fields SelectPrefillInst_None [OF assms] show ?thesis by force
  next
    case (Some pg)
    obtain p g where pg: "pg = (p, g)" by force
    from SelectPrefillInst_Some [OF assms fields [unfolded Some pg]]
    obtain ri where "ri \<in> set (sp_prefill sp)" "prefill_eligible pol rm ri"
      "p = st_id (static_of rm (fst ri))" "g = st_groupId (static_of rm (fst ri))"
      "rm' = upd_res (fst ri) (RI_AddDemand dem PREFILL) rm"
      "\<forall>rj \<in> set (sp_prefill sp). prefill_eligible pol rm rj \<longrightarrow> prefill_load rm ri \<le> prefill_load rm rj"
      by blast
    then show ?thesis unfolding fields Some pg prod.case option.case by blast
  qed
qed

text \<open>C11: decode selection looks only at the group of the prefill instance and returns an instance that is
  open and connected to the prefill instance (and within its limit under load balancing), with
  the least compute-aware load among those, and charges it; it fails, and changes no instance,
  only when no instance of the group qualifies.\<close>

theorem select_decode_correct:
  assumes "std_sort srt" and "weights_ok (metaCfg cfg)"
  shows "case SelectDecodeInst srt pol cfg dem p g sp rm of
      (None, sp', rm') \<Rightarrow> rm' = rm \<and>
        (\<forall>grp ri. map_of (sp_decode sp) g = Some grp \<longrightarrow> ri \<in> set grp \<longrightarrow> \<not> decode_eligible pol rm p ri)
    | (Some d, sp', rm') \<Rightarrow>
        (\<exists>grp ri. map_of (sp_decode sp) g = Some grp \<and> ri \<in> set grp \<and> decode_eligible pol rm p ri
          \<and> d = st_id (static_of rm (fst ri))
          \<and> rm' = upd_res (fst ri) (RI_AddDemand dem DECODE) rm
          \<and> (\<forall>rj. rj \<in> set grp \<longrightarrow> decode_eligible pol rm p rj \<longrightarrow>
                \<not> f64_lt (decode_load cfg rm (max_slots rm grp) dem rj)
                     (decode_load cfg rm (max_slots rm grp) dem ri)))"
proof (cases "SelectDecodeInst srt pol cfg dem p g sp rm")
  case (fields res sp' rm')
  show ?thesis
  proof (cases res)
    case None
    from SelectDecodeInst_None [OF assms fields [unfolded None]] show ?thesis
      unfolding fields None prod.case option.case by blast
  next
    case (Some d)
    obtain grp ri where "map_of (sp_decode sp) g = Some grp" "ri \<in> set grp" "decode_eligible pol rm p ri"
      "d = st_id (static_of rm (fst ri))" "rm' = upd_res (fst ri) (RI_AddDemand dem DECODE) rm"
      "\<forall>rj \<in> set grp. decode_eligible pol rm p rj \<longrightarrow>
       \<not> f64_lt (decode_load cfg rm (max_slots rm grp) dem rj) (decode_load cfg rm (max_slots rm grp) dem ri)"
      by (rule SelectDecodeInst_Some [OF assms fields [unfolded Some]]) blast
    then show ?thesis unfolding fields Some prod.case option.case by blast
  qed
qed

lemma max_slots_greatest:
  assumes "grp \<noteq> []"
  shows "(\<exists>ri \<in> set grp. max_slots rm grp = decode_slots rm ri)
    \<and> (\<forall>ri \<in> set grp. decode_slots rm ri \<le> max_slots rm grp)"
proof -
  let ?f = "\<lambda>m ri. if m < decode_slots rm ri then decode_slots rm ri else m"
  have f: "?f = (\<lambda>m ri. max m (decode_slots rm ri))" by (auto simp: fun_eq_iff max_def not_less)
  have gen: "foldl (\<lambda>m ri. max m (decode_slots rm ri)) m xs = Max (insert m (decode_slots rm ` set xs))" for m xs
  proof (induction xs arbitrary: m)
    case (Cons x xs)
    have "insert m (decode_slots rm ` set (x # xs)) = insert m (insert (decode_slots rm x) (decode_slots rm ` set xs))"
      by simp
    then show ?case using Cons.IH [of "max m (decode_slots rm x)"]
      by (cases "set xs = {}") (simp_all add: ac_simps)
  qed simp
  from assms obtain x xs where "grp = x # xs" by (cases grp) auto
  then have "max_slots rm grp = Max (decode_slots rm ` set grp)"
    using gen [of "decode_slots rm x" xs] by (simp add: max_slots_def f)
  moreover have "Max (decode_slots rm ` set grp) \<in> decode_slots rm ` set grp"
    using assms by (intro Max_in) auto
  ultimately show ?thesis by auto
qed

end
