(* ===== verification/Schedule_Framework.thy ===== *)
theory Schedule_Framework
  imports Scheduler_Policies
begin

text \<open>
  \<^verbatim>\<open>coordinator/digs_scheduler/framework/schedule_framework.{h,cpp}\<close>: one scheduling pass over
  the requests that wait for instances. The state of a pass is the request manager, the resource
  manager, the selection policy's pools and the two queues of the global scheduler. The clock is
  the argument \<open>now\<close> (the code reads it once per request; every reading is \<open>now\<close>).
\<close>

record fw_cfg =
  reorderingPolicy :: ReorderingPolicyType
  selectPolicy :: InstSelectPolicyType
  digsCfg :: digs_cfg

definition new_ScheduleFramework :: "int \<Rightarrow> int \<Rightarrow> digs_cfg \<Rightarrow> fw_cfg" where
  "new_ScheduleFramework reorderingType selectType cfg =
     \<lparr>reorderingPolicy = InitReorderingPolicy reorderingType,
      selectPolicy = InitSelectPolicy selectType, digsCfg = cfg\<rparr>"

record pass =
  ps_rq :: RequestManager
  ps_rm :: ResourceManager
  ps_pool :: SelectPool
  ps_sched :: "addr list"
  ps_alloc :: "addr list"

definition GenerateDemand :: "digs_cfg \<Rightarrow> DIGSRequest \<Rightarrow> MetaResource" where
  "GenerateDemand cfg r =
     (let d = MetaResource_default (metaCfg cfg);
          d1 = (if Blocks d = 0 then UpdateBlocks (BlockNum (inputLen r) (blockSizeCfg cfg)) d else d)
      in UpdateTokens (inputLen r) d1)"

definition set_sinfo :: "(ReqScheduleInfo \<Rightarrow> ReqScheduleInfo) \<Rightarrow> addr \<Rightarrow> RequestManager \<Rightarrow> RequestManager" where
  "set_sinfo f a = upd_req a (\<lambda>r. r\<lparr>scheduleInfo := map_option f (scheduleInfo r)\<rparr>)"

text \<open>Dropping what an earlier pass allocated to the request; nothing when there is no record.\<close>

definition release_both ::
  "addr \<Rightarrow> RequestManager \<times> ResourceManager \<Rightarrow> RequestManager \<times> ResourceManager" where
  "release_both a s = try_release DECODE a (try_release PREFILL a s)"

fun prefill_loop :: "sort_fn \<Rightarrow> fw_cfg \<Rightarrow> u64 \<Rightarrow> addr list \<Rightarrow> pass \<Rightarrow> pass" where
  "prefill_loop srt fc now [] s = s\<lparr>ps_sched := []\<rparr>"
| "prefill_loop srt fc now (a # reqs) s =
     (if state (reqHeap (ps_rq s) a) \<noteq> SCHEDULING then prefill_loop srt fc now reqs s
      else
        let (q1, rm1) = release_both a (ps_rq s, ps_rm s);
            dem = GenerateDemand (digsCfg fc) (reqHeap q1 a);
            q2 = upd_req a (InitScheduleInfo now dem) q1
        in case SelectPrefillInst srt (selectPolicy fc) dem (ps_pool s) rm1 of
             (Some (prefill, groupId), sp, rm2) \<Rightarrow>
               prefill_loop srt fc now reqs
                 (s\<lparr>ps_rq := set_sinfo (\<lambda>si. si\<lparr>prefillInst := prefill, rs_groupId := groupId\<rparr>) a q2,
                    ps_rm := rm2, ps_pool := sp, ps_alloc := ps_alloc s @ [a]\<rparr>)
           | (None, sp, rm2) \<Rightarrow>
               s\<lparr>ps_rq := q2, ps_rm := rm2, ps_pool := sp, ps_sched := a # reqs\<rparr>)"

definition SchedulePrefill :: "sort_fn \<Rightarrow> fw_cfg \<Rightarrow> u64 \<Rightarrow> pass \<Rightarrow> pass" where
  "SchedulePrefill srt fc now s = prefill_loop srt fc now (ps_sched s) s"

text \<open>
  The decode loop walks \<^verbatim>\<open>allocatedReqs\<close> and erases the requests it cannot place; \<open>done\<close> are
  the entries kept so far. Every request in it got its allocation record in \<^const>\<open>SchedulePrefill\<close>;
  without one the source would dereference null, \<^const>\<open>None\<close> here.
\<close>

fun decode_loop :: "sort_fn \<Rightarrow> fw_cfg \<Rightarrow> u64 \<Rightarrow> addr list \<Rightarrow> addr list \<Rightarrow> pass \<Rightarrow> pass option" where
  "decode_loop srt fc now done [] s = Some (s\<lparr>ps_alloc := done\<rparr>)"
| "decode_loop srt fc now done (a # reqs) s =
     (case scheduleInfo (reqHeap (ps_rq s) a) of
        None \<Rightarrow> None
      | Some si \<Rightarrow>
          (case (if prefillInst si = ILLEGAL_INSTANCE_ID
                 then (Some ILLEGAL_INSTANCE_ID, ps_pool s, ps_rm s)
                 else SelectDecodeInst srt (selectPolicy fc) (digsCfg fc) (demand si)
                        (prefillInst si) (rs_groupId si) (ps_pool s) (ps_rm s)) of
             (Some decode, sp, rm1) \<Rightarrow>
               decode_loop srt fc now (done @ [a]) reqs
                 (s\<lparr>ps_rq := upd_req a (snd \<circ> UpdateState2Allocated now)
                              (set_sinfo (\<lambda>si. si\<lparr>decodeInst := decode\<rparr>) a (ps_rq s)),
                    ps_rm := rm1, ps_pool := sp\<rparr>)
           | (None, sp, rm1) \<Rightarrow>
               (case try_release PREFILL a (ps_rq s, rm1) of (q1, rm2) \<Rightarrow>
                  decode_loop srt fc now done reqs
                    (s\<lparr>ps_rq := q1, ps_rm := rm2, ps_pool := sp, ps_sched := ps_sched s @ [a]\<rparr>))))"

definition ScheduleDecode :: "sort_fn \<Rightarrow> fw_cfg \<Rightarrow> u64 \<Rightarrow> pass \<Rightarrow> pass option" where
  "ScheduleDecode srt fc now s = decode_loop srt fc now [] (ps_alloc s) s"

definition offload :: "pass \<Rightarrow> pass" where
  "offload s = s\<lparr>ps_pool := OffloadResourceView (ps_pool s)\<rparr>"

definition load :: "DIGSReqStage \<Rightarrow> pass \<Rightarrow> pass" where
  "load stage s = s\<lparr>ps_pool := LoadResourceView (ps_rm s) stage (ps_pool s)\<rparr>"

definition Scheduling :: "sort_fn \<Rightarrow> fw_cfg \<Rightarrow> u64 \<Rightarrow> pass \<Rightarrow> pass option" where
  "Scheduling srt fc now s =
     (let s1 = s\<lparr>ps_sched := Reordering (reorderingPolicy fc) (ps_rq s) (ps_sched s)\<rparr>;
          s2 = s1\<lparr>ps_rm := ScheduleInst (ps_rm s1)\<rparr>;
          s3 = offload (SchedulePrefill srt fc now (load PREFILL s2));
          s4 = s3\<lparr>ps_rm := ScheduleInst (ps_rm s3)\<rparr>
      in map_option offload (ScheduleDecode srt fc now (load DECODE s4)))"

end
