(* ===== verification/Accounting.thy ===== *)
theory Accounting
  imports Schedule_Framework
begin

text \<open>
  Who holds what. The scheduler charges an instance when it places a request
  (\<^const>\<open>SelectPrefillInst\<close>, \<^const>\<open>SelectDecodeInst\<close>) and gives the demand back when the
  request ends, is rescheduled or cannot be placed (\<^const>\<open>try_release\<close>). The books balance when
  the demand recorded at an instance is the sum of the demands of the requests that hold an
  unreleased allocation on it.
\<close>

subsection \<open>Holdings\<close>

definition stage_released :: "DIGSReqStage \<Rightarrow> ReqScheduleInfo \<Rightarrow> bool" where
  "stage_released stage si = (case stage of PREFILL \<Rightarrow> prefillReleased si | DECODE \<Rightarrow> decodeReleased si)"

definition stage_demands :: "DIGSReqStage \<Rightarrow> ResScheduleInfo \<Rightarrow> MetaResource" where
  "stage_demands stage s = (case stage of PREFILL \<Rightarrow> prefillDemands s | DECODE \<Rightarrow> decodeDemands s)"

definition holds :: "DIGSReqStage \<Rightarrow> u64 \<Rightarrow> DIGSRequest \<Rightarrow> bool" where
  "holds stage i r = (i \<noteq> ILLEGAL_INSTANCE_ID \<and> (case scheduleInfo r of None \<Rightarrow> False
     | Some si \<Rightarrow> stage_inst stage si = i \<and> \<not> stage_released stage si))"

definition holding :: "digs_cfg \<Rightarrow> DIGSReqStage \<Rightarrow> u64 \<Rightarrow> nat \<Rightarrow> DIGSRequest \<Rightarrow> nat" where
  "holding cfg stage i k r =
     (if holds stage i r then unat (attributes (GenerateDemand cfg r) ! k) else 0)"

definition held :: "digs_cfg \<Rightarrow> RequestManager \<Rightarrow> DIGSReqStage \<Rightarrow> u64 \<Rightarrow> nat \<Rightarrow> nat" where
  "held cfg q stage i k = (\<Sum>a<nextReq q. holding cfg stage i k (reqHeap q a))"

abbreviation dims :: "digs_cfg \<Rightarrow> nat" where
  "dims cfg \<equiv> length (defaultAttr (metaCfg cfg))"

text \<open>The demands of all requests together stay below \<open>2 ^ 64\<close>.\<close>

definition fits :: "digs_cfg \<Rightarrow> RequestManager \<Rightarrow> bool" where
  "fits cfg q \<longleftrightarrow> (\<forall>k<dims cfg.
     (\<Sum>a<nextReq q. unat (attributes (GenerateDemand cfg (reqHeap q a)) ! k)) < 2 ^ 64)"

definition rq_ok :: "digs_cfg \<Rightarrow> RequestManager \<Rightarrow> bool" where
  "rq_ok cfg q \<longleftrightarrow> (\<forall>a si. scheduleInfo (reqHeap q a) = Some si \<longrightarrow>
     a < nextReq q \<and> attributes (demand si) = attributes (GenerateDemand cfg (reqHeap q a)))"

definition inst_ok :: "digs_cfg \<Rightarrow> u64 \<Rightarrow> ResourceInfo \<Rightarrow> bool" where
  "inst_ok cfg i res \<longleftrightarrow> i \<noteq> ILLEGAL_INSTANCE_ID \<and> st_id (ri_static res) = i \<and> resId (ri_sched res) = i
     \<and> (\<forall>stage. length (attributes (stage_demands stage (ri_sched res))) = dims cfg)"

definition rm_ok :: "digs_cfg \<Rightarrow> ResourceManager \<Rightarrow> bool" where
  "rm_ok cfg rm \<longleftrightarrow> omap_ok (resourceMap rm) \<and>
     (\<forall>i a l. map_of (resourceMap rm) i = Some (a, l) \<longrightarrow> a < nextRes rm \<and> inst_ok cfg i (resHeap rm a))"

text \<open>
  \<open>C\<close> is the set of the instances that were closed or removed at some time: a release that
  arrives while an instance is closed is lost (\<^const>\<open>UpdateScheduleInfo\<close> does not find it).
\<close>

definition books_at :: "digs_cfg \<Rightarrow> RequestManager \<Rightarrow> ResourceManager \<Rightarrow> u64 \<Rightarrow> bool" where
  "books_at cfg q rm i = (case map_of (resourceMap rm) i of
       None \<Rightarrow> \<forall>stage a. \<not> holds stage i (reqHeap q a)
     | Some (a, _) \<Rightarrow> \<forall>stage. \<forall>k<dims cfg.
         unat (attributes (stage_demands stage (sched_of rm a)) ! k) = held cfg q stage i k)"

definition books :: "digs_cfg \<Rightarrow> u64 set \<Rightarrow> RequestManager \<Rightarrow> ResourceManager \<Rightarrow> bool" where
  "books cfg C q rm \<longleftrightarrow> rq_ok cfg q \<and> rm_ok cfg rm \<and> fits cfg q \<and> (\<forall>i. i \<notin> C \<longrightarrow> books_at cfg q rm i)"

subsection \<open>Demand vectors\<close>

lemma length_GenerateDemand [simp]: "length (attributes (GenerateDemand cfg r)) = dims cfg"
  by (simp add: GenerateDemand_def MetaResource_default_def MetaResource_of_def UpdateBlocks_def
      UpdateTokens_def Let_def)

lemma GenerateDemand_cong: "inputLen r = inputLen r' \<Longrightarrow> GenerateDemand cfg r = GenerateDemand cfg r'"
  unfolding GenerateDemand_def by (simp only:)

lemma unat_sub_le: "(y :: u64) \<le> x \<Longrightarrow> unat (x - y) = unat x - unat y"
  by (rule unat_sub)

lemma stage_demands_Add:
  "length (attributes (stage_demands stage s)) = length (attributes d) \<Longrightarrow>
   attributes (stage_demands st (AddDemand d stage s)) =
     (if st = stage then map2 (+) (attributes (stage_demands stage s)) (attributes d)
      else attributes (stage_demands st s))"
  by (cases st; cases stage) (simp_all add: stage_demands_def IncResource_def)

lemma stage_demands_Remove:
  "attributes (stage_demands st (RemoveDemand d stage s)) =
     (if st = stage \<and> CompareTo (stage_demands stage s) d
      then map2 (-) (attributes (stage_demands stage s)) (attributes d)
      else attributes (stage_demands st s))"
  by (cases st; cases stage) (simp_all add: stage_demands_def DecResource_def)

lemma demand_ops_frame [simp]:
  "resId (AddDemand d stage s) = resId s" "resId (RemoveDemand d stage s) = resId s"
  "isInstanceClosed (AddDemand d stage s) = isInstanceClosed s"
  "isInstanceClosed (RemoveDemand d stage s) = isInstanceClosed s"
  by (cases stage; simp)+

declare AddDemand.simps [simp del] RemoveDemand.simps [simp del]

lemma inst_ok_Add:
  "inst_ok cfg i res \<Longrightarrow> length (attributes d) = dims cfg \<Longrightarrow> inst_ok cfg i (RI_AddDemand d stage res)"
  by (simp add: inst_ok_def RI_AddDemand_def stage_demands_Add)

lemma CompareTo_length: "CompareTo r d \<Longrightarrow> length (attributes r) = length (attributes d)"
  by (simp add: CompareTo_def split: if_splits)

lemma inst_ok_Remove:
  "inst_ok cfg i res \<Longrightarrow> inst_ok cfg i (res\<lparr>ri_sched := RemoveDemand d stage (ri_sched res)\<rparr>)"
  by (auto simp: inst_ok_def stage_demands_Remove dest: CompareTo_length)

subsection \<open>Sums\<close>

lemma held_upd:
  assumes "a < nextReq q"
  shows "held cfg (q\<lparr>reqHeap := (reqHeap q)(a := r)\<rparr>) st i k + holding cfg st i k (reqHeap q a)
    = held cfg q st i k + holding cfg st i k r"
proof -
  let ?q = "q\<lparr>reqHeap := (reqHeap q)(a := r)\<rparr>" and ?A = "{..<nextReq q} - {a}"
  have "held cfg p st i k = holding cfg st i k (reqHeap p a) + (\<Sum>b \<in> ?A. holding cfg st i k (reqHeap p b))"
    if "nextReq p = nextReq q" for p
    using assms that by (simp add: held_def sum.remove [of "{..<nextReq q}" a])
  from this [of q] this [of ?q] show ?thesis by simp
qed

lemma holding_le_held: "a < nextReq q \<Longrightarrow> holding cfg st i k (reqHeap q a) \<le> held cfg q st i k"
  unfolding held_def by (rule member_le_sum) auto

lemma held_room:
  assumes "fits cfg q" "k < dims cfg" "a < nextReq q" "\<not> holds st i (reqHeap q a)"
  shows "held cfg q st i k + unat (attributes (GenerateDemand cfg (reqHeap q a)) ! k) < 2 ^ 64"
proof -
  let ?g = "\<lambda>b. unat (attributes (GenerateDemand cfg (reqHeap q b)) ! k)"
  have "held cfg q st i k + ?g a = (\<Sum>b \<in> {..<nextReq q} - {a}. holding cfg st i k (reqHeap q b)) + ?g a"
    using assms(3,4) by (simp add: held_def sum.remove [of "{..<nextReq q}" a] holding_def)
  also have "\<dots> \<le> (\<Sum>b \<in> {..<nextReq q} - {a}. ?g b) + ?g a"
    by (intro add_right_mono sum_mono) (simp add: holding_def)
  also have "\<dots> = (\<Sum>b<nextReq q. ?g b)"
    using assms(3) by (simp add: sum.remove [of "{..<nextReq q}" a])
  finally show ?thesis using assms(1,2) by (fastforce simp: fits_def)
qed

subsection \<open>Changing one request and one instance\<close>

lemma fits_upd: "inputLen r = inputLen (reqHeap q a) \<Longrightarrow> fits cfg q \<Longrightarrow>
    fits cfg (q\<lparr>reqHeap := (reqHeap q)(a := r)\<rparr>)"
proof -
  assume r: "inputLen r = inputLen (reqHeap q a)"
  have "GenerateDemand cfg (((reqHeap q)(a := r)) b) = GenerateDemand cfg (reqHeap q b)" for b
    using r by (intro GenerateDemand_cong) simp
  then show "fits cfg q \<Longrightarrow> ?thesis" unfolding fits_def by simp
qed

lemma rq_ok_upd:
  "rq_ok cfg q \<Longrightarrow> a < nextReq q \<Longrightarrow>
    (\<And>si. scheduleInfo r = Some si \<Longrightarrow> attributes (demand si) = attributes (GenerateDemand cfg r)) \<Longrightarrow>
    rq_ok cfg (q\<lparr>reqHeap := (reqHeap q)(a := r)\<rparr>)"
  by (auto simp: rq_ok_def)

lemma books_upd:
  assumes b: "books cfg C q rm" and a: "a < nextReq q" and len: "inputLen r = inputLen (reqHeap q a)"
    and dem: "\<And>si. scheduleInfo r = Some si \<Longrightarrow> attributes (demand si) = attributes (GenerateDemand cfg r)"
    and rm: "rm_ok cfg rm'" "resourceMap rm' = resourceMap rm"
    and none: "\<And>i st. i \<notin> C \<Longrightarrow> map_of (resourceMap rm) i = None \<Longrightarrow> \<not> holds st i r"
    and some: "\<And>i b l st k. i \<notin> C \<Longrightarrow> map_of (resourceMap rm) i = Some (b, l) \<Longrightarrow> k < dims cfg \<Longrightarrow>
        unat (attributes (stage_demands st (sched_of rm' b)) ! k) + holding cfg st i k (reqHeap q a) =
        unat (attributes (stage_demands st (sched_of rm b)) ! k) + holding cfg st i k r"
  shows "books cfg C (q\<lparr>reqHeap := (reqHeap q)(a := r)\<rparr>) rm'"
proof -
  let ?q = "q\<lparr>reqHeap := (reqHeap q)(a := r)\<rparr>"
  have "books_at cfg ?q rm' i" if i: "i \<notin> C" for i
  proof -
    from b i have at: "books_at cfg q rm i" by (simp add: books_def)
    show ?thesis
    proof (cases "map_of (resourceMap rm) i")
      case None
      with at none [OF i] show ?thesis by (simp add: books_at_def rm(2))
    next
      case (Some bl)
      obtain b l where bl: "bl = (b, l)" by force
      have "unat (attributes (stage_demands st (sched_of rm' b)) ! k) = held cfg ?q st i k"
        if k: "k < dims cfg" for st k
      proof -
        have "unat (attributes (stage_demands st (sched_of rm b)) ! k) = held cfg q st i k"
          using at Some bl k by (simp add: books_at_def)
        with some [OF i Some [unfolded bl] k, of st] held_upd [OF a, of cfg r st i k]
        show ?thesis by linarith
      qed
      with Some bl show ?thesis by (simp add: books_at_def rm(2))
    qed
  qed
  moreover have "rq_ok cfg ?q" using b a dem by (intro rq_ok_upd) (auto simp: books_def)
  moreover have "fits cfg ?q" using b len by (intro fits_upd) (auto simp: books_def)
  ultimately show ?thesis using rm(1) by (simp add: books_def)
qed

text \<open>Two different registered instances have different addresses.\<close>

lemma rm_ok_inj:
  "rm_ok cfg rm \<Longrightarrow> map_of (resourceMap rm) i = Some (b, l) \<Longrightarrow> map_of (resourceMap rm) j = Some (b, l') \<Longrightarrow> i = j"
  unfolding rm_ok_def inst_ok_def by metis

lemma rm_ok_inst: "rm_ok cfg rm \<Longrightarrow> map_of (resourceMap rm) i = Some (b, l) \<Longrightarrow> inst_ok cfg i (resHeap rm b)"
  by (simp add: rm_ok_def)

lemma rm_ok_len:
  "rm_ok cfg rm \<Longrightarrow> map_of (resourceMap rm) i = Some (b, l) \<Longrightarrow>
     length (attributes (stage_demands stage (sched_of rm b))) = dims cfg"
  by (drule (1) rm_ok_inst) (simp add: inst_ok_def)

lemma rm_ok_upd_res:
  assumes "rm_ok cfg rm" "\<And>i l. map_of (resourceMap rm) i = Some (b, l) \<Longrightarrow> inst_ok cfg i (f (resHeap rm b))"
  shows "rm_ok cfg (upd_res b f rm)"
  using assms by (auto simp: rm_ok_def upd_res_def)

lemma upd_res_frame [simp]:
  "resView (upd_res a f rm) = resView rm" "resourceMap (upd_res a f rm) = resourceMap rm"
  "nextRes (upd_res a f rm) = nextRes rm"
  by (simp_all add: upd_res_def)

subsection \<open>Charging\<close>

lemma books_charge:
  assumes b: "books cfg C q rm" and a: "a < nextReq q" and len: "inputLen r = inputLen (reqHeap q a)"
    and dem: "\<And>si. scheduleInfo r = Some si \<Longrightarrow> attributes (demand si) = attributes (GenerateDemand cfg r)"
    and inst: "map_of (resourceMap rm) p = Some (b0, l0)"
    and d: "attributes d = attributes (GenerateDemand cfg r)"
    and free: "\<not> holds stage p (reqHeap q a)"
    and hold: "\<And>st i. holds st i r \<longleftrightarrow> holds st i (reqHeap q a) \<or> (st = stage \<and> i = p)"
  shows "books cfg C (q\<lparr>reqHeap := (reqHeap q)(a := r)\<rparr>) (upd_res b0 (RI_AddDemand d stage) rm)"
proof (rule books_upd [OF b a len dem])
  from b have rm: "rm_ok cfg rm" by (simp add: books_def)
  have gen: "GenerateDemand cfg r = GenerateDemand cfg (reqHeap q a)" by (rule GenerateDemand_cong) (rule len)
  have ld: "length (attributes d) = dims cfg" by (simp add: d)
  show "rm_ok cfg (upd_res b0 (RI_AddDemand d stage) rm)"
    using rm ld by (intro rm_ok_upd_res) (auto simp: rm_ok_def intro: inst_ok_Add)
  show "resourceMap (upd_res b0 (RI_AddDemand d stage) rm) = resourceMap rm" by simp
  show "\<not> holds st i r" if "i \<notin> C" "map_of (resourceMap rm) i = None" for i st
    using b that inst by (auto simp: books_def books_at_def hold dest!: spec [of _ i])
  fix i b l st k
  assume i: "i \<notin> C" "map_of (resourceMap rm) i = Some (b, l)" and k: "k < dims cfg"
  show "unat (attributes (stage_demands st (sched_of (upd_res b0 (RI_AddDemand d stage) rm) b)) ! k)
      + holding cfg st i k (reqHeap q a)
    = unat (attributes (stage_demands st (sched_of rm b)) ! k) + holding cfg st i k r"
  proof (cases "i = p \<and> st = stage")
    case True
    with i inst have bb: "b = b0" by simp
    have l: "length (attributes (stage_demands stage (sched_of rm b0))) = dims cfg"
      by (rule rm_ok_len [OF rm inst])
    have "unat (attributes (stage_demands st (sched_of rm b)) ! k) = held cfg q st i k"
      using \<open>books cfg C q rm\<close> i k by (auto simp: books_def books_at_def dest!: spec [of _ i])
    with held_room [OF _ k a, of st i] True free \<open>books cfg C q rm\<close>
    have "unat (attributes (stage_demands stage (sched_of rm b0)) ! k) + unat (attributes d ! k) < 2 ^ 64"
      by (simp add: books_def d gen bb)
    then show ?thesis using True bb l ld k free
      by (simp add: upd_res_def RI_AddDemand_def stage_demands_Add holding_def hold gen d unat_u64_add)
  next
    case False
    then have same: "holding cfg st i k r = holding cfg st i k (reqHeap q a)"
      by (auto simp: holding_def hold gen)
    have "i \<noteq> p \<Longrightarrow> b \<noteq> b0" using rm_ok_inj [OF rm] i(2) inst by blast
    moreover have "length (attributes (stage_demands stage (sched_of rm b0))) = length (attributes d)"
      using rm_ok_len [OF rm inst] ld by simp
    ultimately show ?thesis using False
      by (auto simp: same upd_res_def RI_AddDemand_def stage_demands_Add)
  qed
qed

subsection \<open>Releasing\<close>

text \<open>The view knows the registered instances, and every instance outside \<open>C\<close>.\<close>

definition view_known :: "u64 set \<Rightarrow> ResourceManager \<Rightarrow> bool" where
  "view_known C rm \<longleftrightarrow>
     (\<forall>i a. map_of (scheduleInfos (resView rm)) i = Some a \<longrightarrow> (\<exists>l. map_of (resourceMap rm) i = Some (a, l))) \<and>
     (\<forall>i a l. i \<notin> C \<longrightarrow> map_of (resourceMap rm) i = Some (a, l) \<longrightarrow> map_of (scheduleInfos (resView rm)) i = Some a)"

definition released :: "DIGSReqStage \<Rightarrow> DIGSRequest \<Rightarrow> DIGSRequest" where
  "released stage r = r\<lparr>scheduleInfo := map_option (\<lambda>si. snd (stage_release stage si)) (scheduleInfo r)\<rparr>"

lemma stage_release_simps:
  "fst (stage_release stage si) = (\<not> stage_released stage si)"
  "demand (snd (stage_release stage si)) = demand si"
  "stage_inst st (snd (stage_release stage si)) = stage_inst st si"
  "stage_released st (snd (stage_release stage si)) = (st = stage \<or> stage_released st si)"
  by (cases stage; cases st;
      simp add: stage_release_def PrefillRelease_def DecodeRelease_def stage_released_def stage_inst_def)+

lemma stage_release_again: "stage_released stage si \<Longrightarrow> snd (stage_release stage si) = si"
  by (cases stage) (simp_all add: stage_release_def PrefillRelease_def DecodeRelease_def stage_released_def)

lemma holds_released: "holds st i (released stage r) \<longleftrightarrow> holds st i r \<and> st \<noteq> stage"
  by (cases "scheduleInfo r") (auto simp: holds_def released_def stage_release_simps)

lemma released_frame [simp]:
  "inputLen (released stage r) = inputLen r" "state (released stage r) = state r"
  "reqId (released stage r) = reqId r" "scheduleInfo (released stage r) = None \<longleftrightarrow> scheduleInfo r = None"
  by (simp_all add: released_def)

text \<open>What a release does to the instance: the refund, if the view finds the instance.\<close>

definition refund :: "DIGSReqStage \<Rightarrow> DIGSRequest \<Rightarrow> ResourceManager \<Rightarrow> ResourceManager" where
  "refund stage r rm = (case scheduleInfo r of None \<Rightarrow> rm
     | Some si \<Rightarrow> if stage_released stage si then rm
                  else snd (UpdateScheduleInfo si (prefillCostTime r) stage rm))"

lemma UpdateScheduleInfo_cong:
  "stage_inst stage si = stage_inst stage si' \<Longrightarrow> demand si = demand si' \<Longrightarrow>
     UpdateScheduleInfo si cost stage rm = UpdateScheduleInfo si' cost stage rm"
  by (simp only: UpdateScheduleInfo_def)

lemma try_release_eq:
  "try_release stage a (q, rm) =
     (q\<lparr>reqHeap := (reqHeap q)(a := released stage (reqHeap q a))\<rparr>, refund stage (reqHeap q a) rm)"
proof (cases "scheduleInfo (reqHeap q a)")
  case None
  moreover from None have "released stage (reqHeap q a) = reqHeap q a"
    by (simp add: released_def)
  ultimately show ?thesis by (simp add: try_release_def refund_def)
next
  case (Some si)
  obtain f si1 where si1: "stage_release stage si = (f, si1)" by force
  have "f = (\<not> stage_released stage si)" "stage_inst stage si1 = stage_inst stage si" "demand si1 = demand si"
    using stage_release_simps(1,2) [of stage si] stage_release_simps(3) [of stage stage si] si1 by auto
  with Some si1 UpdateScheduleInfo_cong [of stage si1 si] show ?thesis
    by (simp add: try_release_def refund_def upd_req_def released_def)
qed

lemma refund_frame [simp]:
  "resourceMap (refund stage r rm) = resourceMap rm" "resView (refund stage r rm) = resView rm"
  "nextRes (refund stage r rm) = nextRes rm" "static_of (refund stage r rm) b = static_of rm b"
  by (simp_all add: refund_def UpdateScheduleInfo_def Let_def split: option.split)

lemma sched_refund:
  "sched_of (refund stage r rm) b =
     (case scheduleInfo r of
        Some si \<Rightarrow>
          if \<not> stage_released stage si \<and> stage_inst stage si \<noteq> ILLEGAL_INSTANCE_ID
             \<and> map_of (scheduleInfos (resView rm)) (stage_inst stage si) = Some b
          then (let s = RemoveDemand (demand si) stage (sched_of rm b)
                in if stage = PREFILL then s\<lparr>reqQueueTime := reqQueueTime s - prefillCostTime r\<rparr> else s)
          else sched_of rm b
      | None \<Rightarrow> sched_of rm b)"
  by (auto simp: refund_def UpdateScheduleInfo_def upd_sched_def upd_res_def Let_def split: option.split)

lemma refund_closed [simp]: "isInstanceClosed (sched_of (refund stage r rm) b) = isInstanceClosed (sched_of rm b)"
  by (simp add: sched_refund Let_def split: option.split)

lemma stage_demands_time [simp]:
  "stage_demands st (s\<lparr>reqQueueTime := t\<rparr>) = stage_demands st s" "resId (s\<lparr>reqQueueTime := t\<rparr>) = resId s"
  by (cases st; simp add: stage_demands_def)+

lemma stage_demands_refund:
  "stage_demands st (sched_of (refund stage r rm) b) =
     (case scheduleInfo r of
        Some si \<Rightarrow>
          if holds stage (stage_inst stage si) r
             \<and> map_of (scheduleInfos (resView rm)) (stage_inst stage si) = Some b
          then stage_demands st (RemoveDemand (demand si) stage (sched_of rm b))
          else stage_demands st (sched_of rm b)
      | None \<Rightarrow> stage_demands st (sched_of rm b))"
  by (auto simp: sched_refund holds_def Let_def split: option.split)

lemma rm_ok_refund: "rm_ok cfg rm \<Longrightarrow> rm_ok cfg (refund stage r rm)"
  unfolding rm_ok_def
proof (intro conjI allI impI; (elim conjE)?)
  fix i a l
  assume all: "\<forall>i a l. map_of (resourceMap rm) i = Some (a, l) \<longrightarrow> a < nextRes rm \<and> inst_ok cfg i (resHeap rm a)"
    and m: "map_of (resourceMap (refund stage r rm)) i = Some (a, l)"
  then have a: "a < nextRes rm" "inst_ok cfg i (resHeap rm a)" by auto
  from a show "a < nextRes (refund stage r rm)" by simp
  from inst_ok_Remove [OF a(2)] a(2) show "inst_ok cfg i (resHeap (refund stage r rm) a)"
    by (auto simp: inst_ok_def stage_demands_refund sched_refund Let_def split: option.split)
qed simp

lemma books_release:
  assumes b: "books cfg C q rm" and v: "view_known C rm"
  shows "books cfg C (q\<lparr>reqHeap := (reqHeap q)(a := released stage (reqHeap q a))\<rparr>) (refund stage (reqHeap q a) rm)"
proof (cases "scheduleInfo (reqHeap q a)")
  case None
  then have "released stage (reqHeap q a) = reqHeap q a" by (simp add: released_def)
  with None b show ?thesis by (simp add: refund_def)
next
  case (Some si)
  let ?r = "reqHeap q a"
  from b Some have a: "a < nextReq q" and d: "attributes (demand si) = attributes (GenerateDemand cfg ?r)"
    and rm: "rm_ok cfg rm" by (auto simp: books_def rq_ok_def)
  have gen: "GenerateDemand cfg (released stage ?r) = GenerateDemand cfg ?r"
    by (rule GenerateDemand_cong) simp
  show ?thesis
  proof (rule books_upd [OF b a])
    show "attributes (demand si') = attributes (GenerateDemand cfg (released stage ?r))"
      if "scheduleInfo (released stage ?r) = Some si'" for si'
    proof -
      from that Some have "si' = snd (stage_release stage si)" by (simp add: released_def)
      then show ?thesis by (simp add: gen stage_release_simps d)
    qed
    show "rm_ok cfg (refund stage ?r rm)" by (rule rm_ok_refund [OF rm])
    show "\<not> holds st i (released stage ?r)" if "i \<notin> C" "map_of (resourceMap rm) i = None" for i st
      using b that by (auto simp: books_def books_at_def holds_released dest!: spec [of _ i])
  next
    fix i b l st k
    assume i: "i \<notin> C" "map_of (resourceMap rm) i = Some (b, l)" and k: "k < dims cfg"
    have sch: "map_of (scheduleInfos (resView rm)) i = Some b" using v i by (auto simp: view_known_def)
    show "unat (attributes (stage_demands st (sched_of (refund stage ?r rm) b)) ! k) + holding cfg st i k ?r
      = unat (attributes (stage_demands st (sched_of rm b)) ! k) + holding cfg st i k (released stage ?r)"
    proof (cases "holds stage i ?r")
      case True
      then have inst: "stage_inst stage si = i" using Some by (simp add: holds_def)
      have le: "unat (attributes (demand si) ! k') \<le> unat (attributes (stage_demands stage (sched_of rm b)) ! k')"
        if k': "k' < dims cfg" for k'
      proof -
        have "unat (attributes (stage_demands stage (sched_of rm b)) ! k') = held cfg q stage i k'"
          using \<open>books cfg C q rm\<close> i k' by (auto simp: books_def books_at_def dest!: spec [of _ i])
        with holding_le_held [OF a, of cfg stage i k'] True show ?thesis by (simp add: holding_def d)
      qed
      have len: "length (attributes (stage_demands stage (sched_of rm b))) = dims cfg"
        "length (attributes (demand si)) = dims cfg" using rm_ok_len [OF rm i(2)] by (simp_all add: d)
      then have "CompareTo (stage_demands stage (sched_of rm b)) (demand si)"
        using le by (auto simp: CompareTo_list_all2 list_all2_conv_all_nth word_le_nat_alt)
      then show ?thesis using True Some inst sch len k le [OF k]
        by (auto simp: stage_demands_refund stage_demands_Remove holding_def holds_released gen
            unat_sub_le word_le_nat_alt d)
    next
      case False
      have "stage_demands st (sched_of (refund stage ?r rm) b) = stage_demands st (sched_of rm b)"
      proof (cases "map_of (scheduleInfos (resView rm)) (stage_inst stage si) = Some b")
        case True
        then obtain l' where "map_of (resourceMap rm) (stage_inst stage si) = Some (b, l')"
          using v unfolding view_known_def by blast
        from rm_ok_inj [OF rm this i(2)] False Some show ?thesis
          by (simp add: stage_demands_refund)
      qed (simp add: stage_demands_refund Some)
      with False show ?thesis by (auto simp: holding_def holds_released gen)
    qed
  qed simp_all
qed

subsection \<open>Changes the books do not see\<close>

definition same_books :: "ResourceManager \<Rightarrow> ResourceManager \<Rightarrow> bool" where
  "same_books rm rm' \<longleftrightarrow> resourceMap rm' = resourceMap rm \<and> nextRes rm' = nextRes rm \<and>
     (\<forall>a. static_of rm' a = static_of rm a \<and> resId (sched_of rm' a) = resId (sched_of rm a)
        \<and> isInstanceClosed (sched_of rm' a) = isInstanceClosed (sched_of rm a)
        \<and> (\<forall>st. stage_demands st (sched_of rm' a) = stage_demands st (sched_of rm a)))"

lemma same_books_refl [simp]: "same_books rm rm"
  by (simp add: same_books_def)

lemma same_books_trans: "same_books rm1 rm2 \<Longrightarrow> same_books rm2 rm3 \<Longrightarrow> same_books rm1 rm3"
  by (simp add: same_books_def)

lemma books_same: "same_books rm rm' \<Longrightarrow> books cfg C q rm \<Longrightarrow> books cfg C q rm'"
  by (simp add: same_books_def books_def rm_ok_def inst_ok_def books_at_def cong: option.case_cong)

lemma same_books_upd_sched:
  assumes "\<And>s. resId (f s) = resId s" "\<And>s. isInstanceClosed (f s) = isInstanceClosed s"
    "\<And>s st. stage_demands st (f s) = stage_demands st s"
  shows "same_books rm (upd_sched a f rm)"
  using assms by (simp add: same_books_def upd_sched_def upd_res_def)

lemma stage_demands_UpdateDuty [simp]: "stage_demands st (snd (UpdateDuty d s)) = stage_demands st s"
  by (cases st) (simp_all add: stage_demands_def)

lemma stage_demands_CheckOverload [simp]: "stage_demands st (CheckOverload s) = stage_demands st s"
  by (cases st) (simp_all add: stage_demands_def)

lemma same_books_view: "resHeap rm' = resHeap rm \<Longrightarrow> resourceMap rm' = resourceMap rm \<Longrightarrow>
    nextRes rm' = nextRes rm \<Longrightarrow> same_books rm0 rm \<Longrightarrow> same_books rm0 rm'"
  by (simp add: same_books_def)

lemma same_books_pool_move: "same_books rm0 rm1 \<Longrightarrow> same_books rm0 (pool_move rm ri rm1)"
proof -
  assume rm: "same_books rm0 rm1"
  have "same_books rm0 (upd_sched (fst ri) (snd \<circ> UpdateDuty d) rm1)" for d
    by (rule same_books_trans [OF rm]) (rule same_books_upd_sched; simp)
  with rm show ?thesis
    by (auto simp: pool_move_def intro: same_books_view split: DIGSInstanceLabel.split)
qed

lemma same_books_loop: "same_books rm0 rm \<Longrightarrow> same_books rm0 (schedule_inst_loop off rm)"
proof (induction off rm rule: schedule_inst_loop.induct)
  case (1 off rm)
  let ?gp = "globalPool (resView rm)"
  have rem: "same_books rm0 (remove_at off rm)"
    using "1.prems" by (auto simp: remove_at_def intro: same_books_view)
  show ?case
  proof (cases "off < length ?gp \<and> \<not> flex_label rm (?gp ! off)")
    case True
    then have "same_books rm0 (schedule_inst_loop (nat (int off)) (pool_move rm (?gp ! off) (remove_at off rm)))"
      by (intro "1.IH"(2) [OF refl]) (auto simp: flex_label_def GlobalPoolRemoveAndNext_in same_books_pool_move rem)
    with True show ?thesis by (subst schedule_inst_loop_step) simp
  next
    case False
    with 1 show ?thesis by (subst schedule_inst_loop_step) (auto simp: flex_label_def)
  qed
qed

lemma same_books_ScheduleInst: "same_books rm (ScheduleInst rm)"
  by (simp add: ScheduleInst_def same_books_loop)

end
