(* ===== verification/Scheduling_Pass.thy ===== *)
theory Scheduling_Pass
  imports Accounting
begin

text \<open>
  One scheduling pass keeps the books, never touches a null allocation record, neither loses nor
  duplicates a request, and places each request it allocates on a prefill and a decode instance of
  one group that are connected.
\<close>

subsection \<open>Pools\<close>

definition in_map :: "ResourceManager \<Rightarrow> ResInfo \<Rightarrow> bool" where
  "in_map rm ri \<longleftrightarrow> (\<exists>l. map_of (resourceMap rm) (st_id (static_of rm (fst ri))) = Some (fst ri, l))"

definition groups_in :: "ResourceManager \<Rightarrow> (u64, ResView) omap \<Rightarrow> bool" where
  "groups_in rm pool \<longleftrightarrow> (\<forall>g grp ri. map_of pool g = Some grp \<longrightarrow> ri \<in> set grp \<longrightarrow>
     in_map rm ri \<and> st_groupId (static_of rm (fst ri)) = g)"

definition pools_in :: "ResourceManager \<Rightarrow> SelectPool \<Rightarrow> bool" where
  "pools_in rm sp \<longleftrightarrow> (\<forall>ri \<in> set (sp_prefill sp). in_map rm ri) \<and> groups_in rm (sp_decode sp)"

definition view_in :: "ResourceManager \<Rightarrow> bool" where
  "view_in rm \<longleftrightarrow> (\<forall>ri \<in> set (prefillPool (resView rm)) \<union> set (globalPool (resView rm)). in_map rm ri)
     \<and> groups_in rm (decodePool (resView rm))"

text \<open>What decides these predicates: the instance map, the static data and the view.\<close>

definition same_view :: "ResourceManager \<Rightarrow> ResourceManager \<Rightarrow> bool" where
  "same_view rm rm' \<longleftrightarrow> resourceMap rm' = resourceMap rm \<and> resView rm' = resView rm
     \<and> (\<forall>a. static_of rm' a = static_of rm a \<and> isInstanceClosed (sched_of rm' a) = isInstanceClosed (sched_of rm a))"

lemma same_view_refl [simp]: "same_view rm rm"
  by (simp add: same_view_def)

lemma same_view_trans: "same_view rm1 rm2 \<Longrightarrow> same_view rm2 rm3 \<Longrightarrow> same_view rm1 rm3"
  by (simp add: same_view_def)

lemma same_view_refund [simp]: "same_view rm (refund stage r rm)"
  by (simp add: same_view_def)

lemma same_view_charge [simp]: "same_view rm (upd_res b (RI_AddDemand d stage) rm)"
  by (simp add: same_view_def upd_res_def RI_AddDemand_def)

lemma same_view_transfer:
  assumes "same_view rm rm'"
  shows "in_map rm' ri = in_map rm ri" "groups_in rm' pool = groups_in rm pool"
    "pools_in rm' sp = pools_in rm sp" "view_in rm' = view_in rm" "view_known C rm' = view_known C rm"
  using assms by (simp_all add: same_view_def in_map_def groups_in_def pools_in_def view_in_def view_known_def)

lemma groups_in_add:
  "groups_in rm pool \<Longrightarrow> in_map rm ri \<Longrightarrow> groups_in rm (Add2GroupedPool pool (st_groupId (static_of rm (fst ri))) ri)"
  by (cases "map_of pool (st_groupId (static_of rm (fst ri)))")
     (auto simp: groups_in_def Add2GroupedPool_def omap_simps omap_get_def split: if_splits)

lemma groups_in_fold:
  "groups_in rm pool \<Longrightarrow> (\<And>ri. ri \<in> set ris \<Longrightarrow> in_map rm ri) \<Longrightarrow> groups_in rm (add_grouped rm ris pool)"
  unfolding add_grouped_def by (induction ris arbitrary: pool) (auto simp: groups_in_add)

lemma groups_in_put:
  "groups_in rm pool \<Longrightarrow> (\<And>ri. ri \<in> set grp \<Longrightarrow> in_map rm ri \<and> st_groupId (static_of rm (fst ri)) = g) \<Longrightarrow>
     groups_in rm (omap_put g grp pool)"
  by (auto simp: groups_in_def omap_simps split: if_splits)

lemma groups_in_merge:
  "groups_in rm pool \<Longrightarrow> (\<And>g grp. (g, grp) \<in> set ps \<Longrightarrow> groups_in rm [(g, grp)]) \<Longrightarrow>
     groups_in rm (fold (\<lambda>(g, v). omap_insert g v) ps pool)"
proof (induction ps arbitrary: pool)
  case (Cons gv ps)
  obtain g v where gv: "gv = (g, v)" by force
  have "groups_in rm [(g, v)]" using Cons.prems(2) gv by simp
  then have "groups_in rm (omap_insert g v pool)"
    using Cons.prems(1) by (auto simp: groups_in_def omap_simps split: if_splits)
  with Cons gv show ?case by simp
qed simp

lemma groups_in_entry:
  "groups_in rm pool \<Longrightarrow> omap_ok pool \<Longrightarrow> (g, grp) \<in> set pool \<Longrightarrow> groups_in rm [(g, grp)]"
  by (auto simp: groups_in_def omap_in_set split: if_splits)

lemma pools_in_load:
  assumes "pools_in rm sp" "view_in rm" "omap_ok (decodePool (resView rm))"
  shows "pools_in rm (LoadResourceView rm stage sp)"
proof (cases stage)
  case PREFILL
  with assms show ?thesis by (auto simp: pools_in_def view_in_def)
next
  case DECODE
  let ?m = "fold (\<lambda>(g, v). omap_insert g v) (decodePool (resView rm)) (sp_decode sp)"
  have "groups_in rm ?m"
    using assms by (intro groups_in_merge) (auto simp: pools_in_def view_in_def intro: groups_in_entry)
  then have "groups_in rm (add_grouped rm (globalPool (resView rm)) ?m)"
    using assms(2) by (intro groups_in_fold) (auto simp: view_in_def)
  with assms(1) DECODE show ?thesis by (simp add: pools_in_def add_grouped_def)
qed

lemma pools_in_offload [simp]: "pools_in rm (OffloadResourceView sp)"
  by (simp add: OffloadResourceView_def pools_in_def groups_in_def)

lemma omap_ok_grouped: "omap_ok pool \<Longrightarrow> omap_ok (add_grouped rm ris pool)"
  unfolding add_grouped_def Add2GroupedPool_def by (induction ris arbitrary: pool) auto

lemma same_static_in:
  assumes "resourceMap rm' = resourceMap rm" "\<And>a. static_of rm' a = static_of rm a"
  shows "in_map rm' = in_map rm" "groups_in rm' = groups_in rm"
  using assms by (simp_all add: fun_eq_iff in_map_def groups_in_def)

lemma ScheduleInst_in:
  assumes "view_in rm" "view_known C rm" "omap_ok (decodePool (resView rm))"
  shows "view_in (ScheduleInst rm)" "view_known C (ScheduleInst rm)"
    "omap_ok (decodePool (resView (ScheduleInst rm)))" "in_map (ScheduleInst rm) = in_map rm"
    "pools_in (ScheduleInst rm) = pools_in rm"
proof -
  have same: "resourceMap (ScheduleInst rm) = resourceMap rm" "\<And>a. static_of (ScheduleInst rm) a = static_of rm a"
    using same_books_ScheduleInst [of rm] by (auto simp: same_books_def)
  note eq = same_static_in [OF same]
  have "groups_in rm (add_grouped rm (filter (decode_label rm) (globalPool (resView rm))) (decodePool (resView rm)))"
    using assms(1) by (intro groups_in_fold) (auto simp: view_in_def)
  then show "view_in (ScheduleInst rm)"
    using assms(1) by (auto simp: view_in_def eq ScheduleInst_view split_view_def)
  show "view_known C (ScheduleInst rm)"
    using assms(2) by (simp add: view_known_def ScheduleInst_view split_view_def same)
  show "omap_ok (decodePool (resView (ScheduleInst rm)))"
    using assms(3) by (simp add: ScheduleInst_view split_view_def omap_ok_grouped)
  show "in_map (ScheduleInst rm) = in_map rm" "pools_in (ScheduleInst rm) = pools_in rm"
    by (simp_all add: eq pools_in_def fun_eq_iff)
qed

subsection \<open>Steps on one request\<close>

lemma release_both_eq:
  "release_both a (q, rm) =
     (q\<lparr>reqHeap := (reqHeap q)(a := released DECODE (released PREFILL (reqHeap q a)))\<rparr>,
      refund DECODE (released PREFILL (reqHeap q a)) (refund PREFILL (reqHeap q a) rm))"
  by (simp add: release_both_def try_release_eq)

lemma books_release_both:
  assumes "books cfg C q rm" "view_known C rm" "release_both a (q, rm) = (q1, rm1)"
  shows "books cfg C q1 rm1" "same_view rm rm1" "nextReq q1 = nextReq q"
    "\<And>b. b \<noteq> a \<Longrightarrow> reqHeap q1 b = reqHeap q b" "inputLen (reqHeap q1 a) = inputLen (reqHeap q a)"
    "state (reqHeap q1 a) = state (reqHeap q a)" "\<And>st i. \<not> holds st i (reqHeap q1 a)"
proof -
  let ?r1 = "released PREFILL (reqHeap q a)" and ?rm1 = "refund PREFILL (reqHeap q a) rm"
  have b1: "books cfg C (q\<lparr>reqHeap := (reqHeap q)(a := ?r1)\<rparr>) ?rm1"
    by (rule books_release [OF assms(1,2)])
  have "view_known C ?rm1" using assms(2) by (simp add: same_view_transfer [OF same_view_refund])
  from books_release [OF b1 this, of a DECODE] assms(3) show "books cfg C q1 rm1"
    by (auto simp: release_both_eq)
  show "same_view rm rm1"
    using assms(3) same_view_trans [OF same_view_refund same_view_refund] by (auto simp: release_both_eq)
  show "\<And>st i. \<not> holds st i (reqHeap q1 a)"
  proof -
    fix st i show "\<not> holds st i (reqHeap q1 a)"
      using assms(3) by (cases st) (auto simp: release_both_eq holds_released)
  qed
qed (use assms(3) in \<open>auto simp: release_both_eq\<close>)

lemma holds_InitScheduleInfo: "\<not> holds st i (InitScheduleInfo now d r)"
  by (cases st) (simp_all add: holds_def InitScheduleInfo_def new_ReqScheduleInfo_def stage_inst_def)

lemma InitScheduleInfo_frame [simp]:
  "inputLen (InitScheduleInfo now d r) = inputLen r" "state (InitScheduleInfo now d r) = state r"
  by (simp_all add: InitScheduleInfo_def)

lemma books_no_hold:
  assumes b: "books cfg C q rm" and a: "a < nextReq q" and len: "inputLen r = inputLen (reqHeap q a)"
    and dem: "\<And>si. scheduleInfo r = Some si \<Longrightarrow> attributes (demand si) = attributes (GenerateDemand cfg r)"
    and h: "\<And>st i. holds st i r = holds st i (reqHeap q a)"
  shows "books cfg C (q\<lparr>reqHeap := (reqHeap q)(a := r)\<rparr>) rm"
proof (rule books_upd [OF b a len dem])
  show "rm_ok cfg rm" using b by (simp add: books_def)
  show "\<not> holds st i r" if "i \<notin> C" "map_of (resourceMap rm) i = None" for i st
    using b that by (auto simp: books_def books_at_def h dest!: spec [of _ i])
  have "GenerateDemand cfg r = GenerateDemand cfg (reqHeap q a)" by (rule GenerateDemand_cong) (rule len)
  then show "unat (attributes (stage_demands st (sched_of rm b)) ! k) + holding cfg st i k (reqHeap q a)
      = unat (attributes (stage_demands st (sched_of rm b)) ! k) + holding cfg st i k r" for i b l st k
    by (simp add: holding_def h)
qed simp_all

lemma books_init:
  assumes "books cfg C q rm" "a < nextReq q" "\<And>st i. \<not> holds st i (reqHeap q a)"
  shows "books cfg C (upd_req a (InitScheduleInfo now (GenerateDemand cfg (reqHeap q a))) q) rm"
  unfolding upd_req_def
proof (rule books_no_hold [OF assms(1,2)])
  let ?r = "InitScheduleInfo now (GenerateDemand cfg (reqHeap q a)) (reqHeap q a)"
  have "GenerateDemand cfg ?r = GenerateDemand cfg (reqHeap q a)" by (rule GenerateDemand_cong) simp
  then show "attributes (demand si) = attributes (GenerateDemand cfg ?r)" if "scheduleInfo ?r = Some si" for si
    using that by (auto simp: InitScheduleInfo_def new_ReqScheduleInfo_def)
qed (simp_all add: assms(3) holds_InitScheduleInfo)

text \<open>An instance of a pool is registered under its id.\<close>

lemma in_map_registered:
  assumes "rm_ok cfg rm" "in_map rm ri"
  obtains l where "map_of (resourceMap rm) (st_id (static_of rm (fst ri))) = Some (fst ri, l)"
    "st_id (static_of rm (fst ri)) \<noteq> ILLEGAL_INSTANCE_ID"
proof -
  from assms(2) obtain l where l: "map_of (resourceMap rm) (st_id (static_of rm (fst ri))) = Some (fst ri, l)"
    by (auto simp: in_map_def)
  from rm_ok_inst [OF assms(1) l] have "st_id (static_of rm (fst ri)) \<noteq> ILLEGAL_INSTANCE_ID"
    by (simp add: inst_ok_def)
  with l show ?thesis by (rule that)
qed

definition placed_p :: "ResourceManager \<Rightarrow> DIGSRequest \<Rightarrow> bool" where
  "placed_p rm r \<longleftrightarrow> state r = SCHEDULING \<and> (\<exists>si rp. scheduleInfo r = Some si \<and> in_map rm rp
     \<and> prefillInst si = st_id (static_of rm (fst rp)) \<and> rs_groupId si = st_groupId (static_of rm (fst rp))
     \<and> prefillInst si \<noteq> ILLEGAL_INSTANCE_ID \<and> decodeInst si = ILLEGAL_INSTANCE_ID
     \<and> \<not> prefillReleased si \<and> \<not> decodeReleased si)"

definition placed_pd :: "ResourceManager \<Rightarrow> DIGSRequest \<Rightarrow> bool" where
  "placed_pd rm r \<longleftrightarrow> state r = ALLOCATED \<and> (\<exists>si rp rd. scheduleInfo r = Some si \<and> in_map rm rp \<and> in_map rm rd
     \<and> prefillInst si = st_id (static_of rm (fst rp)) \<and> decodeInst si = st_id (static_of rm (fst rd))
     \<and> st_groupId (static_of rm (fst rp)) = st_groupId (static_of rm (fst rd))
     \<and> (decodeInst si = prefillInst si \<or> prefillInst si \<in> set (dy_peers (snd rd)))
     \<and> \<not> prefillReleased si \<and> \<not> decodeReleased si)"

lemma placed_transfer:
  "same_view rm rm' \<Longrightarrow> placed_p rm' r = placed_p rm r" "same_view rm rm' \<Longrightarrow> placed_pd rm' r = placed_pd rm r"
  by (simp_all add: placed_p_def placed_pd_def same_view_transfer) (simp_all add: same_view_def)

lemma books_place_prefill:
  assumes b: "books cfg C q rm" and a: "a < nextReq q" and st: "state (reqHeap q a) = SCHEDULING"
    and ri: "in_map rm ri" and d: "d = GenerateDemand cfg (reqHeap q a)"
    and free: "\<And>st i. \<not> holds st i (reqHeap q a)"
    and r: "r = (InitScheduleInfo now d (reqHeap q a))\<lparr>scheduleInfo :=
        Some ((new_ReqScheduleInfo d)\<lparr>prefillInst := st_id (static_of rm (fst ri)),
                                     rs_groupId := st_groupId (static_of rm (fst ri))\<rparr>)\<rparr>"
  shows "books cfg C (q\<lparr>reqHeap := (reqHeap q)(a := r)\<rparr>) (upd_res (fst ri) (RI_AddDemand d PREFILL) rm)"
    and "placed_p rm r"
proof -
  from b have "rm_ok cfg rm" by (simp add: books_def)
  from in_map_registered [OF this ri] obtain l
    where l: "map_of (resourceMap rm) (st_id (static_of rm (fst ri))) = Some (fst ri, l)"
      and ill: "st_id (static_of rm (fst ri)) \<noteq> ILLEGAL_INSTANCE_ID" .
  have len: "inputLen r = inputLen (reqHeap q a)" by (simp add: r)
  then have gen: "GenerateDemand cfg r = d" unfolding d by (rule GenerateDemand_cong)
  show "books cfg C (q\<lparr>reqHeap := (reqHeap q)(a := r)\<rparr>) (upd_res (fst ri) (RI_AddDemand d PREFILL) rm)"
  proof (rule books_charge [OF b a len _ l])
    show "attributes (demand si) = attributes (GenerateDemand cfg r)" if "scheduleInfo r = Some si" for si
      using that by (auto simp: gen) (auto simp: r new_ReqScheduleInfo_def)
    show "holds st i r \<longleftrightarrow> holds st i (reqHeap q a) \<or> st = PREFILL \<and> i = st_id (static_of rm (fst ri))" for st i
      using ill free [of st i] by (cases st)
        (auto simp: r holds_def new_ReqScheduleInfo_def stage_inst_def stage_released_def)
  qed (simp_all add: gen free)
  show "placed_p rm r" using st ri ill unfolding placed_p_def
    by (intro conjI exI [of _ "(new_ReqScheduleInfo d)\<lparr>prefillInst := st_id (static_of rm (fst ri)),
          rs_groupId := st_groupId (static_of rm (fst ri))\<rparr>"] exI [of _ ri])
       (simp_all add: r new_ReqScheduleInfo_def)
qed

lemma UpdateState2Allocated_frame [simp]:
  "scheduleInfo (snd (UpdateState2Allocated now r)) = scheduleInfo r"
  "inputLen (snd (UpdateState2Allocated now r)) = inputLen r"
  by (simp_all add: UpdateState2Allocated_def)

lemma books_place_decode:
  assumes b: "books cfg C q rm" and p: "placed_p rm (reqHeap q a)"
    and si: "scheduleInfo (reqHeap q a) = Some si"
    and ri: "in_map rm ri" "st_groupId (static_of rm (fst ri)) = rs_groupId si"
    and con: "CheckConnectionTo rm ri (prefillInst si)"
    and r: "r = snd (UpdateState2Allocated now ((reqHeap q a)\<lparr>scheduleInfo :=
        Some (si\<lparr>decodeInst := st_id (static_of rm (fst ri))\<rparr>)\<rparr>))"
  shows "books cfg C (q\<lparr>reqHeap := (reqHeap q)(a := r)\<rparr>) (upd_res (fst ri) (RI_AddDemand (demand si) DECODE) rm)"
    and "placed_pd rm r"
proof -
  from b have "rm_ok cfg rm" by (simp add: books_def)
  from in_map_registered [OF this ri(1)] obtain l
    where l: "map_of (resourceMap rm) (st_id (static_of rm (fst ri))) = Some (fst ri, l)"
      and ill: "st_id (static_of rm (fst ri)) \<noteq> ILLEGAL_INSTANCE_ID" .
  have len: "inputLen r = inputLen (reqHeap q a)" by (simp add: r UpdateState2Allocated_def)
  then have gen: "GenerateDemand cfg r = GenerateDemand cfg (reqHeap q a)" by (rule GenerateDemand_cong)
  from b si have a: "a < nextReq q" and d: "attributes (demand si) = attributes (GenerateDemand cfg (reqHeap q a))"
    by (auto simp: books_def rq_ok_def)
  have dec: "decodeInst si = ILLEGAL_INSTANCE_ID" "\<not> decodeReleased si" using p si by (auto simp: placed_p_def)
  show "books cfg C (q\<lparr>reqHeap := (reqHeap q)(a := r)\<rparr>) (upd_res (fst ri) (RI_AddDemand (demand si) DECODE) rm)"
  proof (rule books_charge [OF b a len _ l])
    show "attributes (demand si') = attributes (GenerateDemand cfg r)" if "scheduleInfo r = Some si'" for si'
      using that d by (auto simp: gen) (auto simp: r)
    show "attributes (demand si) = attributes (GenerateDemand cfg r)" using d by (simp add: gen)
    show "\<not> holds DECODE (st_id (static_of rm (fst ri))) (reqHeap q a)"
      using si dec ill by (simp add: holds_def stage_inst_def)
    show "holds st i r \<longleftrightarrow> holds st i (reqHeap q a) \<or> st = DECODE \<and> i = st_id (static_of rm (fst ri))" for st i
      using si dec ill by (cases st) (auto simp: r holds_def stage_inst_def stage_released_def)
  qed
  from p si obtain rp where rp: "state (reqHeap q a) = SCHEDULING" "in_map rm rp"
    "prefillInst si = st_id (static_of rm (fst rp))" "rs_groupId si = st_groupId (static_of rm (fst rp))"
    "\<not> prefillReleased si" by (auto simp: placed_p_def)
  from con have "st_id (static_of rm (fst ri)) = prefillInst si \<or> prefillInst si \<in> set (dy_peers (snd ri))"
    by (auto simp: CheckConnectionTo_def list_ex_iff split: if_splits)
  with rp ri dec(2) show "placed_pd rm r" unfolding placed_pd_def
    by (intro conjI exI [of _ "si\<lparr>decodeInst := st_id (static_of rm (fst ri))\<rparr>"] exI [of _ rp] exI [of _ ri])
       (simp_all add: r UpdateState2Allocated_def)
qed

subsection \<open>What a pass may change of a request\<close>

text \<open>Only requests in state SCHEDULING are touched, and their state can only become ALLOCATED.\<close>

definition pass_frame :: "RequestManager \<Rightarrow> RequestManager \<Rightarrow> bool" where
  "pass_frame q q' \<longleftrightarrow> nextReq q' = nextReq q \<and> waitingQueue q' = waitingQueue q
     \<and> processingQueue q' = processingQueue q \<and> reqId2Callback q' = reqId2Callback q
     \<and> (\<forall>a. reqHeap q' a = reqHeap q a \<or> state (reqHeap q a) = SCHEDULING)
     \<and> (\<forall>a. state (reqHeap q' a) = state (reqHeap q a) \<or> state (reqHeap q' a) = ALLOCATED)
     \<and> (\<forall>a. scheduleInfo (reqHeap q a) \<noteq> None \<longrightarrow> scheduleInfo (reqHeap q' a) \<noteq> None)
     \<and> (\<forall>a. reqId (reqHeap q' a) = reqId (reqHeap q a))"

lemma pass_frame_refl [simp]: "pass_frame q q"
  by (simp add: pass_frame_def)

lemma pass_frame_trans: "pass_frame q1 q2 \<Longrightarrow> pass_frame q2 q3 \<Longrightarrow> pass_frame q1 q3"
  unfolding pass_frame_def by (metis DIGSReqState.distinct(19))

lemma pass_frame_upd:
  assumes "state (reqHeap q a) = SCHEDULING" "state r = SCHEDULING \<or> state r = ALLOCATED"
    "scheduleInfo (reqHeap q a) \<noteq> None \<longrightarrow> scheduleInfo r \<noteq> None" "reqId r = reqId (reqHeap q a)"
  shows "pass_frame q (q\<lparr>reqHeap := (reqHeap q)(a := r)\<rparr>)"
  using assms by (auto simp: pass_frame_def)

subsection \<open>The prefill loop\<close>

text \<open>The loop invariant; \<open>reqs\<close> are the requests still to be looked at.\<close>

definition pass_ok :: "fw_cfg \<Rightarrow> u64 set \<Rightarrow> addr list \<Rightarrow> pass \<Rightarrow> bool" where
  "pass_ok fc C reqs s \<longleftrightarrow> books (digsCfg fc) C (ps_rq s) (ps_rm s) \<and> view_known C (ps_rm s)
     \<and> pools_in (ps_rm s) (ps_pool s) \<and> distinct (ps_alloc s @ reqs)
     \<and> (\<forall>a \<in> set reqs. a < nextReq (ps_rq s))
     \<and> (\<forall>a \<in> set (ps_alloc s). placed_p (ps_rm s) (reqHeap (ps_rq s) a))"

lemma pools_in_sort:
  "std_sort srt \<Longrightarrow> pools_in rm sp \<Longrightarrow> pools_in rm (sp\<lparr>sp_prefill := SortPrefill srt rm' (sp_prefill sp)\<rparr>)"
  by (simp add: pools_in_def set_SortPrefill)

text \<open>One request that the loop places.\<close>

lemma prefill_step_ok:
  assumes srt: "std_sort srt" and ok: "pass_ok fc C (a # reqs) s"
    and st: "state (reqHeap (ps_rq s) a) = SCHEDULING"
    and rel: "release_both a (ps_rq s, ps_rm s) = (q1, rm1)"
    and dem: "dem = GenerateDemand (digsCfg fc) (reqHeap q1 a)"
    and q2: "q2 = upd_req a (InitScheduleInfo now dem) q1"
    and sel: "SelectPrefillInst srt (selectPolicy fc) dem (ps_pool s) rm1 = (res, sp, rm2)"
  shows "case res of
      Some (p, g) \<Rightarrow> pass_ok fc C reqs
        (s\<lparr>ps_rq := set_sinfo (\<lambda>si. si\<lparr>prefillInst := p, rs_groupId := g\<rparr>) a q2,
           ps_rm := rm2, ps_pool := sp, ps_alloc := ps_alloc s @ [a]\<rparr>)
    | None \<Rightarrow> pass_ok fc C (a # reqs) (s\<lparr>ps_rq := q2, ps_rm := rm2, ps_pool := sp, ps_sched := a # reqs\<rparr>)"
    and "same_view (ps_rm s) rm2"
proof -
  let ?cfg = "digsCfg fc" and ?q = "ps_rq s" and ?rm = "ps_rm s"
  from ok have b: "books ?cfg C ?q ?rm" and v: "view_known C ?rm" and pl: "pools_in ?rm (ps_pool s)"
    and a: "a < nextReq ?q" and dist: "distinct (ps_alloc s @ a # reqs)"
    and lt: "\<forall>b \<in> set reqs. b < nextReq ?q"
    and placed: "\<forall>b \<in> set (ps_alloc s). placed_p ?rm (reqHeap ?q b)" by (auto simp: pass_ok_def)
  note r1 = books_release_both [OF b v rel]
  from a r1(3) have a1: "a < nextReq q1" by simp
  have pl1: "pools_in rm1 (ps_pool s)" using pl by (simp add: same_view_transfer [OF r1(2)])
  have v1: "view_known C rm1" using v by (simp add: same_view_transfer [OF r1(2)])
  have placed1: "placed_p rm1 (reqHeap q1 b)" if "b \<in> set (ps_alloc s)" for b
  proof -
    from that dist have "b \<noteq> a" by auto
    with that placed r1(4) show ?thesis by (simp add: placed_transfer [OF r1(2)])
  qed
  have keep: "reqHeap q2 b = reqHeap q1 b" if "b \<noteq> a" for b using that by (simp add: q2 upd_req_def)
  show "same_view ?rm rm2"
  proof (cases res)
    case None
    with SelectPrefillInst_None(1) [OF srt] sel r1(2) show ?thesis by fastforce
  next
    case (Some pg)
    obtain p g where pg: "pg = (p, g)" by force
    from sel [unfolded Some pg] obtain ri :: ResInfo
      where "rm2 = upd_res (fst ri) (RI_AddDemand dem PREFILL) rm1"
      by (rule SelectPrefillInst_Some [OF srt]) blast
    with r1(2) show ?thesis by (auto intro: same_view_trans)
  qed
  show "case res of
      Some (p, g) \<Rightarrow> pass_ok fc C reqs
        (s\<lparr>ps_rq := set_sinfo (\<lambda>si. si\<lparr>prefillInst := p, rs_groupId := g\<rparr>) a q2,
           ps_rm := rm2, ps_pool := sp, ps_alloc := ps_alloc s @ [a]\<rparr>)
    | None \<Rightarrow> pass_ok fc C (a # reqs) (s\<lparr>ps_rq := q2, ps_rm := rm2, ps_pool := sp, ps_sched := a # reqs\<rparr>)"
  proof (cases res)
    case None
    note n = SelectPrefillInst_None [OF srt sel [unfolded None]]
    have "books ?cfg C q2 rm2" unfolding q2 n(1) dem by (rule books_init [OF r1(1) a1 r1(7)])
    moreover have "pools_in rm2 sp" using pl1 n by (simp add: pools_in_def)
    moreover have "placed_p rm2 (reqHeap q2 b)" if "b \<in> set (ps_alloc s)" for b
    proof -
      from that dist have "b \<noteq> a" by auto
      with placed1 [OF that] show ?thesis by (simp add: keep n(1))
    qed
    moreover have "nextReq q2 = nextReq ?q" by (simp add: q2 upd_req_def r1(3))
    ultimately show ?thesis using None v1 dist lt a by (simp add: pass_ok_def n(1))
  next
    case (Some pg)
    obtain p g where pg: "pg = (p, g)" by force
    from sel [unfolded Some pg] obtain ri where ri: "ri \<in> set (sp_prefill (ps_pool s))"
      and p: "p = st_id (static_of rm1 (fst ri))" and g: "g = st_groupId (static_of rm1 (fst ri))"
      and rm2: "rm2 = upd_res (fst ri) (RI_AddDemand dem PREFILL) rm1"
      and sp: "sp = (ps_pool s)\<lparr>sp_prefill := SortPrefill srt rm1 (sp_prefill (ps_pool s))\<rparr>"
      by (rule SelectPrefillInst_Some [OF srt]) blast
    let ?r = "(InitScheduleInfo now dem (reqHeap q1 a))\<lparr>scheduleInfo :=
        Some ((new_ReqScheduleInfo dem)\<lparr>prefillInst := p, rs_groupId := g\<rparr>)\<rparr>"
    let ?q3 = "set_sinfo (\<lambda>si. si\<lparr>prefillInst := p, rs_groupId := g\<rparr>) a q2"
    have q3: "?q3 = q1\<lparr>reqHeap := (reqHeap q1)(a := ?r)\<rparr>"
      by (simp add: q2 set_sinfo_def upd_req_def InitScheduleInfo_def)
    have inm: "in_map rm1 ri" using pl1 ri by (simp add: pools_in_def)
    have st1: "state (reqHeap q1 a) = SCHEDULING" using st r1(6) by simp
    note pp = books_place_prefill [OF r1(1) a1 st1 inm dem r1(7) refl, of now, folded p g]
    have same: "same_view rm1 rm2" by (simp add: rm2)
    have "books ?cfg C ?q3 rm2" unfolding q3 rm2 by (rule pp(1))
    moreover have "placed_p rm2 (reqHeap ?q3 b)" if "b \<in> set (ps_alloc s @ [a])" for b
    proof (cases "b = a")
      case True
      with pp(2) show ?thesis by (simp add: q3 placed_transfer [OF same])
    next
      case False
      with placed1 that show ?thesis by (simp add: q3 placed_transfer [OF same])
    qed
    moreover have "pools_in rm2 sp" "view_known C rm2"
      using pl1 v1 pools_in_sort [OF srt] by (simp_all add: same_view_transfer [OF same] sp)
    moreover have "nextReq ?q3 = nextReq ?q" by (simp add: q3 r1(3))
    ultimately show ?thesis using Some pg dist lt by (simp add: pass_ok_def)
  qed
qed

lemma pass_ok_skip: "pass_ok fc C (a # reqs) s \<Longrightarrow> pass_ok fc C reqs s"
  by (simp add: pass_ok_def)

lemma pass_ok_sched [simp]: "pass_ok fc C reqs (s\<lparr>ps_sched := x\<rparr>) = pass_ok fc C reqs s"
  by (simp add: pass_ok_def)

lemma prefill_loop_ok:
  assumes "std_sort srt" "pass_ok fc C reqs s"
  shows "pass_ok fc C (ps_sched (prefill_loop srt fc now reqs s)) (prefill_loop srt fc now reqs s)
    \<and> same_view (ps_rm s) (ps_rm (prefill_loop srt fc now reqs s))"
  using assms(2)
proof (induction reqs arbitrary: s)
  case Nil
  then show ?case by simp
next
  case (Cons a reqs)
  show ?case
  proof (cases "state (reqHeap (ps_rq s) a) = SCHEDULING")
    case False
    with Cons.IH [OF pass_ok_skip [OF Cons.prems]] show ?thesis by simp
  next
    case True
    obtain q1 rm1 where rel: "release_both a (ps_rq s, ps_rm s) = (q1, rm1)" by force
    let ?dem = "GenerateDemand (digsCfg fc) (reqHeap q1 a)"
    obtain res sp rm2 where sel: "SelectPrefillInst srt (selectPolicy fc) ?dem (ps_pool s) rm1 = (res, sp, rm2)"
      by (cases "SelectPrefillInst srt (selectPolicy fc) ?dem (ps_pool s) rm1")
    note step = prefill_step_ok [OF assms(1) Cons.prems True rel refl refl sel]
    show ?thesis
    proof (cases res)
      case None
      with step True rel sel show ?thesis by simp
    next
      case (Some pg)
      obtain p g where pg: "pg = (p, g)" by force
      from step(1) Some pg have "pass_ok fc C reqs
        (s\<lparr>ps_rq := set_sinfo (\<lambda>si. si\<lparr>prefillInst := p, rs_groupId := g\<rparr>) a (upd_req a (InitScheduleInfo now ?dem) q1),
           ps_rm := rm2, ps_pool := sp, ps_alloc := ps_alloc s @ [a]\<rparr>)" by simp
      from Cons.IH [OF this] step(2) True rel sel Some pg show ?thesis
        by (auto intro: same_view_trans)
    qed
  qed
qed

subsection \<open>The decode loop\<close>

text \<open>The invariant of the decode loop: \<open>done\<close> are placed on both sides, \<open>reqs\<close> wait for decode.\<close>

definition decode_ok :: "fw_cfg \<Rightarrow> u64 set \<Rightarrow> addr list \<Rightarrow> addr list \<Rightarrow> pass \<Rightarrow> bool" where
  "decode_ok fc C dn reqs s \<longleftrightarrow> books (digsCfg fc) C (ps_rq s) (ps_rm s) \<and> view_known C (ps_rm s)
     \<and> pools_in (ps_rm s) (ps_pool s) \<and> distinct (dn @ reqs @ ps_sched s)
     \<and> (\<forall>a \<in> set (dn @ reqs @ ps_sched s). a < nextReq (ps_rq s))
     \<and> (\<forall>a \<in> set reqs. placed_p (ps_rm s) (reqHeap (ps_rq s) a))
     \<and> (\<forall>a \<in> set dn. placed_pd (ps_rm s) (reqHeap (ps_rq s) a))"

lemma pools_in_sort_decode:
  assumes "std_sort srt" "weights_ok (metaCfg cfg)" "pools_in rm sp" "map_of (sp_decode sp) g = Some grp"
  shows "pools_in rm (sp\<lparr>sp_decode := omap_put g (SortDecode srt cfg rm' dem grp) (sp_decode sp)\<rparr>)"
proof -
  have "groups_in rm (sp_decode sp)" using assms(3) by (simp add: pools_in_def)
  then have "groups_in rm (omap_put g (SortDecode srt cfg rm' dem grp) (sp_decode sp))"
    by (rule groups_in_put) (use assms in \<open>auto simp: set_SortDecode pools_in_def groups_in_def\<close>)
  with assms(3) show ?thesis by (simp add: pools_in_def)
qed

lemma decode_step_place:
  assumes srt: "std_sort srt" and w: "weights_ok (metaCfg (digsCfg fc))"
    and ok: "decode_ok fc C dn (a # reqs) s"
    and si: "scheduleInfo (reqHeap (ps_rq s) a) = Some si"
    and sel: "SelectDecodeInst srt (selectPolicy fc) (digsCfg fc) (demand si)
                (prefillInst si) (rs_groupId si) (ps_pool s) (ps_rm s) = (Some d, sp, rm1)"
    and q1: "q1 = upd_req a (snd \<circ> UpdateState2Allocated now)
                              (set_sinfo (\<lambda>si. si\<lparr>decodeInst := d\<rparr>) a (ps_rq s))"
  shows "decode_ok fc C (dn @ [a]) reqs (s\<lparr>ps_rq := q1, ps_rm := rm1, ps_pool := sp\<rparr>)"
    and "same_view (ps_rm s) rm1" and "pass_frame (ps_rq s) q1"
proof -
  let ?cfg = "digsCfg fc" and ?q = "ps_rq s" and ?rm = "ps_rm s"
  from ok have b: "books ?cfg C ?q ?rm" and pl: "pools_in ?rm (ps_pool s)"
    and dist: "distinct (dn @ (a # reqs) @ ps_sched s)" and p: "placed_p ?rm (reqHeap ?q a)"
    by (simp_all add: decode_ok_def)
  from sel obtain grp ri where grp: "map_of (sp_decode (ps_pool s)) (rs_groupId si) = Some grp"
    and ri: "ri \<in> set grp" "decode_eligible (selectPolicy fc) ?rm (prefillInst si) ri"
    and d: "d = st_id (static_of ?rm (fst ri))"
    and rm1: "rm1 = upd_res (fst ri) (RI_AddDemand (demand si) DECODE) ?rm"
    and sp: "sp = (ps_pool s)\<lparr>sp_decode := omap_put (rs_groupId si) (SortDecode srt ?cfg ?rm (demand si) grp) (sp_decode (ps_pool s))\<rparr>"
    by (rule SelectDecodeInst_Some [OF srt w]) blast
  from pl grp ri(1) have inm: "in_map ?rm ri" "st_groupId (static_of ?rm (fst ri)) = rs_groupId si"
    unfolding pools_in_def groups_in_def by blast+
  have con: "CheckConnectionTo ?rm ri (prefillInst si)" using ri(2) by (simp add: decode_eligible_def)
  let ?r = "snd (UpdateState2Allocated now ((reqHeap ?q a)\<lparr>scheduleInfo := Some (si\<lparr>decodeInst := d\<rparr>)\<rparr>))"
  have q1': "q1 = ?q\<lparr>reqHeap := (reqHeap ?q)(a := ?r)\<rparr>"
    using si by (simp add: q1 upd_req_def set_sinfo_def)
  note pd = books_place_decode [OF b p si inm con refl, of now, folded d]
  show same: "same_view ?rm rm1" by (simp add: rm1)
  show "pass_frame ?q q1" unfolding q1'
    using p by (intro pass_frame_upd) (auto simp: placed_p_def UpdateState2Allocated_def)
  have "books ?cfg C q1 rm1" unfolding q1' rm1 by (rule pd(1))
  moreover have "pools_in rm1 sp"
    using pools_in_sort_decode [OF srt w pl grp] by (simp add: same_view_transfer [OF same] sp)
  ultimately show "decode_ok fc C (dn @ [a]) reqs (s\<lparr>ps_rq := q1, ps_rm := rm1, ps_pool := sp\<rparr>)"
    using ok pd(2) dist
    by (auto simp: decode_ok_def q1' same_view_transfer [OF same] placed_transfer [OF same])
qed

lemma decode_step_back:
  assumes srt: "std_sort srt" and w: "weights_ok (metaCfg (digsCfg fc))"
    and ok: "decode_ok fc C dn (a # reqs) s"
    and sel: "SelectDecodeInst srt (selectPolicy fc) (digsCfg fc) (demand si)
                (prefillInst si) (rs_groupId si) (ps_pool s) (ps_rm s) = (None, sp, rm1)"
    and rel: "try_release PREFILL a (ps_rq s, rm1) = (q1, rm2)"
  shows "decode_ok fc C dn reqs (s\<lparr>ps_rq := q1, ps_rm := rm2, ps_pool := sp, ps_sched := ps_sched s @ [a]\<rparr>)"
    and "same_view (ps_rm s) rm2" and "pass_frame (ps_rq s) q1"
proof -
  let ?cfg = "digsCfg fc" and ?q = "ps_rq s" and ?rm = "ps_rm s"
  note n = SelectDecodeInst_None [OF srt w sel]
  from ok have b: "books ?cfg C ?q ?rm" and v: "view_known C ?rm" and pl: "pools_in ?rm (ps_pool s)"
    and dist: "distinct (dn @ (a # reqs) @ ps_sched s)"
    by (simp_all add: decode_ok_def)
  from rel have q1: "q1 = ?q\<lparr>reqHeap := (reqHeap ?q)(a := released PREFILL (reqHeap ?q a))\<rparr>"
    and rm2: "rm2 = refund PREFILL (reqHeap ?q a) ?rm" by (simp_all add: try_release_eq n(1))
  show same: "same_view ?rm rm2" by (simp add: rm2)
  show "pass_frame ?q q1" unfolding q1 using ok
    by (intro pass_frame_upd) (auto simp: decode_ok_def placed_p_def)
  have "books ?cfg C q1 rm2" unfolding q1 rm2 by (rule books_release [OF b v])
  moreover have "pools_in rm2 sp"
    using n(3) pl pools_in_sort_decode [OF srt w pl] by (auto simp: same_view_transfer [OF same])
  ultimately show "decode_ok fc C dn reqs (s\<lparr>ps_rq := q1, ps_rm := rm2, ps_pool := sp, ps_sched := ps_sched s @ [a]\<rparr>)"
    using ok dist by (auto simp: decode_ok_def q1 same_view_transfer [OF same] placed_transfer [OF same])
qed

lemma decode_loop_ok:
  assumes "std_sort srt" "weights_ok (metaCfg (digsCfg fc))" "decode_ok fc C dn reqs s"
  shows "\<exists>s'. decode_loop srt fc now dn reqs s = Some s' \<and> decode_ok fc C (ps_alloc s') [] s'
    \<and> same_view (ps_rm s) (ps_rm s') \<and> mset (ps_alloc s' @ ps_sched s') = mset (dn @ reqs @ ps_sched s)
    \<and> pass_frame (ps_rq s) (ps_rq s')"
  using assms(3)
proof (induction reqs arbitrary: dn s)
  case Nil
  then show ?case by (simp add: decode_ok_def)
next
  case (Cons a reqs)
  from Cons.prems obtain si where si: "scheduleInfo (reqHeap (ps_rq s) a) = Some si"
    and p: "prefillInst si \<noteq> ILLEGAL_INSTANCE_ID" by (auto simp: decode_ok_def placed_p_def)
  obtain res sp rm1 where sel: "SelectDecodeInst srt (selectPolicy fc) (digsCfg fc) (demand si)
      (prefillInst si) (rs_groupId si) (ps_pool s) (ps_rm s) = (res, sp, rm1)"
    by (cases "SelectDecodeInst srt (selectPolicy fc) (digsCfg fc) (demand si)
      (prefillInst si) (rs_groupId si) (ps_pool s) (ps_rm s)")
  show ?case
  proof (cases res)
    case (Some d)
    note step = decode_step_place [OF assms(1,2) Cons.prems si sel [unfolded Some] refl]
    from Cons.IH [OF step(1) [of now]] step(2) step(3) [of now] si p sel Some show ?thesis
      by (auto simp: ac_simps intro: same_view_trans pass_frame_trans)
  next
    case None
    obtain q1 rm2 where rel: "try_release PREFILL a (ps_rq s, rm1) = (q1, rm2)" by force
    note step = decode_step_back [OF assms(1,2) Cons.prems sel [unfolded None] rel]
    from Cons.IH [OF step(1)] step(2,3) si p sel None rel show ?thesis
      by (auto simp: ac_simps intro: same_view_trans pass_frame_trans)
  qed
qed

subsection \<open>No request is lost\<close>

lemma set_sinfo_state [simp]: "state (reqHeap (set_sinfo f a q) b) = state (reqHeap q b)"
  by (simp add: set_sinfo_def upd_req_def)

lemma release_both_state:
  "release_both a (q, rm) = (q1, rm1) \<Longrightarrow> state (reqHeap q1 b) = state (reqHeap q b)"
  by (auto simp: release_both_eq)

lemma prefill_loop_queue:
  "\<exists>m. ps_alloc (prefill_loop srt fc now reqs s)
        = ps_alloc s @ filter (\<lambda>a. state (reqHeap (ps_rq s) a) = SCHEDULING) (take m reqs)
      \<and> ps_sched (prefill_loop srt fc now reqs s) = drop m reqs"
proof (induction reqs arbitrary: s)
  case Nil
  show ?case by simp
next
  case (Cons a reqs)
  let ?st = "\<lambda>s a. state (reqHeap (ps_rq s) a) = SCHEDULING"
  show ?case
  proof (cases "?st s a")
    case False
    from Cons.IH [of s] obtain m where
      "ps_alloc (prefill_loop srt fc now reqs s) = ps_alloc s @ filter (?st s) (take m reqs)"
      "ps_sched (prefill_loop srt fc now reqs s) = drop m reqs" by blast
    with False show ?thesis by (intro exI [of _ "Suc m"]) simp
  next
    case True
    obtain q1 rm1 where rel: "release_both a (ps_rq s, ps_rm s) = (q1, rm1)" by force
    let ?dem = "GenerateDemand (digsCfg fc) (reqHeap q1 a)"
    let ?q2 = "upd_req a (InitScheduleInfo now ?dem) q1"
    obtain res sp rm2 where sel: "SelectPrefillInst srt (selectPolicy fc) ?dem (ps_pool s) rm1 = (res, sp, rm2)"
      by (cases "SelectPrefillInst srt (selectPolicy fc) ?dem (ps_pool s) rm1")
    show ?thesis
    proof (cases res)
      case None
      with True rel sel show ?thesis by (intro exI [of _ 0]) simp
    next
      case (Some pg)
      obtain p g where pg: "pg = (p, g)" by force
      let ?s = "s\<lparr>ps_rq := set_sinfo (\<lambda>si. si\<lparr>prefillInst := p, rs_groupId := g\<rparr>) a ?q2,
           ps_rm := rm2, ps_pool := sp, ps_alloc := ps_alloc s @ [a]\<rparr>"
      have "?st ?s = ?st s"
        using release_both_state [OF rel] by (simp add: fun_eq_iff upd_req_def)
      with Cons.IH [of ?s] obtain m where
        "ps_alloc (prefill_loop srt fc now reqs ?s) = (ps_alloc s @ [a]) @ filter (?st s) (take m reqs)"
        "ps_sched (prefill_loop srt fc now reqs ?s) = drop m reqs" by auto
      with True rel sel Some pg show ?thesis by (intro exI [of _ "Suc m"]) simp
    qed
  qed
qed

lemma prefill_loop_frame: "pass_frame (ps_rq s) (ps_rq (prefill_loop srt fc now reqs s))"
proof (induction reqs arbitrary: s)
  case Nil
  show ?case by simp
next
  case (Cons a reqs)
  show ?case
  proof (cases "state (reqHeap (ps_rq s) a) = SCHEDULING")
    case False
    with Cons.IH [of s] show ?thesis by simp
  next
    case True
    obtain q1 rm1 where rel: "release_both a (ps_rq s, ps_rm s) = (q1, rm1)" by force
    let ?dem = "GenerateDemand (digsCfg fc) (reqHeap q1 a)"
    let ?q2 = "upd_req a (InitScheduleInfo now ?dem) q1"
    let ?q3 = "\<lambda>p g. set_sinfo (\<lambda>si. si\<lparr>prefillInst := p, rs_groupId := g\<rparr>) a ?q2"
    obtain res sp rm2 where sel: "SelectPrefillInst srt (selectPolicy fc) ?dem (ps_pool s) rm1 = (res, sp, rm2)"
      by (cases "SelectPrefillInst srt (selectPolicy fc) ?dem (ps_pool s) rm1")
    from rel have q1: "q1 = (ps_rq s)\<lparr>reqHeap := (reqHeap (ps_rq s))(a :=
        released DECODE (released PREFILL (reqHeap (ps_rq s) a)))\<rparr>" by (simp add: release_both_eq)
    have fr2: "pass_frame (ps_rq s) ?q2" "pass_frame (ps_rq s) (?q3 p g)" for p g
      using True by (auto simp: q1 upd_req_def set_sinfo_def InitScheduleInfo_def intro!: pass_frame_upd)
    show ?thesis
    proof (cases res)
      case None
      with True rel sel fr2(1) show ?thesis by simp
    next
      case (Some pg)
      obtain p g where pg: "pg = (p, g)" by force
      have "pass_frame (ps_rq s) (ps_rq (prefill_loop srt fc now reqs
          (s\<lparr>ps_rq := ?q3 p g, ps_rm := rm2, ps_pool := sp, ps_alloc := ps_alloc s @ [a]\<rparr>)))"
        using pass_frame_trans [OF fr2(2) [of g p]]
          Cons.IH [of "s\<lparr>ps_rq := ?q3 p g, ps_rm := rm2, ps_pool := sp, ps_alloc := ps_alloc s @ [a]\<rparr>"] by simp
      with True rel sel Some pg show ?thesis by simp
    qed
  qed
qed

subsection \<open>The whole pass\<close>

definition pass_start :: "fw_cfg \<Rightarrow> u64 set \<Rightarrow> pass \<Rightarrow> bool" where
  "pass_start fc C s \<longleftrightarrow> books (digsCfg fc) C (ps_rq s) (ps_rm s) \<and> view_known C (ps_rm s)
     \<and> view_in (ps_rm s) \<and> omap_ok (decodePool (resView (ps_rm s))) \<and> pools_in (ps_rm s) (ps_pool s)
     \<and> ps_alloc s = [] \<and> distinct (ps_sched s) \<and> (\<forall>a \<in> set (ps_sched s). a < nextReq (ps_rq s))"

lemma set_Reordering: "set (Reordering p q reqs) = set reqs"
  by (simp add: Reordering_alt)

lemma distinct_Reordering: "distinct (Reordering p q reqs) = distinct reqs"
  by (metis Reordering_alt mset_stable_sort mset_eq_imp_distinct_iff)

text \<open>What a pass leaves behind.\<close>

definition same_books_map :: "ResourceManager \<Rightarrow> ResourceManager \<Rightarrow> bool" where
  "same_books_map rm rm' \<longleftrightarrow> resourceMap rm' = resourceMap rm
     \<and> (\<forall>a. static_of rm' a = static_of rm a \<and> isInstanceClosed (sched_of rm' a) = isInstanceClosed (sched_of rm a))"

definition pass_end :: "fw_cfg \<Rightarrow> u64 set \<Rightarrow> pass \<Rightarrow> pass \<Rightarrow> bool" where
  "pass_end fc C s s' \<longleftrightarrow> books (digsCfg fc) C (ps_rq s') (ps_rm s')
     \<and> view_known C (ps_rm s') \<and> distinct (ps_alloc s' @ ps_sched s')
     \<and> set (ps_alloc s' @ ps_sched s') \<subseteq> set (ps_sched s)
     \<and> (\<forall>a \<in> set (ps_sched s). state (reqHeap (ps_rq s) a) = SCHEDULING \<longrightarrow> a \<in> set (ps_alloc s' @ ps_sched s'))
     \<and> (\<forall>a \<in> set (ps_alloc s'). placed_pd (ps_rm s') (reqHeap (ps_rq s') a))
     \<and> pass_frame (ps_rq s) (ps_rq s') \<and> same_books_map (ps_rm s) (ps_rm s') \<and> ps_pool s' = \<lparr>sp_prefill = [], sp_decode = []\<rparr>"

lemma Scheduling_ok:
  assumes srt: "std_sort srt" and w: "weights_ok (metaCfg (digsCfg fc))" and ok: "pass_start fc C s"
  shows "\<exists>s'. Scheduling srt fc now s = Some s' \<and> pass_end fc C s s'"
proof -
  let ?reqs = "Reordering (reorderingPolicy fc) (ps_rq s) (ps_sched s)"
  define s2 where "s2 = load PREFILL (s\<lparr>ps_sched := ?reqs, ps_rm := ScheduleInst (ps_rm s)\<rparr>)"
  define s3 where "s3 = SchedulePrefill srt fc now s2"
  define s4 where "s4 = load DECODE ((offload s3)\<lparr>ps_rm := ScheduleInst (ps_rm s3)\<rparr>)"
  from ok have in1: "view_in (ps_rm s)" "view_known C (ps_rm s)" "omap_ok (decodePool (resView (ps_rm s)))"
    by (simp_all add: pass_start_def)
  note i1 = ScheduleInst_in [OF in1]
  have "books (digsCfg fc) C (ps_rq s) (ScheduleInst (ps_rm s))"
    by (rule books_same [OF same_books_ScheduleInst]) (use ok in \<open>simp add: pass_start_def\<close>)
  then have ok2: "pass_ok fc C ?reqs s2"
    using ok i1 pools_in_load [OF _ i1(1,3), of "ps_pool s" PREFILL]
    by (simp add: pass_ok_def pass_start_def s2_def load_def set_Reordering distinct_Reordering)
  have s3: "s3 = prefill_loop srt fc now ?reqs s2" by (simp add: s3_def SchedulePrefill_def s2_def load_def)
  from prefill_loop_ok [OF srt ok2, of now] have ok3: "pass_ok fc C (ps_sched s3) s3"
    and sv: "same_view (ps_rm s2) (ps_rm s3)" by (simp_all add: s3)
  from prefill_loop_queue [of srt fc now ?reqs s2] obtain m where
    alloc3: "ps_alloc s3 = filter (\<lambda>a. state (reqHeap (ps_rq s) a) = SCHEDULING) (take m ?reqs)"
    and sched3: "ps_sched s3 = drop m ?reqs"
    using ok by (auto simp: s3 s2_def load_def pass_start_def)
  have in3: "view_in (ps_rm s3)" "view_known C (ps_rm s3)" "omap_ok (decodePool (resView (ps_rm s3)))"
    using i1 sv by (simp_all add: same_view_transfer [OF sv] s2_def load_def) (simp add: same_view_def)
  note i3 = ScheduleInst_in [OF in3]
  have same3: "same_books (ps_rm s3) (ScheduleInst (ps_rm s3))" by (rule same_books_ScheduleInst)
  have lt3: "\<forall>a \<in> set (ps_alloc s3). a < nextReq (ps_rq s3)"
    using ok3 by (auto simp: pass_ok_def placed_p_def books_def rq_ok_def)
  have "placed_p (ScheduleInst (ps_rm s3)) r = placed_p (ps_rm s3) r" for r
    using same3 i3(4) by (simp add: placed_p_def same_books_def)
  then have ok4: "decode_ok fc C [] (ps_alloc s3) s4"
    using ok3 lt3 i3 books_same [OF same3] pools_in_load [OF _ i3(1,3), of "OffloadResourceView (ps_pool s3)" DECODE]
    by (simp add: decode_ok_def pass_ok_def s4_def load_def offload_def ball_Un)
  from decode_loop_ok [OF srt w ok4, of now] obtain s5
    where s5: "decode_loop srt fc now [] (ps_alloc s3) s4 = Some s5" and ok5: "decode_ok fc C (ps_alloc s5) [] s5"
      and sv5: "same_view (ps_rm s4) (ps_rm s5)"
      and ms: "mset (ps_alloc s5 @ ps_sched s5) = mset (ps_alloc s3 @ ps_sched s4)"
      and fr5: "pass_frame (ps_rq s4) (ps_rq s5)" by auto
  have sched4: "ps_sched s4 = drop m ?reqs" by (simp add: s4_def load_def offload_def sched3)
  have set5: "set (ps_alloc s5 @ ps_sched s5) = set (ps_alloc s3 @ ps_sched s4)"
    by (metis ms set_mset_mset)
  have set_reqs: "set (take m ?reqs) \<union> set (drop m ?reqs) = set (ps_sched s)"
    by (metis append_take_drop_id set_append set_Reordering)
  have "Scheduling srt fc now s = Some (offload s5)"
    using s5 by (simp add: Scheduling_def Let_def ScheduleDecode_def s4_def s3_def s2_def load_def offload_def)
  moreover have "set (ps_alloc s5 @ ps_sched s5) \<subseteq> set (ps_sched s)"
    using set_reqs unfolding set5 alloc3 sched4 by auto
  moreover have "\<forall>a \<in> set (ps_sched s). state (reqHeap (ps_rq s) a) = SCHEDULING \<longrightarrow> a \<in> set (ps_alloc s5 @ ps_sched s5)"
    using set_reqs unfolding set5 alloc3 sched4 by auto
  moreover have "same_books_map (ps_rm s) (ps_rm s5)"
    using sv5 sv same3 same_books_ScheduleInst [of "ps_rm s"]
    by (simp add: same_books_map_def same_view_def same_books_def s4_def s2_def load_def)
  moreover have "pass_frame (ps_rq s) (ps_rq s5)"
    using pass_frame_trans [OF prefill_loop_frame [of s2 srt fc now ?reqs, folded s3]] fr5
    by (simp add: s4_def s2_def load_def offload_def)
  ultimately have "Scheduling srt fc now s = Some (offload s5) \<and> pass_end fc C s (offload s5)"
    using ok5 by (simp add: pass_end_def decode_ok_def offload_def OffloadResourceView_def)
  then show ?thesis by blast
qed

end
