(* ===== verification/Global_Scheduler.thy ===== *)
theory Global_Scheduler
  imports Scheduling_Pass
begin

text \<open>
  \<^verbatim>\<open>coordinator/digs_scheduler/global_scheduler.{h,cpp}\<close>, the blocking queue it uses
  (\<^verbatim>\<open>common/digs/blocking_queue.h\<close>) and the facade \<^verbatim>\<open>digs_scheduler_impl.cpp\<close>. One round of
  the body of the scheduler thread, one round of the notification thread and each client call is
  a function on the state \<open>digs\<close>; a run interleaves them in any order at that granularity.
\<close>

record gs_cfg =
  fwCfg :: fw_cfg
  maxScheduleCount :: nat

record digs =
  requestManager :: RequestManager
  resourceManager :: ResourceManager
  selectPool :: SelectPool
  schedulingReqs :: "addr list"
  allocatedReqs :: "addr list"
  notifyQueue :: "addr list"
  requestUpdated :: bool
  schedulerTerminate :: bool
  callbackSet :: bool

text \<open>The constructor; it installs the release processor and the wake-up in the request manager.\<close>

definition new_digs :: "(addr \<Rightarrow> ResourceInfo) \<Rightarrow> u64 \<Rightarrow> digs" where
  "new_digs h maxSummary = \<lparr>requestManager = new_RequestManager maxSummary,
     resourceManager = new_ResourceManager h, selectPool = \<lparr>sp_prefill = [], sp_decode = []\<rparr>,
     schedulingReqs = [], allocatedReqs = [], notifyQueue = [], requestUpdated = False,
     schedulerTerminate = True, callbackSet = False\<rparr>"

subsection \<open>The blocking queue\<close>

definition Push :: "'a \<Rightarrow> 'a list \<Rightarrow> 'a list" where
  "Push x queue = queue @ [x]"

text \<open>\<open>Take\<close> waits for an entry: \<^const>\<open>None\<close> while the queue is empty.\<close>

definition Take :: "'a list \<Rightarrow> ('a \<times> 'a list) option" where
  "Take queue = (case queue of [] \<Rightarrow> None | x # xs \<Rightarrow> Some (x, xs))"

subsection \<open>The scheduler thread\<close>

text \<open>The queue holds no null pointers, so the loop moves every entry.\<close>

definition ProcessAllocatedRequests :: "digs \<Rightarrow> digs" where
  "ProcessAllocatedRequests s =
     s\<lparr>notifyQueue := fold Push (allocatedReqs s) (notifyQueue s), allocatedReqs := []\<rparr>"

definition ReleaseAllocation :: "addr list \<Rightarrow> digs \<Rightarrow> digs" where
  "ReleaseAllocation endedReqs s =
     (let (q, rm) = fold release_both endedReqs (requestManager s, resourceManager s)
      in s\<lparr>requestManager := q, resourceManager := rm\<rparr>)"

definition run_scheduling :: "sort_fn \<Rightarrow> gs_cfg \<Rightarrow> u64 \<Rightarrow> digs \<Rightarrow> digs option" where
  "run_scheduling srt gc now s =
     map_option (\<lambda>p. s\<lparr>requestManager := ps_rq p, resourceManager := ps_rm p, selectPool := ps_pool p,
                       schedulingReqs := ps_sched p, allocatedReqs := ps_alloc p\<rparr>)
       (Scheduling srt (fwCfg gc) now
          \<lparr>ps_rq = requestManager s, ps_rm = resourceManager s, ps_pool = selectPool s,
           ps_sched = schedulingReqs s, ps_alloc = allocatedReqs s\<rparr>)"

definition process_release :: "digs \<Rightarrow> digs" where
  "process_release s =
     (let (_, q, rm) = ProcessRelease True (requestManager s, resourceManager s)
      in s\<lparr>requestManager := q, resourceManager := rm\<rparr>)"

definition process_ended :: "digs \<Rightarrow> digs" where
  "process_ended s =
     (let (endedReqs, q) = ProcessEndedReq (requestManager s)
      in ReleaseAllocation endedReqs (s\<lparr>requestManager := q\<rparr>))"

definition clear_view :: "digs \<Rightarrow> digs" where
  "clear_view s = s\<lparr>resourceManager := ClearView (resourceManager s)\<rparr>"

text \<open>
  One round of \<^verbatim>\<open>SchedulerThread\<close>, with the outcome of the two timed locks as arguments
  (\<open>locks\<close> for \<^verbatim>\<open>PullRequest\<close>, \<open>owns_lock\<close> for \<^verbatim>\<open>UpdateResourceView\<close>). \<^const>\<open>None\<close> is a null
  dereference inside one of the calls.
\<close>

definition scheduler_round :: "sort_fn \<Rightarrow> gs_cfg \<Rightarrow> u64 \<Rightarrow> nat \<Rightarrow> bool \<Rightarrow> digs \<Rightarrow> digs option" where
  "scheduler_round srt gc now locks owns_lock s =
     (let (sched, q) = PullRequest locks (maxScheduleCount gc) (schedulingReqs s) (requestManager s);
          s1 = s\<lparr>requestManager := q, schedulingReqs := sched\<rparr>
      in if sched = [] \<and> \<not> requestUpdated s1 then Some s1
         else case UpdateResourceView (digsCfg (fwCfg gc)) owns_lock (resourceManager s1) of
             None \<Rightarrow> None
           | Some (_, rm) \<Rightarrow>
               let s2 = s1\<lparr>requestUpdated := False, resourceManager := rm\<rparr>
               in if view_Empty rm then Some s2
                  else map_option (clear_view \<circ> process_ended \<circ> ProcessAllocatedRequests)
                         (run_scheduling srt gc now (process_release s2)))"

subsection \<open>The notification thread\<close>

text \<open>
  One round of \<^verbatim>\<open>NotifyOutsideThread\<close>: \<open>accepted\<close> is whether the registered callback returned OK
  (a missing callback counts as OK). \<^const>\<open>None\<close>: the thread waits.
\<close>

definition notify_round :: "bool \<Rightarrow> digs \<Rightarrow> digs option" where
  "notify_round accepted s = (case Take (notifyQueue s) of
       None \<Rightarrow> None
     | Some (a, rest) \<Rightarrow>
         (let s1 = s\<lparr>notifyQueue := rest\<rparr>; q = requestManager s in
          Some (case state (reqHeap q a) of
              WAITING \<Rightarrow> s1\<lparr>schedulingReqs := schedulingReqs s @ [a]\<rparr>
            | SCHEDULING \<Rightarrow> s1\<lparr>schedulingReqs := schedulingReqs s @ [a]\<rparr>
            | INVALID \<Rightarrow> s1
            | _ \<Rightarrow>
                (if accepted \<or> \<not> callbackSet s then s1
                 else case UpdateState2Scheduling (reqHeap q a) of
                     (OK, r) \<Rightarrow> s1\<lparr>requestManager := q\<lparr>reqHeap := (reqHeap q)(a := r)\<rparr>,
                                   schedulingReqs := a # schedulingReqs s\<rparr>
                   | (_, r) \<Rightarrow> s1))))"

subsection \<open>Start and stop\<close>

definition Start :: "digs \<Rightarrow> digs" where
  "Start s = (if schedulerTerminate s then s\<lparr>schedulerTerminate := False\<rparr> else s)"

definition Stop :: "u64 \<Rightarrow> digs \<Rightarrow> digs" where
  "Stop now s =
     (let q = requestManager s; a = nextReq q in
      s\<lparr>schedulerTerminate := True,
        requestManager := q\<lparr>reqHeap := (reqHeap q)(a := empty_DIGSRequest now), nextReq := Suc a\<rparr>,
        notifyQueue := Push a (notifyQueue s)\<rparr>)"

definition RegisterNotifyAllocation :: "digs \<Rightarrow> digs" where
  "RegisterNotifyAllocation s = Start (s\<lparr>callbackSet := True\<rparr>)"

subsection \<open>Client calls (digs_scheduler_impl.cpp)\<close>

text \<open>The two \<^verbatim>\<open>ProcReq\<close> overloads on a prompt scale its length by a configured weight; converting a
  value out of range is undefined, \<^const>\<open>None\<close>.\<close>

definition prompt_input_len :: "gs_cfg \<Rightarrow> u64 \<Rightarrow> u64 option" where
  "prompt_input_len gc promptLen =
     f64_to_u64 (f64_ceil (f64_mul (f64_of_u64 promptLen) (resWeight (metaCfg (digsCfg (fwCfg gc))) ! 1)))"

definition ProcReq_tokens :: "u64 \<Rightarrow> string \<Rightarrow> u64 \<Rightarrow> digs \<Rightarrow> Status \<times> digs" where
  "ProcReq_tokens now rid tokens s =
     (let (st, q) = AddReq (Some (new_DIGSRequest now rid tokens)) (requestManager s)
      in (st, s\<lparr>requestManager := q\<rparr>))"

definition ProcReq :: "gs_cfg \<Rightarrow> u64 \<Rightarrow> string \<Rightarrow> u64 \<Rightarrow> digs \<Rightarrow> (Status \<times> digs) option" where
  "ProcReq gc now rid promptLen s =
     map_option (\<lambda>len. ProcReq_tokens now rid len s) (prompt_input_len gc promptLen)"

text \<open>A release notification sets \<^verbatim>\<open>requestUpdated_\<close>.\<close>

definition DS_UpdateReq :: "string \<Rightarrow> DIGSReqStage \<Rightarrow> u64 \<Rightarrow> u64 \<Rightarrow> u64 \<Rightarrow> digs \<Rightarrow> Status \<times> digs" where
  "DS_UpdateReq rid stage pt dt outLen s =
     (let (st, notify, q) = (case stage of
          PREFILL \<Rightarrow> UpdateReq rid pt (requestManager s)
        | DECODE \<Rightarrow> RemoveReq rid pt dt outLen (requestManager s))
      in (st, s\<lparr>requestManager := q, requestUpdated := requestUpdated s \<or> notify\<rparr>))"

definition DS_RegisterInstance :: "gs_cfg \<Rightarrow> DIGSInstanceStaticInfo list \<Rightarrow> digs \<Rightarrow> (nat \<times> digs) option" where
  "DS_RegisterInstance gc ins s =
     map_option (\<lambda>(n, rm). (n, s\<lparr>resourceManager := rm\<rparr>))
       (RegisterInstance (digsCfg (fwCfg gc)) ins (resourceManager s))"

definition on_resources :: "(ResourceManager \<Rightarrow> nat \<times> ResourceManager) \<Rightarrow> digs \<Rightarrow> nat \<times> digs" where
  "on_resources f s = (let (n, rm) = f (resourceManager s) in (n, s\<lparr>resourceManager := rm\<rparr>))"

definition DS_UpdateInstance :: "gs_cfg \<Rightarrow> DIGSInstanceDynamicInfo list \<Rightarrow> digs \<Rightarrow> nat \<times> digs" where
  "DS_UpdateInstance gc ins = on_resources (UpdateInstance (digsCfg (fwCfg gc)) ins)"

definition DS_CloseInstance :: "u64 list \<Rightarrow> digs \<Rightarrow> nat \<times> digs" where
  "DS_CloseInstance ids = on_resources (CloseInstance ids)"

definition DS_ActivateInstance :: "u64 list \<Rightarrow> digs \<Rightarrow> nat \<times> digs" where
  "DS_ActivateInstance ids = on_resources (ActivateInstance ids)"

definition DS_RemoveInstance :: "u64 list \<Rightarrow> digs \<Rightarrow> nat \<times> digs" where
  "DS_RemoveInstance ids = on_resources (RemoveInstance ids)"

definition QueryRequestSummary :: "digs \<Rightarrow> DIGSRequestSummary option \<times> digs" where
  "QueryRequestSummary s =
     (let q = CalculateSummary (requestManager s)
      in (case (f64_to_u64 (f64_of_u64 (avgInputLength q)), f64_to_u64 (f64_of_u64 (avgOutputLength q))) of
            (Some i, Some j) \<Rightarrow> Some \<lparr>inputLength = i, outputLength = j\<rparr>
          | _ \<Rightarrow> None, s\<lparr>requestManager := q\<rparr>))"

end
