(* ===== verification/Books_Steps.thy ===== *)
theory Books_Steps
  imports Global_Scheduler
begin

text \<open>
  The books (\<^const>\<open>books\<close>) under the operations outside a scheduling pass: reports and
  registration of instances, removal, new requests, and building and clearing the view.
\<close>

subsection \<open>Changes of requests that no holding depends on\<close>

definition same_reqs :: "RequestManager \<Rightarrow> RequestManager \<Rightarrow> bool" where
  "same_reqs q q' \<longleftrightarrow> nextReq q' = nextReq q \<and> (\<forall>a. scheduleInfo (reqHeap q' a) = scheduleInfo (reqHeap q a)
     \<and> inputLen (reqHeap q' a) = inputLen (reqHeap q a))"

lemma same_reqs_refl [simp]: "same_reqs q q"
  by (simp add: same_reqs_def)

lemma same_reqs_trans: "same_reqs q1 q2 \<Longrightarrow> same_reqs q2 q3 \<Longrightarrow> same_reqs q1 q3"
  by (simp add: same_reqs_def)

lemma same_reqs_holds: "same_reqs q q' \<Longrightarrow> holds st i (reqHeap q' a) = holds st i (reqHeap q a)"
  by (simp add: same_reqs_def holds_def)

lemma books_same_reqs:
  assumes s: "same_reqs q q'" and b: "books cfg C q rm"
  shows "books cfg C q' rm"
proof -
  have gen: "GenerateDemand cfg (reqHeap q' a) = GenerateDemand cfg (reqHeap q a)" for a
    using s by (intro GenerateDemand_cong) (simp add: same_reqs_def)
  note h = same_reqs_holds [OF s]
  have held: "held cfg q' st i k = held cfg q st i k" for st i k
  proof -
    have "holding cfg st i k (reqHeap q' a) = holding cfg st i k (reqHeap q a)" for a
      by (simp add: holding_def h gen cong: if_cong)
    with s show ?thesis by (simp add: held_def same_reqs_def)
  qed
  have at: "books_at cfg q' rm i = books_at cfg q rm i" for i
    by (simp add: books_at_def h held cong: option.case_cong)
  show ?thesis using b s by (simp add: books_def fits_def rq_ok_def at gen) (simp add: same_reqs_def)
qed

lemma same_reqs_upd:
  "scheduleInfo r = scheduleInfo (reqHeap q a) \<Longrightarrow> inputLen r = inputLen (reqHeap q a) \<Longrightarrow>
     same_reqs q (q\<lparr>reqHeap := (reqHeap q)(a := r)\<rparr>)"
  by (simp add: same_reqs_def)

subsection \<open>Changes of instances\<close>

definition same_ledger :: "ResourceManager \<Rightarrow> ResourceManager \<Rightarrow> bool" where
  "same_ledger rm rm' \<longleftrightarrow> omap_ok (resourceMap rm') \<and> nextRes rm' = nextRes rm
     \<and> (\<forall>i. map_option fst (map_of (resourceMap rm') i) = map_option fst (map_of (resourceMap rm) i))
     \<and> (\<forall>a. st_id (static_of rm' a) = st_id (static_of rm a) \<and> resId (sched_of rm' a) = resId (sched_of rm a)
        \<and> (\<forall>st. stage_demands st (sched_of rm' a) = stage_demands st (sched_of rm a)))"

lemma same_ledger_addr:
  "same_ledger rm rm' \<Longrightarrow> map_of (resourceMap rm') i = Some (a, l) \<Longrightarrow> \<exists>l'. map_of (resourceMap rm) i = Some (a, l')"
  unfolding same_ledger_def by (metis (no_types, lifting) fst_conv map_option_eq_Some prod.collapse)

lemma same_ledger_None:
  "same_ledger rm rm' \<Longrightarrow> map_of (resourceMap rm') i = None \<longleftrightarrow> map_of (resourceMap rm) i = None"
  unfolding same_ledger_def by (metis option.map_disc_iff)

lemma rm_ok_same_ledger: "same_ledger rm rm' \<Longrightarrow> rm_ok cfg rm \<Longrightarrow> rm_ok cfg rm'"
proof -
  assume s: "same_ledger rm rm'" and rm: "rm_ok cfg rm"
  show "rm_ok cfg rm'" unfolding rm_ok_def
  proof (intro conjI allI impI)
    show "omap_ok (resourceMap rm')" using s by (simp add: same_ledger_def)
    fix i a l assume "map_of (resourceMap rm') i = Some (a, l)"
    from same_ledger_addr [OF s this] obtain l' where "map_of (resourceMap rm) i = Some (a, l')" ..
    with rm have "a < nextRes rm" "inst_ok cfg i (resHeap rm a)" by (auto simp: rm_ok_def)
    with s show "a < nextRes rm'" "inst_ok cfg i (resHeap rm' a)"
      by (simp_all add: same_ledger_def inst_ok_def)
  qed
qed

lemma books_same_ledger:
  assumes s: "same_ledger rm rm'" and b: "books cfg C q rm"
  shows "books cfg C q rm'"
proof -
  have "rm_ok cfg rm'" using rm_ok_same_ledger [OF s] b by (simp add: books_def)
  moreover have "books_at cfg q rm' i" if "i \<notin> C" for i
  proof (cases "map_of (resourceMap rm') i")
    case None
    with same_ledger_None [OF s] have "map_of (resourceMap rm) i = None" by blast
    with b that None show ?thesis by (auto simp: books_def books_at_def dest!: spec [of _ i])
  next
    case (Some al)
    obtain a l where al: "al = (a, l)" by force
    from same_ledger_addr [OF s Some [unfolded al]] obtain l' where "map_of (resourceMap rm) i = Some (a, l')" ..
    with b that s Some al show ?thesis by (auto simp: books_def books_at_def same_ledger_def dest!: spec [of _ i])
  qed
  ultimately show ?thesis using b by (simp add: books_def)
qed

lemma same_ledger_trans: "same_ledger rm1 rm2 \<Longrightarrow> same_ledger rm2 rm3 \<Longrightarrow> same_ledger rm1 rm3"
  by (simp add: same_ledger_def)

lemma same_ledger_refl: "rm_ok cfg rm \<Longrightarrow> same_ledger rm rm"
  by (simp add: same_ledger_def rm_ok_def)

lemma same_ledger_upd:
  assumes "omap_ok (resourceMap rm)" "\<And>r. st_id (ri_static (f r)) = st_id (ri_static r)"
    "\<And>r. resId (ri_sched (f r)) = resId (ri_sched r)"
    "\<And>r st. stage_demands st (ri_sched (f r)) = stage_demands st (ri_sched r)"
  shows "same_ledger rm (upd_res a f rm)"
  using assms by (simp add: same_ledger_def upd_res_def)

lemma same_ledger_update_one:
  assumes "rm_ok cfg rm"
  shows "same_ledger rm (snd (update_one cfg ins rm))"
proof (cases "map_of (resourceMap rm) (dy_id ins)")
  case None
  then show ?thesis by (simp add: update_one_def same_ledger_refl [OF assms])
next
  case (Some al)
  obtain a l where al: "al = (a, l)" by force
  have ok: "omap_ok (resourceMap rm)" using assms by (simp add: rm_ok_def)
  have st: "stage_demands st (CountAllocateUnmatch b s) = stage_demands st s"
    "resId (CountAllocateUnmatch b s) = resId s" for st b s
    by (cases st; simp add: CountAllocateUnmatch_def stage_demands_def)+
  show ?thesis using Some al ok
    by (auto simp: update_one_def same_ledger_def omap_simps upd_res_def UpdateScheduleLoad_def UpdateStaticInfo_def st)
qed

lemma same_ledger_closed_one:
  assumes "rm_ok cfg rm"
  shows "same_ledger rm (snd (set_closed_one c i rm))"
proof (cases "map_of (resourceMap rm) i")
  case None
  then show ?thesis by (simp add: set_closed_one_def same_ledger_refl [OF assms])
next
  case (Some al)
  have "omap_ok (resourceMap rm)" using assms by (simp add: rm_ok_def)
  with Some show ?thesis by (cases al)
    (auto simp: set_closed_one_def SI_CloseInstance_def SI_ActivateInstance_def stage_demands_def
        upd_sched_def intro!: same_ledger_upd split: DIGSReqStage.split)
qed

lemma count_loop_inv:
  "P rm \<Longrightarrow> (\<And>x rm. x \<in> set xs \<Longrightarrow> P rm \<Longrightarrow> P (snd (f x rm))) \<Longrightarrow> P (snd (count_loop f xs rm))"
  by (induction xs arbitrary: rm) (auto simp: split_beta Let_def)

subsection \<open>Registration and removal\<close>

lemma inst_ok_new:
  assumes "new_ResourceInfo cfg ins rate = Some i" "st_id ins \<noteq> ILLEGAL_INSTANCE_ID"
  shows "inst_ok cfg (st_id ins) i" and "stage_demands st (ri_sched i) = MetaResource_fill (metaCfg cfg) 0"
    and "isInstanceClosed (ri_sched i) = False"
proof -
  from assms(1) obtain p q where i: "ri_sched i = snd (UpdateRole (st_role ins)
      (SetMaxRes p q (new_ResScheduleInfo (metaCfg cfg) (st_id ins) (st_label ins))))" "ri_static i = ins"
    by (auto simp: new_ResourceInfo_def Let_def split: option.splits)
  show d: "stage_demands st (ri_sched i) = MetaResource_fill (metaCfg cfg) 0" for st
    by (cases st) (simp_all add: stage_demands_def i SetMaxRes_def new_ResScheduleInfo_def)
  show "inst_ok cfg (st_id ins) i" unfolding inst_ok_def d using assms(2)
    by (simp add: i SetMaxRes_def new_ResScheduleInfo_def MetaResource_fill_def MetaResource_of_def)
  show "isInstanceClosed (ri_sched i) = False"
    by (simp add: i SetMaxRes_def new_ResScheduleInfo_def)
qed

lemma books_register_one:
  assumes b: "books cfg C q rm" and id: "st_id ins \<noteq> ILLEGAL_INSTANCE_ID"
    and r: "register_one cfg ins rm = Some (ok, rm')"
  shows "books cfg C q rm'"
proof -
  let ?a = "nextRes rm"
  from r obtain i where i: "new_ResourceInfo cfg ins (resLimitRate cfg) = Some i"
    and rm': "rm' = rm\<lparr>resHeap := (resHeap rm)(?a := i), nextRes := Suc ?a,
       resourceMap := omap_insert (st_id ins) (?a, new_ResourceLoad) (resourceMap rm)\<rparr>"
    by (auto simp: register_one_def Let_def split: option.splits)
  note new = inst_ok_new [OF i id]
  from b have rm: "rm_ok cfg rm" by (simp add: books_def)
  then have addr: "a < ?a" if "map_of (resourceMap rm) j = Some (a, l)" for j a l
    using that by (auto simp: rm_ok_def)
  have "rm_ok cfg rm'" using rm new(1)
    by (auto simp: rm_ok_def rm' omap_simps less_SucI split: if_splits)
  moreover have "books_at cfg q rm' j" if j: "j \<notin> C" for j
  proof (cases "map_of (resourceMap rm) j")
    case (Some al)
    obtain a l where al: "al = (a, l)" by force
    with Some addr have "a \<noteq> ?a" by fastforce
    with b j Some al show ?thesis
      by (auto simp: books_def books_at_def rm' omap_simps split: if_splits dest!: spec [of _ j])
  next
    case None
    with b j have none: "\<And>st a. \<not> holds st j (reqHeap q a)" by (auto simp: books_def books_at_def dest!: spec [of _ j])
    then have "held cfg q st j k = 0" for st k by (simp add: held_def holding_def)
    with None none show ?thesis
      by (cases "j = st_id ins")
         (auto simp: books_at_def rm' omap_simps new(2) MetaResource_fill_def MetaResource_of_def)
  qed
  ultimately show ?thesis using b by (simp add: books_def)
qed

lemma books_remove_one:
  assumes b: "books cfg C q rm" and i: "i \<in> C"
  shows "books cfg C q (snd (remove_one i rm))"
proof -
  have ok: "omap_ok (resourceMap rm)" using b by (simp add: books_def rm_ok_def)
  have "rm_ok cfg (snd (remove_one i rm))"
    using b ok by (auto simp: books_def rm_ok_def remove_one_def omap_simps split: option.splits if_splits)
  moreover have "books_at cfg q (snd (remove_one i rm)) j = books_at cfg q rm j" if "j \<notin> C" for j
    using that i ok by (auto simp: books_at_def remove_one_def omap_simps split: option.splits)
  ultimately show ?thesis using b by (simp add: books_def)
qed

subsection \<open>New requests\<close>

lemma books_new_request:
  assumes b: "books cfg C q rm" and r: "scheduleInfo r = None"
    and q': "q' = q\<lparr>reqHeap := (reqHeap q)(nextReq q := r), nextReq := Suc (nextReq q)\<rparr>" and f: "fits cfg q'"
  shows "books cfg C q' rm"
proof -
  have old: "scheduleInfo (reqHeap q (nextReq q)) = None"
    using b by (cases "scheduleInfo (reqHeap q (nextReq q))") (auto simp: books_def rq_ok_def)
  have h: "holds st i (reqHeap q' a) = holds st i (reqHeap q a)" for st i a
    by (simp add: q' holds_def old r)
  have "holding cfg st i k (reqHeap q' a) = holding cfg st i k (reqHeap q a)" if "a < nextReq q" for st i k a
    using that by (simp add: q')
  moreover have "holding cfg st i k (reqHeap q' (nextReq q)) = 0" for st i k
    by (simp add: q' holding_def holds_def r)
  ultimately have held: "held cfg q' st i k = held cfg q st i k" for st i k
    by (simp add: held_def q')
  have "books_at cfg q' rm i = books_at cfg q rm i" for i
    by (simp add: books_at_def h held cong: option.case_cong)
  moreover have "rq_ok cfg q'" using b r by (auto simp: books_def rq_ok_def q' less_Suc_eq)
  ultimately show ?thesis using b f by (simp add: books_def)
qed

subsection \<open>Building and clearing the view\<close>

lemma same_books_fold:
  assumes "\<And>x rm. same_books rm (f x rm)"
  shows "same_books rm (fold f xs rm)"
  by (induction xs arbitrary: rm) (auto intro: same_books_trans [OF assms])

lemma same_books_ClearView: "same_books rm (ClearView rm)"
proof -
  have "same_books rm (fold (\<lambda>ri. upd_sched (fst ri) CheckOverload) (rv_view (resView rm)) rm)"
    by (rule same_books_fold) (rule same_books_upd_sched; simp)
  then show ?thesis by (simp add: ClearView_def same_books_def)
qed

lemma ClearView_view [simp]: "resView (ClearView rm) = new_ResourceViewManager"
  by (simp add: ClearView_def)

text \<open>The entry that \<^const>\<open>AddResInfo\<close> makes in the view, once the limits are revised.\<close>

lemma AddResInfo_ok:
  assumes "AddResInfo cfg ri rm = Some rm'"
  shows "same_books rm rm'"
    and "scheduleInfos (resView rm') =
           omap_insert (resId (sched_of rm (fst ri))) (fst ri) (scheduleInfos (resView rm))"
    and "in_map rm ri \<Longrightarrow> view_in rm \<Longrightarrow> view_in rm'"
    and "omap_ok (decodePool (resView rm)) \<Longrightarrow> omap_ok (decodePool (resView rm'))"
    and "rv_view (resView rm') = rv_view (resView rm) @ [ri]"
proof -
  from assms obtain b i where rev: "ReviseMaxResource cfg (resHeap rm (fst ri)) = Some (b, i)"
    by (auto simp: AddResInfo_def Let_def split: option.splits)
  note fr = ReviseMaxResource_frame [OF rev]
  define rm1 where "rm1 = rm\<lparr>resView := (resView rm)\<lparr>rv_view := rv_view (resView rm) @ [ri]\<rparr>,
     resHeap := (resHeap rm)(fst ri := i)\<rparr>"
  have sd: "stage_demands st (ri_sched i) = stage_demands st (sched_of rm (fst ri))" for st
    using fr by (cases st) (simp_all add: stage_demands_def)
  have sb1: "same_books rm rm1" using fr by (simp add: same_books_def rm1_def sd)
  have duty: "same_books rm (upd_sched a (snd \<circ> UpdateDuty d) rm1)" for a d
    by (rule same_books_trans [OF sb1]) (rule same_books_upd_sched; simp)
  have v1: "prefillPool (resView rm1) = prefillPool (resView rm)" "decodePool (resView rm1) = decodePool (resView rm)"
    "globalPool (resView rm1) = globalPool (resView rm)" "scheduleInfos (resView rm1) = scheduleInfos (resView rm)"
    "rv_view (resView rm1) = rv_view (resView rm) @ [ri]"
    by (simp_all add: rm1_def)
  define rm2 where rm2: "rm2 = (case st_label (ri_static i) of
                  PREFILL_STATIC \<Rightarrow> Add2PrefillPool ri (upd_sched (fst ri) (snd \<circ> UpdateDuty PREFILLING) rm1)
                | DECODE_STATIC \<Rightarrow> Add2DecodePool ri (st_groupId (ri_static i))
                      (upd_sched (fst ri) (snd \<circ> UpdateDuty DECODING) rm1)
                | PREFILL_PREFER \<Rightarrow> Add2GlobalPool ri rm1
                | DECODE_PREFER \<Rightarrow> Add2GlobalPool ri rm1
                | FLEX_STATIC \<Rightarrow> rm1)"
  have rm': "rm' = rm2\<lparr>resView := (resView rm2)\<lparr>scheduleInfos :=
        omap_insert (resId (ri_sched i)) (fst ri) (scheduleInfos (resView rm2))\<rparr>\<rparr>"
    using assms unfolding AddResInfo_def Let_def rev option.case prod.case rm2 rm1_def by simp
  have sb2: "same_books rm rm2" unfolding rm2
    by (auto intro: same_books_view duty sb1 split: DIGSInstanceLabel.split)
  then show sb: "same_books rm rm'" by (simp add: rm' same_books_def)
  have "scheduleInfos (resView rm2) = scheduleInfos (resView rm)" "rv_view (resView rm2) = rv_view (resView rm) @ [ri]"
    by (simp_all add: rm2 Add2PrefillPool_def Add2DecodePool_def Add2GlobalPool_def v1 split: DIGSInstanceLabel.split)
  then show "scheduleInfos (resView rm') =
      omap_insert (resId (sched_of rm (fst ri))) (fst ri) (scheduleInfos (resView rm))"
    "rv_view (resView rm') = rv_view (resView rm) @ [ri]"
    using fr by (simp_all add: rm')
  show "omap_ok (decodePool (resView rm)) \<Longrightarrow> omap_ok (decodePool (resView rm'))"
    by (auto simp: rm' rm2 Add2PrefillPool_def Add2DecodePool_def Add2GlobalPool_def Add2GroupedPool_def v1
        split: DIGSInstanceLabel.split)
  show "view_in rm'" if "in_map rm ri" "view_in rm"
  proof -
    have same: "in_map rm' = in_map rm" "groups_in rm' = groups_in rm"
      using sb by (auto simp: same_books_def intro!: same_static_in)
    have g: "st_groupId (ri_static i) = st_groupId (static_of rm (fst ri))" using fr by simp
    have vi: "view_in rm' \<longleftrightarrow> (\<forall>ri \<in> set (prefillPool (resView rm')) \<union> set (globalPool (resView rm')). in_map rm ri)
       \<and> groups_in rm (decodePool (resView rm'))" by (simp add: view_in_def same)
    show ?thesis using that groups_in_add [of rm "decodePool (resView rm)" ri] unfolding vi
      by (auto simp: view_in_def rm' rm2 Add2PrefillPool_def Add2DecodePool_def Add2GlobalPool_def v1 g
          split: DIGSInstanceLabel.split)
  qed
qed

text \<open>The loop of \<^const>\<open>UpdateResourceView\<close>: \<open>seen\<close> is the part of the instance map behind it.\<close>

definition view_upto :: "ResourceManager \<Rightarrow> (u64 \<times> ResInfo) list \<Rightarrow> ResourceManager \<Rightarrow> bool" where
  "view_upto rm0 seen rm \<longleftrightarrow> same_books rm0 rm \<and> view_in rm \<and> omap_ok (decodePool (resView rm))
     \<and> (\<forall>i. map_of (scheduleInfos (resView rm)) i =
          (case map_of seen i of None \<Rightarrow> None
           | Some ri \<Rightarrow> if isInstanceClosed (sched_of rm0 (fst ri)) then None else Some (fst ri)))
     \<and> rv_view (resView rm) = map snd (filter (\<lambda>e. \<not> isInstanceClosed (sched_of rm0 (fst (snd e)))) seen)"

lemma add_open_ok:
  assumes "rm_ok cfg rm0" "resourceMap rm0 = seen @ rest" "view_upto rm0 seen rm" "add_open cfg rest rm = Some rm'"
  shows "view_upto rm0 (seen @ rest) rm'"
  using assms(2-4)
proof (induction rest arbitrary: seen rm)
  case Nil
  then show ?case by simp
next
  case (Cons e rest)
  obtain i ri where e: "e = (i, ri)" by (cases e)
  let ?a = "fst ri"
  have ok: "omap_ok (resourceMap rm0)" using assms(1) by (simp add: rm_ok_def)
  from omap_ok_distinct [OF ok] have dist: "distinct (map fst (seen @ e # rest))" unfolding Cons.prems(1) .
  then have notin: "map_of seen i = None" by (simp add: e map_of_eq_None_iff)
  have entry: "map_of (resourceMap rm0) i = Some ri"
    using notin by (simp add: Cons.prems(1) e map_add_Some_iff)
  then have inst: "inst_ok cfg i (resHeap rm0 ?a)" using assms(1) by (cases ri) (simp add: rm_ok_def)
  have sb: "same_books rm0 rm" using Cons.prems(2) by (simp add: view_upto_def)
  have closed: "isInstanceClosed (sched_of rm ?a) = isInstanceClosed (sched_of rm0 ?a)"
    "resId (sched_of rm ?a) = i" using sb inst by (simp_all add: same_books_def inst_ok_def)
  have look: "map_of (seen @ [e]) j = (if j = i then Some ri else map_of seen j)" for j
    using notin by (auto simp: e map_add_def split: option.splits)
  have "\<exists>rm1. add_open cfg rest rm1 = Some rm' \<and> view_upto rm0 (seen @ [e]) rm1"
  proof (cases "isInstanceClosed (sched_of rm0 ?a)")
    case True
    have "view_upto rm0 (seen @ [e]) rm"
      using Cons.prems(2) True notin unfolding view_upto_def look by (auto simp: e)
    with Cons.prems(3) True closed e show ?thesis by auto
  next
    case False
    with Cons.prems(3) closed e obtain rm1 where add: "AddResInfo cfg ri rm = Some rm1"
      and rest: "add_open cfg rest rm1 = Some rm'" by (auto split: option.splits)
    note ad = AddResInfo_ok [OF add]
    have "in_map rm ri" using entry sb inst by (cases ri) (simp add: in_map_def same_books_def inst_ok_def)
    then have "view_upto rm0 (seen @ [e]) rm1"
      using Cons.prems(2) ad False notin closed same_books_trans [OF sb ad(1)]
      unfolding view_upto_def look by (auto simp: e omap_simps)
    with rest show ?thesis by blast
  qed
  then obtain rm1 where rm1: "add_open cfg rest rm1 = Some rm'" "view_upto rm0 (seen @ [e]) rm1" by blast
  have "view_upto rm0 ((seen @ [e]) @ rest) rm'"
    by (rule Cons.IH [OF _ rm1(2) rm1(1)]) (simp add: Cons.prems(1))
  then show ?case by simp
qed

lemma view_upto_start:
  "rm_ok cfg rm \<Longrightarrow> resView rm = new_ResourceViewManager \<Longrightarrow> view_upto rm [] rm"
  by (simp add: view_upto_def new_ResourceViewManager_def view_in_def groups_in_def)

definition all_open :: "u64 set \<Rightarrow> ResourceManager \<Rightarrow> bool" where
  "all_open C rm \<longleftrightarrow> (\<forall>i a l. i \<notin> C \<longrightarrow> map_of (resourceMap rm) i = Some (a, l) \<longrightarrow>
     \<not> isInstanceClosed (sched_of rm a))"

lemma view_upto_known:
  assumes "view_upto rm0 (resourceMap rm0) rm" "all_open C rm0"
  shows "view_known C rm"
  using assms unfolding view_known_def view_upto_def same_books_def all_open_def
  by (fastforce split: option.splits if_splits)

end
