(* ===== verification/Queues.thy ===== *)
theory Queues
  imports Books_Steps
begin

text \<open>
  The queues of the scheduler against the states of the requests: no request is in two queues, and
  every request that waits, is being scheduled or holds an allocation is where the scheduler looks
  for it.
\<close>

subsection \<open>Queues\<close>

text \<open>
  The queues against the states of the requests: \<open>W\<close> waiting, \<open>S\<close> scheduling, \<open>N\<close> to be notified,
  and the processing queue \<open>P\<close> that the release looks through.
\<close>

definition queues_ok :: "RequestManager \<Rightarrow> addr list \<Rightarrow> addr list \<Rightarrow> bool" where
  "queues_ok q S N \<longleftrightarrow>
     distinct (waitingQueue q @ S @ N)
     \<and> (\<forall>a \<in> set (waitingQueue q) \<union> set S \<union> set N \<union> set (processingQueue q) \<union> ran (reqId2Callback q). a < nextReq q)
     \<and> (\<forall>a \<in> set (waitingQueue q). state (reqHeap q a) = WAITING)
     \<and> (\<forall>a<nextReq q. state (reqHeap q a) = WAITING \<longrightarrow> a \<in> set (waitingQueue q))
     \<and> (\<forall>a<nextReq q. state (reqHeap q a) = SCHEDULING \<longrightarrow> a \<in> set (S @ N))
     \<and> (\<forall>a<nextReq q. state (reqHeap q a) \<in> {SCHEDULING, ALLOCATED, PREFILL_END} \<longrightarrow> a \<in> set (processingQueue q))
     \<and> (\<forall>a st i. holds st i (reqHeap q a) \<longrightarrow> a \<in> set (processingQueue q))
     \<and> (\<forall>a \<in> set N. state (reqHeap q a) = INVALID \<or> scheduleInfo (reqHeap q a) \<noteq> None)"

lemma queues_okI:
  assumes "distinct (waitingQueue q @ S @ N)"
    and "\<And>a. a \<in> set (waitingQueue q) \<union> set S \<union> set N \<union> set (processingQueue q) \<union> ran (reqId2Callback q) \<Longrightarrow> a < nextReq q"
    and "\<And>a. a \<in> set (waitingQueue q) \<Longrightarrow> state (reqHeap q a) = WAITING"
    and "\<And>a. a < nextReq q \<Longrightarrow> state (reqHeap q a) = WAITING \<Longrightarrow> a \<in> set (waitingQueue q)"
    and "\<And>a. a < nextReq q \<Longrightarrow> state (reqHeap q a) = SCHEDULING \<Longrightarrow> a \<in> set (S @ N)"
    and "\<And>a. a < nextReq q \<Longrightarrow> state (reqHeap q a) \<in> {SCHEDULING, ALLOCATED, PREFILL_END} \<Longrightarrow> a \<in> set (processingQueue q)"
    and "\<And>a st i. holds st i (reqHeap q a) \<Longrightarrow> a \<in> set (processingQueue q)"
    and "\<And>a. a \<in> set N \<Longrightarrow> state (reqHeap q a) = INVALID \<or> scheduleInfo (reqHeap q a) \<noteq> None"
  shows "queues_ok q S N"
  using assms unfolding queues_ok_def by blast

lemma queues_okD:
  assumes "queues_ok q S N"
  shows "distinct (waitingQueue q @ S @ N)"
    and "\<And>a. a \<in> set (waitingQueue q) \<union> set S \<union> set N \<union> set (processingQueue q) \<union> ran (reqId2Callback q) \<Longrightarrow> a < nextReq q"
    and "\<And>a. a \<in> set (waitingQueue q) \<Longrightarrow> state (reqHeap q a) = WAITING"
    and "\<And>a. a < nextReq q \<Longrightarrow> state (reqHeap q a) = WAITING \<Longrightarrow> a \<in> set (waitingQueue q)"
    and "\<And>a. a < nextReq q \<Longrightarrow> state (reqHeap q a) = SCHEDULING \<Longrightarrow> a \<in> set (S @ N)"
    and "\<And>a. a < nextReq q \<Longrightarrow> state (reqHeap q a) \<in> {SCHEDULING, ALLOCATED, PREFILL_END} \<Longrightarrow> a \<in> set (processingQueue q)"
    and "\<And>a st i. holds st i (reqHeap q a) \<Longrightarrow> a \<in> set (processingQueue q)"
    and "\<And>a. a \<in> set N \<Longrightarrow> state (reqHeap q a) = INVALID \<or> scheduleInfo (reqHeap q a) \<noteq> None"
  using assms unfolding queues_ok_def by blast+

text \<open>A change of the requests only: it must respect the queues request by request.\<close>

lemma queues_heap:
  assumes ok: "queues_ok q S N"
    and q': "nextReq q' = nextReq q" "waitingQueue q' = waitingQueue q" "processingQueue q' = processingQueue q"
      "ran (reqId2Callback q') \<subseteq> ran (reqId2Callback q)"
    and st: "\<And>a. state (reqHeap q' a) = state (reqHeap q a) \<or>
        (state (reqHeap q a) \<in> {SCHEDULING, ALLOCATED, PREFILL_END} \<and> state (reqHeap q' a) \<in> {ALLOCATED, PREFILL_END, DECODE_END})"
    and h: "\<And>a st i. a < nextReq q \<Longrightarrow> holds st i (reqHeap q' a) \<Longrightarrow> holds st i (reqHeap q a) \<or> state (reqHeap q a) = SCHEDULING"
    and si: "\<And>a. scheduleInfo (reqHeap q a) \<noteq> None \<Longrightarrow> scheduleInfo (reqHeap q' a) \<noteq> None"
    and out: "\<And>a. nextReq q \<le> a \<Longrightarrow> scheduleInfo (reqHeap q' a) = None"
  shows "queues_ok q' S N"
proof (rule queues_okI)
  note D = queues_okD [OF ok]
  show "distinct (waitingQueue q' @ S @ N)" using D(1) by (simp add: q')
  show "a < nextReq q'" if "a \<in> set (waitingQueue q') \<union> set S \<union> set N \<union> set (processingQueue q') \<union> ran (reqId2Callback q')" for a
    using that D(2) [of a] q' by auto
  show "state (reqHeap q' a) = WAITING" if "a \<in> set (waitingQueue q')" for a
    using D(3) [of a] st [of a] that by (auto simp: q')
  show "a \<in> set (waitingQueue q')" if "a < nextReq q'" "state (reqHeap q' a) = WAITING" for a
    using D(4) [of a] st [of a] that by (auto simp: q')
  show "a \<in> set (S @ N)" if "a < nextReq q'" "state (reqHeap q' a) = SCHEDULING" for a
    using D(5) [of a] st [of a] that by (auto simp: q')
  show "a \<in> set (processingQueue q')"
    if "a < nextReq q'" "state (reqHeap q' a) \<in> {SCHEDULING, ALLOCATED, PREFILL_END}" for a
    using D(6) [of a] st [of a] that by (auto simp: q')
  show "a \<in> set (processingQueue q')" if "holds st i (reqHeap q' a)" for a st i
  proof -
    have "a < nextReq q" using out [of a] that by (cases "a < nextReq q") (auto simp: holds_def)
    with h [OF this that] D(6) [of a] D(7) [of st i a] show ?thesis by (auto simp: q')
  qed
  show "state (reqHeap q' a) = INVALID \<or> scheduleInfo (reqHeap q' a) \<noteq> None" if "a \<in> set N" for a
    using D(8) [OF that] st [of a] si [of a] by auto
qed

text \<open>Operations of the client on one request.\<close>

lemma rq_ok_out: "rq_ok cfg q \<Longrightarrow> nextReq q \<le> a \<Longrightarrow> scheduleInfo (reqHeap q a) = None"
  by (metis rq_ok_def not_le option.exhaust)

lemma queues_same_reqs:
  assumes ok: "queues_ok q S N" and s: "same_reqs q q'" and r: "rq_ok cfg q"
    and q': "waitingQueue q' = waitingQueue q" "processingQueue q' = processingQueue q"
      "ran (reqId2Callback q') \<subseteq> ran (reqId2Callback q)"
    and st: "\<And>a. state (reqHeap q' a) = state (reqHeap q a) \<or>
        (state (reqHeap q a) \<in> {SCHEDULING, ALLOCATED, PREFILL_END} \<and> state (reqHeap q' a) \<in> {ALLOCATED, PREFILL_END, DECODE_END})"
  shows "queues_ok q' S N"
proof (rule queues_heap [OF ok _ q' st])
  show "nextReq q' = nextReq q" using s by (simp add: same_reqs_def)
  show "holds st i (reqHeap q a) \<or> state (reqHeap q a) = SCHEDULING" if "holds st i (reqHeap q' a)" for a st i
    using that by (simp add: same_reqs_holds [OF s])
  show "scheduleInfo (reqHeap q' a) \<noteq> None" if "scheduleInfo (reqHeap q a) \<noteq> None" for a
    using that s by (simp add: same_reqs_def)
  show "scheduleInfo (reqHeap q' a) = None" if "nextReq q \<le> a" for a
    using rq_ok_out [OF r that] s by (simp add: same_reqs_def)
qed

lemma UpdateReq_queues:
  assumes ok: "queues_ok q S N" "rq_ok cfg q" and u: "UpdateReq rid t q = (st, b, q')"
  shows "queues_ok q' S N \<and> same_reqs q q'"
proof (cases "reqId2Callback q rid")
  case None
  with ok u show ?thesis by (simp add: UpdateReq_def)
next
  case (Some a)
  let ?r = "snd (snd (UpdateState2PrefillEnd t (reqHeap q a)))"
  from Some u have q': "q' = q\<lparr>reqHeap := (reqHeap q)(a := ?r)\<rparr>"
    by (auto simp: UpdateReq_def ControlCallback_def split: prod.splits)
  have same: "same_reqs q q'" by (simp add: q' same_reqs_def UpdateState2PrefillEnd_def)
  moreover have "queues_ok q' S N"
    by (rule queues_same_reqs [OF ok(1) same ok(2)]) (auto simp: q' UpdateState2PrefillEnd_def)
  ultimately show ?thesis by simp
qed

lemma RemoveReq_queues:
  assumes ok: "queues_ok q S N" "rq_ok cfg q" and u: "RemoveReq rid pt dt n q = (st, b, q')"
  shows "queues_ok q' S N \<and> same_reqs q q'"
proof (cases "reqId2Callback q rid")
  case None
  with ok u show ?thesis by (simp add: RemoveReq_def)
next
  case (Some a)
  let ?r = "snd (snd (UpdateState2DecodeEnd pt dt n (reqHeap q a)))"
  from Some u have q': "q' = q\<lparr>reqId2Callback := (reqId2Callback q)(rid := None), reqHeap := (reqHeap q)(a := ?r)\<rparr>"
    by (auto simp: RemoveReq_def ControlCallback_def split: prod.splits)
  have same: "same_reqs q q'" by (simp add: q' same_reqs_def UpdateState2DecodeEnd_def)
  moreover have "queues_ok q' S N"
    by (rule queues_same_reqs [OF ok(1) same ok(2)])
       (auto simp: q' UpdateState2DecodeEnd_def ran_def split: if_splits)
  ultimately show ?thesis by simp
qed

lemma queues_new_request:
  assumes ok: "queues_ok q S N" and r: "scheduleInfo r = None"
    and q': "nextReq q' = Suc (nextReq q)" "reqHeap q' = (reqHeap q)(nextReq q := r)"
      "processingQueue q' = processingQueue q" "ran (reqId2Callback q') \<subseteq> insert (nextReq q) (ran (reqId2Callback q))"
    and w: "state r = WAITING \<and> waitingQueue q' = waitingQueue q @ [nextReq q] \<and> N' = N
          \<or> state r = INVALID \<and> waitingQueue q' = waitingQueue q \<and> (N' = N \<or> N' = N @ [nextReq q])"
  shows "queues_ok q' S N'"
proof (rule queues_okI)
  note D = queues_okD [OF ok]
  let ?a = "nextReq q"
  have fresh: "?a \<notin> set (waitingQueue q) \<union> set S \<union> set N \<union> set (processingQueue q)" using D(2) by blast
  have N': "set N \<subseteq> set N'" "set N' \<subseteq> insert ?a (set N)" using w by auto
  show "distinct (waitingQueue q' @ S @ N')" using D(1) fresh w by auto
  show "a < nextReq q'" if "a \<in> set (waitingQueue q') \<union> set S \<union> set N' \<union> set (processingQueue q') \<union> ran (reqId2Callback q')" for a
    using that D(2) [of a] q' w by (auto simp: less_Suc_eq)
  show "state (reqHeap q' a) = WAITING" if "a \<in> set (waitingQueue q')" for a
    using D(3) [of a] that w fresh by (auto simp: q')
  show "a \<in> set (waitingQueue q')" if "a < nextReq q'" "state (reqHeap q' a) = WAITING" for a
    using D(4) [of a] that w by (cases "a = ?a") (auto simp: q')
  show "a \<in> set (S @ N')" if "a < nextReq q'" "state (reqHeap q' a) = SCHEDULING" for a
    using D(5) [of a] that w N' by (cases "a = ?a") (auto simp: q')
  show "a \<in> set (processingQueue q')"
    if "a < nextReq q'" "state (reqHeap q' a) \<in> {SCHEDULING, ALLOCATED, PREFILL_END}" for a
    using D(6) [of a] that w by (cases "a = ?a") (auto simp: q')
  show "a \<in> set (processingQueue q')" if "holds st i (reqHeap q' a)" for a st i
    using D(7) [of st i a] that r by (cases "a = ?a") (auto simp: q' holds_def)
  show "state (reqHeap q' a) = INVALID \<or> scheduleInfo (reqHeap q' a) \<noteq> None" if "a \<in> set N'" for a
  proof (cases "a = ?a")
    case True
    with that fresh w show ?thesis by (auto simp: q')
  next
    case False
    with that N' D(8) [of a] show ?thesis by (auto simp: q')
  qed
qed

lemma AddReq_queues:
  assumes ok: "queues_ok q S N" and u: "AddReq (Some (new_DIGSRequest now rid len)) q = (st, q')"
  shows "queues_ok q' S N"
    and "\<exists>r. scheduleInfo r = None \<and> q'\<lparr>reqId2Callback := reqId2Callback q, waitingQueue := waitingQueue q\<rparr>
        = q\<lparr>reqHeap := (reqHeap q)(nextReq q := r), nextReq := Suc (nextReq q)\<rparr>"
proof -
  let ?a = "nextReq q" and ?r = "new_DIGSRequest now rid len"
  have nr: "scheduleInfo ?r = None" "state ?r = WAITING" "reqId ?r = rid" by (simp_all add: new_DIGSRequest_def)
  have "queues_ok q' S N \<and> (\<exists>r. scheduleInfo r = None \<and> q'\<lparr>reqId2Callback := reqId2Callback q, waitingQueue := waitingQueue q\<rparr>
        = q\<lparr>reqHeap := (reqHeap q)(?a := r), nextReq := Suc ?a\<rparr>)"
  proof (cases "reqId2Callback q rid")
    case None
    with u nr have q': "q' = q\<lparr>reqHeap := (reqHeap q)(?a := ?r), nextReq := Suc ?a,
        reqId2Callback := (reqId2Callback q)(rid \<mapsto> ?a), waitingQueue := waitingQueue q @ [?a]\<rparr>"
      by (simp add: AddReq_def Let_def)
    have "queues_ok q' S N"
      by (rule queues_new_request [OF ok nr(1)]) (auto simp: q' nr ran_def)
    with nr show ?thesis by (auto simp: q' intro!: exI [of _ ?r])
  next
    case (Some b)
    let ?i = "?r\<lparr>state := INVALID\<rparr>"
    from Some u nr have q': "q' = q\<lparr>reqHeap := (reqHeap q)(?a := ?i), nextReq := Suc ?a\<rparr>"
      by (cases q) (auto simp: AddReq_def Let_def upd_req_def UpdateState2Invalid_def)
    have "queues_ok q' S N"
      by (rule queues_new_request [OF ok, of ?i]) (auto simp: q' nr)
    with nr show ?thesis by (auto simp: q' intro!: exI [of _ ?i])
  qed
  then show "queues_ok q' S N"
    "\<exists>r. scheduleInfo r = None \<and> q'\<lparr>reqId2Callback := reqId2Callback q, waitingQueue := waitingQueue q\<rparr>
        = q\<lparr>reqHeap := (reqHeap q)(?a := r), nextReq := Suc ?a\<rparr>" by auto
qed

subsection \<open>Pulling\<close>

lemma pull_loop_shape:
  assumes "\<forall>a \<in> set w. state (reqHeap q a) = WAITING" "distinct w"
  shows "\<exists>m q'. pull_loop locks n mx w sched q = (sched @ take m w, q')
    \<and> same_reqs q q' \<and> waitingQueue q' = drop m w \<and> processingQueue q' = processingQueue q @ take m w
    \<and> reqId2Callback q' = reqId2Callback q
    \<and> (\<forall>a. state (reqHeap q' a) = (if a \<in> set (take m w) then SCHEDULING else state (reqHeap q a)))"
  using assms
proof (induction w arbitrary: locks n sched q)
  case Nil
  show ?case by (simp add: same_reqs_def)
next
  case (Cons a w)
  show ?case
  proof (cases "locks = 0 \<or> mx \<le> n")
    case True
    then show ?thesis by (intro exI [of _ 0]) (simp add: same_reqs_def)
  next
    case False
    let ?q = "(upd_req a (snd \<circ> UpdateState2Scheduling) q)\<lparr>processingQueue := processingQueue q @ [a]\<rparr>"
    have st: "state (reqHeap ?q b) = (if b = a then SCHEDULING else state (reqHeap q b))" for b
      using Cons.prems(1) by (simp add: upd_req_def UpdateState2Scheduling_def)
    have sa: "state (snd (UpdateState2Scheduling (reqHeap q a))) = SCHEDULING"
      using Cons.prems(1) by (simp add: UpdateState2Scheduling_def)
    have same: "same_reqs q ?q" by (simp add: same_reqs_def upd_req_def UpdateState2Scheduling_def)
    from Cons.prems have "\<forall>b \<in> set w. state (reqHeap ?q b) = WAITING" "distinct w" using st by auto
    from Cons.IH [OF this, of "locks - 1" "Suc n" "sched @ [a]"] obtain m q' where
      l: "pull_loop (locks - 1) (Suc n) mx w (sched @ [a]) ?q = ((sched @ [a]) @ take m w, q')"
      "same_reqs ?q q'" "waitingQueue q' = drop m w" "processingQueue q' = processingQueue ?q @ take m w"
      "reqId2Callback q' = reqId2Callback ?q"
      "\<forall>b. state (reqHeap q' b) = (if b \<in> set (take m w) then SCHEDULING else state (reqHeap ?q b))" by blast
    show ?thesis using False l same_reqs_trans [OF same l(2)]
      by (intro exI [of _ "Suc m"] exI [of _ q']) (simp add: st, simp add: upd_req_def sa)
  qed
qed

lemma pull_loop_append: "\<exists>ys. fst (pull_loop locks n mx w sched q) = sched @ ys"
proof (induction w arbitrary: locks n sched q)
  case (Cons a w)
  show ?case
  proof (cases "locks = 0 \<or> mx \<le> n")
    case True
    then show ?thesis by simp
  next
    case False
    with Cons [of "locks - 1" "Suc n" "sched @ [a]" "(upd_req a (snd \<circ> UpdateState2Scheduling) q)\<lparr>processingQueue := processingQueue q @ [a]\<rparr>"]
    show ?thesis by auto
  qed
qed simp

lemma PullRequest_some:
  assumes "PullRequest locks mx S q = (S', q')" "S \<noteq> [] \<or> (waitingQueue q \<noteq> [] \<and> 0 < locks \<and> 0 < mx)"
  shows "S' \<noteq> []"
proof (cases "S = []")
  case True
  with assms(2) obtain a w where w: "waitingQueue q = a # w" "0 < locks" "0 < mx" by (cases "waitingQueue q") auto
  with pull_loop_append [of "locks - 1" 1 mx w "S @ [a]" "(upd_req a (snd \<circ> UpdateState2Scheduling) q)\<lparr>processingQueue := processingQueue q @ [a]\<rparr>"]
    assms(1) show ?thesis by (auto simp: PullRequest_def)
next
  case False
  with pull_loop_append [of locks 0 mx "waitingQueue q" S q] assms(1) show ?thesis by (auto simp: PullRequest_def)
qed

lemma PullRequest_queues:
  assumes ok: "queues_ok q S N" and p: "PullRequest locks mx S q = (S', q')"
  shows "queues_ok q' S' N \<and> same_reqs q q' \<and> (\<forall>a. state (reqHeap q' a) = state (reqHeap q a)
    \<or> state (reqHeap q a) = WAITING \<and> state (reqHeap q' a) = SCHEDULING)"
proof -
  note D = queues_okD [OF ok]
  let ?w = "waitingQueue q"
  have "distinct ?w" using D(1) by simp
  with pull_loop_shape [of ?w q locks 0 mx S] D(3) p obtain m where S': "S' = S @ take m ?w" and same: "same_reqs q q'"
    and q': "waitingQueue q' = drop m ?w" "processingQueue q' = processingQueue q @ take m ?w" "reqId2Callback q' = reqId2Callback q"
    and st: "\<And>a. state (reqHeap q' a) = (if a \<in> set (take m ?w) then SCHEDULING else state (reqHeap q a))"
    by (auto simp: PullRequest_def)
  have dw: "set (take m ?w) \<inter> set (drop m ?w) = {}" "set ?w = set (take m ?w) \<union> set (drop m ?w)"
    using \<open>distinct ?w\<close> by (simp add: set_take_disj_set_drop_if_distinct, metis append_take_drop_id set_append)
  have n: "nextReq q' = nextReq q" using same by (simp add: same_reqs_def)
  have "queues_ok q' S' N"
  proof (rule queues_okI)
    show "distinct (waitingQueue q' @ S' @ N)" using D(1) dw by (auto simp: q' S')
    show "a < nextReq q'" if "a \<in> set (waitingQueue q') \<union> set S' \<union> set N \<union> set (processingQueue q') \<union> ran (reqId2Callback q')" for a
      using that D(2) [of a] dw(2) by (auto simp: q' S' n)
    show "state (reqHeap q' a) = WAITING" if "a \<in> set (waitingQueue q')" for a
      using that D(3) [of a] dw by (auto simp: st q')
    show "a \<in> set (waitingQueue q')" if "a < nextReq q'" "state (reqHeap q' a) = WAITING" for a
      using that D(4) [of a] dw(2) by (auto simp: st q' n split: if_splits)
    show "a \<in> set (S' @ N)" if "a < nextReq q'" "state (reqHeap q' a) = SCHEDULING" for a
      using that D(5) [of a] by (auto simp: st S' n split: if_splits)
    show "a \<in> set (processingQueue q')"
      if "a < nextReq q'" "state (reqHeap q' a) \<in> {SCHEDULING, ALLOCATED, PREFILL_END}" for a
      using that D(6) [of a] by (auto simp: st q' n split: if_splits)
    show "a \<in> set (processingQueue q')" if "holds st i (reqHeap q' a)" for a st i
      using that D(7) [of st i a] by (simp add: same_reqs_holds [OF same] q')
    show "state (reqHeap q' a) = INVALID \<or> scheduleInfo (reqHeap q' a) \<noteq> None" if "a \<in> set N" for a
    proof -
      have "a \<notin> set (take m ?w)" using that D(1) dw(2) by auto
      with D(8) [OF that] same show ?thesis by (auto simp: st same_reqs_def)
    qed
  qed
  moreover have "state (reqHeap q' a) = state (reqHeap q a) \<or> state (reqHeap q a) = WAITING \<and> state (reqHeap q' a) = SCHEDULING" for a
    using st [of a] D(3) [of a] dw(2) by (cases "a \<in> set (take m ?w)") auto
  ultimately show ?thesis using same by simp
qed

end
