(* ===== verification/Digs_Run.thy ===== *)
theory Digs_Run
  imports Queues
begin

text \<open>
  Runs of the scheduler: client calls, scheduler rounds and notification rounds in any order. The
  invariant of all runs says that the books balance (\<^const>\<open>books\<close>) and that the queues fit the
  states of the requests (\<^const>\<open>queues_ok\<close>).
\<close>

subsection \<open>Releases of many requests\<close>

text \<open>A release changes nothing of a request but its flags.\<close>

definition release_frame :: "RequestManager \<Rightarrow> RequestManager \<Rightarrow> bool" where
  "release_frame q q' \<longleftrightarrow> nextReq q' = nextReq q \<and> waitingQueue q' = waitingQueue q
     \<and> processingQueue q' = processingQueue q \<and> reqId2Callback q' = reqId2Callback q
     \<and> (\<forall>a. state (reqHeap q' a) = state (reqHeap q a)
          \<and> (scheduleInfo (reqHeap q' a) = None \<longleftrightarrow> scheduleInfo (reqHeap q a) = None)
          \<and> (\<forall>st i. holds st i (reqHeap q' a) \<longrightarrow> holds st i (reqHeap q a)))"

lemma release_frame_refl [simp]: "release_frame q q"
  by (simp add: release_frame_def)

lemma release_frame_trans: "release_frame q1 q2 \<Longrightarrow> release_frame q2 q3 \<Longrightarrow> release_frame q1 q3"
  by (simp add: release_frame_def)

lemma release_frame_released:
  "release_frame q (q\<lparr>reqHeap := (reqHeap q)(a := released stage (reqHeap q a))\<rparr>)"
  by (simp add: release_frame_def holds_released)

text \<open>A state of requests and instances on which releases are safe, and what they keep.\<close>

definition rel_ok :: "digs_cfg \<Rightarrow> u64 set \<Rightarrow> RequestManager \<times> ResourceManager \<Rightarrow>
    RequestManager \<times> ResourceManager \<Rightarrow> bool" where
  "rel_ok cfg C s s' \<longleftrightarrow> books cfg C (fst s) (snd s) \<and> view_known C (snd s) \<longrightarrow>
     books cfg C (fst s') (snd s') \<and> same_view (snd s) (snd s') \<and> release_frame (fst s) (fst s')"

lemma rel_ok_refl [simp]: "rel_ok cfg C s s"
  by (simp add: rel_ok_def)

lemma rel_ok_trans: "rel_ok cfg C s1 s2 \<Longrightarrow> rel_ok cfg C s2 s3 \<Longrightarrow> rel_ok cfg C s1 s3"
  unfolding rel_ok_def using same_view_trans release_frame_trans same_view_transfer(5) by blast

lemma rel_ok_try: "rel_ok cfg C s (try_release stage a s)"
proof (cases s)
  case (Pair q rm)
  then show ?thesis
    by (auto simp: rel_ok_def try_release_eq intro: books_release release_frame_released)
qed

lemma rel_ok_both: "rel_ok cfg C s (release_both a s)"
  unfolding release_both_def by (rule rel_ok_trans [OF rel_ok_try rel_ok_try])

lemma rel_ok_one: "rel_ok cfg C s (release_one a s)"
  unfolding release_one_def
  by (auto intro: rel_ok_trans [OF rel_ok_try rel_ok_try] rel_ok_try split: DIGSReqState.split)

lemma rel_ok_fold: "(\<And>a s. rel_ok cfg C s (f a s)) \<Longrightarrow> rel_ok cfg C s (fold f as s)"
proof (induction "as" arbitrary: s)
  case (Cons a as)
  from rel_ok_trans [OF Cons.prems Cons.IH [OF Cons.prems]] show ?case by simp
qed simp

lemma released_both_holds: "\<not> holds st i (reqHeap (fst (release_both a s)) a)"
  by (cases s; cases st) (simp_all add: release_both_eq holds_released)

lemma release_both_other: "holds st i (reqHeap (fst (release_both b s)) a) \<Longrightarrow> holds st i (reqHeap (fst s) a)"
  by (cases s) (auto simp: release_both_eq holds_released split: if_splits)

lemma fold_release_both_holds:
  "a \<in> set as \<Longrightarrow> \<not> holds st i (reqHeap (fst (fold release_both as s)) a)"
proof (induction "as" rule: rev_induct)
  case (snoc b as)
  show ?case
  proof (cases "a = b")
    case True
    then show ?thesis using released_both_holds [of st i b "fold release_both as s"] by simp
  next
    case False
    with snoc release_both_other [of st i b "fold release_both as s" a] show ?thesis by auto
  qed
qed simp

lemma queues_release:
  assumes ok: "queues_ok q S N" and f: "release_frame q q'" and r: "rq_ok cfg q"
  shows "queues_ok q' S N"
proof (rule queues_heap [OF ok])
  show "holds st i (reqHeap q a) \<or> state (reqHeap q a) = SCHEDULING" if "holds st i (reqHeap q' a)" for a st i
    using that f by (simp add: release_frame_def)
  show "scheduleInfo (reqHeap q' a) = None" if "nextReq q \<le> a" for a
    using rq_ok_out [OF r that] f by (simp add: release_frame_def)
qed (use f in \<open>auto simp: release_frame_def\<close>)

subsection \<open>Ended requests\<close>

lemma ExportEndedReq_frame [simp]:
  "reqHeap (ExportEndedReq a q) = reqHeap q" "nextReq (ExportEndedReq a q) = nextReq q"
  "waitingQueue (ExportEndedReq a q) = waitingQueue q" "processingQueue (ExportEndedReq a q) = processingQueue q"
  "reqId2Callback (ExportEndedReq a q) = reqId2Callback q"
  by (simp_all add: ExportEndedReq_def Let_def)

lemma ended_loop_shape:
  "\<exists>q'. ended_loop as q = (filter (ended q) as, filter (\<lambda>a. \<not> ended q a) as, q')
    \<and> reqHeap q' = reqHeap q \<and> nextReq q' = nextReq q \<and> waitingQueue q' = waitingQueue q
    \<and> processingQueue q' = processingQueue q \<and> reqId2Callback q' = reqId2Callback q"
proof (induction "as" arbitrary: q)
  case (Cons a as)
  have "ended (ExportEndedReq a q) = ended q" by (simp add: fun_eq_iff ended_def)
  with Cons [of q] Cons [of "ExportEndedReq a q"] show ?case by auto
qed simp

lemma ProcessEndedReq_shape:
  assumes "ProcessEndedReq q = (es, q')"
  shows "es = filter (ended q) (processingQueue q)" "reqHeap q' = reqHeap q" "nextReq q' = nextReq q"
    "waitingQueue q' = waitingQueue q" "processingQueue q' = filter (\<lambda>a. \<not> ended q a) (processingQueue q)"
    "reqId2Callback q' = reqId2Callback q"
  using assms ended_loop_shape [of "processingQueue q" q] by (auto simp: ProcessEndedReq_def)

lemma process_ended_ok:
  assumes b: "books cfg C (requestManager s) (resourceManager s)" and v: "view_known C (resourceManager s)"
    and qs: "queues_ok (requestManager s) S N"
  defines "s' \<equiv> process_ended s"
  shows "books cfg C (requestManager s') (resourceManager s')" "queues_ok (requestManager s') S N"
    "same_view (resourceManager s) (resourceManager s')"
    "\<And>a st i. state (reqHeap (requestManager s') a) = DECODE_END \<Longrightarrow>
       \<not> holds st i (reqHeap (requestManager s') a)"
    "s' = s\<lparr>requestManager := requestManager s', resourceManager := resourceManager s'\<rparr>"
    "\<And>a. state (reqHeap (requestManager s') a) = state (reqHeap (requestManager s) a)"
    "nextReq (requestManager s') = nextReq (requestManager s)"
proof -
  let ?q = "requestManager s" and ?rm = "resourceManager s"
  obtain es q1 where pe: "ProcessEndedReq ?q = (es, q1)" by force
  note sh = ProcessEndedReq_shape [OF pe]
  obtain q2 rm2 where fo: "fold release_both es (q1, ?rm) = (q2, rm2)" by force
  have s': "s' = s\<lparr>requestManager := q2, resourceManager := rm2\<rparr>"
    by (simp add: s'_def process_ended_def pe ReleaseAllocation_def fo)
  have same1: "same_reqs ?q q1" by (simp add: same_reqs_def sh)
  have b1: "books cfg C q1 ?rm" by (rule books_same_reqs [OF same1 b])
  have "rel_ok cfg C (q1, ?rm) (q2, rm2)" unfolding fo [symmetric] by (rule rel_ok_fold) (rule rel_ok_both)
  with b1 v have b2: "books cfg C q2 rm2" and sv: "same_view ?rm rm2" and fr: "release_frame q1 q2"
    by (auto simp: rel_ok_def)
  show "books cfg C (requestManager s') (resourceManager s')" "same_view ?rm (resourceManager s')"
    "s' = s\<lparr>requestManager := requestManager s', resourceManager := resourceManager s'\<rparr>"
    using b2 sv by (simp_all add: s')
  note D = queues_okD [OF qs]
  have gone: "\<not> holds st i (reqHeap q2 a)" if "a \<in> set es" for a st i
    using fold_release_both_holds [OF that, of st i "(q1, ?rm)"] by (simp add: fo)
  have hold: "holds st i (reqHeap ?q a)" if "holds st i (reqHeap q2 a)" for a st i
    using that fr by (simp add: release_frame_def sh)
  have st: "state (reqHeap q2 a) = state (reqHeap ?q a)" for a using fr by (simp add: release_frame_def sh)
  then show "state (reqHeap (requestManager s') a) = state (reqHeap ?q a)" for a by (simp add: s')
  show "nextReq (requestManager s') = nextReq ?q" using fr by (simp add: s' release_frame_def sh)
  have proc: "a \<in> set es" if "state (reqHeap ?q a) = DECODE_END" "a \<in> set (processingQueue ?q)" for a
    using that by (simp add: sh ended_def)
  show "\<not> holds st i (reqHeap (requestManager s') a)"
    if "state (reqHeap (requestManager s') a) = DECODE_END" for a st i
    using that hold [of st i a] D(7) [of st i a] proc [of a] gone [of a st i] by (auto simp: s' st)
  have f2: "nextReq q2 = nextReq ?q" "waitingQueue q2 = waitingQueue ?q"
    "processingQueue q2 = filter (\<lambda>a. \<not> ended ?q a) (processingQueue ?q)" "reqId2Callback q2 = reqId2Callback ?q"
    using fr by (simp_all add: release_frame_def sh)
  have "queues_ok q2 S N"
  proof (rule queues_okI)
    show "a < nextReq q2" if "a \<in> set (waitingQueue q2) \<union> set S \<union> set N \<union> set (processingQueue q2) \<union> ran (reqId2Callback q2)" for a
      using that D(2) [of a] by (auto simp: f2)
    show "a \<in> set (processingQueue q2)"
      if "a < nextReq q2" "state (reqHeap q2 a) \<in> {SCHEDULING, ALLOCATED, PREFILL_END}" for a
      using that D(6) [of a] by (auto simp: f2 st ended_def)
    show "a \<in> set (processingQueue q2)" if "holds st i (reqHeap q2 a)" for a st i
      using that hold [OF that] gone [of a st i] D(7) [of st i a] proc [of a] by (auto simp: f2 ended_def)
    show "state (reqHeap q2 a) = INVALID \<or> scheduleInfo (reqHeap q2 a) \<noteq> None" if "a \<in> set N" for a
      using D(8) [OF that] fr by (simp add: st release_frame_def sh)
  qed (use D(1,3,4,5) in \<open>simp_all add: f2 st\<close>)
  then show "queues_ok (requestManager s') S N" by (simp add: s')
qed

subsection \<open>The invariant\<close>

abbreviation gcfg :: "gs_cfg \<Rightarrow> digs_cfg" where
  "gcfg gc \<equiv> digsCfg (fwCfg gc)"

definition ginv :: "gs_cfg \<Rightarrow> u64 set \<Rightarrow> digs \<Rightarrow> bool" where
  "ginv gc C s \<longleftrightarrow> books (gcfg gc) C (requestManager s) (resourceManager s)
     \<and> queues_ok (requestManager s) (schedulingReqs s) (notifyQueue s)
     \<and> resView (resourceManager s) = new_ResourceViewManager \<and> allocatedReqs s = []
     \<and> selectPool s = \<lparr>sp_prefill = [], sp_decode = []\<rparr> \<and> all_open C (resourceManager s)"

definition same_open :: "ResourceManager \<Rightarrow> ResourceManager \<Rightarrow> bool" where
  "same_open rm rm' \<longleftrightarrow> resourceMap rm' = resourceMap rm
     \<and> (\<forall>a. isInstanceClosed (sched_of rm' a) = isInstanceClosed (sched_of rm a))"

lemma same_openI:
  "same_books rm rm' \<Longrightarrow> same_open rm rm'" "same_view rm rm' \<Longrightarrow> same_open rm rm'"
  "same_books_map rm rm' \<Longrightarrow> same_open rm rm'"
  by (simp_all add: same_open_def same_books_def same_view_def same_books_map_def)

lemma same_open_trans: "same_open rm1 rm2 \<Longrightarrow> same_open rm2 rm3 \<Longrightarrow> same_open rm1 rm3"
  by (simp add: same_open_def)

lemma all_open_same: "same_open rm rm' \<Longrightarrow> all_open C rm \<Longrightarrow> all_open C rm'"
  by (simp add: all_open_def same_open_def)

lemma add_open_prefix:
  "add_open cfg es rm = Some rm' \<Longrightarrow> \<exists>ys. rv_view (resView rm') = rv_view (resView rm) @ ys"
proof (induction es arbitrary: rm)
  case (Cons e es)
  obtain i ri where e: "e = (i, ri)" by (cases e)
  show ?case
  proof (cases "isInstanceClosed (sched_of rm (fst ri))")
    case True
    with Cons e show ?thesis by simp
  next
    case False
    with Cons.prems e obtain rm1 where add: "AddResInfo cfg ri rm = Some rm1" and rest: "add_open cfg es rm1 = Some rm'"
      by (auto split: option.splits)
    from Cons.IH [OF rest] AddResInfo_ok(5) [OF add] show ?thesis by auto
  qed
qed simp

lemma add_open_empty:
  "add_open cfg es rm = Some rm' \<Longrightarrow> rv_view (resView rm') = [] \<Longrightarrow> rm' = rm"
proof (induction es arbitrary: rm)
  case (Cons e es)
  obtain i ri where e: "e = (i, ri)" by (cases e)
  show ?case
  proof (cases "isInstanceClosed (sched_of rm (fst ri))")
    case True
    with Cons e show ?thesis by simp
  next
    case False
    with Cons.prems e obtain rm1 where add: "AddResInfo cfg ri rm = Some rm1" and rest: "add_open cfg es rm1 = Some rm'"
      by (auto split: option.splits)
    from add_open_prefix [OF rest] AddResInfo_ok(5) [OF add] Cons.prems(2) show ?thesis by simp
  qed
qed simp

lemma queues_pass:
  assumes ok: "queues_ok q S N" and f: "pass_frame q q'" and r: "rq_ok cfg q'"
    and d: "distinct (A @ S')" "set (A @ S') \<subseteq> set S"
    and keep: "\<And>a. a \<in> set S \<Longrightarrow> state (reqHeap q a) = SCHEDULING \<Longrightarrow> a \<in> set (A @ S')"
    and si: "\<And>a. a \<in> set A \<Longrightarrow> scheduleInfo (reqHeap q' a) \<noteq> None"
  shows "queues_ok q' S' (N @ A)"
proof (rule queues_okI)
  note D = queues_okD [OF ok]
  have n: "nextReq q' = nextReq q" "waitingQueue q' = waitingQueue q" "processingQueue q' = processingQueue q"
    "reqId2Callback q' = reqId2Callback q" using f by (simp_all add: pass_frame_def)
  have same: "reqHeap q' a = reqHeap q a \<or> state (reqHeap q a) = SCHEDULING" for a using f by (auto simp: pass_frame_def)
  have st: "state (reqHeap q' a) = state (reqHeap q a) \<or> state (reqHeap q a) = SCHEDULING \<and> state (reqHeap q' a) = ALLOCATED" for a
    using f unfolding pass_frame_def by metis
  show "distinct (waitingQueue q' @ S' @ N @ A)" using D(1) d by (auto simp: n)
  show "a < nextReq q'" if "a \<in> set (waitingQueue q') \<union> set S' \<union> set (N @ A) \<union> set (processingQueue q') \<union> ran (reqId2Callback q')" for a
    using that D(2) [of a] d(2) by (auto simp: n)
  show "state (reqHeap q' a) = WAITING" if "a \<in> set (waitingQueue q')" for a
    using that D(3) [of a] st [of a] by (auto simp: n)
  show "a \<in> set (waitingQueue q')" if "a < nextReq q'" "state (reqHeap q' a) = WAITING" for a
    using that D(4) [of a] st [of a] by (auto simp: n)
  show "a \<in> set (S' @ N @ A)" if "a < nextReq q'" "state (reqHeap q' a) = SCHEDULING" for a
    using that D(5) [of a] st [of a] keep [of a] by (auto simp: n)
  show "a \<in> set (processingQueue q')"
    if "a < nextReq q'" "state (reqHeap q' a) \<in> {SCHEDULING, ALLOCATED, PREFILL_END}" for a
    using that D(6) [of a] st [of a] by (auto simp: n)
  show "a \<in> set (processingQueue q')" if h: "holds s i (reqHeap q' a)" for a s i
  proof -
    have "a < nextReq q" using rq_ok_out [OF r, of a] h n by (cases "a < nextReq q") (auto simp: holds_def)
    with h same [of a] D(6) [of a] D(7) [of s i a] show ?thesis by (auto simp: n)
  qed
  show "state (reqHeap q' a) = INVALID \<or> scheduleInfo (reqHeap q' a) \<noteq> None" if "a \<in> set (N @ A)" for a
  proof (cases "a \<in> set A")
    case False
    then have "a \<in> set N" using that by simp
    from D(8) [OF this] st [of a] f show ?thesis by (auto simp: pass_frame_def)
  qed (simp add: si)
qed

text \<open>A pass as the scheduler thread runs it, on a view that was built from all open instances.\<close>

lemma run_scheduling_ok:
  assumes srt: "std_sort srt" and w: "weights_ok (metaCfg (gcfg gc))"
    and b: "books (gcfg gc) C (requestManager s) (resourceManager s)"
    and qs: "queues_ok (requestManager s) (schedulingReqs s) (notifyQueue s)"
    and v: "view_known C (resourceManager s)" "view_in (resourceManager s)"
      "omap_ok (decodePool (resView (resourceManager s)))"
    and e: "allocatedReqs s = []" "selectPool s = \<lparr>sp_prefill = [], sp_decode = []\<rparr>"
  shows "\<exists>s'. map_option ProcessAllocatedRequests (run_scheduling srt gc now s) = Some s'
    \<and> books (gcfg gc) C (requestManager s') (resourceManager s')
    \<and> queues_ok (requestManager s') (schedulingReqs s') (notifyQueue s')
    \<and> view_known C (resourceManager s') \<and> same_open (resourceManager s) (resourceManager s')
    \<and> allocatedReqs s' = [] \<and> selectPool s' = \<lparr>sp_prefill = [], sp_decode = []\<rparr>
    \<and> pass_frame (requestManager s) (requestManager s')"
proof -
  let ?p = "\<lparr>ps_rq = requestManager s, ps_rm = resourceManager s, ps_pool = selectPool s,
     ps_sched = schedulingReqs s, ps_alloc = allocatedReqs s\<rparr>"
  note D = queues_okD [OF qs]
  have "pass_start (fwCfg gc) C ?p"
    using b v e D(1) D(2) by (auto simp: pass_start_def pools_in_def groups_in_def)
  from Scheduling_ok [OF srt w this, of now] obtain p where p: "Scheduling srt (fwCfg gc) now ?p = Some p"
    and pe: "pass_end (fwCfg gc) C ?p p" by blast
  have push: "fold Push xs n = n @ xs" for xs and n :: "addr list"
    by (induction xs arbitrary: n) (simp_all add: Push_def)
  have "queues_ok (ps_rq p) (ps_sched p) (notifyQueue s @ ps_alloc p)"
  proof (rule queues_pass [OF qs])
    show "pass_frame (requestManager s) (ps_rq p)" "distinct (ps_alloc p @ ps_sched p)"
      "set (ps_alloc p @ ps_sched p) \<subseteq> set (schedulingReqs s)"
      using pe by (auto simp: pass_end_def)
    show "rq_ok (gcfg gc) (ps_rq p)" using pe by (simp add: pass_end_def books_def)
    show "a \<in> set (ps_alloc p @ ps_sched p)"
      if "a \<in> set (schedulingReqs s)" "state (reqHeap (requestManager s) a) = SCHEDULING" for a
      using pe that by (auto simp: pass_end_def)
    show "scheduleInfo (reqHeap (ps_rq p) a) \<noteq> None" if "a \<in> set (ps_alloc p)" for a
      using pe that by (auto simp: pass_end_def placed_pd_def)
  qed
  with p pe show ?thesis
    by (auto simp: run_scheduling_def ProcessAllocatedRequests_def push pass_end_def same_openI)
qed

subsection \<open>A scheduler round keeps the invariant\<close>

lemma process_release_ok:
  assumes b: "books cfg C (requestManager s) (resourceManager s)" and v: "view_known C (resourceManager s)"
    and qs: "queues_ok (requestManager s) S N"
  defines "s' \<equiv> process_release s"
  shows "books cfg C (requestManager s') (resourceManager s')" "queues_ok (requestManager s') S N"
    "same_view (resourceManager s) (resourceManager s')"
    "s' = s\<lparr>requestManager := requestManager s', resourceManager := resourceManager s'\<rparr>"
    "\<And>a. state (reqHeap (requestManager s') a) = state (reqHeap (requestManager s) a)"
    "nextReq (requestManager s') = nextReq (requestManager s)"
proof -
  let ?q = "requestManager s" and ?rm = "resourceManager s"
  obtain q2 rm2 where fo: "fold release_one (processingQueue ?q) (?q, ?rm) = (q2, rm2)" by force
  have s': "s' = s\<lparr>requestManager := q2, resourceManager := rm2\<rparr>"
    by (simp add: s'_def process_release_def ProcessRelease_def fo)
  have "rel_ok cfg C (?q, ?rm) (q2, rm2)" unfolding fo [symmetric] by (rule rel_ok_fold) (rule rel_ok_one)
  with b v have r: "books cfg C q2 rm2" "same_view ?rm rm2" "release_frame ?q q2" by (auto simp: rel_ok_def)
  moreover have "rq_ok cfg ?q" using b by (simp add: books_def)
  then have "queues_ok q2 S N" by (rule queues_release [OF qs r(3)])
  ultimately show "books cfg C (requestManager s') (resourceManager s')" "queues_ok (requestManager s') S N"
    "same_view ?rm (resourceManager s')"
    "s' = s\<lparr>requestManager := requestManager s', resourceManager := resourceManager s'\<rparr>"
    by (simp_all add: s')
  show "state (reqHeap (requestManager s') a) = state (reqHeap ?q a)" for a
    using r(3) by (simp add: s' release_frame_def)
  show "nextReq (requestManager s') = nextReq ?q" using r(3) by (simp add: s' release_frame_def)
qed

text \<open>The part of a round after the view was built and found not to be empty.\<close>

definition full_round :: "sort_fn \<Rightarrow> gs_cfg \<Rightarrow> u64 \<Rightarrow> digs \<Rightarrow> digs option" where
  "full_round srt gc now s = map_option (clear_view \<circ> process_ended \<circ> ProcessAllocatedRequests)
     (run_scheduling srt gc now (process_release s))"

lemma full_round_ok:
  assumes srt: "std_sort srt" and w: "weights_ok (metaCfg (gcfg gc))"
    and b: "books (gcfg gc) C (requestManager s) (resourceManager s)"
    and qs: "queues_ok (requestManager s) (schedulingReqs s) (notifyQueue s)"
    and v: "view_known C (resourceManager s)" "view_in (resourceManager s)"
      "omap_ok (decodePool (resView (resourceManager s)))"
    and e: "allocatedReqs s = []" "selectPool s = \<lparr>sp_prefill = [], sp_decode = []\<rparr>"
    and o: "all_open C (resourceManager s)"
  shows "\<exists>s'. full_round srt gc now s = Some s' \<and> ginv gc C s' \<and>
    (\<forall>a st i. state (reqHeap (requestManager s') a) = DECODE_END \<longrightarrow> \<not> holds st i (reqHeap (requestManager s') a)) \<and>
    (\<forall>a. state (reqHeap (requestManager s') a) = state (reqHeap (requestManager s) a)
       \<or> state (reqHeap (requestManager s) a) = SCHEDULING \<and> state (reqHeap (requestManager s') a) = ALLOCATED)
    \<and> nextReq (requestManager s') = nextReq (requestManager s) \<and> same_open (resourceManager s) (resourceManager s')"
proof -
  let ?s1 = "process_release s"
  note r1 = process_release_ok [OF b v(1) qs]
  have f1: "schedulingReqs ?s1 = schedulingReqs s" "notifyQueue ?s1 = notifyQueue s" "allocatedReqs ?s1 = allocatedReqs s"
    "selectPool ?s1 = selectPool s" by (subst r1(4); simp)+
  have v1: "view_known C (resourceManager ?s1)" "view_in (resourceManager ?s1)"
    "omap_ok (decodePool (resView (resourceManager ?s1)))"
    using v r1(3) by (simp_all add: same_view_transfer [OF r1(3)]) (simp add: same_view_def)
  have "queues_ok (requestManager ?s1) (schedulingReqs ?s1) (notifyQueue ?s1)" using r1(2) by (simp add: f1)
  from run_scheduling_ok [OF srt w r1(1) this v1, of now] e f1 obtain s2 where
    s2: "map_option ProcessAllocatedRequests (run_scheduling srt gc now ?s1) = Some s2"
    and b2: "books (gcfg gc) C (requestManager s2) (resourceManager s2)"
    and q2: "queues_ok (requestManager s2) (schedulingReqs s2) (notifyQueue s2)"
    and v2: "view_known C (resourceManager s2)" and so2: "same_open (resourceManager ?s1) (resourceManager s2)"
    and e2: "allocatedReqs s2 = []" "selectPool s2 = \<lparr>sp_prefill = [], sp_decode = []\<rparr>"
    and fr2: "pass_frame (requestManager ?s1) (requestManager s2)" by auto
  let ?s3 = "process_ended s2"
  note r3 = process_ended_ok [OF b2 v2 q2]
  have f3: "schedulingReqs ?s3 = schedulingReqs s2" "notifyQueue ?s3 = notifyQueue s2" "allocatedReqs ?s3 = allocatedReqs s2"
    "selectPool ?s3 = selectPool s2" by (subst r3(5); simp)+
  have so: "same_open (resourceManager s) (resourceManager (clear_view ?s3))"
    using same_openI(2) [OF r1(3)] so2 same_openI(2) [OF r3(3)] same_openI(1) [OF same_books_ClearView]
    by (simp add: clear_view_def) (blast intro: same_open_trans)
  from so have "ginv gc C (clear_view ?s3)"
    using r3(1,2) books_same [OF same_books_ClearView] all_open_same [OF _ o]
    by (simp add: ginv_def clear_view_def f3 e2)
  moreover have "full_round srt gc now s = Some (clear_view ?s3)"
    using s2 by (auto simp: full_round_def)
  moreover have "\<not> holds st i (reqHeap (requestManager ?s3) a)"
    if "state (reqHeap (requestManager ?s3) a) = DECODE_END" for a st i
    using r3(4) that by blast
  moreover have "state (reqHeap (requestManager ?s3) a) = state (reqHeap (requestManager s) a)
      \<or> state (reqHeap (requestManager s) a) = SCHEDULING \<and> state (reqHeap (requestManager ?s3) a) = ALLOCATED" for a
    using fr2 r1(5) [of a] r3(6) [of a] unfolding pass_frame_def by metis
  moreover have "nextReq (requestManager ?s3) = nextReq (requestManager s)"
    using fr2 r1(6) r3(7) by (simp add: pass_frame_def)
  ultimately show ?thesis using so by (intro exI [of _ "clear_view ?s3"]) (simp add: clear_view_def)
qed

lemma scheduler_round_eq:
  "scheduler_round srt gc now locks owns_lock s =
     (case PullRequest locks (maxScheduleCount gc) (schedulingReqs s) (requestManager s) of (sched, q) \<Rightarrow>
      let s1 = s\<lparr>requestManager := q, schedulingReqs := sched\<rparr>
      in if sched = [] \<and> \<not> requestUpdated s then Some s1
         else case UpdateResourceView (gcfg gc) owns_lock (resourceManager s) of
             None \<Rightarrow> None
           | Some (_, rm) \<Rightarrow>
               let s2 = s1\<lparr>requestUpdated := False, resourceManager := rm\<rparr>
               in if view_Empty rm then Some s2 else full_round srt gc now s2)"
  by (cases "PullRequest locks (maxScheduleCount gc) (schedulingReqs s) (requestManager s)")
     (simp add: scheduler_round_def full_round_def Let_def cong: if_cong option.case_cong)

text \<open>The two ways a round can go: it stops early and changes only queues, or it runs to the end.\<close>

lemma scheduler_round_cases:
  assumes "ginv gc C s" and "scheduler_round srt gc now locks owns_lock s = Some s'"
  obtains (early) S q u where "s' = s\<lparr>requestManager := q, schedulingReqs := S, requestUpdated := u\<rparr>"
      "queues_ok q S (notifyQueue s)" "same_reqs (requestManager s) q"
      "\<forall>a. state (reqHeap q a) = state (reqHeap (requestManager s) a)
         \<or> state (reqHeap (requestManager s) a) = WAITING \<and> state (reqHeap q a) = SCHEDULING"
  | (full) S q rm where "full_round srt gc now (s\<lparr>requestManager := q, schedulingReqs := S,
         requestUpdated := False, resourceManager := rm\<rparr>) = Some s'"
      "queues_ok q S (notifyQueue s)" "same_reqs (requestManager s) q"
      "view_upto (resourceManager s) (resourceMap (resourceManager s)) rm" "owns_lock" "\<not> view_Empty rm"
      "\<forall>a. state (reqHeap q a) = state (reqHeap (requestManager s) a)
         \<or> state (reqHeap (requestManager s) a) = WAITING \<and> state (reqHeap q a) = SCHEDULING"
proof -
  obtain S q where pull: "PullRequest locks (maxScheduleCount gc) (schedulingReqs s) (requestManager s) = (S, q)" by force
  from assms(1) have qs: "queues_ok (requestManager s) (schedulingReqs s) (notifyQueue s)"
    and rm0: "rm_ok (gcfg gc) (resourceManager s)" and v0: "resView (resourceManager s) = new_ResourceViewManager"
    by (auto simp: ginv_def books_def)
  from PullRequest_queues [OF qs pull] have q: "queues_ok q S (notifyQueue s)" "same_reqs (requestManager s) q"
    "\<forall>a. state (reqHeap q a) = state (reqHeap (requestManager s) a)
       \<or> state (reqHeap (requestManager s) a) = WAITING \<and> state (reqHeap q a) = SCHEDULING" by auto
  note eq = assms(2) [unfolded scheduler_round_eq pull prod.case Let_def]
  show ?thesis
  proof (cases "S = [] \<and> \<not> requestUpdated s")
    case True
    with eq have "s' = s\<lparr>requestManager := q, schedulingReqs := S, requestUpdated := requestUpdated s\<rparr>"
      by (cases s) auto
    with q show ?thesis by (intro early)
  next
    case False
    with eq obtain st rm where up: "UpdateResourceView (gcfg gc) owns_lock (resourceManager s) = Some (st, rm)"
      and s': "(if view_Empty rm then Some (s\<lparr>requestManager := q, schedulingReqs := S, requestUpdated := False, resourceManager := rm\<rparr>)
        else full_round srt gc now (s\<lparr>requestManager := q, schedulingReqs := S, requestUpdated := False, resourceManager := rm\<rparr>)) = Some s'"
      by (auto split: option.splits)
    show ?thesis
    proof (cases "view_Empty rm")
      case True
      have "rm = resourceManager s"
        using up True add_open_empty by (auto simp: UpdateResourceView_def view_Empty_def split: if_splits)
      with True s' have "s' = s\<lparr>requestManager := q, schedulingReqs := S, requestUpdated := False\<rparr>" by (cases s) auto
      with q show ?thesis by (intro early)
    next
      case nonempty: False
      have own: "owns_lock" and add: "add_open (gcfg gc) (resourceMap (resourceManager s)) (resourceManager s) = Some rm"
        using up nonempty v0 by (auto simp: UpdateResourceView_def view_Empty_def new_ResourceViewManager_def split: if_splits)
      have "view_upto (resourceManager s) ([] @ resourceMap (resourceManager s)) rm"
        by (rule add_open_ok [OF rm0 _ view_upto_start [OF rm0 v0] add]) simp
      with nonempty s' q own show ?thesis by (intro full) auto
    qed
  qed
qed

lemma full_round_from:
  assumes srt: "std_sort srt" and w: "weights_ok (metaCfg (gcfg gc))" and inv: "ginv gc C s"
    and q: "queues_ok q S (notifyQueue s)" "same_reqs (requestManager s) q"
    and up: "view_upto (resourceManager s) (resourceMap (resourceManager s)) rm"
  shows "\<exists>s'. full_round srt gc now (s\<lparr>requestManager := q, schedulingReqs := S, requestUpdated := False, resourceManager := rm\<rparr>) = Some s'
    \<and> ginv gc C s' \<and> (\<forall>a st i. state (reqHeap (requestManager s') a) = DECODE_END \<longrightarrow> \<not> holds st i (reqHeap (requestManager s') a))
    \<and> (\<forall>a. state (reqHeap (requestManager s') a) = state (reqHeap q a)
       \<or> state (reqHeap q a) = SCHEDULING \<and> state (reqHeap (requestManager s') a) = ALLOCATED)
    \<and> nextReq (requestManager s') = nextReq q \<and> same_open (resourceManager s) (resourceManager s')"
proof -
  have sb: "same_books (resourceManager s) rm" using up by (simp add: view_upto_def)
  have b: "books (gcfg gc) C q rm"
    using inv books_same [OF sb] books_same_reqs [OF q(2)] by (simp add: ginv_def)
  have o: "all_open C rm" using inv all_open_same [OF same_openI(1) [OF sb]] by (simp add: ginv_def)
  have v: "view_known C rm" "view_in rm" "omap_ok (decodePool (resView rm))"
    using inv up view_upto_known [OF up] by (simp_all add: ginv_def view_upto_def)
  let ?s = "s\<lparr>requestManager := q, schedulingReqs := S, requestUpdated := False, resourceManager := rm\<rparr>"
  have "\<exists>s'. full_round srt gc now ?s = Some s' \<and> ginv gc C s' \<and>
    (\<forall>a st i. state (reqHeap (requestManager s') a) = DECODE_END \<longrightarrow> \<not> holds st i (reqHeap (requestManager s') a)) \<and>
    (\<forall>a. state (reqHeap (requestManager s') a) = state (reqHeap (requestManager ?s) a)
       \<or> state (reqHeap (requestManager ?s) a) = SCHEDULING \<and> state (reqHeap (requestManager s') a) = ALLOCATED)
    \<and> nextReq (requestManager s') = nextReq (requestManager ?s) \<and> same_open (resourceManager ?s) (resourceManager s')"
    by (rule full_round_ok [OF srt w]) (use b q(1) v o inv in \<open>simp_all add: ginv_def\<close>)
  then show ?thesis using same_open_trans [OF same_openI(1) [OF sb]] by auto
qed

lemma ginv_round:
  assumes srt: "std_sort srt" and w: "weights_ok (metaCfg (gcfg gc))" and inv: "ginv gc C s"
    and r: "scheduler_round srt gc now locks owns_lock s = Some s'"
  shows "ginv gc C s'"
  using inv r
proof (cases rule: scheduler_round_cases)
  case (early S q u)
  with inv books_same_reqs [of "requestManager s" q] show ?thesis by (auto simp: ginv_def)
next
  case (full S q rm)
  from full_round_from [OF srt w inv full(2-4), of now] full(1) show ?thesis by auto
qed

lemma round_states:
  assumes srt: "std_sort srt" and w: "weights_ok (metaCfg (gcfg gc))" and inv: "ginv gc C s"
    and r: "scheduler_round srt gc now locks owns_lock s = Some s'"
  shows "state (reqHeap (requestManager s') a) = state (reqHeap (requestManager s) a)
    \<or> state_step\<^sup>+\<^sup>+ (state (reqHeap (requestManager s) a)) (state (reqHeap (requestManager s') a))
      \<and> state (reqHeap (requestManager s') a) \<in> {SCHEDULING, ALLOCATED}"
  using inv r
proof (cases rule: scheduler_round_cases)
  case (early S q u)
  have "requestManager s' = q" using early(1) by simp
  moreover have "state_step\<^sup>+\<^sup>+ WAITING SCHEDULING" by (rule tranclp.r_into_trancl) (rule state_step_intros)
  ultimately show ?thesis using early(4) [rule_format, of a] by (elim disjE conjE) simp_all
next
  case (full S q rm)
  have "state_step\<^sup>+\<^sup>+ WAITING ALLOCATED"
    by (rule tranclp.trancl_into_trancl, rule tranclp.r_into_trancl, rule state_step_intros, rule state_step_intros)
  moreover have "state_step\<^sup>+\<^sup>+ WAITING SCHEDULING" "state_step\<^sup>+\<^sup>+ SCHEDULING ALLOCATED"
    by (rule tranclp.r_into_trancl, rule state_step_intros)+
  moreover have "state (reqHeap (requestManager s') a) = state (reqHeap q a)
      \<or> state (reqHeap q a) = SCHEDULING \<and> state (reqHeap (requestManager s') a) = ALLOCATED"
    using full_round_from [OF srt w inv full(2-4), of now] full(1) by auto
  ultimately show ?thesis using full(7) [rule_format, of a] by (elim disjE conjE) simp_all
qed

lemma round_nextReq:
  assumes srt: "std_sort srt" and w: "weights_ok (metaCfg (gcfg gc))" and inv: "ginv gc C s"
    and r: "scheduler_round srt gc now locks owns_lock s = Some s'"
  shows "nextReq (requestManager s') = nextReq (requestManager s)"
  using inv r
proof (cases rule: scheduler_round_cases)
  case (early S q u)
  then show ?thesis by (simp add: same_reqs_def)
next
  case (full S q rm)
  with full_round_from [OF srt w inv full(2-4), of now] show ?thesis by (auto simp: same_reqs_def)
qed

lemma round_map:
  assumes srt: "std_sort srt" and w: "weights_ok (metaCfg (gcfg gc))" and inv: "ginv gc C s"
    and r: "scheduler_round srt gc now locks owns_lock s = Some s'"
  shows "resourceMap (resourceManager s') = resourceMap (resourceManager s)"
  using inv r
proof (cases rule: scheduler_round_cases)
  case (full S q rm)
  with full_round_from [OF srt w inv full(2-4), of now] show ?thesis by (auto simp: same_open_def)
qed simp

subsection \<open>The other steps keep the invariant\<close>

definition res_inv :: "gs_cfg \<Rightarrow> u64 set \<Rightarrow> RequestManager \<Rightarrow> ResourceManager \<Rightarrow> bool" where
  "res_inv gc C q rm \<longleftrightarrow> books (gcfg gc) C q rm \<and> all_open C rm \<and> resView rm = new_ResourceViewManager"

lemma ginv_resources:
  "ginv gc C s \<Longrightarrow> res_inv gc C (requestManager s) rm \<Longrightarrow> ginv gc C (s\<lparr>resourceManager := rm\<rparr>)"
  by (simp add: ginv_def res_inv_def)

lemma ginv_res_inv: "ginv gc C s \<Longrightarrow> res_inv gc C (requestManager s) (resourceManager s)"
  by (simp add: ginv_def res_inv_def)

lemma ginv_on_resources:
  assumes "ginv gc C s" "on_resources (count_loop f xs) s = (n, s')"
    and "\<And>x rm. x \<in> set xs \<Longrightarrow> res_inv gc C (requestManager s) rm \<Longrightarrow> res_inv gc C (requestManager s) (snd (f x rm))"
  shows "ginv gc C s'"
proof -
  have "res_inv gc C (requestManager s) (snd (count_loop f xs (resourceManager s)))"
    by (rule count_loop_inv [OF ginv_res_inv [OF assms(1)] assms(3)])
  from ginv_resources [OF assms(1) this] assms(2) show ?thesis
    by (auto simp: on_resources_def split: prod.splits)
qed

lemma res_inv_ledger:
  assumes "same_ledger rm rm'" "resView rm' = resView rm" "res_inv gc C q rm"
    and "\<And>i a l. i \<notin> C \<Longrightarrow> map_of (resourceMap rm) i = Some (a, l) \<Longrightarrow>
           \<not> isInstanceClosed (sched_of rm a) \<Longrightarrow> \<not> isInstanceClosed (sched_of rm' a)"
  shows "res_inv gc C q rm'"
proof -
  have "all_open C rm'"
    unfolding all_open_def using same_ledger_addr [OF assms(1)] assms(3,4) unfolding res_inv_def all_open_def by blast
  with assms(2,3) books_same_ledger [OF assms(1)] show ?thesis by (simp add: res_inv_def)
qed

lemma res_inv_rm_ok: "res_inv gc C q rm \<Longrightarrow> rm_ok (gcfg gc) rm"
  by (simp add: res_inv_def books_def)

lemma res_inv_update_one:
  assumes "res_inv gc C q rm"
  shows "res_inv gc C q (snd (update_one (gcfg gc) ins rm))"
proof (rule res_inv_ledger [OF same_ledger_update_one [OF res_inv_rm_ok [OF assms]] _ assms])
  show "resView (snd (update_one (gcfg gc) ins rm)) = resView rm"
    by (auto simp: update_one_def split: option.split)
  have "isInstanceClosed (CountAllocateUnmatch b x) = isInstanceClosed x" for b x
    by (simp add: CountAllocateUnmatch_def)
  then show "\<not> isInstanceClosed (sched_of (snd (update_one (gcfg gc) ins rm)) a)"
    if "\<not> isInstanceClosed (sched_of rm a)" for i a l
    using that by (auto simp: update_one_def upd_res_def UpdateScheduleLoad_def UpdateStaticInfo_def split: option.split)
qed

lemma res_inv_closed_one:
  assumes "res_inv gc C q rm" "c \<longrightarrow> i \<in> C"
  shows "res_inv gc C q (snd (set_closed_one c i rm))"
proof (rule res_inv_ledger [OF same_ledger_closed_one [OF res_inv_rm_ok [OF assms(1)]] _ assms(1)])
  show "resView (snd (set_closed_one c i rm)) = resView rm"
    by (auto simp: set_closed_one_def split: option.split)
  show "\<not> isInstanceClosed (sched_of (snd (set_closed_one c i rm)) a)"
    if j: "j \<notin> C" "map_of (resourceMap rm) j = Some (a, l)" and o: "\<not> isInstanceClosed (sched_of rm a)" for j a l
  proof (cases "map_of (resourceMap rm) i")
    case None
    with o show ?thesis by (simp add: set_closed_one_def)
  next
    case (Some bl)
    obtain b l' where bl: "bl = (b, l')" by force
    have "c \<Longrightarrow> a \<noteq> b" using rm_ok_inj [OF res_inv_rm_ok [OF assms(1)] j(2)] Some bl assms(2) j(1) by blast
    with Some bl o show ?thesis
      by (auto simp: set_closed_one_def upd_sched_def upd_res_def SI_CloseInstance_def SI_ActivateInstance_def)
  qed
qed

lemma res_inv_remove_one:
  assumes "res_inv gc C q rm" "i \<in> C"
  shows "res_inv gc C q (snd (remove_one i rm))"
proof -
  have ok: "omap_ok (resourceMap rm)" using res_inv_rm_ok [OF assms(1)] by (simp add: rm_ok_def)
  have "all_open C (snd (remove_one i rm))" "resView (snd (remove_one i rm)) = resView rm"
    using assms(1) ok by (auto simp: res_inv_def all_open_def remove_one_def omap_simps split: option.splits if_splits)
  with assms(1) books_remove_one [OF _ assms(2)] show ?thesis by (simp add: res_inv_def)
qed

lemma res_inv_register:
  "res_inv gc C q rm \<Longrightarrow> \<forall>i \<in> set ins. st_id i \<noteq> ILLEGAL_INSTANCE_ID \<Longrightarrow>
     RegisterInstance (gcfg gc) ins rm = Some (n, rm') \<Longrightarrow> res_inv gc C q rm'"
proof (induction ins arbitrary: rm n)
  case Nil
  then show ?case by simp
next
  case (Cons i ins)
  from Cons.prems(3) obtain ok rm1 n1 where one: "register_one (gcfg gc) i rm = Some (ok, rm1)"
    and rest: "RegisterInstance (gcfg gc) ins rm1 = Some (n1, rm')" by (auto split: option.splits)
  have id: "st_id i \<noteq> ILLEGAL_INSTANCE_ID" using Cons.prems(2) by simp
  have b: "books (gcfg gc) C q rm1"
    using books_register_one [OF _ id one] Cons.prems(1) by (simp add: res_inv_def)
  from one obtain r where new: "new_ResourceInfo (gcfg gc) i (resLimitRate (gcfg gc)) = Some r"
    and rm1: "rm1 = rm\<lparr>resHeap := (resHeap rm)(nextRes rm := r), nextRes := Suc (nextRes rm),
       resourceMap := omap_insert (st_id i) (nextRes rm, new_ResourceLoad) (resourceMap rm)\<rparr>"
    by (auto simp: register_one_def Let_def split: option.splits)
  have addr: "a \<noteq> nextRes rm" if "map_of (resourceMap rm) j = Some (a, l)" for j a l
    using res_inv_rm_ok [OF Cons.prems(1)] that by (auto simp: rm_ok_def)
  have "all_open C rm1" using Cons.prems(1) inst_ok_new(3) [OF new id]
    by (auto simp: res_inv_def all_open_def rm1 omap_simps dest: addr split: if_splits)
  with b Cons.prems(1) have "res_inv gc C q rm1" by (simp add: res_inv_def rm1)
  with Cons.IH [OF _ _ rest] Cons.prems(2) show ?case by simp
qed

lemma ginv_requests:
  "ginv gc C s \<Longrightarrow> books (gcfg gc) C q (resourceManager s) \<Longrightarrow> queues_ok q S N \<Longrightarrow>
     ginv gc C (s\<lparr>requestManager := q, schedulingReqs := S, notifyQueue := N\<rparr>)"
  by (simp add: ginv_def)

lemma fits_same_reqs: "same_reqs q q' \<Longrightarrow> fits cfg q' = fits cfg q"
proof -
  assume s: "same_reqs q q'"
  have "GenerateDemand cfg (reqHeap q' a) = GenerateDemand cfg (reqHeap q a)" for a
    using s by (intro GenerateDemand_cong) (simp add: same_reqs_def)
  with s show ?thesis by (simp add: fits_def) (simp add: same_reqs_def)
qed

lemma ginv_new_request:
  assumes inv: "ginv gc C s" and p: "ProcReq_tokens now rid len s = (st, s')" and f: "fits (gcfg gc) (requestManager s')"
  shows "ginv gc C s'"
proof -
  let ?q = "requestManager s"
  obtain q' where q': "AddReq (Some (new_DIGSRequest now rid len)) ?q = (st, q')" and s': "s' = s\<lparr>requestManager := q'\<rparr>"
    using p by (auto simp: ProcReq_tokens_def split: prod.splits)
  from inv have qs: "queues_ok ?q (schedulingReqs s) (notifyQueue s)" and b: "books (gcfg gc) C ?q (resourceManager s)"
    by (simp_all add: ginv_def)
  note A = AddReq_queues [OF qs q']
  from A(2) obtain r where r: "scheduleInfo r = None"
    and eq: "q'\<lparr>reqId2Callback := reqId2Callback ?q, waitingQueue := waitingQueue ?q\<rparr>
        = ?q\<lparr>reqHeap := (reqHeap ?q)(nextReq ?q := r), nextReq := Suc (nextReq ?q)\<rparr>" (is "?l = ?q0") by blast
  have same: "same_reqs ?q0 q'" unfolding eq [symmetric] by (simp add: same_reqs_def)
  have "fits (gcfg gc) ?q0" using f fits_same_reqs [OF same] by (simp add: s')
  from books_same_reqs [OF same books_new_request [OF b r refl this]] A(1) inv
  show ?thesis by (simp add: ginv_def s')
qed

lemma ginv_stop:
  assumes inv: "ginv gc C s" and f: "fits (gcfg gc) (requestManager (Stop now s))"
  shows "ginv gc C (Stop now s)"
proof -
  let ?q = "requestManager s" and ?r = "empty_DIGSRequest now"
  let ?q' = "?q\<lparr>reqHeap := (reqHeap ?q)(nextReq ?q := ?r), nextReq := Suc (nextReq ?q)\<rparr>"
  have r: "scheduleInfo ?r = None" "state ?r = INVALID" by (simp_all add: empty_DIGSRequest_def)
  from inv have b: "books (gcfg gc) C ?q (resourceManager s)" and qs: "queues_ok ?q (schedulingReqs s) (notifyQueue s)"
    by (simp_all add: ginv_def)
  have "fits (gcfg gc) ?q'" using f by (simp add: Stop_def Let_def)
  from books_new_request [OF b r(1) refl this] have "books (gcfg gc) C ?q' (resourceManager s)" .
  moreover have "queues_ok ?q' (schedulingReqs s) (notifyQueue s @ [nextReq ?q])"
    by (rule queues_new_request [OF qs r(1)]) (simp_all add: r(2) subset_insertI)
  ultimately show ?thesis using inv by (simp add: ginv_def Stop_def Let_def Push_def)
qed

lemma ginv_update_req:
  assumes inv: "ginv gc C s" and u: "DS_UpdateReq rid stage pt dt n s = (st, s')"
  shows "ginv gc C s'"
proof -
  let ?q = "requestManager s"
  from inv have qs: "queues_ok ?q (schedulingReqs s) (notifyQueue s)" "rq_ok (gcfg gc) ?q"
    and b: "books (gcfg gc) C ?q (resourceManager s)" by (simp_all add: ginv_def books_def)
  obtain b' q' where s': "s' = s\<lparr>requestManager := q', requestUpdated := requestUpdated s \<or> b'\<rparr>"
    and q': "queues_ok q' (schedulingReqs s) (notifyQueue s) \<and> same_reqs ?q q'"
  proof (cases stage)
    case PREFILL
    obtain st1 b1 q1 where "UpdateReq rid pt ?q = (st1, b1, q1)" by (metis prod_cases3)
    with PREFILL u UpdateReq_queues [OF qs this] that show ?thesis by (auto simp: DS_UpdateReq_def)
  next
    case DECODE
    obtain st1 b1 q1 where "RemoveReq rid pt dt n ?q = (st1, b1, q1)" by (metis prod_cases3)
    with DECODE u RemoveReq_queues [OF qs this] that show ?thesis by (auto simp: DS_UpdateReq_def)
  qed
  from q' books_same_reqs [OF _ b] inv show ?thesis by (simp add: s' ginv_def)
qed

text \<open>Taking the head of the notification queue: back to scheduling, or out of the queues.\<close>

lemma queues_notify:
  assumes ok: "queues_ok q S (a # N)"
  shows "state (reqHeap q a) = SCHEDULING \<Longrightarrow> queues_ok q (S @ [a]) N"
    and "state (reqHeap q a) \<noteq> SCHEDULING \<Longrightarrow> queues_ok q S N"
    and "state (reqHeap q a) = ALLOCATED \<Longrightarrow>
      queues_ok (q\<lparr>reqHeap := (reqHeap q)(a := (reqHeap q a)\<lparr>state := SCHEDULING\<rparr>)\<rparr>) (a # S) N"
proof -
  note D = queues_okD [OF ok]
  have a: "a < nextReq q" using D(2) [of a] by simp
  show "queues_ok q (S @ [a]) N" if "state (reqHeap q a) = SCHEDULING"
  proof (rule queues_okI)
    show "distinct (waitingQueue q @ (S @ [a]) @ N)" using D(1) by auto
    show "b < nextReq q" if "b \<in> set (waitingQueue q) \<union> set (S @ [a]) \<union> set N \<union> set (processingQueue q) \<union> ran (reqId2Callback q)" for b
      using D(2) [of b] that by auto
    show "b \<in> set ((S @ [a]) @ N)" if "b < nextReq q" "state (reqHeap q b) = SCHEDULING" for b
      using D(5) [OF that] by auto
    show "state (reqHeap q b) = INVALID \<or> scheduleInfo (reqHeap q b) \<noteq> None" if "b \<in> set N" for b
      using D(8) [of b] that by simp
  qed (fact D(3,4,6,7))+
  show "queues_ok q S N" if st: "state (reqHeap q a) \<noteq> SCHEDULING"
  proof (rule queues_okI)
    show "distinct (waitingQueue q @ S @ N)" using D(1) by auto
    show "b < nextReq q" if "b \<in> set (waitingQueue q) \<union> set S \<union> set N \<union> set (processingQueue q) \<union> ran (reqId2Callback q)" for b
      using D(2) [of b] that by auto
    show "b \<in> set (S @ N)" if "b < nextReq q" "state (reqHeap q b) = SCHEDULING" for b
      using D(5) [OF that] that st by auto
    show "state (reqHeap q b) = INVALID \<or> scheduleInfo (reqHeap q b) \<noteq> None" if "b \<in> set N" for b
      using D(8) [of b] that by simp
  qed (fact D(3,4,6,7))+
  show "queues_ok (q\<lparr>reqHeap := (reqHeap q)(a := (reqHeap q a)\<lparr>state := SCHEDULING\<rparr>)\<rparr>) (a # S) N"
    if st: "state (reqHeap q a) = ALLOCATED"
  proof (rule queues_okI)
    let ?q = "q\<lparr>reqHeap := (reqHeap q)(a := (reqHeap q a)\<lparr>state := SCHEDULING\<rparr>)\<rparr>"
    have p: "a \<in> set (processingQueue q)" using D(6) [OF a] st by simp
    have w: "a \<notin> set (waitingQueue q)" "a \<notin> set N" using D(1) by auto
    show "distinct (waitingQueue ?q @ (a # S) @ N)" using D(1) by auto
    show "b < nextReq ?q" if "b \<in> set (waitingQueue ?q) \<union> set (a # S) \<union> set N \<union> set (processingQueue ?q) \<union> ran (reqId2Callback ?q)" for b
      using D(2) [of b] that by auto
    show "state (reqHeap ?q b) = WAITING" if "b \<in> set (waitingQueue ?q)" for b
      using D(3) [of b] that w by auto
    show "b \<in> set (waitingQueue ?q)" if "b < nextReq ?q" "state (reqHeap ?q b) = WAITING" for b
      using D(4) [of b] that by (cases "b = a") auto
    show "b \<in> set ((a # S) @ N)" if "b < nextReq ?q" "state (reqHeap ?q b) = SCHEDULING" for b
      using D(5) [of b] that by (cases "b = a") auto
    show "b \<in> set (processingQueue ?q)" if "b < nextReq ?q" "state (reqHeap ?q b) \<in> {SCHEDULING, ALLOCATED, PREFILL_END}" for b
      using D(6) [of b] that p by (cases "b = a") auto
    show "b \<in> set (processingQueue ?q)" if "holds s i (reqHeap ?q b)" for b s i
      using D(7) [of s i b] that p by (cases "b = a") auto
    show "state (reqHeap ?q b) = INVALID \<or> scheduleInfo (reqHeap ?q b) \<noteq> None" if "b \<in> set N" for b
      using D(8) [of b] that w by (cases "b = a") auto
  qed
qed

lemma ginv_notify:
  assumes inv: "ginv gc C s" and n: "notify_round accepted s = Some s'"
  shows "ginv gc C s'"
proof -
  let ?q = "requestManager s"
  from n obtain a N where N: "notifyQueue s = a # N" by (auto simp: notify_round_def Take_def split: list.splits)
  from inv N have ok: "queues_ok ?q (schedulingReqs s) (a # N)" and b: "books (gcfg gc) C ?q (resourceManager s)"
    by (simp_all add: ginv_def)
  have nw: "state (reqHeap ?q a) \<noteq> WAITING"
    using queues_okD(1,4) [OF ok] queues_okD(2) [OF ok, of a] by auto
  let ?r = "(reqHeap ?q a)\<lparr>state := SCHEDULING\<rparr>"
  let ?q1 = "?q\<lparr>reqHeap := (reqHeap ?q)(a := ?r)\<rparr>"
  have b1: "books (gcfg gc) C ?q1 (resourceManager s)"
    by (rule books_same_reqs [OF same_reqs_upd b]) simp_all
  note Q = queues_notify [OF ok]
  have cases: "s' = s\<lparr>notifyQueue := N\<rparr> \<and> state (reqHeap ?q a) \<noteq> SCHEDULING
     \<or> s' = s\<lparr>notifyQueue := N, schedulingReqs := schedulingReqs s @ [a]\<rparr> \<and> state (reqHeap ?q a) = SCHEDULING
     \<or> s' = s\<lparr>notifyQueue := N, requestManager := ?q1, schedulingReqs := a # schedulingReqs s\<rparr> \<and> state (reqHeap ?q a) = ALLOCATED"
    using n nw by (cases "state (reqHeap ?q a)")
      (auto simp: notify_round_def Take_def N Let_def UpdateState2Scheduling_def split: if_splits)
  then show ?thesis
  proof (elim disjE conjE)
    assume "s' = s\<lparr>notifyQueue := N\<rparr>" "state (reqHeap ?q a) \<noteq> SCHEDULING"
    with Q(2) inv show ?thesis by (simp add: ginv_def)
  next
    assume "s' = s\<lparr>notifyQueue := N, schedulingReqs := schedulingReqs s @ [a]\<rparr>" "state (reqHeap ?q a) = SCHEDULING"
    with Q(1) inv show ?thesis by (simp add: ginv_def)
  next
    assume "s' = s\<lparr>notifyQueue := N, requestManager := ?q1, schedulingReqs := a # schedulingReqs s\<rparr>"
      "state (reqHeap ?q a) = ALLOCATED"
    with Q(3) b1 inv show ?thesis by (simp add: ginv_def)
  qed
qed

subsection \<open>Runs\<close>

text \<open>
  The states the scheduler can reach. Every rule is one call of the interface or one round of a
  thread. \<open>C\<close> collects the instances that are closed or removed in the run; the demands of all
  requests ever added fit in 64 bits; the reserved id is never registered.
\<close>

inductive digs_run :: "sort_fn \<Rightarrow> gs_cfg \<Rightarrow> u64 set \<Rightarrow> digs \<Rightarrow> bool" for srt gc C where
  start: "digs_run srt gc C (new_digs h maxSummary)"
| callback: "digs_run srt gc C s \<Longrightarrow> digs_run srt gc C (RegisterNotifyAllocation s)"
| request: "digs_run srt gc C s \<Longrightarrow> ProcReq_tokens now rid len s = (st, s') \<Longrightarrow>
    fits (gcfg gc) (requestManager s') \<Longrightarrow> digs_run srt gc C s'"
| update: "digs_run srt gc C s \<Longrightarrow> DS_UpdateReq rid stage pt dt n s = (st, s') \<Longrightarrow> digs_run srt gc C s'"
| register: "digs_run srt gc C s \<Longrightarrow> \<forall>i \<in> set ins. st_id i \<noteq> ILLEGAL_INSTANCE_ID \<Longrightarrow>
    DS_RegisterInstance gc ins s = Some (failed, s') \<Longrightarrow> digs_run srt gc C s'"
| report: "digs_run srt gc C s \<Longrightarrow> DS_UpdateInstance gc dyn s = (failed, s') \<Longrightarrow> digs_run srt gc C s'"
| close: "digs_run srt gc C s \<Longrightarrow> set ids \<subseteq> C \<Longrightarrow> DS_CloseInstance ids s = (failed, s') \<Longrightarrow> digs_run srt gc C s'"
| activate: "digs_run srt gc C s \<Longrightarrow> DS_ActivateInstance ids s = (failed, s') \<Longrightarrow> digs_run srt gc C s'"
| remove: "digs_run srt gc C s \<Longrightarrow> set ids \<subseteq> C \<Longrightarrow> DS_RemoveInstance ids s = (failed, s') \<Longrightarrow> digs_run srt gc C s'"
| summary: "digs_run srt gc C s \<Longrightarrow> QueryRequestSummary s = (sm, s') \<Longrightarrow> digs_run srt gc C s'"
| round: "digs_run srt gc C s \<Longrightarrow> \<not> schedulerTerminate s \<Longrightarrow>
    scheduler_round srt gc now locks owns_lock s = Some s' \<Longrightarrow> digs_run srt gc C s'"
| notify: "digs_run srt gc C s \<Longrightarrow> notify_round accepted s = Some s' \<Longrightarrow> digs_run srt gc C s'"
| stop: "digs_run srt gc C s \<Longrightarrow> fits (gcfg gc) (requestManager (Stop now s)) \<Longrightarrow> digs_run srt gc C (Stop now s)"

lemma ginv_start: "ginv gc C (new_digs h n)"
proof -
  let ?q = "new_RequestManager n" and ?rm = "new_ResourceManager h"
  have e: "scheduleInfo (reqHeap ?q a) = None" for a by (simp add: new_RequestManager_def empty_DIGSRequest_def)
  then have "\<not> holds st i (reqHeap ?q a)" for st i a by (simp add: holds_def)
  moreover have "books_at (gcfg gc) ?q ?rm i" for i
    using e by (simp add: books_at_def new_ResourceManager_def holds_def)
  moreover have "rq_ok (gcfg gc) ?q" using e by (simp add: rq_ok_def)
  ultimately show ?thesis
    by (simp add: ginv_def new_digs_def books_def queues_ok_def all_open_def rm_ok_def fits_def)
       (simp add: new_RequestManager_def new_ResourceManager_def)
qed

lemma ginv_register_instances:
  assumes "ginv gc C s" "\<forall>i \<in> set ins. st_id i \<noteq> ILLEGAL_INSTANCE_ID" "DS_RegisterInstance gc ins s = Some (n, s')"
  shows "ginv gc C s'"
proof -
  from assms(3) obtain rm where "RegisterInstance (gcfg gc) ins (resourceManager s) = Some (n, rm)"
    and "s' = s\<lparr>resourceManager := rm\<rparr>" by (auto simp: DS_RegisterInstance_def)
  with ginv_resources [OF assms(1) res_inv_register [OF ginv_res_inv [OF assms(1)] assms(2)]] show ?thesis by blast
qed

lemma ginv_summary:
  assumes "ginv gc C s" "QueryRequestSummary s = (sm, s')"
  shows "ginv gc C s'"
proof -
  let ?q = "CalculateSummary (requestManager s)"
  have f: "reqHeap ?q = reqHeap (requestManager s)" "nextReq ?q = nextReq (requestManager s)"
    "waitingQueue ?q = waitingQueue (requestManager s)" "processingQueue ?q = processingQueue (requestManager s)"
    "reqId2Callback ?q = reqId2Callback (requestManager s)" by (simp_all add: CalculateSummary_def)
  have "s' = s\<lparr>requestManager := ?q\<rparr>" using assms(2) by (simp add: QueryRequestSummary_def Let_def)
  moreover have "same_reqs (requestManager s) ?q" by (simp add: same_reqs_def f)
  moreover have "queues_ok ?q S N = queues_ok (requestManager s) S N" for S N by (simp add: queues_ok_def f)
  ultimately show ?thesis using assms(1) books_same_reqs by (auto simp: ginv_def)
qed

lemma ginv_callback: "ginv gc C s \<Longrightarrow> ginv gc C (RegisterNotifyAllocation s)"
  by (simp add: ginv_def RegisterNotifyAllocation_def Start_def)

lemma ginv_run:
  assumes "digs_run srt gc C s" "std_sort srt" "weights_ok (metaCfg (gcfg gc))"
  shows "ginv gc C s"
  using assms(1)
proof (induction rule: digs_run.induct)
  case (report s dyn failed s')
  then show ?case unfolding DS_UpdateInstance_def UpdateInstance_def
    by (auto elim!: ginv_on_resources intro!: res_inv_update_one)
next
  case (close s ids failed s')
  then show ?case unfolding DS_CloseInstance_def CloseInstance_def
    by (auto elim!: ginv_on_resources intro!: res_inv_closed_one)
next
  case (activate s ids failed s')
  then show ?case unfolding DS_ActivateInstance_def ActivateInstance_def
    by (auto elim!: ginv_on_resources intro!: res_inv_closed_one)
next
  case (remove s ids failed s')
  then show ?case unfolding DS_RemoveInstance_def RemoveInstance_def
    by (auto elim!: ginv_on_resources intro!: res_inv_remove_one)
qed (use assms(2,3) in \<open>blast intro: ginv_start ginv_callback ginv_new_request ginv_update_req
    ginv_register_instances ginv_summary ginv_round ginv_notify ginv_stop\<close>)+

subsection \<open>Rounds that run to the end\<close>

lemma add_open_total:
  assumes "\<not> isDynamicMaxResEnabled cfg"
  shows "\<exists>rm'. add_open cfg es rm = Some rm'"
proof (induction es arbitrary: rm)
  case (Cons e es)
  obtain i ri where e: "e = (i, ri)" by (cases e)
  have "\<exists>rm1. AddResInfo cfg ri rm = Some rm1" using assms
    by (simp add: AddResInfo_def ReviseMaxResource_def Let_def)
  with Cons show ?case by (auto simp: e)
qed simp

lemma round_total:
  assumes srt: "std_sort srt" and w: "weights_ok (metaCfg (gcfg gc))" and inv: "ginv gc C s"
    and dyn: "\<not> isDynamicMaxResEnabled (gcfg gc)"
  shows "\<exists>s'. scheduler_round srt gc now locks owns_lock s = Some s'"
proof -
  obtain S q where pull: "PullRequest locks (maxScheduleCount gc) (schedulingReqs s) (requestManager s) = (S, q)" by force
  from inv have qs: "queues_ok (requestManager s) (schedulingReqs s) (notifyQueue s)"
    and rm0: "rm_ok (gcfg gc) (resourceManager s)" and v0: "resView (resourceManager s) = new_ResourceViewManager"
    by (auto simp: ginv_def books_def)
  from PullRequest_queues [OF qs pull] have q: "queues_ok q S (notifyQueue s)" "same_reqs (requestManager s) q" by auto
  from add_open_total [OF dyn] obtain rm
    where add: "add_open (gcfg gc) (resourceMap (resourceManager s)) (resourceManager s) = Some rm" by blast
  have "view_upto (resourceManager s) ([] @ resourceMap (resourceManager s)) rm"
    by (rule add_open_ok [OF rm0 _ view_upto_start [OF rm0 v0] add]) simp
  then have up: "view_upto (resourceManager s) (resourceMap (resourceManager s)) rm" by simp
  from full_round_from [OF srt w inv q up, of now] v0 show ?thesis
    by (auto simp: scheduler_round_eq pull UpdateResourceView_def add Let_def view_Empty_def new_ResourceViewManager_def)
qed

text \<open>A round that has something to do, gets the lock and finds an open instance runs to the end.\<close>

lemma round_full:
  assumes inv: "ginv gc C s" and r: "scheduler_round srt gc now locks owns_lock s = Some s'"
    and srt: "std_sort srt" and w: "weights_ok (metaCfg (gcfg gc))"
    and own: owns_lock and todo: "requestUpdated s \<or> schedulingReqs s \<noteq> []
      \<or> waitingQueue (requestManager s) \<noteq> [] \<and> 0 < locks \<and> 0 < maxScheduleCount gc"
    and inst: "map_of (resourceMap (resourceManager s)) i = Some (b, l)" "\<not> isInstanceClosed (sched_of (resourceManager s) b)"
    and e: "state (reqHeap (requestManager s') a) = DECODE_END"
  shows "\<not> holds st j (reqHeap (requestManager s') a)"
proof -
  obtain S q where pull: "PullRequest locks (maxScheduleCount gc) (schedulingReqs s) (requestManager s) = (S, q)" by force
  from inv have qs: "queues_ok (requestManager s) (schedulingReqs s) (notifyQueue s)"
    and rm0: "rm_ok (gcfg gc) (resourceManager s)" and v0: "resView (resourceManager s) = new_ResourceViewManager"
    by (auto simp: ginv_def books_def)
  from PullRequest_queues [OF qs pull] have q: "queues_ok q S (notifyQueue s)" "same_reqs (requestManager s) q" by auto
  have S: "requestUpdated s \<or> S \<noteq> []" using PullRequest_some [OF pull] todo by blast
  from r own S obtain rm
    where add: "add_open (gcfg gc) (resourceMap (resourceManager s)) (resourceManager s) = Some rm"
    by (auto simp: scheduler_round_eq pull Let_def UpdateResourceView_def split: if_splits option.splits)
  have "view_upto (resourceManager s) ([] @ resourceMap (resourceManager s)) rm"
    by (rule add_open_ok [OF rm0 _ view_upto_start [OF rm0 v0] add]) simp
  then have up: "view_upto (resourceManager s) (resourceMap (resourceManager s)) rm" by simp
  have "(i, (b, l)) \<in> set (resourceMap (resourceManager s))" using map_of_SomeD [OF inst(1)] .
  with up inst(2) have "rv_view (resView rm) \<noteq> []" by (force simp: view_upto_def filter_empty_conv)
  with r own S add have "full_round srt gc now (s\<lparr>requestManager := q, schedulingReqs := S,
      requestUpdated := False, resourceManager := rm\<rparr>) = Some s'"
    by (auto simp: scheduler_round_eq pull Let_def UpdateResourceView_def view_Empty_def split: if_splits)
  with full_round_from [OF srt w inv q up, of now] e show ?thesis by auto
qed

end
