(* ===== verification/Sample_Run.thy ===== *)
theory Sample_Run
  imports Digs_Run
begin

text \<open>
  A small deployment used to exercise the theorems: one prefill and one decode instance of one
  group, with the built-in weights, and one request.
\<close>

definition ex_gc :: gs_cfg where
  "ex_gc = \<lparr>fwCfg = \<lparr>reorderingPolicy = FCFS, selectPolicy = LOAD_BALANCE,
     digsCfg = \<lparr>metaCfg = init_meta_cfg, isDynamicMaxResEnabled = False, maxDynamicResRateCount = 3,
       dynamicResRateUnit = Fin 0, resLimitRate = Fin 1, blockSizeCfg = 128\<rparr>\<rparr>, maxScheduleCount = 10000\<rparr>"

definition ex_prefill :: DIGSInstanceStaticInfo where
  "ex_prefill = (default_static 1 0)\<lparr>st_label := PREFILL_STATIC, st_role := PREFILL_INSTANCE\<rparr>"

definition ex_decode :: DIGSInstanceStaticInfo where
  "ex_decode = (default_static 2 0)\<lparr>st_label := DECODE_STATIC, st_role := DECODE_INSTANCE\<rparr>"

definition ex_info :: "DIGSInstanceStaticInfo \<Rightarrow> ResourceInfo" where
  "ex_info ins = \<lparr>ri_sched = snd (UpdateRole (st_role ins)
       (SetMaxRes (MetaResource_of [200, 1024]) (MetaResource_of [200, 1024])
          (new_ResScheduleInfo init_meta_cfg (st_id ins) (st_label ins)))),
     ri_static = ins, ri_total = MetaResource_of [200, 1024], ri_maxResRate = Fin 1, ri_dynamicResRate = Fin 1\<rparr>"

lemma ex_new: "new_ResourceInfo (gcfg ex_gc) ex_prefill (Fin 1) = Some (ex_info ex_prefill)"
  "new_ResourceInfo (gcfg ex_gc) ex_decode (Fin 1) = Some (ex_info ex_decode)"
  by (simp_all add: new_ResourceInfo_def ex_gc_def ex_info_def ex_prefill_def ex_decode_def default_static_def
      ResMul_one total_attr_def init_meta_cfg_def Let_def MetaResource_copy_def MetaResource_of_def)

definition ex_rm :: ResourceManager where
  "ex_rm = \<lparr>resHeap = (\<lambda>_. ex_info ex_prefill)(1 := ex_info ex_decode), nextRes = 2,
     resourceMap = [(1, (0, new_ResourceLoad)), (2, (1, new_ResourceLoad))], resView = new_ResourceViewManager\<rparr>"

definition ex_s0 :: digs where
  "ex_s0 = new_digs (\<lambda>_. ex_info ex_prefill) 10"

definition ex_s1 :: digs where
  "ex_s1 = ex_s0\<lparr>resourceManager := ex_rm\<rparr>"

lemma ex_register: "DS_RegisterInstance ex_gc [ex_prefill, ex_decode] ex_s0 = Some (0, ex_s1)"
proof -
  have "resLimitRate (gcfg ex_gc) = Fin 1" by (simp add: ex_gc_def)
  moreover have "st_id ex_prefill = 1" "st_id ex_decode = 2" by (simp_all add: ex_prefill_def ex_decode_def default_static_def)
  moreover have "(\<lambda>_ :: nat. ex_info ex_prefill)(0 := ex_info ex_prefill) = (\<lambda>_. ex_info ex_prefill)" by auto
  ultimately show ?thesis
    by (simp add: DS_RegisterInstance_def register_one_def ex_new Let_def ex_s0_def ex_s1_def ex_rm_def new_digs_def
        new_ResourceManager_def omap_insert_def numeral_2_eq_2)
qed

lemma ex_run1: "digs_run srt ex_gc {} ex_s1"
proof (rule digs_run.register [OF _ _ ex_register])
  show "digs_run srt ex_gc {} ex_s0" unfolding ex_s0_def by (rule digs_run.start)
  show "\<forall>i \<in> set [ex_prefill, ex_decode]. st_id i \<noteq> ILLEGAL_INSTANCE_ID"
    by (simp add: ex_prefill_def ex_decode_def default_static_def ILLEGAL_INSTANCE_ID_def)
qed

definition ex_s2 :: digs where
  "ex_s2 = snd (ProcReq_tokens 0 ''r'' 100 ex_s1)"

lemma ex_s2_eq: "ex_s2 = ex_s1\<lparr>requestManager := (new_RequestManager 10)\<lparr>
    reqHeap := (\<lambda>_. empty_DIGSRequest 0)(0 := new_DIGSRequest 0 ''r'' 100), nextReq := 1,
    reqId2Callback := [''r'' \<mapsto> 0], waitingQueue := [0]\<rparr>\<rparr>"
  by (simp add: ex_s2_def ProcReq_tokens_def AddReq_def new_DIGSRequest_def ex_s1_def ex_s0_def new_digs_def
      new_RequestManager_def Let_def)

lemma ex_run2: "digs_run srt ex_gc {} ex_s2"
proof (rule digs_run.request [OF ex_run1])
  show "ProcReq_tokens 0 ''r'' 100 ex_s1 = (fst (ProcReq_tokens 0 ''r'' 100 ex_s1), ex_s2)" by (simp add: ex_s2_def)
  have "nextReq (requestManager ex_s2) = 1" by (simp add: ex_s2_eq)
  then show "fits (gcfg ex_gc) (requestManager ex_s2)"
    unfolding fits_def by (simp only: lessThan_Suc One_nat_def lessThan_0) (simp add: u64_bound [simplified])
qed

text \<open>The decode instance reports that it is connected to the prefill instance; the callback is set.\<close>

definition ex_report :: DIGSInstanceDynamicInfo where
  "ex_report = (default_dynamic 2)\<lparr>dy_peers := [1]\<rparr>"

definition ex_s3 :: digs where
  "ex_s3 = RegisterNotifyAllocation (snd (DS_UpdateInstance ex_gc [ex_report] ex_s2))"

lemma ex_run3: "digs_run srt ex_gc {} ex_s3"
  unfolding ex_s3_def
  by (intro digs_run.callback digs_run.report [OF ex_run2, of "[ex_report]"
        "fst (DS_UpdateInstance ex_gc [ex_report] ex_s2)"]) simp

lemma ex_s3_eq: "ex_s3 = ex_s2\<lparr>resourceManager := ex_rm\<lparr>resourceMap := [(1, (0, new_ResourceLoad)), (2, (1, ex_report))]\<rparr>,
   callbackSet := True, schedulerTerminate := False\<rparr>"
proof -
  have "upd_res 1 (UpdateStaticInfo ex_report) ex_rm = ex_rm"
    by (auto simp: ex_rm_def upd_res_def UpdateStaticInfo_def ex_report_def default_dynamic_def ex_info_def ex_decode_def default_static_def)
  then show ?thesis
    by (simp add: ex_s3_def DS_UpdateInstance_def UpdateInstance_def on_resources_def update_one_def ex_s2_eq ex_s1_def
        ex_rm_def ex_report_def default_dynamic_def RegisterNotifyAllocation_def Start_def ex_s0_def new_digs_def
        upd_res_def UpdateScheduleLoad_def ex_gc_def UpdateStaticInfo_def ex_info_def ex_decode_def default_static_def)
qed

lemma ex_weights: "weights_ok (metaCfg (gcfg ex_gc))"
  using weights_ok_init by (simp add: ex_gc_def)

lemma ex_s3_inst: "map_of (resourceMap (resourceManager ex_s3)) 1 = Some (0, new_ResourceLoad)"
  "\<not> isInstanceClosed (sched_of (resourceManager ex_s3) 0)"
  by (simp_all add: ex_s3_eq ex_rm_def ex_info_def SetMaxRes_def new_ResScheduleInfo_def)

lemma ex_s3_queues: "waitingQueue (requestManager ex_s3) = [0]" "requestUpdated ex_s3 = False" "schedulingReqs ex_s3 = []"
  "notifyQueue ex_s3 = []" "schedulerTerminate ex_s3 = False" "nextReq (requestManager ex_s3) = 1"
  by (simp_all add: ex_s3_eq ex_s2_eq ex_s1_def ex_s0_def new_digs_def)

lemma ex_static: "isDynamicMaxResEnabled (gcfg ex_gc) = False" "maxScheduleCount ex_gc = 10000" "dims (gcfg ex_gc) = 2"
  by (simp_all add: ex_gc_def init_meta_cfg_def)

text \<open>A round without the instance lock pulls the request; then the client ends it.\<close>

definition ex_s4 :: digs where
  "ex_s4 = the (scheduler_round stable_sort ex_gc 5 10 False ex_s3)"

lemma ex_round4: "scheduler_round stable_sort ex_gc 5 10 False ex_s3 = Some ex_s4"
  by (simp add: ex_s4_def scheduler_round_eq PullRequest_def ex_s3_queues ex_static UpdateResourceView_def
      view_Empty_def Let_def) (simp add: ex_s3_eq ex_rm_def new_ResourceViewManager_def)

lemma ex_run4: "digs_run stable_sort ex_gc {} ex_s4"
  by (rule digs_run.round [OF ex_run3 _ ex_round4]) (simp add: ex_s3_queues)

definition ex_s5 :: digs where
  "ex_s5 = snd (DS_UpdateReq ''r'' DECODE 0 9 4 ex_s4)"

lemma ex_run5: "digs_run stable_sort ex_gc {} ex_s5"
  by (rule digs_run.update [OF ex_run4, of "''r''" DECODE 0 9 4 "fst (DS_UpdateReq ''r'' DECODE 0 9 4 ex_s4)"])
     (simp add: ex_s5_def)

lemma ex_s5_facts: "state (reqHeap (requestManager ex_s5) 0) = DECODE_END" "schedulingReqs ex_s5 = [0]"
  "map_of (resourceMap (resourceManager ex_s5)) 1 = Some (0, new_ResourceLoad)"
  "\<not> isInstanceClosed (sched_of (resourceManager ex_s5) 0)" "schedulerTerminate ex_s5 = False"
  "nextReq (requestManager ex_s5) = 1"
  by (simp_all add: ex_s5_def ex_s4_def scheduler_round_eq PullRequest_def ex_static UpdateResourceView_def
      view_Empty_def Let_def ex_s3_eq ex_s2_eq ex_s1_def ex_s0_def ex_rm_def new_ResourceViewManager_def new_digs_def
      new_RequestManager_def upd_req_def UpdateState2Scheduling_def new_DIGSRequest_def DS_UpdateReq_def RemoveReq_def
      ControlCallback_def UpdateState2DecodeEnd_def ex_info_def SetMaxRes_def new_ResScheduleInfo_def)

lemma ex_s5_map: "resourceMap (resourceManager ex_s5) = [(1, (0, new_ResourceLoad)), (2, (1, ex_report))]"
  by (simp add: ex_s5_def ex_s4_def scheduler_round_eq PullRequest_def ex_static UpdateResourceView_def
      view_Empty_def Let_def ex_s3_eq ex_s2_eq ex_s1_def ex_s0_def ex_rm_def new_ResourceViewManager_def new_digs_def
      new_RequestManager_def upd_req_def UpdateState2Scheduling_def new_DIGSRequest_def DS_UpdateReq_def RemoveReq_def
      ControlCallback_def UpdateState2DecodeEnd_def)

definition ex_s6 :: digs where
  "ex_s6 = the (scheduler_round stable_sort ex_gc 6 10 True ex_s5)"

lemma ex_round6: "scheduler_round stable_sort ex_gc 6 10 True ex_s5 = Some ex_s6"
  using round_total [OF stable.std_sort_axioms ex_weights ginv_run [OF ex_run5 stable.std_sort_axioms ex_weights],
      of 6 10 True] by (auto simp: ex_s6_def ex_static)

lemma ex_s6_ended: "state (reqHeap (requestManager ex_s6) 0) = DECODE_END"
proof -
  have "\<not> state_step\<^sup>+\<^sup>+ DECODE_END t" for t
    using state_step_not_final [of DECODE_END] by (auto simp: final_state_def dest: tranclpD)
  with round_states [OF stable.std_sort_axioms ex_weights ginv_run [OF ex_run5 stable.std_sort_axioms ex_weights]
      ex_round6, of 0] show ?thesis by (simp add: ex_s5_facts)
qed

lemma ex_s6_facts: "nextReq (requestManager ex_s6) = 1"
  "map_of (resourceMap (resourceManager ex_s6)) 2 = Some (1, ex_report)"
proof -
  note inv = ginv_run [OF ex_run5 stable.std_sort_axioms ex_weights]
  show "nextReq (requestManager ex_s6) = 1"
    using round_nextReq [OF stable.std_sort_axioms ex_weights inv ex_round6] by (simp add: ex_s5_facts)
  show "map_of (resourceMap (resourceManager ex_s6)) 2 = Some (1, ex_report)"
    using round_map [OF stable.std_sort_axioms ex_weights inv ex_round6] by (simp add: ex_s5_map)
qed

text \<open>Both selections on the sample deployment: one candidate, and it is chosen.\<close>

definition ex_pool :: SelectPool where
  "ex_pool = \<lparr>sp_prefill = [(0, new_ResourceLoad)], sp_decode = [(0, [(1, ex_report)])]\<rparr>"

definition ex_demand :: MetaResource where
  "ex_demand = \<lparr>attributes = [1, 1], computeAttributes = [100]\<rparr>"

lemma ex_pool_eligible: "prefill_eligible LOAD_BALANCE ex_rm (0, new_ResourceLoad)"
  "decode_eligible LOAD_BALANCE ex_rm 1 (1, ex_report)"
  by (simp_all add: prefill_eligible_def decode_eligible_def ex_rm_def ex_info_def ex_prefill_def ex_decode_def
      default_static_def CheckConnection_def CheckConnectionTo_def CheckDemandLimit_def TotalConnection_def sat_add_def
      SetMaxRes_def new_ResScheduleInfo_def UpdateRole_def MetaResource_fill_def MetaResource_of_def init_meta_cfg_def
      Slots_def At_def ex_report_def default_dynamic_def)

lemma ex_pool_facts: "sp_prefill ex_pool = [(0, new_ResourceLoad)]" "map_of (sp_decode ex_pool) 0 = Some [(1, ex_report)]"
  "st_id (static_of ex_rm 0) = 1" "st_groupId (static_of ex_rm 0) = 0" "st_id (static_of ex_rm 1) = 2"
  by (simp_all add: ex_pool_def ex_rm_def ex_info_def ex_prefill_def ex_decode_def default_static_def)

theorem select_prefill_correct_witness:
  "prefill_eligible LOAD_BALANCE ex_rm (0, new_ResourceLoad)
   \<and> fst (SelectPrefillInst stable_sort LOAD_BALANCE ex_demand ex_pool ex_rm) = Some (1, 0)"
  using select_prefill_correct [OF stable.std_sort_axioms, where pol = LOAD_BALANCE and dem = ex_demand and sp = ex_pool and rm = ex_rm] ex_pool_eligible(1)
  by (auto simp: ex_pool_facts simp del: One_nat_def split: prod.splits option.splits)

theorem select_decode_correct_witness:
  "decode_eligible LOAD_BALANCE ex_rm 1 (1, ex_report)
   \<and> fst (SelectDecodeInst stable_sort LOAD_BALANCE (gcfg ex_gc) ex_demand 1 0 ex_pool ex_rm) = Some 2"
  using select_decode_correct [OF stable.std_sort_axioms ex_weights, where pol = LOAD_BALANCE and dem = ex_demand and p = 1 and g = 0 and sp = ex_pool and rm = ex_rm]
    ex_pool_eligible(2)
  by (auto simp: ex_pool_facts simp del: One_nat_def split: prod.splits option.splits)

end
