(* ===== verification/Ring_Scan.thy ===== *)
theory Ring_Scan
  imports Prelude
begin

text \<open>
  The polling loop that the round-robin and the prefix-cache executor repeat: a \<^verbatim>\<open>do ... while\<close> loop that
  walks a vector cyclically from a start index until an attempt succeeds or the index is back at
  the start. The loop has no bound of its own, so it is a partial function: \<^const>\<open>None\<close> is not returning.
\<close>

definition next_index :: "nat \<Rightarrow> u64 \<Rightarrow> u64" where
  "next_index n i = (let j = i + 1 in if n \<le> unat j then 0 else j)"

partial_function (option) ring_loop ::
  "(u64 \<Rightarrow> 's \<Rightarrow> 'r option \<times> 's) \<Rightarrow> u64 list \<Rightarrow> u64 \<Rightarrow> u64 \<Rightarrow> 's \<Rightarrow> ('r option \<times> u64 \<times> 's) option" where
  "ring_loop attempt nodes start i s =
     (case attempt (nodes ! unat i) s of
        (Some x, s1) \<Rightarrow> Some (Some x, i, s1)
      | (None, s1) \<Rightarrow>
          (let j = next_index (length nodes) i
           in if j \<noteq> start then ring_loop attempt nodes start j s1 else Some (None, j, s1)))"

lemma unat_next_index:
  assumes "unat i < n" "n \<le> 2 ^ 64"
  shows "unat (next_index n i) = Suc (unat i) mod n"
proof (cases "unat i = 2 ^ 64 - 1")
  case True
  then have "i = - 1" by (metis unat_u64_max word_unat_eq_iff)
  moreover have "n = 2 ^ 64" using assms True by simp
  ultimately show ?thesis using True by (simp add: next_index_def)
next
  case False
  with u64_bound [of i] have "unat (i + 1) = Suc (unat i)" by (simp add: unat_u64_add)
  moreover have "Suc (unat i) mod n = (if n \<le> Suc (unat i) then 0 else Suc (unat i))"
    using assms(1) by (auto simp: mod_Suc)
  ultimately show ?thesis by (simp add: next_index_def Let_def)
qed

lemma unat_next_index_less: "0 < n \<Longrightarrow> unat (next_index n i) < n"
  by (auto simp: next_index_def Let_def not_le)

text \<open>The \<open>j\<close>-th node visited when polling starts at index \<open>i\<close>.\<close>

definition visited :: "u64 list \<Rightarrow> nat \<Rightarrow> nat \<Rightarrow> u64" where
  "visited nodes i j = nodes ! ((i + j) mod length nodes)"

lemma visited_Suc: "visited nodes (Suc i mod length nodes) j = visited nodes i (Suc j)"
  by (simp add: visited_def mod_add_left_eq)

lemma visited_in: "nodes \<noteq> [] \<Longrightarrow> visited nodes i j \<in> set nodes"
  by (simp add: visited_def)

lemma mod_shift_inj:
  fixes n :: nat
  assumes "(i + 1) mod n = (i + k) mod n" "1 \<le> k" "k \<le> n"
  shows "k = 1"
proof -
  have "n dvd (i + k) - (i + 1)" using assms(1,2) mod_eq_dvd_iff_nat [of "i + 1" "i + k" n] by simp
  then show ?thesis using assms(2,3) by (auto dest: dvd_imp_le)
qed

lemma length_u64_distinct: "distinct (xs :: u64 list) \<Longrightarrow> length xs \<le> 2 ^ 64"
proof -
  assume "distinct xs"
  then have "length xs = card (set xs)" by (simp add: distinct_card)
  also have "\<dots> \<le> card (UNIV :: u64 set)" by (rule card_mono) simp_all
  finally show ?thesis by (simp add: card_word)
qed

lemma map_visited_rotate: "map (visited nodes i) [0..<length nodes] = rotate i nodes"
  by (rule nth_equalityI) (simp_all add: visited_def nth_rotate add.commute)

lemma all_visited:
  assumes "\<forall>j < length nodes. P (visited nodes i j)" "x \<in> set nodes"
  shows "P x"
proof -
  have "set nodes = visited nodes i ` {0..<length nodes}"
    using set_rotate [of i nodes] by (simp flip: map_visited_rotate)
  with assms show ?thesis by auto
qed

text \<open>
  The contract of an attempt: its outcome depends on the state only through \<open>outcome\<close>, and an attempt
  that fails leaves the state equivalent.
\<close>

locale ring_scan =
  fixes attempt :: "u64 \<Rightarrow> 's \<Rightarrow> 'r option \<times> 's"
    and outcome :: "'s \<Rightarrow> u64 \<Rightarrow> 'r option"
    and eqv :: "'s \<Rightarrow> 's \<Rightarrow> bool"
  assumes attempt_outcome: "fst (attempt n s) = outcome s n"
    and outcome_eqv: "eqv s t \<Longrightarrow> outcome t = outcome s"
    and failed_eqv: "outcome s n = None \<Longrightarrow> eqv s (snd (attempt n s))"
    and eqv_refl: "eqv s s"
    and eqv_trans: "eqv s t \<Longrightarrow> eqv t u \<Longrightarrow> eqv s u"
begin

lemma ring_loop_step:
  "ring_loop attempt nodes start i s = (case outcome s (nodes ! unat i) of
      Some x \<Rightarrow> Some (Some x, i, snd (attempt (nodes ! unat i) s))
    | None \<Rightarrow> (let j = next_index (length nodes) i; s1 = snd (attempt (nodes ! unat i) s)
              in if j \<noteq> start then ring_loop attempt nodes start j s1 else Some (None, j, s1)))"
  by (subst ring_loop.simps) (auto simp: attempt_outcome [symmetric] split: prod.splits option.splits)

lemma ring_loop_none:
  assumes "length nodes \<le> 2 ^ 64" "unat i < length nodes" "1 \<le> k" "k \<le> length nodes"
    and "unat start = (unat i + k) mod length nodes"
    and "\<And>j. j < k \<Longrightarrow> outcome s (visited nodes (unat i) j) = None"
  shows "\<exists>t. eqv s t \<and> ring_loop attempt nodes start i s = Some (None, start, t)"
  using assms
proof (induction k arbitrary: i s)
  case 0
  then show ?case by simp
next
  case (Suc k)
  let ?n = "length nodes" and ?j = "next_index (length nodes) i"
  let ?s = "snd (attempt (nodes ! unat i) s)"
  have o0: "outcome s (nodes ! unat i) = None" using Suc.prems(2) Suc.prems(6) [of 0] by (simp add: visited_def)
  have e: "eqv s ?s" by (rule failed_eqv [OF o0])
  have j: "unat ?j = Suc (unat i) mod ?n" by (rule unat_next_index [OF Suc.prems(2,1)])
  show ?case
  proof (cases "k = 0")
    case True
    with Suc.prems(5) j have "?j = start" by (simp add: word_unat_eq_iff)
    with o0 e show ?thesis by (auto simp: ring_loop_step [of nodes start i])
  next
    case False
    have "?j \<noteq> start"
      using Suc.prems(4,5) False mod_shift_inj [of "unat i" ?n "Suc k"] by (auto simp: j)
    moreover have "\<exists>t. eqv ?s t \<and> ring_loop attempt nodes start ?j ?s = Some (None, start, t)"
    proof (rule Suc.IH)
      show "unat start = (unat ?j + k) mod ?n" using Suc.prems(5) by (simp add: j mod_add_left_eq)
      show "outcome ?s (visited nodes (unat ?j) m) = None" if "m < k" for m
        using that Suc.prems(6) [of "Suc m"] outcome_eqv [OF e] by (simp add: j visited_Suc)
      show "unat ?j < ?n" using Suc.prems(2) unfolding j by (intro mod_less_divisor) linarith
    qed (use Suc.prems False in auto)
    ultimately show ?thesis using o0 eqv_trans [OF e] by (auto simp: ring_loop_step [of nodes start i])
  qed
qed

lemma ring_loop_some:
  assumes "length nodes \<le> 2 ^ 64" "unat i < length nodes" "m < k" "k \<le> length nodes"
    and "unat start = (unat i + k) mod length nodes"
    and "\<And>j. j < m \<Longrightarrow> outcome s (visited nodes (unat i) j) = None"
    and "outcome s (visited nodes (unat i) m) = Some x"
  shows "\<exists>t j. eqv s t \<and> unat j = (unat i + m) mod length nodes
    \<and> ring_loop attempt nodes start i s = Some (Some x, j, snd (attempt (visited nodes (unat i) m) t))"
  using assms
proof (induction m arbitrary: i k s)
  case 0
  then have "outcome s (nodes ! unat i) = Some x" "visited nodes (unat i) 0 = nodes ! unat i" by (simp_all add: visited_def)
  with 0 eqv_refl show ?case by (intro exI [of _ s] exI [of _ i]) (simp add: ring_loop_step [of nodes start i])
next
  case (Suc m)
  let ?n = "length nodes" and ?j = "next_index (length nodes) i"
  let ?s = "snd (attempt (nodes ! unat i) s)"
  have o0: "outcome s (nodes ! unat i) = None" using Suc.prems(2) Suc.prems(6) [of 0] by (simp add: visited_def)
  have e: "eqv s ?s" by (rule failed_eqv [OF o0])
  have j: "unat ?j = Suc (unat i) mod ?n" by (rule unat_next_index [OF Suc.prems(2,1)])
  have "?j \<noteq> start"
    using Suc.prems(3-5) mod_shift_inj [of "unat i" ?n k] by (auto simp: j)
  moreover have "\<exists>t l. eqv ?s t \<and> unat l = (unat ?j + m) mod ?n
    \<and> ring_loop attempt nodes start ?j ?s = Some (Some x, l, snd (attempt (visited nodes (unat ?j) m) t))"
  proof (rule Suc.IH [of ?j "k - 1"])
    show "unat start = (unat ?j + (k - 1)) mod ?n"
      using Suc.prems(3,5) mod_add_left_eq [of "Suc (unat i)" ?n "k - 1"] by (simp add: j)
    show "outcome ?s (visited nodes (unat ?j) l) = None" if "l < m" for l
      using that Suc.prems(6) [of "Suc l"] outcome_eqv [OF e] by (simp add: j visited_Suc)
    show "outcome ?s (visited nodes (unat ?j) m) = Some x"
      using Suc.prems(7) outcome_eqv [OF e] by (simp add: j visited_Suc)
    show "unat ?j < ?n" using Suc.prems(2) unfolding j by (intro mod_less_divisor) linarith
  qed (use Suc.prems in auto)
  ultimately show ?case using o0 eqv_trans [OF e]
    by (auto simp: ring_loop_step [of nodes start i] j visited_Suc mod_add_left_eq)
qed

text \<open>A full round from index \<open>i\<close>: the loop returns; it fails exactly when every node fails, and otherwise
  stops at the first node in cyclic order whose attempt succeeds.\<close>

lemma ring_loop_round:
  assumes "length nodes \<le> 2 ^ 64" "unat i < length nodes"
  shows "(\<forall>j < length nodes. outcome s (visited nodes (unat i) j) = None)
      \<and> (\<exists>t. eqv s t \<and> ring_loop attempt nodes i i s = Some (None, i, t))
    \<or> (\<exists>m x t j. m < length nodes \<and> (\<forall>l < m. outcome s (visited nodes (unat i) l) = None)
        \<and> outcome s (visited nodes (unat i) m) = Some x \<and> eqv s t \<and> unat j = (unat i + m) mod length nodes
        \<and> ring_loop attempt nodes i i s = Some (Some x, j, snd (attempt (visited nodes (unat i) m) t)))"
proof (cases "\<forall>j < length nodes. outcome s (visited nodes (unat i) j) = None")
  case True
  with ring_loop_none [OF assms, of "length nodes" i s] assms(2) show ?thesis by auto
next
  case False
  let ?P = "\<lambda>m. m < length nodes \<and> outcome s (visited nodes (unat i) m) \<noteq> None"
  define m where "m = (LEAST m. ?P m)"
  from False obtain m0 where "?P m0" by auto
  then have m: "?P m" unfolding m_def by (rule LeastI)
  have before: "outcome s (visited nodes (unat i) l) = None" if "l < m" for l
    using that m not_less_Least [of l ?P] unfolding m_def [symmetric] by auto
  from m obtain x where "outcome s (visited nodes (unat i) m) = Some x" by auto
  with ring_loop_some [OF assms, of m "length nodes" i s x] m before assms(2) obtain t j where
    "eqv s t" "unat j = (unat i + m) mod length nodes"
    "ring_loop attempt nodes i i s = Some (Some x, j, snd (attempt (visited nodes (unat i) m) t))" by auto
  with \<open>outcome s (visited nodes (unat i) m) = Some x\<close> m before show ?thesis
    by (intro disjI2 exI [of _ m] exI [of _ x] exI [of _ t] exI [of _ j]) simp
qed

end

end
