(* ===== verification/Round_Robin_Executor.thy ===== *)
theory Round_Robin_Executor
  imports Node_Store Ring_Scan
begin

text \<open>
  \<^verbatim>\<open>coordinator/scheduler/default_scheduler/algorithm/round_robin/RoundRobinExecutor.{h,cpp}\<close>. The executor holds a
  reference to the node store, which is an argument here. The picked nodes are read only when
  the call returned 0, so a call returns \<^const>\<open>Some\<close> of them or \<^const>\<open>None\<close> for -1; an outer \<^const>\<open>None\<close> is a loop
  that does not return.
\<close>

datatype DeployMode = SINGLE_NODE | PD_SEPARATE

record RoundRobinExecutor =
  singleNodeIndex :: u64
  pNodeIndex :: u64
  p2DIndexMap :: "(u64, u64) omap"

definition new_RoundRobinExecutor :: RoundRobinExecutor where
  "new_RoundRobinExecutor = \<lparr>singleNodeIndex = 0, pNodeIndex = 0, p2DIndexMap = []\<rparr>"

definition rr_enough :: "DIGSInstanceStaticInfo \<Rightarrow> DIGSInstanceDynamicInfo \<Rightarrow> bool" where
  "rr_enough st dy =
     (if st_totalSlotsNum st < 1 \<or> st_totalBlockNum st < 1 then False
      else if dy_availSlotsNum dy = 0 then False
      else if dy_availBlockNum dy = 0 then False
      else True)"

definition rr_IsNodeResourceAvail :: "u64 \<Rightarrow> NodeStore \<Rightarrow> bool \<times> NodeStore" where
  "rr_IsNodeResourceAvail i ns = (case GetNodeById i ns of
       (None, ns1) \<Rightarrow> (False, ns1)
     | (Some (st, dy), ns1) \<Rightarrow> (rr_enough st dy, ns1))"

definition single_attempt :: "u64 \<Rightarrow> NodeStore \<Rightarrow> u64 option \<times> NodeStore" where
  "single_attempt i ns = (let (ok, ns1) = rr_IsNodeResourceAvail i ns in (if ok then Some i else None, ns1))"

definition SingleNodeExecute ::
  "string \<Rightarrow> NodeStore \<Rightarrow> RoundRobinExecutor \<Rightarrow> (u64 option \<times> NodeStore \<times> RoundRobinExecutor) option" where
  "SingleNodeExecute requestBody ns ex =
     (if requestBody = [] then Some (Some 0, ns, ex)
      else let nodes = nodeIndexList ns in
        if nodes = [] then Some (None, ns, ex)
        else let i = next_index (length nodes) (singleNodeIndex ex)
             in map_option (\<lambda>(r, j, ns1). (r, ns1, ex\<lparr>singleNodeIndex := j\<rparr>))
                  (ring_loop single_attempt nodes i i ns))"

text \<open>The decode node for a prefill node: the one after the last choice in the list of its decode peers.\<close>

definition PickDNodeByP ::
  "u64 \<Rightarrow> NodeStore \<times> (u64, u64) omap \<Rightarrow> u64 option \<times> NodeStore \<times> (u64, u64) omap" where
  "PickDNodeByP pNode s = (case s of (ns, m) \<Rightarrow>
     (case map_of (p2DminiGroupNodes ns) pNode of
        None \<Rightarrow> (None, ns, m)
      | Some dList \<Rightarrow>
          (if dList = [] then (None, ns, m)
           else let dIndex = (case map_of m pNode of None \<Rightarrow> 0 | Some k \<Rightarrow> next_index (length dList) k);
                    dNode = dList ! unat dIndex;
                    (ok, ns1) = rr_IsNodeResourceAvail dNode ns
                in if ok then (Some dNode, ns1, omap_put pNode dIndex m) else (None, ns1, m))))"

definition pd_attempt ::
  "u64 \<Rightarrow> NodeStore \<times> (u64, u64) omap \<Rightarrow> (u64 \<times> u64) option \<times> NodeStore \<times> (u64, u64) omap" where
  "pd_attempt p s = (case s of (ns, m) \<Rightarrow>
     (let (ok, ns1) = rr_IsNodeResourceAvail p ns
      in if ok then (let (r, s2) = PickDNodeByP p (ns1, m) in (map_option (Pair p) r, s2))
         else (None, ns1, m)))"

definition PDNodeExecute ::
  "string \<Rightarrow> NodeStore \<Rightarrow> RoundRobinExecutor \<Rightarrow> ((u64 \<times> u64) option \<times> NodeStore \<times> RoundRobinExecutor) option" where
  "PDNodeExecute requestBody ns ex =
     (if requestBody = [] then Some (Some (0, 0), ns, ex)
      else let nodes = pNodeList ns in
        if nodes = [] then Some (None, ns, ex)
        else let i = next_index (length nodes) (pNodeIndex ex)
             in map_option (\<lambda>(r, j, ns1, m). (r, ns1, ex\<lparr>pNodeIndex := j, p2DIndexMap := m\<rparr>))
                  (ring_loop pd_attempt nodes i i (ns, p2DIndexMap ex)))"

definition rr_Execute ::
  "DeployMode \<Rightarrow> string \<Rightarrow> NodeStore \<Rightarrow> RoundRobinExecutor \<Rightarrow> (u64 list option \<times> NodeStore \<times> RoundRobinExecutor) option" where
  "rr_Execute deployMode requestBody ns ex = (case deployMode of
       SINGLE_NODE \<Rightarrow> map_option (\<lambda>(r, s). (map_option (\<lambda>n. [n]) r, s)) (SingleNodeExecute requestBody ns ex)
     | PD_SEPARATE \<Rightarrow> map_option (\<lambda>(r, s). (map_option (\<lambda>(p, d). [p, d]) r, s)) (PDNodeExecute requestBody ns ex))"

subsection \<open>What an attempt decides\<close>

definition rr_avail :: "NodeStore \<Rightarrow> u64 \<Rightarrow> bool" where
  "rr_avail ns i = (case node_view ns i of None \<Rightarrow> False | Some (st, dy) \<Rightarrow> rr_enough st dy)"

lemma rr_avail_same: "same_nodes s t \<Longrightarrow> rr_avail t = rr_avail s"
  by (simp add: rr_avail_def same_nodes_def fun_eq_iff)

lemma rr_IsNodeResourceAvail_eq: "rr_IsNodeResourceAvail i ns = (rr_avail ns i, snd (GetNodeById i ns))"
  using GetNodeById_view [of i ns]
  by (auto simp: rr_IsNodeResourceAvail_def rr_avail_def split: prod.splits option.splits)

interpretation single: ring_scan single_attempt "\<lambda>ns i. if rr_avail ns i then Some i else None" same_nodes
  by unfold_locales
     (auto simp: single_attempt_def rr_IsNodeResourceAvail_eq rr_avail_same GetNodeById_same intro: same_nodes_trans)

text \<open>The decode node the next attempt on a prefill node would take, when it is available.\<close>

definition next_decode :: "NodeStore \<Rightarrow> (u64, u64) omap \<Rightarrow> u64 \<Rightarrow> u64 option" where
  "next_decode ns m p = (case map_of (p2DminiGroupNodes ns) p of
       None \<Rightarrow> None
     | Some dList \<Rightarrow> if dList = [] then None
         else let d = dList ! unat (case map_of m p of None \<Rightarrow> 0 | Some k \<Rightarrow> next_index (length dList) k)
              in if rr_avail ns d then Some d else None)"

definition pd_outcome :: "NodeStore \<times> (u64, u64) omap \<Rightarrow> u64 \<Rightarrow> (u64 \<times> u64) option" where
  "pd_outcome s p = (if rr_avail (fst s) p then map_option (Pair p) (next_decode (fst s) (snd s) p) else None)"

definition same_pd :: "NodeStore \<times> (u64, u64) omap \<Rightarrow> NodeStore \<times> (u64, u64) omap \<Rightarrow> bool" where
  "same_pd s t \<longleftrightarrow> same_nodes (fst s) (fst t) \<and> snd t = snd s"

lemma next_decode_same: "same_nodes s t \<Longrightarrow> next_decode t = next_decode s"
  by (simp add: next_decode_def same_nodes_def rr_avail_same fun_eq_iff rr_avail_def Let_def split: option.splits)

lemma PickDNodeByP_decode:
  "fst (PickDNodeByP p (ns, m)) = next_decode ns m p" "same_nodes ns (fst (snd (PickDNodeByP p (ns, m))))"
  "next_decode ns m p = None \<Longrightarrow> snd (snd (PickDNodeByP p (ns, m))) = m"
  by (auto simp: PickDNodeByP_def next_decode_def rr_IsNodeResourceAvail_eq Let_def GetNodeById_same
      split: option.splits if_splits)

interpretation pd: ring_scan pd_attempt pd_outcome same_pd
proof unfold_locales
  fix p :: u64 and s :: "NodeStore \<times> (u64, u64) omap"
  obtain ns m where s: "s = (ns, m)" by (cases s)
  let ?ns = "snd (GetNodeById p ns)"
  have a: "same_nodes ns ?ns" by (rule GetNodeById_same)
  note d = PickDNodeByP_decode [where p = p and ns = ?ns and m = m] next_decode_same [OF a]
  show "fst (pd_attempt p s) = pd_outcome s p"
    using d by (auto simp: pd_attempt_def pd_outcome_def s rr_IsNodeResourceAvail_eq split: prod.splits)
  show "same_pd s (snd (pd_attempt p s))" if "pd_outcome s p = None"
    using that a d same_nodes_trans [OF a]
    by (auto simp: pd_attempt_def pd_outcome_def same_pd_def s rr_IsNodeResourceAvail_eq split: prod.splits if_splits)
next
  fix s t :: "NodeStore \<times> (u64, u64) omap"
  assume "same_pd s t"
  then show "pd_outcome t = pd_outcome s"
    by (auto simp: same_pd_def pd_outcome_def fun_eq_iff dest: rr_avail_same next_decode_same)
qed (auto simp: same_pd_def intro: same_nodes_trans)

subsection \<open>Properties\<close>

lemma ns_ok_length: "ns_ok ns \<Longrightarrow> length (nodeIndexList ns) \<le> 2 ^ 64" "ns_ok ns \<Longrightarrow> length (pNodeList ns) \<le> 2 ^ 64"
  by (rule length_u64_distinct, simp add: ns_ok_def)+

lemma SingleNodeExecute_cases:
  fixes ns :: NodeStore and ex :: RoundRobinExecutor
  assumes "length (nodeIndexList ns) \<le> 2 ^ 64" "requestBody \<noteq> []" "nodeIndexList ns \<noteq> []"
  defines "a \<equiv> unat (next_index (length (nodeIndexList ns)) (singleNodeIndex ex))"
  shows "(\<forall>i \<in> set (nodeIndexList ns). \<not> rr_avail ns i)
      \<and> (\<exists>ns' ex'. SingleNodeExecute requestBody ns ex = Some (None, ns', ex') \<and> same_nodes ns ns')
    \<or> (\<exists>m ns' ex'. m < length (nodeIndexList ns) \<and> (\<forall>l < m. \<not> rr_avail ns (visited (nodeIndexList ns) a l))
        \<and> rr_avail ns (visited (nodeIndexList ns) a m) \<and> same_nodes ns ns'
        \<and> unat (singleNodeIndex ex') = (a + m) mod length (nodeIndexList ns)
        \<and> SingleNodeExecute requestBody ns ex = Some (Some (visited (nodeIndexList ns) a m), ns', ex'))"
proof -
  let ?N = "nodeIndexList ns" and ?i = "next_index (length (nodeIndexList ns)) (singleNodeIndex ex)"
  have len: "0 < length ?N" using assms(3) by simp
  have ex: "SingleNodeExecute requestBody ns ex
      = map_option (\<lambda>(r, j, ns1). (r, ns1, ex\<lparr>singleNodeIndex := j\<rparr>)) (ring_loop single_attempt ?N ?i ?i ns)"
    using assms(2,3) by (simp add: SingleNodeExecute_def Let_def)
  from single.ring_loop_round [OF assms(1) unat_next_index_less [OF len], of ns "singleNodeIndex ex", folded a_def]
  show ?thesis
  proof (elim disjE exE conjE, goal_cases)
    case (1 t)
    have "\<forall>j < length ?N. \<not> rr_avail ns (visited ?N a j)" using 1(1) by (auto split: if_splits)
    then have "\<forall>i \<in> set ?N. \<not> rr_avail ns i" using all_visited [of ?N "\<lambda>i. \<not> rr_avail ns i"] by blast
    moreover have "SingleNodeExecute requestBody ns ex = Some (None, t, ex\<lparr>singleNodeIndex := ?i\<rparr>)"
      by (simp only: ex 1(3)) simp
    ultimately show ?thesis using 1(2) by blast
next
    case (2 m x t j)
    obtain "rr_avail ns (visited ?N a m)" "x = visited ?N a m" using 2(3) by (auto split: if_splits)
    moreover have "same_nodes ns (snd (single_attempt (visited ?N a m) t))"
      using 2(4) by (auto simp: single_attempt_def rr_IsNodeResourceAvail_eq intro: same_nodes_trans GetNodeById_same)
    moreover have "SingleNodeExecute requestBody ns ex
        = Some (Some x, snd (single_attempt (visited ?N a m) t), ex\<lparr>singleNodeIndex := j\<rparr>)"
      by (simp only: ex 2(6)) simp
    moreover have "\<forall>l < m. \<not> rr_avail ns (visited ?N a l)" using 2(2) by (auto split: if_splits)
    ultimately show ?thesis using 2(1,5)
      by (intro disjI2 exI [of _ m] exI [of _ "snd (single_attempt (visited ?N a m) t)"]
          exI [of _ "ex\<lparr>singleNodeIndex := j\<rparr>"]) simp
  qed
qed

lemma SingleNodeExecute_correct:
  assumes "ns_ok ns" and "requestBody \<noteq> []"
  shows "\<exists>r ns' ex'. SingleNodeExecute requestBody ns ex = Some (r, ns', ex') \<and> same_nodes ns ns'
    \<and> (case r of None \<Rightarrow> (\<forall>i. i \<in> set (nodeIndexList ns) \<longrightarrow> \<not> rr_avail ns i)
        | Some n \<Rightarrow> (let a = unat (next_index (length (nodeIndexList ns)) (singleNodeIndex ex)) in
            find (rr_avail ns) (rotate a (nodeIndexList ns)) = Some n
            \<and> nodeIndexList ns ! unat (singleNodeIndex ex') = n))"
proof (cases "nodeIndexList ns = []")
  case True
  with assms show ?thesis by (auto simp: SingleNodeExecute_def)
next
  case False
  let ?N = "nodeIndexList ns" and ?a = "unat (next_index (length (nodeIndexList ns)) (singleNodeIndex ex))"
  note len = ns_ok_length(1) [OF assms(1)]
  have first: "find (rr_avail ns) (rotate ?a ?N) = Some (visited ?N ?a m)"
    if "m < length ?N" "\<forall>l < m. \<not> rr_avail ns (visited ?N ?a l)" "rr_avail ns (visited ?N ?a m)" for m
    using that by (auto simp: find_Some_iff simp flip: map_visited_rotate intro!: exI [of _ m])
  from SingleNodeExecute_cases [OF len assms(2) False, of ex] show ?thesis
    by (elim disjE exE conjE) (auto simp: first visited_def [symmetric] Let_def)
qed

text \<open>C30: a call for a non-empty request on a single-node deployment always returns. It picks a registered
  node with free slots and blocks if there is one, namely the first one after the node picked
  last in the order of registration, and fails only when no registered node has resources left;
  it changes nothing in the store that a later call can observe.\<close>

theorem single_execute_correct:
  assumes "ns_ok ns" and "requestBody \<noteq> []"
  shows "\<exists>r ns' ex'. SingleNodeExecute requestBody ns ex = Some (r, ns', ex') \<and> same_nodes ns ns'
    \<and> (case r of None \<Rightarrow> (\<forall>i. i \<in> set (nodeIndexList ns) \<longrightarrow> \<not> rr_avail ns i)
        | Some n \<Rightarrow> (let a = unat (next_index (length (nodeIndexList ns)) (singleNodeIndex ex)) in
            find (rr_avail ns) (rotate a (nodeIndexList ns)) = Some n
            \<and> nodeIndexList ns ! unat (singleNodeIndex ex') = n))"
  using assms by (rule SingleNodeExecute_correct)

text \<open>The picks of a number of consecutive calls.\<close>

fun single_picks :: "nat \<Rightarrow> string \<Rightarrow> NodeStore \<Rightarrow> RoundRobinExecutor \<Rightarrow> u64 option list" where
  "single_picks 0 requestBody ns ex = []"
| "single_picks (Suc k) requestBody ns ex = (case SingleNodeExecute requestBody ns ex of
     None \<Rightarrow> [] | Some (r, ns', ex') \<Rightarrow> r # single_picks k requestBody ns' ex')"

lemma single_picks_visited:
  assumes "length (nodeIndexList ns) \<le> 2 ^ 64" "requestBody \<noteq> []" "nodeIndexList ns \<noteq> []"
    and "\<forall>i \<in> set (nodeIndexList ns). rr_avail ns i"
  shows "single_picks k requestBody ns ex
    = map (\<lambda>j. Some (visited (nodeIndexList ns) (unat (next_index (length (nodeIndexList ns)) (singleNodeIndex ex))) j)) [0..<k]"
  using assms
proof (induction k arbitrary: ns ex)
  case (Suc k)
  let ?N = "nodeIndexList ns" and ?a = "unat (next_index (length (nodeIndexList ns)) (singleNodeIndex ex))"
  have len: "0 < length ?N" using Suc.prems(3) by simp
  have some: "\<not> (\<forall>i \<in> set ?N. \<not> rr_avail ns i)" using Suc.prems(3,4) by (cases ?N) simp_all
  obtain m ns' ex' where
    m: "\<forall>l < m. \<not> rr_avail ns (visited ?N ?a l)" and same: "same_nodes ns ns'"
    and i: "unat (singleNodeIndex ex') = (?a + m) mod length ?N"
    and e: "SingleNodeExecute requestBody ns ex = Some (Some (visited ?N ?a m), ns', ex')"
    by (rule disjE [OF SingleNodeExecute_cases [OF Suc.prems(1-3), of ex]]) (use some in \<open>simp, elim exE conjE, simp\<close>)
  have "m = 0" using m Suc.prems(3,4) visited_in [of ?N ?a 0] by (cases m) auto
  then have i: "unat (singleNodeIndex ex') = ?a" using i unat_next_index_less [OF len] by simp
  have N: "nodeIndexList ns' = ?N" and av: "rr_avail ns' = rr_avail ns"
    using same rr_avail_same [OF same] by (simp_all add: same_nodes_def)
  have a': "unat (next_index (length ?N) (singleNodeIndex ex')) = Suc ?a mod length ?N"
    using unat_next_index [of "singleNodeIndex ex'" "length ?N"] Suc.prems(1) unat_next_index_less [OF len] by (simp add: i)
  have "single_picks k requestBody ns' ex' = map (\<lambda>j. Some (visited ?N ?a (Suc j))) [0..<k]"
    using Suc.IH [of ns' ex'] Suc.prems by (simp add: N av a' visited_Suc)
  then show ?case
    using \<open>m = 0\<close> e by (simp add: upt_conv_Cons map_Suc_upt [symmetric] comp_def del: upt_Suc)
qed simp

text \<open>The rotation is fair: when every registered node has resources, as many consecutive calls as there are
  nodes pick every node exactly once, in the order of registration.\<close>

lemma single_execute_fair:
  assumes "ns_ok ns" and "requestBody \<noteq> []" and "nodeIndexList ns \<noteq> []"
    and "\<And>i. i \<in> set (nodeIndexList ns) \<Longrightarrow> rr_avail ns i"
  shows "single_picks (length (nodeIndexList ns)) requestBody ns ex = map Some
    (rotate (unat (next_index (length (nodeIndexList ns)) (singleNodeIndex ex))) (nodeIndexList ns))"
proof -
  note len = ns_ok_length(1) [OF assms(1)]
  show ?thesis using single_picks_visited [OF len assms(2,3), of "length (nodeIndexList ns)" ex] assms(4)
    by (simp flip: map_visited_rotate)
qed

lemma pd_attempt_same: "same_nodes ns (fst (snd (pd_attempt p (ns, m))))"
proof -
  have a: "same_nodes ns (snd (GetNodeById p ns))" by (rule GetNodeById_same)
  from same_nodes_trans [OF this PickDNodeByP_decode(2) [where p = p and m = m]] a show ?thesis
    by (auto simp: pd_attempt_def rr_IsNodeResourceAvail_eq split: prod.splits)
qed

lemma pd_outcome_SomeD:
  assumes "ns_ok ns" "pd_outcome (ns, m) p = Some (p', d)"
  shows "p' = p \<and> rr_avail ns p \<and> rr_avail ns d \<and> p \<in> set (omap_get [] (d2PminiGroupNodes ns) d)"
proof -
  from assms(2) have p: "p' = p" "rr_avail ns p" "next_decode ns m p = Some d" by (auto simp: pd_outcome_def split: if_splits)
  let ?i = "\<lambda>dList. case map_of m p of None \<Rightarrow> 0 | Some k \<Rightarrow> next_index (length dList) k"
  from p(3) obtain dList where dl: "map_of (p2DminiGroupNodes ns) p = Some dList" "dList \<noteq> []" "rr_avail ns d"
    and i: "d = dList ! unat (?i dList)"
    by (simp add: next_decode_def Let_def split: option.splits if_splits)
  have "unat (?i dList) < length dList" using dl(2) by (auto intro: unat_next_index_less split: option.splits)
  then have "d \<in> set (omap_get [] (p2DminiGroupNodes ns) p)" using dl(1) i by (simp add: omap_get_def)
  then have "p \<in> set (omap_get [] (d2PminiGroupNodes ns) d)" using assms(1) by (simp add: ns_ok_def in_invert_peers)
  with p dl(3) show ?thesis by simp
qed

lemma PDNodeExecute_correct:
  assumes "ns_ok ns" and "requestBody \<noteq> []"
  shows "\<exists>r ns' ex'. PDNodeExecute requestBody ns ex = Some (r, ns', ex') \<and> same_nodes ns ns'
    \<and> (case r of None \<Rightarrow> (\<forall>p. p \<in> set (pNodeList ns) \<longrightarrow> \<not> rr_avail ns p \<or> next_decode ns (p2DIndexMap ex) p = None)
        | Some (p, d) \<Rightarrow> p \<in> set (nodeIndexList ns) \<and> is_prefill ns p \<and> rr_avail ns p \<and> rr_avail ns d
            \<and> p \<in> set (omap_get [] (d2PminiGroupNodes ns) d))"
proof (cases "pNodeList ns = []")
  case True
  with assms show ?thesis by (auto simp: PDNodeExecute_def)
next
  case False
  let ?N = "pNodeList ns" and ?i = "next_index (length (pNodeList ns)) (pNodeIndex ex)" and ?s = "(ns, p2DIndexMap ex)"
  have len: "0 < length ?N" using False by simp
  have ex: "PDNodeExecute requestBody ns ex
      = map_option (\<lambda>(r, j, ns1, m). (r, ns1, ex\<lparr>pNodeIndex := j, p2DIndexMap := m\<rparr>)) (ring_loop pd_attempt ?N ?i ?i ?s)"
    using assms(2) False by (simp add: PDNodeExecute_def Let_def)
  from pd.ring_loop_round [OF ns_ok_length(2) [OF assms(1)] unat_next_index_less [OF len], of ?s "pNodeIndex ex"]
  show ?thesis
  proof (elim disjE exE conjE, goal_cases)
    case (1 t)
    have "\<not> rr_avail ns p \<or> next_decode ns (p2DIndexMap ex) p = None" if "p \<in> set ?N" for p
    proof -
      have "pd_outcome ?s p = None" using 1(1) that by (rule all_visited)
      then show ?thesis by (auto simp: pd_outcome_def split: if_splits)
    qed
    moreover obtain t1 t2 where "t = (t1, t2)" "same_nodes ns t1" using 1(2) by (cases t) (auto simp: same_pd_def)
    ultimately show ?thesis using 1(3) by (auto simp: ex)
  next
    case (2 m x t j)
    let ?p = "visited ?N (unat ?i) m"
    obtain p d where x: "x = (p, d)" by (cases x)
    obtain t1 t2 where t: "t = (t1, t2)" "same_nodes ns t1" using 2(4) by (cases t) (auto simp: same_pd_def)
    have pin: "?p \<in> set ?N" using False by (rule visited_in)
    have "p = ?p \<and> rr_avail ns p \<and> rr_avail ns d \<and> p \<in> set (omap_get [] (d2PminiGroupNodes ns) d)"
      using pd_outcome_SomeD [OF assms(1)] 2(3) by (auto simp: x)
    moreover have "p \<in> set (nodeIndexList ns) \<and> is_prefill ns p" if "p = ?p"
      using assms(1) pin by (simp add: that ns_ok_def)
    moreover have "same_nodes ns (fst (snd (pd_attempt ?p t)))"
      unfolding t(1) by (rule same_nodes_trans [OF t(2) pd_attempt_same])
    ultimately show ?thesis using 2(6)
      by (intro exI [of _ "Some x"] exI [of _ "fst (snd (pd_attempt ?p t))"]
          exI [of _ "ex\<lparr>pNodeIndex := j, p2DIndexMap := snd (snd (pd_attempt ?p t))\<rparr>"])
         (auto simp: ex x case_prod_unfold)
  qed
qed

text \<open>C27: a call for a non-empty request on a deployment with separate prefill and decode nodes always
  returns. The pair it picks is a registered prefill node and a decode node that names it as a
  peer, both registered with free slots and blocks. It fails only when no prefill node both has
  resources and has a decode node next in turn with resources.\<close>

theorem pd_execute_correct:
  assumes "ns_ok ns" and "requestBody \<noteq> []"
  shows "\<exists>r ns' ex'. PDNodeExecute requestBody ns ex = Some (r, ns', ex') \<and> same_nodes ns ns'
    \<and> (case r of None \<Rightarrow> (\<forall>p. p \<in> set (pNodeList ns) \<longrightarrow> \<not> rr_avail ns p \<or> next_decode ns (p2DIndexMap ex) p = None)
        | Some (p, d) \<Rightarrow> p \<in> set (nodeIndexList ns) \<and> is_prefill ns p \<and> rr_avail ns p \<and> rr_avail ns d
            \<and> p \<in> set (omap_get [] (d2PminiGroupNodes ns) d))"
  using assms by (rule PDNodeExecute_correct)

subsection \<open>A sample store\<close>

definition ex_store :: NodeStore where
  "ex_store = DynamicUpdate [(default_dynamic 2)\<lparr>dy_peers := [1]\<rparr>]
     (AddNodes [(default_static 1 0)\<lparr>st_role := PREFILL_INSTANCE\<rparr>, (default_static 2 0)\<lparr>st_role := DECODE_INSTANCE\<rparr>]
        new_NodeStore)"

lemma ns_ok_ex_store: "ns_ok ex_store"
  unfolding ex_store_def by (intro ns_ok_DynamicUpdate ns_ok_AddNodes ns_ok_new)

lemma ex_store_lists: "nodeIndexList ex_store = [1, 2]" "pNodeList ex_store = [1]"
  by (simp_all add: ex_store_def DynamicUpdate_def UpdateP2DRelations_def update_node_lists AddNodes_def add_node_def
      new_NodeStore_def default_static_def)

lemma ex_store_avail: "i \<in> {1, 2} \<Longrightarrow> rr_avail ex_store i"
  by (auto simp: rr_avail_def rr_enough_def node_view_def ex_store_def DynamicUpdate_def UpdateP2DRelations_def
      update_node_def UpdateD2PRelations_def AddNodes_def add_node_def new_NodeStore_def default_static_def
      default_dynamic_def omap_insert_def omap_get_def Let_def)

theorem single_execute_correct_witness:
  "\<exists>n ns' ex'. SingleNodeExecute ''{}'' ex_store new_RoundRobinExecutor = Some (Some n, ns', ex') \<and> rr_avail ex_store n"
proof -
  have "\<not> (\<forall>i. i \<in> set (nodeIndexList ex_store) \<longrightarrow> \<not> rr_avail ex_store i)"
    using ex_store_avail [of 1] by (auto simp: ex_store_lists)
  with single_execute_correct [OF ns_ok_ex_store, of "''{}''" new_RoundRobinExecutor] show ?thesis
    by (auto simp: Let_def find_Some_iff split: option.splits)
qed

theorem pd_execute_correct_witness:
  "\<exists>r ns' ex'. PDNodeExecute ''{}'' ex_store new_RoundRobinExecutor = Some (r, ns', ex') \<and> same_nodes ex_store ns'"
  using pd_execute_correct [OF ns_ok_ex_store, of "''{}''" new_RoundRobinExecutor] by blast

end
