(* ===== verification/LRU_Cache.thy ===== *)
theory LRU_Cache
  imports Prelude
begin

text \<open>
  \<^verbatim>\<open>coordinator/scheduler/default_scheduler/algorithm/cache_affinity/LRUCache.{h,cpp}\<close>: a bounded table from hashes of
  conversations to nodes. The \<^verbatim>\<open>std::list\<close> is a list of (element, key) pairs, an iterator is the number of
  its element, and elements are numbered as they are created. Using an iterator whose element
  is gone, or the front of an empty list, is undefined: \<^const>\<open>None\<close>.
\<close>

record LRUCache =
  capacity :: "32 word"
  cache :: "(nat \<times> u64) list"
  cacheMap :: "u64 \<rightharpoonup> nat"
  sessionNodeMap :: "u64 \<rightharpoonup> u64"
  nextElem :: nat

definition new_LRUCache :: "32 word \<Rightarrow> LRUCache" where
  "new_LRUCache n = \<lparr>capacity = n, cache = [], cacheMap = Map.empty, sessionNodeMap = Map.empty, nextElem = 0\<rparr>"

text \<open>\<^verbatim>\<open>insert\<close> of an unordered map keeps an existing entry; erasing a list element needs a valid iterator.\<close>

definition map_insert :: "'k \<Rightarrow> 'v \<Rightarrow> ('k \<rightharpoonup> 'v) \<Rightarrow> ('k \<rightharpoonup> 'v)" where
  "map_insert k v m = (if m k = None then m(k \<mapsto> v) else m)"

definition list_erase :: "nat \<Rightarrow> (nat \<times> u64) list \<Rightarrow> (nat \<times> u64) list option" where
  "list_erase n xs = (if n \<in> fst ` set xs then Some (filter (\<lambda>e. fst e \<noteq> n) xs) else None)"

definition lru_Get :: "u64 \<Rightarrow> LRUCache \<Rightarrow> bool \<times> u64" where
  "lru_Get key c = (case sessionNodeMap c key of Some v \<Rightarrow> (True, v) | None \<Rightarrow> (False, 0))"

definition push_key :: "u64 \<Rightarrow> LRUCache \<Rightarrow> LRUCache" where
  "push_key key c = c\<lparr>cache := cache c @ [(nextElem c, key)],
     cacheMap := map_insert key (nextElem c) (cacheMap c), nextElem := Suc (nextElem c)\<rparr>"

definition lru_Put :: "u64 \<Rightarrow> u64 \<Rightarrow> LRUCache \<Rightarrow> LRUCache option" where
  "lru_Put key v c =
     (if sessionNodeMap c key \<noteq> None then Some (c\<lparr>sessionNodeMap := (sessionNodeMap c)(key \<mapsto> v)\<rparr>)
      else Option.bind
        (if length (cache c) = unat (capacity c)
         then (case cache c of [] \<Rightarrow> None
               | (n, removeKey) # rest \<Rightarrow>
                   Some (c\<lparr>cache := rest, cacheMap := (cacheMap c)(removeKey := None),
                           sessionNodeMap := (sessionNodeMap c)(removeKey := None)\<rparr>))
         else Some c)
        (\<lambda>c1. let c2 = push_key key c1
              in Some (c2\<lparr>sessionNodeMap := map_insert key v (sessionNodeMap c2)\<rparr>)))"

definition lru_Erase :: "u64 \<Rightarrow> LRUCache \<Rightarrow> LRUCache option" where
  "lru_Erase key c = (case cacheMap c key of
       None \<Rightarrow> Some c
     | Some n \<Rightarrow> map_option (\<lambda>xs. c\<lparr>cache := xs, cacheMap := (cacheMap c)(key := None),
                                  sessionNodeMap := (sessionNodeMap c)(key := None)\<rparr>)
                  (list_erase n (cache c)))"

definition lru_UpdateKey :: "u64 \<Rightarrow> u64 \<Rightarrow> LRUCache \<Rightarrow> LRUCache option" where
  "lru_UpdateKey oldKey newKey c = (case cacheMap c oldKey of
       None \<Rightarrow> Some c
     | Some n \<Rightarrow> map_option (\<lambda>xs.
         let c1 = push_key newKey (c\<lparr>cache := xs\<rparr>);
             v = (case sessionNodeMap c oldKey of None \<Rightarrow> 0 | Some v \<Rightarrow> v)
         in c1\<lparr>cacheMap := (cacheMap c1)(oldKey := None),
               sessionNodeMap := (map_insert newKey v (sessionNodeMap c))(oldKey := None)\<rparr>)
         (list_erase n (cache c)))"

subsection \<open>Invariant\<close>

text \<open>Every iterator of the index is valid and points to an element with its key.\<close>

definition lru_ok :: "LRUCache \<Rightarrow> bool" where
  "lru_ok c \<longleftrightarrow> 0 < unat (capacity c) \<and> length (cache c) \<le> unat (capacity c)
     \<and> distinct (map fst (cache c)) \<and> (\<forall>e \<in> set (cache c). fst e < nextElem c)
     \<and> (\<forall>k n. cacheMap c k = Some n \<longrightarrow> (n, k) \<in> set (cache c))
     \<and> dom (sessionNodeMap c) = dom (cacheMap c)"

lemma lru_ok_new: "n \<noteq> 0 \<Longrightarrow> lru_ok (new_LRUCache n)"
  by (simp add: lru_ok_def new_LRUCache_def unat_gt_0)

lemma dom_map_insert: "dom (map_insert k v m) = insert k (dom m)"
  by (auto simp: map_insert_def)

lemma length_list_erase: "list_erase n xs = Some ys \<Longrightarrow> length ys < length xs"
  by (auto simp: list_erase_def split: if_splits intro!: length_filter_less)

lemma list_erase_valid: "(n, k) \<in> set xs \<Longrightarrow> \<exists>ys. list_erase n xs = Some ys"
  by (force simp: list_erase_def)

lemma elem_unique: "distinct (map fst xs) \<Longrightarrow> (n, k) \<in> set xs \<Longrightarrow> (n, k') \<in> set xs \<Longrightarrow> k = k'"
  by (metis eq_key_imp_eq_value)

lemma filter_fst_unique: "distinct (map fst xs) \<Longrightarrow> (n, k) \<in> set xs \<Longrightarrow> filter (\<lambda>e. fst e = n) xs = [(n, k)]"
  by (induction xs) (force simp: filter_empty_conv)+

lemma lru_Get_Some: "lru_Get k c = (True, v) \<longleftrightarrow> sessionNodeMap c k = Some v"
  by (auto simp: lru_Get_def split: option.splits)

lemma lru_ok_evict:
  assumes "lru_ok c" "cache c = (n, k) # rest"
  shows "lru_ok (c\<lparr>cache := rest, cacheMap := (cacheMap c)(k := None), sessionNodeMap := (sessionNodeMap c)(k := None)\<rparr>)"
  using assms by (auto simp: lru_ok_def)

lemma lru_ok_push:
  assumes "lru_ok c" "length (cache c) < unat (capacity c)"
  shows "lru_ok ((push_key k c)\<lparr>sessionNodeMap := map_insert k v (sessionNodeMap c)\<rparr>)"
  using assms by (auto simp: lru_ok_def push_key_def map_insert_def split: if_splits)

lemma lru_ok_Put:
  assumes "lru_ok c"
  shows "\<exists>c'. lru_Put k v c = Some c' \<and> lru_ok c'"
proof (cases "sessionNodeMap c k")
  case (Some w)
  with assms have "k \<in> dom (cacheMap c)" by (auto simp: lru_ok_def)
  with assms Some show ?thesis by (simp add: lru_Put_def lru_ok_def insert_absorb)
next
  case None
  let ?done = "\<lambda>c1. Some ((push_key k c1)\<lparr>sessionNodeMap := map_insert k v (sessionNodeMap c1)\<rparr>)"
  have s: "sessionNodeMap (push_key k c1) = sessionNodeMap c1" for c1 by (simp add: push_key_def)
  show ?thesis
  proof (cases "length (cache c) = unat (capacity c)")
    case True
    with assms obtain n r rest where e: "cache c = (n, r) # rest" by (cases "cache c") (auto simp: lru_ok_def)
    let ?c = "c\<lparr>cache := rest, cacheMap := (cacheMap c)(r := None), sessionNodeMap := (sessionNodeMap c)(r := None)\<rparr>"
    have "lru_Put k v c = ?done ?c" using None True e by (simp add: lru_Put_def Let_def s)
    moreover have "lru_ok ?c" by (rule lru_ok_evict [OF assms e])
    ultimately show ?thesis using lru_ok_push [of ?c k v] True e by simp
  next
    case False
    with None have "lru_Put k v c = ?done c" by (simp add: lru_Put_def Let_def s)
    with lru_ok_push [OF assms, of k v] False assms show ?thesis by (simp add: lru_ok_def)
  qed
qed

lemma lru_ok_remove:
  assumes "lru_ok c" "cacheMap c k = Some n" "list_erase n (cache c) = Some xs"
  shows "lru_ok (c\<lparr>cache := xs, cacheMap := (cacheMap c)(k := None), sessionNodeMap := (sessionNodeMap c)(k := None)\<rparr>)"
proof -
  have nk: "(n, k) \<in> set (cache c)" and xs: "xs = filter (\<lambda>e. fst e \<noteq> n) (cache c)"
    using assms by (auto simp: lru_ok_def list_erase_def split: if_splits)
  have "(m, k') \<in> set xs" if "cacheMap c k' = Some m" "k' \<noteq> k" for k' m
  proof -
    have "(m, k') \<in> set (cache c)" using assms(1) that(1) by (simp add: lru_ok_def)
    moreover have "m \<noteq> n" using elem_unique [OF _ nk, of k'] that calculation assms(1) by (auto simp: lru_ok_def)
    ultimately show ?thesis by (simp add: xs)
  qed
  moreover have "length xs \<le> unat (capacity c)" using length_list_erase [OF assms(3)] assms(1) by (simp add: lru_ok_def)
  ultimately show ?thesis using assms(1) by (auto simp: lru_ok_def xs distinct_map_filter)
qed

lemma lru_ok_Erase:
  assumes "lru_ok c"
  shows "\<exists>c'. lru_Erase k c = Some c' \<and> lru_ok c'"
proof (cases "cacheMap c k")
  case (Some n)
  with assms list_erase_valid [of n k "cache c"] obtain xs where "list_erase n (cache c) = Some xs"
    by (auto simp: lru_ok_def)
  with lru_ok_remove [OF assms Some this] Some show ?thesis by (simp add: lru_Erase_def)
qed (use assms in \<open>simp add: lru_Erase_def\<close>)

lemma lru_UpdateKey_split:
  assumes "lru_ok c" "cacheMap c old = Some n" "list_erase n (cache c) = Some xs"
  defines "c0 \<equiv> c\<lparr>cache := xs, cacheMap := (cacheMap c)(old := None), sessionNodeMap := (sessionNodeMap c)(old := None)\<rparr>"
    and "v \<equiv> the (sessionNodeMap c old)"
  shows "new \<noteq> old \<Longrightarrow> lru_UpdateKey old new c = Some ((push_key new c0)\<lparr>sessionNodeMap := map_insert new v (sessionNodeMap c0)\<rparr>)"
    and "lru_UpdateKey old old c = Some (c0\<lparr>cache := xs @ [(nextElem c, old)], nextElem := Suc (nextElem c)\<rparr>)"
proof -
  have "old \<in> dom (sessionNodeMap c)" using assms(1,2) by (simp add: lru_ok_def domIff)
  then have d: "sessionNodeMap c old = Some v" by (auto simp: v_def)
  show "new \<noteq> old \<Longrightarrow> lru_UpdateKey old new c = Some ((push_key new c0)\<lparr>sessionNodeMap := map_insert new v (sessionNodeMap c0)\<rparr>)"
    using assms(2,3) d by (simp add: lru_UpdateKey_def Let_def push_key_def c0_def map_insert_def fun_upd_twist)
  show "lru_UpdateKey old old c = Some (c0\<lparr>cache := xs @ [(nextElem c, old)], nextElem := Suc (nextElem c)\<rparr>)"
    using assms(2,3) d by (simp add: lru_UpdateKey_def Let_def push_key_def c0_def map_insert_def)
qed

lemma lru_ok_UpdateKey:
  assumes "lru_ok c"
  shows "\<exists>c'. lru_UpdateKey old new c = Some c' \<and> lru_ok c'"
proof (cases "cacheMap c old")
  case (Some n)
  with assms list_erase_valid [of n old "cache c"] obtain xs where xs: "list_erase n (cache c) = Some xs"
    by (auto simp: lru_ok_def)
  let ?c = "c\<lparr>cache := xs, cacheMap := (cacheMap c)(old := None), sessionNodeMap := (sessionNodeMap c)(old := None)\<rparr>"
  have ok: "lru_ok ?c" by (rule lru_ok_remove [OF assms Some xs])
  have room: "length xs < unat (capacity c)" using length_list_erase [OF xs] assms by (simp add: lru_ok_def)
  show ?thesis
  proof (cases "new = old")
    case True
    have "lru_ok (?c\<lparr>cache := xs @ [(nextElem c, old)], nextElem := Suc (nextElem c)\<rparr>)"
      using ok room by (auto simp: lru_ok_def)
    with True lru_UpdateKey_split(2) [OF assms Some xs] show ?thesis by simp
  next
    case False
    with lru_ok_push [OF ok, of new] room lru_UpdateKey_split(1) [OF assms Some xs False] show ?thesis by simp
  qed
qed (use assms in \<open>simp add: lru_UpdateKey_def\<close>)

subsection \<open>The contract the prefix-cache executor relies on\<close>

text \<open>Calls on a consistent table return and keep it consistent; what was put is found, what was
  erased is not, and a renamed key keeps its node when the new key was free.\<close>

locale session_cache =
  fixes get :: "'k \<Rightarrow> 'c \<Rightarrow> 'v option"
    and put :: "'k \<Rightarrow> 'v \<Rightarrow> 'c \<Rightarrow> 'c option"
    and erase :: "'k \<Rightarrow> 'c \<Rightarrow> 'c option"
    and rekey :: "'k \<Rightarrow> 'k \<Rightarrow> 'c \<Rightarrow> 'c option"
    and ok :: "'c \<Rightarrow> bool"
  assumes put_ok: "ok c \<Longrightarrow> \<exists>c'. put k v c = Some c' \<and> ok c' \<and> get k c' = Some v"
    and erase_ok: "ok c \<Longrightarrow> \<exists>c'. erase k c = Some c' \<and> ok c' \<and> get k c' = None"
    and rekey_ok: "ok c \<Longrightarrow> \<exists>c'. rekey a b c = Some c' \<and> ok c'
      \<and> (\<forall>v. get a c = Some v \<longrightarrow> get b c = None \<longrightarrow> get b c' = Some v)"
begin

lemma replace_ok: "ok c \<Longrightarrow> \<exists>c'. Option.bind (erase a c) (put b v) = Some c' \<and> ok c' \<and> get b c' = Some v"
  using erase_ok [of c a] put_ok by fastforce

end

lemma session_Put: "lru_ok c \<Longrightarrow> lru_Put k v c = Some c' \<Longrightarrow> sessionNodeMap c' k = Some v"
  by (auto simp: lru_Put_def map_insert_def push_key_def Let_def bind_eq_Some_conv split: if_splits list.splits)

lemma session_Erase: "lru_ok c \<Longrightarrow> lru_Erase k c = Some c' \<Longrightarrow> sessionNodeMap c' k = None"
  by (auto simp: lru_Erase_def lru_ok_def domIff split: option.splits)

lemma session_UpdateKey:
  assumes "lru_ok c" "lru_UpdateKey a b c = Some c'" "sessionNodeMap c a = Some v" "sessionNodeMap c b = None"
  shows "sessionNodeMap c' b = Some v"
proof -
  have "cacheMap c a \<noteq> None" using assms(1,3) by (auto simp: lru_ok_def domIff)
  moreover have "a \<noteq> b" using assms(3,4) by auto
  ultimately show ?thesis using assms(2-4)
    by (auto simp: lru_UpdateKey_def map_insert_def push_key_def Let_def)
qed

interpretation lru: session_cache "\<lambda>k c. sessionNodeMap c k" lru_Put lru_Erase lru_UpdateKey lru_ok
proof unfold_locales
  fix c :: LRUCache and k v a b :: u64
  assume ok: "lru_ok c"
  show "\<exists>c'. lru_Put k v c = Some c' \<and> lru_ok c' \<and> sessionNodeMap c' k = Some v"
    using lru_ok_Put [OF ok] session_Put [OF ok] by blast
  show "\<exists>c'. lru_Erase k c = Some c' \<and> lru_ok c' \<and> sessionNodeMap c' k = None"
    using lru_ok_Erase [OF ok] session_Erase [OF ok] by blast
  show "\<exists>c'. lru_UpdateKey a b c = Some c' \<and> lru_ok c'
      \<and> (\<forall>v. sessionNodeMap c a = Some v \<longrightarrow> sessionNodeMap c b = None \<longrightarrow> sessionNodeMap c' b = Some v)"
    using lru_ok_UpdateKey [OF ok] session_UpdateKey [OF ok] by blast
qed

subsection \<open>Refinement\<close>

text \<open>
  Without key collisions the cache is a queue of (key, node) pairs, oldest first: putting a new key
  drops the oldest one when the queue is full, putting a known key changes its node in place, and
  renaming a key moves it to the end. Reading does not change the order.
\<close>

definition fifo_put :: "nat \<Rightarrow> u64 \<Rightarrow> u64 \<Rightarrow> (u64 \<times> u64) list \<Rightarrow> (u64 \<times> u64) list" where
  "fifo_put cap k v l =
     (if map_of l k \<noteq> None then map (\<lambda>e. if fst e = k then (k, v) else e) l
      else (if length l = cap then tl l else l) @ [(k, v)])"

definition fifo_erase :: "u64 \<Rightarrow> (u64 \<times> u64) list \<Rightarrow> (u64 \<times> u64) list" where
  "fifo_erase k l = filter (\<lambda>e. fst e \<noteq> k) l"

definition fifo_rekey :: "u64 \<Rightarrow> u64 \<Rightarrow> (u64 \<times> u64) list \<Rightarrow> (u64 \<times> u64) list" where
  "fifo_rekey old new l = (case map_of l old of None \<Rightarrow> l | Some v \<Rightarrow> fifo_erase old l @ [(new, v)])"

definition lru_exact :: "LRUCache \<Rightarrow> bool" where
  "lru_exact c \<longleftrightarrow> lru_ok c \<and> distinct (map snd (cache c)) \<and> dom (cacheMap c) = snd ` set (cache c)"

definition lru_abs :: "LRUCache \<Rightarrow> (u64 \<times> u64) list" where
  "lru_abs c = map (\<lambda>e. (snd e, the (sessionNodeMap c (snd e)))) (cache c)"

lemma exact_keys:
  assumes "lru_exact c"
  shows "sessionNodeMap c k = None \<longleftrightarrow> k \<notin> snd ` set (cache c)" and "cacheMap c k = None \<longleftrightarrow> k \<notin> snd ` set (cache c)"
proof -
  have "dom (sessionNodeMap c) = snd ` set (cache c)" "dom (cacheMap c) = snd ` set (cache c)"
    using assms by (simp_all add: lru_exact_def lru_ok_def)
  then show "sessionNodeMap c k = None \<longleftrightarrow> k \<notin> snd ` set (cache c)" "cacheMap c k = None \<longleftrightarrow> k \<notin> snd ` set (cache c)"
    by (metis domIff)+
qed

lemma map_of_keyed: "map_of (map (\<lambda>e. (snd e, f (snd e))) xs) k = (if k \<in> snd ` set xs then Some (f k) else None)"
  by (induction xs) auto

lemma map_of_abs: "lru_exact c \<Longrightarrow> map_of (lru_abs c) k = sessionNodeMap c k"
  using exact_keys(1) [of c k] unfolding lru_abs_def map_of_keyed [where f = "\<lambda>x. the (sessionNodeMap c x)"]
  by auto

lemma exact_new: "n \<noteq> 0 \<Longrightarrow> lru_exact (new_LRUCache n)"
  by (simp add: lru_exact_def lru_ok_new) (simp add: new_LRUCache_def)

lemma abs_length: "length (lru_abs c) = length (cache c)"
  by (simp add: lru_abs_def)

lemma exact_push:
  fixes v :: u64
  assumes "lru_exact c" "length (cache c) < unat (capacity c)" "sessionNodeMap c k = None"
  defines "c' \<equiv> (push_key k c)\<lparr>sessionNodeMap := map_insert k v (sessionNodeMap c)\<rparr>"
  shows "lru_exact c'" and "lru_abs c' = lru_abs c @ [(k, v)]"
proof -
  have k: "k \<notin> snd ` set (cache c)" "cacheMap c k = None"
    using exact_keys [OF assms(1), of k] assms(3) by simp_all
  have "lru_ok c'" unfolding c'_def using assms by (intro lru_ok_push) (simp_all add: lru_exact_def)
  then show "lru_exact c'" using assms(1) k by (auto simp: lru_exact_def c'_def push_key_def map_insert_def)
  show "lru_abs c' = lru_abs c @ [(k, v)]"
    using k(1) assms(3) by (auto simp: lru_abs_def c'_def push_key_def map_insert_def image_iff)
qed

lemma exact_remove:
  assumes "lru_exact c" "cacheMap c k = Some n"
  obtains xs where "list_erase n (cache c) = Some xs" "length xs < length (cache c)"
    and "lru_exact (c\<lparr>cache := xs, cacheMap := (cacheMap c)(k := None), sessionNodeMap := (sessionNodeMap c)(k := None)\<rparr>)"
    and "lru_abs (c\<lparr>cache := xs, cacheMap := (cacheMap c)(k := None), sessionNodeMap := (sessionNodeMap c)(k := None)\<rparr>)
      = fifo_erase k (lru_abs c)"
proof -
  have ok: "lru_ok c" and dk: "distinct (map snd (cache c))" using assms(1) by (simp_all add: lru_exact_def)
  have nk: "(n, k) \<in> set (cache c)" using ok assms(2) by (simp add: lru_ok_def)
  obtain xs where xs: "list_erase n (cache c) = Some xs" using list_erase_valid [OF nk] by blast
  have "fst e = n \<longleftrightarrow> snd e = k" if "e \<in> set (cache c)" for e
  proof -
    have "distinct (map fst (cache c))" using ok by (simp add: lru_ok_def)
    then have i: "inj_on fst (set (cache c))" "inj_on snd (set (cache c))" using dk by (simp_all add: distinct_map)
    show ?thesis using inj_onD [OF i(1) _ that nk] inj_onD [OF i(2) _ that nk] by (cases e) auto
  qed
  then have f: "xs = filter (\<lambda>e. snd e \<noteq> k) (cache c)"
    using xs by (auto simp: list_erase_def split: if_splits intro!: filter_cong)
  let ?c = "c\<lparr>cache := xs, cacheMap := (cacheMap c)(k := None), sessionNodeMap := (sessionNodeMap c)(k := None)\<rparr>"
  have "lru_exact ?c" using lru_ok_remove [OF ok assms(2) xs] assms(1) by (auto simp: lru_exact_def f distinct_map_filter)
  moreover have "lru_abs ?c = fifo_erase k (lru_abs c)"
    by (simp add: lru_abs_def f fifo_erase_def filter_map comp_def)
  ultimately show thesis using that xs length_list_erase [OF xs] by blast
qed

lemma exact_evict:
  assumes "lru_exact c" "cache c = (n, r) # rest"
  defines "c' \<equiv> c\<lparr>cache := rest, cacheMap := (cacheMap c)(r := None), sessionNodeMap := (sessionNodeMap c)(r := None)\<rparr>"
  shows "lru_exact c'" and "lru_abs c' = tl (lru_abs c)"
proof -
  have "lru_ok c'" unfolding c'_def using assms by (intro lru_ok_evict [of c n]) (simp_all add: lru_exact_def)
  then show "lru_exact c'" using assms(1,2) by (auto simp: lru_exact_def c'_def)
  show "lru_abs c' = tl (lru_abs c)" using assms(1,2) by (auto simp: lru_abs_def c'_def lru_exact_def)
qed

lemma refine_Put:
  assumes "lru_exact c"
  shows "\<exists>c'. lru_Put k v c = Some c' \<and> lru_exact c' \<and> lru_abs c' = fifo_put (unat (capacity c)) k v (lru_abs c)"
proof (cases "sessionNodeMap c k")
  case (Some w)
  let ?c = "c\<lparr>sessionNodeMap := (sessionNodeMap c)(k \<mapsto> v)\<rparr>"
  have "dom (sessionNodeMap ?c) = dom (sessionNodeMap c)" using Some by auto
  then have "lru_exact ?c" using assms by (simp add: lru_exact_def lru_ok_def)
  moreover have "lru_abs ?c = fifo_put (unat (capacity c)) k v (lru_abs c)"
    using Some map_of_abs [OF assms, of k] by (auto simp: fifo_put_def) (simp add: lru_abs_def)
  ultimately show ?thesis using Some by (simp add: lru_Put_def)
next
  case None
  let ?done = "\<lambda>c1. (push_key k c1)\<lparr>sessionNodeMap := map_insert k v (sessionNodeMap c1)\<rparr>"
  have s: "sessionNodeMap (push_key k c1) = sessionNodeMap c1" for c1 by (simp add: push_key_def)
  have m: "map_of (lru_abs c) k = None" using map_of_abs [OF assms] None by simp
  have ok: "lru_ok c" using assms by (simp add: lru_exact_def)
  show ?thesis
  proof (cases "length (cache c) = unat (capacity c)")
    case True
    with ok obtain n r rest where e: "cache c = (n, r) # rest" by (cases "cache c") (auto simp: lru_ok_def)
    let ?c = "c\<lparr>cache := rest, cacheMap := (cacheMap c)(r := None), sessionNodeMap := (sessionNodeMap c)(r := None)\<rparr>"
    have "lru_Put k v c = Some (?done ?c)" using None True e by (simp add: lru_Put_def Let_def s)
    moreover have "lru_exact (?done ?c) \<and> lru_abs (?done ?c) = lru_abs ?c @ [(k, v)]"
      using exact_push [of ?c k v] exact_evict(1) [OF assms e] True e None by simp
    ultimately show ?thesis using exact_evict(2) [OF assms e] True m by (simp add: fifo_put_def abs_length)
  next
    case False
    then have "length (cache c) < unat (capacity c)" using ok by (simp add: lru_ok_def)
    from exact_push [OF assms this None] False None m show ?thesis
      by (simp add: lru_Put_def Let_def s fifo_put_def abs_length)
  qed
qed

lemma refine_Erase:
  assumes "lru_exact c"
  shows "\<exists>c'. lru_Erase k c = Some c' \<and> lru_exact c' \<and> lru_abs c' = fifo_erase k (lru_abs c)"
proof (cases "cacheMap c k")
  case None
  then have "k \<notin> snd ` set (cache c)" using exact_keys(2) [OF assms] by simp
  then have "fifo_erase k (lru_abs c) = lru_abs c"
    by (auto simp: fifo_erase_def lru_abs_def filter_id_conv)
  with None assms show ?thesis by (simp add: lru_Erase_def)
next
  case (Some n)
  obtain xs where "list_erase n (cache c) = Some xs"
    "lru_exact (c\<lparr>cache := xs, cacheMap := (cacheMap c)(k := None), sessionNodeMap := (sessionNodeMap c)(k := None)\<rparr>)"
    "lru_abs (c\<lparr>cache := xs, cacheMap := (cacheMap c)(k := None), sessionNodeMap := (sessionNodeMap c)(k := None)\<rparr>)
      = fifo_erase k (lru_abs c)" by (rule exact_remove [OF assms Some])
  with Some show ?thesis by (simp add: lru_Erase_def)
qed

lemma refine_UpdateKey:
  assumes "lru_exact c" "sessionNodeMap c new = None" "new \<noteq> old"
  shows "\<exists>c'. lru_UpdateKey old new c = Some c' \<and> lru_exact c' \<and> lru_abs c' = fifo_rekey old new (lru_abs c)"
proof (cases "cacheMap c old")
  case None
  then have "sessionNodeMap c old = None" using exact_keys [OF assms(1), of old] by simp
  then have "fifo_rekey old new (lru_abs c) = lru_abs c" by (simp add: fifo_rekey_def map_of_abs [OF assms(1)])
  with None assms(1) show ?thesis by (simp add: lru_UpdateKey_def)
next
  case (Some n)
  let ?c = "\<lambda>xs. c\<lparr>cache := xs, cacheMap := (cacheMap c)(old := None), sessionNodeMap := (sessionNodeMap c)(old := None)\<rparr>"
  obtain xs where xs: "list_erase n (cache c) = Some xs" "length xs < length (cache c)" "lru_exact (?c xs)"
    "lru_abs (?c xs) = fifo_erase old (lru_abs c)" by (rule exact_remove [OF assms(1) Some])
  have ok: "lru_ok c" using assms(1) by (simp add: lru_exact_def)
  have "\<exists>w. sessionNodeMap c old = Some w" using exact_keys [OF assms(1), of old] Some by (cases "sessionNodeMap c old") auto
  then obtain w where w: "sessionNodeMap c old = Some w" by blast
  have "length (cache (?c xs)) < unat (capacity (?c xs))" using xs(2) ok by (simp add: lru_ok_def)
  from exact_push [OF xs(3) this, of new w] assms(2,3) lru_UpdateKey_split(1) [OF ok Some xs(1) assms(3)] w xs(4)
  show ?thesis by (simp add: fifo_rekey_def map_of_abs [OF assms(1)])
qed

subsection \<open>Properties\<close>

datatype lru_op = OpPut u64 u64 | OpErase u64 | OpUpdateKey u64 u64

fun lru_step :: "lru_op \<Rightarrow> LRUCache \<Rightarrow> LRUCache option" where
  "lru_step (OpPut k v) c = lru_Put k v c"
| "lru_step (OpErase k) c = lru_Erase k c"
| "lru_step (OpUpdateKey old new) c = lru_UpdateKey old new c"

fun lru_run :: "lru_op list \<Rightarrow> LRUCache \<Rightarrow> LRUCache option" where
  "lru_run [] c = Some c"
| "lru_run (x # xs) c = Option.bind (lru_step x c) (lru_run xs)"

lemma lru_ok_step: "lru_ok c \<Longrightarrow> \<exists>c'. lru_step x c = Some c' \<and> lru_ok c'"
  by (cases x) (simp_all add: lru_ok_Put lru_ok_Erase lru_ok_UpdateKey)

lemma lru_ok_run: "lru_ok c \<Longrightarrow> \<exists>c'. lru_run ops c = Some c' \<and> lru_ok c'"
proof (induction ops arbitrary: c)
  case (Cons x xs)
  with lru_ok_step [OF Cons.prems, of x] show ?case by auto
qed simp

lemma lru_capacity: "lru_step x c = Some c' \<Longrightarrow> capacity c' = capacity c"
  by (cases x) (auto simp: lru_Put_def lru_Erase_def lru_UpdateKey_def push_key_def Let_def bind_eq_Some_conv
      split: option.splits if_splits list.splits)

lemma lru_capacity_run: "lru_run ops c = Some c' \<Longrightarrow> capacity c' = capacity c"
  by (induction ops arbitrary: c) (auto simp: bind_eq_Some_conv dest: lru_capacity)

lemma lru_ok_card: "lru_ok c \<Longrightarrow> card (dom (sessionNodeMap c)) \<le> length (cache c)"
proof -
  assume ok: "lru_ok c"
  have "dom (sessionNodeMap c) \<subseteq> snd ` set (cache c)" using ok by (force simp: lru_ok_def)
  then have "card (dom (sessionNodeMap c)) \<le> card (snd ` set (cache c))" by (intro card_mono) simp_all
  also have "\<dots> \<le> length (cache c)" by (metis card_length length_map set_map)
  finally show ?thesis .
qed

text \<open>C29: whatever sequence of calls a cache of non-zero capacity gets, also with colliding keys, no call uses
  an iterator of an element that is gone or pops an empty list, and neither the list nor the table
  of nodes ever exceeds the capacity.\<close>

theorem lru_cache_safe_and_bounded:
  assumes "n \<noteq> 0"
  shows "\<exists>c. lru_run ops (new_LRUCache n) = Some c \<and> length (cache c) \<le> unat n
    \<and> card (dom (sessionNodeMap c)) \<le> unat n \<and> dom (sessionNodeMap c) \<subseteq> snd ` set (cache c)"
proof -
  obtain c where c: "lru_run ops (new_LRUCache n) = Some c" "lru_ok c" using lru_ok_run [OF lru_ok_new [OF assms]] by blast
  have "capacity c = n" using lru_capacity_run [OF c(1)] by (simp add: new_LRUCache_def)
  then have len: "length (cache c) \<le> unat n" using c(2) by (simp add: lru_ok_def)
  have "dom (sessionNodeMap c) \<subseteq> snd ` set (cache c)" using c(2) by (force simp: lru_ok_def)
  with c(1) len lru_ok_card [OF c(2)] show ?thesis by (meson order_trans)
qed

theorem lru_cache_safe_and_bounded_witness:
  "\<exists>c. lru_run [OpPut 1 7, OpPut 2 8, OpUpdateKey 1 2, OpErase 2, OpPut 3 9] (new_LRUCache 2) = Some c
     \<and> length (cache c) \<le> 2"
  using lru_cache_safe_and_bounded [of 2 "[OpPut 1 7, OpPut 2 8, OpUpdateKey 1 2, OpErase 2, OpPut 3 9]"] by auto

text \<open>C28: as long as no key is renamed to a key in use, the cache implements a bounded queue of pairs: every
  operation on it has the effect of the operation on the queue, and a lookup finds what the
  queue holds.\<close>

theorem lru_refines_queue:
  assumes "lru_exact c"
  shows "(\<exists>c'. lru_Put k v c = Some c' \<and> lru_exact c' \<and> lru_abs c' = fifo_put (unat (capacity c)) k v (lru_abs c))
    \<and> (\<exists>c'. lru_Erase k c = Some c' \<and> lru_exact c' \<and> lru_abs c' = fifo_erase k (lru_abs c))
    \<and> (new = old \<or> fst (lru_Get new c)
        \<or> (\<exists>c'. lru_UpdateKey old new c = Some c' \<and> lru_exact c' \<and> lru_abs c' = fifo_rekey old new (lru_abs c)))
    \<and> lru_Get k c = (case map_of (lru_abs c) k of Some w \<Rightarrow> (True, w) | None \<Rightarrow> (False, 0))"
  using refine_Put [OF assms] refine_Erase [OF assms] refine_UpdateKey [OF assms, of new old]
  by (auto simp: lru_Get_def map_of_abs [OF assms] split: option.splits)

theorem lru_refines_queue_witness:
  "\<exists>c'. lru_Put 5 6 (new_LRUCache 1) = Some c' \<and> lru_abs c' = [(5, 6)]"
proof -
  have e: "lru_exact (new_LRUCache 1)" by (rule exact_new) simp
  have "fifo_put 1 5 6 (lru_abs (new_LRUCache 1)) = [(5, 6)]" "unat (capacity (new_LRUCache 1)) = 1"
    by (simp_all add: fifo_put_def lru_abs_def new_LRUCache_def)
  then show ?thesis using lru_refines_queue [OF e, THEN conjunct1, where k1 = 5 and v1 = 6] by auto
qed

text \<open>Renaming a key to one in use leaves the table with the node of the key in use, and a second list
  element for it: the node just chosen for the conversation is forgotten, and one slot of the
  cache is lost until the duplicate is evicted.\<close>

lemma rename_to_used_key:
  assumes "lru_ok c" and "sessionNodeMap c old = Some v" and "sessionNodeMap c new = Some w" and "new \<noteq> old"
  shows "\<exists>c'. lru_UpdateKey old new c = Some c' \<and> lru_Get new c' = (True, w)
    \<and> length (cache c') = length (cache c) \<and> card (dom (sessionNodeMap c')) < length (cache c')"
proof -
  have "old \<in> dom (cacheMap c)" using assms(1,2) by (auto simp: lru_ok_def)
  then obtain n where n: "cacheMap c old = Some n" by auto
  with assms(1) have no: "(n, old) \<in> set (cache c)" by (simp add: lru_ok_def)
  then obtain xs where xs: "list_erase n (cache c) = Some xs" using list_erase_valid by blast
  let ?c0 = "c\<lparr>cache := xs, cacheMap := (cacheMap c)(old := None), sessionNodeMap := (sessionNodeMap c)(old := None)\<rparr>"
  have ok: "lru_ok ?c0" by (rule lru_ok_remove [OF assms(1) n xs])
  note u = lru_UpdateKey_split(1) [OF assms(1) n xs assms(4)]
  have f: "xs = filter (\<lambda>e. fst e \<noteq> n) (cache c)" using xs by (simp add: list_erase_def split: if_splits)
  have "length xs + 1 = length (cache c)"
  proof -
    have "filter (\<lambda>e. fst e = n) (cache c) = [(n, old)]"
      using no assms(1) by (simp add: lru_ok_def filter_fst_unique)
    then show ?thesis using sum_length_filter_compl [of "\<lambda>e. fst e = n" "cache c"] f by simp
  qed
  moreover have "dom (map_insert new v (sessionNodeMap ?c0)) = dom (sessionNodeMap ?c0)"
    using assms(3,4) by (auto simp: map_insert_def)
  ultimately show ?thesis
    using u lru_ok_card [OF ok] assms(3,4)
    by (auto simp: push_key_def lru_Get_def map_insert_def split: if_splits)
qed

end
