(* ===== verification/Prefix_Cache_Executor.thy ===== *)
theory Prefix_Cache_Executor
  imports Round_Robin_Executor LRU_Cache
begin

text \<open>
  \<^verbatim>\<open>coordinator/scheduler/default_scheduler/algorithm/cache_affinity/PrefixCacheExecutor.{h,cpp}\<close>. Two library functions are
  arguments: \<open>json_array\<close> gives the printed elements of a request body that parses to a JSON
  array and \<^const>\<open>None\<close> for anything else (the code treats a parse exception like a body that is no
  array), and \<open>hasher\<close> is \<^verbatim>\<open>std::hash\<close> on strings. Bodies have fewer than \<open>2 ^ 32\<close> messages. As for the
  round-robin executor, the inner option is the return code and the outer one is undefined
  behaviour or a loop that does not return.
\<close>

type_synonym json = "string \<Rightarrow> string list option"
type_synonym hasher = "string \<Rightarrow> u64"

record PrefixCacheExecutor =
  pc_cache :: LRUCache
  slotsThresh :: f64
  blockThresh :: f64
  curNodeIndex :: u64

text \<open>The constructor, on the results of \<^verbatim>\<open>std::stoi\<close> and \<^verbatim>\<open>std::stof\<close> for the three configured strings; one
  exception resets all three to the defaults. The capacity is converted to 32 bits.\<close>

definition new_PrefixCacheExecutor :: "int option \<Rightarrow> f64 option \<Rightarrow> f64 option \<Rightarrow> PrefixCacheExecutor" where
  "new_PrefixCacheExecutor cap slots blocks =
     (case (cap, slots, blocks) of
        (Some n, Some s, Some b) \<Rightarrow>
          \<lparr>pc_cache = new_LRUCache (word_of_int n), slotsThresh = s, blockThresh = b, curNodeIndex = 0\<rparr>
      | _ \<Rightarrow> \<lparr>pc_cache = new_LRUCache 100, slotsThresh = f64_lit (5 / 100), blockThresh = f64_lit (5 / 100),
             curNodeIndex = 0\<rparr>)"

type_synonym thresholds = "f64 \<times> f64"

definition pc_enough :: "thresholds \<Rightarrow> DIGSInstanceStaticInfo \<Rightarrow> DIGSInstanceDynamicInfo \<Rightarrow> bool" where
  "pc_enough th st dy =
     (let totalSlots = f64_of_u64 (st_totalSlotsNum st); totalBlock = f64_of_u64 (st_totalBlockNum st);
          availSlots = f64_of_u64 (dy_availSlotsNum dy); availBlock = f64_of_u64 (dy_availBlockNum dy)
      in if f64_lt totalSlots (Fin 1) \<or> f64_lt totalBlock (Fin 1) then False
         else if \<not> f64_lt (fst th) (f64_div availSlots totalSlots) then False
         else if \<not> f64_lt (snd th) (f64_div availBlock totalBlock) then False
         else True)"

definition pc_IsNodeResourceAvail :: "thresholds \<Rightarrow> u64 \<Rightarrow> NodeStore \<Rightarrow> bool \<times> NodeStore" where
  "pc_IsNodeResourceAvail th i ns = (case GetNodeById i ns of
       (None, ns1) \<Rightarrow> (False, ns1)
     | (Some (st, dy), ns1) \<Rightarrow> (pc_enough th st dy, ns1))"

definition pc_attempt :: "thresholds \<Rightarrow> u64 \<Rightarrow> NodeStore \<Rightarrow> u64 option \<times> NodeStore" where
  "pc_attempt th i ns = (let (ok, ns1) = pc_IsNodeResourceAvail th i ns in (if ok then Some i else None, ns1))"

type_synonym pc_state = "NodeStore \<times> PrefixCacheExecutor"

abbreviation th_of :: "PrefixCacheExecutor \<Rightarrow> thresholds" where
  "th_of ex \<equiv> (slotsThresh ex, blockThresh ex)"

definition pc_RoundRobin :: "pc_state \<Rightarrow> (u64 option \<times> pc_state) option" where
  "pc_RoundRobin s = (case s of (ns, ex) \<Rightarrow>
     (let nodes = nodeIndexList ns in
      if nodes = [] then Some (None, ns, ex)
      else let i = next_index (length nodes) (curNodeIndex ex)
           in map_option (\<lambda>(r, j, ns1). (r, ns1, ex\<lparr>curNodeIndex := j\<rparr>))
                (ring_loop (pc_attempt (th_of ex)) nodes i i ns)))"

text \<open>The hashes of the conversation without its last two messages (0 when nothing is left) and of
  all of it.\<close>

definition PreProcessMessage :: "json \<Rightarrow> hasher \<Rightarrow> string \<Rightarrow> (u64 \<times> u64) option" where
  "PreProcessMessage json_array hasher requestBody =
     (case json_array requestBody of
        None \<Rightarrow> None
      | Some ms \<Rightarrow>
          (if length ms < 2 then None
           else let message = concat (take (length ms - 2) ms) in
             if message \<noteq> [] \<and> hasher message = 0 then None
             else let historyHash = (if message \<noteq> [] then hasher message else 0);
                      newHash = hasher (message @ concat (drop (length ms - 2) ms))
                  in if newHash = 0 then None else Some (historyHash, newHash)))"

definition CacheAffinity :: "u64 \<Rightarrow> pc_state \<Rightarrow> u64 option \<times> pc_state" where
  "CacheAffinity historyHash s = (case s of (ns, ex) \<Rightarrow>
     (case lru_Get historyHash (pc_cache ex) of
        (False, _) \<Rightarrow> (None, s)
      | (True, node) \<Rightarrow>
          (let (ok, ns1) = pc_IsNodeResourceAvail (th_of ex) node ns
           in (if ok then Some node else None, ns1, ex))))"

text \<open>The three outcomes of \<^verbatim>\<open>ProcessFirstRequest\<close>: -1, 0 with the picked node, 1.\<close>

datatype first_result = FirstFailed | FirstPicked u64 | NotFirst

definition set_cache :: "LRUCache \<Rightarrow> pc_state \<Rightarrow> pc_state" where
  "set_cache c s = (fst s, (snd s)\<lparr>pc_cache := c\<rparr>)"

definition ProcessFirstRequest ::
  "json \<Rightarrow> hasher \<Rightarrow> string \<Rightarrow> pc_state \<Rightarrow> (first_result \<times> pc_state) option" where
  "ProcessFirstRequest json_array hasher requestBody s =
     (case json_array requestBody of
        None \<Rightarrow> Some (FirstFailed, s)
      | Some ms \<Rightarrow>
          (if ms = [] then Some (FirstFailed, s)
           else if length ms > 2 then Some (NotFirst, s)
           else let newHashValue = hasher (concat ms) in
             if newHashValue = 0 then Some (FirstFailed, s)
             else Option.bind (pc_RoundRobin s) (\<lambda>(r, s1). case r of
                 None \<Rightarrow> Some (FirstFailed, s1)
               | Some pickedNode \<Rightarrow>
                   map_option (\<lambda>c. (FirstPicked pickedNode, set_cache c s1))
                     (lru_Put newHashValue pickedNode (pc_cache (snd s1))))))"

definition DoRoundRobin :: "pc_state \<Rightarrow> (u64 list option \<times> pc_state) option" where
  "DoRoundRobin s = map_option (\<lambda>(r, s1). (map_option (\<lambda>n. [n]) r, s1)) (pc_RoundRobin s)"

text \<open>A later request of a conversation: the node of its history, or the next node in turn.\<close>

definition pick_by_history :: "u64 \<Rightarrow> u64 \<Rightarrow> pc_state \<Rightarrow> (u64 list option \<times> pc_state) option" where
  "pick_by_history historyHash newHashValue s =
     (case CacheAffinity historyHash s of
        (Some pickedNode, s2) \<Rightarrow>
          map_option (\<lambda>c. (Some [pickedNode], set_cache c s2))
            (lru_UpdateKey historyHash newHashValue (pc_cache (snd s2)))
      | (None, s2) \<Rightarrow>
          Option.bind (pc_RoundRobin s2) (\<lambda>(r, s3). case r of
              None \<Rightarrow> Some (None, s3)
            | Some pickedNode \<Rightarrow>
                map_option (\<lambda>c. (Some [pickedNode], set_cache c s3))
                  (Option.bind (lru_Erase historyHash (pc_cache (snd s3))) (lru_Put newHashValue pickedNode))))"

text \<open>\<open>OPENAI\<close> is request type 0.\<close>

definition pc_Execute ::
  "json \<Rightarrow> hasher \<Rightarrow> DeployMode \<Rightarrow> string \<Rightarrow> int \<Rightarrow> pc_state \<Rightarrow> (u64 list option \<times> pc_state) option" where
  "pc_Execute json_array hasher deployMode requestBody type s =
     (if deployMode = PD_SEPARATE then Some (None, s)
      else if type \<noteq> 0 then DoRoundRobin s
      else Option.bind (ProcessFirstRequest json_array hasher requestBody s) (\<lambda>(firstRet, s1). case firstRet of
          FirstFailed \<Rightarrow> DoRoundRobin s1
        | FirstPicked n \<Rightarrow> Some (Some [n], s1)
        | NotFirst \<Rightarrow> (case PreProcessMessage json_array hasher requestBody of
            None \<Rightarrow> DoRoundRobin s1
          | Some (historyHash, newHashValue) \<Rightarrow> pick_by_history historyHash newHashValue s1)))"

subsection \<open>Polling\<close>

definition pc_avail :: "thresholds \<Rightarrow> NodeStore \<Rightarrow> u64 \<Rightarrow> bool" where
  "pc_avail th ns i = (case node_view ns i of None \<Rightarrow> False | Some (st, dy) \<Rightarrow> pc_enough th st dy)"

lemma pc_avail_same: "same_nodes s t \<Longrightarrow> pc_avail th t = pc_avail th s"
  by (simp add: pc_avail_def same_nodes_def fun_eq_iff)

lemma pc_avail_registered: "pc_avail th ns i \<Longrightarrow> IsNodeAvailable i ns"
  by (auto simp: pc_avail_def node_view_def IsNodeAvailable_def split: option.splits)

lemma pc_IsNodeResourceAvail_eq: "pc_IsNodeResourceAvail th i ns = (pc_avail th ns i, snd (GetNodeById i ns))"
  using GetNodeById_view [of i ns]
  by (auto simp: pc_IsNodeResourceAvail_def pc_avail_def split: prod.splits option.splits)

interpretation pc: ring_scan "pc_attempt th" "\<lambda>ns i. if pc_avail th ns i then Some i else None" same_nodes for th
  by unfold_locales
     (auto simp: pc_attempt_def pc_IsNodeResourceAvail_eq pc_avail_same GetNodeById_same intro: same_nodes_trans)

text \<open>What every step keeps: the nodes, the thresholds, and a consistent cache.\<close>

definition pc_frame :: "pc_state \<Rightarrow> pc_state \<Rightarrow> bool" where
  "pc_frame s t \<longleftrightarrow> same_nodes (fst s) (fst t) \<and> th_of (snd t) = th_of (snd s)"

lemma pc_frame_refl [simp, intro]: "pc_frame s s"
  by (simp add: pc_frame_def)

lemma pc_frame_trans: "pc_frame s t \<Longrightarrow> pc_frame t u \<Longrightarrow> pc_frame s u"
  by (auto simp: pc_frame_def intro: same_nodes_trans)

lemma pc_frame_cache [simp]: "pc_frame s (set_cache c t) \<longleftrightarrow> pc_frame s t"
  by (simp add: pc_frame_def set_cache_def)

text \<open>A pick is a registered node above the thresholds; no pick means that there is none in the list.\<close>

definition pick_ok :: "pc_state \<Rightarrow> u64 option \<Rightarrow> bool" where
  "pick_ok s r = (case r of
       None \<Rightarrow> (\<forall>i \<in> set (nodeIndexList (fst s)). \<not> pc_avail (th_of (snd s)) (fst s) i)
     | Some n \<Rightarrow> pc_avail (th_of (snd s)) (fst s) n \<and> IsNodeAvailable n (fst s))"

lemma pick_ok_frame: "pc_frame s t \<Longrightarrow> pick_ok t r = pick_ok s r"
proof -
  assume f: "pc_frame s t"
  have "pc_avail (th_of (snd t)) (fst t) = pc_avail (th_of (snd s)) (fst s)"
    using f pc_avail_same [of "fst s" "fst t"] by (simp add: pc_frame_def)
  moreover have "nodeIndexList (fst t) = nodeIndexList (fst s)" "IsNodeAvailable n (fst t) = IsNodeAvailable n (fst s)" for n
    using f by (simp_all add: pc_frame_def same_nodes_def IsNodeAvailable_def)
  ultimately show ?thesis by (simp add: pick_ok_def split: option.splits)
qed

lemma pc_RoundRobin_ok:
  assumes "length (nodeIndexList (fst s)) \<le> 2 ^ 64"
  shows "\<exists>r t. pc_RoundRobin s = Some (r, t) \<and> pc_frame s t \<and> pc_cache (snd t) = pc_cache (snd s) \<and> pick_ok s r
    \<and> set_option r \<subseteq> set (nodeIndexList (fst s))"
proof -
  obtain ns ex where s: "s = (ns, ex)" by (cases s)
  let ?N = "nodeIndexList ns" and ?i = "next_index (length (nodeIndexList ns)) (curNodeIndex ex)"
  show ?thesis
  proof (cases "?N = []")
    case True
    then show ?thesis by (simp add: pc_RoundRobin_def s pick_ok_def)
  next
    case False
    then have len: "0 < length ?N" by simp
    have rr: "pc_RoundRobin (ns, ex) = map_option (\<lambda>(r, j, ns1). (r, ns1, ex\<lparr>curNodeIndex := j\<rparr>))
        (ring_loop (pc_attempt (th_of ex)) ?N ?i ?i ns)"
      using False by (simp add: pc_RoundRobin_def s Let_def)
    from assms have l: "length ?N \<le> 2 ^ 64" by (simp add: s)
    from pc.ring_loop_round [OF l unat_next_index_less [OF len], of "th_of ex" ns "curNodeIndex ex"]
    show ?thesis
    proof (elim disjE exE conjE, goal_cases)
      case (1 t)
      have "\<forall>j < length ?N. \<not> pc_avail (th_of ex) ns (visited ?N (unat ?i) j)" using 1(1) by (auto split: if_splits)
      then have "\<forall>i \<in> set ?N. \<not> pc_avail (th_of ex) ns i" using all_visited [of ?N "\<lambda>i. \<not> pc_avail (th_of ex) ns i"] by blast
      with 1(2,3) show ?thesis by (simp add: rr pc_frame_def pick_ok_def s)
    next
      case (2 m x t j)
      obtain "pc_avail (th_of ex) ns x" "x = visited ?N (unat ?i) m" using 2(3) by (auto split: if_splits)
      moreover have "same_nodes ns (snd (pc_attempt (th_of ex) (visited ?N (unat ?i) m) t))"
        using 2(4) by (auto simp: pc_attempt_def pc_IsNodeResourceAvail_eq intro: same_nodes_trans GetNodeById_same)
      ultimately show ?thesis using 2(6) visited_in [OF False]
        by (simp add: rr pc_frame_def pick_ok_def s pc_avail_registered)
    qed
  qed
qed

subsection \<open>Executing a request\<close>

text \<open>A step from a consistent state returns and keeps it consistent.\<close>

definition pc_ok :: "pc_state \<Rightarrow> bool" where
  "pc_ok s \<longleftrightarrow> length (nodeIndexList (fst s)) \<le> 2 ^ 64 \<and> lru_ok (pc_cache (snd s))"

lemma pc_ok_frame: "pc_ok s \<Longrightarrow> pc_frame s t \<Longrightarrow> lru_ok (pc_cache (snd t)) \<Longrightarrow> pc_ok t"
  by (simp add: pc_ok_def pc_frame_def same_nodes_def)

lemma pc_RoundRobin_step:
  assumes "pc_ok s"
  obtains r t where "pc_RoundRobin s = Some (r, t)" "pc_frame s t" "pc_ok t" "pc_cache (snd t) = pc_cache (snd s)" "pick_ok s r"
    "set_option r \<subseteq> set (nodeIndexList (fst s))"
  using pc_RoundRobin_ok [of s] assms pc_ok_frame [OF assms] by (auto simp: pc_ok_def)

definition route_ok :: "pc_state \<Rightarrow> u64 list option \<Rightarrow> bool" where
  "route_ok s r \<longleftrightarrow> (\<exists>p. r = map_option (\<lambda>n. [n]) p \<and> pick_ok s p)"

lemma DoRoundRobin_ok:
  assumes "pc_ok s"
  shows "\<exists>r t. DoRoundRobin s = Some (r, t) \<and> pc_frame s t \<and> pc_ok t \<and> route_ok s r"
proof -
  obtain r t where "pc_RoundRobin s = Some (r, t)" "pc_frame s t" "pc_ok t" "pick_ok s r"
    by (rule pc_RoundRobin_step [OF assms])
  then show ?thesis by (auto simp: DoRoundRobin_def route_ok_def)
qed

lemma CacheAffinity_ok:
  assumes "pc_ok s"
  obtains r t where "CacheAffinity h s = (r, t)" "pc_frame s t" "pc_ok t" "snd t = snd s"
    "r = (case sessionNodeMap (pc_cache (snd s)) h of None \<Rightarrow> None
          | Some n \<Rightarrow> if pc_avail (th_of (snd s)) (fst s) n then Some n else None)"
proof -
  let ?r = "case sessionNodeMap (pc_cache (snd s)) h of None \<Rightarrow> None
    | Some n \<Rightarrow> if pc_avail (th_of (snd s)) (fst s) n then Some n else None"
  have "\<exists>ns. CacheAffinity h s = (?r, ns, snd s) \<and> same_nodes (fst s) ns"
    using GetNodeById_same [of "fst s"]
    by (cases s) (auto simp: CacheAffinity_def lru_Get_def pc_IsNodeResourceAvail_eq split: option.splits)
  then obtain ns where ns: "CacheAffinity h s = (?r, ns, snd s)" "same_nodes (fst s) ns" by blast
  then have f: "pc_frame s (ns, snd s)" by (simp add: pc_frame_def)
  show thesis using that [OF ns(1) f] pc_ok_frame [OF assms f] assms by (simp add: pc_ok_def)
qed

lemma ProcessFirstRequest_ok:
  assumes "pc_ok s"
  obtains f t where "ProcessFirstRequest js h body s = Some (f, t)" "pc_frame s t" "pc_ok t"
    "f = NotFirst \<longrightarrow> t = s" "\<forall>n. f = FirstPicked n \<longrightarrow> pick_ok s (Some n)
       \<and> (\<exists>ms. js body = Some ms \<and> sessionNodeMap (pc_cache (snd t)) (h (concat ms)) = Some n)"
proof -
  obtain r t where rr: "pc_RoundRobin s = Some (r, t)" "pc_frame s t" "pc_ok t" "pc_cache (snd t) = pc_cache (snd s)" "pick_ok s r"
    by (rule pc_RoundRobin_step [OF assms])
  have put: "\<exists>c. lru_Put k n (pc_cache (snd t)) = Some c \<and> lru_ok c \<and> sessionNodeMap c k = Some n" for k n
    using lru.put_ok rr(3) by (simp add: pc_ok_def)
  have frame: "pc_frame s (set_cache c t)" "lru_ok c \<Longrightarrow> pc_ok (set_cache c t)" for c
    using rr(2,3) by (simp_all add: pc_ok_def set_cache_def pc_frame_def)
  let ?pf = "ProcessFirstRequest js h body s"
  have "(\<exists>ms n. js body = Some ms \<and> ms \<noteq> [] \<and> length ms \<le> 2 \<and> h (concat ms) \<noteq> 0 \<and> r = Some n)
    \<or> ?pf = Some (NotFirst, s) \<or> ?pf = Some (FirstFailed, s) \<or> ?pf = Some (FirstFailed, t)"
  proof (cases "js body")
    case (Some ms)
    then show ?thesis using rr(1)
      by (cases "ms = []"; cases "2 < length ms"; cases "h (concat ms) = 0"; cases r)
         (simp_all add: ProcessFirstRequest_def Let_def)
  qed (simp add: ProcessFirstRequest_def)
  then consider ms n where "js body = Some ms" "ms \<noteq> []" "length ms \<le> 2" "h (concat ms) \<noteq> 0" "r = Some n"
    | "ProcessFirstRequest js h body s = Some (NotFirst, s)"
    | u where "ProcessFirstRequest js h body s = Some (FirstFailed, u)" "u = s \<or> u = t"
    by blast
  then show thesis
  proof cases
    case 1
    obtain c where c: "lru_Put (h (concat ms)) n (pc_cache (snd t)) = Some c" "lru_ok c"
      "sessionNodeMap c (h (concat ms)) = Some n" using put by blast
    have "ProcessFirstRequest js h body s = Some (FirstPicked n, set_cache c t)"
      using 1 rr(1) c(1) by (simp add: ProcessFirstRequest_def Let_def)
    from that [OF this frame(1)] frame(2) [OF c(2)] c(3) rr(5) 1(1,5) show ?thesis by (simp add: set_cache_def)
  next
    case 2
    from that [OF this] assms show ?thesis by simp
  next
    case 3
    from that [OF this(1)] this(2) assms rr(2,3) show ?thesis by auto
  qed
qed

lemma pick_by_history_ok:
  assumes "pc_ok s"
  shows "\<exists>r t. pick_by_history hh nh s = Some (r, t) \<and> pc_frame s t \<and> pc_ok t \<and> route_ok s r
    \<and> (\<forall>n. r = Some [n] \<longrightarrow> sessionNodeMap (pc_cache (snd s)) nh = None \<longrightarrow> sessionNodeMap (pc_cache (snd t)) nh = Some n)"
proof -
  obtain p s2 where ca: "CacheAffinity hh s = (p, s2)" "pc_frame s s2" "pc_ok s2" "snd s2 = snd s"
    "p = (case sessionNodeMap (pc_cache (snd s)) hh of None \<Rightarrow> None
          | Some n \<Rightarrow> if pc_avail (th_of (snd s)) (fst s) n then Some n else None)"
    by (rule CacheAffinity_ok [OF assms])
  have set: "pc_frame s (set_cache c u) \<and> pc_ok (set_cache c u) \<and> pc_cache (snd (set_cache c u)) = c"
    if "pc_frame s u" "pc_ok u" "lru_ok c" for c u
    using that by (simp add: pc_ok_def set_cache_def pc_frame_def)
  show ?thesis
  proof (cases p)
    case (Some n)
    have n: "sessionNodeMap (pc_cache (snd s)) hh = Some n" "pick_ok s (Some n)"
      using ca(5) Some by (auto simp: pick_ok_def pc_avail_registered split: option.splits if_splits)
    obtain c where c: "lru_UpdateKey hh nh (pc_cache (snd s2)) = Some c" "lru_ok c"
      "\<forall>v. sessionNodeMap (pc_cache (snd s2)) hh = Some v \<longrightarrow> sessionNodeMap (pc_cache (snd s2)) nh = None \<longrightarrow> sessionNodeMap c nh = Some v"
      using lru.rekey_ok [of "pc_cache (snd s2)" hh nh] ca(3) by (auto simp: pc_ok_def)
    have "pick_by_history hh nh s = Some (Some [n], set_cache c s2)" using ca(1) Some c(1) by (simp add: pick_by_history_def)
    moreover have "route_ok s (Some [n])" using n(2) by (auto simp: route_ok_def intro: exI [of _ "Some n"])
    ultimately show ?thesis using set [OF ca(2,3) c(2)] c(3) n(1) ca(4) by simp
  next
    case None
    obtain q s3 where rr: "pc_RoundRobin s2 = Some (q, s3)" "pc_frame s2 s3" "pc_ok s3" "pick_ok s2 q"
      by (rule pc_RoundRobin_step [OF ca(3)])
    have f: "pc_frame s s3" by (rule pc_frame_trans [OF ca(2) rr(2)])
    have q: "pick_ok s q" using rr(4) pick_ok_frame [OF ca(2)] by simp
    show ?thesis
    proof (cases q)
      case None
      with \<open>p = None\<close> ca(1) rr(1) have "pick_by_history hh nh s = Some (None, s3)" by (simp add: pick_by_history_def)
      moreover have "route_ok s None" using q None by (auto simp: route_ok_def)
      ultimately show ?thesis using f rr(3) by simp
    next
      case (Some n)
      obtain c where c: "Option.bind (lru_Erase hh (pc_cache (snd s3))) (lru_Put nh n) = Some c" "lru_ok c" "sessionNodeMap c nh = Some n"
        using lru.replace_ok [of "pc_cache (snd s3)" hh nh n] rr(3) by (auto simp: pc_ok_def)
      have "pick_by_history hh nh s = Some (Some [n], set_cache c s3)"
        using \<open>p = None\<close> ca(1) rr(1) Some c(1) by (simp add: pick_by_history_def)
      moreover have "route_ok s (Some [n])" using q Some by (auto simp: route_ok_def intro: exI [of _ "Some n"])
      ultimately show ?thesis using set [OF f rr(3) c(2)] c(3) by simp
    qed
  qed
qed

lemma route_ok_frame: "pc_frame s t \<Longrightarrow> route_ok t r \<Longrightarrow> route_ok s r"
  by (auto simp: route_ok_def pick_ok_frame)

lemma pc_Execute_ok:
  assumes "pc_ok s"
  shows "\<exists>r t. pc_Execute js h SINGLE_NODE body ty s = Some (r, t) \<and> pc_frame s t \<and> pc_ok t \<and> route_ok s r"
proof (cases "ty = 0")
  case False
  with DoRoundRobin_ok [OF assms] show ?thesis by (simp add: pc_Execute_def)
next
  case True
  obtain f t where pf: "ProcessFirstRequest js h body s = Some (f, t)" "pc_frame s t" "pc_ok t"
    "\<forall>n. f = FirstPicked n \<longrightarrow> pick_ok s (Some n)" by (rule ProcessFirstRequest_ok [OF assms, of js h body]) blast
  have step: ?thesis if "pc_Execute js h SINGLE_NODE body ty s = Some (r, u)" "pc_frame t u" "pc_ok u" "route_ok t r" for r u
    using that pc_frame_trans [OF pf(2)] route_ok_frame [OF pf(2)] by blast
  show ?thesis
  proof (cases f)
    case FirstFailed
    with DoRoundRobin_ok [OF pf(3)] True pf(1) step show ?thesis by (auto simp: pc_Execute_def)
  next
    case (FirstPicked n)
    with pf True have "pc_Execute js h SINGLE_NODE body ty s = Some (Some [n], t)" by (simp add: pc_Execute_def)
    with FirstPicked pf show ?thesis by (auto simp: route_ok_def intro: exI [of _ "Some n"])
  next
    case NotFirst
    show ?thesis
    proof (cases "PreProcessMessage js h body")
      case None
      with DoRoundRobin_ok [OF pf(3)] NotFirst True pf(1) step show ?thesis by (auto simp: pc_Execute_def)
    next
      case (Some hn)
      then obtain hh nh where "PreProcessMessage js h body = Some (hh, nh)" by (cases hn) auto
      with pick_by_history_ok [OF pf(3), of hh nh] NotFirst True pf(1) step show ?thesis by (auto simp: pc_Execute_def)
    qed
  qed
qed

subsection \<open>Properties\<close>

text \<open>C31: on a single-node deployment the executor always returns and keeps its cache consistent. The node it
  picks is registered and above both thresholds, whether it comes from the cache or from polling;
  it fails only when no node of the list is above the thresholds.\<close>

theorem prefix_execute_correct:
  assumes "ns_ok ns" and "lru_ok (pc_cache ex)"
  shows "\<exists>r ns' ex'. pc_Execute json_array hasher SINGLE_NODE requestBody ty (ns, ex) = Some (r, ns', ex')
    \<and> same_nodes ns ns' \<and> lru_ok (pc_cache ex')
    \<and> (case r of None \<Rightarrow> (\<forall>i. i \<in> set (nodeIndexList ns) \<longrightarrow> \<not> pc_avail (th_of ex) ns i)
        | Some route \<Rightarrow> (\<exists>n. route = [n] \<and> pc_avail (th_of ex) ns n \<and> IsNodeAvailable n ns))"
proof -
  have "pc_ok (ns, ex)" unfolding pc_ok_def fst_conv snd_conv using ns_ok_length(1) [OF assms(1)] assms(2) by blast
  from pc_Execute_ok [OF this, of json_array hasher requestBody ty] obtain r ns' ex' where
    "pc_Execute json_array hasher SINGLE_NODE requestBody ty (ns, ex) = Some (r, ns', ex')"
    "pc_frame (ns, ex) (ns', ex')" "pc_ok (ns', ex')" "route_ok (ns, ex) r" by (metis prod.collapse)
  moreover have "case r of None \<Rightarrow> (\<forall>i. i \<in> set (nodeIndexList ns) \<longrightarrow> \<not> pc_avail (th_of ex) ns i)
      | Some route \<Rightarrow> (\<exists>n. route = [n] \<and> pc_avail (th_of ex) ns n \<and> IsNodeAvailable n ns)"
    using calculation(4) by (auto simp: route_ok_def pick_ok_def split: option.splits)
  ultimately show ?thesis by (auto simp: pc_frame_def pc_ok_def)
qed

lemma PreProcessMessage_eq:
  assumes "js body = Some (ms @ [a, b])" "concat ms \<noteq> []" "h (concat ms) \<noteq> 0" "h (concat (ms @ [a, b])) \<noteq> 0"
  shows "PreProcessMessage js h body = Some (h (concat ms), h (concat (ms @ [a, b])))"
  using assms by (simp add: PreProcessMessage_def Let_def)

lemma Execute_records:
  assumes "pc_ok s" "pc_Execute js h SINGLE_NODE body 0 s = Some (Some [n], t)" "js body = Some ms" "ms \<noteq> []"
    and "h (concat ms) \<noteq> 0" "length ms > 2 \<Longrightarrow> h (concat (take (length ms - 2) ms)) \<noteq> 0"
    and "sessionNodeMap (pc_cache (snd s)) (h (concat ms)) = None"
  shows "sessionNodeMap (pc_cache (snd t)) (h (concat ms)) = Some n"
proof (cases "length ms > 2")
  case False
  obtain r s1 where rr: "pc_RoundRobin s = Some (r, s1)" "pc_frame s s1" "pc_ok s1" "pick_ok s r"
    by (rule pc_RoundRobin_step [OF assms(1)])
  obtain r2 s2 where rr2: "pc_RoundRobin s1 = Some (r2, s2)" "pick_ok s1 r2" "set_option r2 \<subseteq> set (nodeIndexList (fst s1))"
    by (rule pc_RoundRobin_step [OF rr(3)])
  show ?thesis
  proof (cases r)
    case None
    then have "pc_Execute js h SINGLE_NODE body 0 s = DoRoundRobin s1"
      using assms(3-5) False rr(1) by (simp add: pc_Execute_def ProcessFirstRequest_def Let_def)
    with assms(2) rr2(1) have "r2 = Some n" by (auto simp: DoRoundRobin_def)
    moreover have "pick_ok s r2" using rr2(2) pick_ok_frame [OF rr(2)] by simp
    moreover have "nodeIndexList (fst s1) = nodeIndexList (fst s)" using rr(2) by (simp add: pc_frame_def same_nodes_def)
    ultimately show ?thesis using rr2(3) rr(4) None by (auto simp: pick_ok_def)
  next
    case (Some m)
    obtain c where c: "lru_Put (h (concat ms)) m (pc_cache (snd s1)) = Some c" "sessionNodeMap c (h (concat ms)) = Some m"
      using lru.put_ok [of "pc_cache (snd s1)" "h (concat ms)" m] rr(3) by (auto simp: pc_ok_def)
    with Some assms(2-5) False rr(1) show ?thesis
      by (auto simp: pc_Execute_def ProcessFirstRequest_def Let_def set_cache_def)
  qed
next
  case True
  let ?hist = "concat (take (length ms - 2) ms)"
  have all: "?hist @ concat (drop (length ms - 2) ms) = concat ms" by (metis append_take_drop_id concat_append)
  have "PreProcessMessage js h body = Some (if ?hist \<noteq> [] then h ?hist else 0, h (concat ms))"
    using assms(3,5) assms(6) [OF True] True by (simp add: PreProcessMessage_def Let_def all)
  moreover have "ProcessFirstRequest js h body s = Some (NotFirst, s)"
    using assms(3,4) True by (simp add: ProcessFirstRequest_def)
  ultimately obtain hh where "pc_Execute js h SINGLE_NODE body 0 s = pick_by_history hh (h (concat ms)) s"
    by (simp add: pc_Execute_def)
  with pick_by_history_ok [OF assms(1), of hh "h (concat ms)"] assms(2,7) show ?thesis by auto
qed

text \<open>C26: conversations stay on their node. When a request of a conversation was placed on a node and its
  hash was not cached before, the next request of the conversation, the same messages followed by
  two more, is placed on the same node as long as that node is above the thresholds. The
  hypotheses on the hashes exclude the value 0, which the code treats as an error.\<close>

theorem conversation_affinity:
  assumes "ns_ok ns" and "lru_ok (pc_cache ex)"
    and "json_array body1 = Some ms" and "concat ms \<noteq> []" and "json_array body2 = Some (ms @ [a, b])"
    and "hasher (concat ms) \<noteq> 0" and "hasher (concat (ms @ [a, b])) \<noteq> 0"
    and "length ms > 2 \<Longrightarrow> hasher (concat (take (length ms - 2) ms)) \<noteq> 0"
    and "lru_Get (hasher (concat ms)) (pc_cache ex) = (False, 0)"
    and "pc_Execute json_array hasher SINGLE_NODE body1 0 (ns, ex) = Some (Some [n], ns1, ex1)"
    and "pc_avail (th_of ex1) ns1 n"
  shows "\<exists>s2. pc_Execute json_array hasher SINGLE_NODE body2 0 (ns1, ex1) = Some (Some [n], s2)"
proof -
  let ?k = "hasher (concat ms)" and ?k2 = "hasher (concat (ms @ [a, b]))"
  have ok: "pc_ok (ns, ex)" unfolding pc_ok_def fst_conv snd_conv using ns_ok_length(1) [OF assms(1)] assms(2) by blast
  have ne: "ms \<noteq> []" using assms(4) by auto
  have "sessionNodeMap (pc_cache ex) ?k = None" using assms(9) by (auto simp: lru_Get_def split: option.splits)
  with Execute_records [OF ok assms(10,3) ne assms(6,8)] have hit: "sessionNodeMap (pc_cache ex1) ?k = Some n" by simp
  have ok1: "pc_ok (ns1, ex1)" using pc_Execute_ok [OF ok, of json_array hasher body1 0] assms(10) by auto
  have "pc_Execute json_array hasher SINGLE_NODE body2 0 (ns1, ex1) = pick_by_history ?k ?k2 (ns1, ex1)"
    using PreProcessMessage_eq [where js = json_array and h = hasher and ms = ms and a = a and b = b, OF assms(5,4,6,7)] assms(5) ne
    by (cases ms) (simp_all add: pc_Execute_def ProcessFirstRequest_def)
  moreover obtain c where "lru_UpdateKey ?k ?k2 (pc_cache ex1) = Some c"
    using lru.rekey_ok [of "pc_cache ex1" ?k ?k2] ok1 by (auto simp: pc_ok_def)
  ultimately show ?thesis using hit assms(11)
    by (simp add: pick_by_history_def CacheAffinity_def lru_Get_def pc_IsNodeResourceAvail_eq)
qed

subsection \<open>A sample executor\<close>

definition ex_pc :: PrefixCacheExecutor where
  "ex_pc = new_PrefixCacheExecutor (Some 10) (Some (Fin 0)) (Some (Fin 0))"

definition ex_json :: json where
  "ex_json body = (if body = ''a'' then Some [''m''] else if body = ''b'' then Some [''m'', ''x'', ''y''] else None)"

definition ex_hash :: hasher where
  "ex_hash s = of_nat (length s)"

lemma ex_pc_facts: "lru_ok (pc_cache ex_pc)" "th_of ex_pc = (Fin 0, Fin 0)" "pc_cache ex_pc = new_LRUCache 10"
  by (simp_all add: ex_pc_def new_PrefixCacheExecutor_def lru_ok_new)

lemma ex_store_pc_avail: "pc_avail (Fin 0, Fin 0) ex_store 1"
  by (simp add: pc_avail_def pc_enough_def node_view_def ex_store_def DynamicUpdate_def UpdateP2DRelations_def
      update_node_def UpdateD2PRelations_def AddNodes_def add_node_def new_NodeStore_def default_static_def
      default_dynamic_def omap_insert_def omap_get_def Let_def f64_of_u64_exact rnd64_numeral)

lemma ex_pc_ok: "pc_ok (ex_store, ex_pc)"
  unfolding pc_ok_def fst_conv snd_conv using ns_ok_length(1) [OF ns_ok_ex_store] ex_pc_facts(1) by blast

lemma ex_pc_picks:
  obtains n ns1 ex1 where "pc_Execute js h SINGLE_NODE body 0 (ex_store, ex_pc) = Some (Some [n], ns1, ex1)"
    "pc_avail (th_of ex1) ns1 n"
proof -
  obtain r t where e: "pc_Execute js h SINGLE_NODE body 0 (ex_store, ex_pc) = Some (r, t)"
    "pc_frame (ex_store, ex_pc) t" "route_ok (ex_store, ex_pc) r" using pc_Execute_ok [OF ex_pc_ok] by blast
  have "1 \<in> set (nodeIndexList ex_store)" by (simp add: ex_store_lists)
  with e(3) ex_store_pc_avail ex_pc_facts(2) obtain n where n: "r = Some [n]" "pc_avail (th_of ex_pc) ex_store n"
    by (auto simp: route_ok_def pick_ok_def split: option.splits)
  obtain ns1 ex1 where t: "t = (ns1, ex1)" by (cases t)
  have "pc_avail (th_of ex1) ns1 = pc_avail (th_of ex_pc) ex_store"
    using e(2) pc_avail_same [of ex_store ns1] by (simp add: t pc_frame_def)
  with e(1) n t show thesis using that [of n ns1 ex1] by simp
qed

theorem prefix_execute_correct_witness:
  "\<exists>r ns' ex'. pc_Execute ex_json ex_hash SINGLE_NODE ''a'' 0 (ex_store, ex_pc) = Some (r, ns', ex') \<and> lru_ok (pc_cache ex')"
  using prefix_execute_correct [OF ns_ok_ex_store ex_pc_facts(1), of ex_json ex_hash "''a''" 0] by blast

theorem conversation_affinity_witness:
  "\<exists>n s1 s2. pc_Execute ex_json ex_hash SINGLE_NODE ''a'' 0 (ex_store, ex_pc) = Some (Some [n], s1)
     \<and> pc_Execute ex_json ex_hash SINGLE_NODE ''b'' 0 s1 = Some (Some [n], s2)"
proof -
  obtain n ns1 ex1 where e: "pc_Execute ex_json ex_hash SINGLE_NODE ''a'' 0 (ex_store, ex_pc) = Some (Some [n], ns1, ex1)"
    "pc_avail (th_of ex1) ns1 n" by (rule ex_pc_picks)
  have "\<exists>s2. pc_Execute ex_json ex_hash SINGLE_NODE ''b'' 0 (ns1, ex1) = Some (Some [n], s2)"
    by (rule conversation_affinity [where ms = "[''m'']" and a = "''x''" and b = "''y''",
          OF ns_ok_ex_store ex_pc_facts(1) _ _ _ _ _ _ _ e])
       (simp_all add: ex_json_def ex_hash_def ex_pc_facts lru_Get_def new_LRUCache_def)
  with e(1) show ?thesis by blast
qed

end
