(* ===== verification/Default_Scheduler.thy ===== *)
theory Default_Scheduler
  imports Prefix_Cache_Executor
begin

text \<open>
  \<^verbatim>\<open>coordinator/scheduler/default_scheduler/DefaultScheduler.{h,cpp}\<close> and \<^verbatim>\<open>algorithm/BaseAlgorithm.{h,cpp}\<close>,
  \<^verbatim>\<open>load_balance/LoadBalanceExecutor.h\<close>: the queues between the client calls, the scheduling thread and the
  forwarding thread. One iteration of the inner loop of a thread is one step; the calls of the two
  callbacks are recorded in \<open>forwarded\<close>. \<^const>\<open>None\<close> is undefined behaviour, an exception that ends the
  thread (an empty callback), or a step that does not return.
\<close>

datatype ReqType = OPENAI | TGI | TRITON | VLLM | MINDIE | UNKNOWN_REQ

fun req_type_code :: "ReqType \<Rightarrow> int" where
  "req_type_code OPENAI = 0"
| "req_type_code TGI = 1"
| "req_type_code TRITON = 2"
| "req_type_code VLLM = 3"
| "req_type_code MINDIE = 4"
| "req_type_code UNKNOWN_REQ = 5"

datatype AlgorithmMode = ALG_LOAD_BALANCE | ALG_CACHE_AFFINITY | ALG_ROUND_ROBIN

record OneRequest =
  or_type :: int
  or_reqId :: string
  or_prompt :: string

record OneRepeat =
  rp_reqId :: string
  rp_route :: "u64 list"

datatype Algorithm = RoundRobinAlg RoundRobinExecutor | PrefixCacheAlg PrefixCacheExecutor | LoadBalanceAlg

datatype callback_call = SingleCall string u64 | PDCall string u64 u64

record DefaultScheduler =
  active :: bool
  deployMode :: DeployMode
  algorithmType :: AlgorithmMode
  nodeStore :: NodeStore
  algorithmExecutor :: Algorithm
  waitingScheduleQueue :: "OneRequest list"
  waitingRepeatQueue :: "OneRepeat list"
  pdCallbackSet :: bool
  singleCallbackSet :: bool
  forwarded :: "callback_call list"

text \<open>The configuration is a map of strings; \<^verbatim>\<open>config[k]\<close> gives the empty string for a missing key. \<open>stoi\<close> and
  \<open>stof\<close> are the conversions the prefix-cache constructor calls.\<close>

definition config_at :: "(string \<rightharpoonup> string) \<Rightarrow> string \<Rightarrow> string" where
  "config_at config k = (case config k of None \<Rightarrow> [] | Some v \<Rightarrow> v)"

definition CreateAlgorithmExecutor ::
  "(string \<Rightarrow> int option) \<Rightarrow> (string \<Rightarrow> f64 option) \<Rightarrow> AlgorithmMode \<Rightarrow> (string \<rightharpoonup> string) \<Rightarrow> Algorithm" where
  "CreateAlgorithmExecutor stoi stof mode config = (case mode of
       ALG_CACHE_AFFINITY \<Rightarrow> PrefixCacheAlg (new_PrefixCacheExecutor (stoi (config_at config ''cache_size''))
         (stof (config_at config ''slots_thresh'')) (stof (config_at config ''block_thresh'')))
     | ALG_ROUND_ROBIN \<Rightarrow> RoundRobinAlg new_RoundRobinExecutor
     | ALG_LOAD_BALANCE \<Rightarrow> LoadBalanceAlg)"

definition new_DefaultScheduler ::
  "(string \<Rightarrow> int option) \<Rightarrow> (string \<Rightarrow> f64 option) \<Rightarrow> (string \<rightharpoonup> string) \<Rightarrow> DefaultScheduler" where
  "new_DefaultScheduler stoi stof config =
     (let mode = config_at config ''deploy_mode''; alg = config_at config ''algorithm_type'';
          deploy = (if mode = ''single_node'' then SINGLE_NODE
            else if mode = ''pd_separate'' \<or> mode = ''pd_disaggregation'' \<or> mode = ''pd_disaggregation_single_container''
            then PD_SEPARATE else PD_SEPARATE);
          algorithm = (if alg = ''cache_affinity'' then ALG_CACHE_AFFINITY
            else if alg = ''load_balance'' then ALG_LOAD_BALANCE
            else if alg = ''round_robin'' then ALG_ROUND_ROBIN else ALG_ROUND_ROBIN)
      in \<lparr>active = False, deployMode = deploy, algorithmType = algorithm, nodeStore = new_NodeStore,
          algorithmExecutor = CreateAlgorithmExecutor stoi stof algorithm config,
          waitingScheduleQueue = [], waitingRepeatQueue = [], pdCallbackSet = False, singleCallbackSet = False,
          forwarded = []\<rparr>)"

subsection \<open>The scheduler factory (SchedulerFactory.cpp)\<close>

text \<open>The registry of constructors by name; an unknown name gives a null pointer, \<^const>\<open>None\<close>.\<close>

type_synonym ('c, 's) creators = "string \<rightharpoonup> ('c \<Rightarrow> 's)"

definition CreateScheduler :: "string \<Rightarrow> 'c \<Rightarrow> ('c, 's) creators \<Rightarrow> 's option" where
  "CreateScheduler name config creators = (case creators name of Some creator \<Rightarrow> Some (creator config) | None \<Rightarrow> None)"

definition RegisterSchedulerCreator :: "string \<Rightarrow> ('c \<Rightarrow> 's) \<Rightarrow> ('c, 's) creators \<Rightarrow> bool \<times> ('c, 's) creators" where
  "RegisterSchedulerCreator name creator creators =
     (if creators name \<noteq> None then (False, creators) else (True, creators(name \<mapsto> creator)))"

subsection \<open>Calls from the coordinator\<close>

definition ds_RegisterInstance :: "DIGSInstanceStaticInfo list \<Rightarrow> DefaultScheduler \<Rightarrow> DefaultScheduler" where
  "ds_RegisterInstance ins s = s\<lparr>nodeStore := AddNodes ins (nodeStore s)\<rparr>"

definition ds_RemoveInstance :: "u64 list \<Rightarrow> DefaultScheduler \<Rightarrow> DefaultScheduler" where
  "ds_RemoveInstance ids s = s\<lparr>nodeStore := RemoveNodes ids (nodeStore s)\<rparr>"

definition ds_UpdateInstance :: "DIGSInstanceDynamicInfo list \<Rightarrow> DefaultScheduler \<Rightarrow> DefaultScheduler" where
  "ds_UpdateInstance rs s = s\<lparr>nodeStore := DynamicUpdate rs (nodeStore s)\<rparr>"

text \<open>\<^verbatim>\<open>Start\<close> is called once (\<^verbatim>\<open>Coordinator.cpp\<close>); a second call would assign to a joinable \<^verbatim>\<open>std::thread\<close> and end the process.\<close>

definition ds_Start :: "DefaultScheduler \<Rightarrow> DefaultScheduler" where
  "ds_Start s = s\<lparr>active := True\<rparr>"

definition ds_Stop :: "DefaultScheduler \<Rightarrow> DefaultScheduler" where
  "ds_Stop s = s\<lparr>active := False\<rparr>"

text \<open>The overload on a token list leaves the type at the zero of \<^verbatim>\<open>make_unique\<close> and the prompt empty; the overload on
  a prompt length is not implemented.\<close>

definition ds_ProcReq_tokens :: "string \<Rightarrow> DefaultScheduler \<Rightarrow> DefaultScheduler" where
  "ds_ProcReq_tokens reqId s = s\<lparr>waitingScheduleQueue := waitingScheduleQueue s
     @ [\<lparr>or_type = 0, or_reqId = reqId, or_prompt = []\<rparr>]\<rparr>"

definition ds_ProcReq :: "string \<Rightarrow> string \<Rightarrow> ReqType \<Rightarrow> DefaultScheduler \<Rightarrow> DefaultScheduler" where
  "ds_ProcReq reqId prompt type s = s\<lparr>waitingScheduleQueue := waitingScheduleQueue s
     @ [\<lparr>or_type = req_type_code type, or_reqId = reqId, or_prompt = prompt\<rparr>]\<rparr>"

definition ds_ProcReq_len :: "string \<Rightarrow> u64 \<Rightarrow> ReqType \<Rightarrow> DefaultScheduler \<Rightarrow> int \<times> DefaultScheduler" where
  "ds_ProcReq_len reqId promptLen type s = (- 1, s)"

definition RegisterPDNotifyAllocation :: "DefaultScheduler \<Rightarrow> DefaultScheduler" where
  "RegisterPDNotifyAllocation s = s\<lparr>pdCallbackSet := True\<rparr>"

definition RegisterSingleNodeNotifyAllocation :: "DefaultScheduler \<Rightarrow> DefaultScheduler" where
  "RegisterSingleNodeNotifyAllocation s = s\<lparr>singleCallbackSet := True\<rparr>"

subsection \<open>The two threads\<close>

definition alg_Execute ::
  "json \<Rightarrow> hasher \<Rightarrow> DeployMode \<Rightarrow> string \<Rightarrow> int \<Rightarrow> NodeStore \<Rightarrow> Algorithm \<Rightarrow> (u64 list option \<times> NodeStore \<times> Algorithm) option" where
  "alg_Execute json_array hasher mode prompt ty ns alg = (case alg of
       RoundRobinAlg ex \<Rightarrow> map_option (\<lambda>(r, ns1, ex1). (r, ns1, RoundRobinAlg ex1)) (rr_Execute mode prompt ns ex)
     | PrefixCacheAlg ex \<Rightarrow> map_option (\<lambda>(r, ns1, ex1). (r, ns1, PrefixCacheAlg ex1))
         (pc_Execute json_array hasher mode prompt ty (ns, ex))
     | LoadBalanceAlg \<Rightarrow> Some (None, ns, LoadBalanceAlg))"

definition ExecuteSchedRequest :: "json \<Rightarrow> hasher \<Rightarrow> OneRequest \<Rightarrow> DefaultScheduler \<Rightarrow> DefaultScheduler option" where
  "ExecuteSchedRequest json_array hasher req s =
     map_option (\<lambda>(ret, ns, alg).
       let s1 = s\<lparr>nodeStore := ns, algorithmExecutor := alg\<rparr> in
       case ret of
         None \<Rightarrow> s1\<lparr>waitingScheduleQueue := waitingScheduleQueue s1 @ [req]\<rparr>
       | Some route \<Rightarrow> s1\<lparr>waitingRepeatQueue := waitingRepeatQueue s1
           @ [\<lparr>rp_reqId = or_reqId req, rp_route = route\<rparr>]\<rparr>)
     (alg_Execute json_array hasher (deployMode s) (or_prompt req) (or_type req) (nodeStore s) (algorithmExecutor s))"

text \<open>An iteration of \<^verbatim>\<open>SchedThread\<close>; it does nothing when the scheduler is stopped or the queue is empty.\<close>

definition sched_step :: "json \<Rightarrow> hasher \<Rightarrow> DefaultScheduler \<Rightarrow> DefaultScheduler option" where
  "sched_step json_array hasher s =
     (if \<not> active s then Some s
      else case waitingScheduleQueue s of
          [] \<Rightarrow> Some s
        | req # rest \<Rightarrow> ExecuteSchedRequest json_array hasher req (s\<lparr>waitingScheduleQueue := rest\<rparr>))"

definition ExecuteRepeatRequest :: "OneRepeat \<Rightarrow> DefaultScheduler \<Rightarrow> DefaultScheduler option" where
  "ExecuteRepeatRequest r s = (case deployMode s of
       SINGLE_NODE \<Rightarrow>
         (if singleCallbackSet s \<and> 0 < length (rp_route r)
          then Some (s\<lparr>forwarded := forwarded s @ [SingleCall (rp_reqId r) (rp_route r ! 0)]\<rparr>) else None)
     | PD_SEPARATE \<Rightarrow>
         (if pdCallbackSet s \<and> 1 < length (rp_route r)
          then Some (s\<lparr>forwarded := forwarded s @ [PDCall (rp_reqId r) (rp_route r ! 0) (rp_route r ! 1)]\<rparr>) else None))"

definition repeat_step :: "DefaultScheduler \<Rightarrow> DefaultScheduler option" where
  "repeat_step s =
     (if \<not> active s then Some s
      else case waitingRepeatQueue s of
          [] \<Rightarrow> Some s
        | r # rest \<Rightarrow> ExecuteRepeatRequest r (s\<lparr>waitingRepeatQueue := rest\<rparr>))"

subsection \<open>Invariant\<close>

definition alg_ok :: "Algorithm \<Rightarrow> bool" where
  "alg_ok alg = (case alg of PrefixCacheAlg ex \<Rightarrow> lru_ok (pc_cache ex) | _ \<Rightarrow> True)"

definition route_len :: "DeployMode \<Rightarrow> nat" where
  "route_len mode = (case mode of SINGLE_NODE \<Rightarrow> 1 | PD_SEPARATE \<Rightarrow> 2)"

definition ds_ok :: "DefaultScheduler \<Rightarrow> bool" where
  "ds_ok s \<longleftrightarrow> ns_ok (nodeStore s) \<and> alg_ok (algorithmExecutor s)
     \<and> (\<forall>r \<in> set (waitingRepeatQueue s). length (rp_route r) = route_len (deployMode s))
     \<and> pdCallbackSet s \<and> singleCallbackSet s"

lemma rr_Execute_ok:
  assumes "ns_ok ns"
  shows "\<exists>r ns' ex'. rr_Execute mode prompt ns ex = Some (r, ns', ex') \<and> same_nodes ns ns'
    \<and> (\<forall>route. r = Some route \<longrightarrow> length route = route_len mode)"
proof (cases "prompt = []")
  case True
  then show ?thesis
    by (cases mode) (simp_all add: rr_Execute_def SingleNodeExecute_def PDNodeExecute_def route_len_def)
next
  case False
  from SingleNodeExecute_correct [OF assms this, of ex] PDNodeExecute_correct [OF assms this, of ex] show ?thesis
    by (cases mode) (fastforce simp: rr_Execute_def route_len_def)+
qed

lemma pc_Execute_route:
  assumes "ns_ok ns" "lru_ok (pc_cache ex)"
  shows "\<exists>r ns' ex'. pc_Execute js h mode prompt ty (ns, ex) = Some (r, ns', ex') \<and> same_nodes ns ns'
    \<and> lru_ok (pc_cache ex') \<and> (\<forall>route. r = Some route \<longrightarrow> length route = route_len mode)"
proof (cases mode)
  case SINGLE_NODE
  have "pc_ok (ns, ex)" unfolding pc_ok_def fst_conv snd_conv using ns_ok_length(1) [OF assms(1)] assms(2) by blast
  from pc_Execute_ok [OF this, of js h prompt ty] SINGLE_NODE show ?thesis
    by (auto simp: route_ok_def pc_frame_def pc_ok_def route_len_def)
qed (use assms(2) in \<open>simp add: pc_Execute_def\<close>)

lemma alg_Execute_ok:
  assumes "ns_ok ns" "alg_ok alg"
  shows "\<exists>r ns' alg'. alg_Execute js h mode prompt ty ns alg = Some (r, ns', alg') \<and> same_nodes ns ns' \<and> alg_ok alg'
    \<and> (\<forall>route. r = Some route \<longrightarrow> length route = route_len mode)"
proof (cases alg)
  case (RoundRobinAlg ex)
  with rr_Execute_ok [OF assms(1), of mode prompt ex] show ?thesis by (auto simp: alg_Execute_def alg_ok_def)
next
  case (PrefixCacheAlg ex)
  with pc_Execute_route [OF assms(1), of ex js h mode prompt ty] assms(2) show ?thesis
    by (auto simp: alg_Execute_def alg_ok_def)
qed (simp add: alg_Execute_def alg_ok_def)

text \<open>The identifiers of the requests in a state: waiting, scheduled and forwarded.\<close>

fun call_id :: "callback_call \<Rightarrow> string" where
  "call_id (SingleCall i n) = i"
| "call_id (PDCall i p d) = i"

definition request_ids :: "DefaultScheduler \<Rightarrow> string multiset" where
  "request_ids s = mset (map or_reqId (waitingScheduleQueue s)) + mset (map rp_reqId (waitingRepeatQueue s))
     + mset (map call_id (forwarded s))"

lemma ExecuteSchedRequest_ok:
  assumes "ds_ok s"
  shows "\<exists>t. ExecuteSchedRequest js h req s = Some t \<and> ds_ok t \<and> request_ids t = add_mset (or_reqId req) (request_ids s)"
proof -
  have ns: "ns_ok (nodeStore s)" "alg_ok (algorithmExecutor s)" using assms by (simp_all add: ds_ok_def)
  from alg_Execute_ok [OF ns, of js h "deployMode s" "or_prompt req" "or_type req"] obtain r ns' alg' where
    e: "alg_Execute js h (deployMode s) (or_prompt req) (or_type req) (nodeStore s) (algorithmExecutor s) = Some (r, ns', alg')"
    "same_nodes (nodeStore s) ns'" "alg_ok alg'" "\<forall>route. r = Some route \<longrightarrow> length route = route_len (deployMode s)" by blast
  show ?thesis
    using e assms ns_ok_same [OF e(2)] by (cases r) (auto simp: ExecuteSchedRequest_def ds_ok_def request_ids_def Let_def)
qed

lemma sched_step_ok:
  assumes "ds_ok s"
  shows "\<exists>t. sched_step js h s = Some t \<and> ds_ok t \<and> request_ids t = request_ids s"
proof (cases "waitingScheduleQueue s")
  case (Cons req rest)
  have "ds_ok (s\<lparr>waitingScheduleQueue := rest\<rparr>)" using assms by (simp add: ds_ok_def)
  from ExecuteSchedRequest_ok [OF this, of js h req] Cons assms show ?thesis
    by (auto simp: sched_step_def request_ids_def)
qed (use assms in \<open>simp add: sched_step_def\<close>)

lemma repeat_step_ok:
  assumes "ds_ok s"
  shows "\<exists>t. repeat_step s = Some t \<and> ds_ok t \<and> request_ids t = request_ids s"
proof (cases "waitingRepeatQueue s")
  case (Cons r rest)
  then have "length (rp_route r) = route_len (deployMode s)" using assms by (simp add: ds_ok_def)
  with Cons assms show ?thesis
    by (cases "deployMode s")
       (auto simp: repeat_step_def ExecuteRepeatRequest_def ds_ok_def request_ids_def route_len_def)
qed (use assms in \<open>simp add: repeat_step_def\<close>)

subsection \<open>Runs\<close>

text \<open>A client call or one iteration of a thread.\<close>

datatype ds_event = EvRegister "DIGSInstanceStaticInfo list" | EvRemove "u64 list" | EvReport "DIGSInstanceDynamicInfo list"
  | EvTokens string | EvPrompt string string ReqType | EvLength string u64 ReqType | EvStart | EvStop | EvSched | EvForward

fun ds_exec :: "json \<Rightarrow> hasher \<Rightarrow> ds_event \<Rightarrow> DefaultScheduler \<Rightarrow> DefaultScheduler option" where
  "ds_exec js h (EvRegister ins) s = Some (ds_RegisterInstance ins s)"
| "ds_exec js h (EvRemove ids) s = Some (ds_RemoveInstance ids s)"
| "ds_exec js h (EvReport rs) s = Some (ds_UpdateInstance rs s)"
| "ds_exec js h (EvTokens i) s = Some (ds_ProcReq_tokens i s)"
| "ds_exec js h (EvPrompt i p t) s = Some (ds_ProcReq i p t s)"
| "ds_exec js h (EvLength i n t) s = Some (snd (ds_ProcReq_len i n t s))"
| "ds_exec js h EvStart s = Some (ds_Start s)"
| "ds_exec js h EvStop s = Some (ds_Stop s)"
| "ds_exec js h EvSched s = sched_step js h s"
| "ds_exec js h EvForward s = repeat_step s"

fun ds_trace :: "json \<Rightarrow> hasher \<Rightarrow> ds_event list \<Rightarrow> DefaultScheduler \<Rightarrow> DefaultScheduler option" where
  "ds_trace js h [] s = Some s"
| "ds_trace js h (e # es) s = Option.bind (ds_exec js h e s) (ds_trace js h es)"

text \<open>The requests an event submits; the call on a prompt length is refused.\<close>

fun submitted :: "ds_event \<Rightarrow> string list" where
  "submitted (EvTokens i) = [i]"
| "submitted (EvPrompt i p t) = [i]"
| "submitted e = []"

lemma ds_exec_ok:
  assumes "ds_ok s"
  shows "\<exists>t. ds_exec js h e s = Some t \<and> ds_ok t \<and> request_ids t = request_ids s + mset (submitted e)"
  using assms sched_step_ok [OF assms, of js h] repeat_step_ok [OF assms]
  by (cases e)
     (simp_all add: ds_RegisterInstance_def ds_RemoveInstance_def ds_UpdateInstance_def ds_ProcReq_tokens_def
       ds_ProcReq_def ds_ProcReq_len_def ds_Start_def ds_Stop_def ds_ok_def request_ids_def ns_ok_AddNodes
       ns_ok_RemoveNodes ns_ok_DynamicUpdate)

lemma ds_trace_ok:
  assumes "ds_ok s"
  shows "\<exists>t. ds_trace js h es s = Some t \<and> ds_ok t \<and> request_ids t = request_ids s + mset (concat (map submitted es))"
  using assms
proof (induction es arbitrary: s)
  case (Cons e es)
  from ds_exec_ok [OF Cons.prems, of js h e] obtain t where
    t: "ds_exec js h e s = Some t" "ds_ok t" "request_ids t = request_ids s + mset (submitted e)" by blast
  from Cons.IH [OF t(2)] t show ?case by (auto simp: ac_simps)
qed simp

definition started :: "(string \<Rightarrow> int option) \<Rightarrow> (string \<Rightarrow> f64 option) \<Rightarrow> (string \<rightharpoonup> string) \<Rightarrow> DefaultScheduler" where
  "started stoi stof config =
     RegisterSingleNodeNotifyAllocation (RegisterPDNotifyAllocation (new_DefaultScheduler stoi stof config))"

lemma ds_ok_started:
  "alg_ok (algorithmExecutor (new_DefaultScheduler stoi stof config)) \<Longrightarrow> ds_ok (started stoi stof config)"
  by (simp add: started_def RegisterSingleNodeNotifyAllocation_def RegisterPDNotifyAllocation_def ds_ok_def
      new_DefaultScheduler_def ns_ok_new Let_def)

subsection \<open>Properties\<close>

text \<open>C25: from a scheduler with both callbacks registered and, under cache affinity, a cache of non-zero
  capacity, every sequence of client calls and thread iterations goes through without undefined
  behaviour, and no request is lost, duplicated or made up: at every point the requests waiting,
  scheduled and handed to a callback are, with multiplicity, the requests submitted so far.\<close>

theorem default_scheduler_conserves_requests:
  assumes "alg_ok (algorithmExecutor (new_DefaultScheduler stoi stof config))"
  shows "\<exists>s. ds_trace json_array hasher es (started stoi stof config) = Some s
    \<and> request_ids s = mset (concat (map submitted es))"
proof -
  have "request_ids (started stoi stof config) = {#}"
    by (simp add: request_ids_def started_def RegisterSingleNodeNotifyAllocation_def RegisterPDNotifyAllocation_def
        new_DefaultScheduler_def Let_def)
  with ds_trace_ok [OF ds_ok_started [OF assms], of json_array hasher es] show ?thesis by auto
qed

theorem default_scheduler_conserves_requests_witness:
  "\<exists>s. ds_trace ex_json ex_hash [EvStart, EvPrompt ''r1'' ''a'' OPENAI, EvSched, EvTokens ''r2'', EvForward]
      (started (\<lambda>_. None) (\<lambda>_. None) [''algorithm_type'' \<mapsto> ''cache_affinity'']) = Some s
    \<and> request_ids s = {#''r1'', ''r2''#}"
proof -
  have "alg_ok (algorithmExecutor (new_DefaultScheduler (\<lambda>_. None) (\<lambda>_. None) [''algorithm_type'' \<mapsto> ''cache_affinity'']))"
    by (simp add: new_DefaultScheduler_def alg_ok_def CreateAlgorithmExecutor_def config_at_def
        new_PrefixCacheExecutor_def lru_ok_new)
  from default_scheduler_conserves_requests [OF this, of ex_json ex_hash
      "[EvStart, EvPrompt ''r1'' ''a'' OPENAI, EvSched, EvTokens ''r2'', EvForward]"]
  show ?thesis by simp
qed

text \<open>A request submitted as a token list has an empty prompt, and the round-robin executor accepts an
  empty prompt without looking at any node: whatever nodes are registered, the request is routed
  to node 0.\<close>

lemma token_request_routed_to_node_zero:
  "map_option waitingRepeatQueue (ExecuteSchedRequest json_array hasher
      (last (waitingScheduleQueue (ds_ProcReq_tokens reqId s0))) (s\<lparr>algorithmExecutor := RoundRobinAlg ex\<rparr>))
   = Some (waitingRepeatQueue s @ [\<lparr>rp_reqId = reqId, rp_route = replicate (route_len (deployMode s)) 0\<rparr>])"
  by (cases "deployMode s")
     (simp_all add: ExecuteSchedRequest_def ds_ProcReq_tokens_def alg_Execute_def rr_Execute_def SingleNodeExecute_def
       PDNodeExecute_def route_len_def numeral_2_eq_2)

text \<open>Cache affinity is not available with separate prefill and decode nodes: in that configuration a
  scheduling step puts the request back at the end of the queue and changes nothing else, so no
  request is ever forwarded.\<close>

lemma cache_affinity_never_schedules_pd:
  "ExecuteSchedRequest json_array hasher req (s\<lparr>deployMode := PD_SEPARATE, algorithmExecutor := PrefixCacheAlg ex\<rparr>)
   = Some (s\<lparr>deployMode := PD_SEPARATE, algorithmExecutor := PrefixCacheAlg ex,
             waitingScheduleQueue := waitingScheduleQueue s @ [req]\<rparr>)"
  by (simp add: ExecuteSchedRequest_def alg_Execute_def pc_Execute_def)

end
