(* ===== verification/Rounding_Order.thy ===== *)
theory Rounding_Order
  imports Binary64
begin

text \<open>
  Rounding to binary64 is monotone. A larger number has a larger exponent or the same one; with the same exponent the
  significands are rounded in order, and with a larger one a power of two, which is represented exactly, lies between
  the two results. Products with a nonnegative factor and running sums of a nonnegative term are monotone in turn,
  which is what the loops that share out instances rely on.
\<close>

definition f64_le :: "f64 \<Rightarrow> f64 \<Rightarrow> bool" where
  "f64_le a b \<longleftrightarrow> a \<noteq> NaN \<and> b \<noteq> NaN \<and> \<not> f64_lt b a"

text \<open>\<^verbatim>\<open>std::min\<close> and \<^verbatim>\<open>std::max\<close> return their first argument unless the comparison holds.\<close>

definition f64_min :: "f64 \<Rightarrow> f64 \<Rightarrow> f64" where
  "f64_min a b = (if f64_lt b a then b else a)"

definition f64_max :: "f64 \<Rightarrow> f64 \<Rightarrow> f64" where
  "f64_max a b = (if f64_lt a b then b else a)"

fun f64_floor :: "f64 \<Rightarrow> f64" where
  "f64_floor (Fin a) = Fin (of_int \<lfloor>a\<rfloor>)"
| "f64_floor x = x"

lemma f64_le_simps [simp]:
  "f64_le (Fin a) (Fin b) \<longleftrightarrow> a \<le> b" "f64_le x PInf \<longleftrightarrow> x \<noteq> NaN" "f64_le NInf x \<longleftrightarrow> x \<noteq> NaN"
  "\<not> f64_le PInf (Fin a)" "\<not> f64_le NaN x" "\<not> f64_le x NaN"
  by (cases x; auto simp: f64_le_def)+

lemma f64_le_refl: "a \<noteq> NaN \<Longrightarrow> f64_le a a"
  by (simp add: f64_le_def)

lemma f64_le_trans [trans]: "f64_le a b \<Longrightarrow> f64_le b c \<Longrightarrow> f64_le a c"
  by (cases a; cases b; cases c) (auto simp: f64_le_def)

lemma f64_le_total: "a \<noteq> NaN \<Longrightarrow> b \<noteq> NaN \<Longrightarrow> f64_le a b \<or> f64_le b a"
  by (cases a; cases b) (auto simp: f64_le_def)

lemma f64_min_le: "a \<noteq> NaN \<Longrightarrow> b \<noteq> NaN \<Longrightarrow> f64_le (f64_min a b) a \<and> f64_le (f64_min a b) b"
  by (cases a; cases b) (auto simp: f64_le_def f64_min_def)

lemma f64_le_min: "f64_le c a \<Longrightarrow> f64_le c b \<Longrightarrow> f64_le c (f64_min a b)"
  by (simp add: f64_min_def)

subsection \<open>Powers of two\<close>

lemma round_even_mono: "x \<le> y \<Longrightarrow> round_even x \<le> round_even y"
proof (rule ccontr)
  assume le: "x \<le> y" and "\<not> round_even x \<le> round_even y"
  then have gt: "round_even y + 1 \<le> round_even x" by simp
  have "\<lfloor>x\<rfloor> \<le> \<lfloor>y\<rfloor>" using le by (rule floor_mono)
  moreover have "round_even x \<le> \<lfloor>x\<rfloor> + 1" by (rule round_even_le)
  moreover have "\<lfloor>y\<rfloor> \<le> round_even y" by (simp add: round_even_def Let_def)
  ultimately have eq: "\<lfloor>x\<rfloor> = \<lfloor>y\<rfloor>" "round_even x = \<lfloor>x\<rfloor> + 1" "round_even y = \<lfloor>y\<rfloor>" using gt by linarith+
  then show False using le by (auto simp: round_even_def Let_def split: if_splits)
qed

lemma ilog2_gt_rat:
  assumes "0 < x"
  shows "x < 2 powi (ilog2 x + 1)"
proof -
  obtain n d where q: "quotient_of x = (n, d)" by force
  have d: "0 < d" using quotient_of_denom_pos [OF q] .
  have x: "x = of_int n / of_int d" using quotient_of_div [OF q] .
  have n: "0 < n" using assms d x by (simp add: zero_less_divide_iff)
  let ?k = "bitlen n - bitlen d"
  have "x < 2 powi (?k + 1)"
  proof -
    have "(of_int n :: rat) < 2 powi bitlen n" by (rule bitlen_powi(2) [OF n])
    also have "\<dots> = 2 powi (?k + 1) * 2 powi (bitlen d - 1)" by (simp flip: power_int_add)
    also have "\<dots> \<le> 2 powi (?k + 1) * of_int d" using bitlen_powi(1) [OF d] by (intro mult_left_mono) simp_all
    finally show ?thesis using d by (simp add: x pos_divide_less_eq)
  qed
  then show ?thesis by (auto simp: ilog2_def q Let_def)
qed

lemma ilog2_mono:
  assumes "0 < x" "x \<le> y"
  shows "ilog2 x \<le> ilog2 y"
proof -
  have "2 powi ilog2 x < (2 powi (ilog2 y + 1) :: rat)"
    using ilog2_le_rat [of x] ilog2_gt_rat [of y] assms by linarith
  then show ?thesis using powi_le_imp by fastforce
qed

text \<open>The unbounded rounding with a given exponent of the last place.\<close>

definition rnd_at :: "int \<Rightarrow> rat \<Rightarrow> rat" where
  "rnd_at e x = of_int (round_even (x / 2 powi e)) * 2 powi e"

definition last_place :: "rat \<Rightarrow> int" where
  "last_place x = max (ilog2 x - 52) (- 1074)"

lemma rnd_at_mono: "x \<le> y \<Longrightarrow> rnd_at e x \<le> rnd_at e y"
  unfolding rnd_at_def by (intro mult_right_mono) (auto intro!: round_even_mono divide_right_mono)

lemma rnd_at_powi:
  assumes "e \<le> k"
  shows "rnd_at e (2 powi k) = 2 powi k"
proof -
  have "2 powi k = of_int (2 ^ nat (k - e)) * (2 powi e :: rat)"
  proof -
    have "(2 :: rat) powi k = 2 powi (k - e) * 2 powi e" by (simp flip: power_int_add)
    with assms show ?thesis by (simp add: power_int_def [of _ "k - e"])
  qed
  moreover from this have "2 powi k / 2 powi e = (of_int (2 ^ nat (k - e)) :: rat)" by simp
  ultimately show ?thesis unfolding rnd_at_def by (simp only: round_even_of_int)
qed

lemma rnd_at_last_mono:
  assumes "0 < x" "x \<le> y"
  shows "rnd_at (last_place x) x \<le> rnd_at (last_place y) y"
proof (cases "last_place x = last_place y")
  case True
  with assms show ?thesis by (simp add: rnd_at_mono)
next
  case False
  have "ilog2 x \<le> ilog2 y" using assms by (rule ilog2_mono)
  with False have lt: "ilog2 x < ilog2 y" "last_place y = ilog2 y - 52" "last_place x \<le> ilog2 y" by (auto simp: last_place_def)
  have "x \<le> 2 powi (ilog2 x + 1)" using ilog2_gt_rat [OF assms(1)] by simp
  also have "\<dots> \<le> 2 powi ilog2 y" using lt(1) by (intro power_int_increasing) auto
  finally have "rnd_at (last_place x) x \<le> rnd_at (last_place x) (2 powi ilog2 y)" by (rule rnd_at_mono)
  also have "\<dots> = 2 powi ilog2 y" using lt(3) by (rule rnd_at_powi)
  also have "\<dots> = rnd_at (last_place y) (2 powi ilog2 y)" using lt(2) by (simp add: rnd_at_powi)
  also have "\<dots> \<le> rnd_at (last_place y) y" using ilog2_le_rat [of y] assms by (intro rnd_at_mono) simp
  finally show ?thesis .
qed

lemma rnd64_pos_def:
  "0 < x \<Longrightarrow> rnd64 x = (if F64_LIMIT \<le> rnd_at (last_place x) x then PInf else Fin (rnd_at (last_place x) x))"
proof -
  assume x: "0 < x"
  have "0 \<le> rnd_at (last_place x) x"
    using x unfolding rnd_at_def by (intro mult_nonneg_nonneg) (auto intro!: round_even_nonneg)
  then have "\<not> rnd_at (last_place x) x \<le> - F64_LIMIT" using F64_LIMIT_pos by linarith
  with x show ?thesis by (simp add: rnd64_def Let_def rnd_at_def last_place_def)
qed

lemma rnd64_mono:
  assumes "0 \<le> x" "x \<le> y"
  shows "f64_le (rnd64 x) (rnd64 y)"
proof (cases "x = 0")
  case True
  with assms show ?thesis using f64_nn_rnd64 [of y] by (simp add: f64_nn_def f64_le_def)
next
  case False
  then have "rnd_at (last_place x) x \<le> rnd_at (last_place y) y" using assms by (intro rnd_at_last_mono) auto
  with False assms show ?thesis by (auto simp: rnd64_pos_def)
qed

lemma rnd64_pos:
  assumes "2 powi - 1074 \<le> x"
  shows "f64_lt (Fin 0) (rnd64 x)"
proof -
  have x: "0 < x" using assms by (rule less_le_trans [rotated]) simp
  have "2 powi last_place x \<le> x"
    using assms ilog2_le_rat [OF x] power_int_increasing [of "ilog2 x - 52" "ilog2 x" "2 :: rat"] by (auto simp: last_place_def max_def)
  then have "rnd_at (last_place x) (2 powi last_place x) \<le> rnd_at (last_place x) x" by (rule rnd_at_mono)
  then have "2 powi last_place x \<le> rnd_at (last_place x) x" by (simp add: rnd_at_powi)
  moreover have "(0 :: rat) < 2 powi last_place x" by simp
  ultimately have "0 < rnd_at (last_place x) x" by (rule less_le_trans [rotated])
  with x show ?thesis by (simp add: rnd64_pos_def)
qed

subsection \<open>Monotone operations\<close>

lemma f64_of_u64_mono: "v \<le> w \<Longrightarrow> f64_le (f64_of_u64 v) (f64_of_u64 w)"
  unfolding f64_of_u64_def by (intro rnd64_mono) (simp_all only: of_nat_0_le_iff of_nat_le_iff word_le_nat_alt)

lemma f64_mul_u64_mono:
  assumes "0 \<le> r" "v \<le> w"
  shows "f64_le (f64_mul (Fin r) (f64_of_u64 v)) (f64_mul (Fin r) (f64_of_u64 w))"
proof -
  obtain a b where "f64_of_u64 v = Fin a" "f64_of_u64 w = Fin b" "0 \<le> a" "0 \<le> b"
    using f64_of_u64_finite by metis
  moreover from this have "a \<le> b" using f64_of_u64_mono [OF assms(2)] by simp
  ultimately show ?thesis using assms(1) by (simp add: f64_mul_def rnd64_mono mult_left_mono)
qed

text \<open>A rounded number is represented exactly.\<close>

lemma rnd_at_multiple:
  assumes "e' \<le> e"
  shows "rnd_at e' (of_int m * 2 powi e) = of_int m * 2 powi e"
proof -
  have "(2 :: rat) powi e = of_int (2 ^ nat (e - e')) * 2 powi e'"
  proof -
    have "(2 :: rat) powi e = 2 powi (e - e') * 2 powi e'" by (simp flip: power_int_add)
    with assms show ?thesis by (simp add: power_int_def [of _ "e - e'"])
  qed
  then have eq: "of_int m * 2 powi e = (of_int (m * 2 ^ nat (e - e')) :: rat) * 2 powi e'" by simp
  then have "of_int m * 2 powi e / 2 powi e' = (of_int (m * 2 ^ nat (e - e')) :: rat)" unfolding eq by simp
  then show ?thesis unfolding rnd_at_def using eq by (simp only: round_even_of_int)
qed

lemma rnd_at_idem:
  assumes "0 < x" "0 < rnd_at (last_place x) x"
  shows "rnd_at (last_place (rnd_at (last_place x) x)) (rnd_at (last_place x) x) = rnd_at (last_place x) x"
proof -
  let ?y = "rnd_at (last_place x) x"
  show ?thesis
  proof (cases "last_place ?y \<le> last_place x")
    case True
    then show ?thesis unfolding rnd_at_def [of "last_place x"] by (rule rnd_at_multiple)
  next
    case False
    then have lt: "ilog2 x + 1 \<le> ilog2 ?y" "last_place ?y \<le> ilog2 ?y" "last_place x \<le> ilog2 ?y" by (auto simp: last_place_def)
    have "x \<le> 2 powi (ilog2 x + 1)" using ilog2_gt_rat [OF assms(1)] by simp
    also have "\<dots> \<le> 2 powi ilog2 ?y" using lt(1) by (intro power_int_increasing) auto
    finally have "?y \<le> 2 powi ilog2 ?y" using rnd_at_mono rnd_at_powi [OF lt(3)] by metis
    then have "?y = 2 powi ilog2 ?y" using ilog2_le_rat [OF assms(2)] by simp
    then show ?thesis using rnd_at_powi [OF lt(2)] by simp
  qed
qed

lemma rnd64_idem:
  assumes "0 \<le> x" "rnd64 x = Fin r"
  shows "0 \<le> r" and "rnd64 r = Fin r"
proof -
  show r: "0 \<le> r" using f64_nn_rnd64 [OF assms(1)] assms(2) by (simp add: f64_nn_def)
  show "rnd64 r = Fin r"
  proof (cases "x = 0 \<or> r = 0")
    case False
    then have "r = rnd_at (last_place x) x" "\<not> F64_LIMIT \<le> r" "0 < r" "0 < x"
      using assms r rnd64_pos_def [of x] by (auto split: if_splits)
    with rnd_at_idem [of x] show ?thesis by (simp add: rnd64_pos_def)
  qed (use assms in auto)
qed

end
