(* ===== verification/Llama_Simulator.thy ===== *)
theory Llama_Simulator
  imports Digs_Types Rounding_Order
begin

text \<open>
  \<^verbatim>\<open>controller/role_manager/LlamaSimulator.{h,cpp}\<close> and \<^verbatim>\<open>SimulationCalculator.cpp\<close>: the throughput an instance is expected to
  have in either role, from the dimensions of the model and of the hardware. Every arithmetic operation is rounded as
  the C++ expression rounds it, in the order in which it is evaluated. The parameters are the record the constructor
  fills from the configuration.
\<close>

subsection \<open>Expressions\<close>

datatype fop = Times f64 | Over f64

fun fchain :: "f64 \<Rightarrow> fop list \<Rightarrow> f64" where
  "fchain a [] = a"
| "fchain a (Times b # os) = fchain (f64_mul a b) os"
| "fchain a (Over b # os) = fchain (f64_div a b) os"

definition TIME_CHANGE :: f64 where "TIME_CHANGE = f64_lit 1000"
definition MEM_CHANGE :: f64 where "MEM_CHANGE = f64_lit 1024"
definition TFLOPS2FLOPS :: f64 where "TFLOPS2FLOPS = f64_lit 1000000000000"
definition GB2GBIT :: f64 where "GB2GBIT = f64_lit 8"
definition MAX_TOKEN_NUM :: u64 where "MAX_TOKEN_NUM = 128"
definition MAX_BATCH_SIZE :: u64 where "MAX_BATCH_SIZE = 100000"
definition TWO_WEIGHT_MATRIX :: f64 where "TWO_WEIGHT_MATRIX = f64_lit 2"
definition THREE_WEIGHT_MATRIX :: f64 where "THREE_WEIGHT_MATRIX = f64_lit 3"
definition COEFFICIENT :: f64 where "COEFFICIENT = f64_lit 2"

record LlamaSimulator =
  prefillSLOMS :: f64
  decodeSLOMS :: f64
  tensorParallel :: u64
  pipeParallel :: u64
  hardwareCardNums :: u64
  numHiddenLayers :: f64
  hiddenSize :: f64
  numAttentionHeads :: f64
  numKeyValueHeads :: f64
  intermediateSize :: f64
  byteSize :: f64
  bandwidthGB :: f64
  bandwidthEff :: f64
  bandwidthRDMAGb :: f64
  tFlops :: f64
  tFlopsEff :: f64
  mBandwidthTB :: f64
  mBandwidthEff :: f64
  memCapacity :: f64
  graphicsOutOfMemoryThreshold :: f64
  simAlpha :: f64
  staticTransferDelay :: f64

subsection \<open>Latencies\<close>

text \<open>\<open>i\<close> and \<open>o\<close> are the lengths \<^verbatim>\<open>seqInput_\<close> and \<^verbatim>\<open>seqOutput_\<close> that \<^verbatim>\<open>CalAbility\<close> sets first.\<close>

definition CalComputeLatency :: "LlamaSimulator \<Rightarrow> u64 \<Rightarrow> u64 \<Rightarrow> u64 \<Rightarrow> bool \<Rightarrow> f64" where
  "CalComputeLatency s i outp batchSize isDecode =
     (if DoubleIsZero (numAttentionHeads s) then Fin 0
      else let sz = f64_of_u64 (if isDecode then batchSize else i);
               allTokensNum = (if isDecode then f64_add (f64_of_u64 i) (f64_of_u64 outp) else f64_of_u64 i);
               attention = f64_add (f64_add
                 (fchain TWO_WEIGHT_MATRIX [Times (hiddenSize s), Times (hiddenSize s), Times (numHiddenLayers s), Times sz])
                 (fchain TWO_WEIGHT_MATRIX [Times (hiddenSize s), Times (hiddenSize s), Times (numHiddenLayers s),
                    Times (numKeyValueHeads s), Over (numAttentionHeads s), Times sz]))
                 (fchain COEFFICIENT [Times (hiddenSize s), Times (numHiddenLayers s), Times sz, Times allTokensNum]);
               ffn = fchain TWO_WEIGHT_MATRIX [Times (hiddenSize s), Times (intermediateSize s), Times (numHiddenLayers s), Times sz];
               calPower = f64_mul (tFlops s) (tFlopsEff s)
           in if tensorParallel s = 0 \<or> pipeParallel s = 0 \<or> DoubleIsZero calPower then Fin 0
              else fchain COEFFICIENT [Times (f64_add attention ffn), Over (f64_of_u64 (tensorParallel s)), Over (f64_of_u64 (pipeParallel s)),
                     Over (f64_mul calPower TFLOPS2FLOPS), Times TIME_CHANGE])"

definition CalFetchLatency :: "LlamaSimulator \<Rightarrow> u64 \<Rightarrow> u64 \<Rightarrow> u64 \<Rightarrow> bool \<Rightarrow> f64" where
  "CalFetchLatency s i outp batchSize isDecode =
     (if DoubleIsZero (numAttentionHeads s) then Fin 0
      else let attention = f64_add
                 (fchain TWO_WEIGHT_MATRIX [Times (hiddenSize s), Times (hiddenSize s), Times (numHiddenLayers s)])
                 (fchain TWO_WEIGHT_MATRIX [Times (hiddenSize s), Times (hiddenSize s), Times (numHiddenLayers s),
                    Times (numKeyValueHeads s), Over (numAttentionHeads s)]);
               ffn = fchain TWO_WEIGHT_MATRIX [Times (hiddenSize s), Times (intermediateSize s), Times (numHiddenLayers s)];
               fetchBandwidth = f64_mul (mBandwidthTB s) (mBandwidthEff s)
           in if tensorParallel s = 0 \<or> pipeParallel s = 0 \<or> DoubleIsZero fetchBandwidth then Fin 0
              else let allTokenLength = f64_add (f64_mul (f64_of_u64 i) (f64_of_u64 batchSize)) (f64_mul (f64_of_u64 outp) (f64_of_u64 batchSize));
                       kvCache = (if isDecode then fchain TWO_WEIGHT_MATRIX [Times allTokenLength, Times (hiddenSize s), Times (numHiddenLayers s),
                                    Times (numKeyValueHeads s), Over (numAttentionHeads s)] else Fin 0)
                   in fchain (byteSize s) [Times (f64_add (f64_add attention ffn) kvCache),
                        Over (f64_of_u64 (tensorParallel s)), Over (f64_of_u64 (pipeParallel s)),
                        Over (fchain fetchBandwidth [Times MEM_CHANGE, Times MEM_CHANGE, Times MEM_CHANGE, Times MEM_CHANGE]),
                        Times TIME_CHANGE])"

text \<open>\<^verbatim>\<open>std::ceil(tensorParallel_ / hardwareCardNums_)\<close> rounds the quotient of two integers, which has been truncated already.
  The conversion back to \<^verbatim>\<open>size_t\<close> is defined for every quotient below \<open>2 ^ 64 - 2 ^ 10\<close>.\<close>

definition host_num :: "LlamaSimulator \<Rightarrow> u64" where
  "host_num s = (case f64_to_u64 (f64_ceil (f64_of_u64 (tensorParallel s div hardwareCardNums s))) of Some n \<Rightarrow> n | None \<Rightarrow> 0)"

definition CalCommunicateLatency :: "LlamaSimulator \<Rightarrow> u64 \<Rightarrow> u64 \<Rightarrow> bool \<Rightarrow> f64" where
  "CalCommunicateLatency s i batchSize isDecode =
     (let commBandwidth = f64_mul (bandwidthEff s) (bandwidthGB s);
          commRDMABandwidth = f64_mul (bandwidthEff s) (bandwidthRDMAGb s)
      in if hardwareCardNums s = 0 \<or> DoubleIsZero commRDMABandwidth \<or> DoubleIsZero commBandwidth then Fin 0
         else let hostNum = host_num s;
                  rdma = fchain commRDMABandwidth [Over GB2GBIT, Times MEM_CHANGE, Times MEM_CHANGE, Times MEM_CHANGE];
                  tpInter = (if 0 < hostNum then fchain COEFFICIENT [Times (f64_of_u64 (hostNum - 1)), Times TWO_WEIGHT_MATRIX, Times (byteSize s),
                     Times (hiddenSize s), Times (numHiddenLayers s), Over (f64_of_u64 hostNum), Over rdma] else Fin 0);
                  tpInterStatic = (if 0 < hostNum then fchain TWO_WEIGHT_MATRIX [Times (byteSize s), Times (f64_of_u64 (hostNum - 1)), Times (simAlpha s),
                     Times (numHiddenLayers s), Over TIME_CHANGE] else Fin 0);
                  sz = (if isDecode then 1 else i);
                  tpIntra = fchain TWO_WEIGHT_MATRIX [Times (byteSize s), Times (f64_of_u64 sz), Times (hiddenSize s), Times (numHiddenLayers s),
                     Over (fchain commBandwidth [Times MEM_CHANGE, Times MEM_CHANGE, Times MEM_CHANGE]), Times TIME_CHANGE];
                  tpIntraStatic = fchain TWO_WEIGHT_MATRIX [Times TWO_WEIGHT_MATRIX, Times (simAlpha s), Times (numHiddenLayers s), Over TIME_CHANGE];
                  ppIntra = (if 0 < pipeParallel s then fchain (f64_of_u64 ((pipeParallel s - 1) * sz)) [Times (hiddenSize s), Times (byteSize s),
                     Over rdma, Times TIME_CHANGE] else Fin 0);
                  ppStatic = (if 0 < pipeParallel s then fchain (f64_of_u64 (pipeParallel s - 1)) [Times (simAlpha s), Over TIME_CHANGE] else Fin 0);
                  comm = f64_add (f64_add tpInter tpIntra) ppIntra;
                  commStatic = f64_add (f64_add tpInterStatic tpIntraStatic) ppStatic
              in f64_add (f64_mul (f64_of_u64 batchSize) comm) commStatic)"

definition CalTime :: "LlamaSimulator \<Rightarrow> u64 \<Rightarrow> u64 \<Rightarrow> u64 \<Rightarrow> bool \<Rightarrow> f64" where
  "CalTime s i outp batchSize isDecode =
     (let batchComputeMs = (if isDecode then CalComputeLatency s i outp batchSize True
                            else f64_mul (f64_of_u64 batchSize) (CalComputeLatency s i outp batchSize False));
          batchCommMs = CalCommunicateLatency s i batchSize isDecode;
          batchFetchMs = CalFetchLatency s i outp batchSize isDecode
      in f64_add (f64_add batchComputeMs batchFetchMs) batchCommMs)"

subsection \<open>Memory\<close>

definition CalModelWeightMem :: "LlamaSimulator \<Rightarrow> f64" where
  "CalModelWeightMem s =
     (if tensorParallel s = 0 \<or> pipeParallel s = 0 \<or> DoubleIsZero (numAttentionHeads s) then Fin 0
      else let attention = f64_mul (byteSize s) (f64_add
                 (fchain TWO_WEIGHT_MATRIX [Times (numHiddenLayers s), Times (hiddenSize s), Times (hiddenSize s)])
                 (fchain TWO_WEIGHT_MATRIX [Times (numHiddenLayers s), Times (hiddenSize s), Times (hiddenSize s), Times (numKeyValueHeads s),
                    Over (numAttentionHeads s)]));
               ffn = fchain (byteSize s) [Times THREE_WEIGHT_MATRIX, Times (hiddenSize s), Times (intermediateSize s), Times (numHiddenLayers s)]
           in fchain (f64_add attention ffn) [Over (f64_of_u64 (tensorParallel s)), Over (f64_of_u64 (pipeParallel s)),
                Over MEM_CHANGE, Over MEM_CHANGE, Over MEM_CHANGE])"

definition CalPerTokenMem :: "LlamaSimulator \<Rightarrow> f64" where
  "CalPerTokenMem s =
     (if tensorParallel s = 0 \<or> pipeParallel s = 0 \<or> DoubleIsZero (numAttentionHeads s) then Fin 0
      else fchain COEFFICIENT [Times (byteSize s), Times (hiddenSize s), Times (numHiddenLayers s), Times (numKeyValueHeads s),
             Over (numAttentionHeads s), Over (f64_of_u64 (tensorParallel s)), Over (f64_of_u64 (pipeParallel s)), Over MEM_CHANGE, Over MEM_CHANGE])"

definition CalMemUsage :: "LlamaSimulator \<Rightarrow> u64 \<Rightarrow> u64 \<Rightarrow> u64 \<Rightarrow> bool \<Rightarrow> f64" where
  "CalMemUsage s i outp batchSize isDecode =
     (let modelMem = CalModelWeightMem s;
          perTokenMem = f64_div (CalPerTokenMem s) MEM_CHANGE;
          tokenLength = f64_mul (f64_of_u64 batchSize) (f64_of_u64 i);
          tokenLength = (if isDecode then f64_add tokenLength (f64_mul (f64_of_u64 batchSize) (f64_of_u64 outp)) else tokenLength)
      in f64_add modelMem (f64_mul perTokenMem tokenLength))"

subsection \<open>The largest batch\<close>

function grow_batch :: "(u64 \<Rightarrow> f64) \<Rightarrow> f64 \<Rightarrow> u64 \<Rightarrow> u64" where
  "grow_batch time sloMs batchSize = (if batchSize < MAX_BATCH_SIZE \<and> f64_le (time (batchSize + 1)) sloMs
     then grow_batch time sloMs (batchSize + 1) else batchSize)"
  by pat_completeness auto

termination
  by (relation "measure (\<lambda>(_, _, b). unat (MAX_BATCH_SIZE - b))") (auto simp: MAX_BATCH_SIZE_def unat_sub word_less_nat_alt unat_word_ariths word_le_nat_alt)

lemma unat_dec: "1 < (b :: u64) \<Longrightarrow> unat (b - 1) = unat b - 1"
  by (subst unat_sub) (auto simp: word_le_nat_alt word_less_nat_alt)

function shrink_batch :: "(u64 \<Rightarrow> f64) \<Rightarrow> f64 \<Rightarrow> u64 \<Rightarrow> u64" where
  "shrink_batch mem limitForOOM batchSize = (if f64_le limitForOOM (mem batchSize) \<and> 1 < batchSize
     then shrink_batch mem limitForOOM (batchSize - 1) else batchSize)"
  by pat_completeness auto

termination
  by (relation "measure (\<lambda>(_, _, b). unat b)") (auto simp: unat_dec word_less_nat_alt [of 1])

declare grow_batch.simps [simp del] shrink_batch.simps [simp del]

definition CalBatchSize :: "LlamaSimulator \<Rightarrow> u64 \<Rightarrow> u64 \<Rightarrow> bool \<Rightarrow> u64" where
  "CalBatchSize s i outp isDecode =
     (let sloMs = (if isDecode then decodeSLOMS s else prefillSLOMS s);
          batchSize = grow_batch (\<lambda>b. CalTime s i outp b isDecode) sloMs 1;
          limitForOOM = f64_mul (memCapacity s) (graphicsOutOfMemoryThreshold s)
      in shrink_batch (\<lambda>b. CalMemUsage s i outp b isDecode) limitForOOM batchSize)"

subsection \<open>Abilities\<close>

record DIGSGroupPDRatio =
  gr_groupId :: u64
  pdRatio :: f64
  pAbility :: f64
  dAbility :: f64
  tAbility :: f64
  pNum :: u64
  dNum :: u64
  flexNum :: u64
  gr_flexPRatio :: f64

definition zero_ratio :: DIGSGroupPDRatio where
  "zero_ratio = \<lparr>gr_groupId = 0, pdRatio = Fin 0, pAbility = Fin 0, dAbility = Fin 0, tAbility = Fin 0, pNum = 0, dNum = 0, flexNum = 0,
     gr_flexPRatio = Fin 0\<rparr>"

definition CalAbility :: "LlamaSimulator \<Rightarrow> DIGSRequestSummary \<Rightarrow> DIGSGroupPDRatio \<Rightarrow> DIGSGroupPDRatio" where
  "CalAbility s summary r =
     (let i = inputLength summary; outp = outputLength summary;
          prefillMaxBatchSize = CalBatchSize s i outp False;
          decodeMaxBatchSize = CalBatchSize s i outp True;
          prefillTime = CalTime s i outp prefillMaxBatchSize False;
          decodeTime = CalTime s i outp decodeMaxBatchSize True
      in if DoubleIsZero prefillTime \<or> DoubleIsZero decodeTime \<or> outp = 0 then r\<lparr>pAbility := Fin 0, dAbility := Fin 0\<rparr>
         else r\<lparr>pAbility := fchain (f64_of_u64 prefillMaxBatchSize) [Over prefillTime, Times TIME_CHANGE],
                dAbility := fchain (f64_of_u64 decodeMaxBatchSize) [Over decodeTime, Over (f64_of_u64 outp), Times TIME_CHANGE]\<rparr>)"

definition CalTransferTime :: "LlamaSimulator \<Rightarrow> u64 \<Rightarrow> f64" where
  "CalTransferTime s tokenLength =
     (let memRDMAGB = fchain (bandwidthRDMAGb s) [Times (bandwidthEff s), Over GB2GBIT];
          delay = f64_mul (staticTransferDelay s) TIME_CHANGE
      in if tensorParallel s = 0 \<or> pipeParallel s = 0 \<or> DoubleIsZero (numAttentionHeads s) \<or> DoubleIsZero memRDMAGB then Fin 0
         else let transferTime = fchain COEFFICIENT [Times (numHiddenLayers s), Times (f64_of_u64 tokenLength), Times (byteSize s), Times (hiddenSize s),
                    Times (numKeyValueHeads s), Over (numAttentionHeads s), Over memRDMAGB, Over (f64_of_u64 (tensorParallel s)),
                    Over (f64_of_u64 (pipeParallel s)), Times TIME_CHANGE, Over MEM_CHANGE, Over MEM_CHANGE, Over MEM_CHANGE];
                  staticDelay = fchain COEFFICIENT [Times delay, Times (numHiddenLayers s), Times (f64_of_u64 tokenLength), Over (f64_of_u64 MAX_TOKEN_NUM)]
              in f64_add transferTime staticDelay)"

definition CalTransferAbility :: "LlamaSimulator \<Rightarrow> u64 \<Rightarrow> f64" where
  "CalTransferAbility s tokenLength =
     (let transTime = CalTransferTime s tokenLength
      in if DoubleIsZero transTime then Fin 0 else f64_div (Fin 1) (f64_div transTime TIME_CHANGE))"

definition sim_CalAbility :: "LlamaSimulator \<Rightarrow> DIGSRequestSummary \<Rightarrow> DIGSGroupPDRatio \<Rightarrow> DIGSGroupPDRatio" where
  "sim_CalAbility s summary r = (CalAbility s summary r)\<lparr>tAbility := CalTransferAbility s (inputLength summary)\<rparr>"

subsection \<open>The batch size\<close>

lemma grow_batch_bounds: "1 \<le> b \<Longrightarrow> b \<le> MAX_BATCH_SIZE \<Longrightarrow> b \<le> grow_batch time slo b \<and> grow_batch time slo b \<le> MAX_BATCH_SIZE"
proof (induction time slo b rule: grow_batch.induct)
  case (1 time slo b)
  show ?case
  proof (cases "b < MAX_BATCH_SIZE \<and> f64_le (time (b + 1)) slo")
    case True
    then have "b < b + 1" "b + 1 \<le> MAX_BATCH_SIZE" "1 \<le> b + 1"
      by (auto simp: MAX_BATCH_SIZE_def word_less_nat_alt word_le_nat_alt unat_word_ariths)
    with 1 True show ?thesis by (subst (1 2) grow_batch.simps) (auto dest: less_imp_le intro: order_trans)
  next
    case False
    then have "grow_batch time slo b = b" by (subst grow_batch.simps) (rule if_not_P)
    with 1 show ?thesis by simp
  qed
qed

lemma shrink_batch_result:
  "1 \<le> b \<Longrightarrow> 1 \<le> shrink_batch mem limit b \<and> shrink_batch mem limit b \<le> b
    \<and> (shrink_batch mem limit b = 1 \<or> \<not> f64_le limit (mem (shrink_batch mem limit b)))"
proof (induction mem limit b rule: shrink_batch.induct)
  case (1 mem limit b)
  show ?case
  proof (cases "f64_le limit (mem b) \<and> 1 < b")
    case True
    then have "1 \<le> b - 1" "b - 1 \<le> b"
      using unat_dec [of b] by (auto simp: word_le_nat_alt word_less_nat_alt)
    with 1 True show ?thesis by (subst (1 2 3 4) shrink_batch.simps) (auto intro: order_trans)
  qed (use 1 in \<open>subst (1 2 3 4) shrink_batch.simps, auto\<close>)
qed

text \<open>The batch is never empty and never above the limit, and it fits into the memory unless it is a single request.\<close>

lemma CalBatchSize_result:
  "1 \<le> CalBatchSize s i outp dec \<and> CalBatchSize s i outp dec \<le> MAX_BATCH_SIZE
    \<and> (CalBatchSize s i outp dec = 1
       \<or> \<not> f64_le (f64_mul (memCapacity s) (graphicsOutOfMemoryThreshold s)) (CalMemUsage s i outp (CalBatchSize s i outp dec) dec))"
proof -
  let ?g = "grow_batch (\<lambda>b. CalTime s i outp b dec) (if dec then decodeSLOMS s else prefillSLOMS s) 1"
  have g: "1 \<le> ?g" "?g \<le> MAX_BATCH_SIZE" using grow_batch_bounds [of 1] by (auto simp: MAX_BATCH_SIZE_def)
  show ?thesis unfolding CalBatchSize_def Let_def using shrink_batch_result [OF g(1)] g(2) by (meson order_trans)
qed

end
