(* ===== verification/Proportion_Calculator.thy ===== *)
theory Proportion_Calculator
  imports Llama_Simulator
begin

text \<open>
  \<^verbatim>\<open>controller/role_manager/ProportionCalculator.{h,cpp}\<close>: how many instances of a group become prefill, decode and flex
  instances. The state is the ratio of the last cycle and its throughput. \<open>sim\<close> is the simulator behind
  \<^verbatim>\<open>SimulationCalculator::GetInstance()\<close>; \<open>mc\<close> stands for \<^verbatim>\<open>memcpy_s\<close> of the securec library: from the source object to
  the error code and what the destination holds afterwards.
\<close>

subsection \<open>Constants and state\<close>

definition FLEX_CHANGE_LOSS_ALPHA :: f64 where "FLEX_CHANGE_LOSS_ALPHA = f64_lit 1"
definition FLEX_P_OR_D_PERCENTAGE :: f64 where "FLEX_P_OR_D_PERCENTAGE = f64_lit (1 / 2)"
definition FLEX_P_PERCENTAGE_MAX :: f64 where "FLEX_P_PERCENTAGE_MAX = f64_lit 1"
definition FLEX_X_DOWN_THR :: f64 where "FLEX_X_DOWN_THR = f64_lit 0"
definition FLEX_X_UP_THR :: f64 where "FLEX_X_UP_THR = f64_lit 1"
definition STEP_LENGTH :: f64 where "STEP_LENGTH = f64_lit 10"
definition INIT_STEP_LENGTH :: f64 where "INIT_STEP_LENGTH = f64_div (f64_sub FLEX_X_UP_THR FLEX_X_DOWN_THR) STEP_LENGTH"
definition CONVERGENCE_THR :: f64 where "CONVERGENCE_THR = f64_lit (1 / 10 ^ 8)"
definition MAX_ITERATION_NUM :: nat where "MAX_ITERATION_NUM = 1000"
definition DESCREASE_STEP_SZIE :: f64 where "DESCREASE_STEP_SZIE = f64_lit (99 / 100)"
definition MAX_INSTANCE_NUM :: u64 where "MAX_INSTANCE_NUM = 16"
definition DIGS_ROLE_FLEX_NUM :: u64 where "DIGS_ROLE_FLEX_NUM = 1"

datatype DIGSRatioType = DIGS_ROLE_PD_RATIO | DIGS_ROLE_PDFLEX_RATIO | DIGS_ROLE_UNKNOWN

record ProportionInput =
  in_instanceNum :: u64
  in_summary :: DIGSRequestSummary
  in_type :: DIGSRatioType
  in_flexInstNum :: int
  in_isFirst :: bool

record ProportionCalculator =
  modelSimulator :: LlamaSimulator
  throughput :: f64
  throughputPrev :: f64
  ratio_cur :: DIGSGroupPDRatio
  ratioPre :: DIGSGroupPDRatio

type_synonym memcpy = "DIGSGroupPDRatio \<Rightarrow> int \<times> DIGSGroupPDRatio"

definition EOK :: int where "EOK = 0"
definition EOF :: int where "EOF = - 1"

subsection \<open>Sharing out between two roles\<close>

lemma u64_step: "p + d < (n :: u64) \<Longrightarrow> unat n - unat (p + d + 1) < unat n - unat (p + d)"
  using u64_bound [of n] by (simp add: word_less_nat_alt unat_word_ariths(1) [of "p + d" 1])

lemma u64_steps:
  "p + d < (n :: u64) \<Longrightarrow> unat n - unat (p + 1 + d) < unat n - unat (p + d)"
  "p + d < n \<Longrightarrow> unat n - unat (p + (d + 1)) < unat n - unat (p + d)"
  using u64_step [of p d n] by (simp_all add: ac_simps)

function pd_loop :: "f64 \<Rightarrow> f64 \<Rightarrow> u64 \<Rightarrow> u64 \<Rightarrow> u64 \<Rightarrow> u64 \<times> u64" where
  "pd_loop singlePrefillAbility singleDecodeAbility instanceNum pInstance dInstance =
     (if pInstance + dInstance < instanceNum
      then let pRate = f64_mul singlePrefillAbility (f64_of_u64 pInstance);
               dRate = f64_mul singleDecodeAbility (f64_of_u64 dInstance)
           in if f64_le pRate dRate then pd_loop singlePrefillAbility singleDecodeAbility instanceNum (pInstance + 1) dInstance
              else pd_loop singlePrefillAbility singleDecodeAbility instanceNum pInstance (dInstance + 1)
      else (pInstance, dInstance))"
  by pat_completeness auto

termination
  by (relation "measure (\<lambda>(_, _, n, p, d). unat n - unat (p + d))") (simp_all add: u64_steps)

definition CalProportion :: "ProportionCalculator \<Rightarrow> u64 \<Rightarrow> DIGSRequestSummary \<Rightarrow> DIGSGroupPDRatio \<Rightarrow> DIGSGroupPDRatio" where
  "CalProportion pc instanceNum summary r =
     (let r = CalAbility (modelSimulator pc) summary r
      in if f64_le (pAbility r) (Fin 0) \<or> f64_le (dAbility r) (Fin 0)
         then r\<lparr>dNum := drop_bit 1 instanceNum, pNum := instanceNum - drop_bit 1 instanceNum\<rparr>
         else let (p, d) = pd_loop (pAbility r) (dAbility r) instanceNum 0 0
              in r\<lparr>dNum := d, pNum := p, pdRatio := f64_div (dAbility r) (pAbility r)\<rparr>)"

definition CalPdRatio :: "ProportionCalculator \<Rightarrow> ProportionInput \<Rightarrow> DIGSGroupPDRatio \<Rightarrow> Status \<times> DIGSGroupPDRatio" where
  "CalPdRatio pc input r =
     (let r = CalAbility (modelSimulator pc) (in_summary input) r
      in if f64_le (pAbility r) (Fin 0) \<or> f64_le (dAbility r) (Fin 0)
         then (ILLEGAL_PARAMETER, r\<lparr>dNum := drop_bit 1 (in_instanceNum input), pNum := in_instanceNum input - drop_bit 1 (in_instanceNum input)\<rparr>)
         else let (p, d) = pd_loop (pAbility r) (dAbility r) (in_instanceNum input) 0 0
              in (OK, r\<lparr>dNum := d, pNum := p, pdRatio := f64_div (dAbility r) (pAbility r)\<rparr>))"

text \<open>The variant that adds up the abilities, for rates given from outside.\<close>

function init_loop :: "f64 \<Rightarrow> f64 \<Rightarrow> u64 \<Rightarrow> f64 \<Rightarrow> f64 \<Rightarrow> u64 \<Rightarrow> u64 \<Rightarrow> u64 \<times> u64" where
  "init_loop pAb dAb instanceNum pAbilityAll dAbilityAll alloc2PInstance alloc2DInstance =
     (if alloc2PInstance + alloc2DInstance < instanceNum
      then if f64_le pAbilityAll dAbilityAll
           then init_loop pAb dAb instanceNum (f64_add pAbilityAll (f64_mul pAb (Fin 1))) dAbilityAll (alloc2PInstance + 1) alloc2DInstance
           else init_loop pAb dAb instanceNum pAbilityAll (f64_add dAbilityAll (f64_mul dAb (Fin 1))) alloc2PInstance (alloc2DInstance + 1)
      else (alloc2PInstance, alloc2DInstance))"
  by pat_completeness auto

termination
  by (relation "measure (\<lambda>(_, _, n, _, _, p, d). unat n - unat (p + d))") (simp_all add: u64_steps)

declare pd_loop.simps [simp del] init_loop.simps [simp del]

definition InitPdBestRatioWithExternInput :: "ProportionInput \<Rightarrow> DIGSGroupPDRatio \<Rightarrow> Status \<times> DIGSGroupPDRatio" where
  "InitPdBestRatioWithExternInput input r =
     (let (p, d) = init_loop (pAbility r) (dAbility r) (in_instanceNum input) (Fin 0) (Fin 0) 0 0
      in (OK, r\<lparr>pNum := p, dNum := d\<rparr>))"

subsection \<open>Sharing out with flex instances\<close>

definition ability_ok :: "DIGSGroupPDRatio \<Rightarrow> bool" where
  "ability_ok r \<longleftrightarrow> \<not> (DoubleIsZero (pAbility r) \<or> DoubleIsZero (dAbility r) \<or> DoubleIsZero (tAbility r))
     \<and> \<not> (DoubleLess (pAbility r) (Fin 0) \<or> DoubleLess (dAbility r) (Fin 0) \<or> DoubleLess (tAbility r) (Fin 0))"

definition flex_p_throughput :: "DIGSGroupPDRatio \<Rightarrow> f64 \<Rightarrow> f64" where
  "flex_p_throughput r x = f64_add (f64_mul (f64_of_u64 (pNum r)) (f64_min (pAbility r) (tAbility r)))
     (f64_mul FLEX_CHANGE_LOSS_ALPHA (f64_min (f64_mul x (pAbility r)) (tAbility r)))"

definition flex_d_throughput :: "DIGSGroupPDRatio \<Rightarrow> f64 \<Rightarrow> f64" where
  "flex_d_throughput r x = f64_add (f64_mul (f64_of_u64 (dNum r)) (f64_min (dAbility r) (tAbility r)))
     (f64_mul FLEX_CHANGE_LOSS_ALPHA (f64_min (f64_mul (f64_sub FLEX_P_PERCENTAGE_MAX x) (dAbility r)) (tAbility r)))"

text \<open>The loop over \<^verbatim>\<open>iter\<close>: the first argument is the number of rounds left.\<close>

fun flex_loop :: "nat \<Rightarrow> DIGSGroupPDRatio \<Rightarrow> f64 \<Rightarrow> f64 \<Rightarrow> f64 \<Rightarrow> f64 \<Rightarrow> f64 \<times> f64 \<times> f64" where
  "flex_loop 0 r x stepSize pThr dThr = (x, pThr, dThr)"
| "flex_loop (Suc k) r x stepSize pThr dThr =
     (let pThr = flex_p_throughput r x; dThr = flex_d_throughput r x
      in if f64_lt (f64_abs (f64_sub pThr dThr)) CONVERGENCE_THR then (x, pThr, dThr)
         else let x = (if f64_lt dThr pThr then f64_sub x stepSize else f64_add x stepSize);
                  x = f64_max FLEX_X_DOWN_THR (f64_min x FLEX_X_UP_THR)
              in flex_loop k r x (f64_mul stepSize DESCREASE_STEP_SZIE) pThr dThr)"

definition CalFlexPRatioX :: "DIGSGroupPDRatio \<Rightarrow> f64 \<Rightarrow> Status \<times> DIGSGroupPDRatio \<times> f64" where
  "CalFlexPRatioX r best =
     (if \<not> ability_ok r then (ILLEGAL_PARAMETER, r, best)
      else let (x, pThr, dThr) = flex_loop MAX_ITERATION_NUM r (gr_flexPRatio r) INIT_STEP_LENGTH (f64_lit 0) (f64_lit 0);
               bestThroughput = f64_min pThr dThr;
               r = r\<lparr>gr_flexPRatio := x\<rparr>;
               r = (if pNum r = 0 \<and> DoubleLess (gr_flexPRatio r) FLEX_P_OR_D_PERCENTAGE then r\<lparr>gr_flexPRatio := FLEX_P_OR_D_PERCENTAGE\<rparr> else r);
               r = (if dNum r = 0 \<and> DoubleGreater (gr_flexPRatio r) FLEX_P_OR_D_PERCENTAGE then r\<lparr>gr_flexPRatio := FLEX_P_OR_D_PERCENTAGE\<rparr> else r)
           in (OK, r, bestThroughput))"

text \<open>One of the two roundings of \<^verbatim>\<open>CalPdflexNum\<close>: the candidate and its throughput.\<close>

definition flex_candidate :: "u64 \<Rightarrow> u64 \<Rightarrow> DIGSGroupPDRatio \<Rightarrow> u64 \<Rightarrow> DIGSGroupPDRatio \<times> f64" where
  "flex_candidate instanceNum flexInsts r p =
     (let r = r\<lparr>pNum := p\<rparr>
      in if p + flexInsts \<le> instanceNum
         then snd (CalFlexPRatioX (r\<lparr>dNum := instanceNum - p - flexInsts\<rparr>) (Fin 0))
         else (r\<lparr>dNum := 0, gr_flexPRatio := Fin 0\<rparr>, Fin 0))"

text \<open>\<^const>\<open>None\<close> where the conversion of the rounded quotient to \<^verbatim>\<open>uint64_t\<close> is undefined.\<close>

definition CalPdflexNum :: "u64 \<Rightarrow> u64 \<Rightarrow> DIGSGroupPDRatio \<Rightarrow> (Status \<times> DIGSGroupPDRatio) option" where
  "CalPdflexNum instanceNum flexInsts r =
     (let r = r\<lparr>flexNum := flexInsts\<rparr>;
          pOutput = f64_min (pAbility r) (tAbility r);
          dOutput = f64_min (dAbility r) (tAbility r);
          sumAbility = f64_add pOutput dOutput
      in if \<not> ability_ok r then Some (ILLEGAL_PARAMETER, r)
         else let q = f64_div (f64_mul (f64_of_u64 instanceNum) dOutput) sumAbility
              in case (f64_to_u64 (f64_floor q), f64_to_u64 (f64_ceil q)) of
                   (Some down, Some up) \<Rightarrow>
                     (let (ratioDown, tDown) = flex_candidate instanceNum flexInsts r down;
                          (ratioUp, tUp) = flex_candidate instanceNum flexInsts r up
                      in Some (OK, if f64_lt tUp tDown then ratioDown else ratioUp))
                 | _ \<Rightarrow> None)"

definition CalPdflexThroughput :: "DIGSGroupPDRatio \<Rightarrow> f64 \<times> f64" where
  "CalPdflexThroughput r =
     (let pA = MinDouble (pAbility r) (tAbility r);
          dA = MinDouble (dAbility r) (tAbility r);
          pRatioX = gr_flexPRatio r;
          dRatio = f64_sub (f64_lit 1) pRatioX;
          alpha = f64_mul FLEX_CHANGE_LOSS_ALPHA (f64_of_u64 (flexNum r))
      in (f64_add (f64_mul pA (f64_of_u64 (pNum r))) (f64_mul (f64_mul alpha pA) pRatioX),
          f64_add (f64_mul dA (f64_of_u64 (dNum r))) (f64_mul (f64_mul alpha dA) dRatio)))"

definition JudgeNeedPdSwtichUseThrput :: "memcpy \<Rightarrow> ProportionCalculator \<Rightarrow> DIGSGroupPDRatio \<Rightarrow> bool" where
  "JudgeNeedPdSwtichUseThrput mc pc r =
     (let (code, ratioTmp) = mc r
      in if code \<noteq> EOF then True
         else if pNum r < pNum (ratioPre pc)
              then (let (tp, td) = CalPdflexThroughput (ratioTmp\<lparr>dNum := dNum (ratioPre pc)\<rparr>) in DoubleGreater tp td)
         else if dNum r < dNum (ratioPre pc)
              then (let (tp, td) = CalPdflexThroughput (ratioTmp\<lparr>pNum := pNum (ratioPre pc)\<rparr>) in DoubleGreater td tp)
         else False)"

definition CalPdflexRatio :: "memcpy \<Rightarrow> ProportionCalculator \<Rightarrow> ProportionInput \<Rightarrow> DIGSGroupPDRatio \<Rightarrow> (Status \<times> DIGSGroupPDRatio) option" where
  "CalPdflexRatio mc pc input r =
     (case CalPdflexNum (in_instanceNum input) (word_of_int (in_flexInstNum input)) r of
        None \<Rightarrow> None
      | Some (ret, r) \<Rightarrow>
          if ret \<noteq> OK then Some (ret, r)
          else if \<not> in_isFirst input \<and> \<not> JudgeNeedPdSwtichUseThrput mc pc r
          then Some (OK, fst (snd (CalFlexPRatioX (r\<lparr>pNum := pNum (ratioPre pc), dNum := dNum (ratioPre pc)\<rparr>) (Fin 0))))
          else Some (OK, r))"

definition SaveRatio :: "memcpy \<Rightarrow> ProportionCalculator \<Rightarrow> DIGSGroupPDRatio \<Rightarrow> DIGSRatioType \<Rightarrow> Status \<times> ProportionCalculator" where
  "SaveRatio mc pc r type =
     (let (ret, dst) = mc r; pc = pc\<lparr>ratio_cur := dst\<rparr>
      in if ret \<noteq> EOK then (STATISTICAL_ERROR, pc)
         else let (ret, dst) = mc r; pc = pc\<lparr>ratioPre := dst\<rparr>
              in if ret \<noteq> EOK then (STATISTICAL_ERROR, pc)
                 else if type = DIGS_ROLE_PDFLEX_RATIO
                 then let (tp, td) = CalPdflexThroughput r; t = MinDouble tp td
                      in (OK, pc\<lparr>throughput := t, throughputPrev := t\<rparr>)
                 else (OK, pc))"

subsection \<open>Entry points\<close>

text \<open>When \<^verbatim>\<open>SaveRatio\<close> fails the callers return \<^verbatim>\<open>ret\<close>, which is OK at that point.\<close>

definition ratio_of_type ::
  "memcpy \<Rightarrow> ProportionCalculator \<Rightarrow> ProportionInput \<Rightarrow> DIGSGroupPDRatio \<Rightarrow> (Status \<times> DIGSGroupPDRatio) option" where
  "ratio_of_type mc pc input r = (case in_type input of
       DIGS_ROLE_PD_RATIO \<Rightarrow> Some (CalPdRatio pc input r)
     | DIGS_ROLE_PDFLEX_RATIO \<Rightarrow> CalPdflexRatio mc pc input r
     | DIGS_ROLE_UNKNOWN \<Rightarrow> Some (ILLEGAL_PARAMETER, r))"

definition CalBestRatio :: "memcpy \<Rightarrow> LlamaSimulator \<Rightarrow> ProportionCalculator \<Rightarrow> ProportionInput \<Rightarrow> DIGSGroupPDRatio
    \<Rightarrow> (Status \<times> DIGSGroupPDRatio \<times> ProportionCalculator) option" where
  "CalBestRatio mc sim pc input r =
     (let r = sim_CalAbility sim (in_summary input) r
      in if \<not> ability_ok r then Some (ILLEGAL_PARAMETER, r, pc)
         else case ratio_of_type mc pc input r of
                None \<Rightarrow> None
              | Some (ret, r) \<Rightarrow> if ret \<noteq> OK then Some (ret, r, pc) else Some (OK, r, snd (SaveRatio mc pc r (in_type input))))"

definition InitPdflexBestRatioWithExternInput :: "ProportionInput \<Rightarrow> DIGSGroupPDRatio \<Rightarrow> (Status \<times> DIGSGroupPDRatio) option" where
  "InitPdflexBestRatioWithExternInput input r = CalPdflexNum (in_instanceNum input) (word_of_int (in_flexInstNum input)) r"

definition InitBestRatioWithExternInput :: "memcpy \<Rightarrow> ProportionCalculator \<Rightarrow> ProportionInput \<Rightarrow> DIGSGroupPDRatio
    \<Rightarrow> (Status \<times> DIGSGroupPDRatio \<times> ProportionCalculator) option" where
  "InitBestRatioWithExternInput mc pc input r =
     (case (case in_type input of
              DIGS_ROLE_PD_RATIO \<Rightarrow> Some (InitPdBestRatioWithExternInput input r)
            | DIGS_ROLE_PDFLEX_RATIO \<Rightarrow> InitPdflexBestRatioWithExternInput input r
            | DIGS_ROLE_UNKNOWN \<Rightarrow> Some (ILLEGAL_PARAMETER, r)) of
        None \<Rightarrow> None
      | Some (ret, r) \<Rightarrow> if ret \<noteq> OK then Some (ret, r, pc) else Some (OK, r, snd (SaveRatio mc pc r (in_type input))))"

subsection \<open>The expected ratio of the cluster\<close>

definition res_loss :: "DIGSGroupPDRatio \<Rightarrow> u64 \<Rightarrow> u64 \<Rightarrow> f64" where
  "res_loss r prefill decode = f64_abs (f64_sub (f64_mul (f64_of_u64 prefill) (pAbility r)) (f64_mul (f64_of_u64 decode) (dAbility r)))"

definition count_to :: "nat \<Rightarrow> u64 list" where
  "count_to n = map of_nat [1..<Suc n]"

definition decode_step :: "DIGSGroupPDRatio \<Rightarrow> u64 \<Rightarrow> u64 \<Rightarrow> f64 \<times> u64 \<Rightarrow> f64 \<times> u64" where
  "decode_step r prefill decode acc =
     (let (resourceLoss, decodeTemp) = acc; subAcc = res_loss r prefill decode
      in if f64_lt resourceLoss (Fin 0) \<or> DoubleGreater resourceLoss subAcc then (subAcc, decode) else acc)"

definition expect_decode_loop :: "DIGSGroupPDRatio \<Rightarrow> u64 \<Rightarrow> f64 \<times> u64" where
  "expect_decode_loop r prefill = fold (decode_step r prefill) (count_to (unat (MAX_INSTANCE_NUM - prefill))) (Fin (- 1), 1)"

definition prefill_step :: "DIGSGroupPDRatio \<Rightarrow> u64 \<Rightarrow> f64 \<times> u64 \<times> u64 \<Rightarrow> f64 \<times> u64 \<times> u64" where
  "prefill_step r prefill acc =
     (let (minResLoss, pInstance, dInstance) = acc; (resourceLoss, decodeTemp) = expect_decode_loop r prefill
      in if f64_lt minResLoss (Fin 0) \<or> DoubleGreater minResLoss resourceLoss then (resourceLoss, prefill, decodeTemp) else acc)"

definition ClusterExpectPdRatio :: "DIGSGroupPDRatio \<Rightarrow> Status \<times> u64 \<times> u64" where
  "ClusterExpectPdRatio r = (OK, snd (fold (prefill_step r) (count_to (unat (MAX_INSTANCE_NUM - 1))) (Fin (- 1), 1, 1)))"

definition ClusterExpectRatio :: "LlamaSimulator \<Rightarrow> ProportionInput \<Rightarrow> DIGSGroupPDRatio \<Rightarrow> u64 \<Rightarrow> u64
    \<Rightarrow> Status \<times> DIGSGroupPDRatio \<times> u64 \<times> u64" where
  "ClusterExpectRatio sim input r pRate dRate =
     (let r = sim_CalAbility sim (in_summary input) r
      in if \<not> ability_ok r then (ILLEGAL_PARAMETER, r, pRate, dRate)
         else if in_type input = DIGS_ROLE_UNKNOWN then (ILLEGAL_PARAMETER, r, pRate, dRate)
         else let (ret, pRate, dRate) = ClusterExpectPdRatio r in (ret, r, pRate, dRate))"

definition CalSingleInstanceAbility :: "LlamaSimulator \<Rightarrow> DIGSRequestSummary \<Rightarrow> f64 \<times> f64" where
  "CalSingleInstanceAbility sim summary = (let r = sim_CalAbility sim summary zero_ratio in (pAbility r, dAbility r))"

end
