(* ===== verification/Role_Manager.thy ===== *)
theory Role_Manager
  imports Proportion_Calculator
begin

text \<open>
  \<^verbatim>\<open>controller/role_manager/InstanceRoleManager.{h,cpp}\<close>: which instance of a group takes which role. The state holds the flags
  of the constructor, the proportion calculator, the ratios of the last cycle, and \<open>notified\<close>, the decisions handed to the
  notifier, call by call (its return value is only logged). \<open>srt\<close> is \<^verbatim>\<open>std::sort\<close>, \<open>sim\<close> and \<open>mc\<close> are as for the proportion
  calculator. An operation is \<^const>\<open>None\<close> where the program would index past the end of a vector or convert a
  double that does not fit.
\<close>

subsection \<open>Data\<close>

record DIGSInstanceInfo =
  staticInfo :: DIGSInstanceStaticInfo
  dynamicInfo :: DIGSInstanceDynamicInfo
  scheduleInfo :: DIGSInstanceScheduleInfo

record DIGSRoleDecision =
  rd_id :: u64
  rd_groupId :: u64
  rd_flexPRatio :: u64
  rd_role :: DIGSInstanceRole

abbreviation ins_id :: "DIGSInstanceInfo \<Rightarrow> u64" where "ins_id i \<equiv> st_id (staticInfo i)"
abbreviation ins_role :: "DIGSInstanceInfo \<Rightarrow> DIGSInstanceRole" where "ins_role i \<equiv> st_role (staticInfo i)"
abbreviation ins_label :: "DIGSInstanceInfo \<Rightarrow> DIGSInstanceLabel" where "ins_label i \<equiv> st_label (staticInfo i)"

definition set_role :: "DIGSInstanceRole \<Rightarrow> DIGSInstanceInfo \<Rightarrow> DIGSInstanceInfo" where
  "set_role ro i = i\<lparr>staticInfo := (staticInfo i)\<lparr>st_role := ro\<rparr>\<rparr>"

definition decide :: "DIGSInstanceInfo \<Rightarrow> DIGSInstanceRole \<Rightarrow> u64 \<Rightarrow> DIGSRoleDecision" where
  "decide i ro x = \<lparr>rd_id = ins_id i, rd_groupId = st_groupId (staticInfo i), rd_flexPRatio = x, rd_role = ro\<rparr>"

type_synonym GroupInstanceInfo = "(u64, DIGSInstanceInfo list) omap"
type_synonym ins_sort = "(DIGSInstanceInfo \<Rightarrow> DIGSInstanceInfo \<Rightarrow> bool) \<Rightarrow> DIGSInstanceInfo list \<Rightarrow> DIGSInstanceInfo list"

record InstanceRoleManager =
  rm_timeout :: u64
  isSkipDecisionForCrossNodeMode :: bool
  isHeterogeneous :: bool
  isAutoSwitching :: bool
  ratioType :: DIGSRatioType
  scheduleTerminate :: bool
  proportionCalculator :: ProportionCalculator
  dIGSGroupPDRatios :: "(u64, DIGSGroupPDRatio) omap"
  globalPDRatios :: DIGSGroupPDRatio
  notified :: "DIGSRoleDecision list list"

definition notify :: "DIGSRoleDecision list \<Rightarrow> InstanceRoleManager \<Rightarrow> InstanceRoleManager" where
  "notify ds m = m\<lparr>notified := notified m @ [ds]\<rparr>"

definition PREFILL_HARDWARE_TYPES :: "string list" where "PREFILL_HARDWARE_TYPES = [''800i a2(32g)'']"
definition DECODE_HARDWARE_TYPES :: "string list" where "DECODE_HARDWARE_TYPES = [''800i a2(64g)'']"
definition T_ABILITY_INIT_VAL :: f64 where "T_ABILITY_INIT_VAL = f64_lit (10 ^ 9)"
definition HOUR_TO_SECOND :: u64 where "HOUR_TO_SECOND = 3600"

definition GET_FLEXINST_NUM :: "InstanceRoleManager \<Rightarrow> int" where
  "GET_FLEXINST_NUM m = (if ratioType m = DIGS_ROLE_PDFLEX_RATIO then uint DIGS_ROLE_FLEX_NUM else 0)"

text \<open>The constructor; \<open>conv\<close> is \<^verbatim>\<open>std::stoul\<close>, \<^const>\<open>None\<close> where it throws.\<close>

definition cfg_bool :: "(string \<rightharpoonup> string) \<Rightarrow> string \<Rightarrow> bool \<Rightarrow> bool" where
  "cfg_bool cfg k dflt = (case cfg k of Some v \<Rightarrow> Str2Bool v | None \<Rightarrow> dflt)"

definition new_InstanceRoleManager :: "(string \<Rightarrow> u64 option) \<Rightarrow> (string \<rightharpoonup> string) \<Rightarrow> ProportionCalculator \<Rightarrow> InstanceRoleManager" where
  "new_InstanceRoleManager conv cfg pc = \<lparr>
     rm_timeout = (case Option.bind (cfg ''time_period'') conv of Some t \<Rightarrow> t | None \<Rightarrow> HOUR_TO_SECOND),
     isSkipDecisionForCrossNodeMode = cfg_bool cfg ''is_skip_decision_for_cross_node_mode'' False,
     isHeterogeneous = cfg_bool cfg ''is_heterogeneous'' False,
     isAutoSwitching = cfg_bool cfg ''is_auto_pd_role_switching'' True,
     ratioType = (if cfg ''has_flex'' = Some ''true'' then DIGS_ROLE_PDFLEX_RATIO else DIGS_ROLE_PD_RATIO),
     scheduleTerminate = True, proportionCalculator = pc, dIGSGroupPDRatios = [], globalPDRatios = zero_ratio, notified = []\<rparr>"

subsection \<open>Groups\<close>

definition GroupDIGSInstanceInfos :: "DIGSInstanceInfo list \<Rightarrow> GroupInstanceInfo" where
  "GroupDIGSInstanceInfos infos =
     fold (\<lambda>i g. let k = st_groupId (staticInfo i) in omap_put k (omap_get [] g k @ [i]) g) infos []"

subsection \<open>Roles from the hardware and from the deployment\<close>

definition hardware_role :: "DIGSInstanceInfo \<Rightarrow> DIGSInstanceRole option" where
  "hardware_role i = (let type = map to_lower (hardwareType (st_nodeRes (staticInfo i)))
     in if type \<in> set PREFILL_HARDWARE_TYPES then Some PREFILL_INSTANCE
        else if type \<in> set DECODE_HARDWARE_TYPES then Some DECODE_INSTANCE else None)"

definition AssignRoleByHardwareType :: "DIGSInstanceInfo list \<Rightarrow> InstanceRoleManager \<Rightarrow> DIGSInstanceInfo list \<times> InstanceRoleManager" where
  "AssignRoleByHardwareType infos m =
     (map (\<lambda>i. case hardware_role i of Some ro \<Rightarrow> set_role ro i | None \<Rightarrow> i) infos,
      notify (List.map_filter (\<lambda>i. map_option (\<lambda>ro. decide i ro 0) (hardware_role i)) infos) m)"

text \<open>The decisions of this mode leave \<^verbatim>\<open>flexPRatio\<close> uninitialised; \<open>junk\<close> is what the field happens to hold.\<close>

definition AssignRoleForCrossNodeSize :: "(DIGSInstanceInfo \<Rightarrow> u64) \<Rightarrow> DIGSInstanceInfo list \<Rightarrow> u64 \<Rightarrow> u64 \<Rightarrow> InstanceRoleManager
    \<Rightarrow> u64 \<times> u64 \<times> InstanceRoleManager" where
  "AssignRoleForCrossNodeSize junk infos pAb dAb m =
     (pAb + of_nat (length (filter (\<lambda>i. ins_role i = PREFILL_INSTANCE) infos)),
      dAb + of_nat (length (filter (\<lambda>i. ins_role i = DECODE_INSTANCE) infos)),
      notify (map (\<lambda>i. decide i (ins_role i) (junk i)) infos) m)"

subsection \<open>Roles from a ratio given from outside\<close>

text \<open>\<^verbatim>\<open>static_cast<uint64_t>(flexPRatio * FLEX_INSTANCE_P_PERCENTAGE_MAX)\<close>.\<close>

definition flex_percentage :: "f64 \<Rightarrow> u64 option" where
  "flex_percentage x = f64_to_u64 (f64_mul x (f64_of_u64 FLEX_INSTANCE_P_PERCENTAGE_MAX))"

fun definite_roles :: "DIGSGroupPDRatio \<Rightarrow> u64 \<Rightarrow> u64 \<Rightarrow> u64 \<Rightarrow> DIGSInstanceInfo list \<Rightarrow> (DIGSInstanceInfo list \<times> DIGSRoleDecision list) option" where
  "definite_roles r p d f [] = Some ([], [])"
| "definite_roles r p d f (i # is) =
     (if p < pNum r then map_option (map_prod (Cons (set_role PREFILL_INSTANCE i)) (Cons (decide i PREFILL_INSTANCE 0))) (definite_roles r (p + 1) d f is)
      else if d < dNum r then map_option (map_prod (Cons (set_role DECODE_INSTANCE i)) (Cons (decide i DECODE_INSTANCE 0))) (definite_roles r p (d + 1) f is)
      else if f < flexNum r
      then (case flex_percentage (gr_flexPRatio r) of
              None \<Rightarrow> None
            | Some x \<Rightarrow> map_option (map_prod (Cons (set_role FLEX_INSTANCE i)) (Cons (decide i FLEX_INSTANCE x))) (definite_roles r p d (f + 1) is))
      else map_option (map_prod (Cons i) id) (definite_roles r p d f is))"

definition pd_input :: "InstanceRoleManager \<Rightarrow> u64 \<Rightarrow> DIGSRequestSummary \<Rightarrow> bool \<Rightarrow> ProportionInput" where
  "pd_input m n summary first = \<lparr>in_instanceNum = n, in_summary = summary, in_type = ratioType m, in_flexInstNum = GET_FLEXINST_NUM m, in_isFirst = first\<rparr>"

fun definite_groups :: "memcpy \<Rightarrow> GroupInstanceInfo \<Rightarrow> DIGSGroupPDRatio \<Rightarrow> DIGSRoleDecision list \<Rightarrow> InstanceRoleManager
    \<Rightarrow> (GroupInstanceInfo \<times> DIGSRoleDecision list \<times> InstanceRoleManager) option" where
  "definite_groups mc [] r ds m = Some ([], ds, m)"
| "definite_groups mc ((g, is) # gs) r ds m =
     (case InitBestRatioWithExternInput mc (proportionCalculator m)
             (pd_input m (of_nat (length is)) \<lparr>inputLength = 0, outputLength = 0\<rparr> False) r of
        None \<Rightarrow> None
      | Some (_, r, pc) \<Rightarrow>
          (case definite_roles r 0 0 0 is of
             None \<Rightarrow> None
           | Some (is, new) \<Rightarrow> map_option (map_prod (Cons (g, is)) id)
               (definite_groups mc gs r (ds @ new) (m\<lparr>proportionCalculator := pc, globalPDRatios := r\<rparr>))))"

definition AssignRoleByDefiniteRatio :: "memcpy \<Rightarrow> GroupInstanceInfo \<Rightarrow> u64 \<Rightarrow> u64 \<Rightarrow> InstanceRoleManager
    \<Rightarrow> (GroupInstanceInfo \<times> InstanceRoleManager) option" where
  "AssignRoleByDefiniteRatio mc gs pAb dAb m =
     (case definite_groups mc gs (zero_ratio\<lparr>pAbility := f64_of_u64 pAb, dAbility := f64_of_u64 dAb, tAbility := T_ABILITY_INIT_VAL\<rparr>) [] m of
        None \<Rightarrow> None
      | Some (gs, ds, m) \<Rightarrow> Some (gs, notify ds m))"

subsection \<open>Roles from the computed ratio\<close>

text \<open>The comparator of \<^verbatim>\<open>SortInstance\<close>: instances without a role first, then the preferred label, then the smaller load.\<close>

definition ins_comp :: "DIGSInstanceLabel \<Rightarrow> DIGSInstanceInfo \<Rightarrow> DIGSInstanceInfo \<Rightarrow> bool" where
  "ins_comp label a b =
     (if ins_role a \<noteq> ins_role b then ins_role a = UN_DEF_INSTANCE
      else if ins_label a \<noteq> ins_label b then ins_label a = label
      else if sc_allocatedSlots (scheduleInfo a) \<noteq> sc_allocatedSlots (scheduleInfo b)
           then sc_allocatedSlots (scheduleInfo a) < sc_allocatedSlots (scheduleInfo b)
      else sc_allocatedBlocks (scheduleInfo a) < sc_allocatedBlocks (scheduleInfo b))"

definition SortInstance :: "ins_sort \<Rightarrow> DIGSInstanceInfo list \<Rightarrow> DIGSInstanceLabel \<Rightarrow> DIGSInstanceInfo list" where
  "SortInstance srt is label = srt (ins_comp label) is"

definition switch_label :: "DIGSInstanceRole \<Rightarrow> DIGSInstanceLabel option" where
  "switch_label ro = (case ro of PREFILL_INSTANCE \<Rightarrow> Some DECODE_PREFER | DECODE_INSTANCE \<Rightarrow> Some PREFILL_PREFER | _ \<Rightarrow> None)"

definition SelectSwitchPDInstance :: "ins_sort \<Rightarrow> DIGSRoleDecision list \<Rightarrow> DIGSInstanceInfo list \<Rightarrow> u64 \<Rightarrow> DIGSInstanceRole
    \<Rightarrow> DIGSRoleDecision list option" where
  "SelectSwitchPDInstance srt ds is num ro =
     (case switch_label ro of
        None \<Rightarrow> Some ds
      | Some label \<Rightarrow> (let is = SortInstance srt is label
                       in if length is < unat num then None else Some (ds @ map (\<lambda>i. decide i ro 0) (take (unat num) is))))"

fun refresh_one :: "DIGSRoleDecision \<Rightarrow> DIGSInstanceInfo list \<Rightarrow> DIGSInstanceInfo list" where
  "refresh_one dc [] = []"
| "refresh_one dc (i # is) = (if rd_id dc = ins_id i then set_role (rd_role dc) i # is else i # refresh_one dc is)"

definition RefreshInstanceRole :: "DIGSInstanceInfo list \<Rightarrow> DIGSRoleDecision list \<Rightarrow> DIGSInstanceInfo list" where
  "RefreshInstanceRole is ds = fold refresh_one ds is"

definition GetRoleDecision :: "ins_sort \<Rightarrow> DIGSRoleDecision list \<Rightarrow> DIGSInstanceInfo list \<Rightarrow> u64 \<Rightarrow> DIGSInstanceRole
    \<Rightarrow> (DIGSRoleDecision list \<times> DIGSInstanceInfo list) option" where
  "GetRoleDecision srt ds is num ro =
     (let need2SwitchInstance = filter (\<lambda>i. ins_role i \<noteq> ro \<and> ins_role i \<noteq> FLEX_INSTANCE) is
      in map_option (\<lambda>ds. (ds, RefreshInstanceRole is ds)) (SelectSwitchPDInstance srt ds need2SwitchInstance num ro))"

definition count_role :: "DIGSInstanceRole \<Rightarrow> DIGSInstanceInfo list \<Rightarrow> u64" where
  "count_role ro is = of_nat (length (filter (\<lambda>i. ins_role i = ro) is))"

text \<open>The last \<open>k\<close> instances become flex instances; the decisions are issued from the end.\<close>

definition flex_tail :: "nat \<Rightarrow> u64 \<Rightarrow> DIGSInstanceInfo list \<Rightarrow> DIGSRoleDecision list \<times> DIGSInstanceInfo list" where
  "flex_tail k x is = (let n = length is - k
     in (map (\<lambda>i. decide i FLEX_INSTANCE x) (rev (drop n is)), take n is @ map (set_role FLEX_INSTANCE) (drop n is)))"

fun flex_update :: "u64 \<Rightarrow> u64 \<Rightarrow> u64 \<Rightarrow> DIGSInstanceInfo list \<Rightarrow> DIGSRoleDecision list" where
  "flex_update dest x cnt [] = []"
| "flex_update dest x cnt (i # is) =
     (if ins_role i = FLEX_INSTANCE \<and> cnt < dest
      then if x = st_flexPRatio (staticInfo i) then flex_update dest x (cnt + 1) is
           else decide i FLEX_INSTANCE x # flex_update dest x (cnt + 1) is
      else flex_update dest x cnt is)"

definition GetFlexRoleDecision :: "DIGSInstanceInfo list \<Rightarrow> u64 \<Rightarrow> f64 \<Rightarrow> (DIGSRoleDecision list \<times> DIGSInstanceInfo list) option" where
  "GetFlexRoleDecision is flexNumDest pRatioX =
     (let flexActualSize = count_role FLEX_INSTANCE is
      in if flexNumDest = 0 then Some ([], is)
         else case flex_percentage pRatioX of
                None \<Rightarrow> None
              | Some x \<Rightarrow>
                  if flexActualSize < flexNumDest
                  then Some (flex_tail (min (length is) (unat (flexNumDest - flexActualSize))) x is)
                  else Some (flex_update flexNumDest x 0 is, is))"

text \<open>Further roles are assigned only where the target exceeds what the group had at the start.\<close>

definition get_more :: "ins_sort \<Rightarrow> u64 \<Rightarrow> u64 \<Rightarrow> DIGSInstanceRole \<Rightarrow> DIGSRoleDecision list \<times> DIGSInstanceInfo list
    \<Rightarrow> (DIGSRoleDecision list \<times> DIGSInstanceInfo list) option" where
  "get_more srt dest actual ro acc = (if actual < dest then GetRoleDecision srt (fst acc) (snd acc) (dest - actual) ro else Some acc)"

definition group_roles :: "ins_sort \<Rightarrow> DIGSGroupPDRatio \<Rightarrow> DIGSInstanceInfo list \<Rightarrow> (DIGSRoleDecision list \<times> DIGSInstanceInfo list) option" where
  "group_roles srt r is =
     Option.bind (GetFlexRoleDecision is (flexNum r) (gr_flexPRatio r)) (\<lambda>acc.
     Option.bind (get_more srt (pNum r) (count_role PREFILL_INSTANCE is) PREFILL_INSTANCE acc) (\<lambda>acc.
     get_more srt (dNum r) (count_role DECODE_INSTANCE is) DECODE_INSTANCE acc))"

definition AssignRole :: "ins_sort \<Rightarrow> DIGSRoleDecision list \<Rightarrow> u64 \<Rightarrow> DIGSInstanceInfo list \<Rightarrow> DIGSGroupPDRatio \<Rightarrow> InstanceRoleManager
    \<Rightarrow> (DIGSRoleDecision list \<times> DIGSInstanceInfo list \<times> InstanceRoleManager) option" where
  "AssignRole srt digRoleDecisions g is r m =
     (let r = r\<lparr>gr_groupId := g\<rparr>; m = m\<lparr>dIGSGroupPDRatios := omap_put g r (dIGSGroupPDRatios m)\<rparr>
      in map_option (\<lambda>(new, is). (digRoleDecisions @ new, is, notify (digRoleDecisions @ new) m)) (group_roles srt r is))"

fun allocate_groups :: "ins_sort \<Rightarrow> memcpy \<Rightarrow> LlamaSimulator \<Rightarrow> DIGSRequestSummary \<Rightarrow> bool \<Rightarrow> GroupInstanceInfo \<Rightarrow> DIGSRoleDecision list
    \<Rightarrow> InstanceRoleManager \<Rightarrow> (Status \<times> GroupInstanceInfo \<times> DIGSRoleDecision list \<times> InstanceRoleManager) option" where
  "allocate_groups srt mc sim summary first [] ds m = Some (OK, [], ds, m)"
| "allocate_groups srt mc sim summary first ((g, is) # gs) ds m =
     (case CalBestRatio mc sim (proportionCalculator m) (pd_input m (of_nat (length is)) summary first) zero_ratio of
        None \<Rightarrow> None
      | Some (st, r, pc) \<Rightarrow>
          (let m = m\<lparr>proportionCalculator := pc\<rparr>
           in if st \<noteq> OK then Some (ILLEGAL_PARAMETER, (g, is) # gs, ds, m)
              else let m = (if first then m\<lparr>globalPDRatios := r\<rparr> else m)
                   in case AssignRole srt ds g is r m of
                        None \<Rightarrow> None
                      | Some (ds, is, m) \<Rightarrow> map_option (\<lambda>(st, gs, rest). (st, (g, is) # gs, rest)) (allocate_groups srt mc sim summary first gs ds m)))"

definition AllocateInstanceRole :: "ins_sort \<Rightarrow> memcpy \<Rightarrow> LlamaSimulator \<Rightarrow> GroupInstanceInfo \<Rightarrow> DIGSRequestSummary \<Rightarrow> DIGSRoleDecision list \<Rightarrow> bool
    \<Rightarrow> InstanceRoleManager \<Rightarrow> (Status \<times> GroupInstanceInfo \<times> DIGSRoleDecision list \<times> InstanceRoleManager) option" where
  "AllocateInstanceRole srt mc sim gs summary ds first m =
     (if inputLength summary = 0 \<or> outputLength summary = 0 then Some (ILLEGAL_PARAMETER, gs, ds, m)
      else allocate_groups srt mc sim summary first gs ds m)"

subsection \<open>Initialisation and the periodic decision\<close>

definition InitExpectPDRate :: "LlamaSimulator \<Rightarrow> nat \<Rightarrow> DIGSRequestSummary \<Rightarrow> u64 \<Rightarrow> u64 \<Rightarrow> InstanceRoleManager
    \<Rightarrow> Status \<times> u64 \<times> u64 \<times> InstanceRoleManager" where
  "InitExpectPDRate sim n summary pRate dRate m =
     (if pRate \<noteq> 0 \<and> dRate \<noteq> 0 then (OK, pRate, dRate, m)
      else let (st, r, pRate, dRate) = ClusterExpectRatio sim (pd_input m (of_nat n) summary False) (globalPDRatios m) pRate dRate
           in (st, pRate, dRate, m\<lparr>globalPDRatios := r\<rparr>))"

text \<open>
  The last step of \<^verbatim>\<open>Init\<close>: the flag is exchanged, which starts the thread the first time. The instance
  list is moved into the groups except in the heterogeneous mode, which sets the roles in place; the cross-node mode
  passes its two counters in the order \<^verbatim>\<open>dRate\<close>, \<^verbatim>\<open>pRate\<close>.
\<close>

definition start_schedule :: "InstanceRoleManager \<Rightarrow> InstanceRoleManager" where
  "start_schedule m = (if isAutoSwitching m then m\<lparr>scheduleTerminate := False\<rparr> else m)"

definition Init :: "ins_sort \<Rightarrow> memcpy \<Rightarrow> LlamaSimulator \<Rightarrow> (DIGSInstanceInfo \<Rightarrow> u64) \<Rightarrow> DIGSInstanceInfo list \<Rightarrow> DIGSRequestSummary \<Rightarrow> u64 \<Rightarrow> u64
    \<Rightarrow> InstanceRoleManager \<Rightarrow> (bool \<times> u64 \<times> u64 \<times> InstanceRoleManager) option" where
  "Init srt mc sim junk infos summary pRate dRate m =
     (if isHeterogeneous m then Some (True, pRate, dRate, snd (AssignRoleByHardwareType infos m))
      else if isSkipDecisionForCrossNodeMode m
      then let (d, p, m) = AssignRoleForCrossNodeSize junk infos dRate pRate m in Some (True, p, d, m)
      else let gs = GroupDIGSInstanceInfos infos
           in if pRate \<noteq> 0 \<and> dRate \<noteq> 0
              then map_option (\<lambda>(_, m). (True, pRate, dRate, start_schedule m)) (AssignRoleByDefiniteRatio mc gs dRate pRate m)
              else case AllocateInstanceRole srt mc sim gs summary [] True m of
                     None \<Rightarrow> None
                   | Some (st, _, ds, m) \<Rightarrow>
                       if st \<noteq> OK then Some (False, pRate, dRate, m)
                       else let (_, p, d, m) = InitExpectPDRate sim (length infos) summary pRate dRate (notify ds m)
                            in Some (True, p, d, start_schedule m))"

text \<open>One round of \<^verbatim>\<open>ScheduleThread\<close>; \<open>collected\<close> is what the collector returns, \<^const>\<open>None\<close> when it fails.\<close>

definition schedule_cycle :: "ins_sort \<Rightarrow> memcpy \<Rightarrow> LlamaSimulator \<Rightarrow> (DIGSInstanceInfo list \<times> DIGSRequestSummary) option \<Rightarrow> InstanceRoleManager
    \<Rightarrow> InstanceRoleManager option" where
  "schedule_cycle srt mc sim collected m =
     (case collected of
        None \<Rightarrow> Some m
      | Some (infos, summary) \<Rightarrow>
          map_option (\<lambda>(_, _, _, m). m) (AllocateInstanceRole srt mc sim (GroupDIGSInstanceInfos infos) summary [] False m))"

definition ComputePDNum :: "DIGSGroupPDRatio \<Rightarrow> u64 \<Rightarrow> u64 \<Rightarrow> DIGSGroupPDRatio \<times> u64" where
  "ComputePDNum r num alloc2PInstance =
     (let (p, d) = init_loop (pAbility r) (dAbility r) num (f64_mul (pAbility r) (f64_of_u64 (pNum r))) (f64_mul (dAbility r) (f64_of_u64 (dNum r)))
                     alloc2PInstance 0
      in (r\<lparr>pNum := pNum r + p, dNum := dNum r + d\<rparr>, p))"

end
