(* ===== verification/Ratio_Split.thy ===== *)
theory Ratio_Split
  imports Proportion_Calculator
begin

text \<open>
  Facts about the shares the proportion calculator computes. Its two loops refine one greedy rule, stated for arbitrary
  nondecreasing throughputs of the two sides: the next instance goes to the side that is not ahead. The rule maximises
  the throughput of the slower side; for integer rates it has a closed form.
\<close>

subsection \<open>The greedy rule\<close>

function greedy :: "(nat \<Rightarrow> f64) \<Rightarrow> (nat \<Rightarrow> f64) \<Rightarrow> nat \<Rightarrow> nat \<Rightarrow> nat \<Rightarrow> nat \<times> nat" where
  "greedy P D n p d = (if p + d < n then if f64_le (P p) (D d) then greedy P D n (Suc p) d else greedy P D n p (Suc d) else (p, d))"
  by pat_completeness auto

termination by (relation "measure (\<lambda>(_, _, n, p, d). n - (p + d))") auto

declare greedy.simps [simp del]

definition nondecreasing :: "(nat \<Rightarrow> f64) \<Rightarrow> bool" where
  "nondecreasing P \<longleftrightarrow> (\<forall>k l. k \<le> l \<longrightarrow> f64_le (P k) (P l))"

text \<open>Neither side is more than one instance ahead of the other.\<close>

definition balanced :: "(nat \<Rightarrow> f64) \<Rightarrow> (nat \<Rightarrow> f64) \<Rightarrow> nat \<Rightarrow> nat \<Rightarrow> bool" where
  "balanced P D p d \<longleftrightarrow> (\<forall>k < p. f64_le (P k) (D d)) \<and> (\<forall>k < d. f64_lt (D k) (P p))"

lemma f64_lt_le_trans: "f64_lt a b \<Longrightarrow> f64_le b c \<Longrightarrow> f64_lt a c"
  by (cases a; cases b; cases c) (auto simp: f64_le_def)

lemma f64_le_lt_trans: "f64_le a b \<Longrightarrow> f64_lt b c \<Longrightarrow> f64_lt a c"
  by (cases a; cases b; cases c) (auto simp: f64_le_def)

lemma f64_lt_imp_le: "f64_lt a b \<Longrightarrow> f64_le a b"
  by (cases a; cases b) (auto simp: f64_le_def)

lemma nondecreasing_not_NaN: "nondecreasing P \<Longrightarrow> P k \<noteq> NaN"
  using f64_le_simps(5) unfolding nondecreasing_def by (metis le_refl)

lemma balanced_step:
  assumes P: "nondecreasing P" and D: "nondecreasing D" and b: "balanced P D p d"
  shows "f64_le (P p) (D d) \<Longrightarrow> balanced P D (Suc p) d" and "\<not> f64_le (P p) (D d) \<Longrightarrow> balanced P D p (Suc d)"
proof -
  have mono: "f64_le (P p) (P (Suc p))" "f64_le (D d) (D (Suc d))" "k \<le> d \<Longrightarrow> f64_le (D k) (D d)" for k
    using P D by (auto simp: nondecreasing_def)
  show "f64_le (P p) (D d) \<Longrightarrow> balanced P D (Suc p) d"
    using b mono(1) by (auto simp: balanced_def less_Suc_eq intro: f64_lt_le_trans)
  assume "\<not> f64_le (P p) (D d)"
  then have "f64_lt (D d) (P p)" using nondecreasing_not_NaN [OF P] nondecreasing_not_NaN [OF D] by (auto simp: f64_le_def)
  then show "balanced P D p (Suc d)"
    using b mono(2,3) by (auto simp: balanced_def less_Suc_eq intro: f64_le_trans f64_le_lt_trans)
qed

lemma greedy_balanced:
  assumes "nondecreasing P" "nondecreasing D"
  shows "balanced P D p d \<Longrightarrow> p + d \<le> n \<Longrightarrow> greedy P D n p d = (p', d') \<Longrightarrow> balanced P D p' d' \<and> p' + d' = n"
proof (induction "n - (p + d)" arbitrary: p d)
  case 0
  then show ?case by (auto simp: greedy.simps [of P D _ p d])
next
  case (Suc m)
  then have "p + d < n" by simp
  then have m: "m = n - (Suc p + d)" "m = n - (p + Suc d)" "Suc p + d \<le> n" "p + Suc d \<le> n" using Suc.hyps(2) by auto
  note step = balanced_step [OF assms Suc.prems(1)]
  show ?case
  proof (cases "f64_le (P p) (D d)")
    case True
    with \<open>p + d < n\<close> Suc.prems(3) have "greedy P D n (Suc p) d = (p', d')" by (simp add: greedy.simps [of P D n p d])
    with Suc.hyps(1) [OF m(1)] m(3) step(1) True show ?thesis by blast
  next
    case False
    with \<open>p + d < n\<close> Suc.prems(3) have "greedy P D n p (Suc d) = (p', d')" by (simp add: greedy.simps [of P D n p d])
    with Suc.hyps(1) [OF m(2)] m(4) step(2) False show ?thesis by blast
  qed
qed

text \<open>No other way to divide the instances gives the slower side more.\<close>

lemma balanced_optimal:
  assumes P: "nondecreasing P" and D: "nondecreasing D" and b: "balanced P D p d" "p' + d' = p + d"
  shows "f64_le (f64_min (P p') (D d')) (f64_min (P p) (D d))"
proof -
  have NaN: "P k \<noteq> NaN" "D k \<noteq> NaN" for k using P D by (simp_all add: nondecreasing_not_NaN)
  then have min: "f64_le (f64_min (P p') (D d')) (P p')" "f64_le (f64_min (P p') (D d')) (D d')"
    using f64_min_le by auto
  consider "p' < p" | "d' < d" | "p' = p" "d' = d" using b(2) by linarith
  then show ?thesis
  proof cases
    case 1
    then have "f64_le (P p') (D d)" "f64_le (P p') (P p)" using b(1) P by (auto simp: balanced_def nondecreasing_def)
    then show ?thesis using min(1) by (meson f64_le_min f64_le_trans)
  next
    case 2
    then have "f64_le (D d') (P p)" "f64_le (D d') (D d)" using b(1) D by (auto simp: balanced_def nondecreasing_def f64_lt_imp_le)
    then show ?thesis using min(2) by (meson f64_le_min f64_le_trans)
  next
    case 3
    then show ?thesis using NaN by (simp add: f64_le_refl f64_min_def)
  qed
qed

subsection \<open>The throughput of a side\<close>

text \<open>
  What the loops need of the way they compute the throughput of \<open>k\<close> instances of a given ability: it does not fall when
  an instance is added, and the first instance counts.
\<close>

locale side_rate =
  fixes rate :: "f64 \<Rightarrow> nat \<Rightarrow> f64"
  assumes rate_mono: "0 < a \<Longrightarrow> k \<le> l \<Longrightarrow> f64_le (rate (Fin a) k) (rate (Fin a) l)"
    and rate_0: "0 < a \<Longrightarrow> rate (Fin a) 0 = Fin 0"
    and rate_1: "2 powi - 1074 \<le> a \<Longrightarrow> f64_lt (Fin 0) (rate (Fin a) 1)"
begin

lemma nondecreasing_rate: "0 < a \<Longrightarrow> nondecreasing (rate (Fin a))"
  by (simp add: nondecreasing_def rate_mono)

lemma share_balanced:
  assumes "0 < a" "0 < b" "greedy (rate (Fin a)) (rate (Fin b)) n 0 0 = (p, d)"
  shows "balanced (rate (Fin a)) (rate (Fin b)) p d \<and> p + d = n"
  using greedy_balanced [OF nondecreasing_rate nondecreasing_rate, OF assms(1,2) _ _ assms(3)] by (simp add: balanced_def)

lemma share_optimal:
  assumes "0 < a" "0 < b" "greedy (rate (Fin a)) (rate (Fin b)) n 0 0 = (p, d)" "p' + d' = n"
  shows "f64_le (f64_min (rate (Fin a) p') (rate (Fin b) d')) (f64_min (rate (Fin a) p) (rate (Fin b) d))"
  using share_balanced [OF assms(1-3)] assms by (intro balanced_optimal nondecreasing_rate) auto

lemma share_both:
  assumes "2 powi - 1074 \<le> a" "0 < b" "greedy (rate (Fin a)) (rate (Fin b)) n 0 0 = (p, d)" "2 \<le> n"
  shows "1 \<le> p \<and> 1 \<le> d"
proof -
  have "0 < a" using assms(1) by (rule less_le_trans [rotated]) simp
  note b = share_balanced [OF this assms(2,3)] and zero = rate_0 [OF this] rate_0 [OF assms(2)]
  show ?thesis
  proof (intro conjI)
    show "1 \<le> p"
    proof (rule ccontr)
      assume "\<not> 1 \<le> p"
      then have "p = 0" "0 < d" using b assms(4) by auto
      then have "f64_lt (rate (Fin b) 0) (rate (Fin a) 0)" using b by (simp add: balanced_def)
      then show False using zero by simp
    qed
    show "1 \<le> d"
    proof (rule ccontr)
      assume "\<not> 1 \<le> d"
      then have "d = 0" "1 < p" using b assms(4) by auto
      then have "f64_le (rate (Fin a) 1) (rate (Fin b) 0)" using b by (simp add: balanced_def)
      then show False using zero rate_1 [OF assms(1)] by (simp add: f64_le_def)
    qed
  qed
qed

end

definition product_rate :: "f64 \<Rightarrow> nat \<Rightarrow> f64" where
  "product_rate a k = f64_mul a (rnd64 (of_nat k))"

fun sum_rate :: "f64 \<Rightarrow> nat \<Rightarrow> f64" where
  "sum_rate a 0 = Fin 0"
| "sum_rate a (Suc k) = f64_add (sum_rate a k) (f64_mul a (Fin 1))"

text \<open>Both are nondecreasing, though every step rounds.\<close>

lemma product_rate_mono: "0 < a \<Longrightarrow> k \<le> l \<Longrightarrow> f64_le (product_rate (Fin a) k) (product_rate (Fin a) l)"
proof -
  assume a: "0 < a" and "k \<le> l"
  then have le: "f64_le (rnd64 (of_nat k)) (rnd64 (of_nat l))" by (intro rnd64_mono) auto
  have nn: "f64_nn (rnd64 (of_nat k))" "f64_nn (rnd64 (of_nat l))" by (auto intro: f64_nn_rnd64)
  with a le show ?thesis
    by (cases "rnd64 (of_nat k)"; cases "rnd64 (of_nat l)")
      (auto simp: product_rate_def f64_mul_def f64_nn_def f64_inf_def rnd64_not_NaN intro!: rnd64_mono mult_left_mono)
qed

lemma sum_rate_exact: "0 < a \<Longrightarrow> sum_rate (Fin a) k = PInf \<or> (\<exists>s \<ge> 0. sum_rate (Fin a) k = Fin s \<and> rnd64 s = Fin s)"
proof (induction k)
  case (Suc k)
  have r: "rnd64 x = PInf \<or> (\<exists>s \<ge> 0. rnd64 x = Fin s \<and> rnd64 s = Fin s)" if "0 \<le> x" for x
    using f64_nn_rnd64 [OF that] rnd64_idem [OF that] by (cases "rnd64 x") (auto simp: f64_nn_def)
  show ?case
  proof (cases "sum_rate (Fin a) k = PInf \<or> rnd64 a = PInf")
    case True
    then show ?thesis using Suc r [of a] by (auto simp: f64_mul_def)
  next
    case False
    then obtain s t where "sum_rate (Fin a) k = Fin s" "rnd64 a = Fin t" "0 \<le> s" "0 \<le> t"
      using Suc r [of a] by auto
    with r [of "s + t"] show ?thesis by (simp add: f64_mul_def)
  qed
qed simp

lemma sum_rate_step: "0 < a \<Longrightarrow> f64_le (sum_rate (Fin a) k) (sum_rate (Fin a) (Suc k))"
proof -
  assume a: "0 < a"
  have nn: "f64_nn (rnd64 a)" using a by (intro f64_nn_rnd64) simp
  show ?thesis
  proof (cases "sum_rate (Fin a) k = PInf \<or> rnd64 a = PInf")
    case True
    then show ?thesis using sum_rate_exact [OF a, of k] nn by (cases "rnd64 a") (auto simp: f64_mul_def f64_nn_def)
  next
    case False
    then obtain s t where s: "sum_rate (Fin a) k = Fin s" "rnd64 s = Fin s" "0 \<le> s" and t: "rnd64 a = Fin t" "0 \<le> t"
      using sum_rate_exact [OF a, of k] nn by (cases "rnd64 a") (auto simp: f64_nn_def)
    then have "f64_le (rnd64 s) (rnd64 (s + t))" by (intro rnd64_mono) auto
    with s t show ?thesis by (simp add: f64_mul_def)
  qed
qed

lemma sum_rate_mono: "0 < a \<Longrightarrow> k \<le> l \<Longrightarrow> f64_le (sum_rate (Fin a) k) (sum_rate (Fin a) l)"
proof (induction l)
  case 0
  then show ?case by simp
next
  case (Suc l)
  have "sum_rate (Fin a) (Suc l) \<noteq> NaN" using sum_rate_exact [OF Suc.prems(1), of "Suc l"] by auto
  with Suc show ?case using sum_rate_step [OF Suc.prems(1), of l] by (auto simp: le_Suc_eq intro: f64_le_trans f64_le_refl simp del: sum_rate.simps)
qed

interpretation product: side_rate product_rate
proof
  fix a :: rat
  show "0 < a \<Longrightarrow> product_rate (Fin a) 0 = Fin 0" by (simp add: product_rate_def f64_mul_def)
  show "2 powi - 1074 \<le> a \<Longrightarrow> f64_lt (Fin 0) (product_rate (Fin a) 1)" by (simp add: product_rate_def f64_mul_def rnd64_pos)
qed (rule product_rate_mono)

interpretation summed: side_rate sum_rate
proof
  fix a :: rat assume a: "2 powi - 1074 \<le> a"
  have "0 < a" using a by (rule less_le_trans [rotated]) simp
  then show "f64_lt (Fin 0) (sum_rate (Fin a) 1)" using rnd64_pos [OF a] rnd64_idem [of a] by (cases "rnd64 a") (auto simp: f64_mul_def)
qed (auto intro: sum_rate_mono)

subsection \<open>The loops\<close>

lemma pd_loop_greedy:
  "unat p + unat d \<le> unat n \<Longrightarrow> greedy (product_rate a) (product_rate b) (unat n) (unat p) (unat d) = map_prod unat unat (pd_loop a b n p d)"
proof (induction a b n p d rule: pd_loop.induct)
  case (1 a b n p d)
  have n: "unat n < 2 ^ 64" by (rule u64_bound)
  have r: "f64_mul a (f64_of_u64 p) = product_rate a (unat p)" "f64_mul b (f64_of_u64 d) = product_rate b (unat d)"
    by (simp_all add: product_rate_def f64_of_u64_def)
  have lt: "p + d < n \<longleftrightarrow> unat p + unat d < unat n" using 1(3) n by (simp add: word_less_nat_alt unat_u64_add)
  show ?case
  proof (cases "p + d < n")
    case True
    then have S: "unat (p + 1) = Suc (unat p)" "unat (d + 1) = Suc (unat d)" using n lt by (simp_all add: unat_word_ariths)
    show ?thesis
      using True lt S 1 by (cases "f64_le (product_rate a (unat p)) (product_rate b (unat d))")
        (simp_all add: r pd_loop.simps [of a b n p d] greedy.simps [of "product_rate a" "product_rate b" "unat n" "unat p" "unat d"])
  next
    case False
    then show ?thesis using lt by (simp add: pd_loop.simps [of a b n p d] greedy.simps)
  qed
qed

lemma init_loop_greedy:
  "unat p + unat d \<le> unat n \<Longrightarrow> pAll = sum_rate a (unat p) \<Longrightarrow> dAll = sum_rate b (unat d)
    \<Longrightarrow> greedy (sum_rate a) (sum_rate b) (unat n) (unat p) (unat d) = map_prod unat unat (init_loop a b n pAll dAll p d)"
proof (induction a b n pAll dAll p d rule: init_loop.induct)
  case (1 a b n pAll dAll p d)
  have n: "unat n < 2 ^ 64" by (rule u64_bound)
  have lt: "p + d < n \<longleftrightarrow> unat p + unat d < unat n" using 1(3) n by (simp add: word_less_nat_alt unat_u64_add)
  show ?case
  proof (cases "p + d < n")
    case True
    then have S: "unat (p + 1) = Suc (unat p)" "unat (d + 1) = Suc (unat d)" using n lt by (simp_all add: unat_word_ariths)
    note unfold = init_loop.simps [of a b n "sum_rate a (unat p)" "sum_rate b (unat d)" p d]
      greedy.simps [of "sum_rate a" "sum_rate b" "unat n" "unat p" "unat d"]
    show ?thesis
    proof (cases "f64_le pAll dAll")
      case le: True
      with True lt S 1(3-) 1(1) show ?thesis unfolding \<open>pAll = _\<close> \<open>dAll = _\<close> unfold by simp
    next
      case le: False
      with True lt S 1(3-) 1(2) show ?thesis unfolding \<open>pAll = _\<close> \<open>dAll = _\<close> unfold by simp
    qed
  next
    case False
    then have "\<not> unat p + unat d < unat n" using lt by simp
    with False show ?thesis unfolding init_loop.simps [of a b n pAll dAll p d] greedy.simps [of "sum_rate a" "sum_rate b" "unat n" "unat p" "unat d"]
      by simp
  qed
qed

lemma greedy_sum: "p + d \<le> n \<Longrightarrow> greedy P D n p d = (p', d') \<Longrightarrow> p' + d' = n"
proof (induction "n - (p + d)" arbitrary: p d)
  case 0
  then show ?case by (auto simp: greedy.simps [of P D _ p d])
next
  case (Suc k)
  then have k: "p + d < n" "k = n - (Suc p + d)" "k = n - (p + Suc d)" "Suc p + d \<le> n" "p + Suc d \<le> n" by auto
  from Suc.hyps(1) [OF k(2,4)] Suc.hyps(1) [OF k(3,5)] Suc.prems(2) k(1) show ?case
    by (auto simp: greedy.simps [of P D n p d] split: if_splits)
qed

lemma pd_loop_sum: "pd_loop a b n 0 0 = (p, d) \<Longrightarrow> unat p + unat d = unat n"
  using pd_loop_greedy [of 0 0 n a b] greedy_sum [of 0 0 "unat n" "product_rate a" "product_rate b" "unat p" "unat d"] by simp

lemma pd_loop_result:
  assumes "pd_loop (Fin a) (Fin b) n 0 0 = (p, d)"
  shows "greedy (product_rate (Fin a)) (product_rate (Fin b)) (unat n) 0 0 = (unat p, unat d)"
  using pd_loop_greedy [of 0 0 n "Fin a" "Fin b"] assms by simp

lemma init_loop_result:
  assumes "init_loop (Fin a) (Fin b) n (Fin 0) (Fin 0) 0 0 = (p, d)"
  shows "greedy (sum_rate (Fin a)) (sum_rate (Fin b)) (unat n) 0 0 = (unat p, unat d)"
proof -
  have "greedy (sum_rate (Fin a)) (sum_rate (Fin b)) (unat n) (unat (0 :: u64)) (unat (0 :: u64)) = map_prod unat unat (init_loop (Fin a) (Fin b) n (Fin 0) (Fin 0) 0 0)"
    by (rule init_loop_greedy) simp_all
  then show ?thesis unfolding assms by simp
qed

subsection \<open>A concrete configuration\<close>

text \<open>Only the static communication delay counts: one millisecond per batch in either role.\<close>

definition ex_sim :: LlamaSimulator where
  "ex_sim = \<lparr>prefillSLOMS = Fin 0, decodeSLOMS = Fin 0, tensorParallel = 1, pipeParallel = 1, hardwareCardNums = 1,
     numHiddenLayers = Fin 250, hiddenSize = Fin 0, numAttentionHeads = Fin 1, numKeyValueHeads = Fin 1, intermediateSize = Fin 0,
     byteSize = Fin 2, bandwidthGB = Fin 1, bandwidthEff = Fin 1, bandwidthRDMAGb = Fin 8, tFlops = Fin 1, tFlopsEff = Fin 1,
     mBandwidthTB = Fin 1, mBandwidthEff = Fin 1, memCapacity = Fin 1, graphicsOutOfMemoryThreshold = Fin 1,
     simAlpha = Fin 1, staticTransferDelay = Fin 64\<rparr>"

definition ex_pcalc :: ProportionCalculator where
  "ex_pcalc = \<lparr>modelSimulator = ex_sim, throughput = Fin 0, throughputPrev = Fin 0, ratio_cur = zero_ratio, ratioPre = zero_ratio\<rparr>"

definition ex_pinput :: ProportionInput where
  "ex_pinput = \<lparr>in_instanceNum = 3, in_summary = \<lparr>inputLength = 1, outputLength = 1\<rparr>, in_type = DIGS_ROLE_PD_RATIO, in_flexInstNum = 0, in_isFirst = True\<rparr>"

lemmas ex_consts = TIME_CHANGE_def MEM_CHANGE_def TFLOPS2FLOPS_def GB2GBIT_def TWO_WEIGHT_MATRIX_def THREE_WEIGHT_MATRIX_def COEFFICIENT_def f64_lit_def

lemma DOUBLE_EPS_le_1: "\<not> f64_lt (Fin x) DOUBLE_EPS" if "1 \<le> x"
proof -
  have "f64_le DOUBLE_EPS (Fin 1)" using rnd64_mono [of "1 / 1000000" 1] by (simp add: DOUBLE_EPS_def f64_lit_def)
  then show ?thesis using that f64_lt_trans f64_le_lt_trans [of "Fin 1" "Fin x" DOUBLE_EPS] by (auto simp: f64_le_def)
qed

lemma DOUBLE_EPS_pos: "f64_lt (Fin 0) DOUBLE_EPS"
proof -
  have "(2 :: rat) powi - 1074 \<le> 2 powi - 20" by (rule power_int_increasing) simp_all
  also have "\<dots> \<le> 1 / 1000000" by (simp add: power_int_def field_simps)
  finally show ?thesis unfolding DOUBLE_EPS_def f64_lit_def by (rule rnd64_pos)
qed

lemma DoubleIsZero_Fin: "DoubleIsZero (Fin 0)" "1 \<le> x \<Longrightarrow> \<not> DoubleIsZero (Fin x)"
  using DOUBLE_EPS_pos DOUBLE_EPS_le_1 [of x] by (auto simp: DoubleIsZero_def f64_abs_def)

lemma f64_mul_Fin: "f64_mul (Fin a) (Fin b) = rnd64 (a * b)"
  by (simp add: f64_mul_def)

lemma f64_of_u64_lit: "f64_of_u64 0 = Fin 0" "f64_of_u64 1 = Fin 1" "f64_of_u64 2 = Fin 2"
  using f64_of_u64_exact [of 0] f64_of_u64_exact [of 1] f64_of_u64_exact [of 2] by simp_all

lemma f64_mul_u64_0: "f64_mul (f64_of_u64 b) (Fin 0) = Fin 0"
  using f64_of_u64_finite [of b] by (auto simp: f64_mul_Fin)

lemma ex_fields:
  "prefillSLOMS ex_sim = Fin 0" "decodeSLOMS ex_sim = Fin 0" "tensorParallel ex_sim = 1" "pipeParallel ex_sim = 1" "hardwareCardNums ex_sim = 1"
  "numHiddenLayers ex_sim = Fin 250" "hiddenSize ex_sim = Fin 0" "numAttentionHeads ex_sim = Fin 1" "numKeyValueHeads ex_sim = Fin 1"
  "intermediateSize ex_sim = Fin 0" "byteSize ex_sim = Fin 2" "bandwidthGB ex_sim = Fin 1" "bandwidthEff ex_sim = Fin 1" "bandwidthRDMAGb ex_sim = Fin 8"
  "tFlops ex_sim = Fin 1" "tFlopsEff ex_sim = Fin 1" "mBandwidthTB ex_sim = Fin 1" "mBandwidthEff ex_sim = Fin 1" "memCapacity ex_sim = Fin 1"
  "graphicsOutOfMemoryThreshold ex_sim = Fin 1" "simAlpha ex_sim = Fin 1" "staticTransferDelay ex_sim = Fin 64"
  by (simp_all add: ex_sim_def)

lemma ex_host: "host_num ex_sim = 1"
  by (simp add: host_num_def ex_fields f64_of_u64_lit rat_trunc_def)

lemmas ex_eval = ex_fields ex_host f64_mul_Fin f64_of_u64_lit f64_mul_u64_0 DoubleIsZero_Fin Let_def ex_consts

lemma ex_comm: "CalCommunicateLatency ex_sim 1 b dec = Fin 1"
  by (cases dec) (simp_all add: CalCommunicateLatency_def ex_eval)

lemma ex_compute: "CalComputeLatency ex_sim 1 1 1 dec = Fin 0" "CalComputeLatency ex_sim 1 1 2 dec = Fin 0"
  by (cases dec; simp add: CalComputeLatency_def ex_eval)+

lemma ex_fetch: "CalFetchLatency ex_sim 1 1 1 dec = Fin 0" "CalFetchLatency ex_sim 1 1 2 dec = Fin 0"
  by (cases dec; simp add: CalFetchLatency_def ex_eval)+

lemma ex_batch: "CalBatchSize ex_sim 1 1 dec = 1"
  by (cases dec) (simp_all add: CalBatchSize_def grow_batch.simps [of _ _ 1] shrink_batch.simps [of _ _ 1] CalTime_def ex_comm ex_compute ex_fetch
      CalMemUsage_def CalModelWeightMem_def CalPerTokenMem_def ex_eval)

lemma ex_ability: "CalAbility ex_sim \<lparr>inputLength = 1, outputLength = 1\<rparr> r = r\<lparr>pAbility := Fin 1000, dAbility := Fin 1000\<rparr>"
  by (simp add: CalAbility_def ex_batch CalTime_def ex_comm ex_compute ex_fetch ex_eval)

lemma ex_transfer: "CalTransferAbility ex_sim 1 = rnd64 (1 / 250)"
proof -
  have "f64_of_u64 MAX_TOKEN_NUM = Fin 128" using f64_of_u64_exact [of 128] by (simp add: MAX_TOKEN_NUM_def)
  then show ?thesis by (simp add: CalTransferAbility_def CalTransferTime_def ex_eval)
qed

lemma ex_sim_ability: "sim_CalAbility ex_sim \<lparr>inputLength = 1, outputLength = 1\<rparr> r
    = r\<lparr>pAbility := Fin 1000, dAbility := Fin 1000, tAbility := rnd64 (1 / 250)\<rparr>"
  by (simp add: sim_CalAbility_def ex_ability ex_transfer)

text \<open>Abilities from the tolerance on are accepted.\<close>

lemma rnd64_nonpos: "x \<le> 0 \<Longrightarrow> \<not> f64_lt (Fin 0) (rnd64 x)"
proof -
  assume x: "x \<le> 0"
  have r: "round_even (x / 2 powi e) \<le> 0" for e
    using round_even_mono [of "x / 2 powi e" 0] x round_even_of_int [of 0] by (simp add: divide_nonpos_pos)
  have y: "of_int (round_even (x / 2 powi e)) * (2 powi e :: rat) \<le> 0" for e
    using r [of e] by (intro mult_nonpos_nonneg) simp_all
  then have "\<not> F64_LIMIT \<le> of_int (round_even (x / 2 powi e)) * (2 powi e :: rat)" for e
    using F64_LIMIT_pos by (meson not_le order_le_less_trans)
  with y show ?thesis by (auto simp: rnd64_def Let_def not_less)
qed

lemma ability_accepted:
  assumes "f64_le DOUBLE_EPS x"
  shows "\<not> DoubleIsZero x" "\<not> DoubleLess x (Fin 0)"
proof -
  obtain e where e: "DOUBLE_EPS = Fin e" "0 < e" using DOUBLE_EPS_pos DOUBLE_EPS_le_1 [of 1] by (cases DOUBLE_EPS) (metis f64_lt.simps(1), auto)
  have le: "f64_le (Fin e) x" using assms unfolding e(1) .
  then have "\<not> f64_lt x (Fin 0)" using e(2) by (cases x) (auto simp: f64_le_def)
  then show "\<not> DoubleIsZero x" using assms by (simp add: DoubleIsZero_def f64_abs_def f64_le_def)
  have "f64_le (Fin 0) x" using le e(2) by (cases x) (auto simp: f64_le_def)
  moreover have "\<not> f64_lt (Fin 0) (f64_sub (Fin 0) DOUBLE_EPS)" unfolding e(1) using e(2) rnd64_nonpos [of "- e"] by (simp add: f64_sub_def)
  ultimately show "\<not> DoubleLess x (Fin 0)" unfolding DoubleLess_def using f64_le_lt_trans by blast
qed

lemma ex_ability_ok: "ability_ok (sim_CalAbility ex_sim \<lparr>inputLength = 1, outputLength = 1\<rparr> r)"
proof -
  have "f64_le DOUBLE_EPS (Fin 1000)" "f64_le DOUBLE_EPS (rnd64 (1 / 250))"
    using rnd64_mono [of "1 / 1000000" 1000] rnd64_mono [of "1 / 1000000" "1 / 250"] by (simp_all add: DOUBLE_EPS_def f64_lit_def)
  then show ?thesis by (simp add: ability_ok_def ex_sim_ability ability_accepted)
qed

subsection \<open>The computed ratio\<close>

lemma CalPdRatio_OK:
  assumes "CalPdRatio pc input r = (OK, r')"
  shows "\<exists>p d. pd_loop (pAbility r') (dAbility r') (in_instanceNum input) 0 0 = (p, d) \<and> pNum r' = p \<and> dNum r' = d
    \<and> \<not> f64_le (pAbility r') (Fin 0) \<and> \<not> f64_le (dAbility r') (Fin 0)"
  using assms by (auto simp: CalPdRatio_def Let_def split: prod.splits if_splits)

text \<open>C12: The numbers of prefill and decode instances that \<^verbatim>\<open>CalPdRatio\<close> returns for a group add up to the group and, whatever
  the (finite) abilities, maximise the throughput of the slower role: no other way to divide the group between the two roles
  does better, where every product is the rounded one the program computes. A group of two or more gets both roles, if the
  ability of a prefill instance is at least the smallest positive double.
\<close>

theorem pd_ratio_maximises_throughput:
  assumes "CalPdRatio pc input r = (OK, r')" "pAbility r' = Fin a" "dAbility r' = Fin b"
    and "unat p + unat d = unat (in_instanceNum input)"
  shows "unat (pNum r') + unat (dNum r') = unat (in_instanceNum input)
    \<and> f64_le (f64_min (f64_mul (pAbility r') (f64_of_u64 p)) (f64_mul (dAbility r') (f64_of_u64 d)))
        (f64_min (f64_mul (pAbility r') (f64_of_u64 (pNum r'))) (f64_mul (dAbility r') (f64_of_u64 (dNum r'))))
    \<and> (2 powi - 1074 \<le> a \<longrightarrow> 2 \<le> unat (in_instanceNum input) \<longrightarrow> 1 \<le> unat (pNum r') \<and> 1 \<le> unat (dNum r'))"
proof -
  have ab: "0 < a" "0 < b" and g: "greedy (product_rate (Fin a)) (product_rate (Fin b)) (unat (in_instanceNum input)) 0 0 = (unat (pNum r'), unat (dNum r'))"
    using CalPdRatio_OK [OF assms(1)] pd_loop_result assms(2,3) by auto
  have "f64_of_u64 w = rnd64 (of_nat (unat w))" for w by (simp add: f64_of_u64_def)
  then show ?thesis using product.share_balanced [OF ab g] product.share_optimal [OF ab g assms(4)] product.share_both [OF _ ab(2) g]
    by (simp add: assms(2,3) product_rate_def)
qed

theorem pd_ratio_maximises_throughput_witness:
  "let r' = snd (CalPdRatio ex_pcalc ex_pinput zero_ratio)
   in unat (pNum r') + unat (dNum r') = 3
    \<and> f64_le (f64_min (f64_mul (pAbility r') (f64_of_u64 1)) (f64_mul (dAbility r') (f64_of_u64 2)))
        (f64_min (f64_mul (pAbility r') (f64_of_u64 (pNum r'))) (f64_mul (dAbility r') (f64_of_u64 (dNum r'))))
    \<and> 1 \<le> unat (pNum r') \<and> 1 \<le> unat (dNum r')"
proof -
  let ?r = "snd (CalPdRatio ex_pcalc ex_pinput zero_ratio)"
  have r: "CalPdRatio ex_pcalc ex_pinput zero_ratio = (OK, ?r)" "pAbility ?r = Fin 1000" "dAbility ?r = Fin 1000"
    by (auto simp: CalPdRatio_def ex_pcalc_def ex_pinput_def ex_ability Let_def split: prod.splits)
  have "(2 :: rat) powi - 1074 \<le> 2 powi 0" by (rule power_int_increasing) simp_all
  then have "(2 :: rat) powi - 1074 \<le> 1000" by simp
  then show ?thesis using pd_ratio_maximises_throughput [OF r, of 1 2] by (simp add: ex_pinput_def)
qed

subsection \<open>Rates given from outside\<close>

lemma sum_rate_nat: "a * k < 2 ^ 53 \<Longrightarrow> sum_rate (Fin (of_nat a)) k = Fin (of_nat (a * k))"
proof (induction k)
  case (Suc k)
  have a: "a * k + a < 2 ^ 53" using Suc.prems by (simp add: algebra_simps)
  then have "a < 2 ^ 53" "a * k < 2 ^ 53" by simp_all
  then have "rnd64 (of_nat a) = Fin (of_nat a)" "sum_rate (Fin (of_nat a)) k = Fin (of_nat (a * k))" using Suc.IH by (simp_all only: rnd64_nat)
  with f64_add_nat [OF a] show ?case by (simp add: f64_mul_def algebra_simps)
qed simp

text \<open>The solution of the two inequalities that the greedy rule maintains.\<close>

lemma share_closed_form:
  fixes a b n p d :: nat
  assumes "p + d = n" "0 < a" "0 < b" "0 < p \<Longrightarrow> a * (p - 1) \<le> b * d" "0 < d \<Longrightarrow> b * (d - 1) < a * p"
  shows "p = (b * n + a) div (a + b)"
proof (rule sym, rule div_nat_eqI)
  show "(a + b) * p \<le> b * n + a"
  proof (cases p)
    case (Suc k)
    then have "a * k \<le> b * d" using assms(4) by simp
    then show ?thesis using assms(1) Suc by (simp add: algebra_simps flip: assms(1))
  qed simp
  show "b * n + a < (a + b) * Suc p"
  proof (cases d)
    case 0
    then show ?thesis using assms(1,3) by (simp add: algebra_simps flip: assms(1))
  next
    case (Suc k)
    then have "b * k < a * p" using assms(5) by simp
    then show ?thesis using assms(1) Suc by (simp add: algebra_simps flip: assms(1))
  qed
qed

text \<open>C16: For integer rates whose products with the size of the group are exact, \<^verbatim>\<open>InitPdBestRatioWithExternInput\<close> gives the
  prefill role \<open>(b n + a) div (a + b)\<close> of the \<open>n\<close> instances, where \<open>a\<close> and \<open>b\<close> are the abilities of a prefill and of a decode
  instance, and the decode role the rest.
\<close>

theorem definite_ratio_closed_form:
  assumes "pAbility r = Fin (of_nat a)" "dAbility r = Fin (of_nat b)" "0 < a" "0 < b"
    and "(a + b) * unat (in_instanceNum input) < 2 ^ 53"
  shows "\<exists>r'. InitPdBestRatioWithExternInput input r = (OK, r')
    \<and> unat (pNum r') = (b * unat (in_instanceNum input) + a) div (a + b)
    \<and> unat (pNum r') + unat (dNum r') = unat (in_instanceNum input)"
proof -
  let ?n = "unat (in_instanceNum input)"
  obtain p d where l: "init_loop (Fin (of_nat a)) (Fin (of_nat b)) (in_instanceNum input) (Fin 0) (Fin 0) 0 0 = (p, d)" by force
  have bal: "balanced (sum_rate (Fin (of_nat a))) (sum_rate (Fin (of_nat b))) (unat p) (unat d)" "unat p + unat d = ?n"
    using summed.share_balanced [OF _ _ init_loop_result [OF l]] assms(3,4) by auto
  have r: "sum_rate (Fin (of_nat a)) k = Fin (of_nat (a * k))" "sum_rate (Fin (of_nat b)) k = Fin (of_nat (b * k))" if "k \<le> ?n" for k
  proof -
    have "a * k \<le> (a + b) * ?n" "b * k \<le> (a + b) * ?n" using that by (auto intro: mult_le_mono)
    then show "sum_rate (Fin (of_nat a)) k = Fin (of_nat (a * k))" "sum_rate (Fin (of_nat b)) k = Fin (of_nat (b * k))"
      using assms(5) sum_rate_nat [of a k] sum_rate_nat [of b k] by linarith+
  qed
  have "unat p = (b * ?n + a) div (a + b)"
  proof (rule share_closed_form [OF bal(2) assms(3,4)])
    assume "0 < unat p"
    then have "f64_le (sum_rate (Fin (of_nat a)) (unat p - 1)) (sum_rate (Fin (of_nat b)) (unat d))" using bal(1) by (simp add: balanced_def)
    moreover have "unat p - 1 \<le> ?n" "unat d \<le> ?n" using bal(2) by auto
    ultimately show "a * (unat p - 1) \<le> b * unat d" by (simp only: r f64_le_simps of_nat_le_iff)
  next
    assume "0 < unat d"
    then have "f64_lt (sum_rate (Fin (of_nat b)) (unat d - 1)) (sum_rate (Fin (of_nat a)) (unat p))" using bal(1) by (simp add: balanced_def)
    moreover have "unat d - 1 \<le> ?n" "unat p \<le> ?n" using bal(2) by auto
    ultimately show "b * (unat d - 1) < a * unat p" by (simp only: r f64_lt.simps of_nat_less_iff)
  qed
  then show ?thesis using l bal(2) assms(1,2) by (simp add: InitPdBestRatioWithExternInput_def)
qed

theorem definite_ratio_closed_form_witness:
  "\<exists>r'. InitPdBestRatioWithExternInput ex_pinput (zero_ratio\<lparr>pAbility := Fin (of_nat 1), dAbility := Fin (of_nat 2)\<rparr>) = (OK, r')
    \<and> unat (pNum r') = (2 * unat (in_instanceNum ex_pinput) + 1) div (1 + 2)
    \<and> unat (pNum r') + unat (dNum r') = unat (in_instanceNum ex_pinput)"
  by (rule definite_ratio_closed_form) (simp_all add: ex_pinput_def)

subsection \<open>Flex instances\<close>

definition unit_ratio :: "f64 \<Rightarrow> bool" where
  "unit_ratio x \<longleftrightarrow> f64_le (Fin 0) x \<and> f64_le x (Fin 1)"

lemma unit_ratio_Fin: "unit_ratio x \<longleftrightarrow> (\<exists>q. x = Fin q \<and> 0 \<le> q \<and> q \<le> 1)"
  by (cases x) (auto simp: unit_ratio_def f64_le_def)

lemma clamp_unit: "unit_ratio (f64_max FLEX_X_DOWN_THR (f64_min x FLEX_X_UP_THR))"
  by (cases x) (auto simp: unit_ratio_def f64_max_def f64_min_def FLEX_X_DOWN_THR_def FLEX_X_UP_THR_def f64_lit_def)

lemma flex_loop_unit: "unit_ratio x \<Longrightarrow> flex_loop k r x s p d = (x', p', d') \<Longrightarrow> unit_ratio x'"
  by (induction k r x s p d rule: flex_loop.induct) (auto simp: Let_def clamp_unit split: if_splits)

lemma half_unit: "unit_ratio FLEX_P_OR_D_PERCENTAGE"
  using rnd64_mono [of 0 "1 / 2"] rnd64_mono [of "1 / 2" 1] by (simp add: unit_ratio_def FLEX_P_OR_D_PERCENTAGE_def f64_lit_def)

lemma CalFlexPRatioX_unit: "unit_ratio (gr_flexPRatio r) \<Longrightarrow> CalFlexPRatioX r t = (st, r', t') \<Longrightarrow> unit_ratio (gr_flexPRatio r')"
  by (auto simp: CalFlexPRatioX_def Let_def half_unit dest: flex_loop_unit split: if_splits prod.splits)

lemma CalFlexPRatioX_frame: "CalFlexPRatioX r t = (st, r', t') \<Longrightarrow> \<exists>x. r' = r\<lparr>gr_flexPRatio := x\<rparr>"
  by (auto simp: CalFlexPRatioX_def Let_def intro: exI [of _ "gr_flexPRatio r"] split: if_splits prod.splits)

lemma zero_unit [simp]: "unit_ratio (Fin 0)"
  by (simp add: unit_ratio_def)

lemma flex_candidate_unit:
  assumes "unit_ratio (gr_flexPRatio r)" "flex_candidate n f r p = (r', t)"
  shows "unit_ratio (gr_flexPRatio r')"
proof (cases "p + f \<le> n")
  case True
  obtain st where "CalFlexPRatioX (r\<lparr>pNum := p, dNum := n - p - f\<rparr>) (Fin 0) = (st, r', t)"
    using assms(2) True by (cases "CalFlexPRatioX (r\<lparr>pNum := p, dNum := n - p - f\<rparr>) (Fin 0)") (simp add: flex_candidate_def)
  from CalFlexPRatioX_unit [OF _ this] assms(1) show ?thesis by simp
next
  case False
  with assms show ?thesis by (auto simp: flex_candidate_def)
qed

lemma CalPdflexNum_unit:
  assumes "unit_ratio (gr_flexPRatio r)" "CalPdflexNum n f r = Some (st, r')"
  shows "unit_ratio (gr_flexPRatio r')"
proof -
  have "unit_ratio (gr_flexPRatio (r\<lparr>flexNum := f\<rparr>))" using assms(1) by simp
  from flex_candidate_unit [OF this] assms show ?thesis
    by (auto simp: CalPdflexNum_def Let_def split: if_splits option.splits prod.splits)
qed

text \<open>C17: The comment of \<^verbatim>\<open>CalPdflexRatio\<close> says that the ratio depends on the previous cycle. It does not: as long as \<^verbatim>\<open>memcpy_s\<close>
  succeeds, which it always does for two objects of the same size, \<^verbatim>\<open>JudgeNeedPdSwtichUseThrput\<close> approves every switch,
  because it compares the error code with \<^verbatim>\<open>EOF\<close> where \<^verbatim>\<open>EOK\<close> is meant; the result is the freshly computed ratio.
\<close>

theorem previous_ratio_ignored:
  assumes "\<And>x. mc x = (EOK, x)"
  shows "JudgeNeedPdSwtichUseThrput mc pc r \<and> CalPdflexRatio mc pc input r = CalPdflexNum (in_instanceNum input) (word_of_int (in_flexInstNum input)) r"
proof -
  have "JudgeNeedPdSwtichUseThrput mc pc r'" for r' by (simp add: JudgeNeedPdSwtichUseThrput_def assms EOK_def EOF_def)
  then show ?thesis by (auto simp: CalPdflexRatio_def split: option.splits)
qed

theorem previous_ratio_ignored_witness:
  "JudgeNeedPdSwtichUseThrput (\<lambda>x. (EOK, x)) ex_pcalc zero_ratio
    \<and> CalPdflexRatio (\<lambda>x. (EOK, x)) ex_pcalc ex_pinput zero_ratio
      = CalPdflexNum (in_instanceNum ex_pinput) (word_of_int (in_flexInstNum ex_pinput)) zero_ratio"
  by (rule previous_ratio_ignored) simp

subsection \<open>The expected ratio of the cluster\<close>

lemma set_count_to: "m < 2 ^ 64 \<Longrightarrow> set (count_to m) = {w. 1 \<le> unat w \<and> unat w \<le> m}"
proof (intro set_eqI iffI)
  fix w :: u64 assume "m < 2 ^ 64" "w \<in> set (count_to m)"
  then show "w \<in> {w. 1 \<le> unat w \<and> unat w \<le> m}" by (auto simp: count_to_def unat_of_nat)
next
  fix w :: u64 assume "w \<in> {w. 1 \<le> unat w \<and> unat w \<le> m}"
  then show "w \<in> set (count_to m)" by (auto simp: count_to_def simp del: upt_Suc intro!: image_eqI [of _ _ "unat w"])
qed

lemma fold_invariant:
  "I s \<Longrightarrow> (\<And>x s. x \<in> set xs \<Longrightarrow> I s \<Longrightarrow> I (f x s)) \<Longrightarrow> I (fold f xs s)"
  by (induction xs arbitrary: s) auto

lemma expect_decode_loop_bounds:
  assumes "prefill < MAX_INSTANCE_NUM"
  shows "1 \<le> unat (snd (expect_decode_loop r prefill)) \<and> unat (snd (expect_decode_loop r prefill)) \<le> 16 - unat prefill"
proof -
  have p: "unat (MAX_INSTANCE_NUM - prefill) = 16 - unat prefill" "unat prefill < 16"
    using assms by (simp_all add: MAX_INSTANCE_NUM_def unat_sub less_imp_le word_less_nat_alt)
  show ?thesis unfolding expect_decode_loop_def
    by (rule fold_invariant [where I = "\<lambda>s. 1 \<le> unat (snd s) \<and> unat (snd s) \<le> 16 - unat prefill"])
      (use p in \<open>auto simp: decode_step_def set_count_to Let_def\<close>)
qed

text \<open>The ratio that the role manager reports for the cluster has at least one instance of either role and at most sixteen in all.\<close>

lemma cluster_ratio_bounds:
  "\<exists>p d. ClusterExpectPdRatio r = (OK, p, d) \<and> 1 \<le> unat p \<and> 1 \<le> unat d \<and> unat p + unat d \<le> 16"
proof -
  let ?I = "\<lambda>s :: f64 \<times> u64 \<times> u64. 1 \<le> unat (fst (snd s)) \<and> 1 \<le> unat (snd (snd s)) \<and> unat (fst (snd s)) + unat (snd (snd s)) \<le> 16"
  have "?I (fold (prefill_step r) (count_to (unat (MAX_INSTANCE_NUM - 1))) (Fin (- 1), 1, 1))"
  proof (rule fold_invariant)
    fix x and s :: "f64 \<times> u64 \<times> u64" assume "x \<in> set (count_to (unat (MAX_INSTANCE_NUM - 1)))" "?I s"
    then have x: "x < MAX_INSTANCE_NUM" "1 \<le> unat x" by (auto simp: MAX_INSTANCE_NUM_def set_count_to word_less_nat_alt)
    then have "unat x < 16" by (simp add: MAX_INSTANCE_NUM_def word_less_nat_alt)
    then show "?I (prefill_step r x s)" using \<open>?I s\<close> x(2) expect_decode_loop_bounds [OF x(1), of r]
      by (auto simp: prefill_step_def split: prod.splits)
  qed simp
  then show ?thesis by (metis ClusterExpectPdRatio_def prod.collapse)
qed

end
