(* ===== verification/Role_Assignment.thy ===== *)
theory Role_Assignment
  imports Role_Manager Ratio_Split "HOL-Library.Product_Lexorder"
begin

text \<open>
  Facts about \<^verbatim>\<open>AssignRole\<close>: a group without flex instances reaches exactly the numbers of the ratio, with decisions for
  instances of the group only; instances without a role are used up before any instance changes its role.
\<close>

subsection \<open>The order of the candidates\<close>

definition nrole :: "DIGSInstanceRole \<Rightarrow> DIGSInstanceInfo list \<Rightarrow> nat" where
  "nrole ro is = length (filter (\<lambda>i. ins_role i = ro) is)"

definition ins_key :: "DIGSInstanceLabel \<Rightarrow> DIGSInstanceInfo \<Rightarrow> bool \<times> bool \<times> u64 \<times> u64" where
  "ins_key label i = (ins_role i \<noteq> UN_DEF_INSTANCE, ins_label i \<noteq> label, sc_allocatedSlots (scheduleInfo i), sc_allocatedBlocks (scheduleInfo i))"

text \<open>The comparator orders a set of candidates when the instances that share a role have at most one label besides the preferred one.\<close>

lemma ins_comp_key:
  assumes "\<forall>i \<in> A. ins_role i \<in> {UN_DEF_INSTANCE, ro}"
    and "\<forall>i \<in> A. \<forall>j \<in> A. ins_role i = ins_role j \<longrightarrow> ins_label i \<noteq> label \<longrightarrow> ins_label j \<noteq> label \<longrightarrow> ins_label i = ins_label j"
    and "a \<in> A" "b \<in> A"
  shows "ins_comp label a b \<longleftrightarrow> ins_key label a < ins_key label b"
proof -
  have r: "ins_role a = UN_DEF_INSTANCE \<or> ins_role a = ro" "ins_role b = UN_DEF_INSTANCE \<or> ins_role b = ro" using assms by auto
  have l: "ins_label a = label \<or> ins_label b = label" if "ins_role a = ins_role b" "ins_label a \<noteq> ins_label b" using assms(2-4) that by blast
  consider "ins_role a \<noteq> ins_role b" | "ins_role a = ins_role b" "ins_label a \<noteq> ins_label b" | "ins_role a = ins_role b" "ins_label a = ins_label b" by blast
  then show ?thesis
  proof cases
    case 1
    then show ?thesis using r by (simp add: ins_comp_def ins_key_def) metis
  next
    case 2
    then show ?thesis using l [OF 2] by (auto simp: ins_comp_def ins_key_def)
  next
    case 3
    then show ?thesis by (auto simp: ins_comp_def ins_key_def)
  qed
qed

lemma strict_weak_cong:
  assumes "\<And>a b. a \<in> A \<Longrightarrow> b \<in> A \<Longrightarrow> lt a b \<longleftrightarrow> lt' a b" "strict_weak lt' A"
  shows "strict_weak lt A"
proof -
  have eq: "lt a b = lt' a b" if "a \<in> A" "b \<in> A" for a b using that by (rule assms(1))
  show ?thesis unfolding strict_weak_def
  proof (intro conjI ballI impI)
    fix x y z assume A: "x \<in> A" "y \<in> A" "z \<in> A"
    from assms(2) A show "lt x y \<Longrightarrow> lt y z \<Longrightarrow> lt x z" unfolding strict_weak_def eq [OF A(1,2)] eq [OF A(2,3)] eq [OF A(1,3)] by meson
    from A show "\<not> lt x y \<Longrightarrow> \<not> lt y z \<Longrightarrow> \<not> lt x z"
      unfolding eq [OF A(1,2)] eq [OF A(2,3)] eq [OF A(1,3)] by (rule strict_weak_neg [OF assms(2)])
  next
    fix x assume "x \<in> A"
    with assms(2) show "\<not> lt x x" unfolding eq [OF \<open>x \<in> A\<close> \<open>x \<in> A\<close>] strict_weak_def by blast
  qed
qed

lemma ins_comp_strict_weak:
  assumes "\<forall>i \<in> A. ins_role i \<in> {UN_DEF_INSTANCE, ro}"
    and "\<forall>i \<in> A. \<forall>j \<in> A. ins_role i = ins_role j \<longrightarrow> ins_label i \<noteq> label \<longrightarrow> ins_label j \<noteq> label \<longrightarrow> ins_label i = ins_label j"
  shows "strict_weak (ins_comp label) A"
  by (rule strict_weak_cong [OF ins_comp_key [OF assms] strict_weak_key])

text \<open>In the sorted list the instances without a role come first.\<close>

lemma filter_take_prefix:
  assumes "sorted_wrt (\<lambda>a b. \<not> (Q b \<and> \<not> Q a)) xs"
  shows "length (filter Q (take k xs)) = min k (length (filter Q xs))"
  using assms
proof (induction xs arbitrary: k)
  case (Cons x xs)
  show ?case
  proof (cases "Q x")
    case True
    then show ?thesis using Cons by (cases k) auto
  next
    case False
    then have "filter Q xs = []" using Cons.prems by (auto simp: filter_empty_conv)
    then have "filter Q (take j xs) = []" for j by (meson filter_empty_conv in_set_takeD)
    with False \<open>filter Q xs = []\<close> show ?thesis by (cases k) auto
  qed
qed simp

subsection \<open>Refreshing the roles\<close>

definition chg :: "DIGSInstanceRole \<Rightarrow> DIGSInstanceInfo list \<Rightarrow> DIGSInstanceInfo \<Rightarrow> DIGSInstanceInfo" where
  "chg ro sel i = (if ins_id i \<in> ins_id ` set sel then set_role ro i else i)"

definition apply_dc :: "DIGSRoleDecision \<Rightarrow> DIGSInstanceInfo \<Rightarrow> DIGSInstanceInfo" where
  "apply_dc dc i = (if rd_id dc = ins_id i then set_role (rd_role dc) i else i)"

lemma set_role_sel [simp]: "ins_id (set_role ro i) = ins_id i" "ins_role (set_role ro i) = ro" "ins_label (set_role ro i) = ins_label i"
  "set_role ro (set_role ro' i) = set_role ro i"
  by (simp_all add: set_role_def)

lemma apply_dc_id [simp]: "ins_id (apply_dc dc i) = ins_id i"
  by (simp add: apply_dc_def)

lemma chg_sel [simp]: "ins_id (chg ro sel i) = ins_id i" "ins_label (chg ro sel i) = ins_label i"
  by (simp_all add: chg_def)

lemma refresh_one_map: "distinct (map ins_id is) \<Longrightarrow> refresh_one dc is = map (apply_dc dc) is"
proof (induction dc "is" rule: refresh_one.induct)
  case (2 dc i "is")
  show ?case
  proof (cases "rd_id dc = ins_id i")
    case True
    then have "map (apply_dc dc) is = is" using 2(2) by (intro map_idI) (auto simp: apply_dc_def)
    with True show ?thesis by (simp add: apply_dc_def [of _ i])
  next
    case False
    with 2 show ?thesis by (simp add: apply_dc_def [of _ i])
  qed
qed simp

lemma RefreshInstanceRole_map: "distinct (map ins_id is) \<Longrightarrow> RefreshInstanceRole is ds = map (fold apply_dc ds) is"
  unfolding RefreshInstanceRole_def
proof (induction ds arbitrary: "is")
  case (Cons dc ds)
  have "distinct (map ins_id (map (apply_dc dc) is))" using Cons.prems by (simp add: o_def)
  from Cons.IH [OF this] Cons.prems show ?case by (simp add: refresh_one_map o_def)
qed simp

lemma fold_apply_decide: "fold apply_dc (map (\<lambda>i. decide i ro x) sel) j = chg ro sel j"
  by (induction sel arbitrary: j) (auto simp: chg_def apply_dc_def decide_def)

lemma chg_idem: "chg ro sel (chg ro sel j) = chg ro sel j"
  by (simp add: chg_def)

text \<open>How a change of role moves the counts.\<close>

lemma nrole_card: "distinct is \<Longrightarrow> nrole ro is = card {i \<in> set is. ins_role i = ro}"
  by (simp add: nrole_def distinct_length_filter Int_def conj_commute)

lemma chg_role:
  assumes "distinct (map ins_id is)" "set sel \<subseteq> set is" "i \<in> set is"
  shows "ins_role (chg ro sel i) = (if i \<in> set sel then ro else ins_role i)"
proof -
  have "ins_id i \<in> ins_id ` set sel \<longleftrightarrow> i \<in> set sel" using assms by (auto simp: distinct_map inj_on_def)
  then show ?thesis by (simp add: chg_def)
qed

lemma nrole_chg:
  assumes ids: "distinct (map ins_id is)" and sel: "set sel \<subseteq> {i \<in> set is. ins_role i \<noteq> ro}" "distinct sel"
  shows "nrole ro (map (chg ro sel) is) = nrole ro is + length sel"
    and "q \<noteq> ro \<Longrightarrow> nrole q (map (chg ro sel) is) + nrole q sel = nrole q is"
proof -
  have d: "distinct is" using ids by (simp add: distinct_map)
  have role: "ins_role (chg ro sel i) = (if i \<in> set sel then ro else ins_role i)" if "i \<in> set is" for i
    using ids sel that by (intro chg_role) auto
  have n: "nrole q (map (chg ro sel) is) = card {i \<in> set is. ins_role (chg ro sel i) = q}" for q
    using d by (simp add: nrole_def filter_map o_def distinct_length_filter Int_def conj_commute)
  have "{i \<in> set is. ins_role (chg ro sel i) = ro} = {i \<in> set is. ins_role i = ro} \<union> set sel" using role sel(1) by auto
  moreover have "{i \<in> set is. ins_role i = ro} \<inter> set sel = {}" using sel(1) by auto
  ultimately show "nrole ro (map (chg ro sel) is) = nrole ro is + length sel"
    using n [of ro] d sel(2) by (simp add: card_Un_disjoint nrole_card distinct_card)
  assume q: "q \<noteq> ro"
  have sub: "{i \<in> set sel. ins_role i = q} \<subseteq> {i \<in> set is. ins_role i = q}" using sel(1) by auto
  have "{i \<in> set is. ins_role (chg ro sel i) = q} = {i \<in> set is. ins_role i = q} - {i \<in> set sel. ins_role i = q}"
    using role q sel(1) by auto
  then have "nrole q (map (chg ro sel) is) = nrole q is - nrole q sel"
    using n [of q] d sel(2) by (simp add: card_Diff_subset [OF _ sub] nrole_card)
  moreover have "nrole q sel \<le> nrole q is" using card_mono [OF _ sub] d sel(2) by (simp add: nrole_card)
  ultimately show "nrole q (map (chg ro sel) is) + nrole q sel = nrole q is" by simp
qed

subsection \<open>One switch\<close>

definition plain_group :: "DIGSInstanceInfo list \<Rightarrow> bool" where
  "plain_group is \<longleftrightarrow> distinct (map ins_id is) \<and> length is < 2 ^ 64 \<and> (\<forall>i \<in> set is. ins_role i \<noteq> FLEX_INSTANCE)"

text \<open>\<open>sortable ro is\<close>: the candidates for the role \<open>ro\<close> can be ordered.\<close>

definition sortable :: "DIGSInstanceRole \<Rightarrow> DIGSInstanceInfo list \<Rightarrow> bool" where
  "sortable ro is \<longleftrightarrow> (\<forall>i \<in> set is. \<forall>j \<in> set is. ins_role i = ins_role j \<longrightarrow> ins_role i \<noteq> ro
     \<longrightarrow> switch_label ro \<noteq> Some (ins_label i) \<longrightarrow> switch_label ro \<noteq> Some (ins_label j) \<longrightarrow> ins_label i = ins_label j)"

text \<open>The labels of a group cause no trouble: besides the preference that counts, at most one other label occurs among the instances that
  compete for a role. For the decode role these are the prefill instances together with those without a role, because some of the
  latter may just have become prefill instances. Without a condition of this kind the comparator is not an ordering.\<close>

definition labels_ok :: "DIGSInstanceInfo list \<Rightarrow> bool" where
  "labels_ok is \<longleftrightarrow> sortable PREFILL_INSTANCE is
     \<and> (\<forall>i \<in> set is. \<forall>j \<in> set is. ins_role i \<noteq> DECODE_INSTANCE \<longrightarrow> ins_role j \<noteq> DECODE_INSTANCE
          \<longrightarrow> ins_label i \<noteq> PREFILL_PREFER \<longrightarrow> ins_label j \<noteq> PREFILL_PREFER \<longrightarrow> ins_label i = ins_label j)"

text \<open>The labels the controller gives: an instance without a role has the default one, and one with a role the static label of the role
  (\<^verbatim>\<open>NodeScheduler.cpp\<close>, \<^verbatim>\<open>RoleSwitcher.cpp\<close>, \<^verbatim>\<open>FaultManager.cpp\<close>).\<close>

definition role_label :: "DIGSInstanceRole \<Rightarrow> DIGSInstanceLabel" where
  "role_label ro = (case ro of UN_DEF_INSTANCE \<Rightarrow> PREFILL_PREFER | PREFILL_INSTANCE \<Rightarrow> PREFILL_STATIC
     | DECODE_INSTANCE \<Rightarrow> DECODE_STATIC | FLEX_INSTANCE \<Rightarrow> FLEX_STATIC)"

definition controller_labels :: "DIGSInstanceInfo list \<Rightarrow> bool" where
  "controller_labels is \<longleftrightarrow> (\<forall>i \<in> set is. ins_label i = role_label (ins_role i))"

lemma labels_ok_controller: "controller_labels is \<Longrightarrow> \<forall>i \<in> set is. ins_role i \<noteq> FLEX_INSTANCE \<Longrightarrow> labels_ok is"
proof -
  assume "controller_labels is" "\<forall>i \<in> set is. ins_role i \<noteq> FLEX_INSTANCE"
  then have st: "ins_label i = PREFILL_STATIC" if "i \<in> set is" "ins_role i \<noteq> DECODE_INSTANCE" "ins_label i \<noteq> PREFILL_PREFER" for i
    using that by (cases "ins_role i") (auto simp: controller_labels_def role_label_def)
  have "ins_label i = ins_label j" if "i \<in> set is" "j \<in> set is" "ins_role i \<noteq> DECODE_INSTANCE" "ins_role j \<noteq> DECODE_INSTANCE"
      "ins_label i \<noteq> PREFILL_PREFER" "ins_label j \<noteq> PREFILL_PREFER" for i j
    unfolding st [OF that(1,3,5)] st [OF that(2,4,6)] ..
  moreover have "ins_label i = ins_label j" if "i \<in> set is" "j \<in> set is" "ins_role i = ins_role j" for i j
    using that \<open>controller_labels is\<close> by (simp add: controller_labels_def)
  ultimately show ?thesis unfolding labels_ok_def sortable_def by blast
qed

lemma two_labels: "a \<in> {PREFILL_PREFER, DECODE_PREFER} \<Longrightarrow> b \<in> {PREFILL_PREFER, DECODE_PREFER} \<Longrightarrow> x \<in> {PREFILL_PREFER, DECODE_PREFER}
   \<Longrightarrow> a \<noteq> x \<Longrightarrow> b \<noteq> x \<Longrightarrow> a = b"
  by (elim insertE emptyE) simp_all

lemma labels_ok_prefer: "\<forall>i \<in> set is. ins_label i \<in> {PREFILL_PREFER, DECODE_PREFER} \<Longrightarrow> labels_ok is"
proof -
  assume p: "\<forall>i \<in> set is. ins_label i \<in> {PREFILL_PREFER, DECODE_PREFER}"
  have x: "x \<in> {PREFILL_PREFER, DECODE_PREFER} \<Longrightarrow> i \<in> set is \<Longrightarrow> j \<in> set is \<Longrightarrow> ins_label i \<noteq> x \<Longrightarrow> ins_label j \<noteq> x
    \<Longrightarrow> ins_label i = ins_label j" for x i j
    by (rule two_labels [OF bspec [OF p] bspec [OF p]])
  have "sortable PREFILL_INSTANCE is" unfolding sortable_def
    by (intro ballI impI, rule x [of DECODE_PREFER]) (simp_all add: switch_label_def)
  moreover have "\<forall>i \<in> set is. \<forall>j \<in> set is. ins_role i \<noteq> DECODE_INSTANCE \<longrightarrow> ins_role j \<noteq> DECODE_INSTANCE
      \<longrightarrow> ins_label i \<noteq> PREFILL_PREFER \<longrightarrow> ins_label j \<noteq> PREFILL_PREFER \<longrightarrow> ins_label i = ins_label j"
    by (intro ballI impI, rule x [of PREFILL_PREFER]) simp_all
  ultimately show ?thesis unfolding labels_ok_def ..
qed

lemma labels_ok_sortable: "labels_ok is \<Longrightarrow> ro \<in> {PREFILL_INSTANCE, DECODE_INSTANCE} \<Longrightarrow> sortable ro is"
proof -
  assume l: "labels_ok is" and "ro \<in> {PREFILL_INSTANCE, DECODE_INSTANCE}"
  then consider "ro = PREFILL_INSTANCE" | "ro = DECODE_INSTANCE" by blast
  then show ?thesis
  proof cases
    case 2
    then have "switch_label ro = Some PREFILL_PREFER" by (simp add: switch_label_def)
    with l 2 show ?thesis unfolding labels_ok_def sortable_def by simp
  qed (use l in \<open>simp add: labels_ok_def\<close>)
qed

lemma labels_ok_filter: "labels_ok is \<Longrightarrow> labels_ok (filter Q is)"
  unfolding labels_ok_def sortable_def by simp

lemma role_exhaust: "ro \<in> {PREFILL_INSTANCE, DECODE_INSTANCE} \<Longrightarrow> q \<noteq> FLEX_INSTANCE \<Longrightarrow> q \<noteq> ro
   \<Longrightarrow> q \<in> {UN_DEF_INSTANCE, if ro = PREFILL_INSTANCE then DECODE_INSTANCE else PREFILL_INSTANCE}"
  by (cases q) auto

lemma get_role:
  assumes srt: "std_sort srt" and g: "plain_group is" and lab: "sortable ro is" and ro: "ro \<in> {PREFILL_INSTANCE, DECODE_INSTANCE}"
    and k: "unat num + nrole ro is \<le> length is"
  shows "\<exists>sel. GetRoleDecision srt ds is num ro = Some (ds @ map (\<lambda>i. decide i ro 0) sel, map (fold apply_dc (ds @ map (\<lambda>i. decide i ro 0) sel)) is)
    \<and> set sel \<subseteq> {i \<in> set is. ins_role i \<noteq> ro} \<and> distinct sel \<and> length sel = unat num
    \<and> nrole UN_DEF_INSTANCE sel = min (unat num) (nrole UN_DEF_INSTANCE is)"
proof -
  let ?c = "filter (\<lambda>i. ins_role i \<noteq> ro \<and> ins_role i \<noteq> FLEX_INSTANCE) is"
  let ?other = "if ro = PREFILL_INSTANCE then DECODE_INSTANCE else PREFILL_INSTANCE"
  let ?l = "if ro = PREFILL_INSTANCE then DECODE_PREFER else PREFILL_PREFER"
  let ?s = "srt (ins_comp ?l) ?c"
  have c: "?c = filter (\<lambda>i. ins_role i \<noteq> ro) is" using g by (auto simp: plain_group_def intro: filter_cong)
  have sl: "switch_label ro = Some ?l" using ro by (auto simp: switch_label_def)
  have A: "\<forall>i \<in> set ?c. ins_role i \<in> {UN_DEF_INSTANCE, ?other}" using role_exhaust [OF ro] g by (auto simp: plain_group_def)
  have B: "\<forall>i \<in> set ?c. \<forall>j \<in> set ?c. ins_role i = ins_role j \<longrightarrow> ins_label i \<noteq> ?l \<longrightarrow> ins_label j \<noteq> ?l \<longrightarrow> ins_label i = ins_label j"
  proof (intro ballI impI)
    fix i j
    assume i: "i \<in> set ?c" and j: "j \<in> set ?c" and eq: "ins_role i = ins_role j" and l: "ins_label i \<noteq> ?l" "ins_label j \<noteq> ?l"
    have "switch_label ro \<noteq> Some (ins_label i)" "switch_label ro \<noteq> Some (ins_label j)" unfolding sl using l by (auto simp del: if_split)
    with i j eq lab show "ins_label i = ins_label j" unfolding sortable_def by simp
  qed
  note sw = ins_comp_strict_weak [OF A B]
  have s: "mset ?s = mset ?c" "set ?s = set ?c" using std_sort.mset_srt [OF srt sw] std_sort.set_srt [OF srt sw] by simp_all
  have d: "distinct ?s" using g std_sort.distinct_srt [OF srt sw] by (simp add: plain_group_def distinct_map)
  have len: "length ?s = length is - nrole ro is"
    using mset_eq_length [OF s(1)] sum_length_filter_compl [of "\<lambda>i. ins_role i = ro" "is"] by (simp add: c nrole_def)
  have "sorted_wrt (\<lambda>a b. \<not> (ins_role b = UN_DEF_INSTANCE \<and> \<not> ins_role a = UN_DEF_INSTANCE)) ?s"
    by (rule sorted_wrt_mono_rel [OF _ std_sort.sorted_srt [OF srt sw]]) (auto simp: ins_comp_def split: if_splits)
  from filter_take_prefix [OF this, of "unat num"]
  have u: "nrole UN_DEF_INSTANCE (take (unat num) ?s) = min (unat num) (nrole UN_DEF_INSTANCE ?s)" by (simp add: nrole_def)
  have "nrole UN_DEF_INSTANCE ?s = nrole UN_DEF_INSTANCE is"
    using arg_cong [OF s(1), of "\<lambda>m. size (filter_mset (\<lambda>i. ins_role i = UN_DEF_INSTANCE) m)"] ro
    by (auto simp: nrole_def c simp flip: mset_filter intro!: arg_cong [where f = length] filter_cong)
  moreover note sl
  moreover have "set (take (unat num) ?s) \<subseteq> {i \<in> set is. ins_role i \<noteq> ro}" using s(2) set_take_subset [of "unat num" ?s] by auto
  ultimately show ?thesis using d len k u g
    by (intro exI [of _ "take (unat num) ?s"])
      (auto simp: GetRoleDecision_def SelectSwitchPDInstance_def SortInstance_def RefreshInstanceRole_map plain_group_def)
qed

lemma nrole_total: "\<forall>i \<in> set is. ins_role i \<noteq> FLEX_INSTANCE \<Longrightarrow>
    nrole UN_DEF_INSTANCE is + nrole PREFILL_INSTANCE is + nrole DECODE_INSTANCE is = length is"
proof (induction "is")
  case (Cons i "is")
  then show ?case by (cases "ins_role i") (auto simp: nrole_def)
qed (simp add: nrole_def)

lemma nrole_none: "set sel \<subseteq> {i \<in> A. ins_role i \<noteq> ro} \<Longrightarrow> nrole ro sel = 0"
  by (auto simp: nrole_def filter_empty_conv)

lemma count_role_unat: "plain_group is \<Longrightarrow> unat (count_role ro is) = nrole ro is"
proof -
  assume "plain_group is"
  then have "nrole ro is < 2 ^ 64"
    unfolding plain_group_def nrole_def by (meson length_filter_le order_le_less_trans)
  then show ?thesis by (simp add: count_role_def nrole_def unat_of_nat)
qed

lemma chg_plain: "plain_group is \<Longrightarrow> ro \<noteq> FLEX_INSTANCE \<Longrightarrow> plain_group (map (chg ro sel) is)"
  unfolding plain_group_def by (simp add: o_def) (simp add: chg_def)

text \<open>The effect of raising the number of one role: the result, and how many instances lose which role.\<close>

lemma get_more_raise:
  assumes srt: "std_sort srt" and g: "plain_group is" and lab: "sortable ro is" and ro: "ro \<in> {PREFILL_INSTANCE, DECODE_INSTANCE}"
    and lt: "actual < dest" "unat actual = nrole ro is" "unat dest \<le> length is"
    and stable: "map (fold apply_dc ds) is = is"
  shows "\<exists>sel. get_more srt dest actual ro (ds, is) = Some (ds @ map (\<lambda>i. decide i ro 0) sel, map (chg ro sel) is)
    \<and> set sel \<subseteq> {i \<in> set is. ins_role i \<noteq> ro} \<and> distinct sel \<and> length sel = unat dest - nrole ro is
    \<and> nrole UN_DEF_INSTANCE sel = min (unat dest - nrole ro is) (nrole UN_DEF_INSTANCE is)
    \<and> nrole ro (map (chg ro sel) is) = unat dest"
proof -
  have num: "unat (dest - actual) = unat dest - nrole ro is" using lt(1,2) by (simp add: unat_sub less_imp_le)
  then have "unat (dest - actual) + nrole ro is \<le> length is" using lt by (simp add: word_less_nat_alt)
  from get_role [OF srt g lab ro this, of ds] num obtain sel where
    sel: "GetRoleDecision srt ds is (dest - actual) ro = Some (ds @ map (\<lambda>i. decide i ro 0) sel, map (fold apply_dc (ds @ map (\<lambda>i. decide i ro 0) sel)) is)"
    "set sel \<subseteq> {i \<in> set is. ins_role i \<noteq> ro}" "distinct sel" "length sel = unat dest - nrole ro is"
    "nrole UN_DEF_INSTANCE sel = min (unat dest - nrole ro is) (nrole UN_DEF_INSTANCE is)" by auto
  have "map (fold apply_dc (ds @ map (\<lambda>i. decide i ro 0) sel)) is = map (chg ro sel) (map (fold apply_dc ds) is)"
    by (simp add: fold_apply_decide)
  then have eq: "map (fold apply_dc (ds @ map (\<lambda>i. decide i ro 0) sel)) is = map (chg ro sel) is" unfolding stable .
  have "nrole ro (map (chg ro sel) is) = unat dest" using nrole_chg(1) [OF _ sel(2,3)] g sel(4) lt by (simp add: plain_group_def word_less_nat_alt)
  then show ?thesis using sel lt(1) unfolding eq by (auto simp: get_more_def)
qed

lemma sel_split:
  assumes "plain_group is" "set sel \<subseteq> {i \<in> set is. ins_role i \<noteq> ro}"
  shows "nrole UN_DEF_INSTANCE sel + nrole PREFILL_INSTANCE sel + nrole DECODE_INSTANCE sel = length sel" "nrole ro sel = 0"
  using assms by (auto intro!: nrole_total nrole_none [of sel "set is" ro] simp: plain_group_def)

lemma get_more_skip: "\<not> actual < dest \<Longrightarrow> get_more srt dest actual ro acc = Some acc"
  by (simp add: get_more_def)

text \<open>Instances without a role have become prefill instances; the candidates for the decode role can still be ordered.\<close>

lemma chg_sortable:
  assumes "plain_group is" "labels_ok is" "set sel \<subseteq> {i \<in> set is. ins_role i \<noteq> PREFILL_INSTANCE}" "nrole DECODE_INSTANCE sel = 0"
  shows "sortable DECODE_INSTANCE (map (chg PREFILL_INSTANCE sel) is)"
proof -
  have sel: "ins_role i \<noteq> DECODE_INSTANCE" if "i \<in> set sel" for i
    using assms(4) that by (auto simp: nrole_def filter_empty_conv)
  have "set sel \<subseteq> set is" using assms(3) by auto
  then have "ins_role (chg PREFILL_INSTANCE sel i) = (if i \<in> set sel then PREFILL_INSTANCE else ins_role i)" if "i \<in> set is" for i
    using assms(1) that by (intro chg_role) (simp_all add: plain_group_def)
  then have "ins_role i \<noteq> DECODE_INSTANCE" if "i \<in> set is" "ins_role (chg PREFILL_INSTANCE sel i) \<noteq> DECODE_INSTANCE" for i
    using that sel by (auto split: if_splits)
  moreover have "ins_label i = ins_label j" if "i \<in> set is" "j \<in> set is" "ins_role i \<noteq> DECODE_INSTANCE" "ins_role j \<noteq> DECODE_INSTANCE"
      "ins_label i \<noteq> PREFILL_PREFER" "ins_label j \<noteq> PREFILL_PREFER" for i j
    using assms(2) that unfolding labels_ok_def by blast
  ultimately show ?thesis unfolding sortable_def by (simp add: switch_label_def)
qed

text \<open>What a group is owed: the numbers of the ratio, reached by the decisions that were issued, with as few of them as possible.\<close>

definition reaches :: "DIGSGroupPDRatio \<Rightarrow> DIGSInstanceInfo list \<Rightarrow> DIGSRoleDecision list \<times> DIGSInstanceInfo list \<Rightarrow> bool" where
  "reaches r is res \<longleftrightarrow> (case res of (ds, is') \<Rightarrow>
     nrole PREFILL_INSTANCE is' = unat (pNum r) \<and> nrole DECODE_INSTANCE is' = unat (dNum r)
     \<and> is' = map (fold apply_dc ds) is
     \<and> length ds = (unat (pNum r) - nrole PREFILL_INSTANCE is) + (unat (dNum r) - nrole DECODE_INSTANCE is))"

lemma plain_map_id: "map (fold apply_dc []) is = is"
  by simp

lemma raise_decode_only:
  assumes srt: "std_sort srt" and g: "plain_group is" and lab: "labels_ok is" and sum: "unat (pNum r) + unat (dNum r) = length is"
    and p: "unat (pNum r) \<le> nrole PREFILL_INSTANCE is" and lt: "count_role DECODE_INSTANCE is < dNum r"
  shows "\<exists>res. get_more srt (dNum r) (count_role DECODE_INSTANCE is) DECODE_INSTANCE ([], is) = Some res \<and> reaches r is res"
proof -
  have "unat (dNum r) \<le> length is" using sum by simp
  from get_more_raise [OF srt g labels_ok_sortable [OF lab] _ lt count_role_unat [OF g] this plain_map_id] obtain sel where
    sel: "get_more srt (dNum r) (count_role DECODE_INSTANCE is) DECODE_INSTANCE ([], is) = Some ([] @ map (\<lambda>i. decide i DECODE_INSTANCE 0) sel, map (chg DECODE_INSTANCE sel) is)"
    "set sel \<subseteq> {i \<in> set is. ins_role i \<noteq> DECODE_INSTANCE}" "distinct sel" "length sel = unat (dNum r) - nrole DECODE_INSTANCE is"
    "nrole UN_DEF_INSTANCE sel = min (unat (dNum r) - nrole DECODE_INSTANCE is) (nrole UN_DEF_INSTANCE is)"
    "nrole DECODE_INSTANCE (map (chg DECODE_INSTANCE sel) is) = unat (dNum r)" by auto
  have tot: "nrole UN_DEF_INSTANCE is + nrole PREFILL_INSTANCE is + nrole DECODE_INSTANCE is = length is" using g by (intro nrole_total) (simp add: plain_group_def)
  have "nrole PREFILL_INSTANCE (map (chg DECODE_INSTANCE sel) is) + nrole PREFILL_INSTANCE sel = nrole PREFILL_INSTANCE is"
    using nrole_chg(2) [OF _ sel(2,3)] g by (simp add: plain_group_def)
  then have "nrole PREFILL_INSTANCE (map (chg DECODE_INSTANCE sel) is) = unat (pNum r)"
    using sel_split [OF g sel(2)] sel(4,5) tot sum p by linarith
  then show ?thesis using sel p by (simp add: reaches_def fold_apply_decide)
qed

lemma raise_prefill:
  assumes srt: "std_sort srt" and g: "plain_group is" and lab: "labels_ok is" and sum: "unat (pNum r) + unat (dNum r) = length is"
    and lt: "count_role PREFILL_INSTANCE is < pNum r"
  shows "\<exists>res. Option.bind (get_more srt (pNum r) (count_role PREFILL_INSTANCE is) PREFILL_INSTANCE ([], is))
      (get_more srt (dNum r) (count_role DECODE_INSTANCE is) DECODE_INSTANCE) = Some res \<and> reaches r is res"
proof -
  have "unat (pNum r) \<le> length is" using sum by simp
  from get_more_raise [OF srt g labels_ok_sortable [OF lab] _ lt count_role_unat [OF g] this plain_map_id] obtain sel where
    sel: "get_more srt (pNum r) (count_role PREFILL_INSTANCE is) PREFILL_INSTANCE ([], is) = Some ([] @ map (\<lambda>i. decide i PREFILL_INSTANCE 0) sel, map (chg PREFILL_INSTANCE sel) is)"
    "set sel \<subseteq> {i \<in> set is. ins_role i \<noteq> PREFILL_INSTANCE}" "distinct sel" "length sel = unat (pNum r) - nrole PREFILL_INSTANCE is"
    "nrole UN_DEF_INSTANCE sel = min (unat (pNum r) - nrole PREFILL_INSTANCE is) (nrole UN_DEF_INSTANCE is)"
    "nrole PREFILL_INSTANCE (map (chg PREFILL_INSTANCE sel) is) = unat (pNum r)" by auto
  let ?is = "map (chg PREFILL_INSTANCE sel) is" and ?ds = "map (\<lambda>i. decide i PREFILL_INSTANCE 0) sel"
  have tot: "nrole UN_DEF_INSTANCE is + nrole PREFILL_INSTANCE is + nrole DECODE_INSTANCE is = length is" using g by (intro nrole_total) (simp add: plain_group_def)
  have D: "nrole DECODE_INSTANCE ?is + nrole DECODE_INSTANCE sel = nrole DECODE_INSTANCE is"
    and U: "nrole UN_DEF_INSTANCE ?is + nrole UN_DEF_INSTANCE sel = nrole UN_DEF_INSTANCE is"
    using nrole_chg(2) [OF _ sel(2,3)] g by (simp_all add: plain_group_def)
  have p0: "nrole PREFILL_INSTANCE is < unat (pNum r)" using lt count_role_unat [OF g] by (simp add: word_less_nat_alt)
  note split = sel_split [OF g sel(2)]
  show ?thesis
  proof (cases "count_role DECODE_INSTANCE is < dNum r")
    case False
    then have "unat (dNum r) \<le> nrole DECODE_INSTANCE is" using count_role_unat [OF g] by (simp add: word_less_nat_alt)
    then have "nrole DECODE_INSTANCE ?is = unat (dNum r)" using D split sel(4,5) tot sum p0 by linarith
    with False sel \<open>unat (dNum r) \<le> _\<close> show ?thesis by (simp add: get_more_skip reaches_def fold_apply_decide)
  next
    case True
    then have d0: "nrole DECODE_INSTANCE is < unat (dNum r)" using count_role_unat [OF g] by (simp add: word_less_nat_alt)
    then have c: "nrole DECODE_INSTANCE sel = 0" "nrole DECODE_INSTANCE ?is = nrole DECODE_INSTANCE is"
      "nrole UN_DEF_INSTANCE ?is = unat (dNum r) - nrole DECODE_INSTANCE is" using D U split sel(4,5) tot sum p0 by linarith+
    have g': "plain_group ?is" using g by (rule chg_plain) simp
    have l': "sortable DECODE_INSTANCE ?is" by (rule chg_sortable [OF g lab sel(2)]) (use split c(1) in simp_all)
    have "unat (dNum r) \<le> length ?is" "unat (count_role DECODE_INSTANCE is) = nrole DECODE_INSTANCE ?is"
      "map (fold apply_dc ?ds) ?is = ?is" using sum c(2) count_role_unat [OF g] by (simp_all add: fold_apply_decide chg_idem)
    from get_more_raise [OF srt g' l' _ True this(2,1,3)] obtain sel2 where
      sel2: "get_more srt (dNum r) (count_role DECODE_INSTANCE is) DECODE_INSTANCE (?ds, ?is) = Some (?ds @ map (\<lambda>i. decide i DECODE_INSTANCE 0) sel2, map (chg DECODE_INSTANCE sel2) ?is)"
      "set sel2 \<subseteq> {i \<in> set ?is. ins_role i \<noteq> DECODE_INSTANCE}" "distinct sel2" "length sel2 = unat (dNum r) - nrole DECODE_INSTANCE ?is"
      "nrole UN_DEF_INSTANCE sel2 = min (unat (dNum r) - nrole DECODE_INSTANCE ?is) (nrole UN_DEF_INSTANCE ?is)"
      "nrole DECODE_INSTANCE (map (chg DECODE_INSTANCE sel2) ?is) = unat (dNum r)" by auto
    have "nrole PREFILL_INSTANCE (map (chg DECODE_INSTANCE sel2) ?is) + nrole PREFILL_INSTANCE sel2 = nrole PREFILL_INSTANCE ?is"
      using nrole_chg(2) [OF _ sel2(2,3)] g' by (simp add: plain_group_def)
    moreover have "nrole PREFILL_INSTANCE sel2 = 0" using sel_split [OF g' sel2(2)] sel2(4,5) c by linarith
    ultimately have "nrole PREFILL_INSTANCE (map (chg DECODE_INSTANCE sel2) ?is) = unat (pNum r)" using sel(6) by simp
    then show ?thesis using sel(1,4) sel2(1,4,6) c(2) by (simp add: reaches_def fold_apply_decide o_def)
  qed
qed

lemma group_roles_reaches:
  assumes "std_sort srt" "plain_group is" "labels_ok is" "flexNum r = 0" "unat (pNum r) + unat (dNum r) = length is"
  shows "\<exists>res. group_roles srt r is = Some res \<and> reaches r is res"
proof (cases "count_role PREFILL_INSTANCE is < pNum r")
  case True
  from raise_prefill [OF assms(1,2,3,5) True] assms(4) show ?thesis by (simp add: group_roles_def GetFlexRoleDecision_def)
next
  case False
  then have p: "unat (pNum r) \<le> nrole PREFILL_INSTANCE is" using count_role_unat [OF assms(2)] by (simp add: word_less_nat_alt)
  show ?thesis
  proof (cases "count_role DECODE_INSTANCE is < dNum r")
    case True
    from raise_decode_only [OF assms(1,2,3,5) p True] False assms(4) show ?thesis by (simp add: group_roles_def GetFlexRoleDecision_def get_more_skip)
  next
    case d: False
    then have "unat (dNum r) \<le> nrole DECODE_INSTANCE is" using count_role_unat [OF assms(2)] by (simp add: word_less_nat_alt)
    moreover have "nrole UN_DEF_INSTANCE is + nrole PREFILL_INSTANCE is + nrole DECODE_INSTANCE is = length is"
      using assms(2) by (intro nrole_total) (simp add: plain_group_def)
    ultimately show ?thesis using d False p assms(4,5) by (simp add: group_roles_def GetFlexRoleDecision_def get_more_skip reaches_def)
  qed
qed

definition ex_role_ins :: "u64 \<Rightarrow> DIGSInstanceRole \<Rightarrow> DIGSInstanceInfo" where
  "ex_role_ins k ro = \<lparr>staticInfo = (default_static k 0)\<lparr>st_role := ro, st_label := role_label ro\<rparr>, dynamicInfo = default_dynamic k,
     scheduleInfo = \<lparr>sc_id = k, sc_allocatedSlots = 0, sc_allocatedBlocks = 0\<rparr>\<rparr>"

definition ex_group :: "DIGSInstanceInfo list" where
  "ex_group = [ex_role_ins 1 DECODE_INSTANCE, ex_role_ins 2 DECODE_INSTANCE, ex_role_ins 3 PREFILL_INSTANCE, ex_role_ins 4 PREFILL_INSTANCE]"

definition ex_manager :: InstanceRoleManager where
  "ex_manager = new_InstanceRoleManager (\<lambda>_. None) (\<lambda>_. None) ex_pcalc"

lemma ex_group_plain: "plain_group ex_group" "controller_labels ex_group"
  by (simp_all add: plain_group_def controller_labels_def ex_group_def ex_role_ins_def default_static_def)

text \<open>C13: in a group of distinct instances without flex instances \<^verbatim>\<open>AssignRole\<close> never indexes past the candidates, and after it exactly \<^verbatim>\<open>pNum\<close> instances have
  the prefill role and \<^verbatim>\<open>dNum\<close> the decode role, for every ratio that adds up to the group and whatever roles the instances had. The
  decisions it sends to the notifier produce those roles, and their number is the least possible: one for every instance that a role was
  short of. The labels are those the controller gives (the static label of its role for an instance that has one, the default
  for one without), or any others that the comparator can order, such as the two preferences in any mixture.
\<close>

theorem assign_role_reaches_ratio:
  assumes "std_sort srt" "plain_group is" "controller_labels is \<or> labels_ok is" "flexNum r = 0" "unat (pNum r) + unat (dNum r) = length is"
  shows "\<exists>ds is' m'. AssignRole srt acc g is r m = Some (acc @ ds, is', m') \<and> notified m' = notified m @ [acc @ ds]
    \<and> nrole PREFILL_INSTANCE is' = unat (pNum r) \<and> nrole DECODE_INSTANCE is' = unat (dNum r) \<and> is' = map (fold apply_dc ds) is
    \<and> length ds = (unat (pNum r) - nrole PREFILL_INSTANCE is) + (unat (dNum r) - nrole DECODE_INSTANCE is)"
proof -
  have "labels_ok is" using assms(2,3) labels_ok_controller by (auto simp: plain_group_def)
  then obtain ds is' where "group_roles srt (r\<lparr>gr_groupId := g\<rparr>) is = Some (ds, is')" "reaches (r\<lparr>gr_groupId := g\<rparr>) is (ds, is')"
    using group_roles_reaches [of srt "is" "r\<lparr>gr_groupId := g\<rparr>"] assms by auto
  then show ?thesis by (auto simp: AssignRole_def reaches_def notify_def)
qed

theorem assign_role_reaches_ratio_witness:
  "\<exists>ds is' m'. AssignRole stable_sort [] 0 ex_group (zero_ratio\<lparr>pNum := 1, dNum := 3\<rparr>) ex_manager = Some ([] @ ds, is', m')
    \<and> notified m' = notified ex_manager @ [[] @ ds]
    \<and> nrole PREFILL_INSTANCE is' = unat (pNum (zero_ratio\<lparr>pNum := 1, dNum := 3\<rparr>)) \<and> nrole DECODE_INSTANCE is' = unat (dNum (zero_ratio\<lparr>pNum := 1, dNum := 3\<rparr>))
    \<and> is' = map (fold apply_dc ds) ex_group
    \<and> length ds = (unat (pNum (zero_ratio\<lparr>pNum := 1, dNum := 3\<rparr>)) - nrole PREFILL_INSTANCE ex_group)
        + (unat (dNum (zero_ratio\<lparr>pNum := 1, dNum := 3\<rparr>)) - nrole DECODE_INSTANCE ex_group)"
  by (rule assign_role_reaches_ratio [OF stable.std_sort_axioms ex_group_plain(1) disjI1 [OF ex_group_plain(2)]]) (simp_all add: zero_ratio_def ex_group_def)

subsection \<open>The whole allocation\<close>

lemma omap_get_put: "omap_get d (omap_put k v m) k' = (if k' = k then v else omap_get d m k')"
  by (simp add: omap_get_def omap_simps)

lemma group_fold:
  assumes "omap_ok g0"
  defines "step \<equiv> \<lambda>i g. let k = st_groupId (staticInfo i) in omap_put k (omap_get [] g k @ [i]) g"
  shows "omap_ok (fold step infos g0)
    \<and> (\<forall>k. omap_get [] (fold step infos g0) k = omap_get [] g0 k @ filter (\<lambda>i. st_groupId (staticInfo i) = k) infos)"
  using assms(1)
proof (induction infos arbitrary: g0)
  case (Cons i infos)
  have "omap_ok (step i g0)" using Cons.prems by (auto simp: step_def Let_def)
  from Cons.IH [OF this] show ?case by (auto simp: step_def Let_def omap_get_put)
qed simp

lemma group_members:
  assumes "(g, is) \<in> set (GroupDIGSInstanceInfos infos)"
  shows "is = filter (\<lambda>i. st_groupId (staticInfo i) = g) infos"
proof -
  have G: "omap_ok (GroupDIGSInstanceInfos infos)" "omap_get [] (GroupDIGSInstanceInfos infos) g = filter (\<lambda>i. st_groupId (staticInfo i) = g) infos"
    using group_fold [of "[]" infos] by (simp_all add: GroupDIGSInstanceInfos_def omap_get_def)
  have "map_of (GroupDIGSInstanceInfos infos) g = Some is"
    using G(1) assms by (intro map_of_is_SomeI) (auto simp: omap_ok_def omap_keys_def strict_sorted_iff)
  with G(2) show ?thesis by (simp add: omap_get_def)
qed

lemma plain_filter: "plain_group is \<Longrightarrow> plain_group (filter Q is)"
  by (auto simp: plain_group_def distinct_map_filter intro: le_less_trans [OF length_filter_le])

lemma CalBestRatio_pd:
  assumes "in_type input = DIGS_ROLE_PD_RATIO"
  shows "\<exists>st r pc'. CalBestRatio mc sim pc input zero_ratio = Some (st, r, pc')
    \<and> (st = OK \<longrightarrow> flexNum r = 0 \<and> unat (pNum r) + unat (dNum r) = unat (in_instanceNum input))"
proof -
  have f: "flexNum (CalAbility s sm r) = flexNum r" "flexNum (sim_CalAbility s sm r) = flexNum r" for s sm r
    by (simp_all add: CalAbility_def sim_CalAbility_def Let_def)
  show ?thesis using assms
    by (auto simp: CalBestRatio_def ratio_of_type_def CalPdRatio_def Let_def f zero_ratio_def dest: pd_loop_sum split: prod.splits)
qed

lemma fold_apply_id [simp]: "ins_id (fold apply_dc ds i) = ins_id i"
  by (induction ds arbitrary: i) auto

definition settled :: "DIGSInstanceInfo list \<Rightarrow> u64 \<times> DIGSInstanceInfo list \<Rightarrow> bool" where
  "settled infos g \<longleftrightarrow> map ins_id (snd g) = map ins_id (filter (\<lambda>i. st_groupId (staticInfo i) = fst g) infos)
     \<and> nrole PREFILL_INSTANCE (snd g) + nrole DECODE_INSTANCE (snd g) = length (snd g)"

lemma allocate_settles:
  assumes srt: "std_sort srt" and g: "plain_group infos" and lab: "labels_ok infos"
  shows "ratioType m = DIGS_ROLE_PD_RATIO \<Longrightarrow> \<forall>(g, is) \<in> set gs. is = filter (\<lambda>i. st_groupId (staticInfo i) = g) infos
    \<Longrightarrow> \<exists>st gs' ds' m'. allocate_groups srt mc sim summary first gs ds m = Some (st, gs', ds', m')
      \<and> (st = OK \<longrightarrow> map fst gs' = map fst gs \<and> (\<forall>x \<in> set gs'. settled infos x))"
proof (induction gs arbitrary: ds m)
  case (Cons x gs)
  obtain g "is" where x: "x = (g, is)" by force
  then have is_def: "is = filter (\<lambda>i. st_groupId (staticInfo i) = g) infos" using Cons.prems(2) by simp
  have pl: "plain_group is" unfolding is_def using g by (rule plain_filter)
  have lb: "labels_ok is" unfolding is_def using lab by (rule labels_ok_filter)
  let ?in = "pd_input m (of_nat (length is)) summary first"
  obtain st r pc' where c: "CalBestRatio mc sim (proportionCalculator m) ?in zero_ratio = Some (st, r, pc')"
    "st = OK \<Longrightarrow> flexNum r = 0 \<and> unat (pNum r) + unat (dNum r) = unat (in_instanceNum ?in)"
    using CalBestRatio_pd [of ?in mc sim "proportionCalculator m"] Cons.prems(1) by (auto simp: pd_input_def)
  show ?case
  proof (cases "st = OK")
    case False
    with c(1) show ?thesis by (simp add: x)
  next
    case True
    let ?r = "r\<lparr>gr_groupId := g\<rparr>"
    have r: "flexNum ?r = 0" "unat (pNum ?r) + unat (dNum ?r) = length is"
      using c(2) [OF True] pl by (simp_all add: pd_input_def plain_group_def unat_of_nat)
    obtain new is' where gr: "group_roles srt ?r is = Some (new, is')" "reaches ?r is (new, is')"
      using group_roles_reaches [OF srt pl lb r] by auto
    obtain m' where m': "AssignRole srt ds g is r (if first then m\<lparr>proportionCalculator := pc', globalPDRatios := r\<rparr> else m\<lparr>proportionCalculator := pc'\<rparr>)
        = Some (ds @ new, is', m')" "ratioType m' = ratioType m"
      using gr(1) by (auto simp: AssignRole_def notify_def)
    have "map ins_id is' = map ins_id is" "nrole PREFILL_INSTANCE is' + nrole DECODE_INSTANCE is' = length is'"
      using gr(2) r(2) by (auto simp: reaches_def)
    then have "settled infos (g, is')" by (simp add: settled_def flip: is_def)
    with Cons.IH [of m' "ds @ new"] Cons.prems m' c(1) True show ?thesis by (fastforce simp: x)
  qed
qed simp

text \<open>C14: a decision over all collected instances with distinct identifiers, the first one as well as the periodic ones, always returns in
  the mode without flex instances, and when it succeeds every group of the collected instances is settled: its members are those with its identifier, and each of
  them is a prefill or a decode instance afterwards. The instances carry the labels the controller gives them, before their first
  role and after it, or any others that the comparator can order.
\<close>

theorem role_cycle_settles:
  assumes "std_sort srt" "plain_group infos" "controller_labels infos \<or> labels_ok infos" "ratioType m = DIGS_ROLE_PD_RATIO"
  shows "\<exists>st gs' ds m'. AllocateInstanceRole srt mc sim (GroupDIGSInstanceInfos infos) summary [] first m = Some (st, gs', ds, m')
    \<and> (st = OK \<longrightarrow> map fst gs' = map fst (GroupDIGSInstanceInfos infos) \<and> (\<forall>x \<in> set gs'. settled infos x))"
proof -
  have "\<forall>(g, is) \<in> set (GroupDIGSInstanceInfos infos). is = filter (\<lambda>i. st_groupId (staticInfo i) = g) infos"
    using group_members by blast
  moreover have "labels_ok infos" using assms(2,3) labels_ok_controller by (auto simp: plain_group_def)
  ultimately show ?thesis
    using allocate_settles [OF assms(1,2) _ assms(4), of _ mc sim summary first "[]"] by (simp add: AllocateInstanceRole_def)
qed

lemma ex_group_groups: "GroupDIGSInstanceInfos ex_group = [(0, ex_group)]"
  by (simp add: GroupDIGSInstanceInfos_def ex_group_def ex_role_ins_def default_static_def omap_get_def)

lemma ex_allocation_OK:
  assumes "AllocateInstanceRole srt mc ex_sim [(0, ex_group)] (in_summary ex_pinput) [] True ex_manager = Some (st, rest)"
  shows "st = OK"
proof -
  let ?in = "pd_input ex_manager (of_nat (length ex_group)) (in_summary ex_pinput) True"
  have "\<exists>r pc. CalBestRatio mc ex_sim ex_pcalc ?in zero_ratio = Some (OK, r, pc)"
    using ex_ability_ok [of zero_ratio]
    by (auto simp: CalBestRatio_def ratio_of_type_def CalPdRatio_def ex_pcalc_def ex_pinput_def pd_input_def ex_manager_def
        new_InstanceRoleManager_def ex_ability Let_def split: prod.splits)
  then show ?thesis using assms
    by (auto simp: AllocateInstanceRole_def ex_manager_def new_InstanceRoleManager_def split: if_splits option.splits)
      (simp add: ex_pinput_def)+
qed

theorem role_cycle_settles_witness:
  "\<exists>gs' ds m'. AllocateInstanceRole stable_sort (\<lambda>x. (EOK, x)) ex_sim (GroupDIGSInstanceInfos ex_group) (in_summary ex_pinput) [] True ex_manager
      = Some (OK, gs', ds, m')
    \<and> map fst gs' = [0] \<and> (\<forall>x \<in> set gs'. settled ex_group x)"
proof -
  have "ratioType ex_manager = DIGS_ROLE_PD_RATIO" by (simp add: ex_manager_def new_InstanceRoleManager_def)
  from role_cycle_settles [OF stable.std_sort_axioms ex_group_plain(1) disjI1 [OF ex_group_plain(2)] this, of "\<lambda>x. (EOK, x)" ex_sim "in_summary ex_pinput" True]
  show ?thesis using ex_allocation_OK unfolding ex_group_groups by fastforce
qed

text \<open>With a flex instance the numbers can be missed. \<^verbatim>\<open>AssignRole\<close> counts the prefill and decode instances before it turns the last
  instance of the group into a flex instance, so the role that instance had is not filled up again: a group of two decode and
  two prefill instances with the target of two prefill, one decode and one flex instance ends with one prefill and two decode
  instances.
\<close>

lemma flex_group_misses_ratio:
  "\<exists>ds is'. group_roles srt (zero_ratio\<lparr>pNum := 2, dNum := 1, flexNum := 1\<rparr>) ex_group = Some (ds, is')
    \<and> nrole PREFILL_INSTANCE is' = 1 \<and> nrole DECODE_INSTANCE is' = 2 \<and> nrole FLEX_INSTANCE is' = 1"
proof -
  have "flex_percentage (Fin 0) = Some 0" by (simp add: flex_percentage_def FLEX_INSTANCE_P_PERCENTAGE_MAX_def f64_of_u64_exact f64_mul_def rat_trunc_def)
  then show ?thesis
    by (simp add: group_roles_def GetFlexRoleDecision_def get_more_def count_role_def zero_ratio_def ex_group_def ex_role_ins_def default_static_def
        flex_tail_def nrole_def set_role_def)
qed

end
