(* ===== verification/Role_Run.thy ===== *)
theory Role_Run
  imports Role_Assignment
begin

text \<open>
  The role manager over its life: it is constructed, initialised and then decides periodically. Every decision it ever sends out
  names a role, and carries a percentage that is at most one hundred and zero unless the role is flex.
\<close>

inductive role_run :: "ins_sort \<Rightarrow> memcpy \<Rightarrow> LlamaSimulator \<Rightarrow> InstanceRoleManager \<Rightarrow> bool" for srt mc sim where
  construct: "role_run srt mc sim (new_InstanceRoleManager conv cfg pc)"
| initialise: "role_run srt mc sim m \<Longrightarrow> Init srt mc sim junk infos summary pRate dRate m = Some (ok, p, d, m') \<Longrightarrow> role_run srt mc sim m'"
| cycle: "role_run srt mc sim m \<Longrightarrow> schedule_cycle srt mc sim collected m = Some m' \<Longrightarrow> role_run srt mc sim m'"

definition valid_dc :: "DIGSRoleDecision \<Rightarrow> bool" where
  "valid_dc dc \<longleftrightarrow> rd_role dc \<noteq> UN_DEF_INSTANCE \<and> rd_flexPRatio dc \<le> FLEX_INSTANCE_P_PERCENTAGE_MAX
     \<and> (rd_role dc \<noteq> FLEX_INSTANCE \<longrightarrow> rd_flexPRatio dc = 0)"

definition all_valid :: "InstanceRoleManager \<Rightarrow> bool" where
  "all_valid m \<longleftrightarrow> (\<forall>ds \<in> set (notified m). \<forall>dc \<in> set ds. valid_dc dc)"

subsection \<open>Percentages\<close>

lemma flex_percentage_unit: "unit_ratio x \<Longrightarrow> \<exists>w. flex_percentage x = Some w \<and> w \<le> FLEX_INSTANCE_P_PERCENTAGE_MAX"
proof -
  assume "unit_ratio x"
  then obtain q where q: "x = Fin q" "0 \<le> q" "q \<le> 1" by (auto simp: unit_ratio_Fin)
  have h: "f64_of_u64 FLEX_INSTANCE_P_PERCENTAGE_MAX = Fin 100" using f64_of_u64_exact [of 100] by (simp add: FLEX_INSTANCE_P_PERCENTAGE_MAX_def)
  have le: "f64_le (rnd64 0) (rnd64 (q * 100))" "f64_le (rnd64 (q * 100)) (rnd64 100)" using q by (intro rnd64_mono; simp)+
  then obtain r where r: "rnd64 (q * 100) = Fin r" "0 \<le> r" "r \<le> 100" by (cases "rnd64 (q * 100)") (auto simp: f64_le_def)
  then have t: "0 \<le> rat_trunc r" "rat_trunc r \<le> 100" by (simp_all add: rat_trunc_def floor_le_iff)
  then have "unat (word_of_int (rat_trunc r) :: u64) \<le> 100" by (simp add: unsigned_of_int take_bit_int_eq_self)
  then have "(word_of_int (rat_trunc r) :: u64) \<le> FLEX_INSTANCE_P_PERCENTAGE_MAX"
    by (simp add: word_le_nat_alt FLEX_INSTANCE_P_PERCENTAGE_MAX_def)
  then show ?thesis using t by (simp add: flex_percentage_def q(1) h f64_mul_def r(1))
qed

lemma valid_decide: "ro \<in> {PREFILL_INSTANCE, DECODE_INSTANCE} \<Longrightarrow> valid_dc (decide i ro 0)"
  "x \<le> FLEX_INSTANCE_P_PERCENTAGE_MAX \<Longrightarrow> valid_dc (decide i FLEX_INSTANCE x)"
  by (auto simp: valid_dc_def decide_def)

subsection \<open>Computed ratios\<close>

lemma flex_CalAbility: "gr_flexPRatio (CalAbility s sm r) = gr_flexPRatio r" "gr_flexPRatio (sim_CalAbility s sm r) = gr_flexPRatio r"
  by (simp_all add: CalAbility_def sim_CalAbility_def Let_def)

lemma CalPdflexRatio_unit:
  assumes "unit_ratio (gr_flexPRatio r)" "CalPdflexRatio mc pc input r = Some (st, r')"
  shows "unit_ratio (gr_flexPRatio r')"
proof -
  obtain st0 r0 where n: "CalPdflexNum (in_instanceNum input) (word_of_int (in_flexInstNum input)) r = Some (st0, r0)"
    using assms(2) by (auto simp: CalPdflexRatio_def split: option.splits)
  have u: "unit_ratio (gr_flexPRatio r0)" using assms(1) n by (rule CalPdflexNum_unit)
  let ?r = "r0\<lparr>pNum := pNum (ratioPre pc), dNum := dNum (ratioPre pc)\<rparr>"
  have "unit_ratio (gr_flexPRatio (fst (snd (CalFlexPRatioX ?r (Fin 0)))))"
    using CalFlexPRatioX_unit [of ?r "Fin 0"] u by (cases "CalFlexPRatioX ?r (Fin 0)") auto
  with assms(2) n u show ?thesis by (auto simp: CalPdflexRatio_def split: if_splits)
qed

lemma CalBestRatio_unit:
  assumes "CalBestRatio mc sim pc input zero_ratio = Some (st, r, pc')"
  shows "unit_ratio (gr_flexPRatio r)"
proof -
  let ?r = "sim_CalAbility sim (in_summary input) zero_ratio"
  have z: "unit_ratio (gr_flexPRatio ?r)" by (simp add: flex_CalAbility zero_ratio_def)
  have "unit_ratio (gr_flexPRatio r0)" if "ratio_of_type mc pc input ?r = Some (st0, r0)" for st0 r0
    using that z CalPdflexRatio_unit [OF z]
    by (auto simp: ratio_of_type_def CalPdRatio_def Let_def flex_CalAbility split: DIGSRatioType.splits if_splits prod.splits)
  with z assms show ?thesis by (auto simp: CalBestRatio_def Let_def split: if_splits option.splits)
qed

lemma InitBestRatio_unit:
  assumes "unit_ratio (gr_flexPRatio r)" "InitBestRatioWithExternInput mc pc input r = Some (st, r', pc')"
  shows "unit_ratio (gr_flexPRatio r')"
  using assms CalPdflexNum_unit [OF assms(1)]
  by (auto simp: InitBestRatioWithExternInput_def InitPdflexBestRatioWithExternInput_def InitPdBestRatioWithExternInput_def
      split: DIGSRatioType.splits option.splits if_splits prod.splits)

subsection \<open>Decisions\<close>

lemma flex_update_valid: "x \<le> FLEX_INSTANCE_P_PERCENTAGE_MAX \<Longrightarrow> dc \<in> set (flex_update dest x c is) \<Longrightarrow> valid_dc dc"
  by (induction dest x c "is" rule: flex_update.induct) (auto simp: valid_decide split: if_splits)

lemma GetFlex_valid:
  assumes "unit_ratio x" "GetFlexRoleDecision is n x = Some (ds, is')" "dc \<in> set ds"
  shows "valid_dc dc"
proof -
  obtain w where w: "flex_percentage x = Some w" "w \<le> FLEX_INSTANCE_P_PERCENTAGE_MAX" using flex_percentage_unit [OF assms(1)] by blast
  show ?thesis using assms(2,3) w flex_update_valid [OF w(2)]
    by (auto simp: GetFlexRoleDecision_def flex_tail_def Let_def valid_decide split: if_splits)
qed

lemma get_more_valid:
  assumes "get_more srt dest actual ro (ds, is) = Some (ds', is')" "ro \<in> {PREFILL_INSTANCE, DECODE_INSTANCE}" "\<forall>dc \<in> set ds. valid_dc dc"
  shows "\<forall>dc \<in> set ds'. valid_dc dc"
  using assms by (auto simp: get_more_def GetRoleDecision_def SelectSwitchPDInstance_def switch_label_def Let_def valid_decide split: if_splits)

lemma group_roles_valid:
  assumes "unit_ratio (gr_flexPRatio r)" "group_roles srt r is = Some (ds, is')"
  shows "\<forall>dc \<in> set ds. valid_dc dc"
proof -
  from assms(2) obtain a b c e where g: "GetFlexRoleDecision is (flexNum r) (gr_flexPRatio r) = Some (a, b)"
    "get_more srt (pNum r) (count_role PREFILL_INSTANCE is) PREFILL_INSTANCE (a, b) = Some (c, e)"
    "get_more srt (dNum r) (count_role DECODE_INSTANCE is) DECODE_INSTANCE (c, e) = Some (ds, is')"
    by (auto simp: group_roles_def bind_eq_Some_conv)
  have "\<forall>dc \<in> set a. valid_dc dc" using GetFlex_valid [OF assms(1) g(1)] by blast
  from get_more_valid [OF g(3) _ get_more_valid [OF g(2) _ this]] show ?thesis by simp
qed

lemma all_valid_notify: "all_valid (notify ds m) \<longleftrightarrow> all_valid m \<and> (\<forall>dc \<in> set ds. valid_dc dc)"
  by (auto simp: all_valid_def notify_def)

lemma all_valid_frame: "notified m' = notified m \<Longrightarrow> all_valid m' = all_valid m"
  by (simp add: all_valid_def)

lemma allocate_valid:
  assumes "allocate_groups srt mc sim summary first gs ds m = Some (st, gs', ds', m')" "all_valid m" "\<forall>dc \<in> set ds. valid_dc dc"
  shows "all_valid m' \<and> (\<forall>dc \<in> set ds'. valid_dc dc) \<and> isSkipDecisionForCrossNodeMode m' = isSkipDecisionForCrossNodeMode m"
  using assms
proof (induction gs arbitrary: ds m gs')
  case (Cons x gs)
  obtain g "is" where x: "x = (g, is)" by force
  obtain st0 r pc where c: "CalBestRatio mc sim (proportionCalculator m) (pd_input m (of_nat (length is)) summary first) zero_ratio = Some (st0, r, pc)"
    using Cons.prems(1) by (auto simp: x split: option.splits)
  show ?case
  proof (cases "st0 = OK")
    case False
    with Cons.prems c show ?thesis by (auto simp: x all_valid_def)
  next
    case True
    let ?m = "if first then m\<lparr>proportionCalculator := pc, globalPDRatios := r\<rparr> else m\<lparr>proportionCalculator := pc\<rparr>"
    obtain ds1 is1 m1 gs1 where a: "AssignRole srt ds g is r ?m = Some (ds1, is1, m1)"
      "allocate_groups srt mc sim summary first gs ds1 m1 = Some (st, gs1, ds', m')"
      using Cons.prems(1) c True by (auto simp: x Let_def split: option.splits)
    from a(1) obtain new where new: "group_roles srt (r\<lparr>gr_groupId := g\<rparr>) is = Some (new, is1)" "ds1 = ds @ new"
      by (auto simp: AssignRole_def Let_def)
    have v: "\<forall>dc \<in> set new. valid_dc dc" using group_roles_valid [OF _ new(1)] CalBestRatio_unit [OF c] by simp
    have "notified m1 = notified m @ [ds1]" "isSkipDecisionForCrossNodeMode m1 = isSkipDecisionForCrossNodeMode m"
      using a(1) by (cases first; auto simp: AssignRole_def Let_def notify_def)+
    moreover have vd: "\<forall>dc \<in> set ds1. valid_dc dc" using v new(2) Cons.prems(3) by auto
    ultimately have "all_valid m1" "isSkipDecisionForCrossNodeMode m1 = isSkipDecisionForCrossNodeMode m" using Cons.prems(2) by (simp_all add: all_valid_def)
    with Cons.IH [OF a(2) _ vd] show ?thesis by simp
  qed
qed (auto simp: all_valid_def)

lemma definite_roles_valid:
  "unit_ratio (gr_flexPRatio r) \<Longrightarrow> definite_roles r p d f is = Some (is', ds) \<Longrightarrow> \<forall>dc \<in> set ds. valid_dc dc"
proof (induction r p d f "is" arbitrary: is' ds rule: definite_roles.induct)
  case (2 r p d f i "is")
  obtain w where w: "flex_percentage (gr_flexPRatio r) = Some w" "w \<le> FLEX_INSTANCE_P_PERCENTAGE_MAX" using flex_percentage_unit [OF 2(5)] by blast
  show ?case using 2 w by (auto simp: valid_decide split: if_splits)
qed simp

lemma definite_groups_valid:
  assumes "definite_groups mc gs r ds m = Some (gs', ds', m')" "unit_ratio (gr_flexPRatio r)" "\<forall>dc \<in> set ds. valid_dc dc"
  shows "(\<forall>dc \<in> set ds'. valid_dc dc) \<and> notified m' = notified m \<and> isSkipDecisionForCrossNodeMode m' = isSkipDecisionForCrossNodeMode m"
  using assms
proof (induction gs arbitrary: r ds m gs')
  case (Cons x gs)
  obtain g "is" where x: "x = (g, is)" by force
  let ?in = "pd_input m (of_nat (length is)) \<lparr>inputLength = 0, outputLength = 0\<rparr> False"
  obtain st r1 pc is1 new gs1 where c: "InitBestRatioWithExternInput mc (proportionCalculator m) ?in r = Some (st, r1, pc)"
    "definite_roles r1 0 0 0 is = Some (is1, new)"
    "definite_groups mc gs r1 (ds @ new) (m\<lparr>proportionCalculator := pc, globalPDRatios := r1\<rparr>) = Some (gs1, ds', m')"
    using Cons.prems(1) by (auto simp: x split: option.splits)
  have u: "unit_ratio (gr_flexPRatio r1)" using InitBestRatio_unit [OF Cons.prems(2) c(1)] .
  have "\<forall>dc \<in> set (ds @ new). valid_dc dc" using definite_roles_valid [OF u c(2)] Cons.prems(3) by auto
  from Cons.IH [OF c(3) u this] show ?case by simp
qed simp

lemma definite_valid:
  assumes "AssignRoleByDefiniteRatio mc gs pA dA m = Some (gs', m')" "all_valid m"
  shows "all_valid m' \<and> isSkipDecisionForCrossNodeMode m' = isSkipDecisionForCrossNodeMode m"
proof -
  let ?r = "zero_ratio\<lparr>pAbility := f64_of_u64 pA, dAbility := f64_of_u64 dA, tAbility := T_ABILITY_INIT_VAL\<rparr>"
  obtain ds m1 where d: "definite_groups mc gs ?r [] m = Some (gs', ds, m1)" "m' = notify ds m1"
    using assms(1) by (auto simp: AssignRoleByDefiniteRatio_def split: option.splits)
  have "unit_ratio (gr_flexPRatio ?r)" by (simp add: zero_ratio_def)
  from definite_groups_valid [OF d(1) this] assms(2) d(2) show ?thesis by (simp add: all_valid_notify) (simp add: all_valid_def notify_def)
qed

lemma hardware_valid: "all_valid m \<Longrightarrow> all_valid (snd (AssignRoleByHardwareType infos m))"
  by (auto simp: AssignRoleByHardwareType_def all_valid_notify map_filter_def hardware_role_def Let_def valid_decide split: if_splits)

lemma start_schedule_frame [simp]: "notified (start_schedule m) = notified m" "isSkipDecisionForCrossNodeMode (start_schedule m) = isSkipDecisionForCrossNodeMode m"
  by (simp_all add: start_schedule_def)

lemma AllocateInstanceRole_valid:
  assumes "AllocateInstanceRole srt mc sim gs summary [] first m = Some (st, gs', ds', m')" "all_valid m"
  shows "all_valid m' \<and> (\<forall>dc \<in> set ds'. valid_dc dc) \<and> isSkipDecisionForCrossNodeMode m' = isSkipDecisionForCrossNodeMode m"
  using assms allocate_valid [of srt mc sim summary first gs "[]" m st gs' ds' m'] by (auto simp: AllocateInstanceRole_def split: if_splits)

lemma allocate_skip:
  "allocate_groups srt mc sim summary first gs ds m = Some (st, gs', ds', m') \<Longrightarrow> isSkipDecisionForCrossNodeMode m' = isSkipDecisionForCrossNodeMode m"
proof (induction gs arbitrary: ds m gs' first)
  case (Cons x gs)
  obtain g "is" where x: "x = (g, is)" by force
  show ?case using Cons.prems by (auto simp: x AssignRole_def Let_def notify_def dest!: Cons.IH split: option.splits if_splits)
qed simp

lemma AllocateInstanceRole_skip:
  "AllocateInstanceRole srt mc sim gs summary ds first m = Some (st, gs', ds', m') \<Longrightarrow> isSkipDecisionForCrossNodeMode m' = isSkipDecisionForCrossNodeMode m"
  by (auto simp: AllocateInstanceRole_def dest: allocate_skip split: if_splits)

lemma InitExpect_frame:
  "InitExpectPDRate sim n summary p d m = (st, p', d', m') \<Longrightarrow> notified m' = notified m \<and> isSkipDecisionForCrossNodeMode m' = isSkipDecisionForCrossNodeMode m"
  by (auto simp: InitExpectPDRate_def split: if_splits prod.splits)

lemma Init_valid:
  assumes "Init srt mc sim junk infos summary pRate dRate m = Some (ok, p, d, m')" "\<not> isSkipDecisionForCrossNodeMode m" "all_valid m"
  shows "all_valid m' \<and> \<not> isSkipDecisionForCrossNodeMode m'"
proof (cases "isHeterogeneous m")
  case True
  then have "m' = snd (AssignRoleByHardwareType infos m)" using assms(1) by (simp add: Init_def)
  then show ?thesis using hardware_valid [OF assms(3)] assms(2) by (simp add: AssignRoleByHardwareType_def notify_def)
next
  case False
  let ?gs = "GroupDIGSInstanceInfos infos"
  show ?thesis
  proof (cases "pRate \<noteq> 0 \<and> dRate \<noteq> 0")
    case True
    with False assms(1,2) obtain gs' m1 where "AssignRoleByDefiniteRatio mc ?gs dRate pRate m = Some (gs', m1)" "m' = start_schedule m1"
      by (auto simp: Init_def)
    then show ?thesis using definite_valid assms(2,3) by (auto simp: all_valid_def)
  next
    case def: False
    with False assms(1,2) obtain st gs' ds m1 where a: "AllocateInstanceRole srt mc sim ?gs summary [] True m = Some (st, gs', ds, m1)"
      by (auto simp: Init_def split: option.splits)
    note v = AllocateInstanceRole_valid [OF a assms(3)]
    show ?thesis
    proof (cases "st = OK")
      case st: False
      then have "m' = m1" using a def False assms(1,2) by (simp add: Init_def Let_def split: if_splits)
      then show ?thesis using v assms(2) by simp
    next
      case True
      obtain s p1 d1 m2 where e: "InitExpectPDRate sim (length infos) summary pRate dRate (notify ds m1) = (s, p1, d1, m2)" by (metis prod_cases4)
      then have "m' = start_schedule m2" using a def False assms(1,2) True by (auto simp: Init_def)
      then show ?thesis using InitExpect_frame [OF e] v assms(2) by (auto simp: all_valid_def notify_def)
    qed
  qed
qed

lemma Init_skip:
  assumes "Init srt mc sim junk infos summary pRate dRate m = Some (ok, p, d, m')" "isSkipDecisionForCrossNodeMode m"
  shows "isSkipDecisionForCrossNodeMode m'"
  using assms by (auto simp: Init_def AssignRoleByHardwareType_def AssignRoleForCrossNodeSize_def notify_def split: if_splits)

lemma cycle_valid:
  assumes "schedule_cycle srt mc sim collected m = Some m'"
  shows "isSkipDecisionForCrossNodeMode m' = isSkipDecisionForCrossNodeMode m \<and> (all_valid m \<longrightarrow> all_valid m')"
proof (cases collected)
  case (Some c)
  then obtain infos summary st gs' ds' where "AllocateInstanceRole srt mc sim (GroupDIGSInstanceInfos infos) summary [] False m = Some (st, gs', ds', m')"
    using assms by (cases c) (auto simp: schedule_cycle_def)
  note a = this
  show ?thesis using AllocateInstanceRole_valid [OF a] AllocateInstanceRole_skip [OF a] by simp
qed (use assms in \<open>simp add: schedule_cycle_def\<close>)

text \<open>C15: In every state the role manager can reach, unless the roles are fixed by a deployment across nodes, each decision it has sent to its
  notifier names a role and has a flex percentage of at most one hundred, which is zero for a prefill or decode instance: the range
  outside of which the coordinator refuses to split a flex instance.
\<close>

theorem role_decisions_valid:
  assumes "role_run srt mc sim m" "\<not> isSkipDecisionForCrossNodeMode m"
  shows "\<forall>ds \<in> set (notified m). \<forall>dc \<in> set ds. rd_role dc \<noteq> UN_DEF_INSTANCE \<and> rd_flexPRatio dc \<le> FLEX_INSTANCE_P_PERCENTAGE_MAX
    \<and> (rd_role dc \<noteq> FLEX_INSTANCE \<longrightarrow> rd_flexPRatio dc = 0)"
proof -
  have "\<not> isSkipDecisionForCrossNodeMode m \<longrightarrow> all_valid m"
    using assms(1)
  proof induction
    case (construct conv cfg pc)
    show ?case by (simp add: new_InstanceRoleManager_def all_valid_def)
  next
    case (initialise m junk infos summary pRate dRate ok p d m')
    then show ?case using Init_valid [OF initialise(2)] Init_skip [OF initialise(2)] by auto
  next
    case (cycle m collected m')
    then show ?case using cycle_valid [OF cycle(2)] by auto
  qed
  then show ?thesis using assms(2) by (simp add: all_valid_def valid_dc_def)
qed

definition ex_hw :: "u64 \<Rightarrow> string \<Rightarrow> DIGSInstanceInfo" where
  "ex_hw k t = (ex_role_ins k UN_DEF_INSTANCE)\<lparr>staticInfo := (default_static k 0)\<lparr>st_nodeRes := default_node_res\<lparr>hardwareType := t\<rparr>\<rparr>\<rparr>"

definition ex_hw_manager :: InstanceRoleManager where
  "ex_hw_manager = new_InstanceRoleManager (\<lambda>_. None) [''is_heterogeneous'' \<mapsto> ''true''] ex_pcalc"

theorem role_decisions_valid_witness:
  "\<exists>m'. Init stable_sort (\<lambda>x. (EOK, x)) ex_sim (\<lambda>_. 0) [ex_hw 1 ''800I A2(32G)'', ex_hw 2 ''800i a2(64g)''] (in_summary ex_pinput) 0 0 ex_hw_manager = Some (True, 0, 0, m')
    \<and> length (notified m') = 1 \<and> length (hd (notified m')) = 2
    \<and> (\<forall>ds \<in> set (notified m'). \<forall>dc \<in> set ds. rd_role dc \<noteq> UN_DEF_INSTANCE \<and> rd_flexPRatio dc \<le> FLEX_INSTANCE_P_PERCENTAGE_MAX
      \<and> (rd_role dc \<noteq> FLEX_INSTANCE \<longrightarrow> rd_flexPRatio dc = 0))"
proof -
  let ?infos = "[ex_hw 1 ''800I A2(32G)'', ex_hw 2 ''800i a2(64g)'']"
  let ?m = "snd (AssignRoleByHardwareType ?infos ex_hw_manager)"
  have hw: "hardware_role (ex_hw 1 ''800I A2(32G)'') = Some PREFILL_INSTANCE" "hardware_role (ex_hw 2 ''800i a2(64g)'') = Some DECODE_INSTANCE"
    by (simp_all add: hardware_role_def ex_hw_def default_static_def to_lower_def PREFILL_HARDWARE_TYPES_def DECODE_HARDWARE_TYPES_def) code_simp+
  have i: "Init stable_sort (\<lambda>x. (EOK, x)) ex_sim (\<lambda>_. 0) ?infos (in_summary ex_pinput) 0 0 ex_hw_manager = Some (True, 0, 0, ?m)"
    by (simp add: Init_def ex_hw_manager_def new_InstanceRoleManager_def cfg_bool_def Str2Bool_def to_lower_def)
  have n: "notified ?m = [[decide (ex_hw 1 ''800I A2(32G)'') PREFILL_INSTANCE 0, decide (ex_hw 2 ''800i a2(64g)'') DECODE_INSTANCE 0]]"
    and s: "\<not> isSkipDecisionForCrossNodeMode ?m"
    by (simp_all add: AssignRoleByHardwareType_def notify_def hw map_filter_def ex_hw_manager_def new_InstanceRoleManager_def cfg_bool_def)
  have "role_run stable_sort (\<lambda>x. (EOK, x)) ex_sim ?m"
    by (rule role_run.initialise [OF _ i]) (unfold ex_hw_manager_def, rule role_run.construct)
  from role_decisions_valid [OF this s] i n show ?thesis by (intro exI [of _ ?m]) simp
qed

end
