(* ===== verification/Node_Status.thy ===== *)
theory Node_Status
  imports Role_Manager
begin

text \<open>
  The controller's table of instances (\<^verbatim>\<open>controller/cluster_status/NodeStatus.{h,cpp}\<close>): every node with its role,
  health and peers, the nodes that failed, the prefill and decode groups, and the ids that were given up on
  purpose. Each public operation is one step of the model: it holds the lock for its whole body, except that
  \<^verbatim>\<open>UpdateRoleStateAndPeers\<close> and \<^verbatim>\<open>GetNodesInGroup\<close> read the groups through getters that lock on their own. A vector of
  \<^verbatim>\<open>unique_ptr\<close> is a list: every caller fills it with objects from \<^verbatim>\<open>make_unique\<close>. \<^verbatim>\<open>AddNodes\<close> is an option because it reads
  through a pointer it has just released when an id is already known.
\<close>

named_theorems status_ops \<open>definitions of the operations on the table\<close>

subsection \<open>Data\<close>

type_synonym uint32 = "32 word"

record DeviceInfo =
  dv_id :: string
  dv_ip :: string
  dv_logicalId :: string
  dv_rankId :: uint32
  dv_superDeviceId :: "string option"

datatype InferenceType = AVAILABLE | INITIALIZING_STATIC_TOTAL_INFO | PREFILL_UPDATING_PEERS | UNAVAILABLE

record ServerInfo =
  sv_hostId :: string
  sv_ip :: string
  deviceInfos :: "DeviceInfo list"
  dpGroupInfos :: "(u64, DeviceInfo list) omap"
  sv_isMaster :: bool
  superPodId :: "string option"
  spSize :: uint32
  cpSize :: uint32

record NodeInfo =
  nd_hostId :: string
  nd_ip :: string
  nd_port :: string
  mgmtPort :: string
  metricPort :: string
  interCommPort :: string
  isHealthy :: bool
  isInitialized :: bool
  inferenceType :: InferenceType
  roleState :: string
  currentRole :: DIGSInstanceRole
  nd_modelName :: string
  instanceInfo :: DIGSInstanceInfo
  nd_peers :: "u64 list"
  activePeers :: "u64 list"
  deleteTime :: int
  initRetryTimes :: u64
  isInherited :: bool
  inheritedId :: u64
  isRoleChangeNode :: bool
  isDistribute :: bool
  dpGroupPeers :: "u64 list"
  serverInfoList :: "ServerInfo list"
  instanceIdxInPod :: uint32
  numInstancesPerPod :: uint32
  nd_virtualId :: u64
  isSingleNode :: bool
  isStaticInfoinit :: bool

abbreviation node_id :: "NodeInfo \<Rightarrow> u64" where "node_id n \<equiv> ins_id (instanceInfo n)"
abbreviation node_role :: "NodeInfo \<Rightarrow> DIGSInstanceRole" where "node_role n \<equiv> ins_role (instanceInfo n)"
abbreviation node_group :: "NodeInfo \<Rightarrow> u64" where "node_group n \<equiv> st_groupId (staticInfo (instanceInfo n))"

definition upd_static :: "(DIGSInstanceStaticInfo \<Rightarrow> DIGSInstanceStaticInfo) \<Rightarrow> NodeInfo \<Rightarrow> NodeInfo" where
  "upd_static f n = n\<lparr>instanceInfo := (instanceInfo n)\<lparr>staticInfo := f (staticInfo (instanceInfo n))\<rparr>\<rparr>"

datatype RoleState = RS_UNKNOWN | RS_SWITCHING | RS_READY

fun GetRoleStateName :: "RoleState \<Rightarrow> string" where
  "GetRoleStateName RS_UNKNOWN = ''RoleUnknown''"
| "GetRoleStateName RS_SWITCHING = ''RoleSwitching''"
| "GetRoleStateName RS_READY = ''RoleReady''"

record NodeChanges =
  newIDs :: "u64 list"
  removedIDs :: "u64 list"
  reappearIDs :: "u64 list"

type_synonym pd_group = "u64 list \<times> u64 list"

record NodeStatus =
  mNodes :: "(u64, NodeInfo) omap"
  mFaultyNodes :: "(u64, NodeInfo) omap"
  mGroups :: "(u64, pd_group) omap"
  mFaultyGroups :: "(u64, pd_group) omap"
  mFlexGroups :: "(u64, u64 list) omap"
  mFaultyFlexGroups :: "(u64, u64 list) omap"
  mExpiredNodeIds :: "u64 set"
  ranktableChangeTime :: int
  mCheckNodeLinkRoundCounter :: u64

definition empty_status :: NodeStatus where
  "empty_status = \<lparr>mNodes = [], mFaultyNodes = [], mGroups = [], mFaultyGroups = [], mFlexGroups = [],
     mFaultyFlexGroups = [], mExpiredNodeIds = {}, ranktableChangeTime = - 1, mCheckNodeLinkRoundCounter = 0\<rparr>"

definition default_node :: NodeInfo where
  "default_node = \<lparr>nd_hostId = [], nd_ip = [], nd_port = [], mgmtPort = [], metricPort = [], interCommPort = [],
     isHealthy = False, isInitialized = False, inferenceType = AVAILABLE, roleState = [],
     currentRole = UN_DEF_INSTANCE, nd_modelName = [],
     instanceInfo = \<lparr>staticInfo = default_static 0 0, dynamicInfo = default_dynamic 0,
       scheduleInfo = \<lparr>sc_id = 0, sc_allocatedSlots = 0, sc_allocatedBlocks = 0\<rparr>\<rparr>,
     nd_peers = [], activePeers = [], deleteTime = 0, initRetryTimes = 0, isInherited = False, inheritedId = 0,
     isRoleChangeNode = False, isDistribute = False, dpGroupPeers = [], serverInfoList = [],
     instanceIdxInPod = 0, numInstancesPerPod = 0, nd_virtualId = 1, isSingleNode = False, isStaticInfoinit = False\<rparr>"

subsection \<open>Adding and removing nodes\<close>

fun ns_AddNodes :: "NodeInfo list \<Rightarrow> NodeStatus \<Rightarrow> NodeStatus option" where
  "ns_AddNodes [] s = Some s"
| "ns_AddNodes (n # ns) s =
     (if map_of (mNodes s) (node_id n) \<noteq> None then None
      else ns_AddNodes ns (s\<lparr>mNodes := omap_put (node_id n) n (mNodes s)\<rparr>))"

definition AddNode :: "NodeInfo \<Rightarrow> NodeStatus \<Rightarrow> NodeStatus" where
  [status_ops]: "AddNode n s = s\<lparr>mNodes := omap_put (node_id n) n (mNodes s),
     mFaultyNodes := (if map_of (mFaultyNodes s) (node_id n) = None then mFaultyNodes s
       else omap_erase (node_id n) (mFaultyNodes s))\<rparr>"

definition AddFaultyNode :: "NodeInfo \<Rightarrow> NodeStatus \<Rightarrow> NodeStatus" where
  [status_ops]: "AddFaultyNode n s = s\<lparr>mFaultyNodes := omap_put (node_id n) n (mFaultyNodes s)\<rparr>"

definition AddFaultyNodes :: "NodeInfo list \<Rightarrow> NodeStatus \<Rightarrow> NodeStatus" where
  [status_ops]: "AddFaultyNodes ns s = s\<lparr>mFaultyNodes := fold (\<lambda>n. omap_put (node_id n) n) ns (mFaultyNodes s)\<rparr>"

definition AddExpiredNode :: "u64 \<Rightarrow> NodeStatus \<Rightarrow> NodeStatus" where
  [status_ops]: "AddExpiredNode i s = s\<lparr>mExpiredNodeIds := insert i (mExpiredNodeIds s)\<rparr>"

definition ns_RemoveNode :: "u64 \<Rightarrow> NodeStatus \<Rightarrow> NodeStatus" where
  [status_ops]: "ns_RemoveNode i s = (case map_of (mNodes s) i of None \<Rightarrow> s | Some _ \<Rightarrow> s\<lparr>mNodes := omap_erase i (mNodes s)\<rparr>)"

definition RemoveExpiredNode :: "u64 \<Rightarrow> NodeStatus \<Rightarrow> NodeStatus" where
  [status_ops]: "RemoveExpiredNode i s = (if i \<notin> mExpiredNodeIds s then s else s\<lparr>mExpiredNodeIds := mExpiredNodeIds s - {i}\<rparr>)"

subsection \<open>Updating a node\<close>

text \<open>Every update looks the node up first and leaves the table as it is when the id is unknown.\<close>

definition upd_node :: "u64 \<Rightarrow> (NodeInfo \<Rightarrow> NodeInfo) \<Rightarrow> NodeStatus \<Rightarrow> NodeStatus" where
  "upd_node i f s = (case map_of (mNodes s) i of None \<Rightarrow> s | Some n \<Rightarrow> s\<lparr>mNodes := omap_put i (f n) (mNodes s)\<rparr>)"

definition UpdateNodeDynamicStatus ::
  "u64 \<Rightarrow> DIGSInstanceRole \<Rightarrow> string \<Rightarrow> DIGSInstanceDynamicInfo \<Rightarrow> u64 list \<Rightarrow> NodeStatus \<Rightarrow> NodeStatus" where
  [status_ops]: "UpdateNodeDynamicStatus i ro rs d ps = upd_node i (\<lambda>n. n\<lparr>currentRole := ro, roleState := rs,
     activePeers := (if isRoleChangeNode n \<and> rs \<noteq> GetRoleStateName RS_READY then [] else ps),
     isRoleChangeNode := (isRoleChangeNode n \<and> rs \<noteq> GetRoleStateName RS_READY),
     isHealthy := True,
     instanceInfo := (instanceInfo n)\<lparr>dynamicInfo := (dynamicInfo (instanceInfo n))\<lparr>
       dy_availSlotsNum := dy_availSlotsNum d, dy_availBlockNum := dy_availBlockNum d,
       dy_maxAvailBlockNum := dy_maxAvailBlockNum d, dy_waitingRequestNum := dy_waitingRequestNum d,
       dy_runningRequestNum := dy_runningRequestNum d, dy_swappedRequestNum := dy_swappedRequestNum d,
       dy_freeNpuBlockNums := dy_freeNpuBlockNums d, dy_freeCpuBlockNums := dy_freeCpuBlockNums d,
       dy_totalNpuBlockNums := dy_totalNpuBlockNums d, dy_totalCpuBlockNums := dy_totalCpuBlockNums d\<rparr>\<rparr>\<rparr>)"

definition UpdateInferenceType :: "u64 \<Rightarrow> InferenceType \<Rightarrow> NodeStatus \<Rightarrow> NodeStatus" where
  [status_ops]: "UpdateInferenceType i t = upd_node i (inferenceType_update (\<lambda>_. t))"

definition UpdateNodeStaticInfo :: "u64 \<Rightarrow> DIGSInstanceDynamicInfo \<Rightarrow> NodeStatus \<Rightarrow> NodeStatus" where
  [status_ops]: "UpdateNodeStaticInfo i d = upd_node i (upd_static (\<lambda>st. st\<lparr>st_totalSlotsNum := dy_availSlotsNum d,
     st_totalBlockNum := dy_availBlockNum d\<rparr>))"

definition UpdateNodeScheduleInfo :: "u64 \<Rightarrow> DIGSInstanceScheduleInfo \<Rightarrow> NodeStatus \<Rightarrow> NodeStatus" where
  [status_ops]: "UpdateNodeScheduleInfo i c = upd_node i (\<lambda>n. n\<lparr>instanceInfo := (instanceInfo n)\<lparr>scheduleInfo :=
     (scheduleInfo (instanceInfo n))\<lparr>sc_allocatedSlots := sc_allocatedSlots c, sc_allocatedBlocks := sc_allocatedBlocks c\<rparr>\<rparr>\<rparr>)"

definition AddInitRetryTimes :: "u64 \<Rightarrow> NodeStatus \<Rightarrow> NodeStatus" where
  [status_ops]: "AddInitRetryTimes i = upd_node i (\<lambda>n. n\<lparr>initRetryTimes := initRetryTimes n + 1\<rparr>)"

definition UpdateRoleState :: "u64 \<Rightarrow> string \<Rightarrow> bool \<Rightarrow> bool \<Rightarrow> NodeStatus \<Rightarrow> NodeStatus" where
  [status_ops]: "UpdateRoleState i rs h ini = upd_node i (\<lambda>n. n\<lparr>roleState := rs, isHealthy := h, isInitialized := ini\<rparr>)"

definition UpdateNode :: "u64 \<Rightarrow> NodeInfo \<Rightarrow> NodeStatus \<Rightarrow> NodeStatus" where
  [status_ops]: "UpdateNode i m = upd_node i (\<lambda>n. upd_static (\<lambda>st. st\<lparr>st_role := node_role m,
       st_label := ins_label (instanceInfo m), st_flexPRatio := st_flexPRatio (staticInfo (instanceInfo m))\<rparr>) n
     \<lparr>currentRole := node_role m, nd_virtualId := st_virtualId (staticInfo (instanceInfo m)),
      roleState := roleState m, nd_peers := nd_peers m, activePeers := [], isHealthy := isHealthy m,
      isInitialized := isInitialized m, initRetryTimes := 0, isRoleChangeNode := isRoleChangeNode m\<rparr>)"

definition UpdateInheritInfo :: "u64 \<Rightarrow> u64 \<Rightarrow> NodeStatus \<Rightarrow> NodeStatus" where
  [status_ops]: "UpdateInheritInfo i h = upd_node i (\<lambda>n. if isInherited n then n
     else n\<lparr>inheritedId := h, isInherited := True, activePeers := [], isHealthy := False\<rparr>)"

text \<open>\<open>now\<close> is the clock in seconds since the epoch.\<close>

definition UpdateNodeDeleteTime :: "int \<Rightarrow> u64 \<Rightarrow> NodeStatus \<Rightarrow> NodeStatus" where
  [status_ops]: "UpdateNodeDeleteTime now i = upd_node i (\<lambda>n. if deleteTime n > 0 then n
     else n\<lparr>isHealthy := False, isInitialized := False, deleteTime := now\<rparr>)"

subsection \<open>Groups\<close>

definition AddGroup :: "u64 \<Rightarrow> pd_group \<Rightarrow> NodeStatus \<Rightarrow> NodeStatus" where
  [status_ops]: "AddGroup g grp s = s\<lparr>mGroups := omap_put g grp (mGroups s)\<rparr>"

definition AddFlexGroup :: "u64 \<Rightarrow> u64 list \<Rightarrow> NodeStatus \<Rightarrow> NodeStatus" where
  [status_ops]: "AddFlexGroup g fl s = s\<lparr>mFlexGroups := omap_put g fl (mFlexGroups s)\<rparr>"

definition AddFaultyGroup :: "u64 \<Rightarrow> pd_group \<Rightarrow> NodeStatus \<Rightarrow> NodeStatus" where
  [status_ops]: "AddFaultyGroup g grp s = s\<lparr>mFaultyGroups := omap_put g grp (mFaultyGroups s)\<rparr>"

definition AddFaultyFlexGroup :: "u64 \<Rightarrow> u64 list \<Rightarrow> NodeStatus \<Rightarrow> NodeStatus" where
  [status_ops]: "AddFaultyFlexGroup g fl s = s\<lparr>mFaultyFlexGroups := omap_put g fl (mFaultyFlexGroups s)\<rparr>"

definition UpdateGroup :: "u64 \<Rightarrow> pd_group \<Rightarrow> NodeStatus \<Rightarrow> NodeStatus" where
  [status_ops]: "UpdateGroup g grp s = (case map_of (mGroups s) g of None \<Rightarrow> s | Some _ \<Rightarrow> s\<lparr>mGroups := omap_put g grp (mGroups s)\<rparr>)"

definition UpdateFlexGroup :: "u64 \<Rightarrow> u64 list \<Rightarrow> NodeStatus \<Rightarrow> NodeStatus" where
  [status_ops]: "UpdateFlexGroup g fl s = (case map_of (mFlexGroups s) g of None \<Rightarrow> s
     | Some _ \<Rightarrow> s\<lparr>mFlexGroups := omap_put g fl (mFlexGroups s)\<rparr>)"

definition GetGroup :: "u64 \<Rightarrow> NodeStatus \<Rightarrow> pd_group" where
  "GetGroup g s = omap_get ([], []) (mGroups s) g"

definition GetFlexGroup :: "u64 \<Rightarrow> NodeStatus \<Rightarrow> u64 list" where
  "GetFlexGroup g s = omap_get [] (mFlexGroups s) g"

definition GetNodesInGroup :: "u64 \<Rightarrow> NodeStatus \<Rightarrow> nat" where
  "GetNodesInGroup g s = length (fst (GetGroup g s)) + length (snd (GetGroup g s)) + length (GetFlexGroup g s)"

text \<open>The intersection of two \<^verbatim>\<open>std::set\<close>s comes out in increasing order.\<close>

definition set_intersection :: "u64 list \<Rightarrow> u64 list \<Rightarrow> u64 list" where
  "set_intersection xs ys = filter (\<lambda>x. x \<in> set ys) (remdups (sort xs))"

definition UpdateRoleStateAndPeers :: "u64 \<Rightarrow> u64 \<Rightarrow> string \<Rightarrow> u64 list \<Rightarrow> NodeStatus \<Rightarrow> NodeStatus" where
  [status_ops]: "UpdateRoleStateAndPeers g i rs ps s = upd_node i (\<lambda>n. n\<lparr>roleState := rs, nd_peers := ps @ GetFlexGroup g s,
     activePeers := set_intersection (ps @ GetFlexGroup g s) ps, initRetryTimes := 0\<rparr>) s"

subsection \<open>Queries\<close>

definition ns_GetRoleState :: "u64 \<Rightarrow> NodeStatus \<Rightarrow> string" where
  "ns_GetRoleState i s = (case map_of (mNodes s) i of None \<Rightarrow> [] | Some n \<Rightarrow> roleState n)"

definition GetIpForAllTypeNodes :: "u64 \<Rightarrow> NodeStatus \<Rightarrow> string" where
  "GetIpForAllTypeNodes i s = (case map_of (mFaultyNodes s) i of Some n \<Rightarrow> nd_ip n
     | None \<Rightarrow> (case map_of (mNodes s) i of Some n \<Rightarrow> nd_ip n | None \<Rightarrow> []))"

definition GetNode :: "u64 \<Rightarrow> NodeStatus \<Rightarrow> NodeInfo option" where
  "GetNode i s = map_of (mNodes s) i"

definition GetNodeByAddress :: "string \<Rightarrow> string \<Rightarrow> NodeStatus \<Rightarrow> NodeInfo option" where
  "GetNodeByAddress a p s = find (\<lambda>n. nd_ip n = a \<and> nd_port n = p) (map snd (mNodes s))"

text \<open>The copies handed out start from a default object; fields that are not assigned keep its values.\<close>

definition copy_node :: "NodeInfo \<Rightarrow> NodeInfo" where
  "copy_node n = n\<lparr>instanceIdxInPod := 0, numInstancesPerPod := 0, nd_virtualId := 1, isSingleNode := False, isStaticInfoinit := False\<rparr>"

definition GetAllNodes :: "NodeStatus \<Rightarrow> (u64, NodeInfo) omap" where
  "GetAllNodes s = map (map_prod id copy_node) (mNodes s)"

definition GetAllFaultyNodes :: "NodeStatus \<Rightarrow> (u64, NodeInfo) omap" where
  "GetAllFaultyNodes s = map (map_prod id (\<lambda>n. (copy_node n)\<lparr>dpGroupPeers := []\<rparr>)) (mFaultyNodes s)"

definition GetAllGroupIds :: "NodeStatus \<Rightarrow> u64 list" where "GetAllGroupIds s = map fst (mGroups s)"
definition GetAllNodeIds :: "NodeStatus \<Rightarrow> u64 list" where "GetAllNodeIds s = map fst (mNodes s)"

definition GetDeletedNodeIds :: "NodeStatus \<Rightarrow> u64 list" where
  "GetDeletedNodeIds s = map fst (filter (\<lambda>(i, n). \<not> (deleteTime n = 0 \<or> isInherited n)) (mNodes s))"

definition GetExpiredNodeIds :: "NodeStatus \<Rightarrow> u64 set" where "GetExpiredNodeIds s = mExpiredNodeIds s"

definition IsPostRoleNeeded :: "u64 \<Rightarrow> NodeStatus \<Rightarrow> bool" where
  "IsPostRoleNeeded i s = (case map_of (mNodes s) i of None \<Rightarrow> False | Some n \<Rightarrow>
     if deleteTime n > 0 then False
     else if \<not> isInitialized n \<and> isHealthy n then True
     else if roleState n = GetRoleStateName RS_UNKNOWN \<and> currentRole n = UN_DEF_INSTANCE \<and> isHealthy n then True
     else if \<not> isRoleChangeNode n \<and> activePeers n = [] \<and> nd_peers n \<noteq> [] \<and> isHealthy n then True
     else False)"

definition IsIgnoredInPDSeparate :: "u64 \<Rightarrow> NodeStatus \<Rightarrow> bool" where
  "IsIgnoredInPDSeparate i s = (case map_of (mNodes s) i of None \<Rightarrow> True | Some n \<Rightarrow>
     if deleteTime n > 0 then True
     else if \<not> isInitialized n then True
     else if \<not> isHealthy n then True
     else if inferenceType n = INITIALIZING_STATIC_TOTAL_INFO then True
     else if currentRole n \<noteq> node_role n then True
     else if roleState n = GetRoleStateName RS_UNKNOWN then True
     else if isRoleChangeNode n then True
     else node_role n \<noteq> FLEX_INSTANCE \<and> (activePeers n = [] \<or> nd_peers n = []))"

definition IsIgnoredInSingleNode :: "u64 \<Rightarrow> NodeStatus \<Rightarrow> bool" where
  "IsIgnoredInSingleNode i s = (case map_of (mNodes s) i of None \<Rightarrow> True | Some n \<Rightarrow>
     if \<not> isHealthy n then True else deleteTime n > 0)"

definition IsNodeLinkedByPeer :: "u64 \<Rightarrow> u64 \<Rightarrow> NodeStatus \<Rightarrow> bool \<times> NodeStatus" where
  "IsNodeLinkedByPeer p i s =
     ((case map_of (mNodes s) p of None \<Rightarrow> False | Some n \<Rightarrow> i \<in> set (activePeers n)),
      s\<lparr>mCheckNodeLinkRoundCounter := mCheckNodeLinkRoundCounter s + 1\<rparr>)"

definition UpdateRanktableChangeTime :: "int \<Rightarrow> NodeStatus \<Rightarrow> NodeStatus" where
  [status_ops]: "UpdateRanktableChangeTime now s = s\<lparr>ranktableChangeTime := now\<rparr>"

definition GetRanktableChangeTime :: "NodeStatus \<Rightarrow> int" where "GetRanktableChangeTime s = ranktableChangeTime s"

subsection \<open>Comparison with the rank table\<close>

definition same_device :: "DeviceInfo \<Rightarrow> DeviceInfo \<Rightarrow> bool" where
  "same_device a b \<longleftrightarrow> dv_id a = dv_id b \<and> dv_ip a = dv_ip b \<and> dv_logicalId a = dv_logicalId b \<and> dv_rankId a = dv_rankId b"

definition IsDeviceInfoChanged :: "ServerInfo list \<Rightarrow> ServerInfo list \<Rightarrow> bool" where
  "IsDeviceInfoChanged old new = (if length old \<noteq> length new then True
     else list_ex (\<lambda>(a, b). list_ex (\<lambda>d. find (\<lambda>e. same_device e d) (deviceInfos a) = None) (deviceInfos b)) (zip old new))"

definition detect_one :: "NodeStatus \<Rightarrow> NodeInfo \<Rightarrow> NodeChanges \<Rightarrow> NodeChanges" where
  "detect_one s n c =
     (if node_id n \<in> mExpiredNodeIds s then c
      else case map_of (mNodes s) (node_id n) of
        None \<Rightarrow> c\<lparr>newIDs := newIDs c @ [node_id n]\<rparr>
      | Some m \<Rightarrow>
          if deleteTime m > 0 then c\<lparr>reappearIDs := reappearIDs c @ [node_id n]\<rparr>
          else if IsDeviceInfoChanged (serverInfoList m) (serverInfoList n)
          then c\<lparr>removedIDs := removedIDs c @ [node_id n], newIDs := newIDs c @ [node_id n]\<rparr>
          else c)"

definition DetectNodeChanges :: "NodeInfo list \<Rightarrow> NodeStatus \<Rightarrow> NodeChanges" where
  "DetectNodeChanges ns s = fold (detect_one s) ns
     \<lparr>newIDs = [], removedIDs = filter (\<lambda>i. find (\<lambda>n. node_id n = i) ns = None) (map fst (mNodes s)), reappearIDs = []\<rparr>"


subsection \<open>Runs of operations\<close>

datatype status_op =
    NsAddNodes "NodeInfo list" | NsAddNode NodeInfo | NsAddFaultyNodes "NodeInfo list" | NsAddFaultyNode NodeInfo
  | NsAddExpired u64 | NsRetry u64 | NsDynamic u64 DIGSInstanceRole string DIGSInstanceDynamicInfo "u64 list"
  | NsInference u64 InferenceType | NsStatic u64 DIGSInstanceDynamicInfo | NsRoleState u64 string bool bool
  | NsPeers u64 u64 string "u64 list" | NsUpdate u64 NodeInfo | NsSchedule u64 DIGSInstanceScheduleInfo
  | NsDelete int u64 | NsInherit u64 u64 | NsRemove u64 | NsRemoveExpired u64
  | NsGroup u64 pd_group | NsFlexGroup u64 "u64 list" | NsFaultyGroup u64 pd_group | NsFaultyFlexGroup u64 "u64 list"
  | NsUpdGroup u64 pd_group | NsUpdFlexGroup u64 "u64 list" | NsLinked u64 u64 | NsRanktable int

fun ns_do :: "status_op \<Rightarrow> NodeStatus \<Rightarrow> NodeStatus option" where
  "ns_do (NsAddNodes ns) s = ns_AddNodes ns s"
| "ns_do (NsAddNode n) s = Some (AddNode n s)"
| "ns_do (NsAddFaultyNodes ns) s = Some (AddFaultyNodes ns s)"
| "ns_do (NsAddFaultyNode n) s = Some (AddFaultyNode n s)"
| "ns_do (NsAddExpired i) s = Some (AddExpiredNode i s)"
| "ns_do (NsRetry i) s = Some (AddInitRetryTimes i s)"
| "ns_do (NsDynamic i ro rs d ps) s = Some (UpdateNodeDynamicStatus i ro rs d ps s)"
| "ns_do (NsInference i t) s = Some (UpdateInferenceType i t s)"
| "ns_do (NsStatic i d) s = Some (UpdateNodeStaticInfo i d s)"
| "ns_do (NsRoleState i rs h ini) s = Some (UpdateRoleState i rs h ini s)"
| "ns_do (NsPeers g i rs ps) s = Some (UpdateRoleStateAndPeers g i rs ps s)"
| "ns_do (NsUpdate i m) s = Some (UpdateNode i m s)"
| "ns_do (NsSchedule i c) s = Some (UpdateNodeScheduleInfo i c s)"
| "ns_do (NsDelete now i) s = Some (UpdateNodeDeleteTime now i s)"
| "ns_do (NsInherit i h) s = Some (UpdateInheritInfo i h s)"
| "ns_do (NsRemove i) s = Some (ns_RemoveNode i s)"
| "ns_do (NsRemoveExpired i) s = Some (RemoveExpiredNode i s)"
| "ns_do (NsGroup g x) s = Some (AddGroup g x s)"
| "ns_do (NsFlexGroup g x) s = Some (AddFlexGroup g x s)"
| "ns_do (NsFaultyGroup g x) s = Some (AddFaultyGroup g x s)"
| "ns_do (NsFaultyFlexGroup g x) s = Some (AddFaultyFlexGroup g x s)"
| "ns_do (NsUpdGroup g x) s = Some (UpdateGroup g x s)"
| "ns_do (NsUpdFlexGroup g x) s = Some (UpdateFlexGroup g x s)"
| "ns_do (NsLinked p i) s = Some (snd (IsNodeLinkedByPeer p i s))"
| "ns_do (NsRanktable now) s = Some (UpdateRanktableChangeTime now s)"

fun ns_run :: "status_op list \<Rightarrow> NodeStatus \<Rightarrow> NodeStatus option" where
  "ns_run [] s = Some s"
| "ns_run (p # ops) s = (case ns_do p s of None \<Rightarrow> None | Some s' \<Rightarrow> ns_run ops s')"

text \<open>The operations that put a node with id \<open>i\<close> into the table.\<close>

fun adds :: "u64 \<Rightarrow> status_op \<Rightarrow> bool" where
  "adds i (NsAddNodes ns) = (i \<in> node_id ` set ns)"
| "adds i (NsAddNode n) = (i = node_id n)"
| "adds i _ = False"

text \<open>A node is gone when the table has no entry for it or the entry carries a time of deletion.\<close>

definition gone :: "u64 \<Rightarrow> NodeStatus \<Rightarrow> bool" where
  "gone i s = (case map_of (mNodes s) i of None \<Rightarrow> True | Some n \<Rightarrow> deleteTime n > 0)"

text \<open>The table is keyed by the ids of its entries.\<close>

definition keyed :: "(u64, NodeInfo) omap \<Rightarrow> bool" where
  "keyed m \<longleftrightarrow> omap_ok m \<and> (\<forall>i n. map_of m i = Some n \<longrightarrow> node_id n = i)"

definition status_ok :: "NodeStatus \<Rightarrow> bool" where
  "status_ok s \<longleftrightarrow> keyed (mNodes s) \<and> keyed (mFaultyNodes s) \<and> omap_ok (mGroups s) \<and> omap_ok (mFlexGroups s)
     \<and> omap_ok (mFaultyGroups s) \<and> omap_ok (mFaultyFlexGroups s)"

subsection \<open>Lemmas\<close>

lemma upd_node_mNodes: "map_of (mNodes (upd_node i f s)) j = (if j = i then map_option f (map_of (mNodes s) i) else map_of (mNodes s) j)"
  by (auto simp: upd_node_def omap_simps split: option.splits)

lemma upd_node_frame [simp]:
  "mFaultyNodes (upd_node i f s) = mFaultyNodes s" "mGroups (upd_node i f s) = mGroups s"
  "mFaultyGroups (upd_node i f s) = mFaultyGroups s" "mFlexGroups (upd_node i f s) = mFlexGroups s"
  "mFaultyFlexGroups (upd_node i f s) = mFaultyFlexGroups s" "mExpiredNodeIds (upd_node i f s) = mExpiredNodeIds s"
  "ranktableChangeTime (upd_node i f s) = ranktableChangeTime s"
  by (auto simp: upd_node_def split: option.splits)

lemma node_id_upd_static [simp]: "(\<And>st. st_id (f st) = st_id st) \<Longrightarrow> node_id (upd_static f n) = node_id n"
  by (simp add: upd_static_def)

lemma keyed_put: "keyed m \<Longrightarrow> node_id n = i \<Longrightarrow> keyed (omap_put i n m)"
  by (auto simp: keyed_def omap_simps)

lemma keyed_erase: "keyed m \<Longrightarrow> keyed (omap_erase i m)"
  by (auto simp: keyed_def omap_simps)

lemma keyed_fold_put: "keyed m \<Longrightarrow> keyed (fold (\<lambda>n. omap_put (node_id n) n) ns m)"
  by (induction ns arbitrary: m) (auto intro: keyed_put)

lemma keyed_upd_node:
  assumes "keyed (mNodes s)" and "\<And>n. node_id (f n) = node_id n"
  shows "keyed (mNodes (upd_node i f s))"
  using assms by (auto simp: upd_node_def keyed_def intro!: keyed_put split: option.splits)
     (auto simp: omap_simps split: if_splits)

lemma ns_AddNodes_ok: "ns_AddNodes ns s = Some s' \<Longrightarrow> status_ok s \<Longrightarrow> status_ok s'"
  by (induction ns s rule: ns_AddNodes.induct) (auto simp: status_ok_def intro: keyed_put split: if_splits)

lemma ns_AddNodes_other: "ns_AddNodes ns s = Some s' \<Longrightarrow> i \<notin> node_id ` set ns \<Longrightarrow> map_of (mNodes s') i = map_of (mNodes s) i"
  by (induction ns s rule: ns_AddNodes.induct) (auto simp: omap_simps split: if_splits)

text \<open>Adding a node under an id that is already known reads through a null pointer.\<close>

lemma ns_AddNodes_duplicate:
  "ns_AddNodes ns s = None \<longleftrightarrow> \<not> distinct (map node_id ns) \<or> (\<exists>n \<in> set ns. map_of (mNodes s) (node_id n) \<noteq> None)"
proof (induction ns s rule: ns_AddNodes.induct)
  case (2 n ns s)
  have "(\<exists>m \<in> set ns. ((map_of (mNodes s))(node_id n \<mapsto> n)) (node_id m) \<noteq> None)
    \<longleftrightarrow> node_id n \<in> node_id ` set ns \<or> (\<exists>m \<in> set ns. map_of (mNodes s) (node_id m) \<noteq> None)"
    by (auto split: if_splits) (metis image_eqI)
  with 2 show ?case by (cases "map_of (mNodes s) (node_id n)") (auto simp: omap_simps simp del: fun_upd_apply)
qed simp

lemma status_do_ok: "status_ok s \<Longrightarrow> ns_do p s = Some s' \<Longrightarrow> status_ok s'"
  by (cases p; simp add: status_ops status_ok_def IsNodeLinkedByPeer_def)
     (auto simp: status_ok_def intro!: keyed_upd_node keyed_put keyed_erase keyed_fold_put
       dest: ns_AddNodes_ok [unfolded status_ok_def] split: option.splits)

lemma gone_upd_node: "gone i s \<Longrightarrow> (\<And>n. deleteTime n > 0 \<Longrightarrow> deleteTime (f n) > 0) \<Longrightarrow> gone i (upd_node j f s)"
  by (auto simp: gone_def upd_node_mNodes split: option.splits)

lemma gone_do:
  assumes "status_ok s" "gone i s" "ns_do p s = Some s'" "\<not> adds i p" shows "gone i s'"
  using assms
  by (cases p; simp add: status_ops)
     (auto simp: gone_def upd_static_def omap_simps status_ok_def keyed_def IsNodeLinkedByPeer_def ns_AddNodes_other
       upd_node_mNodes split: option.splits if_splits)

lemma gone_run:
  "ns_run ops s = Some s' \<Longrightarrow> status_ok s \<Longrightarrow> gone i s \<Longrightarrow> \<forall>p \<in> set ops. \<not> adds i p \<Longrightarrow> gone i s' \<and> status_ok s'"
proof (induction ops s rule: ns_run.induct)
  case (2 p ops s)
  then obtain t where "ns_do p s = Some t" "ns_run ops t = Some s'" by (auto split: option.splits)
  with 2 show ?case using gone_do [of s i p t] status_do_ok [of s p t] by auto
qed simp

lemma gone_out: "gone i s \<Longrightarrow> IsIgnoredInPDSeparate i s \<and> IsIgnoredInSingleNode i s \<and> \<not> IsPostRoleNeeded i s"
  by (auto simp: gone_def IsIgnoredInPDSeparate_def IsIgnoredInSingleNode_def IsPostRoleNeeded_def split: option.splits)

text \<open>C18: once a node carries a time of deletion or has been taken out of the table, no sequence of operations other than adding a
  node under its id makes the controller use it again: it is left out of what the coordinator is told in both
  deployment modes, and no role is sent to it.\<close>

theorem deleted_node_stays_out:
  assumes "status_ok s" and "gone i s" and "ns_run ops s = Some s'" and "\<forall>p \<in> set ops. \<not> adds i p"
  shows "IsIgnoredInPDSeparate i s' \<and> IsIgnoredInSingleNode i s' \<and> \<not> IsPostRoleNeeded i s'"
  using gone_out gone_run [OF assms(3,1,2,4)] by blast

definition ex_deleted :: NodeStatus where
  "ex_deleted = empty_status\<lparr>mNodes := [(7, upd_static (\<lambda>st. st\<lparr>st_id := 7\<rparr>) default_node\<lparr>deleteTime := 5, nd_peers := [8]\<rparr>)]\<rparr>"

theorem deleted_node_stays_out_witness:
  "\<exists>s'. ns_run [NsRoleState 7 ''RoleReady'' True True, NsDynamic 7 PREFILL_INSTANCE ''RoleReady'' (default_dynamic 7) [8]] ex_deleted = Some s'
     \<and> IsIgnoredInPDSeparate 7 s'"
proof -
  let ?ops = "[NsRoleState 7 ''RoleReady'' True True, NsDynamic 7 PREFILL_INSTANCE ''RoleReady'' (default_dynamic 7) [8]]"
  obtain s' where r: "ns_run ?ops ex_deleted = Some s'" by simp
  have "status_ok ex_deleted" "gone 7 ex_deleted"
    by (auto simp: status_ok_def keyed_def ex_deleted_def empty_status_def omap_simps upd_static_def default_node_def default_static_def gone_def
        split: if_splits)
  from deleted_node_stays_out [OF this r] r show ?thesis by simp
qed

end
