(* ===== verification/Server_Requests.thy ===== *)
theory Server_Requests
  imports Node_Status
begin

text \<open>
  The controller's requests to the model servers (\<^verbatim>\<open>controller/request_handler/ServerRequestHandler.cpp\<close>): reading a server's
  configuration and status, giving it a role with its peers, stopping it. The network is the list \<open>inbox\<close> of
  answers to come; an answer carries the change of the rank table that becomes visible while the request is under
  way, because the loops below give up on it. A request past the end of the list gets no answer. \<open>outbox\<close> records what
  was sent, with the content of the body before it is printed. Answers stay below the nesting depth the parser accepts.
  An operation is \<^const>\<open>None\<close> where the program indexes an empty vector or lets an exception escape.
\<close>

subsection \<open>Messages\<close>

record ConfigJson =
  cj_maxSeqLen :: "int jfield"
  cj_maxOutputLen :: "int jfield"
  cj_cacheBlockSize :: "int jfield"
  cj_modelName :: "string jfield"

record ResourceJson =
  rj_availSlots :: "int jfield"
  rj_availBlocks :: "int jfield"
  rj_totalAvailNpuSlots :: "int jfield"
  rj_totalAvailNpuBlocks :: "int jfield"
  rj_maxAvailNpuBlocks :: "int jfield"
  rj_waiting :: "int jfield"
  rj_running :: "int jfield"
  rj_swapped :: "int jfield"
  rj_freeNpu :: "int jfield"
  rj_freeCpu :: "int jfield"
  rj_totalNpu :: "int jfield"
  rj_totalCpu :: "int jfield"

record StatusJson =
  sj_service :: "(string jfield \<times> string jfield) option"
  sj_resource :: "ResourceJson option"
  sj_peers :: "string option list jfield"
  sj_linkPeers :: "(u64 jfield \<times> string jfield) list option"

datatype Reply = NoReply | ErrorReply | NotJson | ResultMsg "string jfield" | StatusMsg StatusJson | ConfigMsg ConfigJson

record LocalV1 =
  lv_device :: "DeviceInfo list"
  lv_server_ip :: string
  lv_id :: u64
  lv_p_percentage :: "u64 option"
  lv_instance_idx_in_pod :: uint32
  lv_num_instances_per_pod :: uint32
  lv_is_single_container :: bool
  lv_host_ip :: string
  lv_super_pod_id :: "string option"

record PeerV1 =
  pv_device :: "DeviceInfo list"
  pv_server_ip :: string
  pv_id :: u64
  pv_host_ip :: string
  pv_super_pod_id :: "string option"

datatype PostBody = EmptyBody | BodyV1 LocalV1 "PeerV1 list" | BodyV2 "ServerInfo list" "ServerInfo list list"

datatype Sent = GetConfig u64 | GetStatus u64 | PostRole u64 DIGSInstanceRole PostBody | StopService u64
  | ServerException u64 bool

record SrvCfg =
  multiNode :: bool
  pdSeparate :: bool
  singleContainer :: bool
  pSpSize :: uint32
  pCpSize :: uint32
  dSpSize :: uint32
  dCpSize :: uint32
  checkRoleAttempts :: nat
  serverOnlineAttempts :: nat
  initRoleAttempts :: nat
  validIp :: "string \<Rightarrow> bool"

record World =
  status :: NodeStatus
  inbox :: "(Reply \<times> int option) list"
  outbox :: "Sent list"
  mRoleUnknownPIds :: "u64 list"
  mRoleUnknownDIds :: "u64 list"
  mRoleUnknownFlexIds :: "u64 list"

abbreviation upd_status :: "(NodeStatus \<Rightarrow> NodeStatus) \<Rightarrow> World \<Rightarrow> World" where
  "upd_status f w \<equiv> w\<lparr>status := f (status w)\<rparr>"

definition send :: "Sent \<Rightarrow> World \<Rightarrow> Reply \<times> World" where
  "send m w = (case inbox w of
     [] \<Rightarrow> (NoReply, w\<lparr>outbox := outbox w @ [m]\<rparr>)
   | (r, t) # rest \<Rightarrow> (r, w\<lparr>outbox := outbox w @ [m], inbox := rest,
       status := (case t of None \<Rightarrow> status w | Some now \<Rightarrow> UpdateRanktableChangeTime now (status w))\<rparr>))"

subsection \<open>Reading configuration and status\<close>

definition IsJsonIntValid :: "int jfield \<Rightarrow> int \<Rightarrow> int \<Rightarrow> bool" where
  "IsJsonIntValid f mn mx = (case jget f of None \<Rightarrow> False | Some v \<Rightarrow> mn \<le> v \<and> v \<le> mx)"

definition IsJsonStringValid :: "string jfield \<Rightarrow> bool" where
  "IsJsonStringValid f = (case jget f of None \<Rightarrow> False | Some v \<Rightarrow> 1 \<le> length v \<and> length v \<le> 4096)"

definition MAX_INT_VALUE :: int where "MAX_INT_VALUE = 4294967295"
definition MAX_SERVER_NODES_PER_GROUP :: nat where "MAX_SERVER_NODES_PER_GROUP = 768"

definition IsValidStaticInfoResp :: "Reply \<Rightarrow> ConfigJson option" where
  "IsValidStaticInfoResp r = (case r of ConfigMsg j \<Rightarrow>
       if IsJsonIntValid (cj_maxSeqLen j) 0 MAX_INT_VALUE \<and> IsJsonIntValid (cj_maxOutputLen j) 1 4294967294
         \<and> IsJsonIntValid (cj_cacheBlockSize j) 1 128 \<and> IsJsonStringValid (cj_modelName j) then Some j else None
     | _ \<Rightarrow> None)"

fun jval :: "'a \<Rightarrow> 'a jfield \<Rightarrow> 'a" where
  "jval d (Val v) = v"
| "jval d _ = d"

definition ParseInstanceStaticInfoResp :: "ConfigJson \<Rightarrow> NodeInfo \<Rightarrow> NodeInfo" where
  "ParseInstanceStaticInfoResp j n = upd_static (\<lambda>st. st\<lparr>st_maxSeqLen := word_of_int (jval 0 (cj_maxSeqLen j)),
     st_maxOutputLen := word_of_int (jval 0 (cj_maxOutputLen j)),
     st_blockSize := word_of_int (jval 0 (cj_cacheBlockSize j))\<rparr>) n\<lparr>nd_modelName := jval [] (cj_modelName j)\<rparr>"

definition QueryInstanceInfo :: "NodeInfo \<Rightarrow> World \<Rightarrow> bool \<times> NodeInfo \<times> World" where
  "QueryInstanceInfo n w = (let (r, w1) = send (GetConfig (node_id n)) w in
     case IsValidStaticInfoResp r of None \<Rightarrow> (False, n, w1) | Some j \<Rightarrow> (True, ParseInstanceStaticInfoResp j n, w1))"

definition RoleByStr :: "string \<Rightarrow> DIGSInstanceRole" where
  "RoleByStr x = (if x = ''prefill'' then PREFILL_INSTANCE else if x = ''decode'' then DECODE_INSTANCE
     else if x = ''flex'' then FLEX_INSTANCE else UN_DEF_INSTANCE)"

definition IsValidService :: "string jfield \<times> string jfield \<Rightarrow> bool" where
  "IsValidService sv \<longleftrightarrow> IsJsonStringValid (fst sv) \<and> IsJsonStringValid (snd sv)
     \<and> jval [] (fst sv) \<in> set [''RoleUnknown'', ''RoleSwitching'', ''RoleReady'']
     \<and> jval [] (snd sv) \<in> set [''prefill'', ''decode'', ''flex'', ''none'']"

definition IsValidNodeStatusResp :: "SrvCfg \<Rightarrow> Reply \<Rightarrow> StatusJson option" where
  "IsValidNodeStatusResp cfg r = (case r of StatusMsg j \<Rightarrow>
       (case (sj_service j, sj_resource j) of (Some sv, Some re) \<Rightarrow>
          if IsValidService sv
            \<and> (if multiNode cfg then IsJsonIntValid (rj_totalAvailNpuSlots re) 0 5000
                 \<and> IsJsonIntValid (rj_totalAvailNpuBlocks re) 0 MAX_INT_VALUE \<and> IsJsonIntValid (rj_maxAvailNpuBlocks re) 0 MAX_INT_VALUE
               else IsJsonIntValid (rj_availSlots re) 0 5000 \<and> IsJsonIntValid (rj_availBlocks re) 0 MAX_INT_VALUE)
            \<and> (case sj_peers j of Missing \<Rightarrow> True | BadType \<Rightarrow> False
               | Val ips \<Rightarrow> length ips \<le> MAX_SERVER_NODES_PER_GROUP \<and> list_all (\<lambda>p. case p of None \<Rightarrow> False | Some a \<Rightarrow> validIp cfg a) ips)
          then Some j else None
        | _ \<Rightarrow> None)
     | _ \<Rightarrow> None)"

text \<open>The peers a server reports as linked are appended one by one; a malformed item throws after the ones before it.\<close>

fun append_linked :: "(u64 jfield \<times> string jfield) list \<Rightarrow> u64 list \<Rightarrow> u64 list \<times> bool" where
  "append_linked [] acc = (acc, True)"
| "append_linked ((t, l) # xs) acc = (case (jget t, jget l) of
     (Some v, Some k) \<Rightarrow> append_linked xs (if k = ''ok'' then acc @ [v] else acc)
   | _ \<Rightarrow> (acc, False))"

definition ParseNodeStatusPeers :: "StatusJson \<Rightarrow> u64 list \<Rightarrow> u64 list \<times> bool" where
  "ParseNodeStatusPeers j ps = (case sj_linkPeers j of None \<Rightarrow> (ps, False) | Some [] \<Rightarrow> ([], True) | Some xs \<Rightarrow> append_linked xs ps)"

text \<open>The fields of the resource object are read one after the other; reading stops at the first that is refused.\<close>

fun read_fields ::
  "(int jfield \<times> (u64 \<Rightarrow> DIGSInstanceDynamicInfo \<Rightarrow> DIGSInstanceDynamicInfo)) list
     \<Rightarrow> DIGSInstanceDynamicInfo \<Rightarrow> DIGSInstanceDynamicInfo \<times> bool" where
  "read_fields [] d = (d, True)"
| "read_fields ((f, put) # fs) d = (case jget f of None \<Rightarrow> (d, False) | Some v \<Rightarrow> read_fields fs (put (word_of_int v) d))"

definition resource_fields :: "SrvCfg \<Rightarrow> ResourceJson
    \<Rightarrow> (int jfield \<times> (u64 \<Rightarrow> DIGSInstanceDynamicInfo \<Rightarrow> DIGSInstanceDynamicInfo)) list" where
  "resource_fields cfg r = (if multiNode cfg then
     [(rj_totalAvailNpuSlots r, \<lambda>v. dy_availSlotsNum_update (\<lambda>_. v)), (rj_totalAvailNpuBlocks r, \<lambda>v. dy_availBlockNum_update (\<lambda>_. v)),
      (rj_maxAvailNpuBlocks r, \<lambda>v. dy_maxAvailBlockNum_update (\<lambda>_. v))]
   else
     [(rj_availSlots r, \<lambda>v. dy_availSlotsNum_update (\<lambda>_. v)), (rj_availBlocks r, \<lambda>v. dy_availBlockNum_update (\<lambda>_. v)),
      (rj_waiting r, \<lambda>v. dy_waitingRequestNum_update (\<lambda>_. v)), (rj_running r, \<lambda>v. dy_runningRequestNum_update (\<lambda>_. v)),
      (rj_swapped r, \<lambda>v. dy_swappedRequestNum_update (\<lambda>_. v)), (rj_freeNpu r, \<lambda>v. dy_freeNpuBlockNums_update (\<lambda>_. v)),
      (rj_freeCpu r, \<lambda>v. dy_freeCpuBlockNums_update (\<lambda>_. v)), (rj_totalNpu r, \<lambda>v. dy_totalNpuBlockNums_update (\<lambda>_. v)),
      (rj_totalCpu r, \<lambda>v. dy_totalCpuBlockNums_update (\<lambda>_. v))])"

definition IsUpdatePToDNeeded :: "NodeInfo \<Rightarrow> bool" where
  "IsUpdatePToDNeeded n \<longleftrightarrow> currentRole n = DECODE_INSTANCE \<and> node_role n = PREFILL_INSTANCE"

definition IsUpdateDToPNeeded :: "NodeInfo \<Rightarrow> bool" where
  "IsUpdateDToPNeeded n \<longleftrightarrow> currentRole n = PREFILL_INSTANCE \<and> node_role n = DECODE_INSTANCE"

definition IsUpdateRoleNeeded :: "NodeInfo \<Rightarrow> bool" where
  "IsUpdateRoleNeeded n \<longleftrightarrow> IsUpdatePToDNeeded n \<or> IsUpdateDToPNeeded n"

definition srv_IsPostRoleNeeded :: "NodeInfo \<Rightarrow> bool" where
  "srv_IsPostRoleNeeded n = (if roleState n = GetRoleStateName RS_UNKNOWN then True
     else (node_role n = DECODE_INSTANCE \<or> node_role n = FLEX_INSTANCE) \<and> activePeers n = [] \<and> nd_peers n \<noteq> [])"

definition IsReadyToUpdateNodeStaticInfo :: "NodeStatus \<Rightarrow> u64 \<Rightarrow> bool" where
  "IsReadyToUpdateNodeStaticInfo s i = (case GetNode i s of None \<Rightarrow> False | Some n \<Rightarrow>
     if node_role n = PREFILL_INSTANCE \<and> roleState n = GetRoleStateName RS_READY then True
     else node_role n = DECODE_INSTANCE \<and> activePeers n \<noteq> [] \<and> nd_peers n \<noteq> [])"

text \<open>The callbacks of the node scheduler; the one that deletes knows prefill and decode only.\<close>

definition add_once :: "u64 \<Rightarrow> u64 list \<Rightarrow> u64 list" where
  "add_once i xs = (if i \<in> set xs then xs else xs @ [i])"

definition RecordRoleUnknown :: "u64 \<Rightarrow> DIGSInstanceRole \<Rightarrow> World \<Rightarrow> World" where
  "RecordRoleUnknown i ro w = (case ro of
     PREFILL_INSTANCE \<Rightarrow> w\<lparr>mRoleUnknownPIds := add_once i (mRoleUnknownPIds w)\<rparr>
   | DECODE_INSTANCE \<Rightarrow> w\<lparr>mRoleUnknownDIds := add_once i (mRoleUnknownDIds w)\<rparr>
   | FLEX_INSTANCE \<Rightarrow> w\<lparr>mRoleUnknownFlexIds := add_once i (mRoleUnknownFlexIds w)\<rparr>
   | UN_DEF_INSTANCE \<Rightarrow> w)"

definition DeleteRoleUnknown :: "u64 \<Rightarrow> DIGSInstanceRole \<Rightarrow> World \<Rightarrow> World" where
  "DeleteRoleUnknown i ro w = (case ro of
     PREFILL_INSTANCE \<Rightarrow> w\<lparr>mRoleUnknownPIds := remove1 i (mRoleUnknownPIds w)\<rparr>
   | DECODE_INSTANCE \<Rightarrow> w\<lparr>mRoleUnknownDIds := remove1 i (mRoleUnknownDIds w)\<rparr>
   | _ \<Rightarrow> w)"

text \<open>A status read into a node that is not in the table yet: the result tells success and readiness.\<close>

definition ParseNodeStatusResp :: "SrvCfg \<Rightarrow> bool \<Rightarrow> StatusJson \<Rightarrow> NodeInfo \<Rightarrow> World \<Rightarrow> (bool \<times> bool) \<times> NodeInfo \<times> World" where
  "ParseNodeStatusResp cfg initStatic j n0 w =
     (let (rs, cr) = the (sj_service j);
          n1 = n0\<lparr>isHealthy := False, roleState := jval [] rs, currentRole := RoleByStr (jval [] cr)\<rparr>;
          (d, ok1) = read_fields (resource_fields cfg (the (sj_resource j))) (dynamicInfo (instanceInfo n1));
          n2 = n1\<lparr>instanceInfo := (instanceInfo n1)\<lparr>dynamicInfo := d\<rparr>\<rparr>;
          (ps, ok2) = (if ok1 then ParseNodeStatusPeers j (activePeers n2) else (activePeers n2, False));
          n3 = n2\<lparr>activePeers := ps\<rparr>;
          ready = (roleState n3 = GetRoleStateName RS_READY \<and> currentRole n3 = node_role n3)
      in if \<not> ok2 then ((False, False), n3\<lparr>roleState := GetRoleStateName RS_UNKNOWN\<rparr>, w)
         else let n4 = (if ready \<and> initStatic \<and> \<not> isStaticInfoinit n3
                  then upd_static (\<lambda>st. st\<lparr>st_totalSlotsNum := dy_availSlotsNum d, st_totalBlockNum := dy_availBlockNum d\<rparr>) n3
                    \<lparr>isStaticInfoinit := True\<rparr> else n3);
                  n5 = n4\<lparr>isHealthy := True, isInitialized := (currentRole n4 \<noteq> UN_DEF_INSTANCE)\<rparr>;
                  w1 = (if pdSeparate cfg \<and> \<not> IsUpdateRoleNeeded n5 \<and> srv_IsPostRoleNeeded n5
                    then RecordRoleUnknown (node_id n5) (node_role n5) w else w)
              in ((True, ready), n5, w1))"

definition UpdateNodeInfo :: "SrvCfg \<Rightarrow> bool \<Rightarrow> NodeInfo \<Rightarrow> World \<Rightarrow> (bool \<times> bool) \<times> NodeInfo \<times> World" where
  "UpdateNodeInfo cfg initStatic n w = (let (r, w1) = send (GetStatus (node_id n)) w in
     case IsValidNodeStatusResp cfg r of
       Some j \<Rightarrow> ParseNodeStatusResp cfg initStatic j n w1
     | None \<Rightarrow> ((False, False), n\<lparr>roleState := GetRoleStateName RS_UNKNOWN, isHealthy := False\<rparr>, w1))"

text \<open>
  A status read for a node of the table. \<open>n\<close> is the copy taken before the request: readiness is judged by the role
  state it had then.
\<close>

definition ParseNodeStatusRespToNodeStatus :: "SrvCfg \<Rightarrow> StatusJson \<Rightarrow> NodeInfo \<Rightarrow> World \<Rightarrow> (bool \<times> bool) \<times> World" where
  "ParseNodeStatusRespToNodeStatus cfg j n w =
     (let (rs, cr) = the (sj_service j); i = node_id n; role = RoleByStr (jval [] cr);
          (d, ok1) = read_fields (resource_fields cfg (the (sj_resource j))) (default_dynamic 0);
          (ps, ok2) = (if ok1 then ParseNodeStatusPeers j [] else ([], False));
          initStatic = (roleState n = ''RoleSwitching'' \<and> jval [] rs = ''RoleReady'' \<and> \<not> isStaticInfoinit n);
          ready = (roleState n = GetRoleStateName RS_READY \<and> role = node_role n)
      in if \<not> ok2 then ((False, False), upd_status (UpdateRoleState i (GetRoleStateName RS_UNKNOWN) False (isInitialized n)) w)
         else let w1 = upd_status (UpdateNodeDynamicStatus i role (jval [] rs) d ps) w;
                  w2 = (if initStatic \<and> IsReadyToUpdateNodeStaticInfo (status w1) i
                    then upd_status (UpdateNodeStaticInfo i d) w1 else w1);
                  w3 = (if pdSeparate cfg \<and> IsPostRoleNeeded i (status w2) then RecordRoleUnknown i (node_role n) w2 else w2)
              in ((True, ready), w3))"

definition UpdateNodeStatus :: "SrvCfg \<Rightarrow> NodeInfo \<Rightarrow> World \<Rightarrow> (bool \<times> bool) \<times> World" where
  "UpdateNodeStatus cfg n w = (let (r, w1) = send (GetStatus (node_id n)) w in
     case IsValidNodeStatusResp cfg r of
       Some j \<Rightarrow> ParseNodeStatusRespToNodeStatus cfg j n w1
     | None \<Rightarrow> ((False, False), upd_status (UpdateRoleState (node_id n) (GetRoleStateName RS_UNKNOWN) False (isInitialized n))
         (w1\<lparr>outbox := outbox w1 @ [ServerException (node_id n) (r = NoReply)]\<rparr>)))"

definition TerminateService :: "NodeInfo \<Rightarrow> World \<Rightarrow> bool \<times> World" where
  "TerminateService n w = (let (r, w1) = send (StopService (node_id n)) w in (r \<noteq> NoReply \<and> r \<noteq> ErrorReply, w1))"

subsection \<open>Giving a role\<close>

text \<open>The debug message of these two reads the first server, so a prefill or decode node needs one.\<close>

definition SetSpSizeForNodes :: "SrvCfg \<Rightarrow> NodeInfo \<Rightarrow> NodeInfo option" where
  "SetSpSizeForNodes cfg n = (case node_role n of
     PREFILL_INSTANCE \<Rightarrow> if serverInfoList n = [] then None
       else Some (n\<lparr>serverInfoList := map (spSize_update (\<lambda>_. pSpSize cfg)) (serverInfoList n)\<rparr>)
   | DECODE_INSTANCE \<Rightarrow> if serverInfoList n = [] then None
       else Some (n\<lparr>serverInfoList := map (spSize_update (\<lambda>_. dSpSize cfg)) (serverInfoList n)\<rparr>)
   | _ \<Rightarrow> Some n)"

definition SetCpSizeForNodes :: "SrvCfg \<Rightarrow> NodeInfo \<Rightarrow> NodeInfo option" where
  "SetCpSizeForNodes cfg n = (case node_role n of
     PREFILL_INSTANCE \<Rightarrow> if serverInfoList n = [] then None
       else Some (n\<lparr>serverInfoList := map (cpSize_update (\<lambda>_. pCpSize cfg)) (serverInfoList n)\<rparr>)
   | DECODE_INSTANCE \<Rightarrow> if serverInfoList n = [] then None
       else Some (n\<lparr>serverInfoList := map (cpSize_update (\<lambda>_. dCpSize cfg)) (serverInfoList n)\<rparr>)
   | _ \<Rightarrow> Some n)"

text \<open>The peers a role message names: the ones in the table that are not deleted.\<close>

definition live_peers :: "NodeStatus \<Rightarrow> NodeInfo \<Rightarrow> (u64 \<times> NodeInfo) list" where
  "live_peers s n = List.map_filter (\<lambda>i. case GetNode i s of None \<Rightarrow> None
     | Some p \<Rightarrow> if deleteTime p > 0 then None else Some (i, p)) (nd_peers n)"

definition BuildPostRoleV2ReqBody :: "NodeStatus \<Rightarrow> NodeInfo \<Rightarrow> PostBody" where
  "BuildPostRoleV2ReqBody s n = BodyV2 (serverInfoList n) (map (serverInfoList \<circ> snd) (live_peers s n))"

text \<open>
  For a peer in a super pod the super pod of the local node is sent; a local node without one throws.
\<close>

definition peer_v1 :: "NodeInfo \<Rightarrow> u64 \<Rightarrow> NodeInfo \<Rightarrow> PeerV1 option" where
  "peer_v1 n i p = (let sv = hd (serverInfoList p);
       mk = \<lambda>x. \<lparr>pv_device = deviceInfos sv, pv_server_ip = nd_ip p, pv_id = i, pv_host_ip = nd_hostId p, pv_super_pod_id = x\<rparr>
     in case superPodId sv of None \<Rightarrow> Some (mk None)
        | Some _ \<Rightarrow> (case superPodId (hd (serverInfoList n)) of None \<Rightarrow> None | Some x \<Rightarrow> Some (mk (Some x))))"

fun peers_v1 :: "NodeInfo \<Rightarrow> (u64 \<times> NodeInfo) list \<Rightarrow> PeerV1 list option" where
  "peers_v1 n [] = Some []"
| "peers_v1 n ((i, p) # ps) = (if serverInfoList p = [] then peers_v1 n ps
     else case peer_v1 n i p of None \<Rightarrow> None | Some x \<Rightarrow> map_option ((#) x) (peers_v1 n ps))"

definition BuildLocalNodeInfo :: "SrvCfg \<Rightarrow> NodeInfo \<Rightarrow> LocalV1" where
  "BuildLocalNodeInfo cfg n = \<lparr>lv_device = (case serverInfoList n of [] \<Rightarrow> [] | sv # _ \<Rightarrow> deviceInfos sv), lv_server_ip = nd_ip n, lv_id = node_id n,
     lv_p_percentage = (if node_role n = FLEX_INSTANCE then Some (st_flexPRatio (staticInfo (instanceInfo n))) else None),
     lv_instance_idx_in_pod = instanceIdxInPod n, lv_num_instances_per_pod = numInstancesPerPod n,
     lv_is_single_container = singleContainer cfg, lv_host_ip = nd_hostId n,
     lv_super_pod_id = (case serverInfoList n of [] \<Rightarrow> None | sv # _ \<Rightarrow> superPodId sv)\<rparr>"

definition BuildPostRoleReqBody :: "SrvCfg \<Rightarrow> NodeStatus \<Rightarrow> NodeInfo \<Rightarrow> PostBody option" where
  "BuildPostRoleReqBody cfg s n = (if serverInfoList n = [] then Some EmptyBody
     else map_option (BodyV1 (BuildLocalNodeInfo cfg n)) (peers_v1 n (live_peers s n)))"

text \<open>
  The answer to a role message is asked for again while the server is still switching, at most 1440 times and only as
  long as the rank table stays the same.
\<close>

fun LoopPostPDRole :: "nat \<Rightarrow> int \<Rightarrow> NodeInfo \<Rightarrow> PostBody \<Rightarrow> World \<Rightarrow> bool \<times> World" where
  "LoopPostPDRole 0 t0 n b w = (False, w)"
| "LoopPostPDRole (Suc k) t0 n b w =
     (let (r, w1) = send (PostRole (node_id n) (node_role n) b) w;
          lost = upd_status (UpdateRoleState (node_id n) (GetRoleStateName RS_UNKNOWN) False False) w1
      in case r of
           NoReply \<Rightarrow> (False, lost)
         | ErrorReply \<Rightarrow> (False, lost)
         | NotJson \<Rightarrow> (False, lost)
         | ResultMsg f \<Rightarrow> (case jget f of None \<Rightarrow> (False, w1)
             | Some x \<Rightarrow> if x = ''ok''
                 then (True, upd_status (UpdateRoleState (node_id n) (GetRoleStateName RS_SWITCHING) True True) w1)
                 else if GetRanktableChangeTime (status w1) \<noteq> t0 \<and> t0 \<noteq> - 1 then (False, w1)
                 else LoopPostPDRole k t0 n b w1)
         | _ \<Rightarrow> (False, w1))"

definition ROLE_RETRY_TIMES :: nat where "ROLE_RETRY_TIMES = 1440"

definition PostSingleRole :: "SrvCfg \<Rightarrow> NodeInfo \<Rightarrow> World \<Rightarrow> (bool \<times> World) option" where
  "PostSingleRole cfg n0 w = Option.bind (SetSpSizeForNodes cfg n0) (\<lambda>n1. Option.bind (SetCpSizeForNodes cfg n1) (\<lambda>n.
     if node_role n = UN_DEF_INSTANCE then Some (False, w)
     else map_option (\<lambda>b. LoopPostPDRole ROLE_RETRY_TIMES (GetRanktableChangeTime (status w)) n b w)
       (if multiNode cfg then Some (BuildPostRoleV2ReqBody (status w) n) else BuildPostRoleReqBody cfg (status w) n)))"

definition PostSingleRoleById :: "SrvCfg \<Rightarrow> u64 \<Rightarrow> World \<Rightarrow> (bool \<times> World) option" where
  "PostSingleRoleById cfg i w = (case GetNode i (status w) of None \<Rightarrow> Some (False, w)
     | Some n \<Rightarrow> if deleteTime n > 0 then Some (True, w) else PostSingleRole cfg n w)"

fun batch_post :: "SrvCfg \<Rightarrow> int \<Rightarrow> u64 list \<Rightarrow> u64 list \<Rightarrow> World \<Rightarrow> (u64 list \<times> World) option" where
  "batch_post cfg t0 [] acc w = Some (acc, w)"
| "batch_post cfg t0 (i # is) acc w = (if t0 \<noteq> GetRanktableChangeTime (status w) then Some (acc, w)
     else case PostSingleRoleById cfg i w of None \<Rightarrow> None
       | Some (ok, w1) \<Rightarrow> batch_post cfg t0 is (if ok then acc @ [i] else acc) w1)"

definition BatchPostRole :: "SrvCfg \<Rightarrow> u64 list \<Rightarrow> World \<Rightarrow> (u64 list \<times> World) option" where
  "BatchPostRole cfg is w = batch_post cfg (GetRanktableChangeTime (status w)) is [] w"

subsection \<open>Waiting for readiness\<close>

text \<open>One attempt over all ids: the ids found ready so far, the number of unknown ones, the world.\<close>

fun check_round :: "SrvCfg \<Rightarrow> u64 list \<Rightarrow> u64 list \<Rightarrow> nat \<Rightarrow> World \<Rightarrow> u64 list \<times> nat \<times> World" where
  "check_round cfg [] ret unk w = (ret, unk, w)"
| "check_round cfg (i # is) ret unk w = (case GetNode i (status w) of
     None \<Rightarrow> check_round cfg is ret unk w
   | Some n \<Rightarrow> (let ((ok, ready), w1) = UpdateNodeStatus cfg n w in
       if \<not> ok then check_round cfg is ret unk w1
       else if ready then check_round cfg is (add_once i ret) unk w1
       else check_round cfg is ret (if ns_GetRoleState i (status w1) = GetRoleStateName RS_UNKNOWN then unk + 1 else unk) w1))"

fun check_rounds :: "SrvCfg \<Rightarrow> nat \<Rightarrow> u64 list \<Rightarrow> u64 list \<Rightarrow> World \<Rightarrow> u64 list \<times> World" where
  "check_rounds cfg 0 is ret w = (ret, w)"
| "check_rounds cfg (Suc k) is ret w = (let (ret1, unk, w1) = check_round cfg is ret 0 w in
     if unk + length ret1 = length is then (ret1, w1) else check_rounds cfg k is ret1 w1)"

definition UpdateIsInitializingStaticTotalInfo :: "u64 list \<Rightarrow> bool \<Rightarrow> InferenceType \<Rightarrow> World \<Rightarrow> World" where
  "UpdateIsInitializingStaticTotalInfo is b t w = (if b then upd_status (fold (\<lambda>i. UpdateInferenceType i t) is) w else w)"

definition CheckStatus :: "SrvCfg \<Rightarrow> u64 list \<Rightarrow> bool \<Rightarrow> nat \<Rightarrow> World \<Rightarrow> u64 list \<times> World" where
  "CheckStatus cfg is initStatic override w = (if is = [] then ([], w)
     else let w1 = UpdateIsInitializingStaticTotalInfo is initStatic INITIALIZING_STATIC_TOTAL_INFO w;
              (ret, w2) = check_rounds cfg (if override > 0 then override else checkRoleAttempts cfg) is [] w1
          in (ret, UpdateIsInitializingStaticTotalInfo is initStatic AVAILABLE w2))"

subsection \<open>Detecting servers\<close>

definition GRTChanged :: "int \<Rightarrow> World \<Rightarrow> bool" where
  "GRTChanged t0 w \<longleftrightarrow> GetRanktableChangeTime (status w) \<noteq> t0 \<and> t0 \<noteq> - 1"

text \<open>One attempt over all nodes; \<^const>\<open>None\<close> in the first place when the rank table changed on the way.\<close>

fun detect_round :: "SrvCfg \<Rightarrow> int \<Rightarrow> NodeInfo list \<Rightarrow> u64 set \<Rightarrow> World \<Rightarrow> (NodeInfo list \<times> u64 set) option \<times> World" where
  "detect_round cfg t0 [] fin w = (Some ([], fin), w)"
| "detect_round cfg t0 (n # ns) fin w =
     (if GRTChanged t0 w then (None, w)
      else let (n1, fin1, w1) =
             (if node_id n \<in> fin then (n, fin, w)
              else let (ok1, na, wa) = QueryInstanceInfo n w in
                if \<not> ok1 then (na, fin, wa)
                else let ((ok2, _), nb, wb) = UpdateNodeInfo cfg True na wa in
                  (nb, if ok2 then insert (node_id nb) fin else fin, wb));
           (res, w2) = detect_round cfg t0 ns fin1 w1
      in (map_option (\<lambda>(rest, f). (n1 # rest, f)) res, w2))"

fun detect_rounds :: "SrvCfg \<Rightarrow> nat \<Rightarrow> int \<Rightarrow> NodeInfo list \<Rightarrow> u64 set \<Rightarrow> World \<Rightarrow> (NodeInfo list \<times> u64 set) option \<times> World" where
  "detect_rounds cfg 0 t0 ns fin w = (Some (ns, fin), w)"
| "detect_rounds cfg (Suc k) t0 ns fin w = (case detect_round cfg t0 ns fin w of
     (None, w1) \<Rightarrow> (None, w1)
   | (Some (ns1, fin1), w1) \<Rightarrow> if card fin1 = length ns1 then (Some (ns1, fin1), w1)
       else if GRTChanged t0 w1 then (None, w1) else detect_rounds cfg k t0 ns1 fin1 w1)"

definition CheckGroupNodeAvailable :: "u64 set \<Rightarrow> NodeInfo \<Rightarrow> bool" where
  "CheckGroupNodeAvailable fin n = (if \<not> isDistribute n then node_id n \<in> fin
     else node_id n \<in> fin \<and> list_all (\<lambda>p. p \<in> fin) (dpGroupPeers n))"

definition GetAvailableNodes :: "SrvCfg \<Rightarrow> NodeInfo list \<Rightarrow> nat \<Rightarrow> World \<Rightarrow> (NodeInfo list \<times> NodeInfo list) option \<times> World" where
  "GetAvailableNodes cfg ns retryTimes w =
     (case detect_rounds cfg (if retryTimes = 0 then serverOnlineAttempts cfg else retryTimes)
        (GetRanktableChangeTime (status w)) ns {} w of
      (None, w1) \<Rightarrow> (None, w1)
    | (Some (ns1, fin), w1) \<Rightarrow> (Some (filter (CheckGroupNodeAvailable fin) ns1, filter (\<lambda>n. \<not> CheckGroupNodeAvailable fin n) ns1), w1))"

end
