(* ===== verification/Server_Effects.thy ===== *)
theory Server_Effects
  imports Server_Requests
begin

text \<open>
  What the requests of \<open>Server_Requests\<close> leave untouched. Giving roles changes only the role state and the two flags of
  the nodes (\<open>soft\<close>), asking for the status changes a node's report as well (\<open>report_only\<close>); neither adds, removes or
  deletes a node, moves it to another group or changes its peers. Detecting servers does not touch the table.
\<close>

subsection \<open>Frames\<close>

text \<open>\<open>frame f\<close>: the two tables have the same nodes up to the fields that \<open>f\<close> hides, the same groups and expired ids.\<close>

definition frame :: "(NodeInfo \<Rightarrow> NodeInfo) \<Rightarrow> NodeStatus \<Rightarrow> NodeStatus \<Rightarrow> bool" where
  "frame f s s' \<longleftrightarrow> (\<forall>i. map_option f (map_of (mNodes s') i) = map_option f (map_of (mNodes s) i))
     \<and> mGroups s' = mGroups s \<and> mFlexGroups s' = mFlexGroups s \<and> mExpiredNodeIds s' = mExpiredNodeIds s
     \<and> mFaultyNodes s' = mFaultyNodes s \<and> mFaultyGroups s' = mFaultyGroups s \<and> mFaultyFlexGroups s' = mFaultyFlexGroups s
     \<and> (omap_ok (mNodes s) \<longrightarrow> omap_ok (mNodes s'))"

definition hide_soft :: "NodeInfo \<Rightarrow> NodeInfo" where
  "hide_soft n = n\<lparr>roleState := [], isHealthy := False, isInitialized := False\<rparr>"

text \<open>What a status report never touches.\<close>

definition hide_report :: "NodeInfo \<Rightarrow> NodeInfo" where
  "hide_report n = upd_static (\<lambda>st. st\<lparr>st_totalSlotsNum := 0, st_totalBlockNum := 0\<rparr>)
     (n\<lparr>roleState := [], isHealthy := False, isInitialized := False, currentRole := UN_DEF_INSTANCE, activePeers := [],
        isRoleChangeNode := False, inferenceType := AVAILABLE,
        instanceInfo := (instanceInfo n)\<lparr>dynamicInfo := default_dynamic 0\<rparr>\<rparr>)"

abbreviation soft :: "NodeStatus \<Rightarrow> NodeStatus \<Rightarrow> bool" where "soft \<equiv> frame hide_soft"
abbreviation report_only :: "NodeStatus \<Rightarrow> NodeStatus \<Rightarrow> bool" where "report_only \<equiv> frame hide_report"

lemma frame_refl [simp, intro]: "frame f s s" by (simp add: frame_def)

lemma frame_trans [trans]: "frame f s t \<Longrightarrow> frame f t u \<Longrightarrow> frame f s u" by (simp add: frame_def)

lemma frame_weaken:
  assumes "frame f s s'" and "\<And>n. h (f n) = h n" shows "frame h s s'"
proof -
  have "map_option h (map_of (mNodes s') i) = map_option h (map_of (mNodes s) i)" for i
  proof -
    have "map_option h (map_option f (map_of (mNodes s') i)) = map_option h (map_option f (map_of (mNodes s) i))"
      using assms(1) by (simp add: frame_def)
    then show ?thesis by (simp add: option.map_comp comp_def assms(2))
  qed
  with assms(1) show ?thesis by (simp add: frame_def)
qed

lemma frame_upd_node:
  assumes "\<And>n. f (g n) = f n" shows "frame f s (upd_node i g s)"
  using assms by (auto simp: frame_def upd_node_mNodes option.map_comp comp_def)
    (auto simp: upd_node_def split: option.splits)

lemma frame_ranktable [simp]: "frame f s (UpdateRanktableChangeTime now s)"
  by (simp add: frame_def status_ops)

lemma soft_report: "soft s s' \<Longrightarrow> report_only s s'"
  by (erule frame_weaken) (simp add: hide_soft_def hide_report_def upd_static_def)

lemma frame_lookup:
  assumes "frame f s s'" shows "GetNode i s = None \<longleftrightarrow> GetNode i s' = None"
    and "GetNode i s' = Some n' \<Longrightarrow> \<exists>n. GetNode i s = Some n \<and> f n = f n'"
    and "GetNode i s = Some n \<Longrightarrow> \<exists>n'. GetNode i s' = Some n' \<and> f n = f n'"
proof -
  have e: "map_option f (map_of (mNodes s') i) = map_option f (map_of (mNodes s) i)" using assms by (simp add: frame_def)
  show "GetNode i s = None \<longleftrightarrow> GetNode i s' = None" using e by (auto simp: GetNode_def)
  show "GetNode i s' = Some n' \<Longrightarrow> \<exists>n. GetNode i s = Some n \<and> f n = f n'"
    using e by (cases "map_of (mNodes s) i") (auto simp: GetNode_def)
  show "GetNode i s = Some n \<Longrightarrow> \<exists>n'. GetNode i s' = Some n' \<and> f n = f n'"
    using e by (cases "map_of (mNodes s') i") (auto simp: GetNode_def)
qed

lemma hide_report_eq:
  assumes "hide_report a = hide_report b"
  shows "node_id a = node_id b" "node_role a = node_role b" "node_group a = node_group b" "nd_peers a = nd_peers b"
    "deleteTime a = deleteTime b" "serverInfoList a = serverInfoList b" "dpGroupPeers a = dpGroupPeers b"
  using assms
  by (auto simp: hide_report_def upd_static_def
      dest: arg_cong [where f = "\<lambda>n. node_id n"] arg_cong [where f = "\<lambda>n. node_role n"] arg_cong [where f = "\<lambda>n. node_group n"]
        arg_cong [where f = nd_peers] arg_cong [where f = deleteTime] arg_cong [where f = serverInfoList] arg_cong [where f = dpGroupPeers])

lemma hide_soft_report: "hide_soft a = hide_soft b \<Longrightarrow> hide_report a = hide_report b"
proof -
  assume "hide_soft a = hide_soft b"
  then have "hide_report (hide_soft a) = hide_report (hide_soft b)" by simp
  then show ?thesis by (simp add: hide_soft_def hide_report_def upd_static_def)
qed

subsection \<open>Frames of the requests\<close>

lemma send_frame: "send m w = (r, w') \<Longrightarrow> frame f (status w) (status w')"
  by (auto simp: send_def split: list.splits prod.splits option.splits)

lemma send_outbox: "send m w = (r, w') \<Longrightarrow> outbox w' = outbox w @ [m]"
  by (auto simp: send_def split: list.splits prod.splits)

lemma UpdateRoleState_soft: "soft s (UpdateRoleState i rs h ini s)"
  unfolding UpdateRoleState_def by (rule frame_upd_node) (simp add: hide_soft_def)

lemma LoopPost_soft: "LoopPostPDRole k t0 n b w = (ok, w') \<Longrightarrow> soft (status w) (status w')"
proof (induction k arbitrary: w)
  case (Suc k)
  obtain r w1 where s: "send (PostRole (node_id n) (node_role n) b) w = (r, w1)" by fastforce
  have 1: "soft (status w) (status w1)" by (rule send_frame [OF s])
  have 2: "soft (status w) (UpdateRoleState i rs h ini (status w1))" for i rs h ini
    by (rule frame_trans [OF 1 UpdateRoleState_soft])
  have 3: "soft (status w) (status w')" if "LoopPostPDRole k t0 n b w1 = (ok, w')"
    by (rule frame_trans [OF 1 Suc.IH [OF that]])
  show ?case using Suc.prems s 1 2 3
    by (auto simp: Let_def split: Reply.splits option.splits if_splits)
qed simp

subsection \<open>What a role message says\<close>

text \<open>The peers named in the message to \<open>n\<close> are those of its peers that the table has and has not deleted.\<close>

definition live :: "NodeStatus \<Rightarrow> u64 \<Rightarrow> NodeInfo \<Rightarrow> bool" where
  "live s i m \<longleftrightarrow> GetNode i s = Some m \<and> \<not> deleteTime m > 0"

fun names_live :: "NodeStatus \<Rightarrow> NodeInfo \<Rightarrow> PostBody \<Rightarrow> bool" where
  "names_live s n EmptyBody \<longleftrightarrow> serverInfoList n = []"
| "names_live s n (BodyV1 l ps) \<longleftrightarrow> lv_id l = node_id n
     \<and> pv_id ` set ps = {i \<in> set (nd_peers n). \<exists>m. live s i m \<and> serverInfoList m \<noteq> []}"
| "names_live s n (BodyV2 l pss) \<longleftrightarrow> set pss = {serverInfoList m |m. \<exists>i \<in> set (nd_peers n). live s i m}"

lemma live_peers_set: "set (live_peers s n) = {(i, m). i \<in> set (nd_peers n) \<and> live s i m}"
  by (auto simp: live_peers_def List.map_filter_def live_def image_iff split: option.splits if_splits) force+

lemma peers_v1_ids:
  "peers_v1 n ps = Some qs \<Longrightarrow> pv_id ` set qs = {i. \<exists>m. (i, m) \<in> set ps \<and> serverInfoList m \<noteq> []}"
proof (induction n ps arbitrary: qs rule: peers_v1.induct)
  case (2 n i p ps)
  show ?case
  proof (cases "serverInfoList p = []")
    case True
    with 2 show ?thesis by auto
  next
    case False
    with 2(3) obtain x xs where x: "peer_v1 n i p = Some x" "peers_v1 n ps = Some xs" "qs = x # xs" by (auto split: option.splits)
    have "pv_id x = i" using x(1) by (auto simp: peer_v1_def Let_def split: option.splits)
    with 2(2) [OF False x(1,2)] x(3) False show ?thesis by auto
  qed
qed simp

lemma V2_names: "names_live s n (BuildPostRoleV2ReqBody s n)"
  by (auto simp: BuildPostRoleV2ReqBody_def live_peers_set image_iff) force

lemma V1_names: "BuildPostRoleReqBody cfg s n = Some b \<Longrightarrow> names_live s n b"
  by (auto simp: BuildPostRoleReqBody_def BuildLocalNodeInfo_def live_peers_set peers_v1_ids simp del: peers_v1.simps split: if_splits)

lemma sizes_keep:
  assumes "SetSpSizeForNodes cfg a = Some b \<or> SetCpSizeForNodes cfg a = Some b"
  shows "node_id b = node_id a" "node_role b = node_role a" "nd_peers b = nd_peers a" "serverInfoList b = [] \<longleftrightarrow> serverInfoList a = []"
  using assms by (auto simp: SetSpSizeForNodes_def SetCpSizeForNodes_def split: DIGSInstanceRole.splits if_splits)

lemma names_live_cong:
  assumes "names_live s n b" "node_id n = node_id n'" "nd_peers n = nd_peers n'" "serverInfoList n = [] \<longleftrightarrow> serverInfoList n' = []"
  shows "names_live s n' b"
  using assms by (cases b) auto

lemma names_live_frame:
  assumes "soft s s'" and "names_live s' n b" and "hide_report n = hide_report n'" shows "names_live s n' b"
proof -
  have 1: "\<exists>m. live s i m \<and> serverInfoList m = x" if "live s' i m" "serverInfoList m = x" for i m x
  proof -
    from that frame_lookup(2) [OF assms(1), of i m] obtain k where k: "GetNode i s = Some k" "hide_soft k = hide_soft m" by (auto simp: live_def)
    with that hide_report_eq(5,6) [OF hide_soft_report [OF k(2)]] show ?thesis by (auto simp: live_def)
  qed
  have 2: "\<exists>m. live s' i m \<and> serverInfoList m = x" if "live s i m" "serverInfoList m = x" for i m x
  proof -
    from that frame_lookup(3) [OF assms(1), of i m] obtain k where k: "GetNode i s' = Some k" "hide_soft m = hide_soft k" by (auto simp: live_def)
    with that hide_report_eq(5,6) [OF hide_soft_report [OF k(2)]] show ?thesis by (auto simp: live_def)
  qed
  have a: "(\<exists>m. live s' i m \<and> serverInfoList m \<noteq> []) \<longleftrightarrow> (\<exists>m. live s i m \<and> serverInfoList m \<noteq> [])" for i using 1 2 by metis
  have b: "{serverInfoList m |m. \<exists>i \<in> A. live s' i m} = {serverInfoList m |m. \<exists>i \<in> A. live s i m}" for A
    using 1 2 by (auto, metis+)
  show ?thesis using assms(2) hide_report_eq [OF assms(3)] by (cases b) (simp_all add: a b)
qed

lemma LoopPost_sent:
  "LoopPostPDRole k t0 n b w = (ok, w') \<Longrightarrow> \<exists>j. outbox w' = outbox w @ replicate j (PostRole (node_id n) (node_role n) b)"
proof (induction k arbitrary: w)
  case 0
  then show ?case by (auto intro: exI [of _ 0])
next
  case (Suc k)
  obtain r w1 where s: "send (PostRole (node_id n) (node_role n) b) w = (r, w1)" by fastforce
  have 1: "outbox w1 = outbox w @ [PostRole (node_id n) (node_role n) b]" by (rule send_outbox [OF s])
  have 2: "\<exists>j. outbox w1 = outbox w @ replicate j (PostRole (node_id n) (node_role n) b)" using 1 by (auto intro: exI [of _ 1])
  have 3: "\<exists>j. outbox w' = outbox w @ replicate j (PostRole (node_id n) (node_role n) b)" if "LoopPostPDRole k t0 n b w1 = (ok, w')"
  proof -
    from Suc.IH [OF that] obtain j where "outbox w' = outbox w1 @ replicate j (PostRole (node_id n) (node_role n) b)" by blast
    with 1 show ?thesis by (auto intro: exI [of _ "Suc j"])
  qed
  show ?case using Suc.prems s 2 3 by (auto simp: Let_def split: Reply.splits option.splits if_splits)
qed

lemma PostSingleRole_effect:
  assumes "PostSingleRole cfg n w = Some (ok, w')"
  shows "soft (status w) (status w')"
    and "\<exists>ms. outbox w' = outbox w @ ms \<and> (\<forall>m \<in> set ms. \<exists>b. m = PostRole (node_id n) (node_role n) b \<and> names_live (status w) n b)"
proof -
  from assms obtain n1 n2 where n: "SetSpSizeForNodes cfg n = Some n1" "SetCpSizeForNodes cfg n1 = Some n2"
    by (auto simp: PostSingleRole_def bind_eq_Some_conv)
  note keep = sizes_keep [OF disjI1 [OF n(1)]] sizes_keep [OF disjI2 [OF n(2)]]
  have "soft (status w) (status w') \<and>
    (\<exists>ms. outbox w' = outbox w @ ms \<and> (\<forall>m \<in> set ms. \<exists>b. m = PostRole (node_id n) (node_role n) b \<and> names_live (status w) n b))"
  proof (cases "node_role n2 = UN_DEF_INSTANCE")
    case True
    with assms n show ?thesis by (simp add: PostSingleRole_def)
  next
    case False
    with assms n obtain b where b: "(if multiNode cfg then Some (BuildPostRoleV2ReqBody (status w) n2) else BuildPostRoleReqBody cfg (status w) n2) = Some b"
      and l: "LoopPostPDRole ROLE_RETRY_TIMES (GetRanktableChangeTime (status w)) n2 b w = (ok, w')"
      by (auto simp: PostSingleRole_def simp del: LoopPostPDRole.simps)
    have "names_live (status w) n2 b" using b V2_names V1_names by (auto split: if_splits)
    with keep have "names_live (status w) n b" by (auto elim: names_live_cong)
    with LoopPost_sent [OF l] LoopPost_soft [OF l] keep show ?thesis by (auto simp: set_replicate_conv_if)
  qed
  then show "soft (status w) (status w')"
    and "\<exists>ms. outbox w' = outbox w @ ms \<and> (\<forall>m \<in> set ms. \<exists>b. m = PostRole (node_id n) (node_role n) b \<and> names_live (status w) n b)"
    by blast+
qed

text \<open>\<open>posts s i m\<close>: \<open>m\<close> is a role message to the live node \<open>i\<close> that names exactly its live peers.\<close>

definition posts :: "NodeStatus \<Rightarrow> u64 set \<Rightarrow> Sent \<Rightarrow> bool" where
  "posts s A m \<longleftrightarrow> (\<exists>i n b. m = PostRole (node_id n) (node_role n) b \<and> i \<in> A \<and> live s i n \<and> names_live s n b)"

lemma posts_frame: assumes "soft s s'" "posts s' A m" shows "posts s A m"
proof -
  from assms(2) obtain i n b where m: "m = PostRole (node_id n) (node_role n) b" "i \<in> A" "live s' i n" "names_live s' n b"
    by (auto simp: posts_def)
  from m(3) frame_lookup(2) [OF assms(1)] obtain k where k: "GetNode i s = Some k" "hide_soft k = hide_soft n"
    by (auto simp: live_def)
  note e = hide_soft_report [OF k(2)]
  from m(3) hide_report_eq [OF e] have "live s i k" by (simp add: live_def k)
  moreover have "names_live s k b" by (rule names_live_frame [OF assms(1) m(4) e [symmetric]])
  ultimately show ?thesis using m(1,2) hide_report_eq [OF e] by (auto simp: posts_def intro!: exI [of _ i] exI [of _ k])
qed

lemma posts_mono: "posts s A m \<Longrightarrow> A \<subseteq> B \<Longrightarrow> posts s B m"
  by (auto simp: posts_def)

lemma PostSingleRoleById_effect:
  assumes "PostSingleRoleById cfg i w = Some (ok, w')"
  shows "soft (status w) (status w') \<and> (\<exists>ms. outbox w' = outbox w @ ms \<and> (\<forall>m \<in> set ms. posts (status w) {i} m))"
proof (cases "\<exists>n. GetNode i (status w) = Some n \<and> \<not> deleteTime n > 0")
  case True
  then obtain n where n: "GetNode i (status w) = Some n" "\<not> deleteTime n > 0" by blast
  with assms have "PostSingleRole cfg n w = Some (ok, w')" by (simp add: PostSingleRoleById_def)
  from PostSingleRole_effect [OF this] n show ?thesis by (fastforce simp: posts_def live_def)
next
  case False
  with assms show ?thesis by (auto simp: PostSingleRoleById_def split: option.splits if_splits)
qed

lemma batch_post_effect:
  "batch_post cfg t0 is acc w = Some (ok, w')
    \<Longrightarrow> soft (status w) (status w') \<and> (\<exists>ms. outbox w' = outbox w @ ms \<and> (\<forall>m \<in> set ms. posts (status w) (set is) m))"
proof (induction "is" arbitrary: acc w)
  case (Cons i "is")
  show ?case
  proof (cases "t0 \<noteq> GetRanktableChangeTime (status w)")
    case True
    with Cons.prems show ?thesis by auto
  next
    case False
    with Cons.prems obtain k w1 where 1: "PostSingleRoleById cfg i w = Some (k, w1)"
      and 2: "batch_post cfg t0 is (if k then acc @ [i] else acc) w1 = Some (ok, w')" by (auto split: option.splits)
    from PostSingleRoleById_effect [OF 1] obtain ms where s1: "soft (status w) (status w1)"
      and ms: "outbox w1 = outbox w @ ms" "\<forall>m \<in> set ms. posts (status w) {i} m" by blast
    from Cons.IH [OF 2] obtain ms' where s2: "soft (status w1) (status w')"
      and ms': "outbox w' = outbox w1 @ ms'" "\<forall>m \<in> set ms'. posts (status w1) (set is) m" by blast
    have "\<forall>m \<in> set (ms @ ms'). posts (status w) (set (i # is)) m"
      using ms(2) posts_mono [of "status w" "{i}"] ms'(2) posts_mono [OF posts_frame [OF s1]] by (auto simp: subset_insertI)
    with ms(1) ms'(1) frame_trans [OF s1 s2] show ?thesis by (intro conjI exI [of _ "ms @ ms'"]) auto
  qed
qed auto

lemma BatchPostRole_effect:
  assumes "BatchPostRole cfg is w = Some (ok, w')"
  shows "soft (status w) (status w')"
    and "\<exists>ms. outbox w' = outbox w @ ms \<and> (\<forall>m \<in> set ms. posts (status w) (set is) m)"
  using batch_post_effect assms by (auto simp: BatchPostRole_def)

lemma batch_post_ids: "batch_post cfg t0 is acc w = Some (ok, w') \<Longrightarrow> set ok \<subseteq> set acc \<union> set is"
  by (induction "is" arbitrary: acc w) (force split: option.splits if_splits)+

subsection \<open>Status queries\<close>

lemma RecordRoleUnknown_status [simp]: "status (RecordRoleUnknown i ro w) = status w"
  "outbox (RecordRoleUnknown i ro w) = outbox w"
  by (auto simp: RecordRoleUnknown_def split: DIGSInstanceRole.splits)

lemma DeleteRoleUnknown_status [simp]: "status (DeleteRoleUnknown i ro w) = status w"
  "outbox (DeleteRoleUnknown i ro w) = outbox w"
  by (auto simp: DeleteRoleUnknown_def split: DIGSInstanceRole.splits)

lemma report_steps:
  "report_only s (UpdateNodeDynamicStatus i ro rs d ps s)" "report_only s (UpdateNodeStaticInfo i d s)"
  "report_only s (UpdateRoleState i rs h ini s)" "report_only s (UpdateInferenceType i t s)"
  unfolding UpdateNodeDynamicStatus_def UpdateNodeStaticInfo_def UpdateRoleState_def UpdateInferenceType_def
  by (rule frame_upd_node; simp add: hide_report_def upd_static_def)+

lemma UpdateNodeStatus_report: "UpdateNodeStatus cfg n w = (r, w') \<Longrightarrow> report_only (status w) (status w')"
proof -
  assume a: "UpdateNodeStatus cfg n w = (r, w')"
  obtain q w1 where s: "send (GetStatus (node_id n)) w = (q, w1)" by fastforce
  have "report_only (status w1) (status w')"
    using a s report_steps [of "status w1"] frame_trans [OF report_steps(1,2)]
    by (auto simp: UpdateNodeStatus_def ParseNodeStatusRespToNodeStatus_def Let_def split: option.splits prod.splits if_splits)
  then show ?thesis using send_frame [OF s] frame_trans by blast
qed

lemma check_round_report: "check_round cfg is ret unk w = (a, b, w') \<Longrightarrow> report_only (status w) (status w')"
proof (induction "is" arbitrary: ret unk w)
  case (Cons i "is")
  show ?case
  proof (cases "GetNode i (status w)")
    case None
    with Cons show ?thesis by auto
  next
    case (Some n)
    obtain ok ready w1 where u: "UpdateNodeStatus cfg n w = ((ok, ready), w1)" by (metis prod.collapse)
    with Cons.prems Some obtain ret' unk' where "check_round cfg is ret' unk' w1 = (a, b, w')"
      by (auto simp: Let_def split: if_splits)
    from frame_trans [OF UpdateNodeStatus_report [OF u] Cons.IH [OF this]] show ?thesis .
  qed
qed auto

lemma check_rounds_report: "check_rounds cfg k is ret w = (a, w') \<Longrightarrow> report_only (status w) (status w')"
proof (induction k arbitrary: ret w)
  case (Suc k)
  obtain r1 u w1 where c: "check_round cfg is ret 0 w = (r1, u, w1)" by (metis prod.collapse)
  with Suc show ?case using check_round_report [OF c] frame_trans by (fastforce split: if_splits)
qed auto

lemma fold_inference_report: "report_only s (fold (\<lambda>i. UpdateInferenceType i t) is s)"
  by (induction "is" arbitrary: s) (auto intro: frame_trans [OF report_steps(4)])

lemma CheckStatus_report: "CheckStatus cfg is b k w = (a, w') \<Longrightarrow> report_only (status w) (status w')"
proof -
  assume a: "CheckStatus cfg is b k w = (a, w')"
  have u: "report_only (status v) (status (UpdateIsInitializingStaticTotalInfo is b t v))" for t v
    by (simp add: UpdateIsInitializingStaticTotalInfo_def fold_inference_report)
  let ?w1 = "UpdateIsInitializingStaticTotalInfo is b INITIALIZING_STATIC_TOTAL_INFO w"
  obtain r w2 where c: "check_rounds cfg (if k > 0 then k else checkRoleAttempts cfg) is [] ?w1 = (r, w2)" by fastforce
  show ?thesis using a u [where v = w] check_rounds_report [OF c] u [where v = w2] c frame_trans
    by (auto simp: CheckStatus_def Let_def split: if_splits) blast+
qed

subsection \<open>An example\<close>

definition ex_srv_cfg :: SrvCfg where
  "ex_srv_cfg = \<lparr>multiNode = False, pdSeparate = True, singleContainer = False, pSpSize = 1, pCpSize = 1, dSpSize = 1, dCpSize = 1,
     checkRoleAttempts = 1, serverOnlineAttempts = 1, initRoleAttempts = 1, validIp = (\<lambda>_. True)\<rparr>"

definition ex_member :: "u64 \<Rightarrow> DIGSInstanceRole \<Rightarrow> u64 list \<Rightarrow> NodeInfo" where
  "ex_member i ro ps = upd_static (\<lambda>st. st\<lparr>st_id := i, st_role := ro\<rparr>) default_node\<lparr>nd_peers := ps, isHealthy := True, isInitialized := True,
     roleState := ''RoleReady'', currentRole := ro,
     serverInfoList := [\<lparr>sv_hostId = [], sv_ip = [], deviceInfos = [], dpGroupInfos = [], sv_isMaster = True, superPodId = None, spSize = 1, cpSize = 1\<rparr>]\<rparr>"

definition ex_status_msg :: "string \<Rightarrow> u64 \<Rightarrow> Reply" where
  "ex_status_msg ro peer = StatusMsg \<lparr>sj_service = Some (Val ''RoleReady'', Val ro),
     sj_resource = Some \<lparr>rj_availSlots = Val 10, rj_availBlocks = Val 10, rj_totalAvailNpuSlots = Missing, rj_totalAvailNpuBlocks = Missing,
       rj_maxAvailNpuBlocks = Missing, rj_waiting = Val 0, rj_running = Val 0, rj_swapped = Val 0, rj_freeNpu = Val 0, rj_freeCpu = Val 0,
       rj_totalNpu = Val 0, rj_totalCpu = Val 0\<rparr>,
     sj_peers = Missing, sj_linkPeers = Some [(Val peer, Val ''ok'')]\<rparr>"

definition ex_ok :: "Reply \<times> int option" where "ex_ok = (ResultMsg (Val ''ok''), None)"

definition ex_world :: "(Reply \<times> int option) list \<Rightarrow> World" where
  "ex_world replies = \<lparr>status = empty_status\<lparr>mNodes := [(1, ex_member 1 PREFILL_INSTANCE [2]), (2, ex_member 2 DECODE_INSTANCE [1])],
     mGroups := [(0, ([1], [2]))]\<rparr>, inbox = replies, outbox = [], mRoleUnknownPIds = [], mRoleUnknownDIds = [], mRoleUnknownFlexIds = []\<rparr>"

fun v1_to :: "u64 \<Rightarrow> Sent \<Rightarrow> bool" where
  "v1_to p (PostRole q ro (BodyV1 l ps)) = (p = q)"
| "v1_to p _ = False"

lemma v1_toD: "v1_to p m \<Longrightarrow> \<exists>ro l ps. m = PostRole p ro (BodyV1 l ps)"
  by (cases "(p, m)" rule: v1_to.cases) auto

text \<open>C19: a batch of role messages goes only to nodes of the table that are not deleted, each gets the role the table has for it, and the
  peers a message names are exactly those of the node's peers that are in the table, not deleted and have a
  server to connect to. A removed or deleted instance is never announced as a peer.\<close>

theorem role_messages_name_live_peers:
  assumes "BatchPostRole cfg is w = Some (success, w')" and "status_ok (status w)"
    and "m \<in> set (drop (length (outbox w)) (outbox w'))"
  shows "\<exists>i n b. m = PostRole i (node_role n) b \<and> i \<in> set is \<and> GetNode i (status w) = Some n \<and> \<not> deleteTime n > 0
    \<and> names_live (status w) n b"
proof -
  from BatchPostRole_effect(2) [OF assms(1)] assms(3) have "posts (status w) (set is) m" by auto
  then obtain i n b where m: "m = PostRole (node_id n) (node_role n) b" "i \<in> set is" "live (status w) i n" "names_live (status w) n b"
    by (auto simp: posts_def)
  moreover have "node_id n = i" using m(3) assms(2) by (auto simp: live_def GetNode_def status_ok_def keyed_def)
  ultimately show ?thesis by (auto simp: live_def)
qed

lemma ex_batch_post: "(case BatchPostRole ex_srv_cfg [1] (ex_world [ex_ok]) of None \<Rightarrow> False | Some (sc, w) \<Rightarrow> list_ex (v1_to 1) (outbox w))"
  by code_simp

lemma ex_world_simps: "outbox (ex_world r) = []" "status_ok (status (ex_world r))"
  "GetNode 1 (status (ex_world r)) = Some (ex_member 1 PREFILL_INSTANCE [2])" "GetNode 2 (status (ex_world r)) = Some (ex_member 2 DECODE_INSTANCE [1])"
  by (auto simp: ex_world_def status_ok_def keyed_def empty_status_def omap_simps ex_member_def upd_static_def default_node_def default_static_def GetNode_def
      split: if_splits)

theorem role_messages_name_live_peers_witness:
  "\<exists>sc w' ro l ps. BatchPostRole ex_srv_cfg [1] (ex_world [ex_ok]) = Some (sc, w')
     \<and> PostRole 1 ro (BodyV1 l ps) \<in> set (outbox w') \<and> 2 \<in> pv_id ` set ps"
proof -
  let ?w = "ex_world [ex_ok]"
  from ex_batch_post obtain sc w' ro l ps where w': "BatchPostRole ex_srv_cfg [1] ?w = Some (sc, w')" "PostRole 1 ro (BodyV1 l ps) \<in> set (outbox w')"
    by (auto simp: list_ex_iff split: option.splits dest!: v1_toD)
  have "PostRole 1 ro (BodyV1 l ps) \<in> set (drop (length (outbox ?w)) (outbox w'))" using w'(2) by (simp add: ex_world_simps)
  from role_messages_name_live_peers [OF w'(1) ex_world_simps(2) this]
  have "names_live (status ?w) (ex_member 1 PREFILL_INSTANCE [2]) (BodyV1 l ps)" by (auto simp: ex_world_simps)
  moreover have "live (status ?w) 2 (ex_member 2 DECODE_INSTANCE [1])" by (simp add: live_def ex_world_simps) (simp add: ex_member_def upd_static_def default_node_def)
  ultimately have "2 \<in> pv_id ` set ps" by (auto simp: ex_member_def)
  with w' show ?thesis by blast
qed

end
