(* ===== verification/Relink.thy ===== *)
theory Relink
  imports Server_Effects
begin

text \<open>
  Repairing links (\<^verbatim>\<open>NodeScheduler.cpp\<close>): nodes whose role is unknown are unlinked from their peers, given their role again and
  linked; a batch of nodes can be unlinked and linked after a network fault. \<^verbatim>\<open>GetNode\<close> hands out a copy, so what
  \<^verbatim>\<open>UnlinkNodeFromPeers\<close> and \<^verbatim>\<open>LinkNodeToPeers\<close> change in it is lost; only the list of nodes to write to remains.
\<close>

subsection \<open>Single nodes\<close>

definition post_and_check :: "SrvCfg \<Rightarrow> u64 list \<Rightarrow> World \<Rightarrow> World option" where
  "post_and_check cfg is w = (case BatchPostRole cfg is w of None \<Rightarrow> None
     | Some (success, w1) \<Rightarrow> Some (snd (CheckStatus cfg success False 0 w1)))"

definition UnlinkNodeFromPeers :: "SrvCfg \<Rightarrow> u64 \<Rightarrow> World \<Rightarrow> World option" where
  "UnlinkNodeFromPeers cfg i w = (case GetNode i (status w) of None \<Rightarrow> Some w
     | Some n \<Rightarrow> post_and_check cfg (filter (\<lambda>p. case GetNode p (status w) of None \<Rightarrow> False
         | Some m \<Rightarrow> i \<in> set (nd_peers m)) (nd_peers n)) w)"

definition LinkNodeToPeers :: "SrvCfg \<Rightarrow> u64 \<Rightarrow> World \<Rightarrow> World option" where
  "LinkNodeToPeers cfg i w = (case GetNode i (status w) of None \<Rightarrow> Some w
     | Some n \<Rightarrow> post_and_check cfg (filter (\<lambda>p. GetNode p (status w) \<noteq> None) (nd_peers n)) w)"

fun ProcessRoleUnknownForPD :: "SrvCfg \<Rightarrow> u64 list \<Rightarrow> World \<Rightarrow> World option" where
  "ProcessRoleUnknownForPD cfg [] w = Some w"
| "ProcessRoleUnknownForPD cfg (i # is) w =
     (if \<not> IsPostRoleNeeded i (status w) \<or> GetNode i (status w) = None then ProcessRoleUnknownForPD cfg is w
      else case UnlinkNodeFromPeers cfg i w of None \<Rightarrow> None
        | Some w1 \<Rightarrow> (case BatchPostRole cfg [i] (upd_status (AddInitRetryTimes i) w1) of None \<Rightarrow> None
            | Some (success, w2) \<Rightarrow> (case LinkNodeToPeers cfg i w2 of None \<Rightarrow> None
                | Some w3 \<Rightarrow> ProcessRoleUnknownForPD cfg is (snd (CheckStatus cfg success False 0 w3)))))"

definition ProcessRoleUnknown :: "SrvCfg \<Rightarrow> World \<Rightarrow> World option" where
  "ProcessRoleUnknown cfg w = (let p = mRoleUnknownPIds w; d = mRoleUnknownDIds w; f = mRoleUnknownFlexIds w in
     if p = [] \<and> d = [] \<and> f = [] then Some w
     else Option.bind (ProcessRoleUnknownForPD cfg p (w\<lparr>mRoleUnknownPIds := [], mRoleUnknownDIds := [], mRoleUnknownFlexIds := []\<rparr>))
       (\<lambda>w1. Option.bind (ProcessRoleUnknownForPD cfg d w1) (ProcessRoleUnknownForPD cfg f)))"

text \<open>The main loop sleeps on this condition, which does not look at the flex instances.\<close>

definition ShouldSleep :: "bool \<Rightarrow> DIGSRoleDecision list \<Rightarrow> World \<Rightarrow> bool" where
  "ShouldSleep run ds w \<longleftrightarrow> run \<and> mRoleUnknownPIds w = [] \<and> mRoleUnknownDIds w = [] \<and> ds = []"

subsection \<open>Batches\<close>

definition ready_peers :: "u64 \<Rightarrow> u64 \<Rightarrow> u64 list \<Rightarrow> NodeStatus \<Rightarrow> NodeStatus" where
  "ready_peers g i ps = UpdateRoleStateAndPeers g i (GetRoleStateName RS_READY) ps"

text \<open>The peers of one node: the flag is false when a peer is missing; the list grows by the peers that were rewritten.\<close>

fun unlink_peers :: "u64 \<Rightarrow> u64 list \<Rightarrow> u64 list \<Rightarrow> NodeStatus \<Rightarrow> bool \<times> u64 list \<times> NodeStatus" where
  "unlink_peers i [] post s = (True, post, s)"
| "unlink_peers i (p # ps) post s = (case GetNode p s of None \<Rightarrow> (False, post, s)
     | Some m \<Rightarrow> if i \<in> set (nd_peers m)
         then unlink_peers i ps (post @ [p]) (ready_peers (node_group m) p (remove1 i (nd_peers m)) s)
         else unlink_peers i ps post s)"

fun unlink_nodes :: "u64 list \<Rightarrow> u64 list \<Rightarrow> NodeStatus \<Rightarrow> bool \<times> u64 list \<times> NodeStatus" where
  "unlink_nodes [] post s = (True, post, s)"
| "unlink_nodes (i # is) post s = (case GetNode i s of None \<Rightarrow> (False, post, s)
     | Some n \<Rightarrow> if nd_peers n = [] then (False, post, s)
         else (case unlink_peers i (nd_peers n) post s of
             (False, post1, s1) \<Rightarrow> (False, post1, s1)
           | (True, post1, s1) \<Rightarrow> unlink_nodes is (post1 @ [i]) (ready_peers (node_group n) i [] s1)))"

definition sort_unique :: "u64 list \<Rightarrow> u64 list" where "sort_unique xs = remdups (sort xs)"

definition BatchUnlinkNodes :: "SrvCfg \<Rightarrow> u64 list \<Rightarrow> World \<Rightarrow> (bool \<times> World) option" where
  "BatchUnlinkNodes cfg is w = (case unlink_nodes is [] (status w) of
     (False, _, s1) \<Rightarrow> Some (False, w\<lparr>status := s1\<rparr>)
   | (True, post, s1) \<Rightarrow> map_option (\<lambda>(success, w1). (length success = length (sort_unique post), w1))
       (BatchPostRole cfg (sort_unique post) (w\<lparr>status := s1\<rparr>)))"

definition link_group :: "u64 \<Rightarrow> u64 list \<times> NodeStatus \<Rightarrow> u64 list \<times> NodeStatus" where
  "link_group g = (\<lambda>(post, s). let (ps, ds) = GetGroup g s in
     (post @ ps @ ds, fold (\<lambda>d. ready_peers g d ps) ds (fold (\<lambda>p. ready_peers g p ds) ps s)))"

definition group_ids :: "u64 list \<Rightarrow> NodeStatus \<Rightarrow> u64 list option" where
  "group_ids is s = (if list_all (\<lambda>i. GetNode i s \<noteq> None) is
     then Some (sort_unique (map (\<lambda>i. node_group (the (GetNode i s))) is)) else None)"

definition BatchLinkNodes :: "SrvCfg \<Rightarrow> u64 list \<Rightarrow> nat \<Rightarrow> World \<Rightarrow> (bool \<times> World) option" where
  "BatchLinkNodes cfg is attempts w = (case group_ids is (status w) of None \<Rightarrow> Some (False, w)
     | Some gs \<Rightarrow> (let (post0, s1) = fold link_group gs ([], status w); post = sort_unique post0 in
         case BatchPostRole cfg post (w\<lparr>status := s1\<rparr>) of None \<Rightarrow> None
         | Some (success, w1) \<Rightarrow> if length success \<noteq> length post then Some (False, w1)
             else (let (rdy, w2) = CheckStatus cfg post False attempts w1 in Some (\<not> length rdy < length post, w2))))"

definition ROCE_CHECK_STATUS_ATTEMPTS :: nat where "ROCE_CHECK_STATUS_ATTEMPTS = 10"

definition ProcessBatchUnlinkAndLink :: "SrvCfg \<Rightarrow> u64 list \<Rightarrow> World \<Rightarrow> (bool \<times> World) option" where
  "ProcessBatchUnlinkAndLink cfg is w = (if is = [] then Some (True, w)
     else case BatchUnlinkNodes cfg is w of None \<Rightarrow> None
       | Some (False, w1) \<Rightarrow> Some (False, w1)
       | Some (True, w1) \<Rightarrow> BatchLinkNodes cfg is ROCE_CHECK_STATUS_ATTEMPTS w1)"

subsection \<open>Unlinking writes the old peers\<close>

definition queries :: "Sent list \<Rightarrow> bool" where
  "queries ms = list_all (\<lambda>m. case m of PostRole _ _ _ \<Rightarrow> False | _ \<Rightarrow> True) ms"

lemma UpdateNodeStatus_sent: "UpdateNodeStatus cfg n w = (r, w') \<Longrightarrow> \<exists>ms. outbox w' = outbox w @ ms \<and> queries ms"
proof -
  assume a: "UpdateNodeStatus cfg n w = (r, w')"
  obtain q w1 where s: "send (GetStatus (node_id n)) w = (q, w1)" by fastforce
  from a s have "outbox w' = outbox w1 \<or> (\<exists>x y. outbox w' = outbox w1 @ [ServerException x y])"
    by (auto simp: UpdateNodeStatus_def ParseNodeStatusRespToNodeStatus_def Let_def split: option.splits prod.splits if_splits)
  with send_outbox [OF s] show ?thesis by (auto simp: queries_def)
qed

lemma check_round_sent: "check_round cfg is ret unk w = (a, b, w') \<Longrightarrow> \<exists>ms. outbox w' = outbox w @ ms \<and> queries ms"
proof (induction "is" arbitrary: ret unk w)
  case (Cons i "is")
  show ?case
  proof (cases "GetNode i (status w)")
    case None
    with Cons show ?thesis by auto
  next
    case (Some n)
    obtain ok ready w1 where u: "UpdateNodeStatus cfg n w = ((ok, ready), w1)" by (metis prod.collapse)
    with Cons.prems Some obtain ret' unk' where "check_round cfg is ret' unk' w1 = (a, b, w')"
      by (auto simp: Let_def split: if_splits)
    from Cons.IH [OF this] UpdateNodeStatus_sent [OF u] show ?thesis by (auto simp: queries_def)
  qed
qed (auto simp: queries_def)

lemma check_rounds_sent: "check_rounds cfg k is ret w = (a, w') \<Longrightarrow> \<exists>ms. outbox w' = outbox w @ ms \<and> queries ms"
proof (induction k arbitrary: ret w)
  case (Suc k)
  obtain r1 u w1 where c: "check_round cfg is ret 0 w = (r1, u, w1)" by (metis prod.collapse)
  from check_round_sent [OF c] obtain ms where "outbox w1 = outbox w @ ms" "queries ms" by blast
  with Suc c show ?case by (fastforce simp: queries_def split: if_splits)
qed (auto simp: queries_def)

lemma CheckStatus_sent: "CheckStatus cfg is b k w = (a, w') \<Longrightarrow> \<exists>ms. outbox w' = outbox w @ ms \<and> queries ms"
proof -
  assume a: "CheckStatus cfg is b k w = (a, w')"
  have o: "outbox (UpdateIsInitializingStaticTotalInfo is b t v) = outbox v" for t v
    by (simp add: UpdateIsInitializingStaticTotalInfo_def)
  let ?w1 = "UpdateIsInitializingStaticTotalInfo is b INITIALIZING_STATIC_TOTAL_INFO w"
  obtain r w2 where c: "check_rounds cfg (if k > 0 then k else checkRoleAttempts cfg) is [] ?w1 = (r, w2)" by fastforce
  from check_rounds_sent [OF c] a c o show ?thesis by (auto simp: CheckStatus_def Let_def queries_def split: if_splits)
qed

lemma post_and_check_sent:
  assumes "post_and_check cfg is w = Some w'" and "m \<in> set (drop (length (outbox w)) (outbox w'))"
  shows "posts (status w) (set is) m \<or> queries [m]"
proof -
  from assms(1) obtain ok w1 where b: "BatchPostRole cfg is w = Some (ok, w1)" and w': "w' = snd (CheckStatus cfg ok False 0 w1)"
    by (auto simp: post_and_check_def split: option.splits)
  obtain r where c: "CheckStatus cfg ok False 0 w1 = (r, w')" using w' by (metis prod.collapse)
  from BatchPostRole_effect(2) [OF b] CheckStatus_sent [OF c] assms(2) show ?thesis by (auto simp: queries_def list_all_iff)
qed

text \<open>C23: the request that is meant to unlink a node from its peers still tells each of them to link to it: every role message that
  \<open>UnlinkNodeFromPeers\<close> sends names the node among the peers, because the node was removed from a copy of the
  peer's entry only.\<close>

theorem unlink_message_still_names_node:
  assumes "UnlinkNodeFromPeers cfg i w = Some w'" and "GetNode i (status w) = Some n"
    and "\<not> deleteTime n > 0" and "serverInfoList n \<noteq> []"
    and "PostRole p ro b \<in> set (drop (length (outbox w)) (outbox w'))"
  shows "case b of BodyV1 l ps \<Rightarrow> i \<in> pv_id ` set ps | BodyV2 l pss \<Rightarrow> serverInfoList n \<in> set pss | EmptyBody \<Rightarrow> True"
proof -
  let ?A = "filter (\<lambda>p. case GetNode p (status w) of None \<Rightarrow> False | Some m \<Rightarrow> i \<in> set (nd_peers m)) (nd_peers n)"
  from assms(1,2) have "post_and_check cfg ?A w = Some w'" by (simp add: UnlinkNodeFromPeers_def)
  from post_and_check_sent [OF this assms(5)] have "posts (status w) (set ?A) (PostRole p ro b)" by (simp add: queries_def)
  then obtain k m where k: "k \<in> set ?A" "live (status w) k m" "names_live (status w) m b" by (auto simp: posts_def)
  then have "i \<in> set (nd_peers m)" by (auto simp: live_def split: option.splits)
  moreover have "live (status w) i n" using assms(2,3) by (simp add: live_def)
  ultimately show ?thesis using k(3) assms(4) by (cases b) auto
qed

subsection \<open>Relinking restores the peers of the group\<close>

definition hide_links :: "NodeInfo \<Rightarrow> NodeInfo" where
  "hide_links n = (hide_report n)\<lparr>nd_peers := [], initRetryTimes := 0\<rparr>"

definition wire :: "u64 list \<Rightarrow> u64 list \<Rightarrow> NodeInfo \<Rightarrow> NodeInfo" where
  "wire ps fl n = n\<lparr>roleState := GetRoleStateName RS_READY, nd_peers := ps @ fl, activePeers := set_intersection (ps @ fl) ps, initRetryTimes := 0\<rparr>"

lemma ready_peers_wire: "ready_peers g i ps s = upd_node i (wire ps (GetFlexGroup g s)) s"
  by (simp add: ready_peers_def UpdateRoleStateAndPeers_def wire_def [abs_def])

lemma hide_links_wire [simp]: "hide_links (wire ps fl n) = hide_links n"
  by (simp add: hide_links_def hide_report_def wire_def upd_static_def)

lemma hide_links_eq: "hide_links a = hide_links b \<Longrightarrow> node_group a = node_group b"
proof -
  assume "hide_links a = hide_links b"
  then have "node_group (hide_links a) = node_group (hide_links b)" by simp
  then show ?thesis by (simp add: hide_links_def hide_report_def upd_static_def)
qed

lemma report_links: "report_only s s' \<Longrightarrow> frame hide_links s s'"
  by (erule frame_weaken) (simp add: hide_links_def hide_report_def upd_static_def)

lemma ready_peers_frame: "frame hide_links s (ready_peers g i ps s)"
  unfolding ready_peers_wire by (rule frame_upd_node) simp

lemma unlink_peers_frame: "unlink_peers i ps post s = (ok, post', s') \<Longrightarrow> frame hide_links s s'"
  by (induction ps arbitrary: post s) (auto split: option.splits if_splits intro: frame_trans [OF ready_peers_frame])

lemma unlink_nodes_frame: "unlink_nodes is post s = (ok, post', s') \<Longrightarrow> frame hide_links s s'"
proof (induction "is" arbitrary: post s)
  case (Cons i "is")
  show ?case
  proof (cases "\<exists>n. GetNode i s = Some n \<and> nd_peers n \<noteq> []")
    case True
    then obtain n where n: "GetNode i s = Some n" "nd_peers n \<noteq> []" by blast
    obtain k q s1 where u: "unlink_peers i (nd_peers n) post s = (k, q, s1)" by (metis prod.collapse)
    note f = unlink_peers_frame [OF u]
    show ?thesis
    proof (cases k)
      case True
      with Cons.prems n u have "unlink_nodes is (q @ [i]) (ready_peers (node_group n) i [] s1) = (ok, post', s')" by simp
      from frame_trans [OF f frame_trans [OF ready_peers_frame Cons.IH [OF this]]] show ?thesis .
    next
      case False
      with Cons.prems n u f show ?thesis by simp
    qed
  next
    case False
    with Cons.prems show ?thesis by (auto split: option.splits)
  qed
qed auto

lemma BatchUnlink_frame: "BatchUnlinkNodes cfg is w = Some (ok, w') \<Longrightarrow> frame hide_links (status w) (status w')"
proof -
  assume a: "BatchUnlinkNodes cfg is w = Some (ok, w')"
  obtain k post s1 where u: "unlink_nodes is [] (status w) = (k, post, s1)" by (metis prod.collapse)
  note f = unlink_nodes_frame [OF u]
  show ?thesis
  proof (cases k)
    case False
    with a u f show ?thesis by (auto simp: BatchUnlinkNodes_def)
  next
    case True
    with a u obtain sc where "BatchPostRole cfg (sort_unique post) (w\<lparr>status := s1\<rparr>) = Some (sc, w')"
      by (auto simp: BatchUnlinkNodes_def)
    from frame_trans [OF f] report_links [OF soft_report [OF BatchPostRole_effect(1) [OF this]]] show ?thesis by simp
  qed
qed

lemma GetNode_upd_node: "GetNode j (upd_node i f s) = (if j = i then map_option f (GetNode i s) else GetNode j s)"
  by (simp add: GetNode_def upd_node_mNodes)

lemma fold_ready_flex [simp]:
  "GetFlexGroup h (fold (\<lambda>p. ready_peers g p x) ps s) = GetFlexGroup h s" "GetGroup h (fold (\<lambda>p. ready_peers g p x) ps s) = GetGroup h s"
  by (induction ps arbitrary: s) (auto simp: ready_peers_wire GetFlexGroup_def GetGroup_def)

lemma GetNode_fold_ready:
  "GetNode j (fold (\<lambda>p. ready_peers g p x) ps s) = (if j \<in> set ps then map_option (wire x (GetFlexGroup g s)) (GetNode j s) else GetNode j s)"
proof (induction ps arbitrary: s)
  case (Cons p ps)
  have "wire x fl (wire x fl n) = wire x fl n" for n fl by (simp add: wire_def)
  moreover have "GetFlexGroup g (ready_peers g p x s) = GetFlexGroup g s" by (simp add: ready_peers_wire GetFlexGroup_def)
  ultimately show ?case using Cons.IH [of "ready_peers g p x s"]
    by (auto simp: ready_peers_wire GetNode_upd_node option.map_comp comp_def)
qed simp

text \<open>No instance is in two lists.\<close>

definition members :: "u64 \<Rightarrow> NodeStatus \<Rightarrow> u64 set" where
  "members g s = set (fst (GetGroup g s)) \<union> set (snd (GetGroup g s))"

definition disjoint_groups :: "NodeStatus \<Rightarrow> bool" where
  "disjoint_groups s \<longleftrightarrow> (\<forall>g. set (fst (GetGroup g s)) \<inter> set (snd (GetGroup g s)) = {}) \<and> (\<forall>g h. g \<noteq> h \<longrightarrow> members g s \<inter> members h s = {})"

definition linked :: "u64 \<Rightarrow> NodeStatus \<Rightarrow> bool" where
  "linked g s \<longleftrightarrow> (\<forall>p m. GetNode p s = Some m \<longrightarrow>
     (p \<in> set (fst (GetGroup g s)) \<longrightarrow> nd_peers m = snd (GetGroup g s) @ GetFlexGroup g s)
     \<and> (p \<in> set (snd (GetGroup g s)) \<longrightarrow> nd_peers m = fst (GetGroup g s) @ GetFlexGroup g s))"

lemma link_group_linked:
  assumes "disjoint_groups s" shows "linked g (snd (link_group g (post, s)))"
    and "linked h s \<Longrightarrow> linked h (snd (link_group g (post, s)))"
    and "GetGroup h (snd (link_group g (post, s))) = GetGroup h s" "GetFlexGroup h (snd (link_group g (post, s))) = GetFlexGroup h s"
proof -
  obtain ps ds where g: "GetGroup g s = (ps, ds)" by fastforce
  have s': "snd (link_group g (post, s)) = fold (\<lambda>d. ready_peers g d ps) ds (fold (\<lambda>p. ready_peers g p ds) ps s)"
    by (simp add: link_group_def g)
  show same: "GetGroup h (snd (link_group g (post, s))) = GetGroup h s" "GetFlexGroup h (snd (link_group g (post, s))) = GetFlexGroup h s" for h
    by (simp_all add: s')
  have d: "set ps \<inter> set ds = {}" using assms g by (simp add: disjoint_groups_def) (metis fst_conv snd_conv)
  have n: "GetNode j (snd (link_group g (post, s))) = (if j \<in> set ds then map_option (wire ps (GetFlexGroup g s)) (GetNode j s)
      else if j \<in> set ps then map_option (wire ds (GetFlexGroup g s)) (GetNode j s) else GetNode j s)" for j
    using d by (auto simp: s' GetNode_fold_ready)
  show l: "linked g (snd (link_group g (post, s)))" using d by (auto simp: linked_def same n g wire_def split: if_splits)
  show "linked h (snd (link_group g (post, s)))" if "linked h s"
  proof (cases "h = g")
    case False
    with assms have "members h s \<inter> members g s = {}" by (auto simp: disjoint_groups_def)
    then have "j \<notin> set ps \<and> j \<notin> set ds" if "j \<in> set (fst (GetGroup h s)) \<union> set (snd (GetGroup h s))" for j
      using that by (auto simp: members_def g)
    with that show ?thesis by (auto simp: linked_def same n split: if_splits)
  qed (use l in simp)
qed

lemma disjoint_groups_cong: "(\<And>h. GetGroup h s' = GetGroup h s) \<Longrightarrow> disjoint_groups s' = disjoint_groups s"
  by (simp add: disjoint_groups_def members_def)

lemma fold_link_group:
  "disjoint_groups s \<Longrightarrow> (\<forall>g \<in> set gs. linked g (snd (fold link_group gs (post, s))))
    \<and> (\<forall>h. linked h s \<longrightarrow> linked h (snd (fold link_group gs (post, s))))
    \<and> (\<forall>h. GetGroup h (snd (fold link_group gs (post, s))) = GetGroup h s \<and> GetFlexGroup h (snd (fold link_group gs (post, s))) = GetFlexGroup h s)"
proof (induction gs arbitrary: post s)
  case (Cons g gs)
  obtain q t where t: "link_group g (post, s) = (q, t)" by fastforce
  note l = link_group_linked [where g = g and post = post, OF Cons.prems, unfolded t snd_conv]
  have "disjoint_groups t" using Cons.prems disjoint_groups_cong [OF l(3)] by simp
  from Cons.IH [OF this, of q] l t show ?case by auto
qed simp

lemma frame_groups: "frame f s s' \<Longrightarrow> GetGroup h s' = GetGroup h s" "frame f s s' \<Longrightarrow> GetFlexGroup h s' = GetFlexGroup h s"
  by (simp_all add: frame_def GetGroup_def GetFlexGroup_def)

lemma linked_report: "report_only s s' \<Longrightarrow> linked h s \<Longrightarrow> linked h s'"
proof -
  assume a: "report_only s s'" and l: "linked h s"
  have "\<exists>n. GetNode p s = Some n \<and> nd_peers n = nd_peers m" if "GetNode p s' = Some m" for p m
    using frame_lookup(2) [OF a that] hide_report_eq(4) by blast
  with l show ?thesis by (fastforce simp: linked_def frame_groups [OF a])
qed

text \<open>C22: after a batch of nodes was unlinked and linked again with success, in every group that has one of the nodes each prefill
  instance lists all decode instances and each decode instance all prefill instances, followed by the flex
  instances of the group.\<close>

theorem relink_restores_group_peers:
  assumes "ProcessBatchUnlinkAndLink cfg is w = Some (True, w')" and "disjoint_groups (status w)"
    and "i \<in> set is" and "GetNode i (status w) = Some n" and "GetGroup (node_group n) (status w) = (ps, ds)"
    and "GetNode j (status w') = Some m"
  shows "(j \<in> set ps \<longrightarrow> nd_peers m = ds @ GetFlexGroup (node_group n) (status w))
    \<and> (j \<in> set ds \<longrightarrow> nd_peers m = ps @ GetFlexGroup (node_group n) (status w))"
proof -
  from assms(1,3) obtain w1 where u: "BatchUnlinkNodes cfg is w = Some (True, w1)"
    and l: "BatchLinkNodes cfg is ROCE_CHECK_STATUS_ATTEMPTS w1 = Some (True, w')"
    by (cases "is") (auto simp: ProcessBatchUnlinkAndLink_def split: option.splits prod.splits bool.splits)
  note f = BatchUnlink_frame [OF u]
  from frame_lookup(3) [OF f assms(4)] obtain n1 where n1: "GetNode i (status w1) = Some n1" "node_group n1 = node_group n"
    using hide_links_eq by metis
  from l obtain gs where gs: "group_ids is (status w1) = Some gs" by (auto simp: BatchLinkNodes_def split: option.splits)
  have "node_group n = node_group (the (GetNode i (status w1)))" using n1 by simp
  with gs assms(3) have g: "node_group n \<in> set gs" by (auto simp: group_ids_def sort_unique_def split: if_splits)
  obtain post s1 where s1: "fold link_group gs ([], status w1) = (post, s1)" by fastforce
  have d: "disjoint_groups (status w1)" using assms(2) disjoint_groups_cong [OF frame_groups(1) [OF f]] by simp
  note fl = fold_link_group [OF d, of gs "[]", unfolded s1 snd_conv]
  from l gs s1 obtain sc w2 where b: "BatchPostRole cfg (sort_unique post) (w1\<lparr>status := s1\<rparr>) = Some (sc, w2)"
    and c: "\<exists>r. CheckStatus cfg (sort_unique post) False ROCE_CHECK_STATUS_ATTEMPTS w2 = (r, w')"
    by (auto simp: BatchLinkNodes_def Let_def split: option.splits prod.splits if_splits)
  have r: "report_only s1 (status w')"
    using frame_trans [OF soft_report [OF BatchPostRole_effect(1) [OF b]]] CheckStatus_report c by auto
  have "linked (node_group n) (status w')" using linked_report [OF r] fl g by blast
  moreover have "GetGroup (node_group n) (status w') = (ps, ds)" "GetFlexGroup (node_group n) (status w') = GetFlexGroup (node_group n) (status w)"
    using frame_groups [OF r] fl frame_groups [OF f] assms(5) by simp_all
  ultimately show ?thesis using assms(6) by (auto simp: linked_def)
qed

subsection \<open>An example\<close>

lemma ex_unlink:
  "(case UnlinkNodeFromPeers ex_srv_cfg 1 (ex_world [ex_ok]) of None \<Rightarrow> False | Some w \<Rightarrow> list_ex (v1_to 2) (outbox w))"
  by code_simp

theorem unlink_message_still_names_node_witness:
  "\<exists>w' ro l ps. UnlinkNodeFromPeers ex_srv_cfg 1 (ex_world [ex_ok]) = Some w'
     \<and> PostRole 2 ro (BodyV1 l ps) \<in> set (outbox w') \<and> 1 \<in> pv_id ` set ps"
proof -
  let ?w = "ex_world [ex_ok]"
  from ex_unlink obtain w' ro l ps where w': "UnlinkNodeFromPeers ex_srv_cfg 1 ?w = Some w'" "PostRole 2 ro (BodyV1 l ps) \<in> set (outbox w')"
    by (auto simp: list_ex_iff split: option.splits dest!: v1_toD)
  have n: "GetNode 1 (status ?w) = Some (ex_member 1 PREFILL_INSTANCE [2])" by (simp add: ex_world_def GetNode_def)
  have d: "\<not> deleteTime (ex_member 1 PREFILL_INSTANCE [2]) > 0" "serverInfoList (ex_member 1 PREFILL_INSTANCE [2]) \<noteq> []"
    by (simp_all add: ex_member_def upd_static_def default_node_def)
  have m: "PostRole 2 ro (BodyV1 l ps) \<in> set (drop (length (outbox ?w)) (outbox w'))" using w'(2) by (simp add: ex_world_def)
  from unlink_message_still_names_node [OF w'(1) n d m] w' show ?thesis by auto
qed

definition ex_replies :: "(Reply \<times> int option) list" where
  "ex_replies = [ex_ok, ex_ok, ex_ok, ex_ok, (ex_status_msg ''prefill'' 2, None), (ex_status_msg ''decode'' 1, None),
     (ex_status_msg ''prefill'' 2, None), (ex_status_msg ''decode'' 1, None)]"

lemma ex_relink:
  "(case ProcessBatchUnlinkAndLink ex_srv_cfg [1] (ex_world ex_replies) of None \<Rightarrow> False
    | Some (ok, w) \<Rightarrow> ok \<and> GetNode 1 (status w) \<noteq> None)"
  by code_simp

theorem relink_restores_group_peers_witness:
  "\<exists>w' m. ProcessBatchUnlinkAndLink ex_srv_cfg [1] (ex_world ex_replies) = Some (True, w') \<and> GetNode 1 (status w') = Some m \<and> nd_peers m = [2]"
proof -
  let ?w = "ex_world ex_replies"
  from ex_relink obtain w' m where w': "ProcessBatchUnlinkAndLink ex_srv_cfg [1] ?w = Some (True, w')" "GetNode 1 (status w') = Some m"
    by (auto split: option.splits)
  have g: "GetGroup h (status ?w) = (if h = 0 then ([1], [2]) else ([], []))" "GetFlexGroup h (status ?w) = []" for h
    by (simp_all add: ex_world_def GetGroup_def GetFlexGroup_def omap_get_def empty_status_def)
  have d: "disjoint_groups (status ?w)" by (simp add: disjoint_groups_def members_def g)
  have n: "GetNode 1 (status ?w) = Some (ex_member 1 PREFILL_INSTANCE [2])" "node_group (ex_member 1 PREFILL_INSTANCE [2]) = 0"
    by (simp_all add: ex_world_def GetNode_def ex_member_def upd_static_def default_node_def default_static_def)
  from relink_restores_group_peers [OF w'(1) d _ n(1) _ w'(2), of "[1]" "[2]"] w' show ?thesis by (auto simp: n(2) g)
qed

end
