(* ===== verification/Dp_Grouping.thy ===== *)
theory Dp_Grouping
  imports Node_Status
begin

text \<open>
  \<^verbatim>\<open>controller/common/DpGroupingUtil.cpp\<close>: the devices of a node are divided into data-parallel groups, either within each
  server or, when a server is smaller than a group, over consecutive servers. The configured sizes are C \<^verbatim>\<open>int\<close>s; a product
  that does not fit has no defined value (\<^const>\<open>None\<close>), and neither has a division by zero.
\<close>

subsection \<open>Definitions\<close>

record DpCfg =
  pTpSize :: int
  dpc_pCpSize :: int
  pDpSize :: int
  dTpSize :: int
  dpc_dCpSize :: int
  dDpSize :: int

definition DP_GROUP_NUM :: u64 where "DP_GROUP_NUM = 10000"

definition mul32 :: "int \<Rightarrow> int \<Rightarrow> int option" where
  "mul32 a b = (if - (2 ^ 31) \<le> a * b \<and> a * b < 2 ^ 31 then Some (a * b) else None)"

text \<open>\<^verbatim>\<open>static_cast<size_t>\<close> of an \<^verbatim>\<open>int\<close>, as a length.\<close>

definition to_size :: "int \<Rightarrow> nat" where "to_size x = unat (word_of_int x :: u64)"

datatype dp_conf = NoRole | Undefined | Conf nat int

text \<open>The expected number of devices and the product of tensor and context parallelism.\<close>

definition CalculateDeviceConfiguration :: "DpCfg \<Rightarrow> DIGSInstanceRole \<Rightarrow> dp_conf" where
  "CalculateDeviceConfiguration cfg ro =
     (let calc = \<lambda>tp cp dp. (case mul32 tp cp of None \<Rightarrow> Undefined
        | Some u \<Rightarrow> (case mul32 u dp of None \<Rightarrow> Undefined | Some c \<Rightarrow> Conf (to_size c) u))
      in case ro of
           PREFILL_INSTANCE \<Rightarrow> calc (pTpSize cfg) (dpc_pCpSize cfg) (pDpSize cfg)
         | DECODE_INSTANCE \<Rightarrow> calc (dTpSize cfg) (dpc_dCpSize cfg) (dDpSize cfg)
         | _ \<Rightarrow> NoRole)"

text \<open>The sum is kept in an \<^verbatim>\<open>int\<close>.\<close>

definition total_devices :: "ServerInfo list \<Rightarrow> int" where
  "total_devices svs = fold (\<lambda>sv t. signed_take_bit 31 (t + int (length (deviceInfos sv)))) svs 0"

definition ValidateDeviceCount :: "NodeInfo \<Rightarrow> nat \<Rightarrow> bool" where
  "ValidateDeviceCount n expected \<longleftrightarrow> isDistribute n \<or> to_size (total_devices (serverInfoList n)) = expected"

definition ShouldUseCrossServerGrouping :: "NodeInfo \<Rightarrow> int \<Rightarrow> bool" where
  "ShouldUseCrossServerGrouping n u = (case serverInfoList n of [] \<Rightarrow> False | sv # _ \<Rightarrow> length (deviceInfos sv) < to_size u)"

definition dp_id :: "u64 \<Rightarrow> nat \<Rightarrow> u64" where "dp_id nodeId k = nodeId * DP_GROUP_NUM + of_nat k"

definition put_group :: "u64 \<Rightarrow> DeviceInfo list \<Rightarrow> ServerInfo \<Rightarrow> ServerInfo" where
  "put_group k ds sv = sv\<lparr>dpGroupInfos := omap_put k ds (dpGroupInfos sv)\<rparr>"

definition group_server :: "u64 \<Rightarrow> nat \<Rightarrow> nat \<Rightarrow> ServerInfo \<Rightarrow> ServerInfo" where
  "group_server nodeId u dpIdx sv = fold (\<lambda>k. put_group (dp_id nodeId (dpIdx + k)) (take u (drop (k * u) (deviceInfos sv))))
     [0..<length (deviceInfos sv) div u] sv"

fun group_servers :: "u64 \<Rightarrow> nat \<Rightarrow> nat \<Rightarrow> ServerInfo list \<Rightarrow> ServerInfo list" where
  "group_servers nodeId u dpIdx [] = []"
| "group_servers nodeId u dpIdx (sv # svs) =
     group_server nodeId u dpIdx sv # group_servers nodeId u (dpIdx + length (deviceInfos sv) div u) svs"

definition ProcessSingleServerGrouping :: "NodeInfo \<Rightarrow> int \<Rightarrow> NodeInfo option" where
  "ProcessSingleServerGrouping n u = (if serverInfoList n \<noteq> [] \<and> to_size u = 0 then None
     else Some (n\<lparr>serverInfoList := group_servers (node_id n) (to_size u) 0 (serverInfoList n)\<rparr>))"

definition ValidateCrossServerGroupingParams :: "nat \<Rightarrow> nat \<Rightarrow> bool" where
  "ValidateCrossServerGroupingParams req per = (if req = 0 \<or> per = 0 then False else req mod per = 0)"

definition cross_groups :: "u64 \<Rightarrow> nat \<Rightarrow> nat \<Rightarrow> ServerInfo list \<Rightarrow> ServerInfo list" where
  "cross_groups nodeId spg cnt svs = fold (\<lambda>g. fold (\<lambda>i xs. let t = g * spg + i in
     xs[t := put_group (dp_id nodeId g) (deviceInfos (xs ! t)) (xs ! t)]) [0..<spg]) [0..<cnt] svs"

definition ProcessCrossServerGrouping :: "NodeInfo \<Rightarrow> int \<Rightarrow> NodeInfo option" where
  "ProcessCrossServerGrouping n u = (let req = to_size u; per = length (deviceInfos (hd (serverInfoList n))) in
     if \<not> ValidateCrossServerGroupingParams req per then None
     else let spg = req div per in
       Some (n\<lparr>serverInfoList := cross_groups (node_id n) spg (length (serverInfoList n) div spg) (serverInfoList n)\<rparr>))"

text \<open>The outer option is a division by zero or an overflow, the flag is the return value.\<close>

definition ProcessSingleNodeDpGrouping :: "DpCfg \<Rightarrow> NodeInfo \<Rightarrow> (bool \<times> NodeInfo) option" where
  "ProcessSingleNodeDpGrouping cfg n = (case CalculateDeviceConfiguration cfg (node_role n) of
     NoRole \<Rightarrow> Some (False, n)
   | Undefined \<Rightarrow> None
   | Conf cnt u \<Rightarrow> if \<not> ValidateDeviceCount n cnt then Some (False, n)
       else if ShouldUseCrossServerGrouping n u
         then (case ProcessCrossServerGrouping n u of None \<Rightarrow> Some (False, n) | Some n' \<Rightarrow> Some (True, n'))
       else map_option (Pair True) (ProcessSingleServerGrouping n u))"

subsection \<open>Consecutive slices\<close>

lemma omap_put_last: "\<forall>k \<in> fst ` set m. k < a \<Longrightarrow> omap_put a v m = m @ [(a, v)]"
  by (induction m) fastforce+

lemma dp_id_less:
  assumes "unat nodeId * 10000 + b < 2 ^ 64" and "a < b" shows "dp_id nodeId a < dp_id nodeId b"
proof -
  have e: "unat (dp_id nodeId k) = unat nodeId * 10000 + k" if "k \<le> b" for k
    using assms(1) that by (simp add: dp_id_def DP_GROUP_NUM_def unat_word_ariths unat_of_nat)
  show ?thesis using e [of a] e [of b] assms(2) by (simp add: word_less_nat_alt)
qed

lemma group_server_prefix:
  assumes "unat nodeId * 10000 + (dpIdx + m) < 2 ^ 64" and "dpGroupInfos sv = []"
  shows "fold (\<lambda>k. put_group (dp_id nodeId (dpIdx + k)) (f k)) [0..<m] sv
    = sv\<lparr>dpGroupInfos := map (\<lambda>k. (dp_id nodeId (dpIdx + k), f k)) [0..<m]\<rparr>"
  using assms
proof (induction m)
  case 0
  then show ?case by (cases sv) simp
next
  case (Suc m)
  have "\<forall>x \<in> fst ` set (map (\<lambda>k. (dp_id nodeId (dpIdx + k), f k)) [0..<m]). x < dp_id nodeId (dpIdx + m)"
    using Suc.prems by (auto intro!: dp_id_less)
  with Suc show ?case by (simp add: put_group_def omap_put_last)
qed

lemma group_server_eq:
  assumes "unat nodeId * 10000 + (dpIdx + length (deviceInfos sv) div u) < 2 ^ 64" and "dpGroupInfos sv = []"
  shows "group_server nodeId u dpIdx sv = sv\<lparr>dpGroupInfos :=
    map (\<lambda>k. (dp_id nodeId (dpIdx + k), take u (drop (k * u) (deviceInfos sv)))) [0..<length (deviceInfos sv) div u]\<rparr>"
  unfolding group_server_def by (rule group_server_prefix [OF assms])

lemma concat_slices: "concat (map (\<lambda>k. take u (drop (k * u) xs)) [0..<m]) = take (m * u) xs"
  by (induction m) (simp_all add: take_add [symmetric] add.commute)

lemma slice_length: "k < length xs div u \<Longrightarrow> length (take u (drop (k * u) xs)) = u"
proof -
  assume "k < length xs div u"
  then have "Suc k * u \<le> length xs div u * u" by (intro mult_le_mono1) simp
  also have "\<dots> \<le> length xs" by simp
  finally show ?thesis by simp
qed

text \<open>The groups of a list of servers: ids count up from the first, each group is full, each server is cut from the left.\<close>

definition server_groups :: "ServerInfo list \<Rightarrow> nat \<Rightarrow> nat" where
  "server_groups svs u = sum_list (map (\<lambda>sv. length (deviceInfos sv) div u) svs)"

lemma group_servers_spec:
  assumes "unat nodeId * 10000 + (dpIdx + server_groups svs u) < 2 ^ 64" and "\<forall>sv \<in> set svs. dpGroupInfos sv = []"
  shows "concat (map (\<lambda>sv. map fst (dpGroupInfos sv)) (group_servers nodeId u dpIdx svs))
      = map (dp_id nodeId) [dpIdx..<dpIdx + server_groups svs u]
    \<and> list_all2 (\<lambda>sv sv'. deviceInfos sv' = deviceInfos sv \<and> (\<forall>(k, ds) \<in> set (dpGroupInfos sv'). length ds = u)
        \<and> concat (map snd (dpGroupInfos sv')) = take (length (deviceInfos sv) div u * u) (deviceInfos sv)) svs (group_servers nodeId u dpIdx svs)"
  using assms
proof (induction svs arbitrary: dpIdx)
  case (Cons sv svs)
  let ?m = "length (deviceInfos sv) div u"
  have g: "group_server nodeId u dpIdx sv = sv\<lparr>dpGroupInfos :=
    map (\<lambda>k. (dp_id nodeId (dpIdx + k), take u (drop (k * u) (deviceInfos sv)))) [0..<?m]\<rparr>"
    by (rule group_server_eq) (use Cons.prems in \<open>auto simp: server_groups_def\<close>)
  have ids: "map (\<lambda>k. dp_id nodeId (dpIdx + k)) [0..<?m] = map (dp_id nodeId) [dpIdx..<dpIdx + ?m]"
    by (rule nth_equalityI) auto
  have split: "[dpIdx..<dpIdx + server_groups (sv # svs) u] = [dpIdx..<dpIdx + ?m] @ [dpIdx + ?m..<dpIdx + ?m + server_groups svs u]"
    using upt_add_eq_append [of dpIdx "dpIdx + ?m" "server_groups svs u"] by (simp add: server_groups_def add.assoc)
  have ih: "concat (map (\<lambda>sv. map fst (dpGroupInfos sv)) (group_servers nodeId u (dpIdx + ?m) svs))
      = map (dp_id nodeId) [dpIdx + ?m..<dpIdx + ?m + server_groups svs u]
    \<and> list_all2 (\<lambda>sv sv'. deviceInfos sv' = deviceInfos sv \<and> (\<forall>(k, ds) \<in> set (dpGroupInfos sv'). length ds = u)
        \<and> concat (map snd (dpGroupInfos sv')) = take (length (deviceInfos sv) div u * u) (deviceInfos sv)) svs (group_servers nodeId u (dpIdx + ?m) svs)"
    by (rule Cons.IH) (use Cons.prems in \<open>auto simp: server_groups_def add.assoc\<close>)
  show ?case using ih by (auto simp: g split ids comp_def concat_slices slice_length simp del: length_take)
qed (simp add: server_groups_def)

lemma dp_ids_distinct: "unat nodeId * 10000 + m < 2 ^ 64 \<Longrightarrow> distinct (map (dp_id nodeId) [0..<m])"
proof -
  assume a: "unat nodeId * 10000 + m < 2 ^ 64"
  have "dp_id nodeId i \<noteq> dp_id nodeId j" if "i < j" "j < m" for i j
    using dp_id_less [of nodeId j i] a that by auto
  then show ?thesis by (auto simp: distinct_map inj_on_def) (metis linorder_neqE_nat)
qed

subsection \<open>Groups over several servers\<close>

lemma fold_segment:
  assumes "a + m \<le> length xs"
  shows "length (fold (\<lambda>i xs. let t = a + i in xs[t := F (xs ! t)]) [0..<m] xs) = length xs
    \<and> (\<forall>t < length xs. fold (\<lambda>i xs. let t = a + i in xs[t := F (xs ! t)]) [0..<m] xs ! t
        = (if a \<le> t \<and> t < a + m then F (xs ! t) else xs ! t))"
  using assms by (induction m) (auto simp: Let_def nth_list_update)

lemma cross_groups_nth:
  assumes "cnt * spg \<le> length svs" and "0 < spg"
  shows "length (cross_groups nodeId spg cnt svs) = length svs
    \<and> (\<forall>t < length svs. cross_groups nodeId spg cnt svs ! t
        = (if t < cnt * spg then put_group (dp_id nodeId (t div spg)) (deviceInfos (svs ! t)) (svs ! t) else svs ! t))"
  using assms
proof (induction cnt)
  case (Suc cnt)
  let ?F = "\<lambda>sv. put_group (dp_id nodeId cnt) (deviceInfos sv) sv"
  let ?xs = "cross_groups nodeId spg cnt svs"
  have ih: "length ?xs = length svs" "\<forall>t < length svs. ?xs ! t
      = (if t < cnt * spg then put_group (dp_id nodeId (t div spg)) (deviceInfos (svs ! t)) (svs ! t) else svs ! t)"
    using Suc by auto
  have s: "cross_groups nodeId spg (Suc cnt) svs = fold (\<lambda>i xs. let t = cnt * spg + i in xs[t := ?F (xs ! t)]) [0..<spg] ?xs"
    by (simp add: cross_groups_def)
  have d: "t div spg = cnt" if "cnt * spg \<le> t" "t < Suc cnt * spg" for t
    using that by (simp add: div_nat_eqI mult.commute)
  have f: "length (cross_groups nodeId spg (Suc cnt) svs) = length ?xs
    \<and> (\<forall>t < length ?xs. cross_groups nodeId spg (Suc cnt) svs ! t
        = (if cnt * spg \<le> t \<and> t < cnt * spg + spg then ?F (?xs ! t) else ?xs ! t))"
    unfolding s by (rule fold_segment) (use Suc.prems ih(1) in auto)
  show ?case using f ih d by (auto simp: add.commute)
qed (simp add: cross_groups_def)

subsection \<open>The result\<close>

text \<open>C24: when a node is divided within its servers, every group holds exactly the configured number of devices, the groups of a
  server are consecutive slices that cover its devices from the left up to the last full group, and all groups
  of the node have different ids. Nothing is left over exactly when that number divides the size of each server.\<close>

theorem dp_groups_cover_devices:
  assumes "ProcessSingleNodeDpGrouping cfg n = Some (True, n')"
    and "CalculateDeviceConfiguration cfg (node_role n) = Conf cnt u" and "\<not> ShouldUseCrossServerGrouping n u"
    and "\<forall>sv \<in> set (serverInfoList n). dpGroupInfos sv = []"
    and "unat (node_id n) * 10000 + server_groups (serverInfoList n) (to_size u) < 2 ^ 64"
  shows "distinct (concat (map (\<lambda>sv. map fst (dpGroupInfos sv)) (serverInfoList n')))
    \<and> list_all2 (\<lambda>sv sv'. deviceInfos sv' = deviceInfos sv
        \<and> (\<forall>(k, ds) \<in> set (dpGroupInfos sv'). length ds = to_size u)
        \<and> concat (map snd (dpGroupInfos sv'))
            = take (length (deviceInfos sv) div to_size u * to_size u) (deviceInfos sv)) (serverInfoList n) (serverInfoList n')"
proof -
  from assms(1-3) have "serverInfoList n' = group_servers (node_id n) (to_size u) 0 (serverInfoList n)"
    by (auto simp: ProcessSingleNodeDpGrouping_def ProcessSingleServerGrouping_def split: if_splits)
  with group_servers_spec [of "node_id n" 0 "serverInfoList n" "to_size u"] dp_ids_distinct assms(4,5) show ?thesis by simp
qed

definition ex_dp_cfg :: DpCfg where
  "ex_dp_cfg = \<lparr>pTpSize = 2, dpc_pCpSize = 1, pDpSize = 2, dTpSize = 2, dpc_dCpSize = 1, dDpSize = 2\<rparr>"

definition ex_device :: "string \<Rightarrow> DeviceInfo" where
  "ex_device i = \<lparr>dv_id = i, dv_ip = [], dv_logicalId = [], dv_rankId = 0, dv_superDeviceId = None\<rparr>"

definition ex_server :: "string list \<Rightarrow> ServerInfo" where
  "ex_server is = \<lparr>sv_hostId = [], sv_ip = [], deviceInfos = map ex_device is, dpGroupInfos = [], sv_isMaster = True, superPodId = None,
     spSize = 1, cpSize = 1\<rparr>"

definition ex_node :: "u64 \<Rightarrow> u64 \<Rightarrow> DIGSInstanceRole \<Rightarrow> ServerInfo list \<Rightarrow> NodeInfo" where
  "ex_node i g ro svs = upd_static (\<lambda>st. st\<lparr>st_id := i, st_groupId := g, st_role := ro\<rparr>) default_node\<lparr>serverInfoList := svs\<rparr>"

lemmas ex_node_simps = ex_node_def ex_server_def ex_device_def upd_static_def default_node_def default_static_def

theorem dp_groups_cover_devices_witness:
  "\<exists>n'. ProcessSingleNodeDpGrouping ex_dp_cfg (ex_node 3 0 PREFILL_INSTANCE [ex_server [''a'', ''b'', ''c'', ''d'']]) = Some (True, n')
     \<and> distinct (concat (map (\<lambda>sv. map fst (dpGroupInfos sv)) (serverInfoList n')))"
proof -
  let ?n = "ex_node 3 0 PREFILL_INSTANCE [ex_server [''a'', ''b'', ''c'', ''d'']]"
  have c: "CalculateDeviceConfiguration ex_dp_cfg (node_role ?n) = Conf 4 2"
    by (simp add: ex_node_simps ex_dp_cfg_def CalculateDeviceConfiguration_def mul32_def to_size_def)
  have s: "\<not> ShouldUseCrossServerGrouping ?n 2" by (simp add: ex_node_simps ShouldUseCrossServerGrouping_def to_size_def)
  have v: "ValidateDeviceCount ?n 4"
    by (simp add: ex_node_simps ValidateDeviceCount_def total_devices_def to_size_def signed_take_bit_def take_bit_eq_mod)
  obtain n' where n': "ProcessSingleNodeDpGrouping ex_dp_cfg ?n = Some (True, n')"
    using c s v by (auto simp: ProcessSingleNodeDpGrouping_def ProcessSingleServerGrouping_def to_size_def)
  have "distinct (concat (map (\<lambda>sv. map fst (dpGroupInfos sv)) (serverInfoList n')))"
    using dp_groups_cover_devices [OF n' c s] by (auto simp: ex_node_simps server_groups_def to_size_def)
  with n' show ?thesis by blast
qed

text \<open>Servers of uneven size: the total matches, the operation succeeds, and half of the devices are in no group.\<close>

lemma dp_leftover_unnoticed:
  "map_option (\<lambda>(ok, n). (ok, map (\<lambda>sv. length (concat (map snd (dpGroupInfos sv)))) (serverInfoList n)))
     (ProcessSingleNodeDpGrouping ex_dp_cfg (ex_node 3 0 PREFILL_INSTANCE [ex_server [''a'', ''b'', ''c''], ex_server [''d'']]))
   = Some (True, [2, 0])"
  by (simp add: ProcessSingleNodeDpGrouping_def ProcessSingleServerGrouping_def CalculateDeviceConfiguration_def ex_node_simps
      ex_dp_cfg_def mul32_def to_size_def ValidateDeviceCount_def total_devices_def ShouldUseCrossServerGrouping_def
      signed_take_bit_def take_bit_eq_mod group_server_def put_group_def dp_id_def)

end
