(* ===== verification/Group_Generator.thy ===== *)
theory Group_Generator
  imports Node_Status
begin

text \<open>
  From role decisions to groups: \<^verbatim>\<open>DefaultGroupGenerator.cpp\<close> assigns every decided instance to a group, and the helpers of
  \<^verbatim>\<open>NodeScheduler.cpp\<close> write role, group, label and peers into the nodes. \<open>maxValue\<close> is the largest number of instances, 16 or 768.
\<close>

subsection \<open>The default group generator\<close>

definition LIMIT_MAX :: nat where "LIMIT_MAX = 16"
definition DISTRIBUTE_LIMIT_MAX :: nat where "DISTRIBUTE_LIMIT_MAX = 768"

definition role_index :: "DIGSInstanceRole \<Rightarrow> DIGSRoleDecision list \<Rightarrow> nat list" where
  "role_index ro ds = filter (\<lambda>i. rd_role (ds ! i) = ro) [0..<length ds]"

text \<open>Instances of one role are dealt out to the groups in turn, starting at an offset.\<close>

fun deal :: "nat \<Rightarrow> nat \<Rightarrow> nat list \<Rightarrow> DIGSRoleDecision list \<Rightarrow> u64 list list \<Rightarrow> DIGSRoleDecision list \<times> u64 list list" where
  "deal groupNum i [] ds gs = (ds, gs)"
| "deal groupNum i (x # xs) ds gs = (let g = i mod groupNum in
     deal groupNum (i + 1) xs (ds[x := (ds ! x)\<lparr>rd_groupId := of_nat g\<rparr>]) (gs[g := (gs ! g) @ [rd_id (ds ! x)]]))"

definition GenerateGroups ::
  "bool \<Rightarrow> DIGSRoleDecision list \<Rightarrow> (DIGSRoleDecision list \<times> pd_group list \<times> u64 list list) option" where
  "GenerateGroups multi ds =
     (let maxValue = (if multi then DISTRIBUTE_LIMIT_MAX else LIMIT_MAX);
          pI = role_index PREFILL_INSTANCE ds; dI = role_index DECODE_INSTANCE ds; fI = role_index FLEX_INSTANCE ds;
          total = length pI + length dI + length fI;
          groupNum = total div maxValue + (if total mod maxValue > 0 then 1 else 0)
      in if (pI = [] \<or> dI = []) \<and> fI = [] \<or> total > maxValue then None
         else if groupNum = 0 then None
         else let (ds1, ps) = deal groupNum 0 pI ds (replicate groupNum []);
                  (ds2, dn) = deal groupNum (length ps) dI ds1 (replicate groupNum []);
                  (ds3, fs) = deal groupNum 0 fI ds2 (replicate groupNum [])
              in Some (ds3, zip ps dn, fs))"

subsection \<open>Rates\<close>

fun GetGreatestCommonDivisor :: "nat \<Rightarrow> nat \<Rightarrow> nat" where
  "GetGreatestCommonDivisor a b = (if b = 0 then a else GetGreatestCommonDivisor b (a mod b))"

declare GetGreatestCommonDivisor.simps [simp del]

definition MAX_RATE :: nat where "MAX_RATE = 15"

definition ParsePDRateForHeterogeneous :: "DIGSRoleDecision list \<Rightarrow> (nat \<times> nat) option" where
  "ParsePDRateForHeterogeneous ds =
     (let p = length (filter (\<lambda>d. rd_role d = PREFILL_INSTANCE) ds); d = length ds - p in
      if p = 0 \<or> d = 0 then None
      else let g = GetGreatestCommonDivisor p d; pr = p div g; dr = d div g in
        if pr \<le> MAX_RATE \<and> dr \<le> MAX_RATE then Some (pr, dr)
        else let pr1 = min pr MAX_RATE; dr1 = min dr MAX_RATE; g1 = GetGreatestCommonDivisor pr1 dr1
             in Some (pr1 div g1, dr1 div g1))"

subsection \<open>Writing the decisions into the nodes\<close>

text \<open>\<open>ix\<close> is the map from instance id to the index of its decision; a later decision for the same id wins.\<close>

definition decision_index :: "DIGSRoleDecision list \<Rightarrow> (u64, nat) omap" where
  "decision_index ds = fold (\<lambda>i. omap_put (rd_id (ds ! i)) i) [0..<length ds] []"

definition update_server :: "pd_group list \<Rightarrow> u64 list list \<Rightarrow> DIGSRoleDecision \<Rightarrow> NodeInfo \<Rightarrow> NodeInfo" where
  "update_server gs fs d n =
     (let g = unat (rd_groupId d); (ps, dn) = gs ! g; fl = fs ! g;
          put = \<lambda>lab peers. upd_static (\<lambda>st. st\<lparr>st_role := rd_role d, st_groupId := rd_groupId d,
            st_flexPRatio := rd_flexPRatio d, st_label := lab (st_label st)\<rparr>) n\<lparr>nd_peers := peers\<rparr>
      in case rd_role d of
           PREFILL_INSTANCE \<Rightarrow> put (\<lambda>_. PREFILL_STATIC) (dn @ fl)
         | DECODE_INSTANCE \<Rightarrow> put (\<lambda>_. DECODE_STATIC) (ps @ fl)
         | FLEX_INSTANCE \<Rightarrow> put (\<lambda>_. FLEX_STATIC) (ps @ dn)
         | UN_DEF_INSTANCE \<Rightarrow> put (\<lambda>l. l) (nd_peers n))"

fun update_servers :: "(u64, nat) omap \<Rightarrow> DIGSRoleDecision list \<Rightarrow> pd_group list \<Rightarrow> u64 list list \<Rightarrow> NodeInfo list \<Rightarrow> bool \<times> NodeInfo list" where
  "update_servers ix ds gs fs [] = (True, [])"
| "update_servers ix ds gs fs (n # ns) = (case map_of ix (node_id n) of
     None \<Rightarrow> (False, n # ns)
   | Some k \<Rightarrow> if k \<ge> length ds then (False, n # ns)
       else if unat (rd_groupId (ds ! k)) \<ge> length fs then (False, n # ns)
       else let (ok, rest) = update_servers ix ds gs fs ns in (ok, update_server gs fs (ds ! k) n # rest))"

definition UpdateServerInfo :: "NodeInfo list \<Rightarrow> DIGSRoleDecision list \<Rightarrow> pd_group list \<Rightarrow> u64 list list \<Rightarrow> bool \<times> NodeInfo list" where
  "UpdateServerInfo ns ds gs fs = update_servers (decision_index ds) ds gs fs ns"

text \<open>
  \<open>WaitForRoleDecision\<close> after its wait: the decisions that arrived, or an error with the nodes left as they are
  (or partly written). \<open>hetero\<close> is the heterogeneous mode.
\<close>

definition WaitForRoleDecision ::
  "bool \<Rightarrow> bool \<Rightarrow> DIGSRoleDecision list \<Rightarrow> NodeInfo list \<Rightarrow> bool \<times> NodeInfo list \<times> pd_group list \<times> u64 list list" where
  "WaitForRoleDecision multi hetero ds ns =
     (if length ds \<noteq> length ns then (False, ns, [], [])
      else if hetero \<and> ParsePDRateForHeterogeneous ds = None then (False, ns, [], [])
      else case GenerateGroups multi ds of None \<Rightarrow> (False, ns, [], [])
        | Some (ds1, gs, fs) \<Rightarrow> (let (ok, ns1) = UpdateServerInfo ns ds1 gs fs in (ok, ns1, gs, fs)))"

definition MergeServersByGroupId :: "NodeInfo list \<Rightarrow> (u64, NodeInfo list) omap" where
  "MergeServersByGroupId ns = fold (\<lambda>n m. omap_put (node_group n) (omap_get [] m (node_group n) @ [n]) m) ns []"

subsection \<open>Lemmas\<close>

lemma gcd_eq: "GetGreatestCommonDivisor a b = gcd a b"
  by (induction a b rule: GetGreatestCommonDivisor.induct)
     (subst GetGreatestCommonDivisor.simps, simp add: gcd_red_nat [symmetric] gcd.commute)

text \<open>The limit on the number of instances leaves room for one group only.\<close>

lemma group_num_one:
  assumes "0 < tot" "tot \<le> maxValue"
  shows "tot div maxValue + (if tot mod maxValue > 0 then 1 else 0) = (1 :: nat)"
  using assms by (cases "tot = maxValue") auto

lemma deal_one:
  "\<forall>x \<in> set xs. x < length ds \<Longrightarrow> distinct xs \<Longrightarrow> deal (Suc 0) i xs ds [acc] =
     (map (\<lambda>j. if j \<in> set xs then (ds ! j)\<lparr>rd_groupId := 0\<rparr> else ds ! j) [0..<length ds], [acc @ map (\<lambda>x. rd_id (ds ! x)) xs])"
proof (induction xs arbitrary: i ds acc)
  case Nil
  then show ?case by (simp add: map_nth)
next
  case (Cons x xs)
  show ?case using Cons.prems
    by (simp add: Cons.IH) (auto intro!: nth_equalityI simp: nth_list_update)
qed

definition decided :: "DIGSInstanceRole \<Rightarrow> DIGSRoleDecision list \<Rightarrow> u64 list" where
  "decided ro ds = map rd_id (filter (\<lambda>d. rd_role d = ro) ds)"

lemma filter_upt: "map (\<lambda>i. f (xs ! i)) (filter (\<lambda>i. P (xs ! i)) [0..<length xs]) = map f (filter P xs)"
proof (induction xs rule: rev_induct)
  case (snoc x xs)
  have "filter (\<lambda>i. P ((xs @ [x]) ! i)) [0..<length xs] = filter (\<lambda>i. P (xs ! i)) [0..<length xs]"
    by (rule filter_cong) (auto simp: nth_append)
  moreover have "map (\<lambda>i. f ((xs @ [x]) ! i)) (filter (\<lambda>i. P (xs ! i)) [0..<length xs]) = map (\<lambda>i. f (xs ! i)) (filter (\<lambda>i. P (xs ! i)) [0..<length xs])"
    by (rule map_cong) (auto simp: nth_append)
  ultimately show ?case using snoc by (simp add: nth_append)
qed simp

lemma role_index_ids: "map (\<lambda>x. rd_id (ds ! x)) (role_index ro ds) = decided ro ds"
  by (simp add: role_index_def decided_def filter_upt [where f = rd_id and P = "\<lambda>d. rd_role d = ro"])

lemma role_index_bound: "x \<in> set (role_index ro ds) \<longleftrightarrow> x < length ds \<and> rd_role (ds ! x) = ro"
  by (auto simp: role_index_def)

lemma deal_role:
  assumes "length ds' = length ds" and "\<forall>j < length ds. rd_id (ds' ! j) = rd_id (ds ! j)"
  shows "deal (Suc 0) i (role_index ro ds) ds' [[]]
    = (map (\<lambda>j. if rd_role (ds ! j) = ro then (ds' ! j)\<lparr>rd_groupId := 0\<rparr> else ds' ! j) [0..<length ds], [decided ro ds])"
proof -
  have "map (\<lambda>x. rd_id (ds' ! x)) (role_index ro ds) = decided ro ds"
    unfolding role_index_ids [symmetric] by (rule map_cong) (auto simp: role_index_bound assms(2))
  moreover have "distinct (role_index ro ds)" by (simp add: role_index_def)
  ultimately show ?thesis using assms(1) by (subst deal_one) (auto simp: role_index_bound)
qed

definition grouped :: "DIGSRoleDecision \<Rightarrow> DIGSRoleDecision" where
  "grouped d = (if rd_role d = UN_DEF_INSTANCE then d else d\<lparr>rd_groupId := 0\<rparr>)"

lemma GenerateGroups_one:
  assumes "GenerateGroups multi ds = Some (ds', gs, fs)"
  shows "gs = [(decided PREFILL_INSTANCE ds, decided DECODE_INSTANCE ds)]" "fs = [decided FLEX_INSTANCE ds]" "ds' = map grouped ds"
proof -
  let ?pI = "role_index PREFILL_INSTANCE ds" and ?dI = "role_index DECODE_INSTANCE ds" and ?fI = "role_index FLEX_INSTANCE ds"
  let ?t = "length ?pI + length ?dI + length ?fI" and ?mx = "if multi then DISTRIBUTE_LIMIT_MAX else LIMIT_MAX"
  from assms have c: "\<not> ((?pI = [] \<or> ?dI = []) \<and> ?fI = [])" "?t \<le> ?mx"
    by (auto simp: GenerateGroups_def Let_def split: if_splits)
  from c(1) have "0 < ?t" by auto
  with c(2) have one: "?t div ?mx + (if ?t mod ?mx > 0 then 1 else 0) = Suc 0" using group_num_one [of ?t ?mx] by simp
  define e where "e = (\<lambda>R j. if rd_role (ds ! j) \<in> R then (ds ! j)\<lparr>rd_groupId := 0\<rparr> else ds ! j)"
  have d1: "deal (Suc 0) 0 ?pI ds [[]] = (map (e {PREFILL_INSTANCE}) [0..<length ds], [decided PREFILL_INSTANCE ds])"
    by (subst deal_role) (auto simp: e_def)
  have d2: "deal (Suc 0) i ?dI (map (e {PREFILL_INSTANCE}) [0..<length ds]) [[]]
      = (map (e {PREFILL_INSTANCE, DECODE_INSTANCE}) [0..<length ds], [decided DECODE_INSTANCE ds])" for i
    by (subst deal_role) (auto simp: e_def)
  have d3: "deal (Suc 0) 0 ?fI (map (e {PREFILL_INSTANCE, DECODE_INSTANCE}) [0..<length ds]) [[]]
      = (map (e {PREFILL_INSTANCE, DECODE_INSTANCE, FLEX_INSTANCE}) [0..<length ds], [decided FLEX_INSTANCE ds])"
    by (subst deal_role) (auto simp: e_def)
  have g: "map (e {PREFILL_INSTANCE, DECODE_INSTANCE, FLEX_INSTANCE}) [0..<length ds] = map grouped ds"
    by (rule nth_equalityI) (auto simp: e_def grouped_def intro: DIGSInstanceRole.exhaust)
  have "GenerateGroups multi ds = Some (map grouped ds, [(decided PREFILL_INSTANCE ds, decided DECODE_INSTANCE ds)], [decided FLEX_INSTANCE ds])"
    using c one unfolding GenerateGroups_def Let_def by (simp add: d1 d2 d3 g)
  with assms show "gs = [(decided PREFILL_INSTANCE ds, decided DECODE_INSTANCE ds)]" "fs = [decided FLEX_INSTANCE ds]" "ds' = map grouped ds"
    by auto
qed

lemma decision_index_lookup: "map_of (decision_index ds) i = Some k \<Longrightarrow> k < length ds \<and> rd_id (ds ! k) = i"
proof -
  have "map_of (fold (\<lambda>i. omap_put (rd_id (ds ! i)) i) ks m) i = Some k
    \<Longrightarrow> k \<in> set ks \<and> rd_id (ds ! k) = i \<or> map_of m i = Some k" for ks m
    by (induction ks arbitrary: m) (fastforce simp: omap_simps split: if_splits)+
  then show "map_of (decision_index ds) i = Some k \<Longrightarrow> ?thesis" unfolding decision_index_def by fastforce
qed

text \<open>The peers of a decided instance: prefill and decode instances face each other, flex instances face both.\<close>

definition peers_for :: "DIGSRoleDecision list \<Rightarrow> DIGSInstanceRole \<Rightarrow> u64 list" where
  "peers_for ds ro = (case ro of PREFILL_INSTANCE \<Rightarrow> decided DECODE_INSTANCE ds @ decided FLEX_INSTANCE ds
     | DECODE_INSTANCE \<Rightarrow> decided PREFILL_INSTANCE ds @ decided FLEX_INSTANCE ds
     | FLEX_INSTANCE \<Rightarrow> decided PREFILL_INSTANCE ds @ decided DECODE_INSTANCE ds
     | UN_DEF_INSTANCE \<Rightarrow> [])"

definition wired_to :: "DIGSRoleDecision list \<Rightarrow> NodeInfo \<Rightarrow> bool" where
  "wired_to ds n \<longleftrightarrow> (\<exists>d \<in> set ds. rd_id d = node_id n \<and> rd_role d = node_role n)
     \<and> node_group n = 0 \<and> nd_peers n = peers_for ds (node_role n)"

lemma update_server_wired:
  assumes "d \<in> set ds" and "rd_role d \<noteq> UN_DEF_INSTANCE" and "rd_id d = node_id n"
  shows "wired_to ds (update_server [(decided PREFILL_INSTANCE ds, decided DECODE_INSTANCE ds)] [decided FLEX_INSTANCE ds] (grouped d) n)"
  using assms by (cases "rd_role d")
    (auto simp: update_server_def grouped_def wired_to_def upd_static_def peers_for_def Let_def)

lemma update_servers_wired:
  assumes "update_servers ix (map grouped ds) [(decided PREFILL_INSTANCE ds, decided DECODE_INSTANCE ds)] [decided FLEX_INSTANCE ds] ns = (True, ns')"
    and "\<forall>d \<in> set ds. rd_role d \<noteq> UN_DEF_INSTANCE" and "\<And>i k. map_of ix i = Some k \<Longrightarrow> k < length ds \<and> rd_id (ds ! k) = i"
  shows "list_all (wired_to ds) ns' \<and> map node_id ns' = map node_id ns"
  using assms(1)
proof (induction ns arbitrary: ns')
  case (Cons n ns)
  from Cons.prems obtain k where k: "map_of ix (node_id n) = Some k" by (auto split: option.splits)
  with assms(3) have kk: "k < length ds" "rd_id (ds ! k) = node_id n" by auto
  let ?u = "update_server [(decided PREFILL_INSTANCE ds, decided DECODE_INSTANCE ds)] [decided FLEX_INSTANCE ds] (grouped (ds ! k)) n"
  from Cons.prems k kk obtain rest where r: "ns' = ?u # rest"
    "update_servers ix (map grouped ds) [(decided PREFILL_INSTANCE ds, decided DECODE_INSTANCE ds)] [decided FLEX_INSTANCE ds] ns = (True, rest)"
    by (auto simp: Let_def split: if_splits prod.splits)
  have "wired_to ds ?u" using kk assms(2) by (intro update_server_wired) auto
  moreover have "node_id ?u = node_id n" by (cases "rd_role (grouped (ds ! k))") (auto simp: update_server_def upd_static_def Let_def split: prod.split)
  ultimately show ?case using Cons.IH [OF r(2)] r(1) by simp
qed simp

lemma wired_symmetric:
  assumes "wired_to ds a" "wired_to ds b" "distinct (map rd_id ds)" and "node_id a \<in> set (nd_peers b)"
  shows "node_id b \<in> set (nd_peers a)"
proof -
  have in_dec: "node_id n \<in> set (decided ro ds) \<longleftrightarrow> node_role n = ro" if "wired_to ds n" for n ro
  proof -
    from that obtain d where d: "d \<in> set ds" "rd_id d = node_id n" "rd_role d = node_role n" by (auto simp: wired_to_def)
    have "x = d" if "x \<in> set ds" "rd_id x = node_id n" for x
      using assms(3) d that by (auto simp: distinct_map inj_on_def)
    moreover have "node_id n \<in> set (decided ro ds) \<longleftrightarrow> (\<exists>x \<in> set ds. rd_id x = node_id n \<and> rd_role x = ro)"
      by (auto simp: decided_def image_iff eq_commute)
    ultimately show ?thesis using d by metis
  qed
  from assms(1,2,4) show ?thesis
    by (auto simp: wired_to_def [of ds a] wired_to_def [of ds b] peers_for_def in_dec [OF assms(1)] in_dec [OF assms(2)] split: DIGSInstanceRole.splits)
qed

text \<open>C21: when a complete set of role decisions is turned into groups, there is exactly one group; every instance joins it with the
  role that was decided for it, prefill instances get all decode and flex instances as peers, decode
  instances all prefill and flex instances, and links are mutual: one instance lists another exactly when the
  other lists it.\<close>

theorem role_decisions_wire_mutual_peers:
  assumes "WaitForRoleDecision multi hetero ds ns = (True, ns', gs, fs)" and "distinct (map rd_id ds)"
    and "\<forall>d \<in> set ds. rd_role d \<noteq> UN_DEF_INSTANCE"
  shows "gs = [(decided PREFILL_INSTANCE ds, decided DECODE_INSTANCE ds)] \<and> fs = [decided FLEX_INSTANCE ds]
    \<and> map node_id ns' = map node_id ns \<and> (\<forall>n \<in> set ns'. wired_to ds n)
    \<and> (\<forall>a \<in> set ns'. \<forall>b \<in> set ns'. node_id a \<in> set (nd_peers b) \<longleftrightarrow> node_id b \<in> set (nd_peers a))"
proof -
  from assms(1) obtain ds1 where g: "GenerateGroups multi ds = Some (ds1, gs, fs)" and u: "UpdateServerInfo ns ds1 gs fs = (True, ns')"
    by (auto simp: WaitForRoleDecision_def split: if_splits option.splits prod.splits)
  note eq = GenerateGroups_one [OF g]
  have "map_of (decision_index (map grouped ds)) i = Some k \<Longrightarrow> k < length ds \<and> rd_id (ds ! k) = i" for i k
    using decision_index_lookup [of "map grouped ds" i k] by (auto simp: grouped_def split: if_splits)
  with update_servers_wired [OF u [unfolded UpdateServerInfo_def eq] assms(3)]
  have "list_all (wired_to ds) ns' \<and> map node_id ns' = map node_id ns" by blast
  with eq wired_symmetric [OF _ _ assms(2)] show ?thesis by (auto simp: list_all_iff)
qed

definition ex_decisions :: "DIGSRoleDecision list" where
  "ex_decisions = [\<lparr>rd_id = 1, rd_groupId = 0, rd_flexPRatio = 0, rd_role = PREFILL_INSTANCE\<rparr>,
     \<lparr>rd_id = 2, rd_groupId = 0, rd_flexPRatio = 0, rd_role = DECODE_INSTANCE\<rparr>]"

definition ex_ns :: "NodeInfo list" where
  "ex_ns = map (\<lambda>i. upd_static (\<lambda>st. st\<lparr>st_id := i\<rparr>) default_node) [1, 2]"

theorem role_decisions_wire_mutual_peers_witness:
  "\<exists>ns' gs fs. WaitForRoleDecision False False ex_decisions ex_ns = (True, ns', gs, fs)
     \<and> gs = [(decided PREFILL_INSTANCE ex_decisions, decided DECODE_INSTANCE ex_decisions)]"
proof -
  have "fst (WaitForRoleDecision False False ex_decisions ex_ns)" by code_simp
  then obtain ns' gs fs where e: "WaitForRoleDecision False False ex_decisions ex_ns = (True, ns', gs, fs)"
    by (cases "WaitForRoleDecision False False ex_decisions ex_ns" rule: prod_cases4) auto
  have "distinct (map rd_id ex_decisions)" "\<forall>d \<in> set ex_decisions. rd_role d \<noteq> UN_DEF_INSTANCE"
    by (simp_all add: ex_decisions_def)
  from role_decisions_wire_mutual_peers [OF e this] e show ?thesis by blast
qed

end
