(* ===== verification/Fault_Manager.thy ===== *)
theory Fault_Manager
  imports Relink Dp_Grouping
begin

text \<open>
  Scaling of the cluster (\<^verbatim>\<open>controller/fault_manager/FaultManager.cpp\<close>, \<^verbatim>\<open>FaultHandler.cpp\<close>): instances that left the rank
  table are taken out of the table, the groups and the peer lists; new ones are placed in a group and linked; and when
  decode instances are missing, a prefill instance is given up. \<open>waits\<close> holds, for each wait of up to 30 seconds for the
  old processes to exit, the change of the rank table seen during it. The expected and actual numbers of
  instances come from files and are arguments; aborting a device recovery is recorded in \<open>aborted\<close>.
\<close>

subsection \<open>State\<close>

datatype HardwareFaultType = SUBHEALTHY | UNHEALTHY
datatype SoftwareFaultType = HTTP_COMM_FAILED
datatype ScalingMode = SCALE_IN | SCALE_OUT

record GroupUpdateMsg =
  gm_groupId :: u64
  pNodes :: "u64 list"
  dNodes :: "u64 list"
  targetNewNodeIds :: "u64 list"
  targetOldNodeIds :: "u64 list"
  hasPrefillNode :: bool
  hasDecodeNode :: bool

record FaultManager =
  fm_world :: World
  mFaultyGroupInstanceInfo :: "(u64, int) omap"
  mHardwareFaultyNodes :: "(u64, HardwareFaultType set) omap"
  mSoftwareFaultyNodes :: "(u64, SoftwareFaultType set) omap"
  mScaleInTimerMode :: uint32
  timerActive :: bool
  isNeedWaitNpuProcessExit :: bool
  waits :: "int option list"
  aborted :: "u64 list"

definition NOT_SCALE_OUT :: u64 where "NOT_SCALE_OUT = 999999"
definition TIMER_MODE :: uint32 where "TIMER_MODE = 2"

abbreviation fm_status :: "FaultManager \<Rightarrow> NodeStatus" where "fm_status m \<equiv> status (fm_world m)"

definition on_status :: "(NodeStatus \<Rightarrow> NodeStatus) \<Rightarrow> FaultManager \<Rightarrow> FaultManager" where
  "on_status f m = m\<lparr>fm_world := upd_status f (fm_world m)\<rparr>"

type_synonym id_roles = "(u64 \<times> DIGSInstanceRole) list"

subsection \<open>Groups\<close>

text \<open>\<^verbatim>\<open>RemoveElement\<close> is \<^const>\<open>remove1\<close>, \<^verbatim>\<open>AddElement\<close> is \<^const>\<open>add_once\<close>.\<close>

definition UpdateFaultyInstanceCnt :: "u64 \<Rightarrow> DIGSInstanceRole \<Rightarrow> int \<Rightarrow> FaultManager \<Rightarrow> FaultManager" where
  "UpdateFaultyInstanceCnt g ro cnt m =
     (let c = omap_get 0 (mFaultyGroupInstanceInfo m) g
      in m\<lparr>mFaultyGroupInstanceInfo := omap_put g (if ro = DECODE_INSTANCE \<and> c + cnt \<ge> 0 then c + cnt else c) (mFaultyGroupInstanceInfo m)\<rparr>)"

definition change_instance :: "ScalingMode \<Rightarrow> u64 \<times> DIGSInstanceRole \<Rightarrow> GroupUpdateMsg \<Rightarrow> GroupUpdateMsg" where
  "change_instance mode ir msg =
     (let i = fst ir; edit = (\<lambda>xs. case mode of SCALE_IN \<Rightarrow> remove1 i xs | SCALE_OUT \<Rightarrow> add_once i xs);
          new = (\<lambda>xs. case mode of SCALE_IN \<Rightarrow> xs | SCALE_OUT \<Rightarrow> xs @ [i])
      in case snd ir of
           DECODE_INSTANCE \<Rightarrow> msg\<lparr>dNodes := edit (dNodes msg), targetNewNodeIds := new (targetNewNodeIds msg), hasDecodeNode := True\<rparr>
         | PREFILL_INSTANCE \<Rightarrow> msg\<lparr>pNodes := edit (pNodes msg), targetNewNodeIds := new (targetNewNodeIds msg), hasPrefillNode := True\<rparr>
         | _ \<Rightarrow> msg)"

definition BuildGroupUpdateMsg :: "u64 \<Rightarrow> ScalingMode \<Rightarrow> id_roles \<Rightarrow> NodeStatus \<Rightarrow> GroupUpdateMsg" where
  "BuildGroupUpdateMsg g mode changes s = fold (change_instance mode) changes
     \<lparr>gm_groupId = g, pNodes = fst (GetGroup g s), dNodes = snd (GetGroup g s), targetNewNodeIds = [], targetOldNodeIds = [],
      hasPrefillNode = False, hasDecodeNode = False\<rparr>"

definition drop_instance :: "DIGSInstanceRole \<Rightarrow> u64 \<Rightarrow> GroupUpdateMsg \<Rightarrow> GroupUpdateMsg" where
  "drop_instance ro i msg = (let msg1 = msg\<lparr>targetNewNodeIds := remove1 i (targetNewNodeIds msg), targetOldNodeIds := remove1 i (targetOldNodeIds msg)\<rparr> in
     if ro = DECODE_INSTANCE then msg1\<lparr>dNodes := remove1 i (dNodes msg)\<rparr> else msg1\<lparr>pNodes := remove1 i (pNodes msg)\<rparr>)"

definition IsAllPeersUnAvailable :: "NodeInfo \<Rightarrow> GroupUpdateMsg \<Rightarrow> NodeStatus \<Rightarrow> bool \<times> GroupUpdateMsg" where
  "IsAllPeersUnAvailable n msg s =
     (if GetGroup (node_group n) s = ([], []) then (False, msg)
      else let none = list_all (\<lambda>p. case GetNode p s of None \<Rightarrow> True | Some q \<Rightarrow> deleteTime q \<noteq> 0) (nd_peers n) in
        if \<not> none then (False, msg)
        else case node_role n of
          DECODE_INSTANCE \<Rightarrow> if hasPrefillNode msg then (False, msg) else (True, drop_instance DECODE_INSTANCE (node_id n) msg)
        | PREFILL_INSTANCE \<Rightarrow> if hasDecodeNode msg then (False, msg) else (True, drop_instance PREFILL_INSTANCE (node_id n) msg)
        | _ \<Rightarrow> (True, msg))"

fun FilterUnscalableInstances :: "u64 \<Rightarrow> id_roles \<Rightarrow> GroupUpdateMsg \<Rightarrow> FaultManager \<Rightarrow> GroupUpdateMsg \<times> FaultManager" where
  "FilterUnscalableInstances g [] msg m = (msg, m)"
| "FilterUnscalableInstances g ((i, ro) # cs) msg m = (case GetNode i (fm_status m) of
     None \<Rightarrow> FilterUnscalableInstances g cs msg m
   | Some n \<Rightarrow> (case IsAllPeersUnAvailable n msg (fm_status m) of
       (True, msg1) \<Rightarrow> FilterUnscalableInstances g cs msg1 (m\<lparr>fm_world := snd (TerminateService n (fm_world m))\<rparr>)
     | (False, msg1) \<Rightarrow> FilterUnscalableInstances g cs msg1 (UpdateFaultyInstanceCnt g ro (- 1) m)))"

text \<open>Prefill instances get the new decode instances when one of those changed, and the other way round.\<close>

fun update_prefills :: "u64 \<Rightarrow> u64 list \<Rightarrow> u64 list \<Rightarrow> u64 list \<Rightarrow> NodeStatus \<Rightarrow> u64 list \<times> NodeStatus" where
  "update_prefills g ds [] old s = (old, s)"
| "update_prefills g ds (p # ps) old s =
     (let s1 = ready_peers g p ds (UpdateInferenceType p PREFILL_UPDATING_PEERS s) in
      update_prefills g ds ps (case GetNode p s1 of None \<Rightarrow> old | Some n \<Rightarrow> if deleteTime n = 0 then old @ [p] else old) s1)"

definition UpdateGroupRoleStateAndPeers :: "GroupUpdateMsg \<Rightarrow> NodeStatus \<Rightarrow> GroupUpdateMsg \<times> NodeStatus" where
  "UpdateGroupRoleStateAndPeers msg s =
     (let (old1, s1) = (if hasDecodeNode msg then update_prefills (gm_groupId msg) (dNodes msg) (pNodes msg) (targetOldNodeIds msg) s
            else (targetOldNodeIds msg, s));
          (old2, s2) = (if hasPrefillNode msg
            then (old1 @ dNodes msg, fold (\<lambda>d. ready_peers (gm_groupId msg) d (pNodes msg)) (dNodes msg) s1) else (old1, s1))
      in (msg\<lparr>targetOldNodeIds := filter (\<lambda>i. i \<notin> set (targetNewNodeIds msg)) old2\<rparr>, s2))"

definition post_batch :: "SrvCfg \<Rightarrow> u64 list \<Rightarrow> FaultManager \<Rightarrow> FaultManager option" where
  "post_batch cfg is m = (if is = [] then Some m
     else map_option (\<lambda>(_, w). m\<lparr>fm_world := w\<rparr>) (BatchPostRole cfg is (fm_world m)))"

text \<open>The wait for old processes to exit: the flag tells that the rank table changed.\<close>

definition wait_exit :: "ScalingMode \<Rightarrow> FaultManager \<Rightarrow> bool \<times> FaultManager" where
  "wait_exit mode m = (if isNeedWaitNpuProcessExit m \<and> mode = SCALE_OUT then
       (case waits m of [] \<Rightarrow> (False, m)
        | None # ws \<Rightarrow> (False, m\<lparr>waits := ws\<rparr>)
        | Some t # ws \<Rightarrow> (t \<noteq> GetRanktableChangeTime (fm_status m), on_status (UpdateRanktableChangeTime t) (m\<lparr>waits := ws\<rparr>)))
     else (False, m))"

text \<open>One group; the flag tells to leave the remaining groups alone.\<close>

definition update_group :: "SrvCfg \<Rightarrow> ScalingMode \<Rightarrow> u64 \<Rightarrow> id_roles \<Rightarrow> FaultManager \<Rightarrow> (bool \<times> FaultManager) option" where
  "update_group cfg mode g changes m =
     (let msg0 = BuildGroupUpdateMsg g mode changes (fm_status m);
          (msg1, m1) = (if mode = SCALE_OUT then FilterUnscalableInstances g changes msg0 m else (msg0, m));
          (msg2, s2) = UpdateGroupRoleStateAndPeers msg1 (UpdateGroup g (pNodes msg1, dNodes msg1) (fm_status m1));
          m2 = on_status (\<lambda>_. s2) m1
      in case post_batch cfg (targetNewNodeIds msg2) m2 of None \<Rightarrow> None
         | Some m3 \<Rightarrow> (case wait_exit mode m3 of
             (True, m4) \<Rightarrow> Some (True, m4)
           | (False, m4) \<Rightarrow> map_option (\<lambda>m5. (False, on_status (fold (\<lambda>p. UpdateInferenceType p AVAILABLE) (pNodes msg2)) m5))
               (post_batch cfg (targetOldNodeIds msg2) m4)))"

fun ScalingUpdateAllGroups :: "SrvCfg \<Rightarrow> ScalingMode \<Rightarrow> (u64, id_roles) omap \<Rightarrow> FaultManager \<Rightarrow> FaultManager option" where
  "ScalingUpdateAllGroups cfg mode [] m = Some m"
| "ScalingUpdateAllGroups cfg mode ((g, changes) # gs) m = (case update_group cfg mode g changes m of
     None \<Rightarrow> None
   | Some (True, m1) \<Rightarrow> Some m1
   | Some (False, m1) \<Rightarrow> ScalingUpdateAllGroups cfg mode gs m1)"

definition push_change :: "u64 \<Rightarrow> u64 \<times> DIGSInstanceRole \<Rightarrow> (u64, id_roles) omap \<Rightarrow> (u64, id_roles) omap" where
  "push_change g c gs = omap_put g (omap_get [] gs g @ [c]) gs"

subsection \<open>Scaling in\<close>

definition scale_in_one :: "int \<Rightarrow> u64 \<Rightarrow> (u64, id_roles) omap \<times> FaultManager \<Rightarrow> (u64, id_roles) omap \<times> FaultManager" where
  "scale_in_one now i = (\<lambda>(gs, m). let m1 = on_status (UpdateNodeDeleteTime now i) m in
     case GetNode i (fm_status m1) of None \<Rightarrow> (gs, m1)
     | Some n \<Rightarrow> (push_change (node_group n) (i, node_role n) gs,
         on_status (ns_RemoveNode i \<circ> RemoveExpiredNode i) (UpdateFaultyInstanceCnt (node_group n) (node_role n) 1 m1)))"

definition ProcessScaleIn :: "SrvCfg \<Rightarrow> int \<Rightarrow> u64 list \<Rightarrow> FaultManager \<Rightarrow> FaultManager option" where
  "ProcessScaleIn cfg now removed m = (let (gs, m1) = fold (scale_in_one now) removed ([], m) in ScalingUpdateAllGroups cfg SCALE_IN gs m1)"

subsection \<open>Giving up a prefill instance\<close>

definition GetGroupActivePrefillInstanceCnt :: "u64 \<Rightarrow> NodeStatus \<Rightarrow> nat" where
  "GetGroupActivePrefillInstanceCnt g s =
     (let known = List.map_filter (\<lambda>p. GetNode p s) (fst (GetGroup g s));
          per = (if known = [] then 1 else length (dpGroupPeers (last known)));
          active = length (filter (\<lambda>n. activePeers n \<noteq> [] \<or> nd_peers n = []) known)
      in if fst (GetGroup g s) = [] then 0 else if per = 0 then 0 else active div per)"

fun terminate_any :: "u64 list \<Rightarrow> FaultManager \<Rightarrow> bool \<times> FaultManager" where
  "terminate_any [] m = (False, m)"
| "terminate_any (p # ps) m = (case GetNode p (fm_status m) of None \<Rightarrow> terminate_any ps m
     | Some n \<Rightarrow> (case TerminateService n (fm_world m) of
         (True, w) \<Rightarrow> (True, m\<lparr>fm_world := w\<rparr>)
       | (False, w) \<Rightarrow> terminate_any ps (m\<lparr>fm_world := w\<rparr>)))"

definition expire_one :: "int \<Rightarrow> u64 \<Rightarrow> u64 \<Rightarrow> pd_group \<times> NodeStatus \<Rightarrow> pd_group \<times> NodeStatus" where
  "expire_one now g i = (\<lambda>((ps, ds), s). let grp = (removeAll i ps, ds) in
     (grp, UpdateGroup g grp (UpdateNodeDeleteTime now i (AddExpiredNode i s))))"

text \<open>
  All nodes of the instance are given up as soon as one of them was told to stop. An instance whose own id is the
  largest 64-bit number counts as not released.
\<close>

definition ReleaseDpGroupPeersForNode :: "int \<Rightarrow> u64 \<Rightarrow> NodeInfo option \<Rightarrow> pd_group \<Rightarrow> FaultManager \<Rightarrow> bool \<times> pd_group \<times> FaultManager" where
  "ReleaseDpGroupPeersForNode now g node grp m = (case node of None \<Rightarrow> (False, grp, m)
     | Some n \<Rightarrow> (case terminate_any (dpGroupPeers n) m of
         (False, m1) \<Rightarrow> (False, grp, m1)
       | (True, m1) \<Rightarrow> if node_id n = - 1 then (False, grp, m1)
           else let (grp1, s1) = fold (expire_one now g) (dpGroupPeers n) (grp, fm_status m1) in (True, grp1, on_status (\<lambda>_. s1) m1)))"

fun release_first :: "int \<Rightarrow> u64 \<Rightarrow> u64 list \<Rightarrow> pd_group \<Rightarrow> FaultManager \<Rightarrow> bool \<times> FaultManager" where
  "release_first now g [] grp m = (False, m)"
| "release_first now g (p # ps) grp m = (case ReleaseDpGroupPeersForNode now g (GetNode p (fm_status m)) grp m of
     (True, _, m1) \<Rightarrow> (True, m1) | (False, grp1, m1) \<Rightarrow> release_first now g ps grp1 m1)"

definition ReleasePrefillInstances :: "int \<Rightarrow> u64 \<Rightarrow> FaultManager \<Rightarrow> bool \<times> FaultManager" where
  "ReleasePrefillInstances now g m = (if GetGroupActivePrefillInstanceCnt g (fm_status m) \<le> 1 then (False, m)
     else release_first now g (fst (GetGroup g (fm_status m))) (GetGroup g (fm_status m)) m)"

fun release_other :: "int \<Rightarrow> u64 list \<Rightarrow> FaultManager \<Rightarrow> bool \<times> FaultManager" where
  "release_other now [] m = (False, m)"
| "release_other now (g # gs) m = (case ReleasePrefillInstances now g m of (True, m1) \<Rightarrow> (True, m1) | (False, m1) \<Rightarrow> release_other now gs m1)"

definition SelectGroup2ReleaseInstance :: "int \<Rightarrow> u64 \<Rightarrow> FaultManager \<Rightarrow> bool \<times> FaultManager" where
  "SelectGroup2ReleaseInstance now g m = (if g \<ge> NOT_SCALE_OUT then (False, m)
     else case ReleasePrefillInstances now g m of (True, m1) \<Rightarrow> (True, m1)
       | (False, m1) \<Rightarrow> release_other now (filter (\<lambda>h. h \<noteq> g) (GetAllGroupIds (fm_status m1))) m1)"

text \<open>One expiry of the timer. A count is \<^const>\<open>None\<close> when the file it is read from cannot be used.\<close>

definition InstanceLevelNonRedundantScaleIn :: "int \<Rightarrow> (int \<times> int) option \<Rightarrow> (int \<times> int) option \<Rightarrow> FaultManager \<Rightarrow> FaultManager" where
  "InstanceLevelNonRedundantScaleIn now expected actual m =
     (let m1 = m\<lparr>mScaleInTimerMode := mScaleInTimerMode m + 1\<rparr> in
      if mScaleInTimerMode m1 mod TIMER_MODE = 0 then m1
      else case (expected, actual, GetAllGroupIds (fm_status m1)) of
          (Some (_, ed), Some (_, ad), g # _) \<Rightarrow> if ed - ad > 0 then snd (SelectGroup2ReleaseInstance now g m1) else m1
        | _ \<Rightarrow> m1)"

subsection \<open>Scaling out\<close>

definition SelectBestGroup :: "DIGSInstanceRole \<Rightarrow> u64 list \<Rightarrow> NodeStatus \<Rightarrow> u64" where
  "SelectBestGroup ro gs s = snd (fold (\<lambda>g (least, sel). let (ps, ds) = GetGroup g s in
     case ro of
       PREFILL_INSTANCE \<Rightarrow> if length ps < least then (length ds, g) else (least, sel)
     | DECODE_INSTANCE \<Rightarrow> if length ds < least then (length ps, g) else (least, sel)
     | _ \<Rightarrow> (least, sel)) gs (2 ^ 64 - 1, 0))"

type_synonym group_counts = "(u64, nat \<times> nat) omap"

definition PreAddAvailableServers2Group :: "u64 list \<Rightarrow> NodeInfo list \<Rightarrow> NodeStatus \<Rightarrow> group_counts" where
  "PreAddAvailableServers2Group gs ns s =
     fold (\<lambda>n c. let g = SelectBestGroup (node_role n) gs s; (p, d) = omap_get (0, 0) c g in
         omap_put g (if node_role n = DECODE_INSTANCE then (p, d + 1) else (p + 1, d)) c) ns
       (fold (\<lambda>g. omap_put g (length (fst (GetGroup g s)), length (snd (GetGroup g s)))) gs [])"

text \<open>The hardware type that is logged is read from the first server.\<close>

definition AddInstance2Group :: "NodeInfo \<Rightarrow> u64 list \<Rightarrow> group_counts \<Rightarrow> NodeStatus \<Rightarrow> (u64 \<times> NodeInfo) option" where
  "AddInstance2Group n gs counts s = (if serverInfoList n = [] then None
     else let g = SelectBestGroup (node_role n) gs s; (ps, ds) = GetGroup g s;
              put = (\<lambda>ro lab peers. upd_static (\<lambda>st. st\<lparr>st_groupId := g, st_role := ro, st_label := lab\<rparr>) n\<lparr>nd_peers := peers\<rparr>);
              n1 = (if node_role n = DECODE_INSTANCE then put DECODE_INSTANCE DECODE_STATIC ps else put PREFILL_INSTANCE PREFILL_STATIC ds)
          in if ps = [] \<and> ds = [] then Some (g, n1)
             else case map_of counts g of None \<Rightarrow> Some (NOT_SCALE_OUT, n1)
               | Some (p, d) \<Rightarrow> Some (if p > 0 \<and> d > 0 then g else NOT_SCALE_OUT, n1))"

fun place_servers ::
  "SrvCfg \<Rightarrow> DpCfg \<Rightarrow> u64 list \<Rightarrow> group_counts \<Rightarrow> NodeInfo list \<Rightarrow> (u64, id_roles) omap \<Rightarrow> FaultManager
     \<Rightarrow> ((u64, id_roles) omap \<times> FaultManager) option" where
  "place_servers cfg dcfg gs counts [] acc m = Some (acc, m)"
| "place_servers cfg dcfg gs counts (n # ns) acc m = (case AddInstance2Group n gs counts (fm_status m) of
     None \<Rightarrow> None
   | Some (g, n1) \<Rightarrow> if g = NOT_SCALE_OUT
       then place_servers cfg dcfg gs counts ns acc
         (on_status (AddExpiredNode (node_id n1)) (m\<lparr>fm_world := snd (TerminateService n1 (fm_world m))\<rparr>))
       else (case (if multiNode cfg then ProcessSingleNodeDpGrouping dcfg n1 else Some (True, n1)) of
           None \<Rightarrow> None
         | Some (False, _) \<Rightarrow> place_servers cfg dcfg gs counts ns acc m
         | Some (True, n2) \<Rightarrow> place_servers cfg dcfg gs counts ns (push_change g (node_id n2, node_role n2) acc) (on_status (AddNode n2) m)))"

definition TryStopTimer :: "u64 list \<Rightarrow> FaultManager \<Rightarrow> FaultManager" where
  "TryStopTimer newIds m = (if mHardwareFaultyNodes m = [] then m
     else if int (length newIds) \<ge> sum_list (map snd (mFaultyGroupInstanceInfo m))
       then m\<lparr>mFaultyGroupInstanceInfo := [], mScaleInTimerMode := 0, timerActive := False\<rparr>
     else m)"

definition FilterAvailableServers :: "SrvCfg \<Rightarrow> NodeInfo list \<Rightarrow> u64 list \<Rightarrow> FaultManager \<Rightarrow> NodeInfo list option \<times> FaultManager" where
  "FilterAvailableServers cfg ns ids m =
     (case GetAvailableNodes cfg (filter (\<lambda>n. node_id n \<in> set ids) ns) 0 (fm_world m) of
        (None, w) \<Rightarrow> (None, m\<lparr>fm_world := w\<rparr>) | (Some (av, _), w) \<Rightarrow> (Some av, m\<lparr>fm_world := w\<rparr>))"

fun ProcessScaleOutInSingleMode :: "SrvCfg \<Rightarrow> u64 list \<Rightarrow> NodeInfo list \<Rightarrow> FaultManager \<Rightarrow> FaultManager" where
  "ProcessScaleOutInSingleMode cfg ids [] m = m"
| "ProcessScaleOutInSingleMode cfg ids (n # ns) m =
     (if node_id n \<notin> set ids then ProcessScaleOutInSingleMode cfg ids ns m
      else let (ok1, n1, w1) = QueryInstanceInfo n (fm_world m) in
        if \<not> ok1 then ProcessScaleOutInSingleMode cfg ids ns (m\<lparr>fm_world := w1\<rparr>)
        else let ((ok2, _), n2, w2) = UpdateNodeInfo cfg False n1 w1 in
          if \<not> ok2 then ProcessScaleOutInSingleMode cfg ids ns (m\<lparr>fm_world := w2\<rparr>)
          else ProcessScaleOutInSingleMode cfg ids ns (m\<lparr>fm_world := upd_status (AddNode (upd_static (\<lambda>st. st\<lparr>
              st_totalSlotsNum := dy_availSlotsNum (dynamicInfo (instanceInfo n2)), st_totalBlockNum := dy_availBlockNum (dynamicInfo (instanceInfo n2))\<rparr>) n2)) w2\<rparr>))"

definition ProcessScaleOut :: "SrvCfg \<Rightarrow> DpCfg \<Rightarrow> NodeInfo list \<Rightarrow> NodeChanges \<Rightarrow> FaultManager \<Rightarrow> FaultManager option" where
  "ProcessScaleOut cfg dcfg ns c m =
     (if \<not> pdSeparate cfg then Some (if newIDs c = [] \<and> reappearIDs c = [] then m else ProcessScaleOutInSingleMode cfg (reappearIDs c @ newIDs c) ns m)
      else case FilterAvailableServers cfg ns (newIDs c) (TryStopTimer (newIDs c) m) of
          (None, m1) \<Rightarrow> Some m1
        | (Some av, m1) \<Rightarrow> (let gs = GetAllGroupIds (fm_status m1) in
            Option.bind (place_servers cfg dcfg gs (PreAddAvailableServers2Group gs av (fm_status m1)) av [] m1)
              (\<lambda>(changes, m2). ScalingUpdateAllGroups cfg SCALE_OUT changes m2)))"

definition ScalingInstance :: "SrvCfg \<Rightarrow> DpCfg \<Rightarrow> int \<Rightarrow> NodeInfo list \<Rightarrow> NodeChanges \<Rightarrow> FaultManager \<Rightarrow> FaultManager option" where
  "ScalingInstance cfg dcfg now ns c m = Option.bind (if removedIDs c = [] then Some m else ProcessScaleIn cfg now (removedIDs c) m)
     (\<lambda>m1. if newIDs c = [] \<and> reappearIDs c = [] then Some m1 else ProcessScaleOut cfg dcfg ns c m1)"

subsection \<open>Faults\<close>

definition AbortRecoveryOf :: "u64 \<Rightarrow> NodeInfo \<Rightarrow> u64" where
  "AbortRecoveryOf i n = (if dpGroupPeers n \<noteq> [] then Min (set (dpGroupPeers n)) else i)"

definition UnhealthyHardwareFaultHandler :: "u64 \<Rightarrow> FaultManager \<Rightarrow> FaultManager" where
  "UnhealthyHardwareFaultHandler i m = (let m1 = (case GetNode i (fm_status m) of None \<Rightarrow> m
       | Some n \<Rightarrow> if AbortRecoveryOf i n \<noteq> - 1 then m\<lparr>aborted := aborted m @ [AbortRecoveryOf i n]\<rparr> else m)
     in m1\<lparr>timerActive := True\<rparr>)"

definition RecordHardwareFaultyNode :: "u64 \<Rightarrow> HardwareFaultType \<Rightarrow> FaultManager \<Rightarrow> FaultManager" where
  "RecordHardwareFaultyNode i t m = (let m1 = m\<lparr>mHardwareFaultyNodes :=
       omap_put i (insert t (omap_get {} (mHardwareFaultyNodes m) i)) (mHardwareFaultyNodes m)\<rparr>
     in case t of SUBHEALTHY \<Rightarrow> m1 | UNHEALTHY \<Rightarrow> UnhealthyHardwareFaultHandler i m1)"

text \<open>No handler is registered for software faults.\<close>

definition RecordSoftwareFaultyNode :: "u64 \<Rightarrow> SoftwareFaultType \<Rightarrow> FaultManager \<Rightarrow> FaultManager" where
  "RecordSoftwareFaultyNode i t m = m\<lparr>mSoftwareFaultyNodes :=
     omap_put i (insert t (omap_get {} (mSoftwareFaultyNodes m) i)) (mSoftwareFaultyNodes m)\<rparr>"

end
