(* ===== verification/Scale_In.thy ===== *)
theory Scale_In
  imports Fault_Manager
begin

text \<open>
  Scaling in forgets an instance completely: it leaves the table, its group, and the peer list of every instance that is still in
  use. The argument rests on the shape of the table (\<open>wired\<close>): peers have the opposite role and the same group, and an
  instance in use is on the list of its group for its role. Scaling in keeps that shape.
\<close>

subsection \<open>The shape of the table\<close>

fun side :: "DIGSInstanceRole \<Rightarrow> pd_group \<Rightarrow> u64 list" where
  "side PREFILL_INSTANCE grp = fst grp"
| "side DECODE_INSTANCE grp = snd grp"
| "side _ grp = []"

fun opposite :: "DIGSInstanceRole \<Rightarrow> DIGSInstanceRole" where
  "opposite PREFILL_INSTANCE = DECODE_INSTANCE"
| "opposite DECODE_INSTANCE = PREFILL_INSTANCE"
| "opposite ro = ro"

definition pd_role :: "DIGSInstanceRole \<Rightarrow> bool" where
  "pd_role ro \<longleftrightarrow> ro = PREFILL_INSTANCE \<or> ro = DECODE_INSTANCE"

definition wired :: "NodeStatus \<Rightarrow> bool" where
  "wired s \<longleftrightarrow> omap_ok (mNodes s) \<and> (\<forall>g. GetFlexGroup g s = [])
     \<and> (\<forall>g ro. distinct (side ro (GetGroup g s)))
     \<and> (\<forall>i n. GetNode i s = Some n \<longrightarrow> pd_role (node_role n))
     \<and> (\<forall>i n g ro. GetNode i s = Some n \<longrightarrow> i \<in> set (side ro (GetGroup g s)) \<longrightarrow> node_role n = ro \<and> node_group n = g)
     \<and> (\<forall>i n. live s i n \<longrightarrow> i \<in> set (side (node_role n) (GetGroup (node_group n) s)))
     \<and> (\<forall>i n p m. live s i n \<longrightarrow> p \<in> set (nd_peers n) \<longrightarrow> GetNode p s = Some m
          \<longrightarrow> node_role m = opposite (node_role n) \<and> node_group m = node_group n)"

lemma wiredD:
  assumes "wired s"
  shows "live s i n \<Longrightarrow> i \<in> set (side (node_role n) (GetGroup (node_group n) s))"
    and "GetNode i s = Some n \<Longrightarrow> pd_role (node_role n)"
    and "GetNode i s = Some n \<Longrightarrow> i \<in> set (side ro (GetGroup g s)) \<Longrightarrow> node_role n = ro \<and> node_group n = g"
    and "live s i n \<Longrightarrow> p \<in> set (nd_peers n) \<Longrightarrow> GetNode p s = Some m \<Longrightarrow> node_role m = opposite (node_role n) \<and> node_group m = node_group n"
  using assms unfolding wired_def by blast+

subsection \<open>The effect of updating one group\<close>

definition peers_of :: "NodeStatus \<Rightarrow> u64 \<Rightarrow> u64 list option" where
  "peers_of s j = map_option nd_peers (GetNode j s)"

text \<open>\<open>regroup g grp hasP hasD\<close>: group \<open>g\<close> becomes \<open>grp\<close>; its decode instances are linked to its prefill instances if one of those
  changed, and the other way round; nothing else about nodes and groups changes.\<close>

definition regroup :: "u64 \<Rightarrow> pd_group \<Rightarrow> bool \<Rightarrow> bool \<Rightarrow> NodeStatus \<Rightarrow> NodeStatus \<Rightarrow> bool" where
  "regroup g grp hasP hasD s s' \<longleftrightarrow>
     (\<forall>j. map_option hide_links (GetNode j s') = map_option hide_links (GetNode j s))
     \<and> (omap_ok (mNodes s) \<longrightarrow> omap_ok (mNodes s'))
     \<and> (\<forall>h. GetGroup h s' = (if h = g then grp else GetGroup h s)) \<and> (\<forall>h. GetFlexGroup h s' = GetFlexGroup h s)
     \<and> (\<forall>j. peers_of s' j = (if hasP \<and> j \<in> set (snd grp) then map_option (\<lambda>_. fst grp @ GetFlexGroup g s) (peers_of s j)
          else if hasD \<and> j \<in> set (fst grp) then map_option (\<lambda>_. snd grp @ GetFlexGroup g s) (peers_of s j) else peers_of s j))"

lemma peers_of_ready: "peers_of (ready_peers g p x s) j = (if j = p then map_option (\<lambda>_. x @ GetFlexGroup g s) (peers_of s j) else peers_of s j)"
  by (simp add: peers_of_def ready_peers_wire GetNode_upd_node option.map_comp comp_def wire_def)

lemma report_peers: "report_only s s' \<Longrightarrow> peers_of s' j = peers_of s j"
proof -
  assume a: "report_only s s'"
  show ?thesis
  proof (cases "GetNode j s'")
    case None
    then show ?thesis using frame_lookup(1) [OF a, of j] by (simp add: peers_of_def)
  next
    case (Some n)
    obtain k where k: "GetNode j s = Some k" "hide_report k = hide_report n" using frame_lookup(2) [OF a Some] by blast
    show ?thesis using hide_report_eq(4) [OF k(2)] by (simp add: peers_of_def Some k(1))
  qed
qed

lemma frame_nodes: "frame f s s' \<Longrightarrow> map_option f (GetNode j s') = map_option f (GetNode j s)"
  by (simp add: frame_def GetNode_def)

lemma update_prefills_effect:
  "update_prefills g ds ps old s = (old', s') \<Longrightarrow>
     frame hide_links s s' \<and> (\<forall>j. peers_of s' j = (if j \<in> set ps then map_option (\<lambda>_. ds @ GetFlexGroup g s) (peers_of s j) else peers_of s j))"
proof (induction ps arbitrary: old s)
  case (Cons p ps)
  let ?s0 = "UpdateInferenceType p PREFILL_UPDATING_PEERS s" and ?s1 = "ready_peers g p ds (UpdateInferenceType p PREFILL_UPDATING_PEERS s)"
  have f: "frame hide_links s ?s1"
    by (rule frame_trans [OF report_links [OF report_steps(4)] ready_peers_frame])
  have fl: "GetFlexGroup g ?s1 = GetFlexGroup g s" "GetFlexGroup g ?s0 = GetFlexGroup g s"
    using frame_groups(2) [OF f] frame_groups(2) [OF report_steps(4)] by simp_all
  have p: "peers_of ?s1 j = (if j = p then map_option (\<lambda>_. ds @ GetFlexGroup g s) (peers_of s j) else peers_of s j)" for j
    by (simp add: peers_of_ready report_peers [OF report_steps(4)] fl)
  from Cons.prems obtain o2 where "update_prefills g ds ps o2 ?s1 = (old', s')" by (auto simp: Let_def)
  from Cons.IH [OF this] frame_trans [OF f] show ?case by (auto simp: p fl option.map_comp comp_def)
qed simp

lemma fold_ready_effect:
  "frame hide_links s (fold (\<lambda>d. ready_peers g d x) ds s)
    \<and> (\<forall>j. peers_of (fold (\<lambda>d. ready_peers g d x) ds s) j = (if j \<in> set ds then map_option (\<lambda>_. x @ GetFlexGroup g s) (peers_of s j) else peers_of s j))"
proof (induction ds arbitrary: s)
  case (Cons d ds)
  have fl: "GetFlexGroup g (ready_peers g d x s) = GetFlexGroup g s" by (rule frame_groups(2) [OF ready_peers_frame])
  from Cons.IH [of "ready_peers g d x s"] frame_trans [OF ready_peers_frame] show ?case
    by (auto simp: peers_of_ready fl option.map_comp comp_def)
qed simp

lemma UpdateGroup_effect:
  assumes "map_of (mGroups s) g = None \<Longrightarrow> grp = ([], [])"
  shows "GetGroup h (UpdateGroup g grp s) = (if h = g then grp else GetGroup h s)" "GetFlexGroup h (UpdateGroup g grp s) = GetFlexGroup h s"
    "GetNode j (UpdateGroup g grp s) = GetNode j s" "mNodes (UpdateGroup g grp s) = mNodes s"
  using assms by (auto simp: UpdateGroup_def GetGroup_def GetFlexGroup_def GetNode_def omap_get_def omap_simps split: option.splits)

lemma UpdateGroupRole_effect:
  assumes "UpdateGroupRoleStateAndPeers msg s = (msg', s')"
  shows "frame hide_links s s'" and "peers_of s' j = (if hasPrefillNode msg \<and> j \<in> set (dNodes msg)
      then map_option (\<lambda>_. pNodes msg @ GetFlexGroup (gm_groupId msg) s) (peers_of s j)
      else if hasDecodeNode msg \<and> j \<in> set (pNodes msg) then map_option (\<lambda>_. dNodes msg @ GetFlexGroup (gm_groupId msg) s) (peers_of s j)
      else peers_of s j)"
    and "pNodes msg' = pNodes msg" "targetNewNodeIds msg' = targetNewNodeIds msg"
proof -
  let ?g = "gm_groupId msg"
  obtain old1 s1 where 1: "(if hasDecodeNode msg then update_prefills ?g (dNodes msg) (pNodes msg) (targetOldNodeIds msg) s
      else (targetOldNodeIds msg, s)) = (old1, s1)" by fastforce
  define s2 where "s2 = (if hasPrefillNode msg then fold (\<lambda>d. ready_peers ?g d (pNodes msg)) (dNodes msg) s1 else s1)"
  have s': "s' = s2" using assms 1 by (auto simp: UpdateGroupRoleStateAndPeers_def s2_def Let_def split: if_splits)
  have e1: "frame hide_links s s1" "peers_of s1 j = (if hasDecodeNode msg \<and> j \<in> set (pNodes msg)
      then map_option (\<lambda>_. dNodes msg @ GetFlexGroup ?g s) (peers_of s j) else peers_of s j)" for j
    using 1 update_prefills_effect [of ?g "dNodes msg" "pNodes msg" "targetOldNodeIds msg" s old1 s1] by (auto split: if_splits)
  have fl: "GetFlexGroup ?g s1 = GetFlexGroup ?g s" by (rule frame_groups(2) [OF e1(1)])
  show "frame hide_links s s'" unfolding s' s2_def using frame_trans [OF e1(1)] fold_ready_effect e1(1) by auto
  show "peers_of s' j = (if hasPrefillNode msg \<and> j \<in> set (dNodes msg)
      then map_option (\<lambda>_. pNodes msg @ GetFlexGroup ?g s) (peers_of s j)
      else if hasDecodeNode msg \<and> j \<in> set (pNodes msg) then map_option (\<lambda>_. dNodes msg @ GetFlexGroup ?g s) (peers_of s j)
      else peers_of s j)"
    unfolding s' s2_def using fold_ready_effect [of s1 ?g "pNodes msg" "dNodes msg"] by (auto simp: e1(2) fl option.map_comp comp_def)
  show "pNodes msg' = pNodes msg" "targetNewNodeIds msg' = targetNewNodeIds msg"
    using assms by (auto simp: UpdateGroupRoleStateAndPeers_def Let_def split: prod.splits)
qed

subsection \<open>Scaling in one group\<close>

definition role_ids :: "DIGSInstanceRole \<Rightarrow> id_roles \<Rightarrow> u64 list" where
  "role_ids ro ch = map fst (filter (\<lambda>c. snd c = ro) ch)"

definition cut_ids :: "id_roles \<Rightarrow> pd_group \<Rightarrow> pd_group" where
  "cut_ids ch grp = (fold remove1 (role_ids PREFILL_INSTANCE ch) (fst grp), fold remove1 (role_ids DECODE_INSTANCE ch) (snd grp))"

lemma role_ids_simps [simp]: "role_ids ro [] = []" "role_ids ro (c # ch) = (if snd c = ro then fst c # role_ids ro ch else role_ids ro ch)"
  by (simp_all add: role_ids_def)

lemma set_role_ids: "i \<in> set (role_ids ro ch) \<longleftrightarrow> (i, ro) \<in> set ch"
  by (force simp: role_ids_def)

lemma fold_remove1_empty [simp]: "fold remove1 xs [] = []"
  by (induction xs) simp_all

lemma fold_remove1_subset: "set (fold remove1 xs ys) \<subseteq> set ys"
proof (induction xs arbitrary: ys)
  case (Cons x xs)
  show ?case using Cons.IH [of "remove1 x ys"] set_remove1_subset [of x ys] by auto
qed simp

lemma fold_remove1_distinct: "distinct ys \<Longrightarrow> distinct (fold remove1 xs ys) \<and> set (fold remove1 xs ys) = set ys - set xs"
  by (induction xs arbitrary: ys) auto

lemma fold_change_in:
  "fold (change_instance SCALE_IN) ch msg = msg\<lparr>pNodes := fold remove1 (role_ids PREFILL_INSTANCE ch) (pNodes msg),
     dNodes := fold remove1 (role_ids DECODE_INSTANCE ch) (dNodes msg),
     hasPrefillNode := hasPrefillNode msg \<or> role_ids PREFILL_INSTANCE ch \<noteq> [], hasDecodeNode := hasDecodeNode msg \<or> role_ids DECODE_INSTANCE ch \<noteq> []\<rparr>"
proof (induction ch arbitrary: msg)
  case (Cons c ch)
  show ?case by (cases "snd c") (simp_all add: Cons.IH change_instance_def [of _ c] Let_def)
qed simp

lemma build_scale_in:
  "BuildGroupUpdateMsg g SCALE_IN ch s = \<lparr>gm_groupId = g, pNodes = fst (cut_ids ch (GetGroup g s)), dNodes = snd (cut_ids ch (GetGroup g s)),
     targetNewNodeIds = [], targetOldNodeIds = [], hasPrefillNode = role_ids PREFILL_INSTANCE ch \<noteq> [], hasDecodeNode = role_ids DECODE_INSTANCE ch \<noteq> []\<rparr>"
  by (simp add: BuildGroupUpdateMsg_def fold_change_in cut_ids_def)

lemma regroup_frame:
  assumes "frame hide_links s s'" "\<And>j. peers_of s' j = (if hasP \<and> j \<in> set (snd grp) then map_option (\<lambda>_. fst grp @ GetFlexGroup g s) (peers_of s j)
      else if hasD \<and> j \<in> set (fst grp) then map_option (\<lambda>_. snd grp @ GetFlexGroup g s) (peers_of s j) else peers_of s j)"
    and "s = UpdateGroup g grp s0" "map_of (mGroups s0) g = None \<Longrightarrow> grp = ([], [])"
  shows "regroup g grp hasP hasD s0 s'"
proof -
  note u = UpdateGroup_effect [OF assms(4)]
  have p: "peers_of s j = peers_of s0 j" for j by (simp add: assms(3) peers_of_def u(3))
  show ?thesis using assms(1) frame_nodes [OF assms(1)] frame_groups [OF assms(1)]
    by (auto simp: regroup_def assms(2) p) (simp_all add: assms(3) u frame_def)
qed

lemma report_fold_inference: "report_only s (fold (\<lambda>p. UpdateInferenceType p t) ps s)"
proof (induction ps arbitrary: s)
  case (Cons p ps)
  show ?case using frame_trans [OF report_steps(4) Cons.IH] by simp
qed simp

lemma post_batch_report: "post_batch cfg is m = Some m' \<Longrightarrow> report_only (fm_status m) (fm_status m')"
  using BatchPostRole_effect soft_report by (fastforce simp: post_batch_def split: if_splits)

lemma update_group_scale_in:
  assumes "update_group cfg SCALE_IN g ch m = Some (st, m')"
  shows "\<not> st \<and> regroup g (cut_ids ch (GetGroup g (fm_status m))) (role_ids PREFILL_INSTANCE ch \<noteq> []) (role_ids DECODE_INSTANCE ch \<noteq> []) (fm_status m) (fm_status m')"
proof -
  let ?s = "fm_status m" and ?grp = "cut_ids ch (GetGroup g (fm_status m))"
  let ?msg = "BuildGroupUpdateMsg g SCALE_IN ch ?s"
  obtain msg2 s2 where u: "UpdateGroupRoleStateAndPeers ?msg (UpdateGroup g ?grp ?s) = (msg2, s2)" by fastforce
  note e = UpdateGroupRole_effect [OF u]
  have new: "targetNewNodeIds msg2 = []" using e(4) by (simp add: build_scale_in)
  have "pNodes ?msg = fst ?grp" "dNodes ?msg = snd ?grp" by (simp_all add: build_scale_in)
  with assms u new obtain m5 where m5: "post_batch cfg (targetOldNodeIds msg2) (on_status (\<lambda>_. s2) m) = Some m5"
    "\<not> st" "m' = on_status (fold (\<lambda>p. UpdateInferenceType p AVAILABLE) (pNodes msg2)) m5"
    by (auto simp: update_group_def post_batch_def [of _ "[]"] wait_exit_def)
  have r: "report_only s2 (fm_status m')"
    using frame_trans [OF post_batch_report [OF m5(1)] report_fold_inference] by (simp add: m5(3) on_status_def)
  have f: "frame hide_links (UpdateGroup g ?grp ?s) (fm_status m')" by (rule frame_trans [OF e(1) report_links [OF r]])
  have "regroup g ?grp (role_ids PREFILL_INSTANCE ch \<noteq> []) (role_ids DECODE_INSTANCE ch \<noteq> []) ?s (fm_status m')"
    by (rule regroup_frame [OF f _ refl]) (simp_all add: report_peers [OF r] e(2) build_scale_in, simp add: cut_ids_def GetGroup_def omap_get_def)
  with m5(2) show ?thesis by blast
qed

subsection \<open>Scaling in all groups\<close>

definition pd_members :: "pd_group \<Rightarrow> u64 set" where "pd_members grp = set (fst grp) \<union> set (snd grp)"

definition cut_by :: "id_roles option \<Rightarrow> pd_group \<Rightarrow> pd_group" where
  "cut_by c grp = (case c of None \<Rightarrow> grp | Some ch \<Rightarrow> cut_ids ch grp)"

definition rewire :: "id_roles option \<Rightarrow> pd_group \<Rightarrow> u64 list \<Rightarrow> u64 \<Rightarrow> u64 list option \<Rightarrow> u64 list option" where
  "rewire c grp fl j ps = (case c of None \<Rightarrow> ps | Some ch \<Rightarrow>
     if role_ids PREFILL_INSTANCE ch \<noteq> [] \<and> j \<in> set (snd (cut_ids ch grp)) then map_option (\<lambda>_. fst (cut_ids ch grp) @ fl) ps
     else if role_ids DECODE_INSTANCE ch \<noteq> [] \<and> j \<in> set (fst (cut_ids ch grp)) then map_option (\<lambda>_. snd (cut_ids ch grp) @ fl) ps else ps)"

lemma pd_members_cut: "pd_members (cut_ids ch grp) \<subseteq> pd_members grp"
  using fold_remove1_subset by (fastforce simp: pd_members_def cut_ids_def)

lemma scale_in_groups:
  assumes "ScalingUpdateAllGroups cfg SCALE_IN gs m = Some m'" and "distinct (map fst gs)"
  shows "(\<forall>j. map_option hide_links (GetNode j (fm_status m')) = map_option hide_links (GetNode j (fm_status m)))
    \<and> (omap_ok (mNodes (fm_status m)) \<longrightarrow> omap_ok (mNodes (fm_status m')))
    \<and> (\<forall>h. GetGroup h (fm_status m') = cut_by (map_of gs h) (GetGroup h (fm_status m)))
    \<and> (\<forall>h. GetFlexGroup h (fm_status m') = GetFlexGroup h (fm_status m))
    \<and> (\<forall>j g. (\<forall>h. j \<in> pd_members (GetGroup h (fm_status m)) \<longrightarrow> h = g) \<longrightarrow>
         peers_of (fm_status m') j = rewire (map_of gs g) (GetGroup g (fm_status m)) (GetFlexGroup g (fm_status m)) j (peers_of (fm_status m) j))"
  using assms
proof (induction gs arbitrary: m)
  case Nil
  then show ?case by (simp add: cut_by_def rewire_def)
next
  case (Cons c gs)
  obtain g ch where c: "c = (g, ch)" by fastforce
  from Cons.prems c obtain st m1 where "update_group cfg SCALE_IN g ch m = Some (st, m1)"
    by (auto split: option.splits prod.splits bool.splits)
  with update_group_scale_in [OF this] have 1: "update_group cfg SCALE_IN g ch m = Some (False, m1)"
    and r: "regroup g (cut_ids ch (GetGroup g (fm_status m))) (role_ids PREFILL_INSTANCE ch \<noteq> []) (role_ids DECODE_INSTANCE ch \<noteq> []) (fm_status m) (fm_status m1)"
    by auto
  from Cons.prems c 1 have 2: "ScalingUpdateAllGroups cfg SCALE_IN gs m1 = Some m'" "distinct (map fst gs)" and no: "map_of gs g = None"
    by (auto simp: map_of_eq_None_iff)
  note IH = Cons.IH [OF 2]
  from r have nodes: "map_option hide_links (GetNode j (fm_status m1)) = map_option hide_links (GetNode j (fm_status m))"
    and ok: "omap_ok (mNodes (fm_status m)) \<Longrightarrow> omap_ok (mNodes (fm_status m1))"
    and grp: "GetGroup h (fm_status m1) = (if h = g then cut_ids ch (GetGroup g (fm_status m)) else GetGroup h (fm_status m))"
    and fl: "GetFlexGroup h (fm_status m1) = GetFlexGroup h (fm_status m)"
    and peers: "peers_of (fm_status m1) j = rewire (Some ch) (GetGroup g (fm_status m)) (GetFlexGroup g (fm_status m)) j (peers_of (fm_status m) j)" for j h
    by (simp_all add: regroup_def rewire_def)
  have "peers_of (fm_status m') j = rewire (map_of (c # gs) k) (GetGroup k (fm_status m)) (GetFlexGroup k (fm_status m)) j (peers_of (fm_status m) j)"
    if u: "\<forall>h. j \<in> pd_members (GetGroup h (fm_status m)) \<longrightarrow> h = k" for j k
  proof -
    have "\<forall>h. j \<in> pd_members (GetGroup h (fm_status m1)) \<longrightarrow> h = k" using u subsetD [OF pd_members_cut] by (auto simp: grp split: if_splits)
    with IH have p: "peers_of (fm_status m') j = rewire (map_of gs k) (GetGroup k (fm_status m1)) (GetFlexGroup k (fm_status m)) j (peers_of (fm_status m1) j)"
      by (simp add: fl)
    show ?thesis
    proof (cases "k = g")
      case True
      with p no show ?thesis by (simp add: c peers rewire_def)
    next
      case False
      with u have "j \<notin> pd_members (cut_ids ch (GetGroup g (fm_status m)))" using pd_members_cut by fastforce
      then have "peers_of (fm_status m1) j = peers_of (fm_status m) j" by (simp add: peers rewire_def pd_members_def)
      with p False show ?thesis by (simp add: c grp)
    qed
  qed
  moreover have "GetGroup h (fm_status m') = cut_by (map_of (c # gs) h) (GetGroup h (fm_status m))" for h
    using IH no by (simp add: grp c cut_by_def)
  ultimately show ?case using IH ok by (simp add: nodes fl)
qed

subsection \<open>Taking instances out of the table\<close>

text \<open>What \<^const>\<open>scale_in_one\<close> has collected after the ids \<open>R\<close>.\<close>

definition collected :: "NodeStatus \<Rightarrow> u64 set \<Rightarrow> (u64, id_roles) omap \<times> FaultManager \<Rightarrow> bool" where
  "collected s R = (\<lambda>(gs, m). omap_ok gs
     \<and> (\<forall>g. set (omap_get [] gs g) = {(i, node_role n) |i n. i \<in> R \<and> GetNode i s = Some n \<and> node_group n = g})
     \<and> (\<forall>j. GetNode j (fm_status m) = (if j \<in> R then None else GetNode j s))
     \<and> omap_ok (mNodes (fm_status m)) \<and> mGroups (fm_status m) = mGroups s \<and> mFlexGroups (fm_status m) = mFlexGroups s)"

lemma omap_ok_upd_node: "omap_ok (mNodes s) \<Longrightarrow> omap_ok (mNodes (upd_node i f s))"
  by (auto simp: upd_node_def split: option.splits)

lemma collected_step: assumes "collected s R gm" shows "collected s (insert i R) (scale_in_one now i gm)"
proof -
  obtain gs m where gm: "gm = (gs, m)" by fastforce
  let ?m1 = "on_status (UpdateNodeDeleteTime now i) m"
  show ?thesis
  proof (cases "GetNode i (fm_status m)")
    case None
    then have "fm_status ?m1 = fm_status m" by (simp add: on_status_def status_ops upd_node_def GetNode_def)
    moreover have "i \<in> R \<or> GetNode i s = None" using None assms gm by (auto simp: collected_def split: if_splits)
    ultimately show ?thesis using None assms gm by (auto simp: scale_in_one_def collected_def Let_def)
  next
    case (Some n)
    with assms gm have i: "i \<notin> R" "GetNode i s = Some n" by (auto simp: collected_def split: if_splits)
    obtain k where k: "GetNode i (fm_status ?m1) = Some k" "node_group k = node_group n" "node_role k = node_role n"
      using Some by (auto simp: on_status_def status_ops GetNode_upd_node)
    have r: "scale_in_one now i gm = (push_change (node_group n) (i, node_role n) gs,
         on_status (ns_RemoveNode i \<circ> RemoveExpiredNode i) (UpdateFaultyInstanceCnt (node_group n) (node_role n) 1 ?m1))"
      using k by (simp add: scale_in_one_def gm Let_def)
    let ?s1 = "fm_status ?m1" and ?s2 = "ns_RemoveNode i (RemoveExpiredNode i (fm_status ?m1))"
    have ok: "omap_ok (mNodes ?s1)" using assms gm by (simp add: collected_def on_status_def UpdateNodeDeleteTime_def omap_ok_upd_node)
    have s2: "mNodes ?s2 = omap_erase i (mNodes ?s1)" "mGroups ?s2 = mGroups ?s1" "mFlexGroups ?s2 = mFlexGroups ?s1"
      using k(1) by (auto simp: ns_RemoveNode_def RemoveExpiredNode_def GetNode_def)
    have s1: "mGroups ?s1 = mGroups (fm_status m)" "mFlexGroups ?s1 = mFlexGroups (fm_status m)"
      "j \<noteq> i \<Longrightarrow> GetNode j ?s1 = GetNode j (fm_status m)" for j
      by (simp_all add: on_status_def UpdateNodeDeleteTime_def GetNode_def upd_node_mNodes)
    have n2: "GetNode j ?s2 = (if j = i then None else GetNode j (fm_status m))" for j
      using s1(3) [of j] by (simp add: GetNode_def s2(1) map_of_omap_erase [OF ok])
    have st: "fm_status (on_status (ns_RemoveNode i \<circ> RemoveExpiredNode i) (UpdateFaultyInstanceCnt (node_group n) (node_role n) 1 ?m1)) = ?s2"
      by (simp add: on_status_def UpdateFaultyInstanceCnt_def Let_def)
    have new: "set (omap_get [] (push_change (node_group n) (i, node_role n) gs) g)
        = {(j, node_role q) |j q. j \<in> insert i R \<and> GetNode j s = Some q \<and> node_group q = g}" for g
      using assms i by (auto simp: gm collected_def push_change_def omap_get_def omap_simps)
    have "omap_ok (push_change (node_group n) (i, node_role n) gs)" "mGroups ?s2 = mGroups s" "mFlexGroups ?s2 = mFlexGroups s"
      "GetNode j ?s2 = (if j \<in> insert i R then None else GetNode j s)" for j
      using assms by (auto simp: gm collected_def push_change_def s1 s2 n2)
    then show ?thesis unfolding r collected_def prod.case st using new omap_ok_erase [OF ok, of i] by (simp add: s2(1))
  qed
qed

lemma collected_fold:
  assumes "omap_ok (mNodes (fm_status m))"
  shows "collected (fm_status m) (set removed) (fold (scale_in_one now) removed ([], m))"
proof -
  have "collected (fm_status m) (R \<union> set is) (fold (scale_in_one now) is gm)" if "collected (fm_status m) R gm" for R "is" gm
    using that
  proof (induction "is" arbitrary: R gm)
    case (Cons i "is")
    from Cons.IH [OF collected_step [OF Cons.prems]] show ?case by simp
  qed simp
  from this [of "{}" "([], m)" removed] show ?thesis using assms by (simp add: collected_def omap_get_def)
qed

subsection \<open>The whole operation\<close>

lemma hide_links_parts:
  assumes "hide_links a = hide_links b" shows "node_role a = node_role b" "deleteTime a = deleteTime b"
proof -
  from assms have "node_role (hide_links a) = node_role (hide_links b)" "deleteTime (hide_links a) = deleteTime (hide_links b)" by simp_all
  then show "node_role a = node_role b" "deleteTime a = deleteTime b" by (simp_all add: hide_links_def hide_report_def upd_static_def)
qed

lemmas hide_links_facts = hide_links_eq hide_links_parts

text \<open>An instance is \<open>hit\<close> when it is among the removed ones and the table had it. \<open>scaled_in\<close> says what is left.\<close>

definition hit :: "NodeStatus \<Rightarrow> u64 set \<Rightarrow> DIGSInstanceRole \<Rightarrow> u64 \<Rightarrow> u64 set" where
  "hit s R ro g = {i \<in> R. \<exists>n. GetNode i s = Some n \<and> node_role n = ro \<and> node_group n = g}"

definition scaled_in :: "NodeStatus \<Rightarrow> u64 set \<Rightarrow> NodeStatus \<Rightarrow> bool" where
  "scaled_in s R s' \<longleftrightarrow> omap_ok (mNodes s') \<and> (\<forall>g. GetFlexGroup g s' = [])
     \<and> (\<forall>j. map_option hide_links (GetNode j s') = (if j \<in> R then None else map_option hide_links (GetNode j s)))
     \<and> (\<forall>g ro. distinct (side ro (GetGroup g s')) \<and> set (side ro (GetGroup g s')) = set (side ro (GetGroup g s)) - hit s R ro g)
     \<and> (\<forall>j n k. GetNode j s' = Some k \<longrightarrow> live s j n \<longrightarrow> nd_peers k = side (opposite (node_role n)) (GetGroup (node_group n) s')
          \<or> nd_peers k = nd_peers n \<and> hit s R (opposite (node_role n)) (node_group n) = {})"

lemma side_cut:
  assumes "pd_role ro" shows "side ro (cut_ids ch grp) = fold remove1 (role_ids ro ch) (side ro grp)"
  using assms by (auto simp: pd_role_def cut_ids_def)

lemma ids_hit: assumes "collected s R (gs, m1)" shows "set (role_ids ro (omap_get [] gs g)) = hit s R ro g"
proof -
  have "set (omap_get [] gs g) = {(i, node_role n) |i n. i \<in> R \<and> GetNode i s = Some n \<and> node_group n = g}"
    using assms by (simp add: collected_def)
  then have "i \<in> set (role_ids ro (omap_get [] gs g)) \<longleftrightarrow> i \<in> hit s R ro g" for i by (auto simp: set_role_ids hit_def)
  then show ?thesis by blast
qed

lemma sides_after:
  assumes w: "wired s" and c: "collected s R (gs, m1)"
  shows "distinct (side ro (cut_by (map_of gs g) (GetGroup g s)))"
    and "set (side ro (cut_by (map_of gs g) (GetGroup g s))) = set (side ro (GetGroup g s)) - hit s R ro g"
proof -
  have d: "distinct (side ro (GetGroup g s))" using w by (simp add: wired_def)
  have "distinct (side ro (cut_by (map_of gs g) (GetGroup g s)))
    \<and> set (side ro (cut_by (map_of gs g) (GetGroup g s))) = set (side ro (GetGroup g s)) - hit s R ro g"
  proof (cases "pd_role ro")
    case False
    then show ?thesis by (cases ro) (simp_all add: pd_role_def)
  next
    case True
    note ids = ids_hit [OF c, of ro g]
    show ?thesis using fold_remove1_distinct [OF d, of "role_ids ro (omap_get [] gs g)"] ids d
      by (auto simp: cut_by_def omap_get_def side_cut [OF True] split: option.splits)
  qed
  then show "distinct (side ro (cut_by (map_of gs g) (GetGroup g s)))"
    and "set (side ro (cut_by (map_of gs g) (GetGroup g s))) = set (side ro (GetGroup g s)) - hit s R ro g" by blast+
qed

lemma rewire_peers:
  assumes "wired s" "collected s R (gs, m1)" "live s j n" "j \<notin> R"
    and "rewire (map_of gs (node_group n)) (GetGroup (node_group n) s) [] j (Some ps) = Some qs"
  shows "qs = side (opposite (node_role n)) (cut_by (map_of gs (node_group n)) (GetGroup (node_group n) s))
    \<or> qs = ps \<and> hit s R (opposite (node_role n)) (node_group n) = {}"
proof -
  let ?g = "node_group n"
  note ids = ids_hit [OF assms(2)]
  have n: "GetNode j s = Some n" using assms(3) by (simp add: live_def)
  have "j \<in> set (side (node_role n) (GetGroup ?g s))" and role: "pd_role (node_role n)"
    and uniq: "j \<in> set (side ro (GetGroup ?g s)) \<Longrightarrow> ro = node_role n" for ro
    using wiredD(1) [OF assms(1,3)] wiredD(2,3) [OF assms(1) n] by blast+
  note here = this
  have in_side: "j \<in> set (side (node_role n) (cut_by (map_of gs ?g) (GetGroup ?g s)))"
    unfolding sides_after(2) [OF assms(1,2)] using here(1) assms(4) by (simp add: hit_def)
  have out: "j \<notin> set (side ro (cut_by (map_of gs ?g) (GetGroup ?g s)))" if "ro \<noteq> node_role n" for ro
    unfolding sides_after(2) [OF assms(1,2)] using uniq [of ro] that by blast
  show ?thesis
  proof (cases "map_of gs ?g")
    case None
    then have "hit s R ro ?g = {}" for ro using ids [of ro ?g] by (simp add: omap_get_def)
    with assms(5) None show ?thesis by (simp add: rewire_def)
  next
    case (Some ch)
    then have h: "hit s R ro ?g = {} \<longleftrightarrow> role_ids ro ch = []" for ro using ids [of ro ?g] by (auto simp: omap_get_def)
    from role consider (p) "node_role n = PREFILL_INSTANCE" | (d) "node_role n = DECODE_INSTANCE" by (auto simp: pd_role_def)
    then show ?thesis
    proof cases
      case p
      then show ?thesis using assms(5) in_side out [of DECODE_INSTANCE] h [of DECODE_INSTANCE]
        by (auto simp: Some rewire_def cut_by_def split: if_splits)
    next
      case d
      then show ?thesis using assms(5) in_side out [of PREFILL_INSTANCE] h [of PREFILL_INSTANCE]
        by (auto simp: Some rewire_def cut_by_def split: if_splits)
    qed
  qed
qed

lemma ProcessScaleIn_effect:
  assumes w: "wired (fm_status m)" and p: "ProcessScaleIn cfg now removed m = Some m'"
  shows "scaled_in (fm_status m) (set removed) (fm_status m')"
proof -
  let ?s = "fm_status m" and ?R = "set removed" and ?s' = "fm_status m'"
  obtain gs m1 where f: "fold (scale_in_one now) removed ([], m) = (gs, m1)" by fastforce
  have c: "collected ?s ?R (gs, m1)" using collected_fold [of m removed now] w f by (simp add: wired_def)
  have up: "ScalingUpdateAllGroups cfg SCALE_IN gs m1 = Some m'" using p f by (simp add: ProcessScaleIn_def)
  have "distinct (map fst gs)" using c by (auto simp: collected_def intro: omap_ok_distinct)
  note e = scale_in_groups [OF up this]
  have g1: "GetGroup h (fm_status m1) = GetGroup h ?s" "GetFlexGroup h (fm_status m1) = []" for h
    using c w by (simp_all add: collected_def GetGroup_def GetFlexGroup_def wired_def)
  have n1: "GetNode j (fm_status m1) = (if j \<in> ?R then None else GetNode j ?s)" for j using c by (simp add: collected_def)
  have "nd_peers k = side (opposite (node_role n)) (GetGroup (node_group n) ?s')
      \<or> nd_peers k = nd_peers n \<and> hit ?s ?R (opposite (node_role n)) (node_group n) = {}"
    if "GetNode j ?s' = Some k" "live ?s j n" for j n k
  proof -
    have j: "j \<notin> ?R" using e n1 that(1) by (metis option.simps(8,9) option.distinct(1))
    have "\<forall>h. j \<in> pd_members (GetGroup h ?s) \<longrightarrow> h = node_group n"
      using w that(2) unfolding wired_def live_def pd_members_def by (metis Un_iff side.simps(1,2))
    with e g1 have "peers_of ?s' j = rewire (map_of gs (node_group n)) (GetGroup (node_group n) ?s) [] j (peers_of (fm_status m1) j)" by simp
    then have "rewire (map_of gs (node_group n)) (GetGroup (node_group n) ?s) [] j (Some (nd_peers n)) = Some (nd_peers k)"
      using that j by (simp add: peers_of_def n1 live_def)
    from rewire_peers [OF w c that(2) j this] show ?thesis using e g1 by simp
  qed
  then show ?thesis using e g1 n1 c sides_after [OF w c] unfolding scaled_in_def by (auto simp: collected_def)
qed

lemma scaled_in_old:
  assumes "scaled_in s R s'" "GetNode j s' = Some k"
  obtains n where "j \<notin> R" "GetNode j s = Some n" "node_role n = node_role k" "node_group n = node_group k" "deleteTime n = deleteTime k"
proof -
  have "map_option hide_links (GetNode j s') = (if j \<in> R then None else map_option hide_links (GetNode j s))"
    using assms(1) by (simp add: scaled_in_def)
  with assms(2) obtain n where n: "j \<notin> R" "GetNode j s = Some n" "hide_links n = hide_links k"
    by (cases "GetNode j s") (auto split: if_splits)
  show ?thesis by (rule that [OF n(1,2)]) (rule hide_links_facts [OF n(3)])+
qed

lemma scaled_in_forgets:
  assumes "wired s" "scaled_in s R s'" "i \<in> R" "GetNode i s = Some n"
  shows "i \<notin> pd_members (GetGroup g s')" and "live s' j k \<Longrightarrow> i \<notin> set (nd_peers k)"
proof -
  have no: "i \<notin> set (side ro (GetGroup h s'))" for ro h
  proof
    assume "i \<in> set (side ro (GetGroup h s'))"
    then have "i \<in> set (side ro (GetGroup h s))" "i \<notin> hit s R ro h" using assms(2) by (auto simp: scaled_in_def)
    with wiredD(3) [OF assms(1,4)] assms(3,4) show False by (auto simp: hit_def)
  qed
  from no [of PREFILL_INSTANCE g] no [of DECODE_INSTANCE g] show "i \<notin> pd_members (GetGroup g s')" by (simp add: pd_members_def)
  assume l: "live s' j k"
  then obtain q where q: "live s j q" using scaled_in_old [OF assms(2)] unfolding live_def by metis
  from assms(2) l q consider "nd_peers k = side (opposite (node_role q)) (GetGroup (node_group q) s')"
    | "nd_peers k = nd_peers q" "hit s R (opposite (node_role q)) (node_group q) = {}"
    unfolding scaled_in_def live_def by blast
  then show "i \<notin> set (nd_peers k)"
  proof cases
    case 2
    with wiredD(4) [OF assms(1) q _ assms(4)] assms(3,4) show ?thesis by (auto simp: hit_def)
  qed (simp add: no)
qed

lemma scaled_in_wired: assumes "wired s" "scaled_in s R s'" shows "wired s'"
proof -
  have sub: "i \<in> set (side ro (GetGroup g s'))  \<Longrightarrow> i \<in> set (side ro (GetGroup g s))" for i ro g
    using assms(2) by (auto simp: scaled_in_def)
  have a: "pd_role (node_role k)" if "GetNode i s' = Some k" for i k
    using scaled_in_old [OF assms(2) that] assms(1) by (metis wired_def)
  have b: "node_role k = ro \<and> node_group k = g" if "GetNode i s' = Some k" "i \<in> set (side ro (GetGroup g s'))" for i k ro g
    using scaled_in_old [OF assms(2) that(1)] sub [OF that(2)] assms(1) unfolding wired_def by metis
  have c: "i \<in> set (side (node_role k) (GetGroup (node_group k) s'))" if "live s' i k" for i k
  proof -
    from that obtain n where n: "i \<notin> R" "live s i n" "node_role n = node_role k" "node_group n = node_group k"
      using scaled_in_old [OF assms(2)] unfolding live_def by metis
    then have "i \<in> set (side (node_role k) (GetGroup (node_group k) s))" using assms(1) unfolding wired_def by metis
    with n(1) assms(2) show ?thesis by (auto simp: scaled_in_def hit_def)
  qed
  have d: "node_role m = opposite (node_role k) \<and> node_group m = node_group k"
    if l: "live s' i k" and p: "p \<in> set (nd_peers k)" and m: "GetNode p s' = Some m" for i k p m
  proof -
    from l obtain n where n: "live s i n" "node_role n = node_role k" "node_group n = node_group k"
      using scaled_in_old [OF assms(2)] unfolding live_def by metis
    obtain q where q: "GetNode p s = Some q" "node_role q = node_role m" "node_group q = node_group m" using scaled_in_old [OF assms(2) m] by blast
    from assms(2) l n(1) consider "nd_peers k = side (opposite (node_role n)) (GetGroup (node_group n) s')" | "nd_peers k = nd_peers n"
      unfolding scaled_in_def live_def by blast
    then show ?thesis
    proof cases
      case 1
      with p n b [OF m] show ?thesis by simp
    next
      case 2
      with assms(1) n p q show ?thesis unfolding wired_def by metis
    qed
  qed
  show ?thesis unfolding wired_def using assms(2) a b c d by (auto simp: scaled_in_def)
qed

subsection \<open>Scaling in returns\<close>

text \<open>\<open>servable\<close>: every node has a server, and either all nodes are in a super pod or none is. Without the first a debug message
  reads an empty vector, without the second building the role message throws.\<close>

definition servable :: "NodeStatus \<Rightarrow> bool" where
  "servable s \<longleftrightarrow> (\<exists>b. \<forall>i n. GetNode i s = Some n \<longrightarrow> serverInfoList n \<noteq> [] \<and> (superPodId (hd (serverInfoList n)) \<noteq> None) = b)"

lemma servable_sub:
  assumes "servable s" "\<And>j k. GetNode j s' = Some k \<Longrightarrow> \<exists>n. GetNode j s = Some n \<and> serverInfoList n = serverInfoList k"
  shows "servable s'"
proof -
  obtain b where b: "serverInfoList n \<noteq> [] \<and> (superPodId (hd (serverInfoList n)) \<noteq> None) = b" if "GetNode i s = Some n" for i n
    using assms(1) unfolding servable_def by blast
  have "serverInfoList k \<noteq> [] \<and> (superPodId (hd (serverInfoList k)) \<noteq> None) = b" if "GetNode j s' = Some k" for j k
  proof -
    from assms(2) [OF that] obtain n where "GetNode j s = Some n" "serverInfoList n = serverInfoList k" by blast
    with b [OF this(1)] show ?thesis by simp
  qed
  then show ?thesis unfolding servable_def by blast
qed

lemma servable_report: assumes "servable s" "report_only s s'" shows "servable s'"
proof (rule servable_sub [OF assms(1)])
  fix j k
  assume "GetNode j s' = Some k"
  from frame_lookup(2) [OF assms(2) this] show "\<exists>n. GetNode j s = Some n \<and> serverInfoList n = serverInfoList k" using hide_report_eq(6) by blast
qed

lemma hide_links_servers: "hide_links a = hide_links b \<Longrightarrow> serverInfoList a = serverInfoList b"
proof -
  assume "hide_links a = hide_links b"
  then have "serverInfoList (hide_links a) = serverInfoList (hide_links b)" by simp
  then show ?thesis by (simp add: hide_links_def hide_report_def upd_static_def)
qed

lemma servable_links:
  assumes "servable s" "\<And>j. map_option hide_links (GetNode j s') = map_option hide_links (GetNode j s)" shows "servable s'"
proof (rule servable_sub [OF assms(1)])
  fix j k
  assume "GetNode j s' = Some k"
  with assms(2) [of j] obtain n where "GetNode j s = Some n" "hide_links n = hide_links k" by (cases "GetNode j s") auto
  then show "\<exists>n. GetNode j s = Some n \<and> serverInfoList n = serverInfoList k" using hide_links_servers by blast
qed

lemma peers_v1_total:
  "(\<And>i p. (i, p) \<in> set ps \<Longrightarrow> superPodId (hd (serverInfoList p)) \<noteq> None \<Longrightarrow> superPodId (hd (serverInfoList n)) \<noteq> None) \<Longrightarrow> peers_v1 n ps \<noteq> None"
proof (induction ps)
  case (Cons x ps)
  obtain i p where x: "x = (i, p)" by fastforce
  have "peers_v1 n ps \<noteq> None" by (rule Cons.IH) (meson Cons.prems list.set_intros(2))
  moreover have "peer_v1 n i p \<noteq> None" using Cons.prems [of i p] x
    by (cases "superPodId (hd (serverInfoList p))"; cases "superPodId (hd (serverInfoList n))") (simp_all add: peer_v1_def Let_def)
  ultimately show ?case by (auto simp: x)
qed simp

lemma sized_parts:
  assumes "SetSpSizeForNodes cfg n0 = Some n1" "SetCpSizeForNodes cfg n1 = Some n" "serverInfoList n0 \<noteq> []"
  shows "nd_peers n = nd_peers n0" "serverInfoList n \<noteq> []" "superPodId (hd (serverInfoList n)) = superPodId (hd (serverInfoList n0))"
proof -
  have "nd_peers n1 = nd_peers n0 \<and> serverInfoList n1 \<noteq> [] \<and> superPodId (hd (serverInfoList n1)) = superPodId (hd (serverInfoList n0))"
    using assms(1,3) by (cases "node_role n0") (auto simp: SetSpSizeForNodes_def hd_map)
  moreover have "nd_peers n = nd_peers n1 \<and> (serverInfoList n1 \<noteq> [] \<longrightarrow> serverInfoList n \<noteq> [] \<and> superPodId (hd (serverInfoList n)) = superPodId (hd (serverInfoList n1)))"
    using assms(2) by (cases "node_role n1") (auto simp: SetCpSizeForNodes_def hd_map split: if_splits)
  ultimately show "nd_peers n = nd_peers n0" "serverInfoList n \<noteq> []" "superPodId (hd (serverInfoList n)) = superPodId (hd (serverInfoList n0))" by auto
qed

lemma PostSingleRole_total:
  assumes "servable (status w)" "GetNode i (status w) = Some n0"
  shows "PostSingleRole cfg n0 w \<noteq> None"
proof -
  obtain b where b: "serverInfoList n \<noteq> [] \<and> (superPodId (hd (serverInfoList n)) \<noteq> None) = b" if "GetNode i (status w) = Some n" for i n
    using assms(1) unfolding servable_def by blast
  have s0: "serverInfoList n0 \<noteq> []" using b [OF assms(2)] by blast
  then obtain n1 where n1: "SetSpSizeForNodes cfg n0 = Some n1" "serverInfoList n1 \<noteq> []"
    by (cases "node_role n0") (auto simp: SetSpSizeForNodes_def)
  then obtain n where n: "SetCpSizeForNodes cfg n1 = Some n"
    by (cases "node_role n1") (auto simp: SetCpSizeForNodes_def)
  note p = sized_parts [OF n1(1) n s0]
  have "peers_v1 n (live_peers (status w) n) \<noteq> None"
  proof (rule peers_v1_total)
    fix j q
    assume "(j, q) \<in> set (live_peers (status w) n)" and "superPodId (hd (serverInfoList q)) \<noteq> None"
    then have "b" using b [of j q] by (auto simp: live_peers_set live_def)
    then show "superPodId (hd (serverInfoList n)) \<noteq> None" using b [OF assms(2)] p(3) by simp
  qed
  with p(2) have "BuildPostRoleReqBody cfg (status w) n \<noteq> None" by (simp add: BuildPostRoleReqBody_def)
  then show ?thesis by (auto simp: PostSingleRole_def n1(1) n simp del: not_None_eq split: if_splits)
qed

lemma batch_post_total: "servable (status w) \<Longrightarrow> batch_post cfg t0 is acc w \<noteq> None"
proof (induction "is" arbitrary: acc w)
  case (Cons i "is")
  have "PostSingleRoleById cfg i w \<noteq> None"
    using PostSingleRole_total [OF Cons.prems] by (auto simp: PostSingleRoleById_def split: option.splits)
  then obtain ok w1 where p: "PostSingleRoleById cfg i w = Some (ok, w1)" by fastforce
  have "servable (status w1)" by (rule servable_report [OF Cons.prems soft_report [OF conjunct1 [OF PostSingleRoleById_effect [OF p]]]])
  from Cons.IH [OF this] p show ?case by (auto split: if_splits simp del: not_None_eq)
qed simp

lemma update_group_total:
  assumes "servable (fm_status m)" shows "update_group cfg SCALE_IN g ch m \<noteq> None"
proof -
  let ?s = "fm_status m" and ?grp = "cut_ids ch (GetGroup g (fm_status m))"
  let ?msg = "BuildGroupUpdateMsg g SCALE_IN ch ?s"
  obtain msg2 s2 where u: "UpdateGroupRoleStateAndPeers ?msg (UpdateGroup g ?grp ?s) = (msg2, s2)" by fastforce
  note e = UpdateGroupRole_effect [OF u]
  have new: "targetNewNodeIds msg2 = []" using e(4) by (simp add: build_scale_in)
  have "GetNode j (UpdateGroup g ?grp ?s) = GetNode j ?s" for j
    by (rule UpdateGroup_effect(3)) (simp add: cut_ids_def GetGroup_def omap_get_def)
  then have "servable s2" using frame_nodes [OF e(1)] by (intro servable_links [OF assms]) simp
  then have "post_batch cfg is (on_status (\<lambda>_. s2) m) \<noteq> None" for "is"
    using batch_post_total [of "fm_world (on_status (\<lambda>_. s2) m)"] by (auto simp: post_batch_def BatchPostRole_def on_status_def)
  moreover have "pNodes ?msg = fst ?grp" "dNodes ?msg = snd ?grp" by (simp_all add: build_scale_in)
  ultimately show ?thesis using u new by (simp add: update_group_def post_batch_def [of _ "[]"] wait_exit_def)
qed

lemma scale_in_groups_total: "servable (fm_status m) \<Longrightarrow> ScalingUpdateAllGroups cfg SCALE_IN gs m \<noteq> None"
proof (induction gs arbitrary: m)
  case (Cons c gs)
  obtain g ch where c: "c = (g, ch)" by fastforce
  from update_group_total [OF Cons.prems, of cfg g ch] obtain st m1 where u: "update_group cfg SCALE_IN g ch m = Some (st, m1)" by fastforce
  from update_group_scale_in [OF u] have "\<not> st" and "map_option hide_links (GetNode j (fm_status m1)) = map_option hide_links (GetNode j (fm_status m))" for j
    by (auto simp: regroup_def)
  from Cons.IH [OF servable_links [OF Cons.prems this(2)]] \<open>\<not> st\<close> u show ?case by (simp add: c)
qed simp

lemma ProcessScaleIn_total:
  assumes "wired (fm_status m)" "servable (fm_status m)" shows "ProcessScaleIn cfg now removed m \<noteq> None"
proof -
  obtain gs m1 where f: "fold (scale_in_one now) removed ([], m) = (gs, m1)" by fastforce
  have "collected (fm_status m) (set removed) (gs, m1)" using collected_fold [of m removed now] assms(1) f by (simp add: wired_def)
  then have "servable (fm_status m1)" by (intro servable_sub [OF assms(2)]) (auto simp: collected_def split: if_splits)
  from scale_in_groups_total [OF this] f show ?thesis by (simp add: ProcessScaleIn_def)
qed

subsection \<open>The claim\<close>

text \<open>C20: scaling in forgets the instances that left the rank table. It starts from a table without flex instances in which every
  instance is prefill or decode, an instance in use is on the list of its group for its role, and peers have opposite roles and the
  same group (\<open>wired\<close>). Afterwards every removed instance that the table had is in no table entry, in no group and in the peer
  list of no instance in use; all other instances stay, with their role and group; and the table keeps its shape. The operation
  returns whenever every node has a server and either all nodes are in a super pod or none is, whatever the instances
  answer.\<close>

theorem scale_in_forgets_instance:
  assumes "wired (fm_status m)"
  shows "(servable (fm_status m) \<longrightarrow> (\<exists>m'. ProcessScaleIn cfg now removed m = Some m'))
    \<and> (\<forall>m'. ProcessScaleIn cfg now removed m = Some m' \<longrightarrow> wired (fm_status m')
        \<and> (\<forall>i \<in> set removed. GetNode i (fm_status m') = None \<and> (GetNode i (fm_status m) \<noteq> None \<longrightarrow>
              (\<forall>g. i \<notin> pd_members (GetGroup g (fm_status m'))) \<and> (\<forall>j n. live (fm_status m') j n \<longrightarrow> i \<notin> set (nd_peers n))))
        \<and> (\<forall>j n. j \<notin> set removed \<longrightarrow> GetNode j (fm_status m) = Some n \<longrightarrow>
              (\<exists>k. GetNode j (fm_status m') = Some k \<and> node_role k = node_role n \<and> node_group k = node_group n)))"
proof (intro conjI allI impI ballI)
  show "\<exists>m'. ProcessScaleIn cfg now removed m = Some m'" if "servable (fm_status m)"
    using ProcessScaleIn_total [OF assms that] by fast
next
  fix m'
  assume "ProcessScaleIn cfg now removed m = Some m'"
  note e = ProcessScaleIn_effect [OF assms this]
  have nodes: "map_option hide_links (GetNode j (fm_status m')) = (if j \<in> set removed then None else map_option hide_links (GetNode j (fm_status m)))" for j
    using e by (simp add: scaled_in_def)
  show "wired (fm_status m')" by (rule scaled_in_wired [OF assms e])
  show "GetNode i (fm_status m') = None" if "i \<in> set removed" for i using nodes [of i] that by simp
  show "i \<notin> pd_members (GetGroup g (fm_status m'))" if "i \<in> set removed" "GetNode i (fm_status m) \<noteq> None" for i g
    using scaled_in_forgets [OF assms e] that by blast
  show "i \<notin> set (nd_peers n)" if "i \<in> set removed" "GetNode i (fm_status m) \<noteq> None" "live (fm_status m') j n" for i j n
    using scaled_in_forgets [OF assms e] that by blast
  show "\<exists>k. GetNode j (fm_status m') = Some k \<and> node_role k = node_role n \<and> node_group k = node_group n"
    if "j \<notin> set removed" "GetNode j (fm_status m) = Some n" for j n
  proof -
    from nodes [of j] that obtain k where "GetNode j (fm_status m') = Some k" "hide_links k = hide_links n" by auto
    with hide_links_facts [of k n] show ?thesis by blast
  qed
qed

definition ex_fault_manager :: "(Reply \<times> int option) list \<Rightarrow> FaultManager" where
  "ex_fault_manager replies = \<lparr>fm_world = ex_world replies, mFaultyGroupInstanceInfo = [], mHardwareFaultyNodes = [], mSoftwareFaultyNodes = [],
     mScaleInTimerMode = 0, timerActive = False, isNeedWaitNpuProcessExit = False, waits = [], aborted = []\<rparr>"

lemma ex_wired: "wired (fm_status (ex_fault_manager r))"
proof -
  let ?s = "fm_status (ex_fault_manager r)"
  have g: "GetGroup h ?s = (if h = 0 then ([1], [2]) else ([], []))" "GetFlexGroup h ?s = []" for h
    by (simp_all add: ex_fault_manager_def ex_world_def GetGroup_def GetFlexGroup_def omap_get_def empty_status_def)
  have n: "GetNode i ?s = (if i = 1 then Some (ex_member 1 PREFILL_INSTANCE [2]) else if i = 2 then Some (ex_member 2 DECODE_INSTANCE [1]) else None)" for i
    by (simp add: ex_fault_manager_def ex_world_def GetNode_def)
  have m: "node_role (ex_member i ro ps) = ro" "node_group (ex_member i ro ps) = 0" "nd_peers (ex_member i ro ps) = ps" for i ro ps
    by (simp_all add: ex_member_def upd_static_def default_node_def default_static_def)
  have sd: "side ro (GetGroup h ?s) = (if h = 0 then (if ro = PREFILL_INSTANCE then [1] else if ro = DECODE_INSTANCE then [2] else []) else [])" for h ro
    by (cases ro) (simp_all add: g)
  have ok: "omap_ok (mNodes ?s)" by (simp add: ex_fault_manager_def ex_world_def omap_simps)
  show ?thesis unfolding wired_def live_def sd n g(2) using ok by (auto simp: m pd_role_def split: if_splits)
qed

lemma ex_servable: "servable (fm_status (ex_fault_manager r))"
  unfolding servable_def by (rule exI [of _ False]) (simp add: ex_fault_manager_def ex_world_def GetNode_def ex_member_def upd_static_def)

theorem scale_in_forgets_instance_witness:
  "\<exists>m'. ProcessScaleIn ex_srv_cfg 7 [1] (ex_fault_manager [ex_ok]) = Some m' \<and> GetNode 1 (fm_status m') = None \<and> 1 \<notin> pd_members (GetGroup 0 (fm_status m'))
     \<and> (\<exists>k. GetNode 2 (fm_status m') = Some k)"
proof -
  let ?m = "ex_fault_manager [ex_ok]"
  note t = scale_in_forgets_instance [OF ex_wired [of "[ex_ok]"], of ex_srv_cfg 7 "[1]"]
  from t ex_servable obtain m' where m': "ProcessScaleIn ex_srv_cfg 7 [1] ?m = Some m'" by blast
  have n1: "GetNode 1 (fm_status ?m) \<noteq> None" by (simp add: ex_fault_manager_def ex_world_def GetNode_def)
  obtain n where n2: "GetNode 2 (fm_status ?m) = Some n" by (simp add: ex_fault_manager_def ex_world_def GetNode_def)
  have "(2 :: u64) \<notin> set [1]" by simp
  with t m' n2 have "\<exists>k. GetNode 2 (fm_status m') = Some k" by blast
  with t n1 m' show ?thesis by auto
qed

end
