(* ===== verification/Spec2Isabelle.thy ===== *)
theory Spec2Isabelle
  imports Refresh_Effect Sample_Run Default_Scheduler Role_Run Relink Dp_Grouping Group_Generator Scale_In
begin

text \<open>
  A verification development for MindIE Motor (\<^verbatim>\<open>src/mindie_motor/src\<close>, C++), the service that spreads inference
  requests over a cluster of model instances.

  \<^bold>\<open>The program.\<close> The coordinator accepts requests from users, chooses a prefill and a decode instance for each (or a
  single instance), forwards the request and streams the answer back. The controller watches the cluster and keeps the
  coordinator's picture of it up to date through a management port. Inside the coordinator:

  \<^item> two interchangeable schedulers choose the instances: DIGS (\<^verbatim>\<open>coordinator/digs_scheduler\<close>, \<^verbatim>\<open>coordinator/request\<close>,
    \<^verbatim>\<open>coordinator/resource\<close>), which accounts for the demand of every request at every instance, and the default scheduler
    (\<^verbatim>\<open>coordinator/scheduler/default_scheduler\<close>), which polls the instances in turn or follows the prefix cache;
  \<^item> the cluster monitor (\<^verbatim>\<open>coordinator/cluster_monitor\<close>) holds the table of instances with their tasks and faults;
  \<^item> the request monitor (\<^verbatim>\<open>coordinator/request_monitor\<close>) holds the requests in flight and moves their tasks between the
    instances as their state changes;
  \<^item> the controller listener (\<^verbatim>\<open>coordinator/controller_listener\<close>) applies the controller's messages to the table, the requests
    and the scheduler.

  \<^bold>\<open>Modelling.\<close> A 64-bit integer is a \<open>64 word\<close> and wraps around; a size of a container that stays below \<open>2 ^ 64\<close> is a natural
  number. A \<^verbatim>\<open>double\<close> is a rational rounded to binary64 or an infinity. A \<^verbatim>\<open>std::map\<close> is an association list with increasing
  keys, so that iteration order is kept; shared pointers are addresses into a heap where objects are shared. A function
  that can dereference a null pointer, call an undefined operation or fail to return gives an option. The threads of the
  program take turns at the granularity of its critical sections: one client call, one round of the scheduler thread, one
  round of the notification thread, one handler. Code outside of \<^verbatim>\<open>src/\<close> and values from outside are arguments: the clock,
  the outcome of timed locks and of connection attempts, \<^verbatim>\<open>std::hash\<close>, \<^verbatim>\<open>inet_pton\<close>, the JSON parser (a message is the record
  of the fields the code reads, each present, of the wrong type or missing) and \<^verbatim>\<open>std::sort\<close>, of which only the contract in
  the locale \<open>std_sort\<close> is used. Calls that leave the modelled part are recorded in order as effects.

  \<^bold>\<open>The theories.\<close>

  \<^item> \<open>Prelude\<close>, \<open>Binary64\<close>: ordered maps (locale \<open>keyed_store\<close>), the contract of \<^verbatim>\<open>std::sort\<close> and a stable sort that meets it,
    floating-point numbers with their rounding error.
  \<^item> \<open>Digs_Types\<close>, \<open>Meta_Resource\<close>, \<open>Digs_Request\<close>, \<open>Request_Manager\<close>, \<open>Resource_Info\<close>, \<open>Resource_Manager\<close>,
    \<open>Scheduler_Policies\<close>, \<open>Schedule_Framework\<close>, \<open>Global_Scheduler\<close>: the DIGS scheduler, file by file
    (\<^verbatim>\<open>common/digs\<close>, \<^verbatim>\<open>meta_resource\<close>, \<^verbatim>\<open>digs_request\<close>, \<^verbatim>\<open>request_manager\<close>, \<^verbatim>\<open>resource_info\<close>, \<^verbatim>\<open>resource_manager\<close> with its view
    manager, the three kinds of policies, \<^verbatim>\<open>schedule_framework\<close>, \<^verbatim>\<open>global_scheduler\<close> and \<^verbatim>\<open>digs_scheduler_impl\<close>).
  \<^item> \<open>Accounting\<close>, \<open>Books_Steps\<close>, \<open>Scheduling_Pass\<close>, \<open>Queues\<close>, \<open>Digs_Run\<close>, \<open>Sample_Run\<close>: runs of DIGS. The books balance, the
    queues fit the states of the requests, a scheduling pass places requests on connected instances of one group; the
    sample run exercises the theorems. The properties of DIGS as a whole are in this theory.
  \<^item> \<open>Node_Store\<close>, \<open>Ring_Scan\<close>, \<open>Round_Robin_Executor\<close>, \<open>LRU_Cache\<close>, \<open>Prefix_Cache_Executor\<close>, \<open>Default_Scheduler\<close>: the default
    scheduler. The polling loop shared by the executors is the locale \<open>ring_scan\<close>, the cache the executor relies on the
    locale \<open>session_cache\<close>; the cache with its iterators refines a bounded queue.
  \<^item> \<open>Cluster_Nodes\<close>, \<open>Flex_Instances\<close>: the table of instances and the resolution of a flex instance into a prefill and a
    decode instance (\<^verbatim>\<open>ClusterNodes.cpp\<close>).
  \<^item> \<open>Req_Agent\<close>, \<open>Request_Registry\<close>, \<open>Request_Accounting\<close>: requests in flight (\<^verbatim>\<open>ReqAgent.cpp\<close>, \<^verbatim>\<open>RequestMgr.cpp\<close>) and the
    streaming of an answer; task sets and statistics as invariants of runs in which the states of a request are reported in
    order, and what goes wrong outside of them.
  \<^item> \<open>Controller_Listener\<close>, \<open>Listener_Queries\<close>, \<open>Cluster_Sync\<close>, \<open>Refresh_Effect\<close>: the management port
    (\<^verbatim>\<open>ControllerListener.cpp\<close>, \<^verbatim>\<open>DExceptionHandler.cpp\<close>). The scheduler is the locale \<open>node_registry\<close>, interpreted on the node
    store: what the coordinator tells it always matches the table.

  \<^bold>\<open>Hypotheses and bounds.\<close> The properties of DIGS hold for runs (\<open>digs_run\<close>) in which no sum of demands exceeds \<open>2 ^ 64\<close>
  (\<open>fits\<close>), the configured weights are the ones the code can parse (\<open>weights_ok\<close>) and \<open>srt\<close> is a \<^verbatim>\<open>std::sort\<close>; \<open>C\<close> is the set
  of ids that were closed or removed, for which the books need not balance. The polling loops are partial functions into an
  option type and proved to return. The mutual recursion of adding and updating an instance is unfolded to depth two,
  which is proved to be enough. Capacities that are scaled by a percentage are below \<open>2 ^ 50\<close>, where binary64 is precise
  enough.

  \<^bold>\<open>Not modelled.\<close> Network and file input and output: HTTP and gRPC clients and servers, TLS, connection pools, shared memory,
  leader election, metrics, logging. The rewriting of request bodies in the repeaters. The parsing of configuration files.
  The exception, health and performance monitors of the coordinator. Of the controller: node scheduling, role decisions, fault recovery and process management, which are planned next.
\<close>

text \<open>C1: in every reachable state the demand recorded at an instance that was never closed or removed is,
  for each stage and each attribute, exactly the sum of the demands of the requests that hold an
  unreleased allocation on it. Allocation, rescheduling, failed placement and release never
  lose or double count a demand.\<close>

theorem instance_demand_is_sum_of_holders:
  assumes "digs_run srt gc C s" and "std_sort srt" and "weights_ok (metaCfg (gcfg gc))"
    and "i \<notin> C" and "map_of (resourceMap (resourceManager s)) i = Some (a, l)" and "k < dims (gcfg gc)"
  shows "unat (attributes (stage_demands stage (sched_of (resourceManager s) a)) ! k)
    = held (gcfg gc) (requestManager s) stage i k"
proof -
  have "books_at (gcfg gc) (requestManager s) (resourceManager s) i"
    using ginv_run [OF assms(1-3)] assms(4) by (simp add: ginv_def books_def)
  with assms(5,6) show ?thesis by (simp add: books_at_def)
qed

theorem instance_demand_is_sum_of_holders_witness:
  "unat (attributes (stage_demands PREFILL (sched_of (resourceManager ex_s3) 0)) ! 0)
    = held (gcfg ex_gc) (requestManager ex_s3) PREFILL 1 0"
  by (rule instance_demand_is_sum_of_holders [OF ex_run3 stable.std_sort_axioms ex_weights _ ex_s3_inst(1)])
     (simp_all add: ex_static)

text \<open>C2: a scheduler round that has work to do, obtains the instance lock and finds an open instance leaves
  no ended request with an allocation: after it, every request in state DECODE_END has given back
  both its prefill and its decode share.\<close>

theorem ended_requests_hold_nothing:
  assumes "digs_run srt gc C s" and "std_sort srt" and "weights_ok (metaCfg (gcfg gc))"
    and "scheduler_round srt gc now locks True s = Some s'"
    and "requestUpdated s \<or> schedulingReqs s \<noteq> []
      \<or> waitingQueue (requestManager s) \<noteq> [] \<and> 0 < locks \<and> 0 < maxScheduleCount gc"
    and "map_of (resourceMap (resourceManager s)) i = Some (b, l)"
    and "\<not> isInstanceClosed (sched_of (resourceManager s) b)"
    and "state (reqHeap (requestManager s') a) = DECODE_END"
  shows "\<not> holds st j (reqHeap (requestManager s') a)"
  by (rule round_full [OF ginv_run [OF assms(1-3)] assms(4) assms(2,3) _ assms(5-8)]) simp

theorem ended_requests_hold_nothing_witness:
  "state (reqHeap (requestManager ex_s6) 0) = DECODE_END \<and> \<not> holds PREFILL 1 (reqHeap (requestManager ex_s6) 0)"
proof (rule conjI [OF ex_s6_ended])
  have "requestUpdated ex_s5 \<or> schedulingReqs ex_s5 \<noteq> []
    \<or> waitingQueue (requestManager ex_s5) \<noteq> [] \<and> (0::nat) < 10 \<and> 0 < maxScheduleCount ex_gc" by (simp add: ex_s5_facts)
  from ended_requests_hold_nothing [OF ex_run5 stable.std_sort_axioms ex_weights ex_round6 this
      ex_s5_facts(3,4) ex_s6_ended]
  show "\<not> holds PREFILL 1 (reqHeap (requestManager ex_s6) 0)" .
qed

text \<open>C3: a scheduler round always completes without touching a null allocation record when the
  dynamic limits are switched off, whatever the outcome of its timed locks.\<close>

theorem scheduler_round_completes:
  assumes "digs_run srt gc C s" and "std_sort srt" and "weights_ok (metaCfg (gcfg gc))"
    and "\<not> isDynamicMaxResEnabled (gcfg gc)"
  shows "\<exists>s'. scheduler_round srt gc now locks owns_lock s = Some s'"
  by (rule round_total [OF assms(2,3) ginv_run [OF assms(1-3)] assms(4)])

theorem scheduler_round_completes_witness:
  "\<exists>s'. scheduler_round stable_sort ex_gc 5 10 True ex_s3 = Some s'"
  by (rule scheduler_round_completes [OF ex_run3 stable.std_sort_axioms ex_weights]) (simp add: ex_static)

text \<open>C4: no request is lost or queued twice: the waiting, scheduling and notification queues are disjoint and
  free of duplicates, the waiting queue holds exactly the requests in state WAITING, and every
  request being scheduled is in the scheduling or the notification queue and on the processing
  queue.\<close>

theorem requests_never_lost:
  assumes "digs_run srt gc C s" and "std_sort srt" and "weights_ok (metaCfg (gcfg gc))"
  shows "distinct (waitingQueue (requestManager s) @ schedulingReqs s @ notifyQueue s)
    \<and> {a. a < nextReq (requestManager s) \<and> state (reqHeap (requestManager s) a) = WAITING}
        = set (waitingQueue (requestManager s))
    \<and> {a. a < nextReq (requestManager s) \<and> state (reqHeap (requestManager s) a) = SCHEDULING}
        \<subseteq> (set (schedulingReqs s) \<union> set (notifyQueue s)) \<inter> set (processingQueue (requestManager s))"
proof -
  have "queues_ok (requestManager s) (schedulingReqs s) (notifyQueue s)"
    using ginv_run [OF assms] by (simp add: ginv_def)
  note D = queues_okD [OF this]
  have "{a. a < nextReq (requestManager s) \<and> state (reqHeap (requestManager s) a) = WAITING}
      = set (waitingQueue (requestManager s))" using D(2) D(3) D(4) by blast
  moreover have "a \<in> (set (schedulingReqs s) \<union> set (notifyQueue s)) \<inter> set (processingQueue (requestManager s))"
    if "a < nextReq (requestManager s)" "state (reqHeap (requestManager s) a) = SCHEDULING" for a
    using D(5) [OF that] D(6) [of a] that by simp
  ultimately show ?thesis using D(1) by blast
qed

theorem requests_never_lost_witness:
  "{a. a < nextReq (requestManager ex_s3) \<and> state (reqHeap (requestManager ex_s3) a) = WAITING} = {0}"
  using requests_never_lost [OF ex_run3 stable.std_sort_axioms ex_weights] by (simp add: ex_s3_queues)

text \<open>C9: when every request has ended, one such round brings the recorded demands of every instance
  that was never closed or removed back to zero.\<close>

theorem drained_instances_idle:
  assumes "digs_run srt gc C s" and "std_sort srt" and "weights_ok (metaCfg (gcfg gc))"
    and "\<not> schedulerTerminate s" and "scheduler_round srt gc now locks True s = Some s'"
    and "requestUpdated s \<or> schedulingReqs s \<noteq> []
      \<or> waitingQueue (requestManager s) \<noteq> [] \<and> 0 < locks \<and> 0 < maxScheduleCount gc"
    and "map_of (resourceMap (resourceManager s)) i = Some (b, l)"
    and "\<not> isInstanceClosed (sched_of (resourceManager s) b)"
    and "\<And>a. a < nextReq (requestManager s') \<Longrightarrow> state (reqHeap (requestManager s') a) = DECODE_END"
    and "j \<notin> C" and "map_of (resourceMap (resourceManager s')) j = Some (c, m)" and "k < dims (gcfg gc)"
  shows "unat (attributes (stage_demands stage (sched_of (resourceManager s') c)) ! k) = 0"
proof -
  have "\<not> holds stage j (reqHeap (requestManager s') a)" if "a < nextReq (requestManager s')" for a
    by (rule round_full [OF ginv_run [OF assms(1-3)] assms(5) assms(2,3) _ assms(6-8) assms(9) [OF that]]) simp
  then have "held (gcfg gc) (requestManager s') stage j k = 0" by (simp add: held_def holding_def)
  moreover have "digs_run srt gc C s'" by (rule digs_run.round [OF assms(1,4,5)])
  then have "books_at (gcfg gc) (requestManager s') (resourceManager s') j"
    using ginv_run [OF _ assms(2,3)] assms(10) by (auto simp: ginv_def books_def)
  ultimately show ?thesis using assms(11,12) by (simp add: books_at_def)
qed

theorem drained_instances_idle_witness:
  "unat (attributes (stage_demands DECODE (sched_of (resourceManager ex_s6) 1)) ! 1) = 0"
proof (rule drained_instances_idle [OF ex_run5 stable.std_sort_axioms ex_weights _ ex_round6 _ ex_s5_facts(3,4) _ _ ex_s6_facts(2)])
  show "requestUpdated ex_s5 \<or> schedulingReqs ex_s5 \<noteq> []
    \<or> waitingQueue (requestManager ex_s5) \<noteq> [] \<and> (0::nat) < 10 \<and> 0 < maxScheduleCount ex_gc" by (simp add: ex_s5_facts)
  show "state (reqHeap (requestManager ex_s6) a) = DECODE_END" if "a < nextReq (requestManager ex_s6)" for a
    using that ex_s6_ended by (simp add: ex_s6_facts)
qed (simp_all add: ex_s5_facts ex_s6_facts ex_static)

end
